(* ===== verification/Prelude.thy ===== *)
theory Prelude
  imports
    Main
    "HOL-Library.List_Lexorder"
    "HOL-Library.Char_ord"
    "HOL-Library.Product_Lexorder"
    "HOL-Library.Multiset"
    "HOL-Library.Sublist"
begin

text \<open>
  Shared vocabulary of the development.

  A Go \<open>string\<close> is a sequence of bytes, so it is modelled by HOL's \<open>string\<close> (a list of 8-bit
  \<open>char\<close>s): \<open>len\<close> is \<open>length\<close>, \<open>==\<close> is equality and \<open><\<close> is the bytewise lexicographic order,
  which is the \<open>linorder\<close> instance of \<open>HOL-Library.List_Lexorder\<close> over
  \<open>HOL-Library.Char_ord\<close>. The functions of package \<open>strings\<close> that the sources call are
  defined here:
  \<^item> \<open>TrimSpace\<close> removes the Unicode white space of \<open>unicode.IsSpace\<close> in its UTF-8 encoding,
    on both ends;
  \<^item> \<open>ToLower\<close> is exact on every character whose lower case is an ASCII character (the letters
    \<open>A\<close> to \<open>Z\<close>, the Kelvin sign and the dotted capital I); a non-ASCII letter with a non-ASCII
    lower case is left as it is. A comparison of its result with an ASCII constant, which is
    all the sources do with it on the paths modelled, is therefore exact;
  \<^item> \<open>Contains\<close>, \<open>HasPrefix\<close>, \<open>HasSuffix\<close>, \<open>TrimPrefix\<close>, \<open>TrimSuffix\<close>, \<open>Trim\<close>, \<open>Split\<close>
    and \<open>ContainsAny\<close> are exact.

  The second half holds the vocabulary of tables: a table is a list of rows, an \<open>UPDATE\<close> is
  \<open>update_where\<close>, a lookup by key is \<open>find\<close>, and the facts on them are collected in
  \<open>table_simps\<close>.
\<close>

named_theorems go_strings \<open>unfoldings of the string functions, for evaluation\<close>
named_theorems table_simps \<open>facts on tables as lists of rows\<close>

section \<open>Results\<close>

text \<open>A Go function that returns \<open>(T, error)\<close> returns a value of \<open>'e + 'a\<close>, \<open>Inl\<close> for an error.\<close>

definition bind_r :: "'e + 'a \<Rightarrow> ('a \<Rightarrow> 'e + 'b) \<Rightarrow> 'e + 'b" where
  "bind_r r f = (case r of Inl e \<Rightarrow> Inl e | Inr a \<Rightarrow> f a)"

lemma bind_r_simps [simp]:
  "bind_r (Inl e) f = Inl e"
  "bind_r (Inr a) f = f a"
  by (simp_all add: bind_r_def)

lemma bind_r_Inr_iff: "bind_r r f = Inr b \<longleftrightarrow> (\<exists>a. r = Inr a \<and> f a = Inr b)"
  by (cases r) auto

definition is_ok :: "'e + 'a \<Rightarrow> bool" where
  "is_ok r = (case r of Inl _ \<Rightarrow> False | Inr _ \<Rightarrow> True)"

lemma is_ok_simps [simp]: "\<not> is_ok (Inl e)" "is_ok (Inr a)"
  by (simp_all add: is_ok_def)

lemma is_ok_iff: "is_ok r \<longleftrightarrow> (\<exists>a. r = Inr a)"
  by (cases r) auto

section \<open>Go strings\<close>

subsection \<open>White space\<close>

text \<open>The number of bytes of the white space character at the start of a string, 0 when there
  is none: the ASCII ones, U+0085, U+00A0, U+1680, U+2000 to U+200A, U+2028, U+2029, U+202F,
  U+205F and U+3000.\<close>

definition ascii_space :: "char \<Rightarrow> bool" where
  "ascii_space c \<longleftrightarrow> c \<in> {CHR 0x09, CHR 0x0A, CHR 0x0B, CHR 0x0C, CHR 0x0D, CHR 0x20}"

definition space2 :: "char \<Rightarrow> char \<Rightarrow> bool" where
  "space2 c d \<longleftrightarrow> c = CHR 0xC2 \<and> d \<in> {CHR 0x85, CHR 0xA0}"

definition space3 :: "char \<Rightarrow> char \<Rightarrow> char \<Rightarrow> bool" where
  "space3 c d e \<longleftrightarrow>
     c = CHR 0xE1 \<and> d = CHR 0x9A \<and> e = CHR 0x80
   \<or> c = CHR 0xE2 \<and> d = CHR 0x80 \<and>
       e \<in> {CHR 0x80, CHR 0x81, CHR 0x82, CHR 0x83, CHR 0x84, CHR 0x85, CHR 0x86, CHR 0x87,
            CHR 0x88, CHR 0x89, CHR 0x8A, CHR 0xA8, CHR 0xA9, CHR 0xAF}
   \<or> c = CHR 0xE2 \<and> d = CHR 0x81 \<and> e = CHR 0x9F
   \<or> c = CHR 0xE3 \<and> d = CHR 0x80 \<and> e = CHR 0x80"

fun lead_space :: "string \<Rightarrow> nat" where
  "lead_space [] = 0"
| "lead_space [c] = (if ascii_space c then 1 else 0)"
| "lead_space [c, d] = (if ascii_space c then 1 else if space2 c d then 2 else 0)"
| "lead_space (c # d # e # s) =
     (if ascii_space c then 1 else if space2 c d then 2 else if space3 c d e then 3 else 0)"

text \<open>The same at the end, on the reversed string.\<close>

fun trail_space :: "string \<Rightarrow> nat" where
  "trail_space [] = 0"
| "trail_space [c] = (if ascii_space c then 1 else 0)"
| "trail_space [d, c] = (if ascii_space d then 1 else if space2 c d then 2 else 0)"
| "trail_space (e # d # c # s) =
     (if ascii_space e then 1 else if space2 d e then 2 else if space3 c d e then 3 else 0)"

lemma lead_space_pos: "lead_space s \<noteq> 0 \<Longrightarrow> s \<noteq> []"
  by (cases s rule: lead_space.cases) auto

lemma trail_space_pos: "trail_space s \<noteq> 0 \<Longrightarrow> s \<noteq> []"
  by (cases s rule: trail_space.cases) auto

function strip :: "(string \<Rightarrow> nat) \<Rightarrow> string \<Rightarrow> string" where
  "strip n s = (if n s = 0 \<or> s = [] then s else strip n (drop (n s) s))"
  by pat_completeness auto
termination
  by (relation "measure (\<lambda>(n, s). length s)") auto

declare strip.simps [simp del]

definition TrimSpace :: "string \<Rightarrow> string" where
  "TrimSpace s = rev (strip trail_space (rev (strip lead_space s)))"

lemma strip_suffix: "\<exists>p. s = p @ strip n s"
proof (induction n s rule: strip.induct)
  case (1 n s)
  show ?case
  proof (cases "n s = 0 \<or> s = []")
    case True
    then show ?thesis by (simp add: strip.simps [of n s])
  next
    case False
    with 1 obtain p where "drop (n s) s = p @ strip n (drop (n s) s)" by auto
    moreover have "strip n s = strip n (drop (n s) s)"
      using False by (simp add: strip.simps [of n s])
    ultimately have "s = (take (n s) s @ p) @ strip n s"
      by (metis append.assoc append_take_drop_id)
    then show ?thesis by blast
  qed
qed

lemma strip_done: "n (strip n s) = 0 \<or> strip n s = []"
proof (induction n s rule: strip.induct)
  case (1 n s)
  then show ?case
    by (cases "n s = 0 \<or> s = []") (auto simp: strip.simps [of n s])
qed

lemma strip_id: "n s = 0 \<Longrightarrow> strip n s = s"
  by (simp add: strip.simps)

lemma lead_space_prefix: "lead_space s = 0 \<Longrightarrow> s = p @ q \<Longrightarrow> lead_space p = 0"
  by (cases p rule: lead_space.cases; cases q rule: lead_space.cases) (auto split: if_splits)

lemma TrimSpace_lead: "lead_space (TrimSpace s) = 0"
proof -
  let ?l = "strip lead_space s"
  obtain p where p: "rev ?l = p @ strip trail_space (rev ?l)"
    using strip_suffix by blast
  then have "?l = TrimSpace s @ rev p"
    unfolding TrimSpace_def by (metis rev_append rev_rev_ident)
  moreover have "lead_space ?l = 0"
    using strip_done [of lead_space s] by auto
  ultimately show ?thesis using lead_space_prefix by blast
qed

lemma TrimSpace_trail: "trail_space (rev (TrimSpace s)) = 0"
  using strip_done [of trail_space "rev (strip lead_space s)"]
  by (auto simp: TrimSpace_def)

theorem TrimSpace_idem [simp]: "TrimSpace (TrimSpace s) = TrimSpace s"
  using TrimSpace_lead [of s] TrimSpace_trail [of s]
  by (simp add: TrimSpace_def [of "TrimSpace s"] strip_id)

lemma TrimSpace_Nil [simp]: "TrimSpace [] = []"
  by (simp add: TrimSpace_def strip_id)

lemma TrimSpace_sublist: "\<exists>p q. s = p @ TrimSpace s @ q"
proof -
  let ?l = "strip lead_space s"
  obtain p where p: "s = p @ ?l" using strip_suffix by blast
  obtain q where q: "rev ?l = q @ strip trail_space (rev ?l)" using strip_suffix by blast
  then have "?l = TrimSpace s @ rev q"
    unfolding TrimSpace_def by (metis rev_append rev_rev_ident)
  with p show ?thesis by metis
qed

lemma length_TrimSpace: "length (TrimSpace s) \<le> length s"
proof -
  obtain p q where "s = p @ TrimSpace s @ q" using TrimSpace_sublist by blast
  then have "length s = length p + length (TrimSpace s) + length q"
    by (metis add.assoc length_append)
  then show ?thesis by simp
qed

subsection \<open>Case\<close>

definition lower_char :: "char \<Rightarrow> char" where
  "lower_char c = (if CHR ''A'' \<le> c \<and> c \<le> CHR ''Z'' then char_of (of_char c + (32::nat)) else c)"

fun ToLower :: "string \<Rightarrow> string" where
  "ToLower [] = []"
| "ToLower (c # s) =
     (if c = CHR 0xC4 \<and> take 1 s = [CHR 0xB0] then CHR ''i'' # ToLower (drop 1 s)
      else if c = CHR 0xE2 \<and> take 2 s = [CHR 0x84, CHR 0xAA] then CHR ''k'' # ToLower (drop 2 s)
      else lower_char c # ToLower s)"

text \<open>Lower case touches neither white space nor its own result: a byte of the result that is no
  letter was there before.\<close>

definition no_letter :: "char \<Rightarrow> bool" where
  "no_letter c \<longleftrightarrow> \<not> (CHR ''a'' \<le> c \<and> c \<le> CHR ''z'')"

lemma lower_char_no_letter: "no_letter (lower_char c) \<Longrightarrow> lower_char c = c"
proof (rule ccontr)
  assume n: "no_letter (lower_char c)" and "lower_char c \<noteq> c"
  then have r: "65 \<le> (of_char c :: nat)" "(of_char c :: nat) \<le> 90" "lower_char c = char_of (of_char c + (32::nat))"
    by (auto simp: lower_char_def less_eq_char_def split: if_splits)
  then have "of_char (lower_char c) = of_char c + (32::nat)" by simp
  then show False using n r(1,2) by (simp add: no_letter_def less_eq_char_def)
qed

lemma ToLower_same: "ToLower u = w \<Longrightarrow> list_all no_letter w \<Longrightarrow> u = w"
proof (induction u arbitrary: w rule: ToLower.induct)
  case (2 c s)
  have "\<not> no_letter (CHR ''i'')" "\<not> no_letter (CHR ''k'')" by code_simp+
  then have eq: "w = lower_char c # ToLower s" "\<not> (c = CHR 0xC4 \<and> take 1 s = [CHR 0xB0])"
    "\<not> (c = CHR 0xE2 \<and> take 2 s = [CHR 0x84, CHR 0xAA])" using 2(4,5) by (auto split: if_splits)
  then have "s = ToLower s" using 2(3) [OF eq(2,3)] 2(5) by auto
  then show ?case using lower_char_no_letter [of c] eq(1) 2(5) by simp
qed simp

lemma ToLower_suffix: "ToLower u = v @ w \<Longrightarrow> list_all no_letter w \<Longrightarrow> \<exists>u'. u = u' @ w"
proof (induction u arbitrary: v w rule: ToLower.induct)
  case (2 c s)
  have letters: "\<not> no_letter (CHR ''i'')" "\<not> no_letter (CHR ''k'')" by code_simp+
  consider (i) "c = CHR 0xC4" "take 1 s = [CHR 0xB0]" | (k) "\<not> (c = CHR 0xC4 \<and> take 1 s = [CHR 0xB0])" "c = CHR 0xE2" "take 2 s = [CHR 0x84, CHR 0xAA]"
    | (o) "\<not> (c = CHR 0xC4 \<and> take 1 s = [CHR 0xB0])" "\<not> (c = CHR 0xE2 \<and> take 2 s = [CHR 0x84, CHR 0xAA])" by blast
  then show ?case
  proof cases
    case i
    then have "v \<noteq> []" using 2 letters by (cases w) auto
    then obtain v' where "v = CHR ''i'' # v'" "ToLower (drop 1 s) = v' @ w" using 2(4) i by (cases v) auto
    then obtain u' where "drop 1 s = u' @ w" using 2(1) i 2(5) by blast
    then have "c # s = (c # take 1 s @ u') @ w" by (metis append.assoc append_Cons append_take_drop_id)
    then show ?thesis by blast
  next
    case k
    then have "v \<noteq> []" using 2 letters by (cases w) auto
    then obtain v' where "v = CHR ''k'' # v'" "ToLower (drop 2 s) = v' @ w" using 2(4) k by (cases v) auto
    then obtain u' where "drop 2 s = u' @ w" using 2(2) k 2(5) by blast
    then have "c # s = (c # take 2 s @ u') @ w" by (metis append.assoc append_Cons append_take_drop_id)
    then show ?thesis by blast
  next
    case o
    then have eq: "lower_char c # ToLower s = v @ w" using 2(4) unfolding ToLower.simps by (metis (no_types, lifting))
    show ?thesis
    proof (cases v)
      case Nil
      then have "ToLower (c # s) = w" using 2(4) by simp
      then show ?thesis using ToLower_same [of "c # s" w] 2(5) by (intro exI [of _ "[]"]) simp
    next
      case (Cons x v')
      then obtain u' where "s = u' @ w" using eq 2(3) o 2(5) by auto
      then show ?thesis by (intro exI [of _ "c # u'"]) simp
    qed
  qed
qed simp

lemma ToLower_prefix: "ToLower u = w @ v \<Longrightarrow> list_all no_letter w \<Longrightarrow> \<exists>u'. u = w @ u'"
proof (induction w arbitrary: u)
  case (Cons x w)
  have letters: "\<not> no_letter (CHR ''i'')" "\<not> no_letter (CHR ''k'')" by code_simp+
  obtain c s where u: "u = c # s" using Cons.prems(1) by (cases u) auto
  have "lower_char c = x" "ToLower s = w @ v" using Cons.prems u letters by (auto split: if_splits)
  moreover from this have "c = x" using Cons.prems(2) lower_char_no_letter [of c] by auto
  ultimately show ?case using Cons.IH [of s] Cons.prems(2) u by auto
qed simp

lemma space_no_letter:
  "ascii_space c \<Longrightarrow> no_letter c" "space2 c d \<Longrightarrow> no_letter c \<and> no_letter d" "space3 c d e \<Longrightarrow> no_letter c \<and> no_letter d \<and> no_letter e"
  by (auto simp: ascii_space_def space2_def space3_def no_letter_def less_eq_char_def)

lemma lead_space_iff: "lead_space s \<noteq> 0 \<longleftrightarrow> (\<exists>c t. s = c # t \<and> ascii_space c) \<or> (\<exists>c d t. s = c # d # t \<and> space2 c d)
    \<or> (\<exists>c d e t. s = c # d # e # t \<and> space3 c d e)"
  by (cases s rule: lead_space.cases) auto

lemma trail_space_iff: "trail_space s \<noteq> 0 \<longleftrightarrow> (\<exists>c t. s = c # t \<and> ascii_space c) \<or> (\<exists>c d t. s = d # c # t \<and> space2 c d)
    \<or> (\<exists>c d e t. s = e # d # c # t \<and> space3 c d e)"
  by (cases s rule: trail_space.cases) auto

lemma lead_space_ToLower: "lead_space u = 0 \<Longrightarrow> lead_space (ToLower u) = 0"
proof (rule ccontr)
  assume u: "lead_space u = 0" and "lead_space (ToLower u) \<noteq> 0"
  then obtain w t where w: "ToLower u = w @ t" "list_all no_letter w" "\<And>t. lead_space (w @ t) \<noteq> 0"
    unfolding lead_space_iff
  proof (elim disjE exE conjE)
    fix c t assume *: "ToLower u = c # t" "ascii_space c"
    show thesis by (rule that [of "[c]" t]) (use * space_no_letter(1) in \<open>auto simp: lead_space_iff simp del: neq0_conv\<close>)
  next
    fix c d t assume *: "ToLower u = c # d # t" "space2 c d"
    show thesis by (rule that [of "[c, d]" t]) (use * space_no_letter(2) in \<open>auto simp: lead_space_iff simp del: neq0_conv\<close>)
  next
    fix c d e t assume *: "ToLower u = c # d # e # t" "space3 c d e"
    show thesis by (rule that [of "[c, d, e]" t]) (use * space_no_letter(3) in \<open>auto simp: lead_space_iff simp del: neq0_conv\<close>)
  qed
  then obtain u' where "u = w @ u'" using ToLower_prefix by blast
  then show False using w(3) [of u'] u by simp
qed

lemma trail_space_ToLower: "trail_space (rev u) = 0 \<Longrightarrow> trail_space (rev (ToLower u)) = 0"
proof (rule ccontr)
  assume u: "trail_space (rev u) = 0" and "trail_space (rev (ToLower u)) \<noteq> 0"
  then obtain w t where w: "rev (ToLower u) = w @ t" "list_all no_letter (rev w)" "\<And>t. trail_space (w @ t) \<noteq> 0"
    unfolding trail_space_iff
  proof (elim disjE exE conjE)
    fix c t assume *: "rev (ToLower u) = c # t" "ascii_space c"
    show thesis by (rule that [of "[c]" t]) (use * space_no_letter(1) in \<open>auto simp: trail_space_iff simp del: neq0_conv\<close>)
  next
    fix c d t assume *: "rev (ToLower u) = d # c # t" "space2 c d"
    show thesis by (rule that [of "[d, c]" t]) (use * space_no_letter(2) in \<open>auto simp: trail_space_iff simp del: neq0_conv\<close>)
  next
    fix c d e t assume *: "rev (ToLower u) = e # d # c # t" "space3 c d e"
    show thesis by (rule that [of "[e, d, c]" t]) (use * space_no_letter(3) in \<open>auto simp: trail_space_iff simp del: neq0_conv\<close>)
  qed
  have "ToLower u = rev t @ rev w" using w(1) by (metis rev_append rev_rev_ident)
  then obtain u' where "u = u' @ rev w" using ToLower_suffix w(2) by blast
  then show False using w(3) [of "rev u'"] u by simp
qed

lemma TrimSpace_ToLower [simp]: "TrimSpace (ToLower (TrimSpace s)) = ToLower (TrimSpace s)"
  using lead_space_ToLower [OF TrimSpace_lead [of s]] trail_space_ToLower [OF TrimSpace_trail [of s]]
  by (simp add: TrimSpace_def [of "ToLower (TrimSpace s)"] strip_id)

lemma lower_char_idem: "lower_char (lower_char c) = lower_char c"
  by (cases "no_letter (lower_char c)") (auto simp: lower_char_no_letter no_letter_def lower_char_def less_eq_char_def)

lemma take_ToLower: "take n (ToLower s) = w \<Longrightarrow> length w = n \<Longrightarrow> list_all no_letter w \<Longrightarrow> take n s = w"
proof -
  assume w: "take n (ToLower s) = w" "length w = n" "list_all no_letter w"
  then have "ToLower s = w @ drop n (ToLower s)" by (metis append_take_drop_id)
  then obtain t where "s = w @ t" using ToLower_prefix w(3) by blast
  then show "take n s = w" using w(2) by simp
qed

lemma ToLower_idem [simp]: "ToLower (ToLower s) = ToLower s"
proof (induction s rule: ToLower.induct)
  case (2 c s)
  have plain: "list_all no_letter [CHR 0xC4, CHR 0xB0, CHR 0xE2, CHR 0x84, CHR 0xAA]" by code_simp
  have ik: "lower_char (CHR ''i'') = CHR ''i''" "lower_char (CHR ''k'') = CHR ''k''" by code_simp+
  show ?case
  proof (cases "c = CHR 0xC4 \<and> take 1 s = [CHR 0xB0] \<or> c = CHR 0xE2 \<and> take 2 s = [CHR 0x84, CHR 0xAA]")
    case True
    then show ?thesis using 2 ik by (elim disjE) simp_all
  next
    case False
    then have low: "ToLower (c # s) = lower_char c # ToLower s" by auto
    have "\<not> (lower_char c = CHR 0xC4 \<and> take 1 (ToLower s) = [CHR 0xB0])"
      using False plain take_ToLower [of 1 s "[CHR 0xB0]"] lower_char_no_letter [of c] by auto
    moreover have "\<not> (lower_char c = CHR 0xE2 \<and> take 2 (ToLower s) = [CHR 0x84, CHR 0xAA])"
      using False plain take_ToLower [of 2 s "[CHR 0x84, CHR 0xAA]"] lower_char_no_letter [of c] by auto
    ultimately have "ToLower (lower_char c # ToLower s) = lower_char (lower_char c) # ToLower (ToLower s)"
      unfolding ToLower.simps by (simp only: if_False)
    then show ?thesis using 2(3) False low by (auto simp: lower_char_idem)
  qed
qed simp

subsection \<open>Runes\<close>

text \<open>\<open>[]rune(s)\<close>: the code points of a string, with U+FFFD for every byte that does not start
  a valid encoding; \<open>decode_rune\<close> also gives the number of bytes read. \<open>encode_rune\<close> is the
  conversion of one code point back to bytes.\<close>

definition byte_in :: "char \<Rightarrow> nat \<Rightarrow> nat \<Rightarrow> bool" where
  "byte_in c lo hi \<longleftrightarrow> lo \<le> of_char c \<and> of_char c \<le> hi"

definition decode_rune :: "string \<Rightarrow> nat \<times> nat" where
  "decode_rune s = (case s of [] \<Rightarrow> (0xFFFD, 1)
   | a # t \<Rightarrow>
     if of_char a < (0x80::nat) then (of_char a, 1)
     else case t of [] \<Rightarrow> (0xFFFD, 1)
     | b # u \<Rightarrow>
       if byte_in a 0xC2 0xDF \<and> byte_in b 0x80 0xBF
       then ((of_char a - 0xC0) * 0x40 + (of_char b - 0x80), 2)
       else case u of [] \<Rightarrow> (0xFFFD, 1)
       | c # v \<Rightarrow>
         if (byte_in a 0xE0 0xE0 \<and> byte_in b 0xA0 0xBF
             \<or> (byte_in a 0xE1 0xEC \<or> byte_in a 0xEE 0xEF) \<and> byte_in b 0x80 0xBF
             \<or> byte_in a 0xED 0xED \<and> byte_in b 0x80 0x9F) \<and> byte_in c 0x80 0xBF
         then ((of_char a - 0xE0) * 0x1000 + (of_char b - 0x80) * 0x40 + (of_char c - 0x80), 3)
         else case v of [] \<Rightarrow> (0xFFFD, 1)
         | d # w \<Rightarrow>
           if (byte_in a 0xF0 0xF0 \<and> byte_in b 0x90 0xBF
               \<or> byte_in a 0xF1 0xF3 \<and> byte_in b 0x80 0xBF
               \<or> byte_in a 0xF4 0xF4 \<and> byte_in b 0x80 0x8F)
              \<and> byte_in c 0x80 0xBF \<and> byte_in d 0x80 0xBF
           then ((of_char a - 0xF0) * 0x40000 + (of_char b - 0x80) * 0x1000
                 + (of_char c - 0x80) * 0x40 + (of_char d - 0x80), 4)
           else (0xFFFD, 1))"

fun runes :: "string \<Rightarrow> nat list" where
  "runes [] = []"
| "runes (c # s) = fst (decode_rune (c # s)) # runes (drop (snd (decode_rune (c # s)) - 1) s)"

definition encode_rune :: "nat \<Rightarrow> string" where
  "encode_rune r =
     (if r < 0x80 then [char_of r]
      else if r < 0x800 then [char_of (0xC0 + r div 0x40), char_of (0x80 + r mod 0x40)]
      else if r < 0x10000
      then [char_of (0xE0 + r div 0x1000), char_of (0x80 + r div 0x40 mod 0x40),
            char_of (0x80 + r mod 0x40)]
      else [char_of (0xF0 + r div 0x40000), char_of (0x80 + r div 0x1000 mod 0x40),
            char_of (0x80 + r div 0x40 mod 0x40), char_of (0x80 + r mod 0x40)])"

definition is_ascii :: "string \<Rightarrow> bool" where
  "is_ascii s \<longleftrightarrow> list_all (\<lambda>c. of_char c < (0x80::nat)) s"

lemma length_runes: "length (runes s) \<le> length s"
  by (induction s rule: runes.induct) auto

lemma runes_ascii: "is_ascii s \<Longrightarrow> runes s = map of_char s"
  by (induction s) (simp_all add: is_ascii_def decode_rune_def)

subsection \<open>Substrings, prefixes and separators\<close>

definition HasPrefix :: "string \<Rightarrow> string \<Rightarrow> bool" where
  "HasPrefix s p \<longleftrightarrow> take (length p) s = p"

definition HasSuffix :: "string \<Rightarrow> string \<Rightarrow> bool" where
  "HasSuffix s p \<longleftrightarrow> length p \<le> length s \<and> drop (length s - length p) s = p"

definition TrimPrefix :: "string \<Rightarrow> string \<Rightarrow> string" where
  "TrimPrefix s p = (if HasPrefix s p then drop (length p) s else s)"

definition TrimSuffix :: "string \<Rightarrow> string \<Rightarrow> string" where
  "TrimSuffix s p = (if HasSuffix s p then take (length s - length p) s else s)"

fun Contains :: "string \<Rightarrow> string \<Rightarrow> bool" where
  "Contains [] p = (p = [])"
| "Contains (c # s) p = (HasPrefix (c # s) p \<or> Contains s p)"

definition ContainsAny :: "string \<Rightarrow> string \<Rightarrow> bool" where
  "ContainsAny s chars \<longleftrightarrow> (\<exists>c \<in> set s. c \<in> set chars)"

text \<open>\<open>strings.Trim\<close> with a one-character cutset, and \<open>strings.Split\<close> and
  \<open>bytes.Split\<close> with a one-character separator.\<close>

definition Trim :: "string \<Rightarrow> char \<Rightarrow> string" where
  "Trim s c = rev (dropWhile ((=) c) (rev (dropWhile ((=) c) s)))"

fun Split :: "'a list \<Rightarrow> 'a \<Rightarrow> 'a list list" where
  "Split [] c = [[]]"
| "Split (x # xs) c =
     (if x = c then [] # Split xs c
      else case Split xs c of [] \<Rightarrow> [[x]] | p # ps \<Rightarrow> (x # p) # ps)"

lemma Split_not_Nil [simp]: "Split xs c \<noteq> []"
  by (induction xs) (auto split: list.splits)

lemma Split_append_sep: "c \<notin> set p \<Longrightarrow> Split (p @ c # xs) c = p # Split xs c"
  by (induction p) auto

lemma Split_single: "c \<notin> set p \<Longrightarrow> Split p c = [p]"
  by (induction p) auto

lemma HasPrefix_iff: "HasPrefix s p \<longleftrightarrow> (\<exists>q. s = p @ q)"
  unfolding HasPrefix_def
  by (metis append_eq_conv_conj append_take_drop_id)

lemma Contains_iff: "Contains s p \<longleftrightarrow> (\<exists>a b. s = a @ p @ b)"
proof (induction s)
  case Nil
  then show ?case by auto
next
  case (Cons c s)
  show ?case
  proof
    assume "Contains (c # s) p"
    then consider "HasPrefix (c # s) p" | "Contains s p" by auto
    then show "\<exists>a b. c # s = a @ p @ b"
    proof cases
      case 1
      then obtain q where "c # s = p @ q" unfolding HasPrefix_iff by blast
      then have "c # s = [] @ p @ q" by simp
      then show ?thesis by blast
    next
      case 2
      with Cons obtain a b where "s = a @ p @ b" by auto
      then have "c # s = (c # a) @ p @ b" by simp
      then show ?thesis by blast
    qed
  next
    assume "\<exists>a b. c # s = a @ p @ b"
    then obtain a b where ab: "c # s = a @ p @ b" by blast
    show "Contains (c # s) p"
    proof (cases a)
      case Nil
      with ab show ?thesis unfolding Contains.simps HasPrefix_iff by simp
    next
      case (Cons x xs)
      with ab have "s = xs @ p @ b" by simp
      then show ?thesis using Cons.IH by auto
    qed
  qed
qed

lemmas string_evals [go_strings] =
  TrimSpace_def strip.simps ascii_space_def space2_def space3_def lower_char_def
  HasPrefix_def HasSuffix_def TrimPrefix_def TrimSuffix_def ContainsAny_def Trim_def

section \<open>Deduplication in order of first occurrence\<close>

text \<open>The idiom \<open>if _, exists := seen[x]; exists { continue }; seen[x] = struct{}{}\<close> over a
  slice keeps the first occurrence of every element.\<close>

fun dedup_seen :: "'a set \<Rightarrow> 'a list \<Rightarrow> 'a list" where
  "dedup_seen S [] = []"
| "dedup_seen S (x # xs) =
     (if x \<in> S then dedup_seen S xs else x # dedup_seen (insert x S) xs)"

lemma set_dedup_seen: "set (dedup_seen S xs) = set xs - S"
  by (induction xs arbitrary: S) auto

lemma distinct_dedup_seen: "distinct (dedup_seen S xs)"
  by (induction xs arbitrary: S) (auto simp: set_dedup_seen)

lemma length_dedup_seen: "length (dedup_seen S xs) \<le> length xs"
  by (induction xs arbitrary: S) (auto simp: le_SucI)

lemma dedup_seen_id: "distinct xs \<Longrightarrow> set xs \<inter> S = {} \<Longrightarrow> dedup_seen S xs = xs"
  by (induction xs arbitrary: S) auto

section \<open>Tables\<close>

definition update_where :: "('r \<Rightarrow> bool) \<Rightarrow> ('r \<Rightarrow> 'r) \<Rightarrow> 'r list \<Rightarrow> 'r list" where
  "update_where p f rows = map (\<lambda>r. if p r then f r else r) rows"

lemma update_where_simps [simp]:
  "update_where p f [] = []"
  "update_where p f (r # rows) = (if p r then f r else r) # update_where p f rows"
  by (simp_all add: update_where_def)

lemma length_update_where [simp]: "length (update_where p f rows) = length rows"
  by (simp add: update_where_def)

lemma set_update_where:
  "set (update_where p f rows) = (\<lambda>r. if p r then f r else r) ` set rows"
  by (simp add: update_where_def)

lemma map_update_where_key [table_simps]:
  "(\<And>r. k (f r) = k r) \<Longrightarrow> map k (update_where p f rows) = map k rows"
  by (simp add: update_where_def)

lemma image_update_where_key [table_simps]:
  "(\<And>r. k (f r) = k r) \<Longrightarrow> k ` set (update_where p f rows) = k ` set rows"
  by (metis map_update_where_key set_map)

lemma filter_update_where [table_simps]:
  "(\<And>r. q (f r) = q r) \<Longrightarrow>
     filter q (update_where p f rows) = update_where p f (filter q rows)"
  by (induction rows) auto

lemma update_where_id: "(\<And>r. r \<in> set rows \<Longrightarrow> \<not> p r) \<Longrightarrow> update_where p f rows = rows"
  by (induction rows) auto

definition row_by :: "('r \<Rightarrow> 'k) \<Rightarrow> 'k \<Rightarrow> 'r list \<Rightarrow> 'r option" where
  "row_by k v rows = find (\<lambda>r. k r = v) rows"

lemma row_by_simps [simp]:
  "row_by k v [] = None"
  "row_by k v (r # rows) = (if k r = v then Some r else row_by k v rows)"
  by (simp_all add: row_by_def)

lemma row_by_SomeD: "row_by k v rows = Some r \<Longrightarrow> r \<in> set rows \<and> k r = v"
  by (induction rows) (auto split: if_splits)

lemma row_by_None_iff: "row_by k v rows = None \<longleftrightarrow> v \<notin> k ` set rows"
  by (induction rows) auto

lemma row_by_eqI:
  "distinct (map k rows) \<Longrightarrow> r \<in> set rows \<Longrightarrow> row_by k (k r) rows = Some r"
  by (induction rows) auto

lemma row_by_append [table_simps]:
  "row_by k v (rows @ [r]) =
     (case row_by k v rows of None \<Rightarrow> if k r = v then Some r else None | Some x \<Rightarrow> Some x)"
  by (induction rows) auto

lemma row_by_update_where [table_simps]:
  "(\<And>r. k (f r) = k r) \<Longrightarrow>
     row_by k v (update_where p f rows) =
     map_option (\<lambda>r. if p r then f r else r) (row_by k v rows)"
  by (induction rows) auto

lemma distinct_key_eq:
  "distinct (map k rows) \<Longrightarrow> r \<in> set rows \<Longrightarrow> r' \<in> set rows \<Longrightarrow> k r = k r' \<Longrightarrow> r = r'"
  by (metis option.inject row_by_eqI)

section \<open>Sorting\<close>

text \<open>Two lists with the same elements have the same sorted arrangement when the key is
  injective on them.\<close>

lemma sort_key_perm:
  assumes "mset xs = mset ys" and "inj_on k (set xs)"
  shows "sort_key k xs = sort_key k ys"
proof (rule properties_for_sort_key)
  show "mset (sort_key k ys) = mset xs" using assms by simp
  show "sorted (map k (sort_key k ys))" by simp
  fix z
  assume "z \<in> set (sort_key k ys)"
  have set: "set xs = set ys" using assms(1) by (metis set_mset_mset)
  have single: "\<And>zs. set zs = set xs \<Longrightarrow> filter (\<lambda>x. k z = k x) zs = filter ((=) z) zs"
    using \<open>z \<in> set (sort_key k ys)\<close> set assms(2)
    by (intro filter_cong) (auto dest: inj_onD)
  have "filter (\<lambda>x. k z = k x) (sort_key k ys) = filter ((=) z) (sort_key k ys)"
    using single set by simp
  also have "\<dots> = replicate (count_list (sort_key k ys) z) z"
    by (metis replicate_count_mset_eq_filter_eq count_mset)
  also have "\<dots> = replicate (count_list xs z) z"
    using assms(1) by (simp flip: count_mset)
  also have "\<dots> = filter ((=) z) xs"
    by (metis replicate_count_mset_eq_filter_eq count_mset)
  also have "\<dots> = filter (\<lambda>x. k z = k x) xs" using single by simp
  finally show "filter (\<lambda>x. k z = k x) (sort_key k ys) = filter (\<lambda>x. k z = k x) xs" .
qed

end
