(* ===== verification/Review_Run.thy ===== *)
theory Review_Run
  imports Prelude
begin

text \<open>
  The durable state of a review run, \<open>src/internal/domain/workflow.go\<close>: the state type and
  its transition table, the review modes, the retry input and the list filters, and the two
  classifications of states that \<open>src/internal/store/workflow.go\<close> adds
  (\<open>runStateRank\<close>, \<open>runStateHasBrokerConsumer\<close>).

  \<open>RunState\<close> is a Go string type with eleven declared values, which the database column also
  admits, and is a \<open>datatype\<close> here. \<open>ReviewMode\<close> reaches the code as free caller input and
  stays a string.

  The lemmas show that the transition table is a ranked machine: every transition raises the
  rank or ends in a terminal state, terminal states are final, no execution takes more than six
  transitions and the only way to \<open>completed\<close> is through all six stages in order.
\<close>

section \<open>Run states\<close>

datatype RunState =
    RunAcknowledged
  | RunAdmitted
  | RunPreparing
  | RunAnalyzing
  | RunNormalizing
  | RunPublishing
  | RunCompleted
  | RunFailed
  | RunCancelled
  | RunSuperseded
  | RunNeedsAttention

fun run_state_name :: "RunState \<Rightarrow> string" where
  "run_state_name RunAcknowledged = ''acknowledged''"
| "run_state_name RunAdmitted = ''admitted''"
| "run_state_name RunPreparing = ''preparing''"
| "run_state_name RunAnalyzing = ''analyzing''"
| "run_state_name RunNormalizing = ''normalizing''"
| "run_state_name RunPublishing = ''publishing''"
| "run_state_name RunCompleted = ''completed''"
| "run_state_name RunFailed = ''failed''"
| "run_state_name RunCancelled = ''cancelled''"
| "run_state_name RunSuperseded = ''superseded''"
| "run_state_name RunNeedsAttention = ''needs_attention''"

definition Terminal :: "RunState \<Rightarrow> bool" where
  "Terminal s \<longleftrightarrow>
     s = RunCompleted \<or> s = RunFailed \<or> s = RunCancelled \<or> s = RunSuperseded \<or> s = RunNeedsAttention"

definition CanTransitionTo :: "RunState \<Rightarrow> RunState \<Rightarrow> bool" where
  "CanTransitionTo s next =
     (if s = next \<or> Terminal s then False
      else case s of
        RunAcknowledged \<Rightarrow> next = RunAdmitted \<or> next = RunCancelled \<or> next = RunFailed
      | RunAdmitted \<Rightarrow>
          next = RunPreparing \<or> next = RunCancelled \<or> next = RunSuperseded \<or> next = RunFailed
      | RunPreparing \<Rightarrow>
          next = RunAnalyzing \<or> next = RunCancelled \<or> next = RunSuperseded \<or> next = RunFailed
      | RunAnalyzing \<Rightarrow>
          next = RunNormalizing \<or> next = RunCancelled \<or> next = RunSuperseded \<or> next = RunFailed
      | RunNormalizing \<Rightarrow>
          next = RunPublishing \<or> next = RunCancelled \<or> next = RunSuperseded \<or> next = RunFailed
      | RunPublishing \<Rightarrow>
          next = RunCompleted \<or> next = RunNeedsAttention \<or> next = RunSuperseded \<or> next = RunFailed
      | _ \<Rightarrow> False)"

datatype transition_error = InvalidTransition RunState RunState

definition ValidateRunTransition :: "RunState \<Rightarrow> RunState \<Rightarrow> transition_error + unit" where
  "ValidateRunTransition current next =
     (if \<not> CanTransitionTo current next then Inl (InvalidTransition current next) else Inr ())"

fun runStateRank :: "RunState \<Rightarrow> nat" where
  "runStateRank RunAcknowledged = 1"
| "runStateRank RunAdmitted = 2"
| "runStateRank RunPreparing = 3"
| "runStateRank RunAnalyzing = 4"
| "runStateRank RunNormalizing = 5"
| "runStateRank RunPublishing = 6"
| "runStateRank _ = 0"

fun runStateHasBrokerConsumer :: "RunState \<Rightarrow> bool" where
  "runStateHasBrokerConsumer RunPreparing = False"
| "runStateHasBrokerConsumer RunAnalyzing = False"
| "runStateHasBrokerConsumer RunNormalizing = False"
| "runStateHasBrokerConsumer RunPublishing = False"
| "runStateHasBrokerConsumer _ = True"

text \<open>The SQL list \<open>state IN ('acknowledged', ..., 'publishing')\<close> of an active run.\<close>

definition active_states :: "RunState set" where
  "active_states = {RunAcknowledged, RunAdmitted, RunPreparing, RunAnalyzing, RunNormalizing,
     RunPublishing}"

section \<open>Review modes\<close>

type_synonym ReviewMode = string

definition ReviewMode_Valid :: "ReviewMode \<Rightarrow> bool" where
  "ReviewMode_Valid m \<longleftrightarrow>
     m = ''configured'' \<or> m = ''standard'' \<or> m = ''deep'' \<or> m = ''security''"

definition ReviewMode_Selectable :: "ReviewMode \<Rightarrow> bool" where
  "ReviewMode_Selectable m \<longleftrightarrow> m = ''standard'' \<or> m = ''deep'' \<or> m = ''security''"

definition ReviewMode_RiskMode :: "ReviewMode \<Rightarrow> string \<Rightarrow> string" where
  "ReviewMode_RiskMode m configured =
     (if m = ''standard'' then ''focused''
      else if m = ''deep'' then ''standard''
      else if m = ''security'' then ''critical''
      else configured)"

section \<open>Retry input\<close>

record RunRetryInput =
  ExpectedRevision :: int
  IdempotencyKey :: string

definition is_alnum :: "char \<Rightarrow> bool" where
  "is_alnum c \<longleftrightarrow>
     CHR ''A'' \<le> c \<and> c \<le> CHR ''Z'' \<or> CHR ''a'' \<le> c \<and> c \<le> CHR ''z'' \<or> CHR ''0'' \<le> c \<and> c \<le> CHR ''9''"

text \<open>The pattern \<open>^[A-Za-z0-9][A-Za-z0-9._:/-]{7,127}$\<close>.\<close>

fun runRetryIdempotencyKey :: "string \<Rightarrow> bool" where
  "runRetryIdempotencyKey [] = False"
| "runRetryIdempotencyKey (c # s) =
     (is_alnum c \<and> list_all (\<lambda>d. is_alnum d \<or> d \<in> set ''._:/-'') s
      \<and> 7 \<le> length s \<and> length s \<le> 127)"

definition NormalizeRunRetryInput :: "RunRetryInput \<Rightarrow> RunRetryInput option" where
  "NormalizeRunRetryInput input =
     (let input = input\<lparr>IdempotencyKey := TrimSpace (IdempotencyKey input)\<rparr> in
      if ExpectedRevision input < 1 \<or> \<not> runRetryIdempotencyKey (IdempotencyKey input) then None
      else Some input)"

section \<open>List filters\<close>

text \<open>\<open>WorkQueueFilter\<close> and \<open>PullRequestFilter\<close> have the same fields and, up to the set of views,
  the same check.\<close>

record ListFilter =
  View :: string
  FilterRepository :: string
  Query :: string
  Cursor :: string
  CursorDirection :: string
  Limit :: int

definition WorkQueueView_Valid :: "string \<Rightarrow> bool" where
  "WorkQueueView_Valid v \<longleftrightarrow> v = ''running'' \<or> v = ''needs_attention''"

definition PullRequestView_Valid :: "string \<Rightarrow> bool" where
  "PullRequestView_Valid v \<longleftrightarrow> v = ''active'' \<or> v = ''attention'' \<or> v = ''completed'' \<or> v = ''all''"

definition list_filter_valid :: "(string \<Rightarrow> bool) \<Rightarrow> ListFilter \<Rightarrow> bool" where
  "list_filter_valid view_valid f =
     (if \<not> view_valid (View f) \<or> Limit f < 1 \<or> Limit f > 100
         \<or> length (TrimSpace (FilterRepository f)) > 512
         \<or> length (TrimSpace (Query f)) > 256
         \<or> length (TrimSpace (Cursor f)) > 1024 then False
      else if CursorDirection f \<noteq> '''' \<and> CursorDirection f \<noteq> ''after'' \<and> CursorDirection f \<noteq> ''before''
      then False
      else Cursor f \<noteq> '''' \<or> CursorDirection f \<noteq> ''before'')"

definition WorkQueueFilter_Valid :: "ListFilter \<Rightarrow> bool" where
  "WorkQueueFilter_Valid = list_filter_valid WorkQueueView_Valid"

definition PullRequestFilter_Valid :: "ListFilter \<Rightarrow> bool" where
  "PullRequestFilter_Valid = list_filter_valid PullRequestView_Valid"

section \<open>The transition table as a ranked machine\<close>

lemma Terminal_simps [simp]:
  "\<not> Terminal RunAcknowledged" "\<not> Terminal RunAdmitted" "\<not> Terminal RunPreparing"
  "\<not> Terminal RunAnalyzing" "\<not> Terminal RunNormalizing" "\<not> Terminal RunPublishing"
  "Terminal RunCompleted" "Terminal RunFailed" "Terminal RunCancelled" "Terminal RunSuperseded"
  "Terminal RunNeedsAttention"
  by (simp_all add: Terminal_def)

lemma active_iff_not_Terminal: "s \<in> active_states \<longleftrightarrow> \<not> Terminal s"
  by (cases s) (simp_all add: active_states_def)

lemma Terminal_final: "Terminal s \<Longrightarrow> \<not> CanTransitionTo s t"
  by (simp add: CanTransitionTo_def)

lemma CanTransitionTo_irrefl: "\<not> CanTransitionTo s s"
  by (simp add: CanTransitionTo_def)

lemma CanTransitionTo_rank:
  "CanTransitionTo s t \<Longrightarrow> Terminal t \<or> runStateRank t = Suc (runStateRank s)"
  by (cases s; cases t) (simp_all add: CanTransitionTo_def)

lemma rank_pos_iff: "0 < runStateRank s \<longleftrightarrow> \<not> Terminal s"
  by (cases s) simp_all

lemma ValidateRunTransition_ok_iff:
  "ValidateRunTransition s t = Inr () \<longleftrightarrow> CanTransitionTo s t"
  by (simp add: ValidateRunTransition_def)

text \<open>Paths of the machine: \<open>run_path s p t\<close> when the states \<open>p\<close> are entered in order from \<open>s\<close>
  and \<open>t\<close> is the last one.\<close>

inductive run_path :: "RunState \<Rightarrow> RunState list \<Rightarrow> RunState \<Rightarrow> bool" where
  stop: "run_path s [] s"
| step: "CanTransitionTo s u \<Longrightarrow> run_path u p t \<Longrightarrow> run_path s (u # p) t"

inductive_simps run_path_Nil [simp]: "run_path s [] t"
inductive_simps run_path_Cons: "run_path s (u # p) t"
inductive_cases run_pathE: "run_path s p t"

text \<open>The distance to the end: a bound on the transitions left.\<close>

definition transitions_left :: "RunState \<Rightarrow> nat" where
  "transitions_left s = (if Terminal s then 0 else 7 - runStateRank s)"

lemma CanTransitionTo_progress: "CanTransitionTo s t \<Longrightarrow> transitions_left t < transitions_left s"
  by (cases s; cases t) (simp_all add: CanTransitionTo_def transitions_left_def)

lemma run_path_length: "run_path s p t \<Longrightarrow> length p + transitions_left t \<le> transitions_left s"
  by (induction rule: run_path.induct) (auto dest: CanTransitionTo_progress)

lemma run_path_progress:
  "run_path s p t \<Longrightarrow> u \<in> set p \<Longrightarrow> transitions_left u < transitions_left s"
  by (induction rule: run_path.induct) (auto dest!: CanTransitionTo_progress)

lemma run_path_no_repeat: "run_path s p t \<Longrightarrow> distinct (s # p)"
  by (induction rule: run_path.induct)
    (auto dest!: CanTransitionTo_progress dest: run_path_progress)

lemma run_path_from_terminal: "run_path s p t \<Longrightarrow> Terminal s \<Longrightarrow> p = [] \<and> t = s"
  by (auto elim: run_path.cases dest: Terminal_final)

text \<open>The stages, in order.\<close>

definition stage_states :: "RunState list" where
  "stage_states = [RunAcknowledged, RunAdmitted, RunPreparing, RunAnalyzing, RunNormalizing,
     RunPublishing]"

lemma run_path_completed:
  assumes "run_path s p RunCompleted" and "\<not> Terminal s"
  shows "p = drop (runStateRank s) stage_states @ [RunCompleted]"
  using assms
proof (induction s p "RunCompleted" rule: run_path.induct)
  case stop
  then show ?case by simp
next
  case (step s u p)
  show ?case
  proof (cases "Terminal u")
    case True
    with step.hyps have "p = []" "u = RunCompleted" by (auto dest: run_path_from_terminal)
    with step.hyps(1) show ?thesis
      by (cases s) (simp_all add: CanTransitionTo_def stage_states_def)
  next
    case False
    with step have "p = drop (runStateRank u) stage_states @ [RunCompleted]" by blast
    with step.hyps(1) False show ?thesis
      by (cases s; cases u) (simp_all add: CanTransitionTo_def stage_states_def)
  qed
qed

section \<open>Properties\<close>

text \<open>C27. Every execution of the transition table is short and never re-enters a state: a
  sequence of transitions accepted by \<open>CanTransitionTo\<close> has at most six steps, enters no state
  twice, and stops for good as soon as it enters a terminal state.\<close>

theorem run_path_bounded:
  assumes "run_path s p t"
  shows "length p \<le> 6 \<and> distinct (s # p) \<and> (Terminal t \<longrightarrow> (\<forall>u. \<not> CanTransitionTo t u))"
proof -
  have "length p + transitions_left t \<le> transitions_left s"
    using assms by (rule run_path_length)
  moreover have "transitions_left s \<le> 6"
    by (cases s) (simp_all add: transitions_left_def)
  ultimately have "length p \<le> 6" by simp
  then show ?thesis
    using run_path_no_repeat [OF assms] by (auto dest: Terminal_final)
qed

theorem run_path_bounded_witness:
  "length [RunAdmitted, RunPreparing, RunFailed] \<le> 6
   \<and> distinct (RunAcknowledged # [RunAdmitted, RunPreparing, RunFailed])
   \<and> (\<forall>u. \<not> CanTransitionTo RunFailed u)"
proof -
  have "run_path RunAcknowledged [RunAdmitted, RunPreparing, RunFailed] RunFailed"
    by (simp add: run_path_Cons CanTransitionTo_def)
  from run_path_bounded [OF this] show ?thesis by simp
qed

text \<open>A run is completed only by passing through every stage: the one sequence of accepted
  transitions from \<open>acknowledged\<close> to \<open>completed\<close> is admitted, preparing, analyzing, normalizing,
  publishing, completed.\<close>

theorem completed_only_through_all_stages:
  "run_path RunAcknowledged p RunCompleted \<longleftrightarrow>
   p = [RunAdmitted, RunPreparing, RunAnalyzing, RunNormalizing, RunPublishing, RunCompleted]"
  using run_path_completed [of RunAcknowledged p]
  by (auto simp: stage_states_def run_path_Cons CanTransitionTo_def)

end
