(* ===== verification/Store_Tables.thy ===== *)
theory Store_Tables
  imports Review_Run
begin

text \<open>
  The workflow tables and the transactions on them: \<open>src/internal/store/workflow.go\<close>,
  \<open>src/internal/store/usage.go\<close> and \<open>src/internal/store/review_interventions.go\<close>.

  The database is a record of tables, each a list of rows in insertion order. A transaction is a
  function from the database to \<open>store_error + (db \<times> result)\<close>: \<open>Inl\<close> is a rollback, so the
  caller keeps the old database. The transactions lock the rows they work on
  (\<open>FOR UPDATE\<close>, advisory locks), so an execution is a sequence of transactions.

  Identifiers are numbers, 0 is \<open>uuid.Nil\<close>, and \<open>gen_random_uuid()\<close> is the counter
  \<open>db_next\<close>, so that a generated identifier is new. A dedupe or idempotency key is the tuple of
  the parts the code concatenates (the identifier in it has a fixed width, so the
  concatenation loses nothing); the error message of a job is its text and the identifier
  appended to it, if any. Columns that only record \<open>created_at\<close> or \<open>updated_at\<close> and that
  no modelled operation reads are left out. The constraints of the schema that the statements
  can run into (primary keys, \<open>UNIQUE\<close> and \<open>CHECK\<close>) are error branches.

  What the transactions take from parts of the system that are not modelled here is a record
  \<open>env\<close> of functions: the clock, the compiled rule snapshot of a target
  (\<open>resolveRuleSnapshotWithCanary\<close>) and the effective configuration of a repository
  (\<open>resolveEffectiveReviewConfiguration\<close> followed by the section's decoder). All theorems
  hold for every choice of them.
\<close>

section \<open>Rows\<close>

type_synonym uuid = nat
type_synonym gotime = int

datatype pval = PStr string | PInt int | PUuid uuid | PBool bool
type_synonym payload = "(string \<times> pval) list"

datatype JobState = JobQueued | JobRunning | JobSucceeded | JobFailed | JobCancelled

record ReviewRun =
  run_id :: uuid
  run_request :: uuid
  run_job :: "uuid option"
  run_revision :: nat
  run_state :: RunState
  run_trigger :: string
  run_mode :: ReviewMode
  run_head :: string
  run_base :: string
  run_cancel_at :: "gotime option"
  run_superseded_by :: "uuid option"
  run_failure_code :: "string option"
  run_failure_message :: "string option"
  run_snapshot :: uuid
  run_started :: "gotime option"
  run_finished :: "gotime option"

record ReviewRequest =
  req_id :: uuid
  req_tenant :: uuid
  req_installation :: uuid
  req_provider :: string
  req_api :: string
  req_repository :: string
  req_number :: int
  req_title :: string
  req_author :: string
  req_current :: "uuid option"

record ReviewJob =
  job_id :: uuid
  job_tenant :: uuid
  job_installation :: uuid
  job_delivery :: uuid
  job_provider :: string
  job_api :: string
  job_repository :: string
  job_clone :: string
  job_number :: int
  job_base_ref :: string
  job_base_sha :: string
  job_head_ref :: string
  job_head_sha :: string
  job_state :: JobState
  job_locked_by :: "string option"
  job_locked_until :: "gotime option"
  job_error :: "(string \<times> uuid option) option"
  job_finished :: "gotime option"

record RunEvent =
  ev_run :: uuid
  ev_revision :: nat
  ev_type :: string
  ev_actor_kind :: string
  ev_actor_subject :: string
  ev_payload :: payload

record RunStage =
  st_run :: uuid
  st_stage :: string
  st_state :: string
  st_attempt :: nat
  st_started :: "gotime option"
  st_finished :: "gotime option"
  st_details :: payload

datatype dedupe_key = RunKey uuid nat string | TextKey string

record OutboxRow =
  ob_id :: uuid
  ob_aggregate :: uuid
  ob_topic :: string
  ob_key :: dedupe_key
  ob_payload :: payload

record UsageReservation =
  ur_tenant :: uuid
  ur_run :: uuid
  ur_repository :: string
  ur_reserved :: nat
  ur_settled :: nat
  ur_state :: string
  ur_period :: int
  ur_settled_at :: "gotime option"

record LedgerRow =
  le_tenant :: uuid
  le_run :: uuid
  le_repository :: string
  le_quantity :: nat
  le_kind :: string
  le_key :: "uuid \<times> string"
  le_metadata :: payload

datatype ReviewInterventionState =
  ReviewInterventionOpen | ReviewInterventionClaimed | ReviewInterventionResolved

record ReviewIntervention =
  in_id :: uuid
  in_tenant :: uuid
  in_run :: uuid
  in_revision :: nat
  in_state :: ReviewInterventionState
  in_assignee :: string
  in_claimed_at :: "gotime option"
  in_resolved_at :: "gotime option"
  in_resolved_by :: string
  in_resolution :: string
  in_reason :: string

record AuditRow =
  au_tenant :: uuid
  au_actor :: string
  au_action :: string
  au_target :: pval
  au_metadata :: payload

record Delivery =
  de_id :: uuid
  de_provider :: string
  de_delivery :: "string \<times> uuid \<times> string"
  de_event :: string
  de_payload :: payload

text \<open>The identity of a delivery is a pair of the provider and a token. A provider's own token
  is \<open>(''provider'', 0, token)\<close>, the token of a manual retry is
  \<open>(''manual-retry'', source run, idempotency key)\<close>.\<close>

record RetryRequest =
  rr_source :: uuid
  rr_key :: string
  rr_retry :: uuid
  rr_actor :: string

record ConfigSnapshot =
  cs_run :: uuid
  cs_section :: string
  cs_content :: string

record Membership =
  mem_tenant :: uuid
  mem_slug :: string
  mem_subject :: string
  mem_role :: string
  mem_active :: bool

record Installation =
  ins_id :: uuid
  ins_tenant :: uuid
  ins_provider :: string
  ins_external :: string
  ins_api :: string
  ins_active :: bool
  ins_verification :: string

record db =
  db_next :: uuid
  db_requests :: "ReviewRequest list"
  db_runs :: "ReviewRun list"
  db_jobs :: "ReviewJob list"
  db_events :: "RunEvent list"
  db_stages :: "RunStage list"
  db_outbox :: "OutboxRow list"
  db_reservations :: "UsageReservation list"
  db_ledger :: "LedgerRow list"
  db_interventions :: "ReviewIntervention list"
  db_audits :: "AuditRow list"
  db_deliveries :: "Delivery list"
  db_retries :: "RetryRequest list"
  db_configs :: "ConfigSnapshot list"
  db_selections :: "(uuid \<times> payload) list"
  db_members :: "Membership list"
  db_installations :: "Installation list"
  db_limits :: "(uuid \<times> nat) list"
  db_checkpoints :: "(uuid \<times> string) list"

datatype store_error =
    ErrNotFound
  | ErrForbidden
  | ErrConflict
  | ErrRevisionConflict
  | ErrInvalidRunRetry
  | ErrInvalidReviewIntervention
  | ErrWorkspaceSetupIncomplete
  | ErrSelectedRuleSetUnavailable
  | ErrQuotaExceeded
  | ErrTransition RunState RunState
  | ErrConstraint string
  | ErrOther string

record scope =
  sc_ref :: string
  sc_provider :: string
  sc_api :: string

record env =
  env_now :: gotime
  env_period :: int
  env_rules :: "uuid \<Rightarrow> scope \<Rightarrow> string \<Rightarrow> uuid option \<Rightarrow> int \<Rightarrow> store_error + (uuid \<times> payload list)"
  env_config :: "uuid \<Rightarrow> scope \<Rightarrow> string \<Rightarrow> store_error + string"
  env_default_mode :: "uuid \<Rightarrow> scope \<Rightarrow> store_error + ReviewMode"
  env_rule_set_active :: "uuid \<Rightarrow> scope \<Rightarrow> string \<Rightarrow> uuid \<Rightarrow> store_error + bool"

record InboundEvent =
  ie_provider :: string
  ie_api :: string
  ie_delivery :: string
  ie_repository :: string
  ie_number :: int
  ie_base_ref :: string
  ie_base_sha :: string
  ie_head_sha :: string
  ie_trigger :: string
  ie_actor_kind :: string
  ie_actor_subject :: string
  ie_mode :: ReviewMode
  ie_rule_set :: "uuid option"
  ie_defer_ack :: bool
  ie_title :: string
  ie_author :: string

section \<open>Statements\<close>

definition fresh :: "db \<Rightarrow> uuid \<times> db" where
  "fresh d = (db_next d, d\<lparr>db_next := Suc (db_next d)\<rparr>)"

definition insertOutbox :: "db \<Rightarrow> uuid \<Rightarrow> string \<Rightarrow> dedupe_key \<Rightarrow> payload \<Rightarrow> db" where
  "insertOutbox d runID topic dedupeKey p =
     (if dedupeKey \<in> ob_key ` set (db_outbox d) then d
      else let (i, d) = fresh d in
        d\<lparr>db_outbox := db_outbox d @
            [\<lparr>ob_id = i, ob_aggregate = runID, ob_topic = topic, ob_key = dedupeKey, ob_payload = p\<rparr>]\<rparr>)"

definition appendRunEvent ::
  "db \<Rightarrow> uuid \<Rightarrow> nat \<Rightarrow> string \<Rightarrow> string \<Rightarrow> string \<Rightarrow> payload \<Rightarrow> store_error + db" where
  "appendRunEvent d runID revision eventType actorKind actorSubject p =
     (if actorKind \<notin> {''system'', ''user'', ''provider'', ''worker''}
      then Inl (ErrConstraint ''actor_kind'')
      else if (runID, revision) \<in> (\<lambda>e. (ev_run e, ev_revision e)) ` set (db_events d)
      then Inl (ErrConstraint ''run_id, revision'')
      else Inr (d\<lparr>db_events := db_events d @
            [\<lparr>ev_run = runID, ev_revision = revision, ev_type = eventType, ev_actor_kind = actorKind,
              ev_actor_subject = actorSubject, ev_payload = p\<rparr>]\<rparr>))"

definition audit :: "db \<Rightarrow> uuid \<Rightarrow> string \<Rightarrow> string \<Rightarrow> pval \<Rightarrow> payload \<Rightarrow> db" where
  "audit d tenant actor action target metadata =
     d\<lparr>db_audits := db_audits d @
         [\<lparr>au_tenant = tenant, au_actor = actor, au_action = action, au_target = target,
           au_metadata = metadata\<rparr>]\<rparr>"

definition update_run :: "db \<Rightarrow> uuid \<Rightarrow> (ReviewRun \<Rightarrow> ReviewRun) \<Rightarrow> db" where
  "update_run d i f = d\<lparr>db_runs := update_where (\<lambda>r. run_id r = i) f (db_runs d)\<rparr>"

definition update_job :: "db \<Rightarrow> (ReviewJob \<Rightarrow> bool) \<Rightarrow> (ReviewJob \<Rightarrow> ReviewJob) \<Rightarrow> db" where
  "update_job d p f = d\<lparr>db_jobs := update_where p f (db_jobs d)\<rparr>"

text \<open>\<open>INSERT INTO review_runs\<close> with its constraints: the job belongs to one run, a request has
  one active run, the trigger kind is one of the admitted ones.\<close>

definition trigger_kinds :: "string set" where
  "trigger_kinds = {''pull_request'', ''comment'', ''manual'', ''retry'', ''cli'', ''scheduled''}"

definition insert_run ::
  "db \<Rightarrow> uuid \<Rightarrow> uuid \<Rightarrow> string \<Rightarrow> ReviewMode \<Rightarrow> string \<Rightarrow> string \<Rightarrow> uuid \<Rightarrow> store_error + (db \<times> ReviewRun)"
where
  "insert_run d requestID jobID triggerKind mode headSHA baseSHA snapshotID =
     (if triggerKind \<notin> trigger_kinds then Inl (ErrConstraint ''trigger_kind'')
      else if \<exists>r \<in> set (db_runs d). run_job r = Some jobID then Inl (ErrConstraint ''legacy_job_id'')
      else if \<exists>r \<in> set (db_runs d). run_request r = requestID \<and> run_state r \<in> active_states
      then Inl (ErrConstraint ''review_runs_active_request_idx'')
      else let (i, d) = fresh d;
               r = \<lparr>run_id = i, run_request = requestID, run_job = Some jobID, run_revision = 1,
                    run_state = RunAcknowledged, run_trigger = triggerKind, run_mode = mode,
                    run_head = headSHA, run_base = baseSHA, run_cancel_at = None,
                    run_superseded_by = None, run_failure_code = None, run_failure_message = None,
                    run_snapshot = snapshotID, run_started = None, run_finished = None\<rparr>
           in Inr (d\<lparr>db_runs := db_runs d @ [r]\<rparr>, r))"

definition stages :: "string list" where
  "stages = [''ack'', ''admit'', ''prepare'', ''analyze'', ''normalize'', ''publish'']"

definition init_stages :: "db \<Rightarrow> uuid \<Rightarrow> db" where
  "init_stages d runID = d\<lparr>db_stages := db_stages d @
     map (\<lambda>s. \<lparr>st_run = runID, st_stage = s, st_state = ''pending'', st_attempt = 0,
               st_started = None, st_finished = None, st_details = []\<rparr>) stages\<rparr>"

definition set_current_run :: "db \<Rightarrow> uuid \<Rightarrow> uuid \<Rightarrow> db" where
  "set_current_run d requestID runID =
     d\<lparr>db_requests := update_where (\<lambda>q. req_id q = requestID) (\<lambda>q. q\<lparr>req_current := Some runID\<rparr>)
        (db_requests d)\<rparr>"

definition recordRuleRolloutRunSelections :: "db \<Rightarrow> uuid \<Rightarrow> payload list \<Rightarrow> db" where
  "recordRuleRolloutRunSelections d runID selections =
     d\<lparr>db_selections := db_selections d @ map (\<lambda>s. (runID, s)) selections\<rparr>"

text \<open>The sections in the order of \<open>ReviewConfigSections\<close>.\<close>

fun snapshot_sections ::
  "env \<Rightarrow> uuid \<Rightarrow> uuid \<Rightarrow> scope \<Rightarrow> string list \<Rightarrow> db \<Rightarrow> store_error + db" where
  "snapshot_sections e runID tenantID sc [] d = Inr d"
| "snapshot_sections e runID tenantID sc (section # rest) d =
     bind_r (env_config e tenantID sc section) (\<lambda>content.
       snapshot_sections e runID tenantID sc rest
         (if (runID, section) \<in> (\<lambda>c. (cs_run c, cs_section c)) ` set (db_configs d) then d
          else d\<lparr>db_configs := db_configs d @
                [\<lparr>cs_run = runID, cs_section = section, cs_content = content\<rparr>]\<rparr>))"

definition ReviewConfigSections :: "string list" where
  "ReviewConfigSections = [''general'', ''categories'', ''filters'', ''prompts'', ''summary'',
     ''messages'', ''models'', ''issue-triage'']"

definition snapshotReviewConfigurations ::
  "env \<Rightarrow> db \<Rightarrow> uuid \<Rightarrow> uuid \<Rightarrow> scope \<Rightarrow> store_error + db" where
  "snapshotReviewConfigurations e d runID tenantID sc =
     snapshot_sections e runID tenantID sc ReviewConfigSections d"

section \<open>Authorization and setup\<close>

definition authorizedTenantTx :: "db \<Rightarrow> string \<Rightarrow> string \<Rightarrow> store_error + (uuid \<times> string)" where
  "authorizedTenantTx d actor tenantSlug =
     (case find (\<lambda>m. mem_slug m = tenantSlug \<and> mem_subject m = actor \<and> mem_active m) (db_members d) of
        None \<Rightarrow> Inl ErrForbidden
      | Some m \<Rightarrow> Inr (mem_tenant m, mem_role m))"

definition interventionRoleAllowed :: "string \<Rightarrow> bool" where
  "interventionRoleAllowed role \<longleftrightarrow>
     role = ''owner'' \<or> role = ''admin'' \<or> role = ''rule_admin'' \<or> role = ''reviewer''"

definition workspaceSetupAllowsReview :: "db \<Rightarrow> uuid \<Rightarrow> bool" where
  "workspaceSetupAllowsReview d tenantID =
     (case map_of (db_checkpoints d) tenantID of None \<Rightarrow> True | Some step \<Rightarrow> step = ''complete'')"

section \<open>Usage\<close>

definition committed_usage :: "db \<Rightarrow> uuid \<Rightarrow> int \<Rightarrow> nat" where
  "committed_usage d tenantID period =
     sum_list (map (\<lambda>u. if ur_state u = ''reserved'' then ur_reserved u
                        else if ur_state u = ''settled'' then ur_settled u else 0)
       (filter (\<lambda>u. ur_tenant u = tenantID \<and> ur_period u = period) (db_reservations d)))"

definition insert_ledger :: "db \<Rightarrow> LedgerRow \<Rightarrow> db" where
  "insert_ledger d row =
     (if le_key row \<in> le_key ` set (db_ledger d) then d
      else d\<lparr>db_ledger := db_ledger d @ [row]\<rparr>)"

definition hard_limit :: "db \<Rightarrow> uuid \<Rightarrow> nat" where
  "hard_limit d tenantID = (case map_of (db_limits d) tenantID of None \<Rightarrow> 0 | Some l \<Rightarrow> l)"

definition reserveReviewUsage :: "env \<Rightarrow> db \<Rightarrow> uuid \<Rightarrow> uuid \<Rightarrow> string \<Rightarrow> store_error + db" where
  "reserveReviewUsage e d tenantID runID repository =
     (if runID \<in> ur_run ` set (db_reservations d) then Inr d
      else let hardLimit = hard_limit d tenantID in
        if hardLimit > 0 \<and> committed_usage d tenantID (env_period e) \<ge> hardLimit then Inl ErrQuotaExceeded
        else Inr (insert_ledger
          (d\<lparr>db_reservations := db_reservations d @
              [\<lparr>ur_tenant = tenantID, ur_run = runID, ur_repository = repository, ur_reserved = 1,
                ur_settled = 0, ur_state = ''reserved'', ur_period = env_period e,
                ur_settled_at = None\<rparr>]\<rparr>)
          \<lparr>le_tenant = tenantID, le_run = runID, le_repository = repository, le_quantity = 1,
            le_kind = ''reserve'', le_key = (runID, ''reserve''), le_metadata = []\<rparr>))"

definition finalizeReviewUsage :: "env \<Rightarrow> db \<Rightarrow> uuid \<Rightarrow> bool \<Rightarrow> db" where
  "finalizeReviewUsage e d runID completed =
     (let state = (if completed then ''settled'' else ''released'');
          eventKind = (if completed then ''settle'' else ''release'');
          hit = (\<lambda>u. ur_run u = runID \<and> ur_state u = ''reserved'') in
      case find hit (db_reservations d) of
        None \<Rightarrow> d
      | Some u \<Rightarrow> insert_ledger
          (d\<lparr>db_reservations := update_where hit
              (\<lambda>u. u\<lparr>ur_state := state, ur_settled := (if state = ''settled'' then ur_reserved u else 0),
                     ur_settled_at := Some (env_now e)\<rparr>) (db_reservations d)\<rparr>)
          \<lparr>le_tenant = ur_tenant u, le_run = runID, le_repository = ur_repository u,
            le_quantity = ur_reserved u, le_kind = eventKind, le_key = (runID, eventKind),
            le_metadata = [(''reservation_state'', PStr state)]\<rparr>)"

section \<open>Interventions\<close>

definition Active :: "ReviewInterventionState \<Rightarrow> bool" where
  "Active s \<longleftrightarrow> s = ReviewInterventionOpen \<or> s = ReviewInterventionClaimed"

definition run_tenant :: "db \<Rightarrow> uuid \<Rightarrow> uuid option" where
  "run_tenant d runID =
     (case row_by run_id runID (db_runs d) of None \<Rightarrow> None
      | Some r \<Rightarrow> map_option req_tenant (row_by req_id (run_request r) (db_requests d)))"

definition ensureReviewIntervention :: "db \<Rightarrow> uuid \<Rightarrow> RunState \<Rightarrow> store_error + db" where
  "ensureReviewIntervention d runID state =
     (if state \<noteq> RunFailed \<and> state \<noteq> RunNeedsAttention then Inr d
      else case run_tenant d runID of
        None \<Rightarrow> Inl (ErrOther ''resolve review intervention tenant'')
      | Some tenantID \<Rightarrow>
          if runID \<in> in_run ` set (db_interventions d) then Inr d
          else let (i, d) = fresh d in
            Inr (audit
              (d\<lparr>db_interventions := db_interventions d @
                  [\<lparr>in_id = i, in_tenant = tenantID, in_run = runID, in_revision = 1,
                    in_state = ReviewInterventionOpen, in_assignee = '''', in_claimed_at = None,
                    in_resolved_at = None, in_resolved_by = '''', in_resolution = '''',
                    in_reason = ''review reached terminal state: '' @ run_state_name state\<rparr>]\<rparr>)
              tenantID ''system:workflow'' ''review_intervention.opened'' (PUuid i)
              [(''run_id'', PUuid runID), (''run_state'', PStr (run_state_name state))]))"

definition update_interventions ::
  "db \<Rightarrow> (ReviewIntervention \<Rightarrow> bool) \<Rightarrow> (ReviewIntervention \<Rightarrow> ReviewIntervention) \<Rightarrow> db" where
  "update_interventions d p f = d\<lparr>db_interventions := update_where p f (db_interventions d)\<rparr>"

definition resolveReviewInterventionForRetry ::
  "env \<Rightarrow> db \<Rightarrow> uuid \<Rightarrow> uuid \<Rightarrow> uuid \<Rightarrow> string \<Rightarrow> db" where
  "resolveReviewInterventionForRetry e d tenantID sourceRunID retryRunID actor =
     (let hit = (\<lambda>v. in_tenant v = tenantID \<and> in_run v = sourceRunID \<and> Active (in_state v)) in
      case find hit (db_interventions d) of
        None \<Rightarrow> d
      | Some v \<Rightarrow> audit
          (update_interventions d hit (\<lambda>v. v\<lparr>in_state := ReviewInterventionResolved,
             in_resolved_at := Some (env_now e), in_resolved_by := actor,
             in_resolution := ''retry_requested'', in_revision := Suc (in_revision v)\<rparr>))
          tenantID actor ''review_intervention.retry_requested'' (PUuid (in_id v))
          [(''retry_run_id'', PUuid retryRunID)])"

definition ClaimReviewIntervention ::
  "env \<Rightarrow> db \<Rightarrow> string \<Rightarrow> string \<Rightarrow> uuid \<Rightarrow> int \<Rightarrow> store_error + (db \<times> ReviewIntervention)" where
  "ClaimReviewIntervention e d actor tenantSlug runID expectedRevision =
     (if runID = 0 \<or> expectedRevision < 1 then Inl ErrInvalidReviewIntervention
      else bind_r (authorizedTenantTx d actor tenantSlug) (\<lambda>(tenantID, role).
        if \<not> interventionRoleAllowed role then Inl ErrForbidden
        else let key = (\<lambda>v. in_tenant v = tenantID \<and> in_run v = runID) in
          case find key (db_interventions d) of
            None \<Rightarrow> Inl ErrNotFound
          | Some v \<Rightarrow>
              if int (in_revision v) \<noteq> expectedRevision then Inl ErrRevisionConflict
              else if in_state v \<noteq> ReviewInterventionOpen then Inl ErrConflict
              else let claim = (\<lambda>v. v\<lparr>in_state := ReviewInterventionClaimed, in_assignee := actor,
                         in_claimed_at := Some (env_now e), in_revision := Suc (in_revision v)\<rparr>) in
                Inr (audit (update_interventions d key claim) tenantID actor
                  ''review_intervention.claimed'' (PUuid (in_id v)) [(''run_id'', PUuid runID)], claim v)))"

record ReviewInterventionResolutionInput =
  ri_expected :: int
  ri_reason :: string

definition NormalizeReviewInterventionResolutionInput ::
  "ReviewInterventionResolutionInput \<Rightarrow> ReviewInterventionResolutionInput option" where
  "NormalizeReviewInterventionResolutionInput input =
     (let input = input\<lparr>ri_reason := TrimSpace (ri_reason input)\<rparr> in
      if ri_expected input < 1 \<or> length (runes (ri_reason input)) < 3
         \<or> length (runes (ri_reason input)) > 2000 then None
      else Some input)"

definition ResolveReviewIntervention ::
  "env \<Rightarrow> db \<Rightarrow> string \<Rightarrow> string \<Rightarrow> uuid \<Rightarrow> ReviewInterventionResolutionInput
   \<Rightarrow> store_error + (db \<times> ReviewIntervention)" where
  "ResolveReviewIntervention e d actor tenantSlug runID input =
     (case NormalizeReviewInterventionResolutionInput input of
        None \<Rightarrow> Inl ErrInvalidReviewIntervention
      | Some input \<Rightarrow>
        if runID = 0 then Inl ErrInvalidReviewIntervention
        else bind_r (authorizedTenantTx d actor tenantSlug) (\<lambda>(tenantID, role).
          if \<not> interventionRoleAllowed role then Inl ErrForbidden
          else let key = (\<lambda>v. in_tenant v = tenantID \<and> in_run v = runID) in
            case find key (db_interventions d) of
              None \<Rightarrow> Inl ErrNotFound
            | Some v \<Rightarrow>
                if int (in_revision v) \<noteq> ri_expected input then Inl ErrRevisionConflict
                else if \<not> Active (in_state v) then Inl ErrConflict
                else if in_state v = ReviewInterventionClaimed \<and> in_assignee v \<noteq> actor
                        \<and> role \<noteq> ''owner'' \<and> role \<noteq> ''admin'' then Inl ErrForbidden
                else let resolve = (\<lambda>v. v\<lparr>in_state := ReviewInterventionResolved,
                           in_resolved_at := Some (env_now e), in_resolved_by := actor,
                           in_resolution := ''acknowledged'', in_reason := ri_reason input,
                           in_revision := Suc (in_revision v)\<rparr>) in
                  Inr (audit (update_interventions d key resolve) tenantID actor
                    ''review_intervention.acknowledged'' (PUuid (in_id v))
                    [(''run_id'', PUuid runID), (''reason'', PStr (ri_reason input))], resolve v)))"

end
