(* ===== verification/Workflow_Store.thy ===== *)
theory Workflow_Store
  imports Store_Tables
begin

text \<open>
  The transactions of \<open>src/internal/store/workflow.go\<close> that create, cancel, retry and advance
  review runs, in the order of the source. Every statement of a transaction that changes a
  modelled table is a step of its definition.
\<close>

section \<open>Admission of usage\<close>

text \<open>\<open>admitRunUsage\<close> returns whether the run was admitted, and the run with the fields the
  code sets on the in-memory copy.\<close>

definition quota_message :: string where
  "quota_message = ''monthly review quota exhausted before execution''"

definition admitRunUsage ::
  "env \<Rightarrow> db \<Rightarrow> uuid \<Rightarrow> string \<Rightarrow> ReviewRun \<Rightarrow> store_error + (db \<times> ReviewRun \<times> bool)" where
  "admitRunUsage e d tenantID repository run =
     (case reserveReviewUsage e d tenantID (run_id run) repository of
        Inr d \<Rightarrow> Inr (d, run, True)
      | Inl err \<Rightarrow>
        if err \<noteq> ErrQuotaExceeded then Inl err
        else
          let rev = Suc (run_revision run);
              reject = (\<lambda>r. r\<lparr>run_state := RunFailed, run_revision := rev,
                run_failure_code := Some ''quota_exceeded'', run_failure_message := Some quota_message,
                run_finished := Some (env_now e)\<rparr>);
              d = update_run d (run_id run) reject;
              d = (case run_job run of None \<Rightarrow> d
                   | Some j \<Rightarrow> update_job d (\<lambda>x. job_id x = j) (\<lambda>x. x\<lparr>job_state := JobFailed,
                       job_error := Some (quota_message, None), job_finished := Some (env_now e),
                       job_locked_by := None, job_locked_until := None\<rparr>));
              d = d\<lparr>db_stages := update_where (\<lambda>s. st_run s = run_id run \<and> st_state s = ''pending'')
                    (\<lambda>s. s\<lparr>st_state := ''skipped'', st_finished := Some (env_now e),
                           st_details := [(''reason'', PStr ''quota_exceeded'')]\<rparr>) (db_stages d)\<rparr>
          in bind_r (appendRunEvent d (run_id run) rev ''run.failed'' ''system'' ''usage-admission''
                [(''failure_code'', PStr ''quota_exceeded'')]) (\<lambda>d.
             let d = insertOutbox d (run_id run) ''review.run.failed'' (RunKey (run_id run) rev ''failed'')
                   [(''run_id'', PUuid (run_id run)), (''revision'', PInt (int rev)),
                    (''failure_code'', PStr ''quota_exceeded'')]
             in bind_r (ensureReviewIntervention d (run_id run) RunFailed) (\<lambda>d.
                Inr (d, reject run, False))))"

section \<open>Run creation\<close>

definition resolveConfiguredReviewMode ::
  "env \<Rightarrow> uuid \<Rightarrow> scope \<Rightarrow> ReviewMode \<Rightarrow> store_error + ReviewMode" where
  "resolveConfiguredReviewMode e tenantID sc requested =
     (let requested = (if requested = '''' then ''configured'' else requested) in
      if \<not> ReviewMode_Valid requested then Inl (ErrOther ''review mode is invalid'')
      else if requested \<noteq> ''configured'' then Inr requested
      else bind_r (env_default_mode e tenantID sc) (\<lambda>mode.
        if \<not> ReviewMode_Selectable mode then Inl (ErrOther ''configured review mode is invalid'')
        else Inr mode))"

definition reviewConfigScopeForInstallation :: "Installation \<Rightarrow> string \<Rightarrow> scope" where
  "reviewConfigScopeForInstallation inst repository =
     \<lparr>sc_ref = repository, sc_provider = ins_provider inst, sc_api = ins_api inst\<rparr>"

definition normalizeReviewRequestMetadata :: "string \<Rightarrow> nat \<Rightarrow> string" where
  "normalizeReviewRequestMetadata value maximumRunes =
     (let value = TrimSpace value in
      if maximumRunes = 0 \<or> value = '''' then ''''
      else let rs = runes value in
        if length rs > maximumRunes then concat (map encode_rune (take maximumRunes rs)) else value)"

definition upsert_request :: "db \<Rightarrow> Installation \<Rightarrow> InboundEvent \<Rightarrow> store_error + (db \<times> uuid)" where
  "upsert_request d inst event =
     (let title = normalizeReviewRequestMetadata (ie_title event) 512;
          author = normalizeReviewRequestMetadata (ie_author event) 256;
          key = (\<lambda>q. (req_tenant q, req_installation q, req_repository q, req_number q));
          k = (ins_tenant inst, ins_id inst, ie_repository event, ie_number event) in
      if ie_provider event \<notin> {''github'', ''gitlab''} then Inl (ErrConstraint ''provider'')
      else if ie_number event \<le> 0 then Inl (ErrConstraint ''review_number'')
      else case row_by key k (db_requests d) of
        Some q \<Rightarrow>
          Inr (d\<lparr>db_requests := update_where (\<lambda>q. key q = k)
                  (\<lambda>q. q\<lparr>req_title := (if title \<noteq> '''' then title else req_title q),
                         req_author := (if author \<noteq> '''' then author else req_author q)\<rparr>)
                  (db_requests d)\<rparr>, req_id q)
      | None \<Rightarrow>
          let (i, d) = fresh d in
          Inr (d\<lparr>db_requests := db_requests d @
                [\<lparr>req_id = i, req_tenant = ins_tenant inst, req_installation = ins_id inst,
                  req_provider = ie_provider event, req_api = ie_api event,
                  req_repository = ie_repository event, req_number = ie_number event,
                  req_title = title, req_author = author, req_current = None\<rparr>]\<rparr>, i))"

text \<open>The superseding statement and the rows it returns.\<close>

definition stale_run :: "uuid \<Rightarrow> string \<Rightarrow> ReviewRun \<Rightarrow> bool" where
  "stale_run requestID headSHA r \<longleftrightarrow>
     run_request r = requestID \<and> run_state r \<in> active_states \<and> run_head r \<noteq> headSHA"

definition supersede :: "env \<Rightarrow> ReviewRun \<Rightarrow> ReviewRun" where
  "supersede e r = r\<lparr>run_state := RunSuperseded, run_revision := Suc (run_revision r),
     run_finished := Some (env_now e)\<rparr>"

definition supersede_stale :: "env \<Rightarrow> db \<Rightarrow> uuid \<Rightarrow> string \<Rightarrow> db \<times> (uuid \<times> nat) list" where
  "supersede_stale e d requestID headSHA =
     (d\<lparr>db_runs := update_where (stale_run requestID headSHA) (supersede e) (db_runs d)\<rparr>,
      map (\<lambda>r. (run_id r, Suc (run_revision r))) (filter (stale_run requestID headSHA) (db_runs d)))"

text \<open>The loop over the superseded runs at the end of \<open>createWorkflowRun\<close>.\<close>

fun link_stale :: "env \<Rightarrow> uuid \<Rightarrow> string \<Rightarrow> (uuid \<times> nat) list \<Rightarrow> db \<Rightarrow> store_error + db" where
  "link_stale e runID headSHA [] d = Inr d"
| "link_stale e runID headSHA ((stale, revision) # rest) d =
     bind_r (appendRunEvent d stale revision ''run.superseded'' ''provider'' ''''
         [(''replacement_run_id'', PUuid runID), (''replacement_head_sha'', PStr headSHA)]) (\<lambda>d.
       let d = update_run d stale (\<lambda>r. r\<lparr>run_superseded_by := Some runID\<rparr>);
           d = insertOutbox d stale ''review.run.superseded'' (RunKey stale revision ''superseded'')
             [(''run_id'', PUuid stale), (''revision'', PInt (int revision)),
              (''replacement_run_id'', PUuid runID)]
       in link_stale e runID headSHA rest (finalizeReviewUsage e d stale False))"

datatype admission = Coalesced uuid | Created uuid

text \<open>The second half of \<open>createWorkflowRun\<close>, when no active run owns the head: from the rule
  snapshot to the links of the superseded runs. \<open>insert_first_event\<close> is the part of it between
  the new row and the admission of usage.\<close>

definition insert_first_event ::
  "db \<Rightarrow> Installation \<Rightarrow> InboundEvent \<Rightarrow> string \<Rightarrow> string \<Rightarrow> ReviewMode \<Rightarrow> uuid \<Rightarrow> store_error + db" where
  "insert_first_event d inst event triggerKind actorKind reviewMode runID =
     bind_r (appendRunEvent d runID 1 ''run.acknowledged'' actorKind (ie_actor_subject event)
                [(''provider'', PStr (ie_provider event)), (''delivery_id'', PStr (ie_delivery event)),
                 (''review_number'', PInt (ie_number event)), (''trigger'', PStr triggerKind),
                 (''review_mode'', PStr reviewMode)]) (\<lambda>d.
      let d = (if triggerKind = ''cli''
               then audit d (ins_tenant inst) (ie_actor_subject event) ''cli_review.submitted'' (PUuid runID)
                 [(''repository'', PStr (ie_repository event)), (''review_number'', PInt (ie_number event)),
                  (''head_sha'', PStr (ie_head_sha event)), (''mode'', PStr reviewMode)]
               else d);
          d = init_stages d runID;
          d = (if \<not> ie_defer_ack event
               then insertOutbox d runID ''review.run.acknowledged'' (RunKey runID 1 ''acknowledged'')
                 [(''run_id'', PUuid runID), (''revision'', PInt 1)]
               else d)
      in Inr d)"

definition create_event_run ::
  "env \<Rightarrow> db \<Rightarrow> Installation \<Rightarrow> uuid \<Rightarrow> InboundEvent \<Rightarrow> uuid \<Rightarrow> (uuid \<times> nat) list
   \<Rightarrow> string \<Rightarrow> string \<Rightarrow> scope \<Rightarrow> ReviewMode \<Rightarrow> store_error + (db \<times> uuid)" where
  "create_event_run e d inst jobID event requestID staleRuns triggerKind actorKind configScope reviewMode =
     bind_r (env_rules e (ins_tenant inst) configScope (ie_base_ref event) (ie_rule_set event)
                (ie_number event)) (\<lambda>(ruleSnapshotID, selections).
      bind_r (insert_run d requestID jobID triggerKind reviewMode (ie_head_sha event)
                (ie_base_sha event) ruleSnapshotID) (\<lambda>(d, run).
      let runID = run_id run;
          d = recordRuleRolloutRunSelections d runID selections in
      bind_r (snapshotReviewConfigurations e d runID (ins_tenant inst) configScope) (\<lambda>d.
      let d = set_current_run d requestID runID in
      bind_r (insert_first_event d inst event triggerKind actorKind reviewMode runID) (\<lambda>d.
      bind_r (admitRunUsage e d (ins_tenant inst) (ie_repository event) run) (\<lambda>(d, run, admitted).
      bind_r (link_stale e runID (ie_head_sha event) staleRuns d) (\<lambda>d.
      Inr (d, runID)))))))"

definition createWorkflowRun ::
  "env \<Rightarrow> db \<Rightarrow> Installation \<Rightarrow> uuid \<Rightarrow> InboundEvent \<Rightarrow> store_error + (db \<times> admission)" where
  "createWorkflowRun e d inst jobID event =
     (let triggerKind = (let t = TrimSpace (ie_trigger event) in if t = '''' then ''pull_request'' else t);
          actorKind = (let a = TrimSpace (ie_actor_kind event) in if a = '''' then ''provider'' else a);
          configScope = reviewConfigScopeForInstallation inst (ie_repository event) in
      bind_r (resolveConfiguredReviewMode e (ins_tenant inst) configScope (ie_mode event)) (\<lambda>reviewMode.
      bind_r (upsert_request d inst event) (\<lambda>(d, requestID).
      let (d, staleRuns) = supersede_stale e d requestID (ie_head_sha event) in
      case find (\<lambda>r. run_request r = requestID \<and> run_head r = ie_head_sha event
                     \<and> run_state r \<in> active_states) (db_runs d) of
        Some r \<Rightarrow>
          Inr (update_job d (\<lambda>j. job_id j = jobID) (\<lambda>j. j\<lparr>job_state := JobCancelled,
                 job_finished := Some (env_now e),
                 job_error := Some (''coalesced into active review run '', Some (run_id r))\<rparr>),
               Coalesced (run_id r))
      | None \<Rightarrow>
          bind_r (create_event_run e d inst jobID event requestID staleRuns triggerKind actorKind
                    configScope reviewMode) (\<lambda>(d, runID). Inr (d, Created runID)))))"

text \<open>\<open>createCommentRun\<close>: a command on an existing run queues a new job and a new run with the
  revision of the current run. \<open>token\<close> is the comment's delivery token.\<close>

definition copy_job :: "db \<Rightarrow> uuid \<Rightarrow> uuid \<Rightarrow> string \<Rightarrow> string \<Rightarrow> (db \<times> ReviewJob) option" where
  "copy_job d source deliveryID baseSHA headSHA =
     (case row_by job_id source (db_jobs d) of None \<Rightarrow> None
      | Some j \<Rightarrow>
          let (i, d) = fresh d;
              j = j\<lparr>job_id := i, job_delivery := deliveryID, job_base_sha := baseSHA,
                    job_head_sha := headSHA, job_state := JobQueued, job_locked_by := None,
                    job_locked_until := None, job_error := None, job_finished := None\<rparr>
          in Some (d\<lparr>db_jobs := db_jobs d @ [j]\<rparr>, j))"

definition upsert_delivery ::
  "db \<Rightarrow> string \<Rightarrow> string \<times> uuid \<times> string \<Rightarrow> string \<Rightarrow> payload \<Rightarrow> db \<times> uuid" where
  "upsert_delivery d provider token event p =
     (case row_by (\<lambda>x. (de_provider x, de_delivery x)) (provider, token) (db_deliveries d) of
        Some x \<Rightarrow> (d, de_id x)
      | None \<Rightarrow>
          let (i, d) = fresh d in
          (d\<lparr>db_deliveries := db_deliveries d @
              [\<lparr>de_id = i, de_provider = provider, de_delivery = token, de_event = event,
                de_payload = p\<rparr>]\<rparr>, i))"

record CommentEvent =
  ce_provider :: string
  ce_delivery :: string
  ce_repository :: string
  ce_comment :: string

definition createCommentRun ::
  "env \<Rightarrow> db \<Rightarrow> uuid \<Rightarrow> ReviewRun \<Rightarrow> Installation \<Rightarrow> CommentEvent \<Rightarrow> string \<Rightarrow> ReviewMode
   \<Rightarrow> uuid option \<Rightarrow> uuid \<Rightarrow> store_error + (db \<times> ReviewRun)" where
  "createCommentRun e d requestID current inst event triggerKind mode selectedRuleSetID interactionID =
     (case run_job current of
        None \<Rightarrow> Inl (ErrOther ''current review run has no execution job'')
      | Some currentJob \<Rightarrow>
      bind_r (case selectedRuleSetID of None \<Rightarrow> Inr ()
         | Some rs \<Rightarrow>
           (case find (\<lambda>j. job_id j = currentJob \<and> job_repository j = ce_repository event) (db_jobs d) of
              None \<Rightarrow> Inl ErrSelectedRuleSetUnavailable
            | Some j \<Rightarrow>
              bind_r (env_rule_set_active e (ins_tenant inst)
                        (reviewConfigScopeForInstallation inst (ce_repository event)) (job_base_ref j) rs)
                (\<lambda>active. if \<not> active then Inl ErrSelectedRuleSetUnavailable else Inr ()))) (\<lambda>_.
      let (d, deliveryID) = upsert_delivery d (ce_provider event) (''provider'', 0, ce_delivery event)
            ''issue_comment'' [(''interaction_id'', PUuid interactionID),
                               (''comment_id'', PStr (ce_comment event))] in
      case copy_job d currentJob deliveryID (run_base current) (run_head current) of
        None \<Rightarrow> Inl (ErrOther ''queue comment review job'')
      | Some (d, job) \<Rightarrow>
      let sc = reviewConfigScopeForInstallation inst (job_repository job) in
      bind_r (env_rules e (ins_tenant inst) sc (job_base_ref job) selectedRuleSetID (job_number job))
        (\<lambda>(ruleSnapshotID, selections).
      bind_r (insert_run d requestID (job_id job) triggerKind mode (run_head current)
                (run_base current) ruleSnapshotID) (\<lambda>(d, run).
      let d = recordRuleRolloutRunSelections d (run_id run) selections in
      bind_r (snapshotReviewConfigurations e d (run_id run) (ins_tenant inst) sc) (\<lambda>d.
      let d = set_current_run d requestID (run_id run);
          d = init_stages d (run_id run) in
      bind_r (appendRunEvent d (run_id run) (run_revision run) ''run.acknowledged'' ''user'' ''''
                [(''interaction_id'', PUuid interactionID), (''trigger'', PStr triggerKind),
                 (''review_mode'', PStr mode)]) (\<lambda>d.
      bind_r (admitRunUsage e d (ins_tenant inst) (job_repository job) run) (\<lambda>(d, run, admitted).
      Inr (d, run))))))))"

section \<open>Cancellation and release\<close>

definition cancelRun ::
  "env \<Rightarrow> db \<Rightarrow> ReviewRun \<Rightarrow> string \<Rightarrow> string \<Rightarrow> payload \<Rightarrow> store_error + (db \<times> ReviewRun)" where
  "cancelRun e d run actorKind actorSubject p =
     (let revision = Suc (run_revision run);
          cancel = (\<lambda>r. r\<lparr>run_state := RunCancelled, run_cancel_at := Some (env_now e),
                         run_revision := revision, run_finished := Some (env_now e)\<rparr>);
          d = update_run d (run_id run) cancel;
          d = (case run_job run of None \<Rightarrow> d
               | Some j \<Rightarrow> update_job d (\<lambda>x. job_id x = j \<and> job_state x \<in> {JobQueued, JobRunning})
                   (\<lambda>x. x\<lparr>job_state := JobCancelled, job_locked_by := None, job_locked_until := None,
                          job_finished := Some (env_now e)\<rparr>)) in
      bind_r (appendRunEvent d (run_id run) revision ''run.cancelled'' actorKind actorSubject p) (\<lambda>d.
      let d = insertOutbox d (run_id run) ''review.run.cancelled'' (RunKey (run_id run) revision ''cancelled'')
            [(''run_id'', PUuid (run_id run)), (''revision'', PInt (int revision))]
      in Inr (finalizeReviewUsage e d (run_id run) False, cancel run)))"

definition load_run :: "db \<Rightarrow> uuid \<Rightarrow> uuid \<Rightarrow> ReviewRun option" where
  "load_run d runID tenantID =
     (case row_by run_id runID (db_runs d) of None \<Rightarrow> None
      | Some r \<Rightarrow>
        (case row_by req_id (run_request r) (db_requests d) of None \<Rightarrow> None
         | Some q \<Rightarrow> if req_tenant q = tenantID then Some r else None))"

definition RequestRunCancellation ::
  "env \<Rightarrow> db \<Rightarrow> string \<Rightarrow> string \<Rightarrow> uuid \<Rightarrow> int \<Rightarrow> store_error + (db \<times> ReviewRun)" where
  "RequestRunCancellation e d actor tenantSlug runID expectedRevision =
     (if expectedRevision < 1 then Inl ErrRevisionConflict
      else bind_r (authorizedTenantTx d actor tenantSlug) (\<lambda>(tenantID, role).
        if \<not> interventionRoleAllowed role then Inl ErrForbidden
        else case load_run d runID tenantID of
          None \<Rightarrow> Inl ErrNotFound
        | Some run \<Rightarrow>
            if int (run_revision run) \<noteq> expectedRevision then Inl ErrRevisionConflict
            else if Terminal (run_state run) \<or> run_cancel_at run \<noteq> None then Inl ErrConflict
            else cancelRun e d run ''user'' actor [(''source'', PStr ''task_api'')]))"

definition ReleaseAcknowledgedRun :: "db \<Rightarrow> uuid \<Rightarrow> store_error + db" where
  "ReleaseAcknowledgedRun d runID =
     (case row_by run_id runID (db_runs d) of
        None \<Rightarrow> Inl ErrNotFound
      | Some run \<Rightarrow>
          if run_state run \<noteq> RunAcknowledged then Inr d
          else Inr (insertOutbox d runID ''review.run.acknowledged''
                 (RunKey runID (run_revision run) ''acknowledged'')
                 [(''run_id'', PUuid runID), (''revision'', PInt (int (run_revision run)))]))"

section \<open>Retry\<close>

record RunRetryResult =
  rt_run :: ReviewRun
  rt_replayed :: bool

definition replayed_run :: "db \<Rightarrow> uuid \<Rightarrow> string \<Rightarrow> ReviewRun option" where
  "replayed_run d source key =
     (case row_by (\<lambda>x. (rr_source x, rr_key x)) (source, key) (db_retries d) of None \<Rightarrow> None
      | Some x \<Rightarrow> row_by run_id (rr_retry x) (db_runs d))"

text \<open>The job of a run, when its installation may still execute work of the tenant.\<close>

definition retry_installation :: "db \<Rightarrow> uuid \<Rightarrow> uuid \<Rightarrow> ReviewJob option" where
  "retry_installation d jobID tenantID =
     (case row_by job_id jobID (db_jobs d) of None \<Rightarrow> None
      | Some j \<Rightarrow>
        (case row_by ins_id (job_installation j) (db_installations d) of None \<Rightarrow> None
         | Some i \<Rightarrow>
             if ins_tenant i = tenantID \<and> ins_active i
                \<and> ins_verification i \<in> {''legacy'', ''verified''} then Some j else None))"

definition insert_delivery ::
  "db \<Rightarrow> string \<Rightarrow> string \<times> uuid \<times> string \<Rightarrow> string \<Rightarrow> payload \<Rightarrow> store_error + (db \<times> uuid)" where
  "insert_delivery d provider token event p =
     (if (provider, token) \<in> (\<lambda>x. (de_provider x, de_delivery x)) ` set (db_deliveries d)
      then Inl (ErrConstraint ''provider, delivery_id'')
      else let (i, d) = fresh d in
        Inr (d\<lparr>db_deliveries := db_deliveries d @
              [\<lparr>de_id = i, de_provider = provider, de_delivery = token, de_event = event,
                de_payload = p\<rparr>]\<rparr>, i))"

definition insert_retry :: "db \<Rightarrow> uuid \<Rightarrow> string \<Rightarrow> uuid \<Rightarrow> string \<Rightarrow> store_error + db" where
  "insert_retry d source key retry actor =
     (if (source, key) \<in> (\<lambda>x. (rr_source x, rr_key x)) ` set (db_retries d)
      then Inl (ErrConstraint ''source_run_id, idempotency_key'')
      else Inr (d\<lparr>db_retries := db_retries d @
            [\<lparr>rr_source = source, rr_key = key, rr_retry = retry, rr_actor = actor\<rparr>]\<rparr>))"

text \<open>The second half of \<open>RequestRunRetry\<close>, from the delivery record on, for the source run and
  the job it was executed by.\<close>

definition create_retry ::
  "env \<Rightarrow> db \<Rightarrow> string \<Rightarrow> uuid \<Rightarrow> ReviewRun \<Rightarrow> ReviewJob \<Rightarrow> string \<Rightarrow> store_error + (db \<times> RunRetryResult)"
where
  "create_retry e d actor tenantID source job key =
     bind_r (insert_delivery d (job_provider job) (''manual-retry'', run_id source, key) ''manual_retry''
        [(''source_run_id'', PUuid (run_id source)), (''source_revision'', PInt (int (run_revision source))),
         (''actor'', PStr actor)]) (\<lambda>(d, deliveryID).
      case copy_job d (job_id job) deliveryID (run_base source) (run_head source) of
        None \<Rightarrow> Inl ErrConflict
      | Some (d, newJob) \<Rightarrow>
      let sc = \<lparr>sc_ref = job_repository newJob, sc_provider = job_provider job, sc_api = job_api job\<rparr> in
      bind_r (env_rules e tenantID sc (job_base_ref newJob) None (job_number newJob))
        (\<lambda>(ruleSnapshotID, selections).
      bind_r (insert_run d (run_request source) (job_id newJob) ''retry'' (run_mode source)
                (run_head source) (run_base source) ruleSnapshotID) (\<lambda>(d, retry).
      let d = recordRuleRolloutRunSelections d (run_id retry) selections in
      bind_r (insert_retry d (run_id source) key (run_id retry) actor) (\<lambda>d.
      bind_r (snapshotReviewConfigurations e d (run_id retry) tenantID sc) (\<lambda>d.
      let d = set_current_run d (run_request source) (run_id retry);
          d = init_stages d (run_id retry) in
      bind_r (appendRunEvent d (run_id retry) (run_revision retry) ''run.acknowledged'' ''user'' actor
                [(''trigger'', PStr ''retry''), (''source_run_id'', PUuid (run_id source)),
                 (''source_revision'', PInt (int (run_revision source))),
                 (''review_mode'', PStr (run_mode retry))]) (\<lambda>d.
      let d = insertOutbox d (run_id retry) ''review.run.acknowledged''
            (RunKey (run_id retry) 1 ''acknowledged'')
            [(''run_id'', PUuid (run_id retry)), (''revision'', PInt (int (run_revision retry)))] in
      bind_r (admitRunUsage e d tenantID (job_repository newJob) retry) (\<lambda>(d, retry, admitted).
      let d = resolveReviewInterventionForRetry e d tenantID (run_id source) (run_id retry) actor;
          d = audit d tenantID actor ''review_run.retry_requested'' (PUuid (run_id retry))
            [(''source_run_id'', PUuid (run_id source)),
             (''source_revision'', PInt (int (run_revision source)))]
      in Inr (d, \<lparr>rt_run = retry, rt_replayed = False\<rparr>))))))))"

definition RequestRunRetry ::
  "env \<Rightarrow> db \<Rightarrow> string \<Rightarrow> string \<Rightarrow> uuid \<Rightarrow> RunRetryInput \<Rightarrow> store_error + (db \<times> RunRetryResult)" where
  "RequestRunRetry e d actor tenantSlug runID input =
     (case NormalizeRunRetryInput input of
        None \<Rightarrow> Inl ErrInvalidRunRetry
      | Some input \<Rightarrow>
      if runID = 0 then Inl ErrInvalidRunRetry
      else bind_r (authorizedTenantTx d actor tenantSlug) (\<lambda>(tenantID, role).
      if \<not> interventionRoleAllowed role then Inl ErrForbidden
      else if \<not> workspaceSetupAllowsReview d tenantID then Inl ErrWorkspaceSetupIncomplete
      else case load_run d runID tenantID of
        None \<Rightarrow> Inl ErrNotFound
      | Some source \<Rightarrow>
        (case replayed_run d (run_id source) (IdempotencyKey input) of
           Some replay \<Rightarrow> Inr (d, \<lparr>rt_run = replay, rt_replayed = True\<rparr>)
         | None \<Rightarrow>
           if int (run_revision source) \<noteq> ExpectedRevision input then Inl ErrRevisionConflict
           else if run_state source \<noteq> RunFailed \<and> run_state source \<noteq> RunNeedsAttention then Inl ErrConflict
           else case run_job source of
             None \<Rightarrow> Inl ErrConflict
           | Some jobID \<Rightarrow>
             if \<exists>r \<in> set (db_runs d). run_request r = run_request source \<and> run_state r \<in> active_states
             then Inl ErrConflict
             else case retry_installation d jobID tenantID of
               None \<Rightarrow> Inl ErrConflict
             | Some job \<Rightarrow> create_retry e d actor tenantID source job (IdempotencyKey input))))"

section \<open>Advancing a run\<close>

fun stateStage :: "RunState \<Rightarrow> string" where
  "stateStage RunAcknowledged = ''ack''"
| "stateStage RunAdmitted = ''admit''"
| "stateStage RunPreparing = ''prepare''"
| "stateStage RunAnalyzing = ''analyze''"
| "stateStage RunNormalizing = ''normalize''"
| "stateStage RunPublishing = ''publish''"
| "stateStage _ = ''''"

text \<open>\<open>stageIndex\<close> is the position of the stage, \<open>-1\<close> when there is none.\<close>

fun index_from :: "int \<Rightarrow> string list \<Rightarrow> string \<Rightarrow> int" where
  "index_from i [] s = -1"
| "index_from i (c # cs) s = (if c = s then i else index_from (i + 1) cs s)"

definition stageIndex :: "string \<Rightarrow> int" where
  "stageIndex s = index_from 0 stages s"

text \<open>\<open>COALESCE\<close> of a nullable column and a value.\<close>

definition coalesce :: "'a option \<Rightarrow> 'a \<Rightarrow> 'a option" where
  "coalesce x y = (case x of None \<Rightarrow> Some y | Some v \<Rightarrow> Some v)"

definition max_attempt :: "db \<Rightarrow> uuid \<Rightarrow> string \<Rightarrow> nat" where
  "max_attempt d runID stage =
     fold (\<lambda>s m. max (st_attempt s) m) (filter (\<lambda>s. st_run s = runID \<and> st_stage s = stage) (db_stages d)) 0"

text \<open>\<open>details || jsonb_build_object(k, v)\<close> replaces the key.\<close>

definition put_detail :: "string \<Rightarrow> pval \<Rightarrow> payload \<Rightarrow> payload" where
  "put_detail k v p = filter (\<lambda>(k', _). k' \<noteq> k) p @ [(k, v)]"

definition updateLatest :: "env \<Rightarrow> uuid \<Rightarrow> string \<Rightarrow> string \<Rightarrow> bool \<Rightarrow> string \<Rightarrow> db \<Rightarrow> db" where
  "updateLatest e runID stage state terminal reason d =
     (let n = max_attempt d runID stage in
      d\<lparr>db_stages := update_where (\<lambda>s. st_run s = runID \<and> st_stage s = stage \<and> st_attempt s = n)
        (\<lambda>s. s\<lparr>st_state := state, st_started := coalesce (st_started s) (env_now e),
               st_finished := (if terminal then coalesce (st_finished s) (env_now e) else st_finished s),
               st_details := (if reason \<noteq> '''' then put_detail ''terminal_state'' (PStr reason) (st_details s)
                              else st_details s)\<rparr>) (db_stages d)\<rparr>)"

definition advanceRunStageEvidence :: "env \<Rightarrow> db \<Rightarrow> uuid \<Rightarrow> RunState \<Rightarrow> RunState \<Rightarrow> db" where
  "advanceRunStageEvidence e d runID current next =
     (if next = RunCompleted
      then fold (\<lambda>stage. updateLatest e runID stage ''succeeded'' True '''') stages d
      else if next = RunFailed \<or> next = RunNeedsAttention \<or> next = RunCancelled \<or> next = RunSuperseded
      then let activeIndex = stageIndex (stateStage current) in
        fold (\<lambda>stage. let index = stageIndex stage;
                state = (if index < activeIndex then ''succeeded''
                         else if index = activeIndex \<and> (next = RunFailed \<or> next = RunNeedsAttention)
                         then ''failed'' else ''skipped'')
              in updateLatest e runID stage state True (run_state_name next)) stages d
      else let active = stateStage next; activeIndex = stageIndex active;
               d = fold (\<lambda>stage d. let index = stageIndex stage in
                     if index < activeIndex \<or> next = RunAdmitted \<and> index = activeIndex
                     then updateLatest e runID stage ''succeeded'' True '''' d else d) stages d
           in if next \<noteq> RunAdmitted \<and> activeIndex \<ge> 0
              then updateLatest e runID active ''running'' False '''' d else d)"

text \<open>\<open>AdvanceLegacyRun\<close>: the target after a pending cancellation, the guards, and the writes of
  an accepted transition.\<close>

definition advance_target :: "ReviewRun \<Rightarrow> RunState \<Rightarrow> RunState" where
  "advance_target run next =
     (if run_cancel_at run \<noteq> None \<and> \<not> Terminal (run_state run) then RunCancelled else next)"

definition advance_update :: "env \<Rightarrow> ReviewRun \<Rightarrow> RunState \<Rightarrow> ReviewRun \<Rightarrow> ReviewRun" where
  "advance_update e run next r = r\<lparr>run_state := next, run_revision := Suc (run_revision run),
     run_started := (if next = RunPreparing then coalesce (run_started r) (env_now e) else run_started r),
     run_finished := (if Terminal next then Some (env_now e) else run_finished r)\<rparr>"

definition announce :: "db \<Rightarrow> ReviewRun \<Rightarrow> nat \<Rightarrow> RunState \<Rightarrow> db" where
  "announce d run revision next =
     (if runStateHasBrokerConsumer next
      then insertOutbox d (run_id run) (''review.run.'' @ run_state_name next)
        (RunKey (run_id run) revision (run_state_name next))
        ([(''run_id'', PUuid (run_id run)), (''revision'', PInt (int revision))]
         @ (if next = RunAdmitted then [(''review_mode'', PStr (run_mode run))] else []))
      else d)"

definition commit_transition ::
  "env \<Rightarrow> db \<Rightarrow> ReviewRun \<Rightarrow> uuid \<Rightarrow> RunState \<Rightarrow> store_error + (db \<times> ReviewRun)" where
  "commit_transition e d run jobID next =
     (let revision = Suc (run_revision run);
          d = update_run d (run_id run) (advance_update e run next);
          d = advanceRunStageEvidence e d (run_id run) (run_state run) next in
      bind_r (appendRunEvent d (run_id run) revision (''run.'' @ run_state_name next) ''worker''
                ''legacy-runner'' [(''legacy_job_id'', PUuid jobID)]) (\<lambda>d.
      let d = announce d run revision next in
      bind_r (if next = RunFailed \<or> next = RunNeedsAttention
              then ensureReviewIntervention d (run_id run) next else Inr d) (\<lambda>d.
      let d = (if Terminal next then finalizeReviewUsage e d (run_id run) (next = RunCompleted) else d)
      in Inr (d, run\<lparr>run_state := next, run_revision := revision\<rparr>))))"

definition AdvanceLegacyRun :: "env \<Rightarrow> db \<Rightarrow> uuid \<Rightarrow> RunState \<Rightarrow> store_error + (db \<times> ReviewRun)" where
  "AdvanceLegacyRun e d jobID next =
     (case row_by run_job (Some jobID) (db_runs d) of
        None \<Rightarrow> Inl ErrNotFound
      | Some run \<Rightarrow>
      let next = advance_target run next in
      if run_state run = next then Inr (d, run)
      else if Terminal (run_state run) then Inr (d, run)
      else if runStateRank (run_state run) > runStateRank next \<and> \<not> Terminal next then Inr (d, run)
      else case ValidateRunTransition (run_state run) next of
        Inl (InvalidTransition s t) \<Rightarrow> Inl (ErrTransition s t)
      | Inr _ \<Rightarrow> commit_transition e d run jobID next)"

definition AdvanceRun :: "env \<Rightarrow> db \<Rightarrow> uuid \<Rightarrow> RunState \<Rightarrow> store_error + (db \<times> ReviewRun)" where
  "AdvanceRun e d runID next =
     (case row_by run_id runID (db_runs d) of
        None \<Rightarrow> Inl ErrNotFound
      | Some run \<Rightarrow>
        (case run_job run of None \<Rightarrow> Inl ErrNotFound
         | Some jobID \<Rightarrow> AdvanceLegacyRun e d jobID next))"


end
