(* ===== verification/Workflow_Invariants.thy ===== *)
theory Workflow_Invariants
  imports Workflow_Store
begin

text \<open>
  The invariants of the workflow tables and their preservation by every transaction.

  Each invariant is a predicate on the tables it is about, with one lemma per kind of change of
  those tables; the transactions are then sequences of such changes, and the tables a statement
  leaves alone are given by the frame lemmas of the first section.
\<close>

section \<open>Frames: what a statement leaves alone\<close>

lemma insertOutbox_frame [simp]:
  "db_runs (insertOutbox d i t k p) = db_runs d"
  "db_events (insertOutbox d i t k p) = db_events d"
  "db_reservations (insertOutbox d i t k p) = db_reservations d"
  "db_interventions (insertOutbox d i t k p) = db_interventions d"
  "db_requests (insertOutbox d i t k p) = db_requests d"
  "db_retries (insertOutbox d i t k p) = db_retries d"
  "db_limits (insertOutbox d i t k p) = db_limits d"
  "n \<le> db_next d \<Longrightarrow> n \<le> db_next (insertOutbox d i t k p)"
  by (simp_all add: insertOutbox_def fresh_def Let_def)

lemma audit_frame [simp]:
  "db_runs (audit d t a b g m) = db_runs d"
  "db_events (audit d t a b g m) = db_events d"
  "db_reservations (audit d t a b g m) = db_reservations d"
  "db_interventions (audit d t a b g m) = db_interventions d"
  "db_requests (audit d t a b g m) = db_requests d"
  "db_retries (audit d t a b g m) = db_retries d"
  "db_limits (audit d t a b g m) = db_limits d"
  "db_outbox (audit d t a b g m) = db_outbox d"
  "db_next (audit d t a b g m) = db_next d"
  by (simp_all add: audit_def)

lemma update_run_frame [simp]:
  "db_events (update_run d i f) = db_events d"
  "db_reservations (update_run d i f) = db_reservations d"
  "db_interventions (update_run d i f) = db_interventions d"
  "db_requests (update_run d i f) = db_requests d"
  "db_retries (update_run d i f) = db_retries d"
  "db_limits (update_run d i f) = db_limits d"
  "db_outbox (update_run d i f) = db_outbox d"
  "db_next (update_run d i f) = db_next d"
  by (simp_all add: update_run_def)

lemma update_job_frame [simp]:
  "db_runs (update_job d p f) = db_runs d"
  "db_events (update_job d p f) = db_events d"
  "db_reservations (update_job d p f) = db_reservations d"
  "db_interventions (update_job d p f) = db_interventions d"
  "db_requests (update_job d p f) = db_requests d"
  "db_retries (update_job d p f) = db_retries d"
  "db_limits (update_job d p f) = db_limits d"
  "db_outbox (update_job d p f) = db_outbox d"
  "db_next (update_job d p f) = db_next d"
  by (simp_all add: update_job_def)

lemma init_stages_frame [simp]:
  "db_runs (init_stages d i) = db_runs d"
  "db_events (init_stages d i) = db_events d"
  "db_reservations (init_stages d i) = db_reservations d"
  "db_interventions (init_stages d i) = db_interventions d"
  "db_requests (init_stages d i) = db_requests d"
  "db_retries (init_stages d i) = db_retries d"
  "db_limits (init_stages d i) = db_limits d"
  "db_outbox (init_stages d i) = db_outbox d"
  "db_next (init_stages d i) = db_next d"
  by (simp_all add: init_stages_def)

lemma set_current_run_frame [simp]:
  "db_runs (set_current_run d q i) = db_runs d"
  "db_events (set_current_run d q i) = db_events d"
  "db_reservations (set_current_run d q i) = db_reservations d"
  "db_interventions (set_current_run d q i) = db_interventions d"
  "map req_id (db_requests (set_current_run d q i)) = map req_id (db_requests d)"
  "db_retries (set_current_run d q i) = db_retries d"
  "db_limits (set_current_run d q i) = db_limits d"
  "db_outbox (set_current_run d q i) = db_outbox d"
  "db_next (set_current_run d q i) = db_next d"
  by (simp_all add: set_current_run_def table_simps)

lemma recordRuleRolloutRunSelections_frame [simp]:
  "db_runs (recordRuleRolloutRunSelections d i s) = db_runs d"
  "db_events (recordRuleRolloutRunSelections d i s) = db_events d"
  "db_reservations (recordRuleRolloutRunSelections d i s) = db_reservations d"
  "db_interventions (recordRuleRolloutRunSelections d i s) = db_interventions d"
  "db_requests (recordRuleRolloutRunSelections d i s) = db_requests d"
  "db_retries (recordRuleRolloutRunSelections d i s) = db_retries d"
  "db_limits (recordRuleRolloutRunSelections d i s) = db_limits d"
  "db_outbox (recordRuleRolloutRunSelections d i s) = db_outbox d"
  "db_next (recordRuleRolloutRunSelections d i s) = db_next d"
  by (simp_all add: recordRuleRolloutRunSelections_def)

lemma insert_ledger_frame [simp]:
  "db_runs (insert_ledger d r) = db_runs d"
  "db_events (insert_ledger d r) = db_events d"
  "db_reservations (insert_ledger d r) = db_reservations d"
  "db_interventions (insert_ledger d r) = db_interventions d"
  "db_requests (insert_ledger d r) = db_requests d"
  "db_retries (insert_ledger d r) = db_retries d"
  "db_limits (insert_ledger d r) = db_limits d"
  "db_outbox (insert_ledger d r) = db_outbox d"
  "db_next (insert_ledger d r) = db_next d"
  by (simp_all add: insert_ledger_def)

lemma finalizeReviewUsage_frame [simp]:
  "db_runs (finalizeReviewUsage e d i c) = db_runs d"
  "db_events (finalizeReviewUsage e d i c) = db_events d"
  "db_interventions (finalizeReviewUsage e d i c) = db_interventions d"
  "db_requests (finalizeReviewUsage e d i c) = db_requests d"
  "db_retries (finalizeReviewUsage e d i c) = db_retries d"
  "db_limits (finalizeReviewUsage e d i c) = db_limits d"
  "db_outbox (finalizeReviewUsage e d i c) = db_outbox d"
  "db_next (finalizeReviewUsage e d i c) = db_next d"
  by (simp_all add: finalizeReviewUsage_def Let_def split: option.splits)

lemma updateLatest_frame [simp]:
  "db_runs (updateLatest e i s t u v d) = db_runs d"
  "db_events (updateLatest e i s t u v d) = db_events d"
  "db_reservations (updateLatest e i s t u v d) = db_reservations d"
  "db_interventions (updateLatest e i s t u v d) = db_interventions d"
  "db_requests (updateLatest e i s t u v d) = db_requests d"
  "db_retries (updateLatest e i s t u v d) = db_retries d"
  "db_limits (updateLatest e i s t u v d) = db_limits d"
  "db_outbox (updateLatest e i s t u v d) = db_outbox d"
  "db_next (updateLatest e i s t u v d) = db_next d"
  by (simp_all add: updateLatest_def Let_def)

lemma fold_stages:
  assumes "\<And>x d. \<exists>st. f x d = d\<lparr>db_stages := st\<rparr>"
  shows "\<exists>st. fold f xs d = d\<lparr>db_stages := st\<rparr>"
proof (induction xs arbitrary: d)
  case Nil
  have "fold f [] d = d\<lparr>db_stages := db_stages d\<rparr>" by simp
  then show ?case by blast
next
  case (Cons x xs)
  obtain st where "f x d = d\<lparr>db_stages := st\<rparr>" using assms by blast
  moreover obtain st' where "fold f xs (f x d) = (f x d)\<lparr>db_stages := st'\<rparr>" using Cons by blast
  ultimately show ?case by auto
qed

lemma updateLatest_stages: "\<exists>st. updateLatest e i s t u v d = d\<lparr>db_stages := st\<rparr>"
  by (auto simp: updateLatest_def Let_def)

lemma advanceRunStageEvidence_stages:
  "\<exists>st. advanceRunStageEvidence e d i s t = d\<lparr>db_stages := st\<rparr>"
proof -
  have self: "\<exists>st. d = d\<lparr>db_stages := st\<rparr>" for d :: db
    by (rule exI [of _ "db_stages d"]) simp
  have guarded: "\<exists>st. (if b then updateLatest e i x y z w d else d) = d\<lparr>db_stages := st\<rparr>"
    for b x y z w d
    using updateLatest_stages self by simp
  have then_latest: "\<exists>st. d' = d\<lparr>db_stages := st\<rparr> \<Longrightarrow>
      \<exists>st. (if b then updateLatest e i x y z w d' else d') = d\<lparr>db_stages := st\<rparr>"
    for b x y z w and d d' :: db
    using guarded [of b x y z w d'] by auto
  show ?thesis
    unfolding advanceRunStageEvidence_def Let_def
    by (simp only: fold_stages updateLatest_stages guarded then_latest split: if_splits) blast
qed

lemma advanceRunStageEvidence_frame [simp]:
  "db_runs (advanceRunStageEvidence e d i s t) = db_runs d"
  "db_events (advanceRunStageEvidence e d i s t) = db_events d"
  "db_reservations (advanceRunStageEvidence e d i s t) = db_reservations d"
  "db_interventions (advanceRunStageEvidence e d i s t) = db_interventions d"
  "db_requests (advanceRunStageEvidence e d i s t) = db_requests d"
  "db_retries (advanceRunStageEvidence e d i s t) = db_retries d"
  "db_limits (advanceRunStageEvidence e d i s t) = db_limits d"
  "db_outbox (advanceRunStageEvidence e d i s t) = db_outbox d"
  "db_next (advanceRunStageEvidence e d i s t) = db_next d"
proof -
  obtain st where "advanceRunStageEvidence e d i s t = d\<lparr>db_stages := st\<rparr>"
    using advanceRunStageEvidence_stages by blast
  then show
  "db_runs (advanceRunStageEvidence e d i s t) = db_runs d"
  "db_events (advanceRunStageEvidence e d i s t) = db_events d"
  "db_reservations (advanceRunStageEvidence e d i s t) = db_reservations d"
  "db_interventions (advanceRunStageEvidence e d i s t) = db_interventions d"
  "db_requests (advanceRunStageEvidence e d i s t) = db_requests d"
  "db_retries (advanceRunStageEvidence e d i s t) = db_retries d"
  "db_limits (advanceRunStageEvidence e d i s t) = db_limits d"
  "db_outbox (advanceRunStageEvidence e d i s t) = db_outbox d"
  "db_next (advanceRunStageEvidence e d i s t) = db_next d"
    by simp_all
qed

lemma snapshot_sections_frame:
  "snapshot_sections e i t sc ss d = Inr d' \<Longrightarrow> \<exists>c. d' = d\<lparr>db_configs := c\<rparr>"
proof (induction ss arbitrary: d)
  case Nil
  then have "d' = d\<lparr>db_configs := db_configs d\<rparr>" by simp
  then show ?case by blast
next
  case (Cons s rest)
  then obtain x where "env_config e t sc s = Inr x" by (auto simp: bind_r_Inr_iff)
  with Cons.prems Cons.IH [of d] Cons.IH show ?case
    by (fastforce simp: bind_r_Inr_iff split: if_splits)
qed

lemma snapshot_frame:
  assumes "snapshotReviewConfigurations e d i t sc = Inr d'"
  shows
  "db_runs d' = db_runs d"
  "db_events d' = db_events d"
  "db_reservations d' = db_reservations d"
  "db_interventions d' = db_interventions d"
  "db_requests d' = db_requests d"
  "db_retries d' = db_retries d"
  "db_limits d' = db_limits d"
  "db_outbox d' = db_outbox d"
  "db_next d' = db_next d"
proof -
  obtain c where "d' = d\<lparr>db_configs := c\<rparr>"
    using assms unfolding snapshotReviewConfigurations_def by (blast dest: snapshot_sections_frame)
  then show
  "db_runs d' = db_runs d"
  "db_events d' = db_events d"
  "db_reservations d' = db_reservations d"
  "db_interventions d' = db_interventions d"
  "db_requests d' = db_requests d"
  "db_retries d' = db_retries d"
  "db_limits d' = db_limits d"
  "db_outbox d' = db_outbox d"
  "db_next d' = db_next d"
    by simp_all
qed

lemma finalize_reservations:
  "db_reservations (finalizeReviewUsage e d i c) =
     update_where (\<lambda>u. ur_run u = i \<and> ur_state u = ''reserved'')
       (\<lambda>u. u\<lparr>ur_state := (if c then ''settled'' else ''released''),
              ur_settled := (if c then ur_reserved u else 0),
              ur_settled_at := Some (env_now e)\<rparr>) (db_reservations d)"
  by (auto simp: finalizeReviewUsage_def Let_def find_None_iff update_where_def
      intro!: map_idI [symmetric] split: option.splits)

section \<open>The invariants\<close>

text \<open>The set \<open>P\<close> in the invariants of events and usage holds the runs a transaction has
  superseded but whose event and reservation it has not written yet; it is empty between
  transactions.\<close>

definition ids_inv :: "ReviewRun list \<Rightarrow> uuid list \<Rightarrow> uuid \<Rightarrow> bool" where
  "ids_inv runs reqs n \<longleftrightarrow> distinct (map run_id runs) \<and> distinct reqs \<and> (\<forall>q \<in> set reqs. q < n)
     \<and> (\<forall>r \<in> set runs. run_id r < n \<and> run_request r \<in> set reqs)"

definition active_inv :: "ReviewRun list \<Rightarrow> bool" where
  "active_inv runs \<longleftrightarrow> (\<forall>r \<in> set runs. \<forall>r' \<in> set runs. run_request r = run_request r'
     \<and> run_state r \<in> active_states \<and> run_state r' \<in> active_states \<longrightarrow> run_id r = run_id r')"

definition finish_inv :: "ReviewRun list \<Rightarrow> bool" where
  "finish_inv runs \<longleftrightarrow> (\<forall>r \<in> set runs. (run_finished r \<noteq> None \<longleftrightarrow> Terminal (run_state r))
     \<and> (run_cancel_at r \<noteq> None \<longrightarrow> run_state r = RunCancelled))"

definition revs :: "RunEvent list \<Rightarrow> uuid \<Rightarrow> nat list" where
  "revs evs i = map ev_revision (filter (\<lambda>e. ev_run e = i) evs)"

definition ev_inv :: "uuid set \<Rightarrow> ReviewRun list \<Rightarrow> RunEvent list \<Rightarrow> uuid \<Rightarrow> bool" where
  "ev_inv P runs evs n \<longleftrightarrow> (\<forall>e \<in> set evs. ev_run e < n)
     \<and> (\<forall>r \<in> set runs. 1 \<le> run_revision r \<and> revs evs (run_id r) =
          [1..<(if run_id r \<in> P then run_revision r else Suc (run_revision r))])"

definition usage :: "UsageReservation list \<Rightarrow> uuid \<Rightarrow> string option" where
  "usage res i = map_option ur_state (row_by ur_run i res)"

definition expected_usage :: "ReviewRun \<Rightarrow> string option" where
  "expected_usage r =
     (if run_state r \<in> active_states then Some ''reserved''
      else if run_state r = RunCompleted then Some ''settled''
      else if run_failure_code r = Some ''quota_exceeded'' then None
      else Some ''released'')"

definition reservation_ok :: "uuid \<Rightarrow> UsageReservation \<Rightarrow> bool" where
  "reservation_ok n u \<longleftrightarrow> ur_run u < n \<and> ur_reserved u = 1
     \<and> ur_settled u = (if ur_state u = ''settled'' then 1 else 0)"

definition us_inv :: "uuid set \<Rightarrow> ReviewRun list \<Rightarrow> UsageReservation list \<Rightarrow> uuid \<Rightarrow> bool" where
  "us_inv P runs res n \<longleftrightarrow> distinct (map ur_run res)
     \<and> (\<forall>u \<in> set res. reservation_ok n u)
     \<and> (\<forall>r \<in> set runs. usage res (run_id r) =
          (if run_id r \<in> P then Some ''reserved'' else expected_usage r)
          \<and> (run_failure_code r \<noteq> None \<longrightarrow> run_state r = RunFailed))"

definition needs_operator :: "RunState \<Rightarrow> bool" where
  "needs_operator s \<longleftrightarrow> s = RunFailed \<or> s = RunNeedsAttention"

definition task_inv :: "ReviewRun list \<Rightarrow> ReviewIntervention list \<Rightarrow> uuid \<Rightarrow> bool" where
  "task_inv runs ints n \<longleftrightarrow> distinct (map in_run ints) \<and> (\<forall>v \<in> set ints. in_run v < n)
     \<and> (\<forall>r \<in> set runs. run_id r \<in> in_run ` set ints \<longleftrightarrow> needs_operator (run_state r))"

definition store_invP :: "uuid set \<Rightarrow> db \<Rightarrow> bool" where
  "store_invP P d \<longleftrightarrow>
     ids_inv (db_runs d) (map req_id (db_requests d)) (db_next d)
     \<and> active_inv (db_runs d) \<and> finish_inv (db_runs d)
     \<and> ev_inv P (db_runs d) (db_events d) (db_next d)
     \<and> us_inv P (db_runs d) (db_reservations d) (db_next d)
     \<and> task_inv (db_runs d) (db_interventions d) (db_next d)
     \<and> distinct (map ob_key (db_outbox d))"

abbreviation store_inv :: "db \<Rightarrow> bool" where
  "store_inv d \<equiv> store_invP {} d"

section \<open>Changes of single tables\<close>

text \<open>One run is updated.\<close>

definition set_run :: "uuid \<Rightarrow> (ReviewRun \<Rightarrow> ReviewRun) \<Rightarrow> ReviewRun list \<Rightarrow> ReviewRun list" where
  "set_run i f runs = update_where (\<lambda>r. run_id r = i) f runs"

lemma db_runs_update_run [simp]: "db_runs (update_run d i f) = set_run i f (db_runs d)"
  by (simp add: update_run_def set_run_def)

lemma map_set_run [simp]:
  "(\<And>r. run_id (f r) = run_id r) \<Longrightarrow> map run_id (set_run i f runs) = map run_id runs"
  by (simp add: set_run_def table_simps)

lemma set_set_run:
  assumes "distinct (map run_id runs)" "r0 \<in> set runs"
  shows "set (set_run (run_id r0) f runs) = insert (f r0) {r \<in> set runs. run_id r \<noteq> run_id r0}"
  using distinct_key_eq [OF assms(1), of _ r0] assms(2)
  by (auto simp: set_run_def set_update_where)

lemma ball_set_run:
  assumes "distinct (map run_id runs)" "r0 \<in> set runs"
  shows "(\<forall>r \<in> set (set_run (run_id r0) f runs). Q r) \<longleftrightarrow>
         Q (f r0) \<and> (\<forall>r \<in> set runs. run_id r \<noteq> run_id r0 \<longrightarrow> Q r)"
  using set_set_run [OF assms] by auto

text \<open>The lemmas below are about the update of the run \<open>r0\<close> of the table by \<open>f\<close>.\<close>

lemma ids_inv_set_run:
  assumes "ids_inv runs reqs n" "r0 \<in> set runs"
    "\<And>r. run_id (f r) = run_id r" "\<And>r. run_request (f r) = run_request r"
  shows "ids_inv (set_run (run_id r0) f runs) reqs n"
  using assms unfolding ids_inv_def by (simp add: ball_set_run)

lemma active_inv_set_run:
  assumes "active_inv runs" "distinct (map run_id runs)" "r0 \<in> set runs"
    "run_id (f r0) = run_id r0" "run_request (f r0) = run_request r0"
    "run_state (f r0) \<in> active_states \<longrightarrow> run_state r0 \<in> active_states"
  shows "active_inv (set_run (run_id r0) f runs)"
proof -
  have old: "\<exists>s \<in> set runs. run_id s = run_id r \<and> run_request s = run_request r
      \<and> (run_state r \<in> active_states \<longrightarrow> run_state s \<in> active_states)"
    if "r \<in> set (set_run (run_id r0) f runs)" for r
    using that assms(3-) set_set_run [OF assms(2,3), of f] by auto
  show ?thesis
    unfolding active_inv_def
  proof (intro ballI impI, elim conjE)
    fix r r'
    assume r: "r \<in> set (set_run (run_id r0) f runs)" and r': "r' \<in> set (set_run (run_id r0) f runs)"
      and eq: "run_request r = run_request r'" "run_state r \<in> active_states" "run_state r' \<in> active_states"
    obtain s where s: "s \<in> set runs" "run_id s = run_id r" "run_request s = run_request r"
      "run_state s \<in> active_states" using old [OF r] eq by blast
    obtain s' where s': "s' \<in> set runs" "run_id s' = run_id r'" "run_request s' = run_request r'"
      "run_state s' \<in> active_states" using old [OF r'] eq by blast
    have "run_request s = run_request s'" using s(3) s'(3) eq(1) by simp
    then have "run_id s = run_id s'" using assms(1) s(1,4) s'(1,4) unfolding active_inv_def by blast
    with s s' show "run_id r = run_id r'" by simp
  qed
qed

lemma finish_inv_set_run:
  assumes "finish_inv runs" "distinct (map run_id runs)" "r0 \<in> set runs"
    "run_finished (f r0) \<noteq> None \<longleftrightarrow> Terminal (run_state (f r0))"
    "run_cancel_at (f r0) \<noteq> None \<longrightarrow> run_state (f r0) = RunCancelled"
  shows "finish_inv (set_run (run_id r0) f runs)"
  using assms unfolding finish_inv_def by (simp add: ball_set_run)

lemma revs_append [simp]:
  "revs (evs @ [e]) i = (if ev_run e = i then revs evs i @ [ev_revision e] else revs evs i)"
  by (simp add: revs_def)

lemma ev_inv_set_run:
  assumes "ev_inv P runs evs n" "distinct (map run_id runs)" "r0 \<in> set runs"
    and "run_id (f r0) = run_id r0" "run_id r0 \<notin> P" "run_id r0 < n"
    and "ev_run e = run_id r0" "ev_revision e = Suc (run_revision r0)"
    and "run_revision (f r0) = Suc (run_revision r0)"
  shows "ev_inv P (set_run (run_id r0) f runs) (evs @ [e]) n"
  using assms unfolding ev_inv_def by (simp add: ball_set_run)

lemma ev_inv_set_run_same:
  assumes "ev_inv P runs evs n" "distinct (map run_id runs)" "r0 \<in> set runs"
    and "run_id (f r0) = run_id r0" "run_revision (f r0) = run_revision r0"
  shows "ev_inv P (set_run (run_id r0) f runs) evs n"
  using assms unfolding ev_inv_def by (simp add: ball_set_run)

lemma ev_inv_pending:
  assumes "ev_inv P runs evs n" "distinct (map run_id runs)" "r0 \<in> set runs"
    and "run_id r0 \<in> P" "ev_run e = run_id r0" "run_id r0 < n" "ev_revision e = run_revision r0"
  shows "ev_inv (P - {run_id r0}) runs (evs @ [e]) n"
  unfolding ev_inv_def
proof (intro conjI ballI)
  show "ev_run e' < n" if "e' \<in> set (evs @ [e])" for e'
    using that assms unfolding ev_inv_def by auto
  fix r assume r: "r \<in> set runs"
  then show "1 \<le> run_revision r" using assms unfolding ev_inv_def by blast
  show "revs (evs @ [e]) (run_id r) =
     [1..<if run_id r \<in> P - {run_id r0} then run_revision r else Suc (run_revision r)]"
  proof (cases "run_id r = run_id r0")
    case True
    then have "r = r0" using distinct_key_eq assms r by metis
    then show ?thesis using assms r unfolding ev_inv_def by auto
  next
    case False
    then show ?thesis using assms r unfolding ev_inv_def by auto
  qed
qed

text \<open>Closing the reservation of a run that ends.\<close>

definition close_reservation ::
  "uuid \<Rightarrow> bool \<Rightarrow> gotime \<Rightarrow> UsageReservation list \<Rightarrow> UsageReservation list" where
  "close_reservation i c now res =
     update_where (\<lambda>u. ur_run u = i \<and> ur_state u = ''reserved'')
       (\<lambda>u. u\<lparr>ur_state := (if c then ''settled'' else ''released''),
              ur_settled := (if c then ur_reserved u else 0), ur_settled_at := Some now\<rparr>) res"

lemma db_reservations_finalize [simp]:
  "db_reservations (finalizeReviewUsage e d i c) = close_reservation i c (env_now e) (db_reservations d)"
  by (simp add: finalize_reservations close_reservation_def)

lemma usage_Cons [simp]:
  "usage [] i = None" "usage (u # res) i = (if ur_run u = i then Some (ur_state u) else usage res i)"
  by (simp_all add: usage_def)

lemma usage_append [simp]:
  "usage (res @ [u]) i = (case usage res i of Some s \<Rightarrow> Some s
     | None \<Rightarrow> if ur_run u = i then Some (ur_state u) else None)"
  by (induction res) auto

lemma usage_None: "usage res i = None \<longleftrightarrow> i \<notin> ur_run ` set res"
  by (simp add: usage_def row_by_None_iff)

lemma usage_close:
  "usage (close_reservation i c now res) j =
   (if j = i \<and> usage res i = Some ''reserved'' then Some (if c then ''settled'' else ''released'')
    else usage res j)"
  by (induction res) (auto simp: close_reservation_def)

lemma close_rows:
  "distinct (map ur_run res) \<Longrightarrow> distinct (map ur_run (close_reservation i c now res))"
  "\<forall>u \<in> set res. reservation_ok n u \<Longrightarrow> \<forall>u \<in> set (close_reservation i c now res). reservation_ok n u"
  by (auto simp: close_reservation_def set_update_where map_update_where_key reservation_ok_def)

lemma us_inv_close_rows:
  assumes "us_inv P runs res n"
  shows "distinct (map ur_run (close_reservation i c now res))
     \<and> (\<forall>u \<in> set (close_reservation i c now res). reservation_ok n u)"
  using assms close_rows unfolding us_inv_def by blast

lemma us_inv_set_run:
  assumes "us_inv P runs res n" "distinct (map run_id runs)" "r0 \<in> set runs"
    "run_id (f r0) = run_id r0" "expected_usage (f r0) = expected_usage r0"
    "run_failure_code (f r0) \<noteq> None \<longrightarrow> run_state (f r0) = RunFailed"
  shows "us_inv P (set_run (run_id r0) f runs) res n"
  using assms unfolding us_inv_def by (simp add: ball_set_run)

lemma us_inv_close:
  assumes "us_inv P runs res n" "distinct (map run_id runs)" "r0 \<in> set runs"
    and "run_id r0 \<notin> P" "run_id (f r0) = run_id r0" "run_state r0 \<in> active_states"
    and "expected_usage (f r0) = Some (if c then ''settled'' else ''released'')"
    and "run_failure_code (f r0) \<noteq> None \<longrightarrow> run_state (f r0) = RunFailed"
  shows "us_inv P (set_run (run_id r0) f runs) (close_reservation (run_id r0) c now res) n"
proof -
  have "usage res (run_id r0) = Some ''reserved''"
    using assms unfolding us_inv_def by (simp add: expected_usage_def)
  then show ?thesis
    using assms us_inv_close_rows [OF assms(1)] unfolding us_inv_def
    by (simp add: ball_set_run usage_close)
qed

lemma us_inv_close_pending:
  assumes "us_inv P runs res n" "distinct (map run_id runs)" "r0 \<in> set runs"
    and "run_id r0 \<in> P" "expected_usage r0 = Some ''released''"
  shows "us_inv (P - {run_id r0}) runs (close_reservation (run_id r0) False now res) n"
proof -
  have "usage (close_reservation (run_id r0) False now res) (run_id r) =
       (if run_id r \<in> P - {run_id r0} then Some ''reserved'' else expected_usage r)"
    if r: "r \<in> set runs" for r
  proof (cases "run_id r = run_id r0")
    case True
    then have "r = r0" using distinct_key_eq assms(2,3) r by metis
    then show ?thesis using assms r unfolding us_inv_def by (simp add: usage_close)
  next
    case False
    then show ?thesis using assms r unfolding us_inv_def by (simp add: usage_close)
  qed
  then show ?thesis
    using assms(1) us_inv_close_rows [OF assms(1)] unfolding us_inv_def by blast
qed

lemma task_inv_set_run:
  assumes "task_inv runs ints n" "distinct (map run_id runs)" "r0 \<in> set runs"
    "run_id (f r0) = run_id r0"
    "needs_operator (run_state (f r0)) \<longleftrightarrow> needs_operator (run_state r0)"
  shows "task_inv (set_run (run_id r0) f runs) ints n"
  using assms unfolding task_inv_def by (simp add: ball_set_run)

lemma task_inv_open:
  assumes "task_inv runs ints n" "distinct (map run_id runs)" "r0 \<in> set runs"
    "run_id (f r0) = run_id r0" "\<not> needs_operator (run_state r0)"
    "needs_operator (run_state (f r0))" "in_run v = run_id r0" "run_id r0 < n"
  shows "task_inv (set_run (run_id r0) f runs) (ints @ [v]) n"
  using assms unfolding task_inv_def by (simp add: ball_set_run)

text \<open>Invariants only speak of numbers below the counter, which grows.\<close>

lemma inv_mono:
  "ids_inv runs reqs n \<Longrightarrow> n \<le> m \<Longrightarrow> ids_inv runs reqs m"
  "ev_inv P runs evs n \<Longrightarrow> n \<le> m \<Longrightarrow> ev_inv P runs evs m"
  "us_inv P runs res n \<Longrightarrow> n \<le> m \<Longrightarrow> us_inv P runs res m"
  "task_inv runs ints n \<Longrightarrow> n \<le> m \<Longrightarrow> task_inv runs ints m"
  unfolding ids_inv_def ev_inv_def us_inv_def task_inv_def reservation_ok_def by (meson order_less_le_trans)+

lemma outbox_distinct [simp]:
  "distinct (map ob_key (db_outbox d)) \<Longrightarrow> distinct (map ob_key (db_outbox (insertOutbox d i t k p)))"
  by (auto simp: insertOutbox_def fresh_def Let_def)


section \<open>A transition of one run\<close>

text \<open>What cancellation and advancement have in common: the run \<open>r0\<close> becomes \<open>f r0\<close>, one event
  with the next revision is appended, a terminal state closes the reservation and a state that
  needs an operator opens a task.\<close>

definition run_changed :: "env \<Rightarrow> db \<Rightarrow> db \<Rightarrow> ReviewRun \<Rightarrow> (ReviewRun \<Rightarrow> ReviewRun) \<Rightarrow> bool" where
  "run_changed e d d' r0 f \<longleftrightarrow>
     db_runs d' = set_run (run_id r0) f (db_runs d)
   \<and> (\<exists>ev. db_events d' = db_events d @ [ev] \<and> ev_run ev = run_id r0
        \<and> ev_revision ev = Suc (run_revision r0))
   \<and> db_reservations d' =
       (if Terminal (run_state (f r0))
        then close_reservation (run_id r0) (run_state (f r0) = RunCompleted) (env_now e) (db_reservations d)
        else db_reservations d)
   \<and> (if needs_operator (run_state (f r0)) \<and> run_id r0 \<notin> in_run ` set (db_interventions d)
      then \<exists>v. db_interventions d' = db_interventions d @ [v] \<and> in_run v = run_id r0
      else db_interventions d' = db_interventions d)
   \<and> map req_id (db_requests d') = map req_id (db_requests d)
   \<and> db_next d \<le> db_next d'
   \<and> (distinct (map ob_key (db_outbox d)) \<longrightarrow> distinct (map ob_key (db_outbox d')))
   \<and> db_retries d' = db_retries d \<and> db_limits d' = db_limits d"

text \<open>The updates: identity kept, revision raised, end recorded, failure code untouched.\<close>

definition transition_update :: "ReviewRun \<Rightarrow> (ReviewRun \<Rightarrow> ReviewRun) \<Rightarrow> bool" where
  "transition_update r0 f \<longleftrightarrow>
     (\<forall>r. run_id (f r) = run_id r \<and> run_request (f r) = run_request r \<and> run_job (f r) = run_job r)
   \<and> run_revision (f r0) = Suc (run_revision r0)
   \<and> (run_finished (f r0) \<noteq> None \<longleftrightarrow> Terminal (run_state (f r0)))
   \<and> (run_cancel_at (f r0) \<noteq> None \<longrightarrow> run_state (f r0) = RunCancelled)
   \<and> run_failure_code (f r0) = run_failure_code r0"

lemma needs_operator_Terminal: "needs_operator s \<Longrightarrow> Terminal s"
  by (auto simp: needs_operator_def)

lemma store_invPD:
  assumes "store_invP P d"
  shows "ids_inv (db_runs d) (map req_id (db_requests d)) (db_next d)"
    "active_inv (db_runs d)" "finish_inv (db_runs d)"
    "ev_inv P (db_runs d) (db_events d) (db_next d)"
    "us_inv P (db_runs d) (db_reservations d) (db_next d)"
    "task_inv (db_runs d) (db_interventions d) (db_next d)"
    "distinct (map ob_key (db_outbox d))"
    "distinct (map run_id (db_runs d))"
  using assms by (auto simp: store_invP_def ids_inv_def)

lemma run_changed_inv:
  assumes inv: "store_invP P d" and r0: "r0 \<in> set (db_runs d)" "\<not> Terminal (run_state r0)"
    "run_id r0 \<notin> P" and ch: "run_changed e d d' r0 f" and f: "transition_update r0 f"
  shows "store_invP P d'"
proof -
  note I = store_invPD [OF inv]
  note C = ch [unfolded run_changed_def]
  note F = f [unfolded transition_update_def]
  have lt: "run_id r0 < db_next d" using I(1) r0 unfolding ids_inv_def by blast
  have active: "run_state r0 \<in> active_states" using r0 by (simp add: active_iff_not_Terminal)
  have nofail: "run_failure_code r0 = None" using I(5) r0 unfolding us_inv_def by auto
  have mono: "db_next d \<le> db_next d'" using C by blast
  have id: "run_id (f r0) = run_id r0" using F by blast
  have runs: "db_runs d' = set_run (run_id r0) f (db_runs d)" using C by blast
  have ids: "ids_inv (db_runs d') (map req_id (db_requests d')) (db_next d')"
    using inv_mono(1) [OF ids_inv_set_run [OF I(1) r0(1)] mono, of f] F C by simp
  have act: "active_inv (db_runs d')"
    unfolding runs using F active by (intro active_inv_set_run [OF I(2,8) r0(1)]) auto
  have fin: "finish_inv (db_runs d')"
    unfolding runs using F by (intro finish_inv_set_run [OF I(3,8) r0(1)]) auto
  obtain ev where "db_events d' = db_events d @ [ev]" "ev_run ev = run_id r0"
    "ev_revision ev = Suc (run_revision r0)" using C by blast
  then have ev: "ev_inv P (db_runs d') (db_events d') (db_next d')"
    using inv_mono(2) [OF ev_inv_set_run [where f = f, OF I(4,8) r0(1) id r0(3) lt] mono] F runs
    by simp
  have us: "us_inv P (db_runs d') (db_reservations d') (db_next d')"
  proof (cases "Terminal (run_state (f r0))")
    case True
    let ?c = "run_state (f r0) = RunCompleted"
    have "expected_usage (f r0) = Some (if ?c then ''settled'' else ''released'')"
      using True F nofail by (simp add: expected_usage_def active_iff_not_Terminal)
    from inv_mono(3) [OF us_inv_close [where f = f, OF I(5,8) r0(1,3) id active this] mono]
    show ?thesis using C F nofail True by simp
  next
    case False
    then have "expected_usage (f r0) = expected_usage r0"
      using active by (simp add: expected_usage_def active_iff_not_Terminal)
    from inv_mono(3) [OF us_inv_set_run [where f = f, OF I(5,8) r0(1) id this] mono]
    show ?thesis using C F nofail False by simp
  qed
  have quiet: "\<not> needs_operator (run_state r0)" using r0(2) needs_operator_Terminal by blast
  then have fresh_task: "run_id r0 \<notin> in_run ` set (db_interventions d)"
    using I(6) r0 unfolding task_inv_def by blast
  have task: "task_inv (db_runs d') (db_interventions d') (db_next d')"
  proof (cases "needs_operator (run_state (f r0))")
    case True
    then obtain v where v: "db_interventions d' = db_interventions d @ [v]" "in_run v = run_id r0"
      using C fresh_task by auto
    from inv_mono(4) [OF task_inv_open [where f = f, OF I(6,8) r0(1) id quiet True v(2) lt] mono]
    show ?thesis using runs v by simp
  next
    case False
    then have "needs_operator (run_state (f r0)) = needs_operator (run_state r0)"
      using quiet by simp
    from inv_mono(4) [OF task_inv_set_run [where f = f, OF I(6,8) r0(1) id this] mono]
    show ?thesis using C False by simp
  qed
  have "distinct (map ob_key (db_outbox d'))" using C I(7) by blast
  then show ?thesis unfolding store_invP_def using ids act fin ev us task by blast
qed

lemma appendRunEvent_Inr:
  assumes "appendRunEvent d i n t k s p = Inr d'"
  obtains ev where "d' = d\<lparr>db_events := db_events d @ [ev]\<rparr>" "ev_run ev = i" "ev_revision ev = n"
    "ev_type ev = t"
proof (rule that)
  show "d' = d\<lparr>db_events := db_events d @ [\<lparr>ev_run = i, ev_revision = n, ev_type = t,
      ev_actor_kind = k, ev_actor_subject = s, ev_payload = p\<rparr>]\<rparr>"
    using assms by (auto simp: appendRunEvent_def split: if_splits)
qed simp_all

lemma ensure_frame:
  assumes "ensureReviewIntervention d i s = Inr d'"
  shows "db_runs d' = db_runs d" "db_events d' = db_events d"
    "db_reservations d' = db_reservations d" "db_requests d' = db_requests d"
    "db_retries d' = db_retries d" "db_limits d' = db_limits d"
    "db_outbox d' = db_outbox d" "db_next d \<le> db_next d'"
    "if needs_operator s \<and> i \<notin> in_run ` set (db_interventions d)
     then \<exists>v. db_interventions d' = db_interventions d @ [v] \<and> in_run v = i
     else db_interventions d' = db_interventions d"
  using assms
  by (auto simp: ensureReviewIntervention_def needs_operator_def fresh_def Let_def
      split: if_splits option.splits)

lemma cancelRun_changed:
  assumes "cancelRun e d run kind subject p = Inr (d', run')"
  shows "\<exists>f. run_changed e d d' run f \<and> transition_update run f \<and> run_state (f run) = RunCancelled
     \<and> run' = f run"
proof -
  let ?f = "\<lambda>r. r\<lparr>run_state := RunCancelled, run_cancel_at := Some (env_now e),
       run_revision := Suc (run_revision run), run_finished := Some (env_now e)\<rparr>"
  have "transition_update run ?f" by (simp add: transition_update_def)
  moreover have "run_changed e d d' run ?f"
    using assms unfolding cancelRun_def Let_def bind_r_Inr_iff
    by (auto simp: run_changed_def needs_operator_def split: option.splits elim!: appendRunEvent_Inr)
  moreover have "run' = ?f run"
    using assms unfolding cancelRun_def Let_def by (auto simp: bind_r_Inr_iff)
  ultimately show ?thesis by (intro exI [of _ ?f]) simp
qed


lemma announce_frame [simp]:
  "db_runs (announce d r n s) = db_runs d"
  "db_events (announce d r n s) = db_events d"
  "db_reservations (announce d r n s) = db_reservations d"
  "db_interventions (announce d r n s) = db_interventions d"
  "db_requests (announce d r n s) = db_requests d"
  "db_retries (announce d r n s) = db_retries d"
  "db_limits (announce d r n s) = db_limits d"
  "m \<le> db_next d \<Longrightarrow> m \<le> db_next (announce d r n s)"
  "distinct (map ob_key (db_outbox d)) \<Longrightarrow> distinct (map ob_key (db_outbox (announce d r n s)))"
  by (simp_all add: announce_def)

lemma advance_update_simps [simp]:
  "run_id (advance_update e run s r) = run_id r"
  "run_request (advance_update e run s r) = run_request r"
  "run_job (advance_update e run s r) = run_job r"
  "run_state (advance_update e run s r) = s"
  "run_revision (advance_update e run s r) = Suc (run_revision run)"
  "run_cancel_at (advance_update e run s r) = run_cancel_at r"
  "run_failure_code (advance_update e run s r) = run_failure_code r"
  "run_head (advance_update e run s r) = run_head r"
  "run_finished (advance_update e run s r) = (if Terminal s then Some (env_now e) else run_finished r)"
  by (simp_all add: advance_update_def)

lemma commit_transition_changed:
  assumes "commit_transition e d run jobID t = Inr (d', run')"
  shows "run_changed e d d' run (advance_update e run t)"
    "run' = run\<lparr>run_state := t, run_revision := Suc (run_revision run)\<rparr>"
proof -
  obtain d1 d2 where d1: "appendRunEvent (advanceRunStageEvidence e
        (update_run d (run_id run) (advance_update e run t)) (run_id run) (run_state run) t)
        (run_id run) (Suc (run_revision run)) (''run.'' @ run_state_name t) ''worker''
        ''legacy-runner'' [(''legacy_job_id'', PUuid jobID)] = Inr d1"
    and d2: "(if t = RunFailed \<or> t = RunNeedsAttention
        then ensureReviewIntervention (announce d1 run (Suc (run_revision run)) t) (run_id run) t
        else Inr (announce d1 run (Suc (run_revision run)) t)) = Inr d2"
    and d': "d' = (if Terminal t then finalizeReviewUsage e d2 (run_id run) (t = RunCompleted) else d2)"
    and run': "run' = run\<lparr>run_state := t, run_revision := Suc (run_revision run)\<rparr>"
    using assms by (auto simp: commit_transition_def Let_def bind_r_Inr_iff)
  show "run' = run\<lparr>run_state := t, run_revision := Suc (run_revision run)\<rparr>" by (fact run')
  show "run_changed e d d' run (advance_update e run t)"
  proof (cases "needs_operator t")
    case True
    then have "Terminal t" "t \<noteq> RunCompleted" by (auto simp: needs_operator_def)
    with d1 d2 d' True show ?thesis
      unfolding run_changed_def
      by (auto simp: needs_operator_def ensure_frame elim!: appendRunEvent_Inr
          dest: ensure_frame(8,9) intro: ensure_frame(8) [THEN order_trans [rotated]])
  next
    case False
    with d2 have "d2 = announce d1 run (Suc (run_revision run)) t"
      by (auto simp: needs_operator_def)
    with d1 d' False show ?thesis
      unfolding run_changed_def by (auto elim!: appendRunEvent_Inr)
  qed
qed

lemma AdvanceLegacyRun_cases:
  assumes "AdvanceLegacyRun e d jobID next = Inr (d', run')"
  obtains (noop) run where "row_by run_job (Some jobID) (db_runs d) = Some run" "d' = d" "run' = run"
  | (step) run t where "row_by run_job (Some jobID) (db_runs d) = Some run"
      "t = advance_target run next" "CanTransitionTo (run_state run) t"
      "commit_transition e d run jobID t = Inr (d', run')"
  using assms
  by (auto simp: AdvanceLegacyRun_def Let_def ValidateRunTransition_def split: option.splits if_splits)

lemma CanTransitionTo_not_Terminal: "CanTransitionTo s t \<Longrightarrow> \<not> Terminal s"
  using Terminal_final by blast

lemma not_cancelled_yet:
  assumes "store_invP P d" "r \<in> set (db_runs d)" "\<not> Terminal (run_state r)"
  shows "run_cancel_at r = None" "run_finished r = None" "run_failure_code r = None"
proof -
  have "run_state r \<noteq> RunCancelled" "run_state r \<noteq> RunFailed" using assms(3) by auto
  then show "run_cancel_at r = None" "run_finished r = None" "run_failure_code r = None"
    using store_invPD(3,5) [OF assms(1)] assms(2,3) unfolding finish_inv_def us_inv_def by blast+
qed

lemma advance_transition_update:
  assumes "store_invP P d" "r \<in> set (db_runs d)" "\<not> Terminal (run_state r)"
  shows "transition_update r (advance_update e r t)"
  using not_cancelled_yet [OF assms] by (simp add: transition_update_def)

lemma AdvanceLegacyRun_inv:
  assumes inv: "store_inv d" and adv: "AdvanceLegacyRun e d jobID next = Inr (d', run')"
  shows "store_inv d'"
  using adv
proof (cases rule: AdvanceLegacyRun_cases)
  case noop
  with inv show ?thesis by simp
next
  case (step run t)
  then have run: "run \<in> set (db_runs d)" "\<not> Terminal (run_state run)"
    by (auto dest: row_by_SomeD CanTransitionTo_not_Terminal)
  show ?thesis
    using run_changed_inv [OF inv run] advance_transition_update [OF inv run]
      commit_transition_changed(1) [OF step(4)] by blast
qed

lemma cancelRun_inv:
  assumes inv: "store_inv d" and run: "run \<in> set (db_runs d)" "\<not> Terminal (run_state run)"
    and "cancelRun e d run kind subject p = Inr (d', run')"
  shows "store_inv d'"
  using cancelRun_changed [OF assms(4)] run_changed_inv [OF inv run] by blast


section \<open>A new run\<close>

lemma insert_run_Inr:
  assumes "insert_run d q j t m h b s = Inr (d', run)"
  shows "run_id run = db_next d" "db_runs d' = db_runs d @ [run]" "db_next d' = Suc (db_next d)"
    "db_events d' = db_events d" "db_reservations d' = db_reservations d"
    "db_interventions d' = db_interventions d" "db_requests d' = db_requests d"
    "db_retries d' = db_retries d" "db_limits d' = db_limits d" "db_outbox d' = db_outbox d"
    "run_state run = RunAcknowledged" "run_revision run = 1" "run_request run = q"
    "run_job run = Some j" "run_head run = h" "run_finished run = None" "run_cancel_at run = None"
    "run_failure_code run = None" "run_mode run = m"
    "\<forall>r \<in> set (db_runs d). run_request r = q \<longrightarrow> run_state r \<notin> active_states"
    "\<forall>r \<in> set (db_runs d). run_job r \<noteq> Some j"
  using assms by (auto simp: insert_run_def fresh_def Let_def split: if_splits)

text \<open>The database just before the admission of usage: the new run and its first event.\<close>

definition run_inserted :: "db \<Rightarrow> db \<Rightarrow> ReviewRun \<Rightarrow> bool" where
  "run_inserted d d1 run \<longleftrightarrow>
     db_runs d1 = db_runs d @ [run]
   \<and> (\<exists>ev. db_events d1 = db_events d @ [ev] \<and> ev_run ev = run_id run \<and> ev_revision ev = 1)
   \<and> db_reservations d1 = db_reservations d \<and> db_interventions d1 = db_interventions d
   \<and> map req_id (db_requests d1) = map req_id (db_requests d) \<and> db_limits d1 = db_limits d
   \<and> (distinct (map ob_key (db_outbox d)) \<longrightarrow> distinct (map ob_key (db_outbox d1)))
   \<and> db_next d \<le> run_id run \<and> run_id run < db_next d1
   \<and> run_state run = RunAcknowledged \<and> run_revision run = 1 \<and> run_finished run = None
   \<and> run_cancel_at run = None \<and> run_failure_code run = None
   \<and> run_request run \<in> set (map req_id (db_requests d))
   \<and> (\<forall>r \<in> set (db_runs d). run_request r = run_request run \<longrightarrow> run_state r \<notin> active_states)"

text \<open>The database after it: the run is active with a reservation, or failed with a task and none.\<close>

definition run_created :: "db \<Rightarrow> db \<Rightarrow> ReviewRun \<Rightarrow> bool" where
  "run_created d d' r \<longleftrightarrow>
     db_runs d' = db_runs d @ [r]
   \<and> (\<exists>es. db_events d' = db_events d @ es \<and> (\<forall>ev \<in> set es. ev_run ev = run_id r)
        \<and> map ev_revision es = [1..<Suc (run_revision r)])
   \<and> (run_state r = RunAcknowledged
        \<and> (\<exists>u. db_reservations d' = db_reservations d @ [u] \<and> ur_run u = run_id r \<and> ur_reserved u = 1
             \<and> ur_settled u = 0 \<and> ur_state u = ''reserved'')
        \<and> db_interventions d' = db_interventions d \<and> run_finished r = None \<and> run_failure_code r = None
     \<or> run_state r = RunFailed \<and> db_reservations d' = db_reservations d
        \<and> (\<exists>v. db_interventions d' = db_interventions d @ [v] \<and> in_run v = run_id r)
        \<and> run_finished r \<noteq> None \<and> run_failure_code r = Some ''quota_exceeded'')
   \<and> map req_id (db_requests d') = map req_id (db_requests d) \<and> db_limits d' = db_limits d
   \<and> (distinct (map ob_key (db_outbox d)) \<longrightarrow> distinct (map ob_key (db_outbox d')))
   \<and> db_next d \<le> run_id r \<and> run_id r < db_next d' \<and> 1 \<le> run_revision r
   \<and> run_cancel_at r = None \<and> run_request r \<in> set (map req_id (db_requests d))
   \<and> (\<forall>x \<in> set (db_runs d). run_request x = run_request r \<longrightarrow> run_state x \<notin> active_states)"

lemma reserve_Inr:
  assumes "reserveReviewUsage e d t i repo = Inr d'" "i \<notin> ur_run ` set (db_reservations d)"
  obtains u where "db_reservations d' = db_reservations d @ [u]" "ur_run u = i" "ur_reserved u = 1"
    "ur_settled u = 0" "ur_state u = ''reserved''" "ur_tenant u = t" "ur_period u = env_period e"
    "hard_limit d t > 0 \<longrightarrow> committed_usage d t (env_period e) < hard_limit d t"
    "db_runs d' = db_runs d" "db_events d' = db_events d"
    "db_interventions d' = db_interventions d" "db_requests d' = db_requests d"
    "db_retries d' = db_retries d" "db_limits d' = db_limits d" "db_outbox d' = db_outbox d"
    "db_next d' = db_next d"
  using assms by (auto simp: reserveReviewUsage_def Let_def split: if_splits)

definition quota_reject :: "env \<Rightarrow> ReviewRun \<Rightarrow> ReviewRun \<Rightarrow> ReviewRun" where
  "quota_reject e run r = r\<lparr>run_state := RunFailed, run_revision := Suc (run_revision run),
     run_failure_code := Some ''quota_exceeded'', run_failure_message := Some quota_message,
     run_finished := Some (env_now e)\<rparr>"

lemma set_run_append_new:
  "i \<notin> run_id ` set runs \<Longrightarrow> run_id r = i \<Longrightarrow> set_run i f (runs @ [r]) = runs @ [f r]"
  by (induction runs) (auto simp: set_run_def)

lemma admit_rejected:
  assumes "admitRunUsage e d t repo run = Inr (d', run', ok)"
    and "reserveReviewUsage e d t (run_id run) repo = Inl err"
  obtains ev where "db_runs d' = set_run (run_id run) (quota_reject e run) (db_runs d)"
    "db_events d' = db_events d @ [ev]" "ev_run ev = run_id run" "ev_revision ev = Suc (run_revision run)"
    "db_reservations d' = db_reservations d"
    "if run_id run \<notin> in_run ` set (db_interventions d)
     then \<exists>v. db_interventions d' = db_interventions d @ [v] \<and> in_run v = run_id run
     else db_interventions d' = db_interventions d"
    "db_requests d' = db_requests d" "db_limits d' = db_limits d" "db_retries d' = db_retries d"
    "distinct (map ob_key (db_outbox d)) \<longrightarrow> distinct (map ob_key (db_outbox d'))"
    "db_next d \<le> db_next d'" "run' = quota_reject e run run" "\<not> ok"
proof -
  let ?d = "(case run_job run of None \<Rightarrow> update_run d (run_id run) (quota_reject e run)
       | Some j \<Rightarrow> update_job (update_run d (run_id run) (quota_reject e run)) (\<lambda>x. job_id x = j)
           (\<lambda>x. x\<lparr>job_state := JobFailed, job_error := Some (quota_message, None),
              job_finished := Some (env_now e), job_locked_by := None, job_locked_until := None\<rparr>))"
  have q: "(\<lambda>r. r\<lparr>run_state := RunFailed, run_revision := Suc (run_revision run),
     run_failure_code := Some ''quota_exceeded'', run_failure_message := Some quota_message,
     run_finished := Some (env_now e)\<rparr>) = quota_reject e run"
    by (simp add: quota_reject_def fun_eq_iff)
  obtain st d1 d2 where
    d1: "appendRunEvent (?d\<lparr>db_stages := st\<rparr>) (run_id run) (Suc (run_revision run)) ''run.failed''
       ''system'' ''usage-admission'' [(''failure_code'', PStr ''quota_exceeded'')] = Inr d1"
    and d2: "ensureReviewIntervention (insertOutbox d1 (run_id run) ''review.run.failed''
       (RunKey (run_id run) (Suc (run_revision run)) ''failed'')
       [(''run_id'', PUuid (run_id run)), (''revision'', PInt (int (Suc (run_revision run)))),
        (''failure_code'', PStr ''quota_exceeded'')]) (run_id run) RunFailed = Inr d2"
    and out: "d' = d2" "run' = quota_reject e run run" "\<not> ok"
    using assms unfolding admitRunUsage_def Let_def q
    by (auto simp: bind_r_Inr_iff quota_reject_def split: if_splits)
  have job: "db_runs ?d = set_run (run_id run) (quota_reject e run) (db_runs d)"
    "db_events ?d = db_events d" "db_reservations ?d = db_reservations d"
    "db_interventions ?d = db_interventions d" "db_requests ?d = db_requests d"
    "db_retries ?d = db_retries d" "db_limits ?d = db_limits d" "db_outbox ?d = db_outbox d"
    "db_next ?d = db_next d"
    by (simp_all split: option.splits)
  obtain ev where ev: "d1 = ?d\<lparr>db_stages := st, db_events := db_events ?d @ [ev]\<rparr>"
    "ev_run ev = run_id run" "ev_revision ev = Suc (run_revision run)"
    using d1 by (auto elim!: appendRunEvent_Inr)
  show thesis
  proof (rule that [of ev])
    have "db_next d \<le> db_next d1" using ev job by simp
    then show "db_next d \<le> db_next d'"
      using out ensure_frame(8) [OF d2] by (meson insertOutbox_frame(8) order_trans)
    show "if run_id run \<notin> in_run ` set (db_interventions d)
     then \<exists>v. db_interventions d' = db_interventions d @ [v] \<and> in_run v = run_id run
     else db_interventions d' = db_interventions d"
      using ensure_frame(9) [OF d2] ev(1) job(4) out(1)
      by (cases "run_id run \<in> in_run ` set (db_interventions d)") (simp_all add: needs_operator_def)
  qed (use ensure_frame(1-7) [OF d2] ev out job in \<open>simp_all add: needs_operator_def\<close>)
qed


lemma admit_created:
  assumes inv: "store_invP P d" and ins: "run_inserted d d1 run"
    and adm: "admitRunUsage e d1 t repo run = Inr (d', run', ok)"
  shows "run_created d d' run'" "run_id run' = run_id run" "db_retries d' = db_retries d1"
proof -
  note I = store_invPD [OF inv]
  note N = ins [unfolded run_inserted_def]
  have new: "run_id run \<notin> run_id ` set (db_runs d)" "run_id run \<notin> ur_run ` set (db_reservations d1)"
    "run_id run \<notin> in_run ` set (db_interventions d1)"
    using I(1,5,6) N unfolding ids_inv_def us_inv_def task_inv_def reservation_ok_def
    by (auto simp: not_less [symmetric])
  obtain ev1 where ev1: "db_events d1 = db_events d @ [ev1]" "ev_run ev1 = run_id run"
    "ev_revision ev1 = 1" using N by blast
  have "run_created d d' run' \<and> run_id run' = run_id run \<and> db_retries d' = db_retries d1"
  proof (cases "reserveReviewUsage e d1 t (run_id run) repo")
    case (Inr x)
    then have x: "d' = x" "run' = run" using adm by (auto simp: admitRunUsage_def)
    from Inr new(2) show ?thesis
    proof (rule reserve_Inr)
      fix u
      assume u: "db_reservations x = db_reservations d1 @ [u]" "ur_run u = run_id run"
        "ur_reserved u = 1" "ur_settled u = 0" "ur_state u = ''reserved''"
        and frame: "db_runs x = db_runs d1" "db_events x = db_events d1"
        "db_interventions x = db_interventions d1" "db_requests x = db_requests d1"
        "db_retries x = db_retries d1" "db_limits x = db_limits d1" "db_outbox x = db_outbox d1"
        "db_next x = db_next d1"
      have "\<exists>es. db_events x = db_events d @ es \<and> (\<forall>ev \<in> set es. ev_run ev = run_id run)
          \<and> map ev_revision es = [1..<Suc (run_revision run)]"
        using ev1 frame N by (intro exI [of _ "[ev1]"]) simp
      then show ?thesis using u frame x N unfolding run_created_def by simp
    qed
  next
    case (Inl err)
    from adm Inl show ?thesis
    proof (rule admit_rejected)
      fix ev
      assume ev: "db_runs d' = set_run (run_id run) (quota_reject e run) (db_runs d1)"
        "db_events d' = db_events d1 @ [ev]" "ev_run ev = run_id run"
        "ev_revision ev = Suc (run_revision run)" "db_reservations d' = db_reservations d1"
        "if run_id run \<notin> in_run ` set (db_interventions d1)
         then \<exists>v. db_interventions d' = db_interventions d1 @ [v] \<and> in_run v = run_id run
         else db_interventions d' = db_interventions d1"
        "db_requests d' = db_requests d1" "db_limits d' = db_limits d1" "db_retries d' = db_retries d1"
        "distinct (map ob_key (db_outbox d1)) \<longrightarrow> distinct (map ob_key (db_outbox d'))"
        "db_next d1 \<le> db_next d'" "run' = quota_reject e run run"
      have "\<exists>es. db_events d' = db_events d @ es \<and> (\<forall>ev \<in> set es. ev_run ev = run_id run)
          \<and> map ev_revision es = [1..<3]"
        using ev1 ev N by (intro exI [of _ "[ev1, ev]"]) (simp add: numeral_3_eq_3)
      moreover have "\<exists>v. db_interventions d' = db_interventions d @ [v] \<and> in_run v = run_id run"
        using ev(6) new(3) N by simp
      ultimately show ?thesis using ev N new(1) unfolding run_created_def
        by (simp add: quota_reject_def set_run_append_new numeral_3_eq_3)
    qed
  qed
  then show "run_created d d' run'" "run_id run' = run_id run" "db_retries d' = db_retries d1"
    by blast+
qed

lemma revs_append_list:
  "revs (evs @ es) i = revs evs i @ map ev_revision (filter (\<lambda>e. ev_run e = i) es)"
  by (simp add: revs_def)

lemma run_created_inv:
  assumes inv: "store_invP P d" and P: "\<forall>i \<in> P. i < db_next d" and cr: "run_created d d' r"
  shows "store_invP P d'"
proof -
  note I = store_invPD [OF inv]
  note C = cr [unfolded run_created_def]
  have runs: "db_runs d' = db_runs d @ [r]" using C by blast
  have mono: "db_next d \<le> db_next d'" using C by linarith
  have old: "run_id x < db_next d" if "x \<in> set (db_runs d)" for x
    using I(1) that unfolding ids_inv_def by blast
  then have fresh: "run_id x \<noteq> run_id r" if "x \<in> set (db_runs d)" for x using that C by force
  then have notin: "run_id r \<notin> run_id ` set (db_runs d)" by force
  have notP: "run_id r \<notin> P" using P C by force
  have reqs: "map req_id (db_requests d') = map req_id (db_requests d)"
    and req: "run_request r \<in> set (map req_id (db_requests d))" and lt: "run_id r < db_next d'"
    and cancel: "run_cancel_at r = None" and rev1: "1 \<le> run_revision r"
    and alone: "\<forall>x \<in> set (db_runs d). run_request x = run_request r \<longrightarrow> run_state x \<notin> active_states"
    using C by blast+
  consider (admitted) u where "run_state r = RunAcknowledged" "run_finished r = None"
      "run_failure_code r = None" "db_reservations d' = db_reservations d @ [u]" "ur_run u = run_id r"
      "ur_reserved u = 1" "ur_settled u = 0" "ur_state u = ''reserved''"
      "db_interventions d' = db_interventions d"
    | (rejected) v where "run_state r = RunFailed" "run_finished r \<noteq> None"
      "run_failure_code r = Some ''quota_exceeded''" "db_reservations d' = db_reservations d"
      "db_interventions d' = db_interventions d @ [v]" "in_run v = run_id r"
    using C by blast
  note outcome = this
  have ids: "ids_inv (db_runs d') (map req_id (db_requests d')) (db_next d')"
    using inv_mono(1) [OF I(1) mono] notin reqs req lt runs unfolding ids_inv_def by simp
  have act: "active_inv (db_runs d')"
    unfolding active_inv_def
  proof (intro ballI impI, elim conjE)
    fix x y
    assume xy: "x \<in> set (db_runs d')" "y \<in> set (db_runs d')" "run_request x = run_request y"
      "run_state x \<in> active_states" "run_state y \<in> active_states"
    then have "x = r \<or> x \<in> set (db_runs d)" "y = r \<or> y \<in> set (db_runs d)"
      using runs by auto
    moreover have "x = r \<and> y = r" if "x = r \<or> y = r"
      using that xy calculation alone by metis
    ultimately show "run_id x = run_id y"
      using I(2) xy(3-5) unfolding active_inv_def by blast
  qed
  have fin: "finish_inv (db_runs d')"
    using outcome
  proof cases
    case admitted
    then show ?thesis using I(3) cancel unfolding finish_inv_def runs by simp
  next
    case rejected
    then show ?thesis using I(3) cancel unfolding finish_inv_def runs by simp
  qed
  obtain es where es: "db_events d' = db_events d @ es" "\<forall>ev \<in> set es. ev_run ev = run_id r"
    "map ev_revision es = [1..<Suc (run_revision r)]" using C by blast
  have other: "filter (\<lambda>e. ev_run e = i) es = []" if "i \<noteq> run_id r" for i
    using es(2) that by auto
  have same: "filter (\<lambda>e. ev_run e = run_id r) es = es" using es(2) by simp
  have none: "revs (db_events d) (run_id r) = []"
    using I(4) C unfolding ev_inv_def revs_def by (fastforce simp: filter_empty_conv)
  have ev: "ev_inv P (db_runs d') (db_events d') (db_next d')"
    unfolding ev_inv_def
  proof (intro conjI ballI)
    show "ev_run x < db_next d'" if "x \<in> set (db_events d')" for x
      using that es(1,2) inv_mono(2) [OF I(4) mono] lt unfolding ev_inv_def by auto
    fix x assume x: "x \<in> set (db_runs d')"
    have "1 \<le> run_revision x \<and> revs (db_events d') (run_id x) =
         [1..<if run_id x \<in> P then run_revision x else Suc (run_revision x)]"
    proof (cases "x = r")
      case True
      then show ?thesis using rev1 es(1,3) same none notP by (simp add: revs_append_list del: upt_Suc)
    next
      case False
      then have old: "x \<in> set (db_runs d)" using x runs by simp
      from I(4) old show ?thesis
        unfolding ev_inv_def using es(1) other [OF fresh [OF old]] by (simp add: revs_append_list)
    qed
    then show "1 \<le> run_revision x" "revs (db_events d') (run_id x) =
         [1..<if run_id x \<in> P then run_revision x else Suc (run_revision x)]" by blast+
  qed
  have us: "us_inv P (db_runs d') (db_reservations d') (db_next d')"
  proof -
    have free: "run_id r \<notin> ur_run ` set (db_reservations d)"
      using I(5) C unfolding us_inv_def reservation_ok_def by force
    then have unused: "usage (db_reservations d) (run_id r) = None" by (simp add: usage_None)
    have base: "us_inv P (db_runs d) (db_reservations d) (db_next d')"
      using I(5) mono by (rule inv_mono(3))
    show ?thesis
      using outcome
    proof cases
      case admitted
      then have "usage (db_reservations d') (run_id x) = usage (db_reservations d) (run_id x)"
        if "x \<in> set (db_runs d)" for x
        using fresh [OF that] by (simp split: option.splits)
      then show ?thesis
        using admitted base free unused notP lt unfolding us_inv_def runs
        by (simp add: reservation_ok_def expected_usage_def active_states_def)
    next
      case rejected
      then show ?thesis
        using base unused notP unfolding us_inv_def runs
        by (simp add: expected_usage_def active_states_def)
    qed
  qed
  have task: "task_inv (db_runs d') (db_interventions d') (db_next d')"
  proof -
    have free: "run_id r \<notin> in_run ` set (db_interventions d)"
      using I(6) C unfolding task_inv_def by force
    have base: "task_inv (db_runs d) (db_interventions d) (db_next d')"
      using I(6) mono by (rule inv_mono(4))
    show ?thesis
      using outcome
    proof cases
      case admitted
      then show ?thesis using base free unfolding task_inv_def runs by (simp add: needs_operator_def)
    next
      case rejected
      then show ?thesis
        using base free fresh lt unfolding task_inv_def runs by (simp add: needs_operator_def)
    qed
  qed
  have "distinct (map ob_key (db_outbox d'))" using C I(7) by blast
  then show ?thesis unfolding store_invP_def using ids act fin ev us task by blast
qed


section \<open>The creating transactions\<close>

lemma inv_frame:
  assumes "store_invP P d" "db_runs d' = db_runs d" "db_events d' = db_events d"
    "db_reservations d' = db_reservations d"
    "distinct (map in_run (db_interventions d')) \<and> in_run ` set (db_interventions d') = in_run ` set (db_interventions d)"
    "map req_id (db_requests d') = map req_id (db_requests d)
     \<or> map req_id (db_requests d') = map req_id (db_requests d) @ [db_next d] \<and> db_next d < db_next d'"
    "db_next d \<le> db_next d'"
    "distinct (map ob_key (db_outbox d)) \<longrightarrow> distinct (map ob_key (db_outbox d'))"
  shows "store_invP P d'"
proof -
  note I = store_invPD [OF assms(1)]
  have "ids_inv (db_runs d') (map req_id (db_requests d')) (db_next d')"
    using assms(6)
  proof
    assume "map req_id (db_requests d') = map req_id (db_requests d)"
    then show ?thesis using inv_mono(1) [OF I(1) assms(7)] assms(2) by simp
  next
    assume new: "map req_id (db_requests d') = map req_id (db_requests d) @ [db_next d] \<and> db_next d < db_next d'"
    then have "ids_inv (db_runs d) (map req_id (db_requests d) @ [db_next d]) (db_next d')"
      using inv_mono(1) [OF I(1) assms(7)] I(1) unfolding ids_inv_def by auto
    then show ?thesis using new assms(2) by simp
  qed
  moreover have "task_inv (db_runs d') (db_interventions d') (db_next d')"
  proof -
    have "(\<forall>v \<in> set (db_interventions d'). in_run v < db_next d') \<longleftrightarrow>
        (\<forall>i \<in> in_run ` set (db_interventions d'). i < db_next d')" by simp
    also have "\<dots>" using assms(5) inv_mono(4) [OF I(6) assms(7)] unfolding task_inv_def by simp
    finally show ?thesis using assms(2,5) I(6) unfolding task_inv_def by simp
  qed
  ultimately show ?thesis
    using I(2,3,7) inv_mono(2) [OF I(4) assms(7)] inv_mono(3) [OF I(5) assms(7)] assms(2-4,8)
    unfolding store_invP_def by simp
qed

lemma upsert_request_Inr:
  assumes "upsert_request d inst ev = Inr (d', q)"
  shows "db_runs d' = db_runs d" "db_events d' = db_events d" "db_reservations d' = db_reservations d"
    "db_interventions d' = db_interventions d" "db_retries d' = db_retries d" "db_limits d' = db_limits d"
    "db_outbox d' = db_outbox d" "db_next d \<le> db_next d'"
    "map req_id (db_requests d') = map req_id (db_requests d)
     \<or> map req_id (db_requests d') = map req_id (db_requests d) @ [db_next d] \<and> db_next d < db_next d'"
    "q \<in> set (map req_id (db_requests d'))"
  using assms
  by (auto simp: upsert_request_def fresh_def Let_def map_update_where_key image_update_where_key
      dest!: row_by_SomeD split: if_splits option.splits)

lemma upsert_request_inv:
  assumes "store_inv d" "upsert_request d inst ev = Inr (d', q)"
  shows "store_inv d'"
  using upsert_request_Inr [OF assms(2)] store_invPD(6) [OF assms(1)]
  by (intro inv_frame [OF assms(1)]) (auto simp: task_inv_def)

lemma supersede_simps [simp]:
  "run_id (supersede e r) = run_id r" "run_request (supersede e r) = run_request r"
  "run_state (supersede e r) = RunSuperseded" "run_revision (supersede e r) = Suc (run_revision r)"
  "run_finished (supersede e r) = Some (env_now e)" "run_cancel_at (supersede e r) = run_cancel_at r"
  "run_failure_code (supersede e r) = run_failure_code r" "run_job (supersede e r) = run_job r"
  "run_head (supersede e r) = run_head r"
  by (simp_all add: supersede_def)

text \<open>The runs that the code still has to link, as pairs of identifier and new revision.\<close>

definition pending_ok :: "(uuid \<times> nat) list \<Rightarrow> ReviewRun list \<Rightarrow> bool" where
  "pending_ok ps runs \<longleftrightarrow> distinct (map fst ps) \<and>
     (\<forall>(i, n) \<in> set ps. \<exists>r \<in> set runs. run_id r = i \<and> run_revision r = n
        \<and> run_state r = RunSuperseded \<and> run_failure_code r = None)"

lemma stale_not_Terminal: "stale_run q h r \<Longrightarrow> \<not> Terminal (run_state r)"
  by (simp add: stale_run_def active_iff_not_Terminal)

lemma supersede_stale_inv:
  assumes inv: "store_inv d" and sup: "supersede_stale e d q h = (d', ps)"
  shows "store_invP (fst ` set ps) d'" "pending_ok ps (db_runs d')" "\<forall>i \<in> fst ` set ps. i < db_next d'"
    "\<forall>r \<in> set (db_runs d'). run_request r = q \<and> run_state r \<in> active_states \<longrightarrow> run_head r = h"
proof -
  note I = store_invPD [OF inv]
  let ?g = "\<lambda>r. if stale_run q h r then supersede e r else r"
  have d': "d' = d\<lparr>db_runs := map ?g (db_runs d)\<rparr>"
    and ps: "ps = map (\<lambda>r. (run_id r, Suc (run_revision r))) (filter (stale_run q h) (db_runs d))"
    using sup by (auto simp: supersede_stale_def update_where_def)
  have P: "fst ` set ps = {run_id r |r. r \<in> set (db_runs d) \<and> stale_run q h r}"
    unfolding ps by force
  have mem: "run_id r \<in> fst ` set ps \<longleftrightarrow> stale_run q h r" if "r \<in> set (db_runs d)" for r
    unfolding P using that distinct_key_eq [OF I(8)] by blast
  have stale: "run_cancel_at r = None" "run_failure_code r = None" "run_state r \<in> active_states"
    if "r \<in> set (db_runs d)" "stale_run q h r" for r
    using not_cancelled_yet [OF inv that(1) stale_not_Terminal [OF that(2)]] that(2)
    by (auto simp: stale_run_def)
  have ended: "RunSuperseded \<notin> active_states" by (simp add: active_states_def)
  have "ids_inv (map ?g (db_runs d)) (map req_id (db_requests d)) (db_next d)"
    using I(1) unfolding ids_inv_def by (auto simp: comp_def if_distrib cong: if_cong)
  moreover have "active_inv (map ?g (db_runs d))"
  proof -
    have "r \<in> set (db_runs d)" if "r \<in> set (map ?g (db_runs d))" "run_state r \<in> active_states" for r
      using that ended by (auto split: if_splits)
    then show ?thesis using I(2) unfolding active_inv_def by blast
  qed
  moreover have "finish_inv (map ?g (db_runs d))"
    using I(3) stale unfolding finish_inv_def by auto
  moreover have "ev_inv (fst ` set ps) (map ?g (db_runs d)) (db_events d) (db_next d)"
    using I(4) mem unfolding ev_inv_def by auto
  moreover have "us_inv (fst ` set ps) (map ?g (db_runs d)) (db_reservations d) (db_next d)"
    using I(5) mem stale unfolding us_inv_def by (auto simp: expected_usage_def ended)
  moreover have "task_inv (map ?g (db_runs d)) (db_interventions d) (db_next d)"
  proof -
    have "\<not> needs_operator (run_state r)" if "stale_run q h r" for r
      using stale_not_Terminal [OF that] needs_operator_Terminal by blast
    then show ?thesis using I(6) unfolding task_inv_def by (auto simp: needs_operator_def)
  qed
  ultimately show "store_invP (fst ` set ps) d'"
    using I(7) unfolding d' store_invP_def by simp
  show "pending_ok ps (db_runs d')"
    unfolding pending_ok_def
  proof (intro conjI ballI, unfold split_beta)
    have "map fst ps = map run_id (filter (stale_run q h) (db_runs d))" by (simp add: ps)
    then show "distinct (map fst ps)" using I(8) by (simp add: distinct_map_filter)
    fix p assume "p \<in> set ps"
    then obtain r where r: "r \<in> set (db_runs d)" "stale_run q h r" "p = (run_id r, Suc (run_revision r))"
      unfolding ps by auto
    have "?g r \<in> set (db_runs d')" using r(1) by (simp add: d')
    then have "supersede e r \<in> set (db_runs d')" using r(2) by simp
    then show "\<exists>x \<in> set (db_runs d'). run_id x = fst p \<and> run_revision x = snd p
        \<and> run_state x = RunSuperseded \<and> run_failure_code x = None"
      using r stale by (intro bexI [of _ "supersede e r"]) auto
  qed
  show "\<forall>i \<in> fst ` set ps. i < db_next d'"
    using I(1) unfolding P d' ids_inv_def by auto
  show "\<forall>r \<in> set (db_runs d'). run_request r = q \<and> run_state r \<in> active_states \<longrightarrow> run_head r = h"
  proof (intro ballI impI)
    fix r assume "r \<in> set (db_runs d')" and r: "run_request r = q \<and> run_state r \<in> active_states"
    then obtain x where "x \<in> set (db_runs d)" "r = ?g x" unfolding d' by auto
    then show "run_head r = h" using r ended by (auto simp: stale_run_def split: if_splits)
  qed
qed


end
