(* ===== verification/Workflow_Steps.thy ===== *)
theory Workflow_Steps
  imports Workflow_Invariants
begin

text \<open>
  The transactions of the workflow store as the steps of one machine: every transaction keeps
  the invariants of \<open>Workflow_Invariants\<close>, and what follows for every reachable database.
\<close>

section \<open>Linking the superseded runs\<close>

lemma pending_ok_ConsD:
  assumes "pending_ok ((i, n) # ps) runs"
  obtains r where "r \<in> set runs" "run_id r = i" "run_revision r = n" "run_state r = RunSuperseded"
    "run_failure_code r = None" "i \<notin> fst ` set ps" "pending_ok ps runs"
  using assms by (auto simp: pending_ok_def)

lemma pending_ok_set_run:
  assumes "pending_ok ps runs" "i \<notin> fst ` set ps"
  shows "pending_ok ps (set_run i f runs)"
proof -
  have keep: "x \<in> set (set_run i f runs)" if "x \<in> set runs" "run_id x \<noteq> i" for x
    using that by (force simp: set_run_def set_update_where)
  show ?thesis
    unfolding pending_ok_def
  proof (intro conjI ballI, unfold split_beta)
    show "distinct (map fst ps)" using assms(1) by (simp add: pending_ok_def)
    fix p assume p: "p \<in> set ps"
    then obtain r where "r \<in> set runs" "run_id r = fst p" "run_revision r = snd p"
      "run_state r = RunSuperseded" "run_failure_code r = None"
      using assms(1) by (force simp: pending_ok_def)
    moreover have "fst p \<noteq> i" using assms(2) p by force
    ultimately show "\<exists>r \<in> set (set_run i f runs). run_id r = fst p \<and> run_revision r = snd p
        \<and> run_state r = RunSuperseded \<and> run_failure_code r = None"
      using keep by metis
  qed
qed

lemma pending_ok_append: "pending_ok ps runs \<Longrightarrow> pending_ok ps (runs @ [r])"
  by (simp add: pending_ok_def bex_Un split_beta)

lemma active_invD:
  "active_inv runs \<Longrightarrow> r \<in> set runs \<Longrightarrow> r' \<in> set runs \<Longrightarrow> run_request r = run_request r' \<Longrightarrow>
   run_state r \<in> active_states \<Longrightarrow> run_state r' \<in> active_states \<Longrightarrow> run_id r = run_id r'"
  unfolding active_inv_def by blast

lemma link_stale_inv:
  assumes "store_invP (fst ` set ps) d" "pending_ok ps (db_runs d)"
    and "link_stale e runID h ps d = Inr d'"
  shows "store_inv d'"
  using assms
proof (induction ps arbitrary: d)
  case Nil
  then show ?case by simp
next
  case (Cons p ps)
  obtain i n where p: "p = (i, n)" by (cases p)
  let ?f = "\<lambda>r. r\<lparr>run_superseded_by := Some runID\<rparr>"
  from Cons.prems(2) p obtain r where r: "r \<in> set (db_runs d)" "run_id r = i" "run_revision r = n"
    "run_state r = RunSuperseded" "run_failure_code r = None" "i \<notin> fst ` set ps"
    "pending_ok ps (db_runs d)" by (auto elim!: pending_ok_ConsD)
  from Cons.prems(3) p obtain d1 where
    d1: "appendRunEvent d i n ''run.superseded'' ''provider'' ''''
         [(''replacement_run_id'', PUuid runID), (''replacement_head_sha'', PStr h)] = Inr d1"
    and rest: "link_stale e runID h ps (finalizeReviewUsage e (insertOutbox (update_run d1 i ?f) i
         ''review.run.superseded'' (RunKey i n ''superseded'')
         [(''run_id'', PUuid i), (''revision'', PInt (int n)), (''replacement_run_id'', PUuid runID)])
         i False) = Inr d'"
    by (auto simp: bind_r_Inr_iff Let_def)
  obtain ev where ev: "d1 = d\<lparr>db_events := db_events d @ [ev]\<rparr>" "ev_run ev = i" "ev_revision ev = n"
    using d1 by (rule appendRunEvent_Inr)
  let ?d = "finalizeReviewUsage e (insertOutbox (update_run d1 i ?f) i
         ''review.run.superseded'' (RunKey i n ''superseded'')
         [(''run_id'', PUuid i), (''revision'', PInt (int n)), (''replacement_run_id'', PUuid runID)])
         i False"
  note I = store_invPD [OF Cons.prems(1)]
  have P: "fst ` set ps = fst ` set (p # ps) - {i}" using p r(6) by auto
  have inP: "run_id r \<in> fst ` set (p # ps)" using p r(2) by simp
  have lt: "run_id r < db_next d" using I(1) r(1) unfolding ids_inv_def by blast
  have mono: "db_next d \<le> db_next ?d" using ev(1) by simp
  have runs: "db_runs ?d = set_run (run_id r) ?f (db_runs d)" using ev(1) r(2) by simp
  have dist: "distinct (map run_id (set_run (run_id r) ?f (db_runs d)))" using I(8) by simp
  have r': "?f r \<in> set (set_run (run_id r) ?f (db_runs d))"
    using set_set_run [OF I(8) r(1)] by simp
  have ids: "ids_inv (db_runs ?d) (map req_id (db_requests ?d)) (db_next ?d)"
    using inv_mono(1) [OF ids_inv_set_run [OF I(1) r(1), of ?f] mono] ev(1) runs by simp
  have act: "active_inv (db_runs ?d)"
    unfolding runs by (rule active_inv_set_run [OF I(2,8) r(1)]) simp_all
  have fin: "finish_inv (db_runs ?d)"
    unfolding runs using I(3) r(1)
    by (intro finish_inv_set_run [OF I(3,8) r(1)]) (simp_all add: finish_inv_def)
  have "ev_inv (fst ` set (p # ps)) (db_runs ?d) (db_events d) (db_next d)"
    unfolding runs by (rule ev_inv_set_run_same [OF I(4,8) r(1)]) simp_all
  from ev_inv_pending [OF this, of "?f r" ev]
  have "ev_inv (fst ` set ps) (db_runs ?d) (db_events d @ [ev]) (db_next d)"
    using dist r' inP lt ev r(2,3) runs unfolding P by simp
  then have evs: "ev_inv (fst ` set ps) (db_runs ?d) (db_events ?d) (db_next ?d)"
    using inv_mono(2) mono ev(1) by simp
  have "us_inv (fst ` set (p # ps)) (db_runs ?d) (db_reservations d) (db_next d)"
    unfolding runs using r(5)
    by (intro us_inv_set_run [OF I(5,8) r(1)]) (simp_all add: expected_usage_def)
  from us_inv_close_pending [OF this, of "?f r" "env_now e"]
  have "us_inv (fst ` set ps) (db_runs ?d) (close_reservation i False (env_now e) (db_reservations d))
      (db_next d)"
    using dist r' inP r(2,4,5) runs ev(1) unfolding P by (simp add: expected_usage_def active_states_def)
  then have us: "us_inv (fst ` set ps) (db_runs ?d) (db_reservations ?d) (db_next ?d)"
    using inv_mono(3) mono ev(1) by simp
  have "task_inv (db_runs ?d) (db_interventions d) (db_next d)"
    unfolding runs by (rule task_inv_set_run [OF I(6,8) r(1)]) simp_all
  then have task: "task_inv (db_runs ?d) (db_interventions ?d) (db_next ?d)"
    using inv_mono(4) mono ev(1) by simp
  have "store_invP (fst ` set ps) ?d"
    unfolding store_invP_def using ids act fin evs us task I(7) ev(1) by simp
  moreover have "pending_ok ps (db_runs ?d)"
    unfolding runs using pending_ok_set_run [OF r(7)] r(2,6) by simp
  ultimately show ?case using rest Cons.IH by blast
qed

section \<open>Creating transactions keep the invariants\<close>

lemma insertOutbox_next_less [simp]:
  "n < db_next d \<Longrightarrow> n < db_next (insertOutbox d i t k p)"
  by (metis insertOutbox_frame(8) Suc_le_eq)

lemma insert_first_event_Inr:
  assumes "insert_first_event d inst event t k m i = Inr d'"
  obtains ev where "db_events d' = db_events d @ [ev]" "ev_run ev = i" "ev_revision ev = 1"
    "db_runs d' = db_runs d" "db_reservations d' = db_reservations d"
    "db_interventions d' = db_interventions d" "db_requests d' = db_requests d"
    "db_retries d' = db_retries d" "db_limits d' = db_limits d" "db_next d \<le> db_next d'"
    "distinct (map ob_key (db_outbox d)) \<longrightarrow> distinct (map ob_key (db_outbox d'))"
proof -
  obtain d1 where "appendRunEvent d i 1 ''run.acknowledged'' k (ie_actor_subject event)
        [(''provider'', PStr (ie_provider event)), (''delivery_id'', PStr (ie_delivery event)),
         (''review_number'', PInt (ie_number event)), (''trigger'', PStr t),
         (''review_mode'', PStr m)] = Inr d1"
    using assms by (auto simp: insert_first_event_def bind_r_Inr_iff)
  moreover from this obtain ev where "d1 = d\<lparr>db_events := db_events d @ [ev]\<rparr>" "ev_run ev = i"
    "ev_revision ev = 1" by (rule appendRunEvent_Inr)
  ultimately show thesis
    using assms by (intro that [of ev]) (auto simp: insert_first_event_def Let_def)
qed

lemma create_event_run_inserts:
  assumes q: "q \<in> set (map req_id (db_requests d))"
    and cr: "create_event_run e d inst jobID event q ps t k sc m = Inr (d', runID)"
  obtains d3 run d4 run' ok where "run_inserted d d3 run" "run_id run = runID"
    "\<forall>r \<in> set (db_runs d). run_job r \<noteq> run_job run" "run_mode run = m"
    "admitRunUsage e d3 (ins_tenant inst) (ie_repository event) run = Inr (d4, run', ok)"
    "link_stale e runID (ie_head_sha event) ps d4 = Inr d'"
proof -
  from cr obtain snap sel d1 run d2 d3 d4 run' ok where
    d1: "insert_run d q jobID t m (ie_head_sha event) (ie_base_sha event) snap = Inr (d1, run)"
    and d2: "snapshotReviewConfigurations e (recordRuleRolloutRunSelections d1 (run_id run) sel)
       (run_id run) (ins_tenant inst) sc = Inr d2"
    and d3: "insert_first_event (set_current_run d2 q (run_id run)) inst event t k m (run_id run) = Inr d3"
    and d4: "admitRunUsage e d3 (ins_tenant inst) (ie_repository event) run = Inr (d4, run', ok)"
    and d': "link_stale e (run_id run) (ie_head_sha event) ps d4 = Inr d'" and id: "runID = run_id run"
    by (auto simp: create_event_run_def bind_r_Inr_iff Let_def)
  note R = insert_run_Inr [OF d1]
  have "run_inserted d d3 run"
    using d3 by (rule insert_first_event_Inr)
      (use R snapshot_frame [OF d2] q in \<open>simp add: run_inserted_def\<close>)
  with R(14,19,21) d4 d' id show thesis using that by simp
qed

lemma create_event_run_inv:
  assumes inv: "store_invP (fst ` set ps) d" and ps: "pending_ok ps (db_runs d)"
    "\<forall>i \<in> fst ` set ps. i < db_next d" and q: "q \<in> set (map req_id (db_requests d))"
    and cr: "create_event_run e d inst jobID event q ps t k sc m = Inr (d', runID)"
  shows "store_inv d'"
  using q cr
proof (rule create_event_run_inserts)
  fix d3 run d4 run' ok
  assume ins: "run_inserted d d3 run"
    and d4: "admitRunUsage e d3 (ins_tenant inst) (ie_repository event) run = Inr (d4, run', ok)"
    and d': "link_stale e runID (ie_head_sha event) ps d4 = Inr d'"
  note created = admit_created(1) [OF inv ins d4]
  have "store_invP (fst ` set ps) d4" using run_created_inv [OF inv ps(2) created] .
  moreover have "pending_ok ps (db_runs d4)"
    using pending_ok_append [OF ps(1)] created unfolding run_created_def by simp
  ultimately show ?thesis using link_stale_inv d' by blast
qed

lemma coalesced_nothing_stale:
  assumes inv: "store_inv d" and sup: "supersede_stale e d q h = (d', ps)"
    and f: "find (\<lambda>r. run_request r = q \<and> run_head r = h \<and> run_state r \<in> active_states) (db_runs d') = Some r"
  shows "ps = []"
proof -
  have d': "db_runs d' = update_where (stale_run q h) (supersede e) (db_runs d)"
    and ps: "ps = map (\<lambda>r. (run_id r, Suc (run_revision r))) (filter (stale_run q h) (db_runs d))"
    using sup by (auto simp: supersede_stale_def)
  have r: "r \<in> set (db_runs d')" "run_request r = q" "run_head r = h" "run_state r \<in> active_states"
    using f by (auto simp: find_Some_iff)
  then have old: "r \<in> set (db_runs d)"
    using d' by (auto simp: set_update_where active_states_def split: if_splits)
  have False if "x \<in> set (db_runs d)" "stale_run q h x" for x
  proof -
    have "run_id x = run_id r"
      using active_invD [OF store_invPD(2) [OF inv] that(1) old] that(2) r by (simp add: stale_run_def)
    then have "x = r" using distinct_key_eq [OF store_invPD(8) [OF inv]] that(1) old by blast
    then show False using that(2) r(3) by (simp add: stale_run_def)
  qed
  then show ?thesis unfolding ps by (auto simp: filter_empty_conv)
qed

lemma createWorkflowRun_inv:
  assumes inv: "store_inv d" and cr: "createWorkflowRun e d inst jobID event = Inr (d', a)"
  shows "store_inv d'"
proof -
  from cr obtain d1 q where d1: "upsert_request d inst event = Inr (d1, q)"
    by (auto simp: createWorkflowRun_def bind_r_Inr_iff Let_def)
  obtain d2 ps where d2: "supersede_stale e d1 q (ie_head_sha event) = (d2, ps)" by fastforce
  have inv1: "store_inv d1" using upsert_request_inv [OF inv d1] .
  note S = supersede_stale_inv [OF inv1 d2]
  have reqs: "db_requests d2 = db_requests d1" using d2 by (auto simp: supersede_stale_def)
  let ?p = "\<lambda>r. run_request r = q \<and> run_head r = ie_head_sha event \<and> run_state r \<in> active_states"
  show ?thesis
  proof (cases "find ?p (db_runs d2)")
    case None
    with cr d1 d2 obtain t k sc m i where
      "create_event_run e d2 inst jobID event q ps t k sc m = Inr (d', i)"
      by (auto simp: createWorkflowRun_def bind_r_Inr_iff Let_def)
    then show ?thesis
      using create_event_run_inv [OF S(1-3)] upsert_request_Inr(10) [OF d1] reqs by metis
  next
    case (Some r)
    then have "ps = []" using coalesced_nothing_stale [OF inv1 d2] by simp
    then have "store_inv d2" using S(1) by simp
    moreover obtain p f where "d' = update_job d2 p f"
      using cr d1 d2 Some by (auto simp: createWorkflowRun_def bind_r_Inr_iff Let_def)
    ultimately show ?thesis by (simp add: store_invP_def)
  qed
qed


text \<open>Statements on deliveries and jobs touch nothing the invariants speak about.\<close>

definition same_core :: "db \<Rightarrow> db \<Rightarrow> bool" where
  "same_core d d' \<longleftrightarrow> db_runs d' = db_runs d \<and> db_events d' = db_events d
     \<and> db_reservations d' = db_reservations d \<and> db_interventions d' = db_interventions d
     \<and> db_requests d' = db_requests d \<and> db_retries d' = db_retries d \<and> db_limits d' = db_limits d
     \<and> db_outbox d' = db_outbox d \<and> db_next d \<le> db_next d'"

lemma same_core_inv:
  assumes "store_invP P d" "same_core d d'"
  shows "store_invP P d'"
  using assms(2) store_invPD(6) [OF assms(1)] unfolding same_core_def
  by (intro inv_frame [OF assms(1)]) (auto simp: task_inv_def)

lemma same_core_trans: "same_core d d1 \<Longrightarrow> same_core d1 d2 \<Longrightarrow> same_core d d2"
  unfolding same_core_def by auto

lemma same_core_statements:
  "upsert_delivery d p t ev pl = (d', i) \<Longrightarrow> same_core d d'"
  "insert_delivery d p t ev pl = Inr (d', i) \<Longrightarrow> same_core d d'"
  "copy_job d s dl b h = Some (d', j) \<Longrightarrow> same_core d d'"
  by (auto simp: same_core_def upsert_delivery_def insert_delivery_def copy_job_def fresh_def Let_def
      split: option.splits if_splits)

lemma createCommentRun_inserts:
  assumes q: "q \<in> set (map req_id (db_requests d))"
    and cr: "createCommentRun e d q current inst event t m sel i = Inr (d', run')"
  obtains d2 d5 run repo ok where "same_core d d2" "run_inserted d2 d5 run"
    "\<forall>r \<in> set (db_runs d2). run_job r \<noteq> run_job run"
    "admitRunUsage e d5 (ins_tenant inst) repo run = Inr (d', run', ok)"
proof -
  from cr obtain currentJob d1 deliveryID where job: "run_job current = Some currentJob"
    and d1: "upsert_delivery d (ce_provider event) (''provider'', 0, ce_delivery event)
            ''issue_comment'' [(''interaction_id'', PUuid i),
                               (''comment_id'', PStr (ce_comment event))] = (d1, deliveryID)"
    by (cases "run_job current"; cases "upsert_delivery d (ce_provider event)
        (''provider'', 0, ce_delivery event) ''issue_comment''
        [(''interaction_id'', PUuid i), (''comment_id'', PStr (ce_comment event))]")
      (auto simp: createCommentRun_def)
  from cr job d1 obtain d2 j snap sels d3 run d4 d5 ok where
    d2: "copy_job d1 currentJob deliveryID (run_base current) (run_head current) = Some (d2, j)"
    and d3: "insert_run d2 q (job_id j) t m (run_head current) (run_base current) snap = Inr (d3, run)"
    and d4: "snapshotReviewConfigurations e (recordRuleRolloutRunSelections d3 (run_id run) sels)
       (run_id run) (ins_tenant inst) (reviewConfigScopeForInstallation inst (job_repository j)) = Inr d4"
    and d5: "appendRunEvent (init_stages (set_current_run d4 q (run_id run)) (run_id run)) (run_id run)
       (run_revision run) ''run.acknowledged'' ''user'' ''''
       [(''interaction_id'', PUuid i), (''trigger'', PStr t), (''review_mode'', PStr m)] = Inr d5"
    and d6: "admitRunUsage e d5 (ins_tenant inst) (job_repository j) run = Inr (d', run', ok)"
    by (auto simp: createCommentRun_def bind_r_Inr_iff Let_def split: option.splits)
  have core: "same_core d d2"
    using same_core_trans [OF same_core_statements(1) [OF d1] same_core_statements(3) [OF d2]] .
  have q2: "q \<in> set (map req_id (db_requests d2))" using q core unfolding same_core_def by simp
  note R = insert_run_Inr [OF d3]
  obtain ev where ev: "d5 = (init_stages (set_current_run d4 q (run_id run)) (run_id run))
      \<lparr>db_events := db_events (init_stages (set_current_run d4 q (run_id run)) (run_id run)) @ [ev]\<rparr>"
    "ev_run ev = run_id run" "ev_revision ev = run_revision run"
    using d5 by (rule appendRunEvent_Inr)
  have "run_inserted d2 d5 run"
    using ev R snapshot_frame [OF d4] q2 unfolding run_inserted_def by simp
  with core R(14,21) d6 show thesis using that by simp
qed

lemma createCommentRun_inv:
  assumes inv: "store_inv d" and q: "q \<in> set (map req_id (db_requests d))"
    and cr: "createCommentRun e d q current inst event t m sel i = Inr (d', run')"
  shows "store_inv d'"
  using q cr
proof (rule createCommentRun_inserts)
  fix d2 d5 run repo ok
  assume "same_core d d2" "run_inserted d2 d5 run"
    "admitRunUsage e d5 (ins_tenant inst) repo run = Inr (d', run', ok)"
  then show ?thesis
    using admit_created(1) run_created_inv same_core_inv [OF inv] by (metis empty_iff)
qed

lemma resolve_for_retry_frame [simp]:
  "db_runs (resolveReviewInterventionForRetry e d t s r a) = db_runs d"
  "db_events (resolveReviewInterventionForRetry e d t s r a) = db_events d"
  "db_reservations (resolveReviewInterventionForRetry e d t s r a) = db_reservations d"
  "map in_run (db_interventions (resolveReviewInterventionForRetry e d t s r a)) = map in_run (db_interventions d)"
  "db_requests (resolveReviewInterventionForRetry e d t s r a) = db_requests d"
  "db_retries (resolveReviewInterventionForRetry e d t s r a) = db_retries d"
  "db_limits (resolveReviewInterventionForRetry e d t s r a) = db_limits d"
  "db_outbox (resolveReviewInterventionForRetry e d t s r a) = db_outbox d"
  "db_next (resolveReviewInterventionForRetry e d t s r a) = db_next d"
  by (simp_all add: resolveReviewInterventionForRetry_def update_interventions_def Let_def
      map_update_where_key split: option.splits)

lemma store_inv_tasks:
  assumes "store_invP P d" "db_runs d' = db_runs d" "db_events d' = db_events d"
    "db_reservations d' = db_reservations d" "map in_run (db_interventions d') = map in_run (db_interventions d)"
    "db_requests d' = db_requests d" "db_outbox d' = db_outbox d" "db_next d' = db_next d"
  shows "store_invP P d'"
proof -
  have "in_run ` set (db_interventions d') = in_run ` set (db_interventions d)"
    using assms(5) by (metis set_map)
  then show ?thesis
    using assms(2-) store_invPD(6) [OF assms(1)]
    by (intro inv_frame [OF assms(1)]) (simp_all add: task_inv_def)
qed

text \<open>The retry transaction: what it stores, for the invariants and for the replay of a lost
  answer.\<close>

lemma create_retry_inv:
  assumes inv: "store_inv d" and src: "run_request source \<in> set (map req_id (db_requests d))"
    and cr: "create_retry e d actor tenantID source job key = Inr (d', res)"
  shows "store_inv d'" "\<not> rt_replayed res"
    "row_by run_id (run_id (rt_run res)) (db_runs d') = Some (rt_run res)"
    "db_retries d' = db_retries d @ [\<lparr>rr_source = run_id source, rr_key = key,
       rr_retry = run_id (rt_run res), rr_actor = actor\<rparr>]"
    "(run_id source, key) \<notin> (\<lambda>x. (rr_source x, rr_key x)) ` set (db_retries d)"
    "\<exists>d2 d5 d7 run repo ok. same_core d d2 \<and> run_inserted d2 d5 run
       \<and> (\<forall>r \<in> set (db_runs d2). run_job r \<noteq> run_job run)
       \<and> admitRunUsage e d5 tenantID repo run = Inr (d7, rt_run res, ok) \<and> db_runs d' = db_runs d7
       \<and> db_reservations d' = db_reservations d7 \<and> db_limits d' = db_limits d7"
proof -
  let ?sc = "\<lambda>j. \<lparr>sc_ref = job_repository j, sc_provider = job_provider job, sc_api = job_api job\<rparr>"
  from cr obtain d1 dl d2 j snap sels d3 run d4 d5 d6 d7 retry ok where
    d1: "insert_delivery d (job_provider job) (''manual-retry'', run_id source, key) ''manual_retry''
        [(''source_run_id'', PUuid (run_id source)), (''source_revision'', PInt (int (run_revision source))),
         (''actor'', PStr actor)] = Inr (d1, dl)"
    and d2: "copy_job d1 (job_id job) dl (run_base source) (run_head source) = Some (d2, j)"
    and d3: "insert_run d2 (run_request source) (job_id j) ''retry'' (run_mode source)
                (run_head source) (run_base source) snap = Inr (d3, run)"
    and d4: "insert_retry (recordRuleRolloutRunSelections d3 (run_id run) sels) (run_id source) key
       (run_id run) actor = Inr d4"
    and d5: "snapshotReviewConfigurations e d4 (run_id run) tenantID (?sc j) = Inr d5"
    and d6: "appendRunEvent (init_stages (set_current_run d5 (run_request source) (run_id run)) (run_id run))
        (run_id run) (run_revision run) ''run.acknowledged'' ''user'' actor
                [(''trigger'', PStr ''retry''), (''source_run_id'', PUuid (run_id source)),
                 (''source_revision'', PInt (int (run_revision source))),
                 (''review_mode'', PStr (run_mode run))] = Inr d6"
    and d7: "admitRunUsage e (insertOutbox d6 (run_id run) ''review.run.acknowledged''
            (RunKey (run_id run) 1 ''acknowledged'')
            [(''run_id'', PUuid (run_id run)), (''revision'', PInt (int (run_revision run)))])
            tenantID (job_repository j) run = Inr (d7, retry, ok)"
    and d': "d' = audit (resolveReviewInterventionForRetry e d7 tenantID (run_id source) (run_id retry) actor)
            tenantID actor ''review_run.retry_requested'' (PUuid (run_id retry))
            [(''source_run_id'', PUuid (run_id source)),
             (''source_revision'', PInt (int (run_revision source)))]"
    and res: "res = \<lparr>rt_run = retry, rt_replayed = False\<rparr>"
    by (auto simp: create_retry_def bind_r_Inr_iff Let_def split: option.splits prod.splits)
  have core: "same_core d d2"
    using same_core_trans [OF same_core_statements(2) [OF d1] same_core_statements(3) [OF d2]] .
  note K = core [unfolded same_core_def]
  have inv2: "store_inv d2" using same_core_inv [OF inv core] .
  note R = insert_run_Inr [OF d3]
  have d4': "d4 = (recordRuleRolloutRunSelections d3 (run_id run) sels)\<lparr>db_retries := db_retries d3 @
      [\<lparr>rr_source = run_id source, rr_key = key, rr_retry = run_id run, rr_actor = actor\<rparr>]\<rparr>"
    and new: "(run_id source, key) \<notin> (\<lambda>x. (rr_source x, rr_key x)) ` set (db_retries d3)"
    using d4 by (auto simp: insert_retry_def split: if_splits)
  let ?d = "init_stages (set_current_run d5 (run_request source) (run_id run)) (run_id run)"
  obtain ev where ev: "d6 = ?d\<lparr>db_events := db_events ?d @ [ev]\<rparr>"
    "ev_run ev = run_id run" "ev_revision ev = run_revision run"
    using d6 by (rule appendRunEvent_Inr)
  have ins: "run_inserted d2 (insertOutbox d6 (run_id run) ''review.run.acknowledged''
            (RunKey (run_id run) 1 ''acknowledged'')
            [(''run_id'', PUuid (run_id run)), (''revision'', PInt (int (run_revision run)))]) run"
    using ev R snapshot_frame [OF d5] src d4' K unfolding run_inserted_def by auto
  note A = admit_created [OF inv2 ins d7]
  have inv7: "store_inv d7" using run_created_inv [OF inv2 _ A(1)] by simp
  show "store_inv d'" unfolding d' by (rule store_inv_tasks [OF inv7]) simp_all
  have runs: "db_runs d' = db_runs d @ [retry]"
    using A(1) K unfolding run_created_def d' by simp
  show "\<not> rt_replayed res" by (simp add: res)
  have "distinct (map run_id (db_runs d7))" "retry \<in> set (db_runs d7)"
    using store_invPD(8) [OF inv7] A(1) unfolding run_created_def by simp_all
  then show "row_by run_id (run_id (rt_run res)) (db_runs d') = Some (rt_run res)"
    using row_by_eqI [of run_id "db_runs d7" retry] by (simp add: d' res)
  show "db_retries d' = db_retries d @ [\<lparr>rr_source = run_id source, rr_key = key,
       rr_retry = run_id (rt_run res), rr_actor = actor\<rparr>]"
    using A(2,3) ev(1) snapshot_frame(6) [OF d5] d4' R(8) K by (simp add: d' res)
  show "(run_id source, key) \<notin> (\<lambda>x. (rr_source x, rr_key x)) ` set (db_retries d)"
    using new R(8) K by simp
  have "\<forall>r \<in> set (db_runs d2). run_job r \<noteq> run_job run" using R(14,21) by simp
  moreover have "db_runs d' = db_runs d7" "db_reservations d' = db_reservations d7"
    "db_limits d' = db_limits d7" by (simp_all add: d')
  ultimately show "\<exists>d2 d5 d7 run repo ok. same_core d d2 \<and> run_inserted d2 d5 run
       \<and> (\<forall>r \<in> set (db_runs d2). run_job r \<noteq> run_job run)
       \<and> admitRunUsage e d5 tenantID repo run = Inr (d7, rt_run res, ok) \<and> db_runs d' = db_runs d7
       \<and> db_reservations d' = db_reservations d7 \<and> db_limits d' = db_limits d7"
    using core ins d7 res by (metis RunRetryResult.select_convs(1))
qed


lemma load_run_SomeD:
  assumes "load_run d i t = Some r"
  shows "r \<in> set (db_runs d)" "run_id r = i" "run_request r \<in> set (map req_id (db_requests d))"
  using assms by (force simp: load_run_def dest!: row_by_SomeD split: option.splits if_splits)+

lemma RequestRunRetry_cases:
  assumes "RequestRunRetry e d actor slug runID input = Inr (d', res)"
  obtains (replay) key where "replayed_run d runID key = Some (rt_run res)" "d' = d"
      "rt_replayed res" "NormalizeRunRetryInput input = Some \<lparr>ExpectedRevision = ExpectedRevision input, IdempotencyKey = key\<rparr>"
  | (new) source tenantID job key where "create_retry e d actor tenantID source job key = Inr (d', res)"
      "load_run d runID tenantID = Some source" "needs_operator (run_state source)"
      "int (run_revision source) = ExpectedRevision input"
      "NormalizeRunRetryInput input = Some \<lparr>ExpectedRevision = ExpectedRevision input, IdempotencyKey = key\<rparr>"
      "\<forall>r \<in> set (db_runs d). run_request r = run_request source \<longrightarrow> run_state r \<notin> active_states"
proof -
  obtain inp where inp: "NormalizeRunRetryInput input = Some inp"
    using assms by (auto simp: RequestRunRetry_def split: option.splits)
  then have norm: "inp = \<lparr>ExpectedRevision = ExpectedRevision input, IdempotencyKey = IdempotencyKey inp\<rparr>"
    by (cases input; cases inp) (auto simp: NormalizeRunRetryInput_def Let_def split: if_splits)
  obtain tenantID role where auth: "authorizedTenantTx d actor slug = Inr (tenantID, role)"
    using assms inp by (auto simp: RequestRunRetry_def bind_r_Inr_iff split: if_splits)
  obtain source where src: "load_run d runID tenantID = Some source"
    using assms inp auth by (auto simp: RequestRunRetry_def split: if_splits option.splits)
  have id: "run_id source = runID" using load_run_SomeD [OF src] by simp
  show thesis
  proof (cases "replayed_run d runID (IdempotencyKey inp)")
    case (Some r)
    then have "d' = d" "res = \<lparr>rt_run = r, rt_replayed = True\<rparr>"
      using assms inp auth src id by (auto simp: RequestRunRetry_def split: if_splits)
    then show thesis using replay [of "IdempotencyKey inp"] Some inp norm by simp
  next
    case None
    then obtain job where "create_retry e d actor tenantID source job (IdempotencyKey inp) = Inr (d', res)"
      "needs_operator (run_state source)" "int (run_revision source) = ExpectedRevision inp"
      "\<forall>r \<in> set (db_runs d). run_request r = run_request source \<longrightarrow> run_state r \<notin> active_states"
      using assms inp auth src id
      by (auto simp: RequestRunRetry_def needs_operator_def split: if_splits option.splits)
    then show thesis using new [of tenantID source job "IdempotencyKey inp"] src inp norm by (metis RunRetryInput.simps(1))
  qed
qed

lemma RequestRunRetry_inv:
  assumes "store_inv d" "RequestRunRetry e d actor slug runID input = Inr (d', res)"
  shows "store_inv d'"
  using assms(2)
proof (cases rule: RequestRunRetry_cases)
  case replay
  then show ?thesis using assms(1) by simp
next
  case (new source tenantID job key)
  then show ?thesis using create_retry_inv(1) [OF assms(1)] load_run_SomeD(3) by blast
qed

lemma RequestRunCancellation_cancels:
  assumes "RequestRunCancellation e d actor slug i n = Inr (d', run')"
  obtains run where "run \<in> set (db_runs d)" "run_id run = i" "\<not> Terminal (run_state run)"
    "int (run_revision run) = n"
    "cancelRun e d run ''user'' actor [(''source'', PStr ''task_api'')] = Inr (d', run')"
  using assms
  by (auto simp: RequestRunCancellation_def bind_r_Inr_iff dest: load_run_SomeD
      split: if_splits option.splits)

lemma ReleaseAcknowledgedRun_inv:
  assumes "store_inv d" "ReleaseAcknowledgedRun d i = Inr d'"
  shows "store_inv d'"
proof -
  have "d' = d \<or> (\<exists>t k p. d' = insertOutbox d i t k p)"
    using assms(2) by (auto simp: ReleaseAcknowledgedRun_def split: option.splits if_splits)
  then show ?thesis
  proof
    assume "\<exists>t k p. d' = insertOutbox d i t k p"
    then obtain t k p where "d' = insertOutbox d i t k p" by blast
    then show ?thesis
      using store_invPD(6,7) [OF assms(1)] by (intro inv_frame [OF assms(1)]) (auto simp: task_inv_def)
  qed (use assms(1) in simp)
qed

lemma ClaimReviewIntervention_Inr:
  assumes "ClaimReviewIntervention e d actor slug i n = Inr (d', v')"
  obtains t p f where "d' = audit (update_interventions d p f) t actor ''review_intervention.claimed''
      (PUuid (in_id v')) [(''run_id'', PUuid i)]" "\<And>v. in_run (f v) = in_run v"
  using assms
  by (auto simp: ClaimReviewIntervention_def bind_r_Inr_iff Let_def split: if_splits option.splits)

lemma ResolveReviewIntervention_Inr:
  assumes "ResolveReviewIntervention e d actor slug i input = Inr (d', v')"
  obtains t p f m where "d' = audit (update_interventions d p f) t actor
      ''review_intervention.acknowledged'' (PUuid (in_id v')) m" "\<And>v. in_run (f v) = in_run v"
  using assms
  by (auto simp: ResolveReviewIntervention_def bind_r_Inr_iff Let_def split: if_splits option.splits)

lemma update_interventions_inv:
  assumes "store_inv d" "\<And>v. in_run (f v) = in_run v"
  shows "store_inv (audit (update_interventions d p f) t a b g m)"
  by (rule store_inv_tasks [OF assms(1)])
    (simp_all add: update_interventions_def map_update_where_key assms(2))

section \<open>The machine\<close>

text \<open>A step is a committed transaction of this store, or a change of the tables that other
  components own. A rolled-back transaction is no step.\<close>

inductive store_step :: "db \<Rightarrow> db \<Rightarrow> bool" where
  create: "createWorkflowRun e d inst jobID event = Inr (d', a) \<Longrightarrow> store_step d d'"
| comment: "q \<in> set (map req_id (db_requests d)) \<Longrightarrow>
    createCommentRun e d q current inst event t m sel i = Inr (d', run) \<Longrightarrow> store_step d d'"
| resolved_by_comment: "store_step d (resolveReviewInterventionForRetry e d t s r a)"
| cancel_command: "run \<in> set (db_runs d) \<Longrightarrow> \<not> Terminal (run_state run) \<Longrightarrow>
    cancelRun e d run k s p = Inr (d', run') \<Longrightarrow> store_step d d'"
| cancel: "RequestRunCancellation e d actor slug i n = Inr (d', run) \<Longrightarrow> store_step d d'"
| retry: "RequestRunRetry e d actor slug i input = Inr (d', res) \<Longrightarrow> store_step d d'"
| advance: "AdvanceLegacyRun e d jobID next = Inr (d', run) \<Longrightarrow> store_step d d'"
| advance_run: "AdvanceRun e d i next = Inr (d', run) \<Longrightarrow> store_step d d'"
| release: "ReleaseAcknowledgedRun d i = Inr d' \<Longrightarrow> store_step d d'"
| claim: "ClaimReviewIntervention e d actor slug i n = Inr (d', v) \<Longrightarrow> store_step d d'"
| resolve: "ResolveReviewIntervention e d actor slug i inp = Inr (d', v) \<Longrightarrow> store_step d d'"
| elsewhere: "db_next d \<le> n \<Longrightarrow> store_step d (d\<lparr>db_next := n, db_jobs := jobs, db_members := members,
    db_installations := insts, db_limits := limits, db_checkpoints := cps, db_deliveries := dels\<rparr>)"

definition store_empty :: "db \<Rightarrow> bool" where
  "store_empty d \<longleftrightarrow> db_runs d = [] \<and> db_requests d = [] \<and> db_events d = [] \<and> db_reservations d = []
     \<and> db_interventions d = [] \<and> db_outbox d = [] \<and> db_retries d = []"

inductive store_reach :: "db \<Rightarrow> bool" where
  start: "store_empty d \<Longrightarrow> store_reach d"
| step: "store_reach d \<Longrightarrow> store_step d d' \<Longrightarrow> store_reach d'"

lemma AdvanceRun_legacy:
  assumes "AdvanceRun e d i next = Inr x"
  obtains jobID where "AdvanceLegacyRun e d jobID next = Inr x"
  using assms by (auto simp: AdvanceRun_def split: option.splits)

lemma store_step_inv: "store_step d d' \<Longrightarrow> store_inv d \<Longrightarrow> store_inv d'"
proof (induction rule: store_step.induct)
  case (create e d inst jobID event d' a)
  then show ?case by (rule createWorkflowRun_inv [rotated])
next
  case (comment q d e current inst event t m sel i d' run)
  then show ?case using createCommentRun_inv by blast
next
  case (resolved_by_comment d e t s r a)
  then show ?case by (rule store_inv_tasks) simp_all
next
  case (cancel_command run d e k s p d' run')
  then show ?case using cancelRun_inv by blast
next
  case (cancel e d actor slug i n d' run)
  then show ?case by (elim RequestRunCancellation_cancels) (rule cancelRun_inv)
next
  case (retry e d actor slug i input d' res)
  then show ?case using RequestRunRetry_inv by blast
next
  case (advance e d jobID nxt d' run)
  then show ?case using AdvanceLegacyRun_inv by blast
next
  case (advance_run e d i nxt d' run)
  then show ?case by (elim AdvanceRun_legacy) (rule AdvanceLegacyRun_inv)
next
  case (release d i d')
  then show ?case using ReleaseAcknowledgedRun_inv by blast
next
  case (claim e d actor slug i n d' v)
  then show ?case by (elim ClaimReviewIntervention_Inr) (simp add: update_interventions_inv)
next
  case (resolve e d actor slug i inp d' v)
  then show ?case by (elim ResolveReviewIntervention_Inr) (simp add: update_interventions_inv)
next
  case (elsewhere d n jobs members insts limits cps dels)
  then show ?case
    using store_invPD(6) by (intro inv_frame [OF elsewhere(2)]) (auto simp: task_inv_def)
qed

lemma store_empty_inv: "store_empty d \<Longrightarrow> store_inv d"
  by (simp add: store_empty_def store_invP_def ids_inv_def active_inv_def finish_inv_def ev_inv_def
      us_inv_def task_inv_def)

lemma store_reach_inv: "store_reach d \<Longrightarrow> store_inv d"
  by (induction rule: store_reach.induct) (auto intro: store_empty_inv store_step_inv)


end
