(* ===== verification/Workflow_Safety.thy ===== *)
theory Workflow_Safety
  imports Workflow_Steps
begin

text \<open>
  How the rows of \<open>review_runs\<close> evolve under the steps of the workflow store, and the
  properties of the store: revisions and terminal states, the event log, the one active run of a
  request, usage, operator tasks, replayed retries, fenced cancellations.
\<close>

section \<open>Evolution of the run table\<close>

definition evolves :: "ReviewRun \<Rightarrow> ReviewRun \<Rightarrow> bool" where
  "evolves r r' \<longleftrightarrow> r' = r \<or>
     run_id r' = run_id r \<and> run_request r' = run_request r \<and> run_job r' = run_job r
     \<and> run_head r' = run_head r \<and> run_base r' = run_base r \<and> run_mode r' = run_mode r
     \<and> run_snapshot r' = run_snapshot r
     \<and> run_revision r' = Suc (run_revision r) \<and> \<not> Terminal (run_state r)
     \<and> (CanTransitionTo (run_state r) (run_state r') \<or> run_state r' = RunCancelled
         \<or> run_state r' = RunSuperseded)"

definition runs_evolve :: "ReviewRun list \<Rightarrow> ReviewRun list \<Rightarrow> bool" where
  "runs_evolve runs runs' \<longleftrightarrow> (\<exists>g new. runs' = map g runs @ new \<and> (\<forall>r \<in> set runs. evolves r (g r))
     \<and> length new \<le> 1
     \<and> (\<forall>n \<in> set new. run_id n \<notin> run_id ` set runs \<and> (\<forall>r \<in> set runs. run_job r \<noteq> run_job n)
         \<and> (run_state n = RunAcknowledged \<and> run_revision n = 1
            \<or> run_state n = RunFailed \<and> run_failure_code n = Some ''quota_exceeded''
              \<and> run_revision n = 2)))"

lemma evolves_refl [simp]: "evolves r r"
  by (simp add: evolves_def)

lemma runs_evolve_map: "(\<And>r. r \<in> set runs \<Longrightarrow> evolves r (g r)) \<Longrightarrow> runs_evolve runs (map g runs)"
  unfolding runs_evolve_def by (rule exI [of _ g], rule exI [of _ "[]"]) simp

lemma runs_evolve_same [simp]: "runs_evolve runs runs"
  using runs_evolve_map [of runs id] by simp

lemma runs_evolve_set_run:
  assumes "distinct (map run_id runs)" "r0 \<in> set runs" "evolves r0 (f r0)"
  shows "runs_evolve runs (set_run (run_id r0) f runs)"
  unfolding set_run_def update_where_def
  using distinct_key_eq [OF assms(1) _ assms(2)] assms(3) by (intro runs_evolve_map) auto

lemma admit_run:
  assumes "admitRunUsage e d t repo run = Inr (d', run', ok)"
  shows "run' = run \<or> run' = quota_reject e run run"
  using assms
  by (auto simp: admitRunUsage_def quota_reject_def bind_r_Inr_iff Let_def split: sum.splits if_splits)

lemma runs_evolve_created:
  assumes "run_created d d' run'" "run_state run = RunAcknowledged" "run_revision run = 1"
    "\<forall>r \<in> set (db_runs d). run_job r \<noteq> run_job run" "store_invP P d"
    "run' = run \<or> run' = quota_reject e run run"
  shows "runs_evolve (db_runs d) (db_runs d')"
proof -
  have new: "run_id run' \<notin> run_id ` set (db_runs d)"
    using store_invPD(1) [OF assms(5)] assms(1) unfolding ids_inv_def run_created_def
    by (auto simp: not_less [symmetric])
  have "run_job run' = run_job run" "run_state run' = RunAcknowledged \<and> run_revision run' = 1
      \<or> run_state run' = RunFailed \<and> run_failure_code run' = Some ''quota_exceeded''
        \<and> run_revision run' = 2"
    using assms(2,3,6) by (auto simp: quota_reject_def)
  then show ?thesis
    unfolding runs_evolve_def using assms(1,4) new
    by (intro exI [of _ id] exI [of _ "[run']"]) (simp add: run_created_def)
qed

lemma runs_evolve_trans_map:
  assumes "runs_evolve (map f runs) runs'" "\<And>r. run_id (f r) = run_id r" "\<And>r. run_job (f r) = run_job r"
    and "\<And>r r'. r \<in> set runs \<Longrightarrow> evolves (f r) r' \<Longrightarrow> evolves r r'"
  shows "runs_evolve runs runs'"
proof -
  obtain g new where g: "runs' = map g (map f runs) @ new" "\<forall>r \<in> set (map f runs). evolves r (g r)"
    "length new \<le> 1" "\<forall>n \<in> set new. run_id n \<notin> run_id ` set (map f runs)
       \<and> (\<forall>r \<in> set (map f runs). run_job r \<noteq> run_job n)
       \<and> (run_state n = RunAcknowledged \<and> run_revision n = 1 \<or> run_state n = RunFailed
          \<and> run_failure_code n = Some ''quota_exceeded'' \<and> run_revision n = 2)"
    using assms(1) unfolding runs_evolve_def by blast
  then show ?thesis
    unfolding runs_evolve_def using assms(2-4)
    by (intro exI [of _ "g \<circ> f"] exI [of _ new]) (auto simp: image_image)
qed

text \<open>Linking only records the successor of the runs on the list.\<close>

lemma link_stale_runs:
  assumes "link_stale e runID h ps d = Inr d'"
  shows "db_runs d' = map (\<lambda>r. if run_id r \<in> fst ` set ps then r\<lparr>run_superseded_by := Some runID\<rparr> else r)
     (db_runs d)"
  using assms
proof (induction ps arbitrary: d)
  case Nil
  then show ?case by simp
next
  case (Cons p ps)
  obtain i n where p: "p = (i, n)" by (cases p)
  from Cons.prems p obtain d1 d2 where
    d1: "appendRunEvent d i n ''run.superseded'' ''provider'' ''''
         [(''replacement_run_id'', PUuid runID), (''replacement_head_sha'', PStr h)] = Inr d1"
    and rest: "link_stale e runID h ps d2 = Inr d'"
    and d2: "db_runs d2 = set_run i (\<lambda>r. r\<lparr>run_superseded_by := Some runID\<rparr>) (db_runs d1)"
    by (auto simp: bind_r_Inr_iff Let_def)
  have "db_runs d1 = db_runs d" using d1 by (auto elim: appendRunEvent_Inr)
  then show ?case
    using Cons.IH [OF rest] d2 p by (auto simp: set_run_def update_where_def)
qed

lemma supersede_evolves: "stale_run q h r \<Longrightarrow> evolves r (supersede e r)"
  by (simp add: evolves_def supersede_def stale_run_def active_iff_not_Terminal)

lemma evolves_superseded_by:
  "evolves r (supersede e r) \<Longrightarrow> run_state r \<in> active_states \<Longrightarrow>
   evolves r ((supersede e r)\<lparr>run_superseded_by := x\<rparr>)"
  by (simp add: evolves_def supersede_def active_iff_not_Terminal)

lemma create_event_run_runs:
  assumes inv: "store_inv d" and sup: "supersede_stale e d q h = (d2, ps)"
    and q: "q \<in> set (map req_id (db_requests d))"
    and cr: "create_event_run e d2 inst jobID event q ps t k sc m = Inr (d', runID)"
  shows "runs_evolve (db_runs d) (db_runs d')"
proof -
  note S = supersede_stale_inv [OF inv sup]
  let ?s = "\<lambda>r. if stale_run q h r then supersede e r else r"
  let ?l = "\<lambda>r. if run_id r \<in> fst ` set ps then r\<lparr>run_superseded_by := Some runID\<rparr> else r"
  have d2: "db_runs d2 = map ?s (db_runs d)" "db_requests d2 = db_requests d" "db_next d2 = db_next d"
    and ps: "ps = map (\<lambda>r. (run_id r, Suc (run_revision r))) (filter (stale_run q h) (db_runs d))"
    using sup by (auto simp: supersede_stale_def update_where_def)
  from q have q2: "q \<in> set (map req_id (db_requests d2))" using d2(2) by simp
  obtain d5 run d6 run' ok where ins: "run_inserted d2 d5 run"
    and job: "\<forall>r \<in> set (db_runs d2). run_job r \<noteq> run_job run" and id: "run_id run = runID"
    and d6: "admitRunUsage e d5 (ins_tenant inst) (ie_repository event) run = Inr (d6, run', ok)"
    and d': "link_stale e runID (ie_head_sha event) ps d6 = Inr d'"
    using create_event_run_inserts [OF q2 cr] by metis
  note A = admit_created(1,2) [OF S(1) ins d6]
  have six: "db_runs d6 = db_runs d2 @ [run']" "db_next d2 \<le> run_id run'"
    using A(1) unfolding run_created_def by blast+
  have "runs_evolve (db_runs d2) (db_runs d6)"
    using runs_evolve_created [OF A(1) _ _ job S(1) admit_run [OF d6]] ins
    unfolding run_inserted_def by blast
  then have new: "(\<forall>r \<in> set (db_runs d2). run_job r \<noteq> run_job run') \<and> run_id run' \<notin> run_id ` set (db_runs d2)
     \<and> (run_state run' = RunAcknowledged \<and> run_revision run' = 1 \<or> run_state run' = RunFailed
          \<and> run_failure_code run' = Some ''quota_exceeded'' \<and> run_revision run' = 2)"
    unfolding runs_evolve_def six(1) by auto
  have fixed: "run_id run' \<notin> fst ` set ps" using S(3) six(2) by auto
  have rows: "db_runs d' = map (?l \<circ> ?s) (db_runs d) @ [run']"
    using link_stale_runs [OF d'] six(1) d2(1) fixed id by simp
  have ev: "evolves r ((?l \<circ> ?s) r)" if r: "r \<in> set (db_runs d)" for r
  proof (cases "stale_run q h r")
    case True
    then show ?thesis
      using supersede_evolves [OF True, of e] evolves_superseded_by [of r e]
      by (simp add: stale_run_def)
  next
    case False
    have "\<not> (\<exists>x \<in> set (db_runs d). stale_run q h x \<and> run_id x = run_id r)"
      using r False distinct_key_eq [OF store_invPD(8) [OF inv]] by metis
    then have "run_id r \<notin> fst ` set ps" unfolding ps by auto
    then show ?thesis using False by simp
  qed
  have old: "run_job r \<noteq> run_job run'" "run_id r \<noteq> run_id run'" if "r \<in> set (db_runs d)" for r
  proof -
    have "?s r \<in> set (db_runs d2)" unfolding d2(1) set_map using that by (rule imageI)
    then have "run_job (?s r) \<noteq> run_job run'" "run_id (?s r) \<noteq> run_id run'"
      using new by (blast, metis image_eqI)
    then show "run_job r \<noteq> run_job run'" "run_id r \<noteq> run_id run'" by (simp_all split: if_splits)
  qed
  have notin: "run_id run' \<notin> run_id ` set (db_runs d)" using old(2) by (metis imageE)
  show ?thesis
    unfolding runs_evolve_def
  proof (intro exI [of _ "?l \<circ> ?s"] exI [of _ "[run']"] conjI)
    show "db_runs d' = map (?l \<circ> ?s) (db_runs d) @ [run']" by (fact rows)
    show "\<forall>r \<in> set (db_runs d). evolves r ((?l \<circ> ?s) r)" using ev by blast
  qed (use old(1) notin new in simp_all)
qed

lemma createWorkflowRun_runs:
  assumes inv: "store_inv d" and cr: "createWorkflowRun e d inst jobID event = Inr (d', a)"
  shows "runs_evolve (db_runs d) (db_runs d')"
proof -
  from cr obtain d1 q where d1: "upsert_request d inst event = Inr (d1, q)"
    by (auto simp: createWorkflowRun_def bind_r_Inr_iff Let_def)
  obtain d2 ps where d2: "supersede_stale e d1 q (ie_head_sha event) = (d2, ps)" by fastforce
  note U = upsert_request_Inr [OF d1]
  have inv1: "store_inv d1" using upsert_request_inv [OF inv d1] .
  let ?p = "\<lambda>r. run_request r = q \<and> run_head r = ie_head_sha event \<and> run_state r \<in> active_states"
  show ?thesis
  proof (cases "find ?p (db_runs d2)")
    case None
    with cr d1 d2 obtain t k sc m i where
      "create_event_run e d2 inst jobID event q ps t k sc m = Inr (d', i)"
      by (auto simp: createWorkflowRun_def bind_r_Inr_iff Let_def)
    then show ?thesis using create_event_run_runs [OF inv1 d2 U(10)] U(1) by simp
  next
    case (Some r)
    then obtain p f where "d' = update_job d2 p f"
      using cr d1 d2 by (auto simp: createWorkflowRun_def bind_r_Inr_iff Let_def)
    then have "db_runs d' = update_where (stale_run q (ie_head_sha event)) (supersede e) (db_runs d)"
      using d2 U(1) by (auto simp: supersede_stale_def)
    then show ?thesis
      by (simp add: update_where_def runs_evolve_map supersede_evolves)
  qed
qed

lemma created_by_insert:
  assumes inv: "store_inv d" and core: "same_core d d2" and ins: "run_inserted d2 d5 run"
    and job: "\<forall>r \<in> set (db_runs d2). run_job r \<noteq> run_job run"
    and adm: "admitRunUsage e d5 t repo run = Inr (d6, run', ok)"
  shows "runs_evolve (db_runs d) (db_runs d6)"
proof -
  have inv2: "store_inv d2" using same_core_inv [OF inv core] .
  have "runs_evolve (db_runs d2) (db_runs d6)"
    using runs_evolve_created [OF admit_created(1) [OF inv2 ins adm] _ _ job inv2 admit_run [OF adm]]
      ins unfolding run_inserted_def by blast
  then show ?thesis using core unfolding same_core_def by simp
qed


lemma cancelRun_runs:
  assumes "store_inv d" "run \<in> set (db_runs d)" "\<not> Terminal (run_state run)"
    and "cancelRun e d run k s p = Inr (d', run')"
  shows "runs_evolve (db_runs d) (db_runs d')"
proof -
  let ?f = "\<lambda>r. r\<lparr>run_state := RunCancelled, run_cancel_at := Some (env_now e),
       run_revision := Suc (run_revision run), run_finished := Some (env_now e)\<rparr>"
  have "db_runs d' = set_run (run_id run) ?f (db_runs d)"
    using assms(4) unfolding cancelRun_def Let_def bind_r_Inr_iff
    by (auto split: option.splits elim!: appendRunEvent_Inr)
  moreover have "evolves run (?f run)" using assms(3) by (simp add: evolves_def)
  ultimately show ?thesis
    using runs_evolve_set_run [OF store_invPD(8) [OF assms(1)] assms(2)] by metis
qed

lemma AdvanceLegacyRun_runs:
  assumes inv: "store_inv d" and adv: "AdvanceLegacyRun e d jobID nxt = Inr (d', run')"
  shows "runs_evolve (db_runs d) (db_runs d')"
  using adv
proof (cases rule: AdvanceLegacyRun_cases)
  case noop
  then show ?thesis by simp
next
  case (step run t)
  then have run: "run \<in> set (db_runs d)" "\<not> Terminal (run_state run)"
    by (auto dest: row_by_SomeD CanTransitionTo_not_Terminal)
  have "evolves run (advance_update e run t run)"
    using run(2) step(3) by (simp add: evolves_def advance_update_def)
  then show ?thesis
    using commit_transition_changed(1) [OF step(4)]
      runs_evolve_set_run [OF store_invPD(8) [OF inv] run(1)] unfolding run_changed_def by metis
qed

lemma store_step_runs: "store_step d d' \<Longrightarrow> store_inv d \<Longrightarrow> runs_evolve (db_runs d) (db_runs d')"
proof (induction rule: store_step.induct)
  case (create e d inst jobID event d' a)
  then show ?case using createWorkflowRun_runs by blast
next
  case (comment q d e current inst event t m sel i d' run)
  from comment(1,2) show ?case
    by (rule createCommentRun_inserts) (rule created_by_insert [OF comment(3)])
next
  case (resolved_by_comment d e t s r a)
  then show ?case by simp
next
  case (cancel_command run d e k s p d' run')
  then show ?case using cancelRun_runs by blast
next
  case (cancel e d actor slug i n d' run)
  then show ?case by (elim RequestRunCancellation_cancels) (rule cancelRun_runs)
next
  case (retry e d actor slug i input d' res)
  from retry(1) show ?case
  proof (cases rule: RequestRunRetry_cases)
    case replay
    then show ?thesis by simp
  next
    case (new source tenantID job key)
    from create_retry_inv(6) [OF retry(2) load_run_SomeD(3) [OF new(2)] new(1)]
    show ?thesis using created_by_insert [OF retry(2)] by metis
  qed
next
  case (advance e d jobID nxt d' run)
  then show ?case using AdvanceLegacyRun_runs by blast
next
  case (advance_run e d i nxt d' run)
  then show ?case by (elim AdvanceRun_legacy) (rule AdvanceLegacyRun_runs)
next
  case (release d i d')
  then show ?case by (auto simp: ReleaseAcknowledgedRun_def split: option.splits if_splits)
next
  case (claim e d actor slug i n d' v)
  then show ?case by (elim ClaimReviewIntervention_Inr) (simp add: update_interventions_def)
next
  case (resolve e d actor slug i inp d' v)
  then show ?case by (elim ResolveReviewIntervention_Inr) (simp add: update_interventions_def)
next
  case (elsewhere d n jobs members insts limits cps dels)
  then show ?case by simp
qed

lemma runs_evolveE:
  assumes "runs_evolve runs runs'" "r \<in> set runs"
  obtains r' where "r' \<in> set runs'" "evolves r r'"
proof -
  obtain g new where "runs' = map g runs @ new" "\<forall>r \<in> set runs. evolves r (g r)"
    using assms(1) unfolding runs_evolve_def by blast
  then show thesis using that [of "g r"] assms(2) by simp
qed

text \<open>Terminal rows survive any number of steps.\<close>

lemma terminal_rows_kept:
  assumes "store_step\<^sup>*\<^sup>* d d'" "store_inv d" "r \<in> set (db_runs d)" "Terminal (run_state r)"
  shows "r \<in> set (db_runs d') \<and> store_inv d'"
  using assms
proof (induction rule: rtranclp_induct)
  case base
  then show ?case by simp
next
  case (step y z)
  then have y: "r \<in> set (db_runs y)" "store_inv y" by blast+
  obtain r' where "r' \<in> set (db_runs z)" "evolves r r'"
    using store_step_runs [OF step(2) y(2)] y(1) by (rule runs_evolveE)
  then show ?case using step.prems(3) store_step_inv [OF step(2) y(2)] by (simp add: evolves_def)
qed

text \<open>A job is executed by one run.\<close>

definition jobs_inv :: "ReviewRun list \<Rightarrow> bool" where
  "jobs_inv runs \<longleftrightarrow> (\<forall>r \<in> set runs. \<forall>r' \<in> set runs.
     run_job r = run_job r' \<and> run_job r \<noteq> None \<longrightarrow> run_id r = run_id r')"

lemma runs_evolve_jobs:
  assumes "runs_evolve runs runs'" "jobs_inv runs"
  shows "jobs_inv runs'"
proof -
  obtain g new where g: "runs' = map g runs @ new" "\<forall>r \<in> set runs. evolves r (g r)" "length new \<le> 1"
    "\<forall>n \<in> set new. \<forall>r \<in> set runs. run_job r \<noteq> run_job n"
    using assms(1) unfolding runs_evolve_def by blast
  have same: "run_job (g r) = run_job r \<and> run_id (g r) = run_id r" if "r \<in> set runs" for r
    using g(2) that unfolding evolves_def by auto
  have one: "n = n'" if "n \<in> set new" "n' \<in> set new" for n n'
    using g(3) that by (cases new rule: list.exhaust) auto
  show ?thesis
    unfolding jobs_inv_def g(1)
  proof (intro ballI impI)
    fix r r'
    assume "r \<in> set (map g runs @ new)" "r' \<in> set (map g runs @ new)"
      and eq: "run_job r = run_job r' \<and> run_job r \<noteq> None"
    then consider x x' where "x \<in> set runs" "x' \<in> set runs" "r = g x" "r' = g x'"
      | x where "x \<in> set runs" "r = g x" "r' \<in> set new"
      | x' where "x' \<in> set runs" "r' = g x'" "r \<in> set new"
      | "r \<in> set new" "r' \<in> set new" by auto
    then show "run_id r = run_id r'"
    proof cases
      case 1
      then have "run_job x = run_job x'" "run_job x \<noteq> None" using same eq by metis+
      then have "run_id x = run_id x'" using assms(2) 1(1,2) unfolding jobs_inv_def by blast
      then show ?thesis using same 1 by simp
    next
      case 2
      then show ?thesis using g(4) same eq by metis
    next
      case 3
      then show ?thesis using g(4) same eq by metis
    next
      case 4
      then show ?thesis using one by metis
    qed
  qed
qed

lemma store_reach_jobs: "store_reach d \<Longrightarrow> jobs_inv (db_runs d)"
proof (induction rule: store_reach.induct)
  case (start d)
  then show ?case by (simp add: store_empty_def jobs_inv_def)
next
  case (step d d')
  then show ?case using runs_evolve_jobs store_step_runs store_reach_inv by blast
qed


section \<open>Usage stays within the hard limit\<close>

definition committed_rows :: "uuid \<Rightarrow> int \<Rightarrow> UsageReservation list \<Rightarrow> nat" where
  "committed_rows t p res =
     sum_list (map (\<lambda>u. if ur_state u = ''reserved'' then ur_reserved u
                        else if ur_state u = ''settled'' then ur_settled u else 0)
       (filter (\<lambda>u. ur_tenant u = t \<and> ur_period u = p) res))"

lemma committed_usage_rows: "committed_usage d t p = committed_rows t p (db_reservations d)"
  by (simp add: committed_usage_def committed_rows_def)

lemma committed_close: "committed_rows t p (close_reservation i c now res) \<le> committed_rows t p res"
  by (induction res) (auto simp: committed_rows_def close_reservation_def)

definition quota_ok :: "db \<Rightarrow> bool" where
  "quota_ok d \<longleftrightarrow> (\<forall>t p. 0 < hard_limit d t \<longrightarrow> committed_usage d t p \<le> hard_limit d t)"

lemma quota_mono:
  assumes "quota_ok d" "db_limits d' = db_limits d"
    "\<And>t p. committed_rows t p (db_reservations d') \<le> committed_rows t p (db_reservations d)"
  shows "quota_ok d'"
  using assms unfolding quota_ok_def committed_usage_rows hard_limit_def
  by (metis (no_types, lifting) order_trans)

lemma admit_quota:
  assumes "quota_ok d" "admitRunUsage e d t repo run = Inr (d', run', ok)"
    "run_id run \<notin> ur_run ` set (db_reservations d)"
  shows "quota_ok d'"
proof (cases "reserveReviewUsage e d t (run_id run) repo")
  case (Inr x)
  then have "d' = x" using assms(2) by (auto simp: admitRunUsage_def)
  moreover from Inr assms(3) have "quota_ok x"
  proof (rule reserve_Inr)
    fix u
    assume u: "db_reservations x = db_reservations d @ [u]" "ur_reserved u = 1"
      "ur_state u = ''reserved''" "ur_tenant u = t" "ur_period u = env_period e"
      "hard_limit d t > 0 \<longrightarrow> committed_usage d t (env_period e) < hard_limit d t"
      "db_limits x = db_limits d"
    have "committed_usage x t' p = committed_usage d t' p + (if t' = t \<and> p = env_period e then 1 else 0)"
      for t' p using u by (simp add: committed_usage_rows committed_rows_def)
    moreover have "hard_limit x t' = hard_limit d t'" for t' using u(7) by (simp add: hard_limit_def)
    ultimately show ?thesis using assms(1) u(6) unfolding quota_ok_def by (simp add: Suc_le_eq)
  qed
  ultimately show ?thesis by simp
next
  case (Inl err)
  from assms(2) Inl show ?thesis
    by (rule admit_rejected) (rule quota_mono [OF assms(1)], simp_all)
qed

lemma link_stale_quota:
  "link_stale e runID h ps d = Inr d' \<Longrightarrow> quota_ok d \<Longrightarrow> quota_ok d'"
proof (induction ps arbitrary: d)
  case Nil
  then show ?case by simp
next
  case (Cons p ps)
  obtain i n where p: "p = (i, n)" by (cases p)
  from Cons.prems p obtain d1 d2 where
    d1: "appendRunEvent d i n ''run.superseded'' ''provider'' ''''
         [(''replacement_run_id'', PUuid runID), (''replacement_head_sha'', PStr h)] = Inr d1"
    and rest: "link_stale e runID h ps d2 = Inr d'"
    and d2: "db_reservations d2 = close_reservation i False (env_now e) (db_reservations d1)"
      "db_limits d2 = db_limits d1"
    by (auto simp: bind_r_Inr_iff Let_def)
  have "db_reservations d1 = db_reservations d" "db_limits d1 = db_limits d"
    using d1 by (auto elim: appendRunEvent_Inr)
  then have "quota_ok d2"
    using quota_mono [OF Cons.prems(2)] d2 committed_close by simp
  then show ?case using Cons.IH [OF rest] by blast
qed

lemma run_changed_quota: "run_changed e d d' r f \<Longrightarrow> quota_ok d \<Longrightarrow> quota_ok d'"
  by (erule quota_mono) (auto simp: run_changed_def committed_close)

lemma inserted_quota:
  assumes "store_invP P d" "quota_ok d" "run_inserted d d5 run"
    and "admitRunUsage e d5 t repo run = Inr (d6, run', ok)"
  shows "quota_ok d6"
proof -
  have "quota_ok d5" by (rule quota_mono [OF assms(2)]) (use assms(3) in \<open>simp_all add: run_inserted_def\<close>)
  moreover have "run_id run \<notin> ur_run ` set (db_reservations d5)"
    using store_invPD(5) [OF assms(1)] assms(3)
    unfolding us_inv_def reservation_ok_def run_inserted_def by (auto simp: not_less [symmetric])
  ultimately show ?thesis using admit_quota [OF _ assms(4)] by blast
qed

lemma same_core_quota: "same_core d d' \<Longrightarrow> quota_ok d \<Longrightarrow> quota_ok d'"
  by (erule quota_mono) (simp_all add: same_core_def)

lemma createWorkflowRun_quota:
  assumes inv: "store_inv d" and quota: "quota_ok d"
    and cr: "createWorkflowRun e d inst jobID event = Inr (d', a)"
  shows "quota_ok d'"
proof -
  from cr obtain d1 q where d1: "upsert_request d inst event = Inr (d1, q)"
    by (auto simp: createWorkflowRun_def bind_r_Inr_iff Let_def)
  obtain d2 ps where d2: "supersede_stale e d1 q (ie_head_sha event) = (d2, ps)" by fastforce
  note U = upsert_request_Inr [OF d1]
  have inv1: "store_inv d1" using upsert_request_inv [OF inv d1] .
  have frame: "db_reservations d2 = db_reservations d" "db_limits d2 = db_limits d"
    "db_requests d2 = db_requests d1" using U(3,6) d2 by (auto simp: supersede_stale_def)
  then have quota2: "quota_ok d2" using quota_mono [OF quota] by simp
  have q2: "q \<in> set (map req_id (db_requests d2))" using U(10) frame(3) by simp
  let ?p = "\<lambda>r. run_request r = q \<and> run_head r = ie_head_sha event \<and> run_state r \<in> active_states"
  show ?thesis
  proof (cases "find ?p (db_runs d2)")
    case None
    with cr d1 d2 obtain t k sc m i where
      cr2: "create_event_run e d2 inst jobID event q ps t k sc m = Inr (d', i)"
      by (auto simp: createWorkflowRun_def bind_r_Inr_iff Let_def)
    obtain d5 run d6 run' ok where ins: "run_inserted d2 d5 run"
      and d6: "admitRunUsage e d5 (ins_tenant inst) (ie_repository event) run = Inr (d6, run', ok)"
      and d': "link_stale e i (ie_head_sha event) ps d6 = Inr d'"
      using create_event_run_inserts [OF q2 cr2] by metis
    from inserted_quota [OF supersede_stale_inv(1) [OF inv1 d2] quota2 ins d6]
    show ?thesis using link_stale_quota [OF d'] by blast
  next
    case (Some r)
    then obtain p f where "d' = update_job d2 p f"
      using cr d1 d2 by (auto simp: createWorkflowRun_def bind_r_Inr_iff Let_def)
    then show ?thesis using quota_mono [OF quota2] by simp
  qed
qed

lemma cancelRun_quota: "cancelRun e d run k s p = Inr (d', run') \<Longrightarrow> quota_ok d \<Longrightarrow> quota_ok d'"
  by (drule cancelRun_changed) (blast intro: run_changed_quota)

lemma AdvanceLegacyRun_quota:
  assumes "AdvanceLegacyRun e d jobID nxt = Inr (d', run')" "quota_ok d"
  shows "quota_ok d'"
  using assms(1)
proof (cases rule: AdvanceLegacyRun_cases)
  case noop
  then show ?thesis using assms(2) by simp
next
  case (step run t)
  then show ?thesis using run_changed_quota commit_transition_changed(1) assms(2) by blast
qed

lemma store_step_quota:
  "store_step d d' \<Longrightarrow> store_inv d \<Longrightarrow> quota_ok d \<Longrightarrow> db_limits d' = db_limits d \<Longrightarrow> quota_ok d'"
proof (induction rule: store_step.induct)
  case (create e d inst jobID event d' a)
  then show ?case using createWorkflowRun_quota by blast
next
  case (comment q d e current inst event t m sel i d' run)
  from comment(1,2) show ?case
  proof (rule createCommentRun_inserts)
    fix d2 d5 run' repo ok
    assume "same_core d d2" "run_inserted d2 d5 run'"
      "admitRunUsage e d5 (ins_tenant inst) repo run' = Inr (d', run, ok)"
    then show ?thesis
      using inserted_quota same_core_inv [OF comment(3)] same_core_quota comment(4) by blast
  qed
next
  case (retry e d actor slug i input d' res)
  from retry(1) show ?case
  proof (cases rule: RequestRunRetry_cases)
    case replay
    then show ?thesis using retry(3) by simp
  next
    case (new source tenantID job key)
    from create_retry_inv(6) [OF retry(2) load_run_SomeD(3) [OF new(2)] new(1)]
    obtain d2 d5 d7 run repo ok where *: "same_core d d2" "run_inserted d2 d5 run"
      "admitRunUsage e d5 tenantID repo run = Inr (d7, rt_run res, ok)"
      "db_reservations d' = db_reservations d7" "db_limits d' = db_limits d7" by blast
    then have "quota_ok d7"
      using inserted_quota same_core_inv [OF retry(2)] same_core_quota retry(3) by blast
    then show ?thesis using quota_mono * by simp
  qed
next
  case (resolved_by_comment d e t s r a)
  show ?case by (rule quota_mono [OF resolved_by_comment(2)]) simp_all
next
  case (cancel_command run d e k s p d' run')
  then show ?case using cancelRun_quota by blast
next
  case (cancel e d actor slug i n d' run)
  then show ?case by (elim RequestRunCancellation_cancels) (rule cancelRun_quota)
next
  case (advance e d jobID nxt d' run)
  then show ?case using AdvanceLegacyRun_quota by blast
next
  case (advance_run e d i nxt d' run)
  then show ?case by (elim AdvanceRun_legacy) (rule AdvanceLegacyRun_quota)
next
  case (release d i d')
  then have "d' = d \<or> (\<exists>t k p. d' = insertOutbox d i t k p)"
    by (auto simp: ReleaseAcknowledgedRun_def split: option.splits if_splits)
  then show ?case using quota_mono [OF release(3)] by auto
next
  case (claim e d actor slug i n d' v)
  from claim(1) show ?case
    by (elim ClaimReviewIntervention_Inr)
      (rule quota_mono [OF claim(3)], simp_all add: update_interventions_def)
next
  case (resolve e d actor slug i inp d' v)
  from resolve(1) show ?case
    by (elim ResolveReviewIntervention_Inr)
      (rule quota_mono [OF resolve(3)], simp_all add: update_interventions_def)
next
  case (elsewhere d n jobs members insts limits cps dels)
  then show ?case by (intro quota_mono [OF elsewhere(3)]) simp_all
qed


section \<open>Replays and fences\<close>

text \<open>The tables of members, setup checkpoints and the owners of requests are not touched by a
  retry.\<close>

definition owners :: "db \<Rightarrow> (uuid \<times> uuid) list" where
  "owners d = map (\<lambda>q. (req_id q, req_tenant q)) (db_requests d)"

lemma static_frame [simp]:
  "db_members (insertOutbox d i t k p) = db_members d"
  "db_checkpoints (insertOutbox d i t k p) = db_checkpoints d"
  "db_members (audit d tn a b g m) = db_members d"
  "db_checkpoints (audit d tn a b g m) = db_checkpoints d"
  "db_members (update_run d i f) = db_members d"
  "db_checkpoints (update_run d i f) = db_checkpoints d"
  "db_members (update_job d jp jf) = db_members d"
  "db_checkpoints (update_job d jp jf) = db_checkpoints d"
  "db_members (init_stages d i) = db_members d"
  "db_checkpoints (init_stages d i) = db_checkpoints d"
  "db_members (set_current_run d i j) = db_members d"
  "db_checkpoints (set_current_run d i j) = db_checkpoints d"
  "db_members (recordRuleRolloutRunSelections d i ss) = db_members d"
  "db_checkpoints (recordRuleRolloutRunSelections d i ss) = db_checkpoints d"
  "db_members (resolveReviewInterventionForRetry e d tn i j a) = db_members d"
  "db_checkpoints (resolveReviewInterventionForRetry e d tn i j a) = db_checkpoints d"
  "owners (set_current_run d i j) = owners d"
  by (simp_all add: insertOutbox_def audit_def update_run_def update_job_def init_stages_def
      set_current_run_def recordRuleRolloutRunSelections_def resolveReviewInterventionForRetry_def
      update_interventions_def owners_def fresh_def Let_def map_update_where_key split: option.splits)

lemma static_frame_tx:
  "insert_delivery d p tok ev pl = Inr (d', i) \<Longrightarrow> db_members d' = db_members d \<and> db_checkpoints d' = db_checkpoints d"
  "copy_job d s dl b h = Some (d', j) \<Longrightarrow> db_members d' = db_members d \<and> db_checkpoints d' = db_checkpoints d"
  "insert_run d q jb tk m h b2 sn = Inr (d', r) \<Longrightarrow> db_members d' = db_members d \<and> db_checkpoints d' = db_checkpoints d"
  "insert_retry d rs k rt a = Inr d' \<Longrightarrow> db_members d' = db_members d \<and> db_checkpoints d' = db_checkpoints d"
  "appendRunEvent d i n ty k sb pl = Inr d' \<Longrightarrow> db_members d' = db_members d \<and> db_checkpoints d' = db_checkpoints d"
  "snapshotReviewConfigurations e d i tn sc = Inr d' \<Longrightarrow> db_members d' = db_members d \<and> db_checkpoints d' = db_checkpoints d"
  "ensureReviewIntervention d i st = Inr d' \<Longrightarrow> db_members d' = db_members d \<and> db_checkpoints d' = db_checkpoints d"
  "reserveReviewUsage e d tn i repo = Inr d' \<Longrightarrow> db_members d' = db_members d \<and> db_checkpoints d' = db_checkpoints d"
  by (auto simp: insert_delivery_def copy_job_def insert_run_def insert_retry_def appendRunEvent_def
      snapshotReviewConfigurations_def ensureReviewIntervention_def reserveReviewUsage_def
      insert_ledger_def fresh_def Let_def dest!: snapshot_sections_frame split: option.splits if_splits)

lemma static_admit:
  assumes "admitRunUsage e d tn repo run = Inr (d', run', ok)"
  shows "db_members d' = db_members d \<and> db_checkpoints d' = db_checkpoints d"
proof (cases "reserveReviewUsage e d tn (run_id run) repo")
  case (Inr x)
  then show ?thesis using assms static_frame_tx(8) by (auto simp: admitRunUsage_def)
next
  case (Inl err)
  then show ?thesis
    using assms
    by (auto simp: admitRunUsage_def bind_r_Inr_iff Let_def split: if_splits option.splits
        dest!: static_frame_tx(5,7))
qed

lemma create_retry_static:
  assumes "create_retry e d actor tenantID source job key = Inr (d', res)"
  shows "db_members d' = db_members d \<and> db_checkpoints d' = db_checkpoints d \<and> owners d' = owners d"
proof -
  from assms obtain d1 dl d2 j q jb m h b snap d3 run sels d4 sc d5 d6 ty kd sb pl d7 retry ok x y g a1 a2 a3 where
    *: "insert_delivery d (job_provider job) (''manual-retry'', run_id source, key) ''manual_retry'' x = Inr (d1, dl)"
    "copy_job d1 (job_id job) dl (run_base source) (run_head source) = Some (d2, j)"
    "insert_run d2 q jb ''retry'' m h b snap = Inr (d3, run)"
    "insert_retry (recordRuleRolloutRunSelections d3 (run_id run) sels) (run_id source) key (run_id run) actor = Inr d4"
    "snapshotReviewConfigurations e d4 (run_id run) tenantID sc = Inr d5"
    "appendRunEvent (init_stages (set_current_run d5 q (run_id run)) (run_id run)) (run_id run)
       (run_revision run) ty kd sb pl = Inr d6"
    "admitRunUsage e (insertOutbox d6 (run_id run) y g a3) tenantID (job_repository j) run = Inr (d7, retry, ok)"
    "d' = audit (resolveReviewInterventionForRetry e d7 tenantID (run_id source) (run_id retry) actor)
       tenantID actor ''review_run.retry_requested'' (PUuid (run_id retry)) a1"
    by (auto simp: create_retry_def bind_r_Inr_iff Let_def split: option.splits prod.splits)
  have "db_requests d7 = db_requests (insertOutbox d6 (run_id run) y g a3)"
  proof (cases "reserveReviewUsage e (insertOutbox d6 (run_id run) y g a3) tenantID (run_id run) (job_repository j)")
    case (Inr z)
    then show ?thesis using *(7)
      by (auto simp: admitRunUsage_def reserveReviewUsage_def Let_def split: if_splits)
  next
    case (Inl err)
    from *(7) Inl show ?thesis by (rule admit_rejected) simp
  qed
  moreover have "db_requests d3 = db_requests d"
    using same_core_statements(2) [OF *(1)] same_core_statements(3) [OF *(2)] insert_run_Inr(7) [OF *(3)]
    by (simp add: same_core_def)
  moreover have "db_requests d4 = db_requests d3" using *(4) by (auto simp: insert_retry_def split: if_splits)
  moreover have "db_requests d6 = db_requests (init_stages (set_current_run d5 q (run_id run)) (run_id run))"
    using *(6) by (auto elim: appendRunEvent_Inr)
  ultimately have "owners d7 = owners d"
    using snapshot_frame(5) [OF *(5)] static_frame(17) [of d5 q "run_id run"] by (simp add: owners_def)
  then show ?thesis
    using static_frame_tx(1) [OF *(1)] static_frame_tx(2) [OF *(2)] static_frame_tx(3) [OF *(3)]
      static_frame_tx(4) [OF *(4)] static_frame_tx(6) [OF *(5)] static_frame_tx(5) [OF *(6)]
      static_admit [OF *(7)] *(8) by (simp add: owners_def)
qed

lemma row_by_owner:
  "map_option req_tenant (row_by req_id i qs) = map_option snd (row_by fst i (map (\<lambda>q. (req_id q, req_tenant q)) qs))"
  by (induction qs) auto

lemma load_run_owners:
  "load_run d i t = (case row_by run_id i (db_runs d) of None \<Rightarrow> None
     | Some r \<Rightarrow> (case map_option snd (row_by fst (run_request r) (owners d)) of None \<Rightarrow> None
        | Some t' \<Rightarrow> if t' = t then Some r else None))"
  unfolding owners_def row_by_owner [symmetric] by (simp add: load_run_def split: option.splits)


definition retry_guards :: "db \<Rightarrow> string \<Rightarrow> string \<Rightarrow> uuid \<Rightarrow> RunRetryInput \<Rightarrow> string \<Rightarrow> uuid \<Rightarrow> ReviewRun \<Rightarrow> bool" where
  "retry_guards d actor slug runID input key tenantID source \<longleftrightarrow>
     runID \<noteq> 0 \<and> (\<exists>n. NormalizeRunRetryInput input = Some \<lparr>ExpectedRevision = n, IdempotencyKey = key\<rparr>)
     \<and> (\<exists>role. authorizedTenantTx d actor slug = Inr (tenantID, role) \<and> interventionRoleAllowed role)
     \<and> workspaceSetupAllowsReview d tenantID \<and> load_run d runID tenantID = Some source"

lemma RequestRunRetry_guards:
  assumes "RequestRunRetry e d actor slug runID input = Inr (d', res)"
  obtains key tenantID source where "retry_guards d actor slug runID input key tenantID source"
    "replayed_run d runID key = Some (rt_run res) \<and> d' = d
     \<or> needs_operator (run_state source) \<and>
       (\<exists>job. create_retry e d actor tenantID source job key = Inr (d', res))"
proof -
  obtain n key where inp: "NormalizeRunRetryInput input = Some \<lparr>ExpectedRevision = n, IdempotencyKey = key\<rparr>"
    using assms by (auto simp: RequestRunRetry_def split: option.splits) (metis RunRetryInput.cases)
  obtain tenantID role where auth: "authorizedTenantTx d actor slug = Inr (tenantID, role)"
    using assms inp by (auto simp: RequestRunRetry_def bind_r_Inr_iff split: if_splits)
  obtain source where src: "load_run d runID tenantID = Some source"
    using assms inp auth by (auto simp: RequestRunRetry_def split: if_splits option.splits)
  have id: "run_id source = runID" using load_run_SomeD [OF src] by simp
  have "retry_guards d actor slug runID input key tenantID source"
    using assms inp auth src by (auto simp: RequestRunRetry_def retry_guards_def split: if_splits)
  moreover have "replayed_run d runID key = Some (rt_run res) \<and> d' = d
     \<or> needs_operator (run_state source) \<and>
       (\<exists>job. create_retry e d actor tenantID source job key = Inr (d', res))"
    using assms inp auth src id
    by (auto simp: RequestRunRetry_def needs_operator_def split: if_splits option.splits)
  ultimately show thesis using that by blast
qed

lemma RequestRunRetry_replay:
  assumes "retry_guards d actor slug runID input key tenantID source"
    "replayed_run d runID key = Some r"
  shows "RequestRunRetry e d actor slug runID input = Inr (d, \<lparr>rt_run = r, rt_replayed = True\<rparr>)"
proof -
  have "run_id source = runID" using assms(1) load_run_SomeD(2) unfolding retry_guards_def by blast
  then show ?thesis using assms by (auto simp: RequestRunRetry_def retry_guards_def)
qed

lemma retry_guards_kept:
  assumes "retry_guards d actor slug runID input key tenantID source"
    "db_members d' = db_members d" "db_checkpoints d' = db_checkpoints d" "owners d' = owners d"
    "row_by run_id runID (db_runs d') = Some source"
  shows "retry_guards d' actor slug runID input key tenantID source"
proof -
  have "row_by run_id runID (db_runs d) = Some source"
    using assms(1) by (auto simp: retry_guards_def load_run_def split: option.splits if_splits)
  then have "load_run d' runID tenantID = load_run d runID tenantID"
    using assms(4,5) by (simp add: load_run_owners)
  then show ?thesis
    using assms(1-3) by (simp add: retry_guards_def authorizedTenantTx_def workspaceSetupAllowsReview_def)
qed

lemma retry_is_replayed:
  assumes inv: "store_inv d" and first: "RequestRunRetry e d actor slug runID input = Inr (d', res)"
  shows "RequestRunRetry e' d' actor slug runID input = Inr (d', \<lparr>rt_run = rt_run res, rt_replayed = True\<rparr>)"
  using first
proof (rule RequestRunRetry_guards)
  fix key tenantID source
  assume g: "retry_guards d actor slug runID input key tenantID source"
    and "replayed_run d runID key = Some (rt_run res) \<and> d' = d
     \<or> needs_operator (run_state source) \<and>
       (\<exists>job. create_retry e d actor tenantID source job key = Inr (d', res))"
  then consider "replayed_run d runID key = Some (rt_run res)" "d' = d"
    | job where "needs_operator (run_state source)" "create_retry e d actor tenantID source job key = Inr (d', res)"
    by blast
  then show ?thesis
  proof cases
    case 1
    then show ?thesis using RequestRunRetry_replay [OF g] by simp
  next
    case 2
    have src: "load_run d runID tenantID = Some source" using g by (simp add: retry_guards_def)
    note L = load_run_SomeD [OF src]
    note R = create_retry_inv [OF inv L(3) 2(2)]
    have "source \<in> set (db_runs d')"
      using terminal_rows_kept [OF r_into_rtranclp [where r = store_step, OF store_step.retry [OF first]] inv L(1)]
        needs_operator_Terminal [OF 2(1)] by blast
    then have "row_by run_id runID (db_runs d') = Some source"
      using row_by_eqI [of run_id "db_runs d'" source] store_invPD(8) [OF R(1)] L(2) by simp
    with create_retry_static [OF 2(2)] have "retry_guards d' actor slug runID input key tenantID source"
      using retry_guards_kept [OF g] by blast
    moreover have "replayed_run d' runID key = Some (rt_run res)"
    proof -
      have "row_by (\<lambda>x. (rr_source x, rr_key x)) (runID, key) (db_retries d) = None"
        using R(5) L(2) by (simp add: row_by_None_iff)
      then show ?thesis using R(3,4) L(2) by (simp add: replayed_run_def row_by_append)
    qed
    ultimately show ?thesis by (rule RequestRunRetry_replay)
  qed
qed

lemma cancelled_is_fenced:
  assumes reach: "store_reach d" and cancel: "RequestRunCancellation e d actor slug i n = Inr (d1, run)"
    and job: "run_job run = Some jobID" and later: "store_step\<^sup>*\<^sup>* d1 d2"
  shows "\<exists>r \<in> set (db_runs d2). AdvanceLegacyRun e' d2 jobID nxt = Inr (d2, r) \<and> run_id r = i \<and> run_state r = RunCancelled"
proof -
  have inv: "store_inv d" using store_reach_inv [OF reach] .
  obtain r0 where r0: "r0 \<in> set (db_runs d)" "run_id r0 = i" "\<not> Terminal (run_state r0)"
    and c: "cancelRun e d r0 ''user'' actor [(''source'', PStr ''task_api'')] = Inr (d1, run)"
    using cancel by (rule RequestRunCancellation_cancels)
  obtain f where f: "run_changed e d d1 r0 f" "transition_update r0 f" "run_state (f r0) = RunCancelled"
    "run = f r0" using cancelRun_changed [OF c] by blast
  have step: "store_step d d1" using store_step.cancel [OF cancel] .
  have inv1: "store_inv d1" using store_step_inv [OF step inv] .
  have row: "run \<in> set (db_runs d1)"
    using f set_set_run [OF store_invPD(8) [OF inv] r0(1), of f] unfolding run_changed_def by simp
  have reach2: "store_reach d2"
    using later step reach by (induction rule: rtranclp_induct) (auto intro: store_reach.step)
  have row2: "run \<in> set (db_runs d2)" and inv2: "store_inv d2"
    using terminal_rows_kept [OF later inv1 row] f(3,4) by simp_all
  have "row_by run_job (Some jobID) (db_runs d2) = Some run"
  proof -
    obtain r where r: "row_by run_job (Some jobID) (db_runs d2) = Some r"
      using row2 job by (metis image_eqI not_Some_eq row_by_None_iff)
    then have "r \<in> set (db_runs d2)" "run_job r = Some jobID" by (auto dest: row_by_SomeD)
    then have "run_id r = run_id run"
      using store_reach_jobs [OF reach2] row2 job unfolding jobs_inv_def by (metis option.distinct(1))
    then have "r = run"
      using distinct_key_eq [OF store_invPD(8) [OF inv2]] row2 \<open>r \<in> set (db_runs d2)\<close> by blast
    with r show ?thesis by simp
  qed
  moreover have "run_id run = i" using f(2,4) r0(2) by (simp add: transition_update_def)
  ultimately show ?thesis
    using f(3,4) row2 by (intro bexI [of _ run]) (auto simp: AdvanceLegacyRun_def Let_def advance_target_def)
qed


end
