(* ===== verification/Workflow_Properties.thy ===== *)
theory Workflow_Properties
  imports Workflow_Safety
begin

text \<open>
  The properties of the workflow store, each with a concrete instance: a database after the
  admission of one pull request event, its cancellation, and a failed run that is retried.
\<close>

section \<open>A concrete store\<close>

definition demo_env :: env where
  "demo_env = \<lparr>env_now = 100, env_period = 1,
     env_rules = (\<lambda>_ _ _ _ _. Inr (7, [])),
     env_config = (\<lambda>_ _ _. Inr ''{}''),
     env_default_mode = (\<lambda>_ _. Inr ''standard''),
     env_rule_set_active = (\<lambda>_ _ _ _. Inr True)\<rparr>"

definition demo_installation :: Installation where
  "demo_installation = \<lparr>ins_id = 1, ins_tenant = 2, ins_provider = ''github'', ins_external = ''77'',
     ins_api = ''https://api.github.com'', ins_active = True, ins_verification = ''verified''\<rparr>"

definition demo_job :: ReviewJob where
  "demo_job = \<lparr>job_id = 3, job_tenant = 2, job_installation = 1, job_delivery = 4,
     job_provider = ''github'', job_api = ''https://api.github.com'', job_repository = ''acme/app'',
     job_clone = ''https://github.com/acme/app.git'', job_number = 12, job_base_ref = ''main'',
     job_base_sha = ''b0'', job_head_ref = ''feature'', job_head_sha = ''h1'', job_state = JobQueued,
     job_locked_by = None, job_locked_until = None, job_error = None, job_finished = None\<rparr>"

definition demo_event :: "string \<Rightarrow> InboundEvent" where
  "demo_event head = \<lparr>ie_provider = ''github'', ie_api = ''https://api.github.com'', ie_delivery = ''d1'',
     ie_repository = ''acme/app'', ie_number = 12, ie_base_ref = ''main'', ie_base_sha = ''b0'',
     ie_head_sha = head, ie_trigger = '''', ie_actor_kind = '''', ie_actor_subject = ''dev'',
     ie_mode = ''standard'', ie_rule_set = None, ie_defer_ack = False, ie_title = '''',
     ie_author = ''''\<rparr>"

definition demo_db :: db where
  "demo_db = \<lparr>db_next = 10, db_requests = [], db_runs = [], db_jobs = [],
     db_events = [], db_stages = [], db_outbox = [], db_reservations = [], db_ledger = [],
     db_interventions = [], db_audits = [], db_deliveries = [], db_retries = [], db_configs = [],
     db_selections = [],
     db_members = [\<lparr>mem_tenant = 2, mem_slug = ''acme'', mem_subject = ''ann'', mem_role = ''admin'', mem_active = True\<rparr>],
     db_installations = [demo_installation], db_limits = [(2, 1)], db_checkpoints = []\<rparr>"



definition demo_run :: ReviewRun where
  "demo_run = \<lparr>run_id = 11, run_request = 10, run_job = Some 3, run_revision = 1,
     run_state = RunAcknowledged, run_trigger = ''pull_request'', run_mode = ''standard'',
     run_head = ''h1'', run_base = ''b0'', run_cancel_at = None, run_superseded_by = None,
     run_failure_code = None, run_failure_message = None, run_snapshot = 7, run_started = None,
     run_finished = None\<rparr>"

definition demo_a :: db where
  "demo_a = demo_db\<lparr>db_next := 11, db_requests := [\<lparr>req_id = 10, req_tenant = 2, req_installation = 1,
     req_provider = ''github'', req_api = ''https://api.github.com'', req_repository = ''acme/app'',
     req_number = 12, req_title = '''', req_author = '''', req_current = None\<rparr>]\<rparr>"

definition demo_b :: db where
  "demo_b = demo_a\<lparr>db_next := 12, db_runs := [demo_run]\<rparr>"

definition demo_c :: db where
  "demo_c = demo_b\<lparr>db_configs := map (\<lambda>s. \<lparr>cs_run = 11, cs_section = s, cs_content = ''{}''\<rparr>) ReviewConfigSections\<rparr>"

definition demo_d :: db where
  "demo_d = (init_stages (set_current_run demo_c 10 11) 11)\<lparr>db_next := 13,
     db_events := [\<lparr>ev_run = 11, ev_revision = 1, ev_type = ''run.acknowledged'',
       ev_actor_kind = ''provider'', ev_actor_subject = ''dev'',
       ev_payload = [(''provider'', PStr ''github''), (''delivery_id'', PStr ''d1''),
         (''review_number'', PInt 12), (''trigger'', PStr ''pull_request''), (''review_mode'', PStr ''standard'')]\<rparr>],
     db_outbox := [\<lparr>ob_id = 12, ob_aggregate = 11, ob_topic = ''review.run.acknowledged'',
       ob_key = RunKey 11 1 ''acknowledged'', ob_payload = [(''run_id'', PUuid 11), (''revision'', PInt 1)]\<rparr>]\<rparr>"

definition demo_e :: db where
  "demo_e = demo_d\<lparr>
     db_reservations := [\<lparr>ur_tenant = 2, ur_run = 11, ur_repository = ''acme/app'', ur_reserved = 1,
       ur_settled = 0, ur_state = ''reserved'', ur_period = 1, ur_settled_at = None\<rparr>],
     db_ledger := [\<lparr>le_tenant = 2, le_run = 11, le_repository = ''acme/app'', le_quantity = 1,
       le_kind = ''reserve'', le_key = (11, ''reserve''), le_metadata = []\<rparr>]\<rparr>"

lemma demo_event_sel [simp]:
  "ie_provider (demo_event h) = ''github''" "ie_repository (demo_event h) = ''acme/app''"
  "ie_number (demo_event h) = 12" "ie_base_ref (demo_event h) = ''main''"
  "ie_base_sha (demo_event h) = ''b0''" "ie_head_sha (demo_event h) = h" "ie_trigger (demo_event h) = ''''"
  "ie_actor_kind (demo_event h) = ''''" "ie_mode (demo_event h) = ''standard''"
  "ie_rule_set (demo_event h) = None"
  by (simp_all add: demo_event_def)

lemma demo_env_sel [simp]:
  "env_rules demo_env t s b r n = Inr (7, [])" "env_now demo_env = 100" "env_period demo_env = 1"
  by (simp_all add: demo_env_def)

lemma demo_installation_sel [simp]: "ins_tenant demo_installation = 2"
  by (simp add: demo_installation_def)

lemma demo_scope:
  "reviewConfigScopeForInstallation demo_installation ''acme/app'' =
   \<lparr>sc_ref = ''acme/app'', sc_provider = ''github'', sc_api = ''https://api.github.com''\<rparr>"
  by code_simp

lemma demo_upsert: "upsert_request demo_db demo_installation (demo_event ''h1'') = Inr (demo_a, 10)"
  by code_simp

lemma demo_supersede: "supersede_stale demo_env demo_a 10 ''h1'' = (demo_a, [])"
  by code_simp

lemma demo_insert:
  "insert_run demo_a 10 3 ''pull_request'' ''standard'' ''h1'' ''b0'' 7 = Inr (demo_b, demo_run)"
  by code_simp

lemma demo_snapshot:
  "snapshotReviewConfigurations demo_env (recordRuleRolloutRunSelections demo_b 11 []) 11 2
   \<lparr>sc_ref = ''acme/app'', sc_provider = ''github'', sc_api = ''https://api.github.com''\<rparr> = Inr demo_c"
  by code_simp

lemma demo_first_event:
  "insert_first_event (set_current_run demo_c 10 11) demo_installation (demo_event ''h1'')
   ''pull_request'' ''provider'' ''standard'' 11 = Inr demo_d"
  by code_simp

lemma demo_admit: "admitRunUsage demo_env demo_d 2 ''acme/app'' demo_run = Inr (demo_e, demo_run, True)"
  by code_simp

lemma demo_created:
  "createWorkflowRun demo_env demo_db demo_installation 3 (demo_event ''h1'') = Inr (demo_e, Created 11)"
proof -
  have mode: "resolveConfiguredReviewMode demo_env 2 sc ''standard'' = Inr ''standard''" for sc
    by (simp add: resolveConfiguredReviewMode_def ReviewMode_Valid_def)
  have none: "find (\<lambda>r. run_request r = 10 \<and> run_head r = ''h1'' \<and> run_state r \<in> active_states)
      (db_runs demo_a) = None"
    by (simp add: demo_a_def demo_db_def)
  have id: "run_id demo_run = 11" by (simp add: demo_run_def)
  show ?thesis
    by (simp add: createWorkflowRun_def create_event_run_def mode none id demo_scope demo_upsert
        demo_supersede demo_insert demo_snapshot demo_first_event demo_admit)
qed

lemma demo_reach: "store_reach demo_e"
proof -
  have "store_empty demo_db" by (simp add: store_empty_def demo_db_def)
  then show ?thesis
    using store_reach.start store_reach.step store_step.create [OF demo_created] by blast
qed

lemma demo_e_runs: "db_runs demo_e = [demo_run]"
  by (simp add: demo_e_def demo_d_def demo_c_def demo_b_def)

lemma demo_cancelled:
  obtains d run where "RequestRunCancellation demo_env demo_e ''ann'' ''acme'' 11 1 = Inr (d, run)"
    "run_job run = Some 3" "run_state run = RunCancelled"
proof -
  have "case RequestRunCancellation demo_env demo_e ''ann'' ''acme'' 11 1 of Inl _ \<Rightarrow> False
    | Inr (d, run) \<Rightarrow> run_job run = Some 3 \<and> run_state run = RunCancelled"
    by code_simp
  then show thesis using that by (auto split: sum.splits)
qed

section \<open>An accepted transition always commits\<close>

lemma next_revision_free:
  assumes "store_inv d" "r \<in> set (db_runs d)"
  shows "(run_id r, Suc (run_revision r)) \<notin> (\<lambda>ev. (ev_run ev, ev_revision ev)) ` set (db_events d)"
proof
  assume "(run_id r, Suc (run_revision r)) \<in> (\<lambda>ev. (ev_run ev, ev_revision ev)) ` set (db_events d)"
  then have "Suc (run_revision r) \<in> set (revs (db_events d) (run_id r))"
    by (auto simp: revs_def)
  then show False using store_invPD(4) [OF assms(1)] assms(2) unfolding ev_inv_def by auto
qed

lemma commit_transition_ok:
  assumes inv: "store_inv d" and r: "r \<in> set (db_runs d)"
  shows "\<exists>d'. commit_transition e d r jobID t = Inr (d', r\<lparr>run_state := t, run_revision := Suc (run_revision r)\<rparr>)"
proof -
  let ?d0 = "advanceRunStageEvidence e (update_run d (run_id r) (advance_update e r t)) (run_id r) (run_state r) t"
  let ?ev = "\<lparr>ev_run = run_id r, ev_revision = Suc (run_revision r), ev_type = ''run.'' @ run_state_name t,
    ev_actor_kind = ''worker'', ev_actor_subject = ''legacy-runner'', ev_payload = [(''legacy_job_id'', PUuid jobID)]\<rparr>"
  let ?d1 = "?d0\<lparr>db_events := db_events d @ [?ev]\<rparr>"
  let ?d2 = "announce ?d1 r (Suc (run_revision r)) t"
  have ev: "appendRunEvent ?d0 (run_id r) (Suc (run_revision r)) (''run.'' @ run_state_name t) ''worker''
      ''legacy-runner'' [(''legacy_job_id'', PUuid jobID)] = Inr ?d1"
    using next_revision_free [OF inv r] by (simp add: appendRunEvent_def)
  have "row_by run_id (run_id r) (db_runs ?d2) \<noteq> None"
    using r store_invPD(8) [OF inv]
    by (simp add: row_by_None_iff set_run_def image_update_where_key)
  then obtain r' where r': "row_by run_id (run_id r) (db_runs ?d2) = Some r'" by blast
  then have "r' = advance_update e r t r \<or> r' \<in> set (db_runs d)"
    using set_set_run [OF store_invPD(8) [OF inv] r] by (auto dest!: row_by_SomeD)
  then have "run_request r' \<in> set (map req_id (db_requests d))"
    using store_invPD(1) [OF inv] r unfolding ids_inv_def by auto
  then have "row_by req_id (run_request r') (db_requests ?d2) \<noteq> None"
    by (simp add: row_by_None_iff)
  then have "run_tenant ?d2 (run_id r) \<noteq> None" using r' by (simp add: run_tenant_def)
  then have "\<exists>d3. (if t = RunFailed \<or> t = RunNeedsAttention
      then ensureReviewIntervention ?d2 (run_id r) t else Inr ?d2) = Inr d3"
    by (auto simp: ensureReviewIntervention_def fresh_def Let_def)
  then show ?thesis unfolding commit_transition_def Let_def ev by auto
qed

lemma AdvanceLegacyRun_commits:
  assumes inv: "store_inv d" and r: "row_by run_job (Some jobID) (db_runs d) = Some r"
    and can: "CanTransitionTo (run_state r) t"
  shows "\<exists>d'. AdvanceLegacyRun e d jobID t =
     Inr (d', r\<lparr>run_state := t, run_revision := Suc (run_revision r)\<rparr>) \<and> run_changed e d d' r (advance_update e r t)"
proof -
  have mem: "r \<in> set (db_runs d)" using row_by_SomeD [OF r] by blast
  have live: "\<not> Terminal (run_state r)" using can by (rule CanTransitionTo_not_Terminal)
  have target: "advance_target r t = t"
    using not_cancelled_yet(1) [OF inv mem live] by (simp add: advance_target_def)
  have "run_state r \<noteq> t" using can CanTransitionTo_irrefl by blast
  moreover have "\<not> (runStateRank t < runStateRank (run_state r) \<and> \<not> Terminal t)"
    using CanTransitionTo_rank [OF can] by auto
  ultimately have "AdvanceLegacyRun e d jobID t = commit_transition e d r jobID t"
    using r live can by (auto simp: AdvanceLegacyRun_def target ValidateRunTransition_def)
  then show ?thesis
    using commit_transition_ok [OF inv mem, of e jobID t] commit_transition_changed(1) by fastforce
qed

section \<open>Properties\<close>

text \<open>C2. The event log of a run is gapless: in every reachable database the revisions of the
  events of a run, in the order they were appended, are 1, 2, \<dots> up to the revision of the run,
  so a reader that resumes after a revision misses and repeats nothing.\<close>

theorem event_log_gapless:
  assumes "store_reach d" "r \<in> set (db_runs d)"
  shows "map ev_revision (filter (\<lambda>ev. ev_run ev = run_id r) (db_events d)) = [1..<Suc (run_revision r)]"
  using store_invPD(4) [OF store_reach_inv [OF assms(1)]] assms(2) unfolding ev_inv_def revs_def by simp

theorem event_log_gapless_witness:
  "map ev_revision (filter (\<lambda>ev. ev_run ev = run_id demo_run) (db_events demo_e)) =
     [1..<Suc (run_revision demo_run)]"
  by (rule event_log_gapless [OF demo_reach]) (simp add: demo_e_runs)

text \<open>C1. A pull request has at most one active run: in every reachable database at most one
  run of a request is in a state before the terminal ones.\<close>

theorem one_active_run_per_request:
  assumes "store_reach d"
  shows "length (filter (\<lambda>r. run_request r = q \<and> run_state r \<in> active_states) (db_runs d)) \<le> 1"
proof -
  note I = store_invPD [OF store_reach_inv [OF assms]]
  let ?f = "filter (\<lambda>r. run_request r = q \<and> run_state r \<in> active_states) (db_runs d)"
  have "distinct (map run_id ?f)" using I(8) by (rule distinct_map_filter)
  from distinct_card [OF this] have "length ?f = card (run_id ` set ?f)" unfolding set_map length_map by (rule sym)
  also have "\<dots> \<le> 1"
  proof -
    have same: "i = j" if ij: "i \<in> run_id ` set ?f" "j \<in> run_id ` set ?f" for i j
    proof -
      obtain x y where "x \<in> set ?f" "i = run_id x" "y \<in> set ?f" "j = run_id y" using ij by blast
      then show ?thesis using active_invD [OF I(2), of x y] by simp
    qed
    have "finite (run_id ` set ?f)" by simp
    then show ?thesis
      unfolding One_nat_def by (subst card_le_Suc0_iff_eq) (assumption, intro ballI, rule same)
  qed
  finally show ?thesis .
qed

theorem one_active_run_per_request_witness:
  "length (filter (\<lambda>r. run_request r = 10 \<and> run_state r \<in> active_states) (db_runs demo_e)) \<le> 1"
  by (rule one_active_run_per_request [OF demo_reach])

text \<open>C12. Usage mirrors the run: in every reachable database an active run holds exactly one
  reservation in state \<open>reserved\<close>, a completed run has settled it, a run rejected for its
  quota has none, and every other ended run has released it.\<close>

theorem usage_mirrors_run_state:
  assumes "store_reach d" "r \<in> set (db_runs d)"
  shows "map ur_state (filter (\<lambda>u. ur_run u = run_id r) (db_reservations d)) =
     (if run_state r \<in> active_states then [''reserved'']
      else if run_state r = RunCompleted then [''settled'']
      else if run_failure_code r = Some ''quota_exceeded'' then []
      else [''released''])"
proof -
  note I = store_invPD(5) [OF store_reach_inv [OF assms(1)], unfolded us_inv_def]
  have one: "map ur_state (filter (\<lambda>u. ur_run u = i) res) = (case usage res i of None \<Rightarrow> [] | Some s \<Rightarrow> [s])"
    if "distinct (map ur_run res)" for res i
    using that
  proof (induction res)
    case (Cons u res)
    then have "usage res i = None" if "ur_run u = i" using that by (simp add: usage_None)
    then show ?case using Cons by auto
  qed simp
  have "usage (db_reservations d) (run_id r) = expected_usage r" using I assms(2) by simp
  then show ?thesis using one I by (simp add: expected_usage_def)
qed

theorem usage_mirrors_run_state_witness:
  "map ur_state (filter (\<lambda>u. ur_run u = run_id demo_run) (db_reservations demo_e)) = [''reserved'']"
  using usage_mirrors_run_state [OF demo_reach, of demo_run]
  by (simp add: demo_e_runs demo_run_def active_states_def)


text \<open>C21. Every run that needs an operator has exactly one task, and no other run has any: in
  every reachable database a failed or needs-attention run has one intervention row, also when
  it was rejected for its quota, and every other run has none.\<close>

theorem operator_task_iff_failed:
  assumes "store_reach d" "r \<in> set (db_runs d)"
  shows "length (filter (\<lambda>v. in_run v = run_id r) (db_interventions d)) =
     (if run_state r = RunFailed \<or> run_state r = RunNeedsAttention then 1 else 0)"
proof -
  note I = store_invPD(6) [OF store_reach_inv [OF assms(1)], unfolded task_inv_def]
  have one: "length (filter (\<lambda>v. in_run v = i) vs) = (if i \<in> in_run ` set vs then 1 else 0)"
    if "distinct (map in_run vs)" for vs i
    using that by (induction vs) (auto simp: filter_empty_conv)
  have "run_id r \<in> in_run ` set (db_interventions d) \<longleftrightarrow> needs_operator (run_state r)"
    using I assms(2) by blast
  moreover have "distinct (map in_run (db_interventions d))" using I by blast
  ultimately show ?thesis using one [of "db_interventions d" "run_id r"] by (simp add: needs_operator_def)
qed

theorem operator_task_iff_failed_witness:
  "length (filter (\<lambda>v. in_run v = run_id demo_run) (db_interventions demo_e)) = 0"
  using operator_task_iff_failed [OF demo_reach, of demo_run] by (simp add: demo_e_runs demo_run_def)

text \<open>C4. Terminal runs are immutable: once a run of a reachable database is completed, failed,
  cancelled, superseded or in need of attention, its row is unchanged after any number of
  further transactions.\<close>

theorem terminal_run_immutable:
  assumes "store_reach d" "r \<in> set (db_runs d)" "Terminal (run_state r)" "store_step\<^sup>*\<^sup>* d d'"
  shows "r \<in> set (db_runs d')"
  using terminal_rows_kept [OF assms(4) store_reach_inv [OF assms(1)] assms(2,3)] by blast

text \<open>The database after the cancellation of the demonstration run, and a late signal of the
  worker.\<close>

lemma demo_cancelled_row:
  obtains d run where "store_reach d" "run \<in> set (db_runs d)" "run_state run = RunCancelled"
    "AdvanceLegacyRun demo_env d 3 RunAdmitted = Inr (d, run)"
proof -
  obtain d run where c: "RequestRunCancellation demo_env demo_e ''ann'' ''acme'' 11 1 = Inr (d, run)"
    "run_job run = Some 3" "run_state run = RunCancelled" by (rule demo_cancelled)
  obtain r where r: "AdvanceLegacyRun demo_env d 3 RunAdmitted = Inr (d, r)" "run_state r = RunCancelled"
    "r \<in> set (db_runs d)"
    using cancelled_is_fenced [OF demo_reach c(1,2) rtranclp.rtrancl_refl] by blast
  moreover have "store_reach d" using store_reach.step [OF demo_reach store_step.cancel [OF c(1)]] .
  ultimately show thesis using that r by blast
qed


theorem terminal_run_immutable_witness:
  "\<exists>d run. store_reach d \<and> run_state run = RunCancelled \<and> run \<in> set (db_runs d)"
proof -
  obtain d run where d: "store_reach d" "run \<in> set (db_runs d)" "run_state run = RunCancelled"
    by (rule demo_cancelled_row)
  then have "run \<in> set (db_runs d)"
    using terminal_run_immutable [OF d(1,2) _ rtranclp.rtrancl_refl] by simp
  with d show ?thesis by blast
qed

text \<open>C11. Rows evolve only along the state machine: a step of the store leaves a run of a
  reachable database alone, or raises its revision by one from a state that is not terminal,
  to a state its transition table accepts or to \<open>cancelled\<close> or \<open>superseded\<close>; the request,
  job, commit, mode and rule snapshot of the run never change.\<close>

theorem run_rows_evolve:
  assumes "store_reach d" "store_step d d'" "r \<in> set (db_runs d)"
  shows "\<exists>r' \<in> set (db_runs d'). run_id r' = run_id r \<and> run_request r' = run_request r
     \<and> run_job r' = run_job r \<and> run_head r' = run_head r \<and> run_base r' = run_base r
     \<and> run_mode r' = run_mode r \<and> run_snapshot r' = run_snapshot r
     \<and> (r' = r \<or> run_revision r' = Suc (run_revision r) \<and> \<not> Terminal (run_state r)
          \<and> (CanTransitionTo (run_state r) (run_state r') \<or> run_state r' = RunCancelled
             \<or> run_state r' = RunSuperseded))"
proof -
  obtain r' where "r' \<in> set (db_runs d')" "evolves r r'"
    using store_step_runs [OF assms(2) store_reach_inv [OF assms(1)]] assms(3) by (rule runs_evolveE)
  then show ?thesis by (intro bexI [of _ r']) (auto simp: evolves_def)
qed

theorem run_rows_evolve_witness:
  "\<exists>d. store_step demo_e d \<and> (\<exists>r' \<in> set (db_runs d). run_id r' = 11 \<and> run_head r' = ''h1'')"
proof -
  obtain d run where c: "RequestRunCancellation demo_env demo_e ''ann'' ''acme'' 11 1 = Inr (d, run)"
    by (rule demo_cancelled)
  from run_rows_evolve [OF demo_reach store_step.cancel [OF c], of demo_run] store_step.cancel [OF c]
  show ?thesis by (auto simp: demo_e_runs demo_run_def)
qed

text \<open>C13. The monthly limit is never exceeded: as long as the limits stay as they are, a step
  from a reachable database in which the committed usage of every tenant with a limit is within
  it leads to such a database again.\<close>

theorem quota_never_exceeded:
  assumes "store_reach d" "store_step d d'" "db_limits d' = db_limits d"
    and "\<forall>t p. 0 < hard_limit d t \<longrightarrow> committed_usage d t p \<le> hard_limit d t"
  shows "0 < hard_limit d' t \<longrightarrow> committed_usage d' t p \<le> hard_limit d' t"
  using store_step_quota [OF assms(2) store_reach_inv [OF assms(1)] _ assms(3)] assms(4)
  unfolding quota_ok_def by blast

theorem quota_never_exceeded_witness:
  "committed_usage demo_e 2 1 \<le> hard_limit demo_e 2"
proof -
  have "store_reach demo_db" by (rule store_reach.start) (simp add: store_empty_def demo_db_def)
  moreover have "db_limits demo_e = db_limits demo_db"
    by (simp add: demo_e_def demo_d_def demo_c_def demo_b_def demo_a_def)
  moreover have "\<forall>t p. 0 < hard_limit demo_db t \<longrightarrow> committed_usage demo_db t p \<le> hard_limit demo_db t"
    by (simp add: committed_usage_def demo_db_def)
  moreover have "0 < hard_limit demo_e 2"
    by (simp add: hard_limit_def demo_e_def demo_d_def demo_c_def demo_b_def demo_a_def demo_db_def)
  ultimately show ?thesis
    using quota_never_exceeded [OF _ store_step.create [OF demo_created]] by blast
qed

text \<open>A lost answer to a retry request can be asked for again: repeating a successful
  retry request with the same idempotency key, on the database it left, changes nothing and
  returns the same run, marked as replayed.\<close>

theorem retry_request_replayed:
  assumes "store_inv d" "RequestRunRetry e d actor slug runID input = Inr (d', res)"
  shows "RequestRunRetry e' d' actor slug runID input =
     Inr (d', \<lparr>rt_run = rt_run res, rt_replayed = True\<rparr>)"
  using assms by (rule retry_is_replayed)


text \<open>A store with one failed run, which is retried.\<close>

definition demo_failed_run :: ReviewRun where
  "demo_failed_run = demo_run\<lparr>run_state := RunFailed, run_revision := 2, run_finished := Some 50\<rparr>"

definition demo_failed :: db where
  "demo_failed = demo_db\<lparr>db_next := 20, db_requests := db_requests demo_a, db_jobs := [demo_job],
     db_runs := [demo_failed_run],
     db_events := [\<lparr>ev_run = 11, ev_revision = 1, ev_type = ''run.acknowledged'', ev_actor_kind = ''provider'',
         ev_actor_subject = '''', ev_payload = []\<rparr>,
       \<lparr>ev_run = 11, ev_revision = 2, ev_type = ''run.failed'', ev_actor_kind = ''worker'',
         ev_actor_subject = '''', ev_payload = []\<rparr>],
     db_reservations := [\<lparr>ur_tenant = 2, ur_run = 11, ur_repository = ''acme/app'', ur_reserved = 1,
       ur_settled = 0, ur_state = ''released'', ur_period = 1, ur_settled_at = Some 50\<rparr>],
     db_interventions := [\<lparr>in_id = 15, in_tenant = 2, in_run = 11, in_revision = 1,
       in_state = ReviewInterventionOpen, in_assignee = '''', in_claimed_at = None,
       in_resolved_at = None, in_resolved_by = '''', in_resolution = '''', in_reason = ''''\<rparr>]\<rparr>"

lemma demo_failed_inv: "store_inv demo_failed"
  by (simp add: store_invP_def ids_inv_def active_inv_def finish_inv_def ev_inv_def us_inv_def task_inv_def
      revs_def reservation_ok_def expected_usage_def needs_operator_def active_states_def
      demo_failed_def demo_failed_run_def demo_run_def demo_a_def demo_db_def numeral_2_eq_2)

definition demo_input :: RunRetryInput where
  "demo_input = \<lparr>ExpectedRevision = 2, IdempotencyKey = ''retry-0001''\<rparr>"

lemma demo_retry_guards: "retry_guards demo_failed ''ann'' ''acme'' 11 demo_input ''retry-0001'' 2 demo_failed_run"
proof -
  have "NormalizeRunRetryInput demo_input = Some \<lparr>ExpectedRevision = 2, IdempotencyKey = ''retry-0001''\<rparr>"
    by code_simp
  moreover have "authorizedTenantTx demo_failed ''ann'' ''acme'' = Inr (2, ''admin'')" by code_simp
  moreover have "interventionRoleAllowed ''admin''" by code_simp
  moreover have "workspaceSetupAllowsReview demo_failed 2" by code_simp
  moreover have "load_run demo_failed 11 2 = Some demo_failed_run" by code_simp
  ultimately show ?thesis by (auto simp: retry_guards_def)
qed


definition demo_retry :: ReviewRun where
  "demo_retry = demo_run\<lparr>run_id := 22, run_job := Some 21, run_trigger := ''retry''\<rparr>"

definition demo_r1 :: db where
  "demo_r1 = demo_failed\<lparr>db_next := 21, db_deliveries := [\<lparr>de_id = 20, de_provider = ''github'',
     de_delivery = (''manual-retry'', 11, ''retry-0001''), de_event = ''manual_retry'',
     de_payload = [(''source_run_id'', PUuid 11), (''source_revision'', PInt 2), (''actor'', PStr ''ann'')]\<rparr>]\<rparr>"

definition demo_r2 :: db where
  "demo_r2 = demo_r1\<lparr>db_next := 22, db_jobs := [demo_job, demo_job\<lparr>job_id := 21, job_delivery := 20\<rparr>]\<rparr>"

definition demo_r3 :: db where
  "demo_r3 = demo_r2\<lparr>db_next := 23, db_runs := [demo_failed_run, demo_retry]\<rparr>"

definition demo_r4 :: db where
  "demo_r4 = demo_r3\<lparr>db_retries := [\<lparr>rr_source = 11, rr_key = ''retry-0001'', rr_retry = 22, rr_actor = ''ann''\<rparr>]\<rparr>"

definition demo_r5 :: db where
  "demo_r5 = demo_r4\<lparr>db_configs := map (\<lambda>s. \<lparr>cs_run = 22, cs_section = s, cs_content = ''{}''\<rparr>) ReviewConfigSections\<rparr>"

definition demo_r6 :: db where
  "demo_r6 = (init_stages (set_current_run demo_r5 10 22) 22)\<lparr>db_events := db_events demo_failed @
     [\<lparr>ev_run = 22, ev_revision = 1, ev_type = ''run.acknowledged'', ev_actor_kind = ''user'',
       ev_actor_subject = ''ann'', ev_payload = [(''trigger'', PStr ''retry''), (''source_run_id'', PUuid 11),
         (''source_revision'', PInt 2), (''review_mode'', PStr ''standard'')]\<rparr>]\<rparr>"

lemma demo_retry_stages:
  "insert_delivery demo_failed ''github'' (''manual-retry'', 11, ''retry-0001'') ''manual_retry''
     [(''source_run_id'', PUuid 11), (''source_revision'', PInt 2), (''actor'', PStr ''ann'')] = Inr (demo_r1, 20)"
  "copy_job demo_r1 3 20 ''b0'' ''h1'' = Some (demo_r2, demo_job\<lparr>job_id := 21, job_delivery := 20\<rparr>)"
  "insert_run demo_r2 10 21 ''retry'' ''standard'' ''h1'' ''b0'' 7 = Inr (demo_r3, demo_retry)"
  "insert_retry (recordRuleRolloutRunSelections demo_r3 22 []) 11 ''retry-0001'' 22 ''ann'' = Inr demo_r4"
  "snapshotReviewConfigurations demo_env demo_r4 22 2
     \<lparr>sc_ref = ''acme/app'', sc_provider = ''github'', sc_api = ''https://api.github.com''\<rparr> = Inr demo_r5"
  "appendRunEvent (init_stages (set_current_run demo_r5 10 22) 22) 22 1 ''run.acknowledged'' ''user'' ''ann''
     [(''trigger'', PStr ''retry''), (''source_run_id'', PUuid 11), (''source_revision'', PInt 2),
      (''review_mode'', PStr ''standard'')] = Inr demo_r6"
  by code_simp+

lemma demo_retry_admitted:
  "is_ok (admitRunUsage demo_env (insertOutbox demo_r6 22 ''review.run.acknowledged''
     (RunKey 22 1 ''acknowledged'') [(''run_id'', PUuid 22), (''revision'', PInt 1)]) 2 ''acme/app'' demo_retry)"
  by code_simp

lemma demo_rows:
  "run_id demo_failed_run = 11" "run_revision demo_failed_run = 2" "run_base demo_failed_run = ''b0''"
  "run_head demo_failed_run = ''h1''" "run_request demo_failed_run = 10" "run_mode demo_failed_run = ''standard''"
  "run_state demo_failed_run = RunFailed" "run_job demo_failed_run = Some 3"
  "run_id demo_retry = 22" "run_revision demo_retry = 1" "run_mode demo_retry = ''standard''"
  "job_provider demo_job = ''github''" "job_id demo_job = 3" "job_repository demo_job = ''acme/app''"
  "job_api demo_job = ''https://api.github.com''"
  by (simp_all add: demo_failed_run_def demo_retry_def demo_run_def demo_job_def)

lemma demo_retried:
  obtains d res where "RequestRunRetry demo_env demo_failed ''ann'' ''acme'' 11 demo_input = Inr (d, res)"
proof -
  obtain x where x: "admitRunUsage demo_env (insertOutbox demo_r6 22 ''review.run.acknowledged''
     (RunKey 22 1 ''acknowledged'') [(''run_id'', PUuid 22), (''revision'', PInt 1)]) 2 ''acme/app'' demo_retry = Inr x"
    using demo_retry_admitted unfolding is_ok_iff by blast
  obtain d7 retry ok where x3: "x = (d7, retry, ok)" by (cases x)
  have "is_ok (create_retry demo_env demo_failed ''ann'' 2 demo_failed_run demo_job ''retry-0001'')"
    using x x3 by (simp add: create_retry_def demo_rows demo_retry_stages Let_def del: One_nat_def)
  moreover have "RequestRunRetry demo_env demo_failed ''ann'' ''acme'' 11 demo_input =
      create_retry demo_env demo_failed ''ann'' 2 demo_failed_run demo_job ''retry-0001''"
  proof -
    have "replayed_run demo_failed 11 ''retry-0001'' = None" by code_simp
    moreover have "retry_installation demo_failed 3 2 = Some demo_job" by code_simp
    moreover have "\<not> (\<exists>r \<in> set (db_runs demo_failed). run_request r = 10 \<and> run_state r \<in> active_states)"
      by code_simp
    moreover have "NormalizeRunRetryInput demo_input = Some demo_input" by code_simp
    ultimately show ?thesis
      using demo_retry_guards
      by (auto simp: RequestRunRetry_def retry_guards_def demo_rows demo_input_def)
  qed
  ultimately show thesis using that unfolding is_ok_iff by fastforce
qed

theorem retry_request_replayed_witness:
  "\<exists>d res. RequestRunRetry demo_env demo_failed ''ann'' ''acme'' 11 demo_input = Inr (d, res)
     \<and> RequestRunRetry demo_env d ''ann'' ''acme'' 11 demo_input =
       Inr (d, \<lparr>rt_run = rt_run res, rt_replayed = True\<rparr>)"
proof -
  obtain d res where r: "RequestRunRetry demo_env demo_failed ''ann'' ''acme'' 11 demo_input = Inr (d, res)"
    by (rule demo_retried)
  with retry_request_replayed [OF demo_failed_inv r] show ?thesis by blast
qed

text \<open>C14. A cancelled run is fenced: after a successful cancellation, and after any further
  transactions, every stage signal of the worker for its job is consumed without changing
  anything, and answers with the cancelled run.\<close>

theorem cancelled_run_is_fenced:
  assumes "store_reach d" "RequestRunCancellation e d actor slug i n = Inr (d1, run)"
    and "run_job run = Some jobID" "store_step\<^sup>*\<^sup>* d1 d2"
  shows "\<exists>r. AdvanceLegacyRun e' d2 jobID nxt = Inr (d2, r) \<and> run_id r = i \<and> run_state r = RunCancelled"
  using cancelled_is_fenced [OF assms] by blast

theorem cancelled_run_is_fenced_witness:
  "\<exists>d1 r. AdvanceLegacyRun demo_env d1 3 RunPublishing = Inr (d1, r) \<and> run_id r = 11
     \<and> run_state r = RunCancelled"
proof -
  obtain d1 run where "RequestRunCancellation demo_env demo_e ''ann'' ''acme'' 11 1 = Inr (d1, run)"
    "run_job run = Some 3" by (rule demo_cancelled)
  from cancelled_run_is_fenced [OF demo_reach this rtranclp.rtrancl_refl] show ?thesis by blast
qed

text \<open>C15. An accepted stage signal always commits: in a reachable database, when the transition
  of the run of a job is accepted by the table, \<open>AdvanceLegacyRun\<close> succeeds (none of the
  constraints of the tables it writes can fail), returns the run in the new state with the next
  revision, and a second delivery of the same signal is a no-op.\<close>

theorem accepted_signal_commits:
  assumes "store_reach d" "row_by run_job (Some jobID) (db_runs d) = Some r"
    and "CanTransitionTo (run_state r) t"
  shows "\<exists>d' r'. AdvanceLegacyRun e d jobID t = Inr (d', r') \<and> run_id r' = run_id r \<and> run_state r' = t
     \<and> run_revision r' = Suc (run_revision r)
     \<and> (\<exists>r''. AdvanceLegacyRun e' d' jobID t = Inr (d', r'') \<and> run_state r'' = t)"
proof -
  have inv: "store_inv d" using store_reach_inv [OF assms(1)] .
  obtain d' where d': "AdvanceLegacyRun e d jobID t =
      Inr (d', r\<lparr>run_state := t, run_revision := Suc (run_revision r)\<rparr>)"
    "run_changed e d d' r (advance_update e r t)"
    using AdvanceLegacyRun_commits [OF inv assms(2,3)] by blast
  have r: "r \<in> set (db_runs d)" "run_job r = Some jobID" using row_by_SomeD [OF assms(2)] by blast+
  have step: "store_step d d'" using store_step.advance [OF d'(1)] .
  have runs: "set (db_runs d') = insert (advance_update e r t r) {x \<in> set (db_runs d). run_id x \<noteq> run_id r}"
    using d'(2) set_set_run [OF store_invPD(8) [OF inv] r(1)] unfolding run_changed_def by simp
  then have new: "advance_update e r t r \<in> set (db_runs d')" by simp
  obtain x where x: "row_by run_job (Some jobID) (db_runs d') = Some x"
    using new r(2) by (metis advance_update_simps(3) image_eqI not_Some_eq row_by_None_iff)
  then have mem: "x \<in> set (db_runs d')" "run_job x = Some jobID" by (auto dest: row_by_SomeD)
  have "run_id x = run_id r"
    using store_reach_jobs [OF store_reach.step [OF assms(1) step]] mem new r(2)
    unfolding jobs_inv_def by (metis advance_update_simps(1,3) option.distinct(1))
  then have x_eq: "x = advance_update e r t r" using mem(1) runs by auto
  have "run_cancel_at x = None"
    using not_cancelled_yet(1) [OF inv r(1) CanTransitionTo_not_Terminal [OF assms(3)]] x_eq by simp
  then have "AdvanceLegacyRun e' d' jobID t = Inr (d', x) \<and> run_state x = t"
    using x x_eq by (simp add: AdvanceLegacyRun_def advance_target_def)
  then show ?thesis using d'(1) by (intro exI [of _ d'] exI) auto
qed

theorem accepted_signal_commits_witness:
  "\<exists>d' r'. AdvanceLegacyRun demo_env demo_e 3 RunAdmitted = Inr (d', r') \<and> run_state r' = RunAdmitted
     \<and> run_revision r' = 2"
proof -
  have "row_by run_job (Some 3) (db_runs demo_e) = Some demo_run"
    by (simp add: demo_e_runs demo_run_def)
  from accepted_signal_commits [OF demo_reach this, of RunAdmitted demo_env demo_env]
  show ?thesis by (auto simp: demo_run_def CanTransitionTo_def)
qed


end
