(* ===== verification/Messaging.thy ===== *)
theory Messaging
  imports Store_Tables
begin

text \<open>
  The hand-off between the database and the message broker: the outbox and inbox statements of
  \<open>src/internal/store/workflow.go\<close>, \<open>Relay.Flush\<close> (\<open>src/internal/messaging/relay.go\<close>),
  \<open>HandleExactlyOnce\<close> (\<open>src/internal/messaging/consumer.go\<close>) and \<open>outboxMessagePriority\<close>
  (\<open>src/internal/messaging/amqp.go\<close>).

  \<open>Flush\<close> and \<open>HandleExactlyOnce\<close> call the store through the interface \<open>WorkflowStore\<close>, so
  they are functions of its operations. The contracts they rely on are the locales
  \<open>outbox_contract\<close> and \<open>inbox_contract\<close>, interpreted on the PostgreSQL statements. A time is
  a number of nanoseconds; the statements of one call read the clock \<open>mb_now\<close> of the state.

  What the database leaves open is a parameter: the order in which \<open>UPDATE \<dots> RETURNING\<close> gives
  its rows (\<open>ord\<close>, the position of a row in the answer) and the rows another transaction has locked at the moment, which
  \<open>SKIP LOCKED\<close> passes over (\<open>busy\<close>). The publisher is a parameter too: a function of the
  broker's state that answers with an error or none. The column \<open>publish_attempts\<close> is a natural
  number; its 32 bits cannot overflow within the life of a system, as two claims of a row are
  at least a lease apart, but \<open>power(2, publish_attempts)\<close> is a double that can.
\<close>

section \<open>State\<close>

definition second :: int where
  "second = 1000000000"

definition outboxLease :: int where
  "outboxLease = 30 * second"

definition inboxLease :: int where
  "inboxLease = 600 * second"

lemma second_pos [simp]: "0 < second" by (simp add: second_def)

lemma inboxLease_pos [simp]: "0 < inboxLease" by (simp add: inboxLease_def second_def)

record OutboxMessage = OutboxRow +
  om_available :: gotime
  om_attempts :: nat
  om_locked_by :: "string option"
  om_locked_until :: "gotime option"
  om_published :: "gotime option"
  om_error :: "string option"
  om_created :: gotime

datatype InboxState = InClaimed | InCompleted | InReleased

record InboxMessage =
  im_consumer :: string
  im_message :: uuid
  im_state :: InboxState
  im_token :: "uuid option"
  im_locked_until :: "gotime option"
  im_attempt :: nat
  im_completed :: "gotime option"
  im_error :: "string option"

record mb =
  mb_now :: gotime
  mb_next :: uuid
  mb_outbox :: "OutboxMessage list"
  mb_inbox :: "InboxMessage list"

datatype msg_error = MsgInvalid string | ErrJobClaimLost | ErrInboxClaimLost | MsgOutOfRange

section \<open>Priorities\<close>

definition payload_text :: "payload \<Rightarrow> string \<Rightarrow> string option" where
  "payload_text p k = (case map_of p k of Some (PStr s) \<Rightarrow> Some s | _ \<Rightarrow> None)"

definition outboxMessagePriority :: "'a OutboxRow_scheme \<Rightarrow> nat" where
  "outboxMessagePriority m =
     (let t = ob_topic m in
      if t = ''review.interaction.response'' then 31
      else if t = ''review.run.acknowledged'' then 28
      else if t = ''review.interaction.admission'' then 24
      else if t = ''review.run.admitted''
      then (if payload_text (ob_payload m) ''review_mode'' = Some ''security'' then 8 else 4)
      else if t = ''agent.task.execute.requested'' then 4
      else if t = ''agent.task.source.resolve.requested'' then 6
      else if t = ''agent.task.cancel.requested'' then 16
      else if t \<in> {''review.run.cancelled'', ''review.run.superseded'', ''review.run.failed'',
                   ''review.run.needs_attention''} then 16
      else if t \<in> {''external.issue.create'', ''external.issue.close'', ''provider.issue.acknowledge''} then 8
      else if t = ''provider.issue.analyze'' then 4
      else if t = ''notification.destination.test'' then 6
      else 4)"

text \<open>The \<open>CASE\<close> of the claiming statement.\<close>

definition claim_class :: "'a OutboxRow_scheme \<Rightarrow> nat" where
  "claim_class m =
     (let t = ob_topic m in
      if t = ''review.interaction.response'' then 31
      else if t = ''review.run.acknowledged'' then 28
      else if t = ''review.interaction.admission'' then 24
      else if t \<in> {''review.run.cancelled'', ''review.run.superseded'', ''review.run.failed'',
                   ''review.run.needs_attention''} then 16
      else if t = ''review.run.admitted'' \<and> payload_text (ob_payload m) ''review_mode'' = Some ''security'' then 8
      else if t = ''external.issue.create'' then 8
      else if t = ''notification.destination.test'' then 6
      else 4)"

section \<open>Outbox statements\<close>

definition claimable :: "mb \<Rightarrow> OutboxMessage \<Rightarrow> bool" where
  "claimable d m \<longleftrightarrow> om_published m = None \<and> om_available m \<le> mb_now d
     \<and> (case om_locked_until m of None \<Rightarrow> True | Some t \<Rightarrow> t < mb_now d)"

definition claim_order :: "OutboxMessage \<Rightarrow> int \<times> gotime \<times> uuid" where
  "claim_order m = (- int (claim_class m), om_created m, ob_id m)"

definition candidates :: "uuid set \<Rightarrow> mb \<Rightarrow> int \<Rightarrow> OutboxMessage list" where
  "candidates busy d limit =
     take (nat limit) (sort_key claim_order (filter (\<lambda>m. claimable d m \<and> ob_id m \<notin> busy) (mb_outbox d)))"

definition ClaimOutbox ::
  "(OutboxMessage \<Rightarrow> nat) \<Rightarrow> uuid set \<Rightarrow> mb \<Rightarrow> string \<Rightarrow> int
   \<Rightarrow> msg_error + (mb \<times> OutboxMessage list)" where
  "ClaimOutbox ord busy d relayID limit =
     (if relayID = '''' \<or> limit < 1 \<or> limit > 100
      then Inl (MsgInvalid ''relay id and an outbox limit from 1 to 100 are required'')
      else let ids = ob_id ` set (candidates busy d limit);
               rows = update_where (\<lambda>m. ob_id m \<in> ids)
                 (\<lambda>m. m\<lparr>om_locked_by := Some relayID, om_locked_until := Some (mb_now d + outboxLease),
                        om_attempts := Suc (om_attempts m)\<rparr>) (mb_outbox d)
           in Inr (d\<lparr>mb_outbox := rows\<rparr>, sort_key ord (filter (\<lambda>m. ob_id m \<in> ids) rows)))"

definition held_row :: "uuid \<Rightarrow> string \<Rightarrow> OutboxMessage \<Rightarrow> bool" where
  "held_row i relayID m \<longleftrightarrow> ob_id m = i \<and> om_locked_by m = Some relayID \<and> om_published m = None"

definition MarkOutboxPublished :: "mb \<Rightarrow> uuid \<Rightarrow> string \<Rightarrow> msg_error + mb" where
  "MarkOutboxPublished d messageID relayID =
     (if length (filter (held_row messageID relayID) (mb_outbox d)) \<noteq> 1 then Inl ErrJobClaimLost
      else Inr (d\<lparr>mb_outbox := update_where (held_row messageID relayID)
             (\<lambda>m. m\<lparr>om_published := Some (mb_now d), om_locked_by := None, om_locked_until := None,
                    om_error := None\<rparr>) (mb_outbox d)\<rparr>))"

text \<open>\<open>LEAST(900, 5 * power(2, publish_attempts))\<close> in seconds: the product is a double, out of
  range from \<open>5 * 2 ^ 1022\<close> on.\<close>

definition backoff :: "nat \<Rightarrow> int" where
  "backoff attempts = min 900 (5 * 2 ^ attempts) * second"

definition backoff_overflows :: "nat \<Rightarrow> bool" where
  "backoff_overflows attempts \<longleftrightarrow> 1022 \<le> attempts"

definition ReleaseOutbox :: "mb \<Rightarrow> uuid \<Rightarrow> string \<Rightarrow> string \<Rightarrow> msg_error + mb" where
  "ReleaseOutbox d messageID relayID reason =
     (let rows = filter (held_row messageID relayID) (mb_outbox d) in
      if \<exists>m \<in> set rows. backoff_overflows (om_attempts m) then Inl MsgOutOfRange
      else if length rows \<noteq> 1 then Inl ErrJobClaimLost
      else Inr (d\<lparr>mb_outbox := update_where (held_row messageID relayID)
             (\<lambda>m. m\<lparr>om_locked_by := None, om_locked_until := None, om_error := Some reason,
                    om_available := mb_now d + backoff (om_attempts m)\<rparr>) (mb_outbox d)\<rparr>))"

section \<open>Inbox statements\<close>

definition inbox_key :: "InboxMessage \<Rightarrow> string \<times> uuid" where
  "inbox_key m = (im_consumer m, im_message m)"

definition reclaimable :: "mb \<Rightarrow> InboxMessage \<Rightarrow> bool" where
  "reclaimable d m \<longleftrightarrow> im_state m = InReleased
     \<or> im_state m = InClaimed \<and> (case im_locked_until m of None \<Rightarrow> False | Some t \<Rightarrow> t < mb_now d)"

text \<open>The result is the claim token and whether the message was claimed.\<close>

definition ClaimInbox :: "mb \<Rightarrow> string \<Rightarrow> uuid \<Rightarrow> msg_error + (mb \<times> uuid \<times> bool)" where
  "ClaimInbox d consumer messageID =
     (if consumer = '''' \<or> messageID = 0 then Inl (MsgInvalid ''consumer and message id are required'')
      else let claimToken = mb_next d; d' = d\<lparr>mb_next := Suc (mb_next d)\<rparr> in
        case row_by inbox_key (consumer, messageID) (mb_inbox d) of
          None \<Rightarrow> Inr (d'\<lparr>mb_inbox := mb_inbox d @
              [\<lparr>im_consumer = consumer, im_message = messageID, im_state = InClaimed,
                im_token = Some claimToken, im_locked_until = Some (mb_now d + inboxLease),
                im_attempt = 1, im_completed = None, im_error = None\<rparr>]\<rparr>, claimToken, True)
        | Some m \<Rightarrow>
            if reclaimable d m
            then Inr (d'\<lparr>mb_inbox := update_where (\<lambda>m. inbox_key m = (consumer, messageID))
                 (\<lambda>m. m\<lparr>im_state := InClaimed, im_token := Some claimToken,
                        im_locked_until := Some (mb_now d + inboxLease),
                        im_attempt := Suc (im_attempt m), im_error := None\<rparr>) (mb_inbox d)\<rparr>, claimToken, True)
            else Inr (d, 0, False))"

definition token_row :: "string \<Rightarrow> uuid \<Rightarrow> uuid \<Rightarrow> InboxMessage \<Rightarrow> bool" where
  "token_row consumer messageID claimToken m \<longleftrightarrow>
     inbox_key m = (consumer, messageID) \<and> im_state m = InClaimed \<and> im_token m = Some claimToken"

definition CompleteInbox :: "mb \<Rightarrow> string \<Rightarrow> uuid \<Rightarrow> uuid \<Rightarrow> msg_error + mb" where
  "CompleteInbox d consumer messageID claimToken =
     (if length (filter (token_row consumer messageID claimToken) (mb_inbox d)) \<noteq> 1 then Inl ErrInboxClaimLost
      else Inr (d\<lparr>mb_inbox := update_where (token_row consumer messageID claimToken)
             (\<lambda>m. m\<lparr>im_state := InCompleted, im_completed := Some (mb_now d), im_locked_until := None,
                    im_error := None\<rparr>) (mb_inbox d)\<rparr>))"

definition ReleaseInbox :: "mb \<Rightarrow> string \<Rightarrow> uuid \<Rightarrow> uuid \<Rightarrow> string \<Rightarrow> msg_error + mb" where
  "ReleaseInbox d consumer messageID claimToken reason =
     (if length (filter (token_row consumer messageID claimToken) (mb_inbox d)) \<noteq> 1 then Inl ErrInboxClaimLost
      else Inr (d\<lparr>mb_inbox := update_where (token_row consumer messageID claimToken)
             (\<lambda>m. m\<lparr>im_state := InReleased, im_locked_until := None, im_error := Some reason\<rparr>) (mb_inbox d)\<rparr>))"

section \<open>The relay\<close>

record Relay =
  RelayID :: string
  BatchSize :: int
  PublishTimeout :: int

datatype flush_error = FlushConfig | FlushTimeout | FlushClaim msg_error
  | FlushRelease uuid string msg_error | FlushMark uuid msg_error | FlushPublish "(uuid \<times> string) list"

text \<open>\<open>errors.Join\<close>: no error when there is none.\<close>

definition Join :: "(uuid \<times> string) list \<Rightarrow> flush_error option" where
  "Join es = (if es = [] then None else Some (FlushPublish es))"

fun flush_loop ::
  "('s \<Rightarrow> uuid \<Rightarrow> string \<Rightarrow> msg_error + 's) \<Rightarrow> ('s \<Rightarrow> uuid \<Rightarrow> string \<Rightarrow> string \<Rightarrow> msg_error + 's)
   \<Rightarrow> ('b \<Rightarrow> 'a OutboxRow_scheme \<Rightarrow> string option \<times> 'b) \<Rightarrow> string \<Rightarrow> 'a OutboxRow_scheme list
   \<Rightarrow> nat \<Rightarrow> (uuid \<times> string) list \<Rightarrow> 's \<Rightarrow> 'b \<Rightarrow> 's \<times> 'b \<times> nat \<times> flush_error option" where
  "flush_loop mark release publish relayID [] published errs s b = (s, b, published, Join errs)"
| "flush_loop mark release publish relayID (m # ms) published errs s b =
     (case publish b m of
        (Some publishErr, b) \<Rightarrow>
          (case release s (ob_id m) relayID publishErr of
             Inl releaseErr \<Rightarrow> (s, b, published, Some (FlushRelease (ob_id m) publishErr releaseErr))
           | Inr s \<Rightarrow> flush_loop mark release publish relayID ms published (errs @ [(ob_id m, publishErr)]) s b)
      | (None, b) \<Rightarrow>
          (case mark s (ob_id m) relayID of
             Inl err \<Rightarrow> (s, b, published, Some (FlushMark (ob_id m) err))
           | Inr s \<Rightarrow> flush_loop mark release publish relayID ms (Suc published) errs s b))"

definition by_priority :: "'a OutboxRow_scheme list \<Rightarrow> 'a OutboxRow_scheme list" where
  "by_priority ms = sort_key (\<lambda>m. - int (outboxMessagePriority m)) ms"

definition Flush ::
  "('s \<Rightarrow> string \<Rightarrow> int \<Rightarrow> msg_error + ('s \<times> 'a OutboxRow_scheme list))
   \<Rightarrow> ('s \<Rightarrow> uuid \<Rightarrow> string \<Rightarrow> msg_error + 's) \<Rightarrow> ('s \<Rightarrow> uuid \<Rightarrow> string \<Rightarrow> string \<Rightarrow> msg_error + 's)
   \<Rightarrow> (int \<Rightarrow> 'b \<Rightarrow> 'a OutboxRow_scheme \<Rightarrow> string option \<times> 'b) \<Rightarrow> Relay \<Rightarrow> 's \<Rightarrow> 'b
   \<Rightarrow> 's \<times> 'b \<times> nat \<times> flush_error option" where
  "Flush claim mark release publish r s b =
     (if RelayID r = '''' then (s, b, 0, Some FlushConfig)
      else let batchSize = (if BatchSize r = 0 then 1 else BatchSize r);
               publishTimeout = (if PublishTimeout r = 0 then 15 * second else PublishTimeout r) in
        if publishTimeout < 0 \<or> publishTimeout \<ge> 25 * second then (s, b, 0, Some FlushTimeout)
        else case claim s (RelayID r) batchSize of
          Inl e \<Rightarrow> (s, b, 0, Some (FlushClaim e))
        | Inr (s, messages) \<Rightarrow>
            flush_loop mark release (publish publishTimeout) (RelayID r) (by_priority messages) 0 [] s b)"

section \<open>The consumer\<close>

datatype handle_error = HandleConfig | HandleClaim msg_error | HandleFailed string
  | HandleRelease string msg_error | HandleComplete msg_error

text \<open>The handler works on the store and on a world outside of it; both may change while it
  runs, also by what other processes do at that time.\<close>

definition HandleExactlyOnce ::
  "('s \<Rightarrow> string \<Rightarrow> uuid \<Rightarrow> msg_error + ('s \<times> uuid \<times> bool)) \<Rightarrow> ('s \<Rightarrow> string \<Rightarrow> uuid \<Rightarrow> uuid \<Rightarrow> msg_error + 's)
   \<Rightarrow> ('s \<Rightarrow> string \<Rightarrow> uuid \<Rightarrow> uuid \<Rightarrow> string \<Rightarrow> msg_error + 's)
   \<Rightarrow> (uuid \<Rightarrow> 's \<times> 'w \<Rightarrow> string option \<times> 's \<times> 'w) \<Rightarrow> string \<Rightarrow> uuid
   \<Rightarrow> 's \<times> 'w \<Rightarrow> ('s \<times> 'w) \<times> handle_error option" where
  "HandleExactlyOnce claim complete release handler consumer messageID sw =
     (if consumer = '''' then (sw, Some HandleConfig)
      else case claim (fst sw) consumer messageID of
        Inl e \<Rightarrow> (sw, Some (HandleClaim e))
      | Inr (s, claimToken, claimed) \<Rightarrow>
          if \<not> claimed then ((s, snd sw), None)
          else (case handler messageID (s, snd sw) of
            (Some err, s, w) \<Rightarrow>
              (case release s consumer messageID claimToken err of
                 Inl releaseErr \<Rightarrow> ((s, w), Some (HandleRelease err releaseErr))
               | Inr s \<Rightarrow> ((s, w), Some (HandleFailed err)))
          | (None, s, w) \<Rightarrow>
              (case complete s consumer messageID claimToken of
                 Inl err \<Rightarrow> ((s, w), Some (HandleComplete err))
               | Inr s \<Rightarrow> ((s, w), None))))"

section \<open>The contract of the outbox\<close>

text \<open>What the publisher answers to a sequence of messages, and the state it is left in.\<close>

fun sends :: "('b \<Rightarrow> 'm \<Rightarrow> string option \<times> 'b) \<Rightarrow> 'b \<Rightarrow> 'm list \<Rightarrow> string option list \<times> 'b" where
  "sends publish b [] = ([], b)"
| "sends publish b (m # ms) =
     (let (out, b) = publish b m; (outs, b) = sends publish b ms in (out # outs, b))"

lemma length_sends [simp]: "length (fst (sends publish b ms)) = length ms"
  by (induction ms arbitrary: b) (auto simp: case_prod_beta Let_def)

definition accepted :: "string option list \<Rightarrow> nat" where
  "accepted outs = length (filter (\<lambda>out. out = None) outs)"

definition refused :: "'a OutboxRow_scheme list \<Rightarrow> string option list \<Rightarrow> (uuid \<times> string) list" where
  "refused ms outs = map (\<lambda>(m, out). (ob_id m, the out)) (filter (\<lambda>(m, out). out \<noteq> None) (zip ms outs))"

text \<open>\<open>row\<close> is what the store shows of one message; \<open>holds\<close>, \<open>sent\<close>, \<open>waiting\<close> and \<open>calm\<close> read
  from it that a relay has the lease, that it is published, that it is back in the queue, and that
  its retry delay is in range.\<close>

locale outbox_contract =
  fixes claim :: "'s \<Rightarrow> string \<Rightarrow> int \<Rightarrow> msg_error + ('s \<times> 'a OutboxRow_scheme list)"
    and mark :: "'s \<Rightarrow> uuid \<Rightarrow> string \<Rightarrow> msg_error + 's"
    and release :: "'s \<Rightarrow> uuid \<Rightarrow> string \<Rightarrow> string \<Rightarrow> msg_error + 's"
    and wf :: "'s \<Rightarrow> bool"
    and row :: "'s \<Rightarrow> uuid \<Rightarrow> 'v"
    and holds :: "'v \<Rightarrow> string \<Rightarrow> bool"
    and sent :: "'v \<Rightarrow> bool"
    and waiting :: "'v \<Rightarrow> bool"
    and calm :: "'v \<Rightarrow> bool"
  assumes claim_distinct: "wf s \<Longrightarrow> claim s relay n = Inr (s', ms) \<Longrightarrow> distinct (map ob_id ms)"
    and claim_holds: "wf s \<Longrightarrow> claim s relay n = Inr (s', ms) \<Longrightarrow> m \<in> set ms \<Longrightarrow> holds (row s' (ob_id m)) relay"
    and claim_frame: "wf s \<Longrightarrow> claim s relay n = Inr (s', ms) \<Longrightarrow> j \<notin> ob_id ` set ms \<Longrightarrow> row s' j = row s j"
    and mark_held: "holds (row s i) relay \<Longrightarrow>
      \<exists>s'. mark s i relay = Inr s' \<and> sent (row s' i) \<and> (\<forall>j. j \<noteq> i \<longrightarrow> row s' j = row s j)"
    and release_held: "holds (row s i) relay \<Longrightarrow> calm (row s i) \<Longrightarrow>
      \<exists>s'. release s i relay reason = Inr s' \<and> waiting (row s' i)
        \<and> (\<forall>j. j \<noteq> i \<longrightarrow> row s' j = row s j)"
begin

text \<open>The outcome of one message after the loop.\<close>

definition settled :: "'s \<Rightarrow> uuid \<Rightarrow> string option \<Rightarrow> bool" where
  "settled s i out \<longleftrightarrow> (if out = None then sent (row s i) else waiting (row s i))"

lemma one_message:
  assumes "holds (row s (ob_id m)) relay" "calm (row s (ob_id m))" "publish b m = (out, b1)"
  obtains s1 where "settled s1 (ob_id m) out" "\<And>j. j \<noteq> ob_id m \<Longrightarrow> row s1 j = row s j"
    and "\<And>ms n es. flush_loop mark release publish relay (m # ms) n es s b =
      flush_loop mark release publish relay ms (n + accepted [out]) (es @ refused [m] [out]) s1 b1"
proof (cases out)
  case None
  then show thesis
    using that mark_held [OF assms(1)] assms(3) by (auto simp: settled_def accepted_def refused_def)
next
  case (Some e)
  then show thesis
    using that release_held [OF assms(1,2), of e] assms(3) by (auto simp: settled_def accepted_def refused_def)
qed

lemma loop_settles:
  assumes "distinct (map ob_id ms)"
    and "\<And>m. m \<in> set ms \<Longrightarrow> holds (row s (ob_id m)) relay \<and> calm (row s (ob_id m))"
  shows "\<exists>s'. flush_loop mark release publish relay ms n es s b =
       (s', snd (sends publish b ms), n + accepted (fst (sends publish b ms)),
        Join (es @ refused ms (fst (sends publish b ms))))
     \<and> (\<forall>(m, out) \<in> set (zip ms (fst (sends publish b ms))). settled s' (ob_id m) out)
     \<and> (\<forall>j. j \<notin> ob_id ` set ms \<longrightarrow> row s' j = row s j)"
  using assms
proof (induction ms arbitrary: s b n es)
  case Nil
  then show ?case by (simp add: accepted_def refused_def)
next
  case (Cons m ms)
  obtain out b1 where p: "publish b m = (out, b1)" by fastforce
  obtain s1 where s1: "settled s1 (ob_id m) out" "\<And>j. j \<noteq> ob_id m \<Longrightarrow> row s1 j = row s j"
    "\<And>ms n es. flush_loop mark release publish relay (m # ms) n es s b =
      flush_loop mark release publish relay ms (n + accepted [out]) (es @ refused [m] [out]) s1 b1"
    using one_message [of s m relay publish b out b1] p Cons.prems(2) [of m] by auto
  have other: "ob_id x \<noteq> ob_id m" if "x \<in> set ms" for x
    using Cons.prems(1) imageI [OF that, of ob_id] by auto
  have held: "holds (row s1 (ob_id x)) relay \<and> calm (row s1 (ob_id x))" if "x \<in> set ms" for x
    using Cons.prems(2) [of x] that s1(2) [OF other [OF that]] by simp
  have "distinct (map ob_id ms)" using Cons.prems(1) by simp
  from Cons.IH [OF this held, where n = "n + accepted [out]" and es = "es @ refused [m] [out]" and b = b1]
  obtain s' where s': "flush_loop mark release publish relay ms (n + accepted [out])
        (es @ refused [m] [out]) s1 b1 =
       (s', snd (sends publish b1 ms), n + accepted [out] + accepted (fst (sends publish b1 ms)),
        Join ((es @ refused [m] [out]) @ refused ms (fst (sends publish b1 ms))))"
     "\<forall>(m, out) \<in> set (zip ms (fst (sends publish b1 ms))). settled s' (ob_id m) out"
     "\<forall>j. j \<notin> ob_id ` set ms \<longrightarrow> row s' j = row s1 j"
    by blast
  have "ob_id m \<notin> ob_id ` set ms" using Cons.prems(1) by simp
  then have "settled s' (ob_id m) out" using s1(1) s'(3) by (simp add: settled_def)
  then show ?case
    using s' s1(2,3) p
    by (intro exI [of _ s']) (auto simp: case_prod_beta Let_def accepted_def refused_def)
qed

text \<open>A flush in which the leases last: every claimed message is handed to the publisher once,
  in the order of their priorities, and ends published or back in the queue.\<close>

lemma flush_settles:
  assumes "wf s" "claim s (RelayID r) batch = Inr (s1, ms)" "RelayID r \<noteq> ''''"
    and "batch = (if BatchSize r = 0 then 1 else BatchSize r)"
    and "timeout = (if PublishTimeout r = 0 then 15 * second else PublishTimeout r)"
    and "0 \<le> timeout" "timeout < 25 * second"
    and "\<And>m. m \<in> set ms \<Longrightarrow> calm (row s1 (ob_id m))"
    and "sends (publish timeout) b (by_priority ms) = (outs, b')"
  shows "\<exists>s'. Flush claim mark release publish r s b =
       (s', b', accepted outs, Join (refused (by_priority ms) outs))
     \<and> (\<forall>(m, out) \<in> set (zip (by_priority ms) outs). settled s' (ob_id m) out)
     \<and> (\<forall>j. j \<notin> ob_id ` set ms \<longrightarrow> row s' j = row s j)"
proof -
  have "mset (map ob_id (by_priority ms)) = mset (map ob_id ms)" by (simp add: by_priority_def)
  then have d: "distinct (map ob_id (by_priority ms))"
    using claim_distinct [OF assms(1,2)] mset_eq_imp_distinct_iff by blast
  have "holds (row s1 (ob_id m)) (RelayID r) \<and> calm (row s1 (ob_id m))" if "m \<in> set (by_priority ms)" for m
    using that claim_holds [OF assms(1,2)] assms(8) by (simp add: by_priority_def)
  from loop_settles [OF d this, of "publish timeout" 0 "[]" b] assms(9) obtain s' where
    "flush_loop mark release (publish timeout) (RelayID r) (by_priority ms) 0 [] s1 b =
       (s', b', accepted outs, Join (refused (by_priority ms) outs))"
    "\<forall>(m, out) \<in> set (zip (by_priority ms) outs). settled s' (ob_id m) out"
    "\<forall>j. j \<notin> ob_id ` set (by_priority ms) \<longrightarrow> row s' j = row s1 j" by auto
  then show ?thesis
    using assms(2-7) claim_frame [OF assms(1,2)]
    by (intro exI [of _ s']) (auto simp: Flush_def by_priority_def not_le not_less)
qed

end

section \<open>The contract of the inbox\<close>

text \<open>The abstract state of a message at a consumer: never seen or given back, being worked on
  under a token, the same with an expired lease, or done for good.\<close>

datatype inbox_status = Free | Held uuid | Expired uuid | Done

locale inbox_contract =
  fixes claim :: "'s \<Rightarrow> string \<Rightarrow> uuid \<Rightarrow> msg_error + ('s \<times> uuid \<times> bool)"
    and complete :: "'s \<Rightarrow> string \<Rightarrow> uuid \<Rightarrow> uuid \<Rightarrow> msg_error + 's"
    and release :: "'s \<Rightarrow> string \<Rightarrow> uuid \<Rightarrow> uuid \<Rightarrow> string \<Rightarrow> msg_error + 's"
    and wf :: "'s \<Rightarrow> bool"
    and status :: "'s \<Rightarrow> string \<Rightarrow> uuid \<Rightarrow> inbox_status"
  assumes claim_free: "wf s \<Longrightarrow> c \<noteq> '''' \<Longrightarrow> m \<noteq> 0 \<Longrightarrow> status s c m = Free \<or> (\<exists>t. status s c m = Expired t) \<Longrightarrow>
      \<exists>s' t. claim s c m = Inr (s', t, True) \<and> wf s' \<and> status s' c m = Held t"
    and claim_taken: "wf s \<Longrightarrow> c \<noteq> '''' \<Longrightarrow> m \<noteq> 0 \<Longrightarrow> status s c m = Done \<or> (\<exists>t. status s c m = Held t) \<Longrightarrow>
      claim s c m = Inr (s, 0, False)"
    and complete_token: "wf s \<Longrightarrow> status s c m \<in> {Held t, Expired t} \<Longrightarrow>
      \<exists>s'. complete s c m t = Inr s' \<and> wf s' \<and> status s' c m = Done"
    and complete_other: "wf s \<Longrightarrow> status s c m \<notin> {Held t, Expired t} \<Longrightarrow> complete s c m t = Inl ErrInboxClaimLost"
    and release_token: "wf s \<Longrightarrow> status s c m \<in> {Held t, Expired t} \<Longrightarrow>
      \<exists>s'. release s c m t reason = Inr s' \<and> wf s' \<and> status s' c m = Free"
    and release_other: "wf s \<Longrightarrow> status s c m \<notin> {Held t, Expired t} \<Longrightarrow> release s c m t reason = Inl ErrInboxClaimLost"
begin

text \<open>A message that is done, or that another worker holds, is acknowledged to the broker and
  nothing happens: the handler does not run.\<close>

lemma handle_taken:
  assumes "wf s" "c \<noteq> ''''" "m \<noteq> 0" "status s c m = Done \<or> (\<exists>t. status s c m = Held t)"
  shows "HandleExactlyOnce claim complete release handler c m (s, w) = ((s, w), None)"
  using claim_taken [OF assms] assms(2) by (simp add: HandleExactlyOnce_def)

text \<open>The handler runs under a token; when it succeeds and nobody took the claim over, the
  message is done.\<close>

lemma handle_success:
  assumes "wf s" "c \<noteq> ''''" "m \<noteq> 0" "status s c m = Free \<or> (\<exists>t. status s c m = Expired t)"
    and "\<And>s' t. claim s c m = Inr (s', t, True) \<Longrightarrow>
      \<exists>s2. handler m (s', w) = (None, s2, w2) \<and> wf s2 \<and> status s2 c m \<in> {Held t, Expired t}"
  shows "\<exists>s3. HandleExactlyOnce claim complete release handler c m (s, w) = ((s3, w2), None)
     \<and> wf s3 \<and> status s3 c m = Done"
proof -
  obtain s' t where c: "claim s c m = Inr (s', t, True)" using claim_free [OF assms(1-4)] by blast
  obtain s2 where s2: "handler m (s', w) = (None, s2, w2)" "wf s2" "status s2 c m \<in> {Held t, Expired t}"
    using assms(5) [OF c] by blast
  obtain s3 where "complete s2 c m t = Inr s3" "wf s3" "status s3 c m = Done"
    using complete_token [OF s2(2,3)] by blast
  then show ?thesis using c s2 assms(2) by (simp add: HandleExactlyOnce_def)
qed

text \<open>When it fails, the message is given back at once.\<close>

lemma handle_failure:
  assumes "wf s" "c \<noteq> ''''" "m \<noteq> 0" "status s c m = Free \<or> (\<exists>t. status s c m = Expired t)"
    and "\<And>s' t. claim s c m = Inr (s', t, True) \<Longrightarrow>
      \<exists>s2. handler m (s', w) = (Some err, s2, w2) \<and> wf s2 \<and> status s2 c m \<in> {Held t, Expired t}"
  shows "\<exists>s3. HandleExactlyOnce claim complete release handler c m (s, w) = ((s3, w2), Some (HandleFailed err))
     \<and> wf s3 \<and> status s3 c m = Free"
proof -
  obtain s' t where c: "claim s c m = Inr (s', t, True)" using claim_free [OF assms(1-4)] by blast
  obtain s2 where s2: "handler m (s', w) = (Some err, s2, w2)" "wf s2" "status s2 c m \<in> {Held t, Expired t}"
    using assms(5) [OF c] by blast
  obtain s3 where "release s2 c m t err = Inr s3" "wf s3" "status s3 c m = Free"
    using release_token [OF s2(2,3)] by blast
  then show ?thesis using c s2 assms(2) by (simp add: HandleExactlyOnce_def)
qed

text \<open>A worker whose claim was taken over leaves the message to the new holder and reports the
  loss, so the broker delivers it again.\<close>

lemma handle_lost:
  assumes "wf s" "c \<noteq> ''''" "m \<noteq> 0" "claim s c m = Inr (s', t, True)"
    and "handler m (s', w) = (out, s2, w2)" "wf s2" "status s2 c m \<notin> {Held t, Expired t}"
  shows "\<exists>e. HandleExactlyOnce claim complete release handler c m (s, w) = ((s2, w2), Some e)"
  using assms(2,4,5) complete_other [OF assms(6,7)] release_other [OF assms(6,7)]
  by (cases out) (simp_all add: HandleExactlyOnce_def)

end

section \<open>The PostgreSQL outbox satisfies its contract\<close>

definition outbox_wf :: "mb \<Rightarrow> bool" where
  "outbox_wf d \<longleftrightarrow> distinct (map ob_id (mb_outbox d))"

definition outbox_row :: "mb \<Rightarrow> uuid \<Rightarrow> OutboxMessage list" where
  "outbox_row d i = filter (\<lambda>m. ob_id m = i) (mb_outbox d)"

definition row_holds :: "OutboxMessage list \<Rightarrow> string \<Rightarrow> bool" where
  "row_holds v relay \<longleftrightarrow> (\<exists>m. v = [m] \<and> om_locked_by m = Some relay \<and> om_published m = None)"

definition row_sent :: "OutboxMessage list \<Rightarrow> bool" where
  "row_sent v \<longleftrightarrow> (\<exists>m. v = [m] \<and> om_published m \<noteq> None)"

definition row_waiting :: "OutboxMessage list \<Rightarrow> bool" where
  "row_waiting v \<longleftrightarrow>
     (\<exists>m. v = [m] \<and> om_published m = None \<and> om_locked_by m = None \<and> om_error m \<noteq> None)"

definition row_calm :: "OutboxMessage list \<Rightarrow> bool" where
  "row_calm v \<longleftrightarrow> (\<forall>m \<in> set v. \<not> backoff_overflows (om_attempts m))"

lemma filter_unique: "distinct (map k rows) \<Longrightarrow> r \<in> set rows \<Longrightarrow> filter (\<lambda>x. k x = k r) rows = [r]"
proof (induction rows)
  case (Cons x xs)
  show ?case
  proof (cases "x = r")
    case True
    then have "filter (\<lambda>y. k y = k r) xs = []" using Cons.prems(1) by (auto simp: filter_empty_conv image_iff)
    then show ?thesis using True by simp
  next
    case False
    then have "r \<in> set xs" using Cons.prems(2) by simp
    then have "k r \<in> k ` set xs" by (rule imageI)
    then have "k x \<noteq> k r" using Cons.prems(1) by auto
    then show ?thesis using Cons \<open>r \<in> set xs\<close> by simp
  qed
qed simp

lemma held_rows: "filter (held_row i relay) (mb_outbox d) =
  filter (\<lambda>m. om_locked_by m = Some relay \<and> om_published m = None) (outbox_row d i)"
  by (auto simp: outbox_row_def held_row_def intro: filter_cong)

lemma update_held_row:
  assumes "outbox_row d i = [m]" "\<And>m. ob_id (f m) = ob_id m" "held_row i relay m"
  shows "outbox_row (d\<lparr>mb_outbox := update_where (held_row i relay) f (mb_outbox d)\<rparr>) i = [f m]"
    and "j \<noteq> i \<Longrightarrow>
      outbox_row (d\<lparr>mb_outbox := update_where (held_row i relay) f (mb_outbox d)\<rparr>) j = outbox_row d j"
  using assms
  by (auto simp: filter_update_where outbox_row_def held_row_def intro!: update_where_id)

lemma ClaimOutbox_rows:
  assumes "ClaimOutbox ord busy d relay n = Inr (d', ms)"
  shows "mset ms = mset (filter (\<lambda>m. ob_id m \<in> ob_id ` set (candidates busy d n)) (mb_outbox d'))"
    and "map ob_id (mb_outbox d') = map ob_id (mb_outbox d)"
    and "outbox_row d' i = update_where (\<lambda>m. ob_id m \<in> ob_id ` set (candidates busy d n))
       (\<lambda>m. m\<lparr>om_locked_by := Some relay, om_locked_until := Some (mb_now d + outboxLease),
              om_attempts := Suc (om_attempts m)\<rparr>) (outbox_row d i)"
    and "mb_now d' = mb_now d" and "mb_inbox d' = mb_inbox d"
proof -
  show "mset ms = mset (filter (\<lambda>m. ob_id m \<in> ob_id ` set (candidates busy d n)) (mb_outbox d'))"
    using assms by (auto simp: ClaimOutbox_def Let_def split: if_splits)
qed (use assms in \<open>auto simp: ClaimOutbox_def Let_def outbox_row_def filter_update_where
      map_update_where_key split: if_splits\<close>)

lemma candidates_in: "m \<in> set (candidates busy d n) \<Longrightarrow> m \<in> set (mb_outbox d) \<and> claimable d m \<and> ob_id m \<notin> busy"
  by (auto simp: candidates_def dest!: in_set_takeD)

lemma claimed_ids:
  assumes "ClaimOutbox ord busy d relay n = Inr (d', ms)"
  shows "ob_id ` set ms = ob_id ` set (candidates busy d n)"
proof -
  have "ob_id ` set (mb_outbox d') = ob_id ` set (mb_outbox d)"
    using ClaimOutbox_rows(2) [OF assms] by (metis set_map)
  moreover have "set ms = {m \<in> set (mb_outbox d'). ob_id m \<in> ob_id ` set (candidates busy d n)}"
    using ClaimOutbox_rows(1) [OF assms] by (metis set_filter set_mset_mset)
  moreover have "ob_id ` set (candidates busy d n) \<subseteq> ob_id ` set (mb_outbox d)"
    using candidates_in by blast
  moreover have "f ` {m \<in> A. f m \<in> B} = f ` A \<inter> B" for f :: "OutboxMessage \<Rightarrow> uuid" and A B by blast
  ultimately show ?thesis by (simp add: inf.absorb2)
qed

interpretation pg_outbox: outbox_contract "ClaimOutbox ord busy" MarkOutboxPublished ReleaseOutbox
  outbox_wf outbox_row row_holds row_sent row_waiting row_calm for ord busy
proof (unfold_locales, goal_cases)
  case (1 s relay n s' ms)
  then have "distinct (map ob_id (mb_outbox s'))"
    using ClaimOutbox_rows(2) [OF 1(2)] by (simp add: outbox_wf_def)
  then have "distinct (map ob_id (filter (\<lambda>m. ob_id m \<in> ob_id ` set (candidates busy s n)) (mb_outbox s')))"
    by (rule distinct_map_filter)
  then show ?case
    using ClaimOutbox_rows(1) [OF 1(2)] by (metis mset_eq_imp_distinct_iff mset_map)
next
  case (2 s relay n s' ms m)
  then obtain c where c: "c \<in> set (candidates busy s n)" "ob_id c = ob_id m"
    using claimed_ids [OF 2(2)] by (metis imageE image_eqI)
  have "outbox_row s (ob_id m) = [c]"
    using filter_unique [of ob_id "mb_outbox s" c] candidates_in [OF c(1)] 2(1) c(2)
    by (simp add: outbox_wf_def outbox_row_def)
  then have "outbox_row s' (ob_id m) = [c\<lparr>om_locked_by := Some relay,
      om_locked_until := Some (mb_now s + outboxLease), om_attempts := Suc (om_attempts c)\<rparr>]"
    using ClaimOutbox_rows(3) [OF 2(2), of "ob_id m"] c(1) by auto
  then show ?case using candidates_in [OF c(1)] by (simp add: row_holds_def claimable_def)
next
  case (3 s relay n s' ms j)
  then show ?case
    unfolding ClaimOutbox_rows(3) [OF 3(2)] claimed_ids [OF 3(2)]
    by (intro update_where_id) (auto simp: outbox_row_def)
next
  case (4 s i relay)
  then obtain m where m: "outbox_row s i = [m]" "om_locked_by m = Some relay" "om_published m = None"
    by (auto simp: row_holds_def)
  then have h: "held_row i relay m" by (auto simp: held_row_def outbox_row_def filter_eq_Cons_iff)
  then show ?case
    using m update_held_row [OF m(1) _ h]
    by (auto simp: MarkOutboxPublished_def held_rows row_sent_def)
next
  case (5 s i relay reason)
  then obtain m where m: "outbox_row s i = [m]" "om_locked_by m = Some relay" "om_published m = None"
    by (auto simp: row_holds_def)
  then have h: "held_row i relay m" by (auto simp: held_row_def outbox_row_def filter_eq_Cons_iff)
  then show ?case
    using m 5(2) update_held_row [OF m(1) _ h]
    by (auto simp: ReleaseOutbox_def held_rows row_waiting_def row_calm_def Let_def)
qed

section \<open>The PostgreSQL inbox satisfies its contract\<close>

definition inbox_wf :: "mb \<Rightarrow> bool" where
  "inbox_wf d \<longleftrightarrow> distinct (map inbox_key (mb_inbox d))
     \<and> (\<forall>m \<in> set (mb_inbox d). im_state m = InClaimed \<longrightarrow> im_token m \<noteq> None \<and> im_locked_until m \<noteq> None)"

text \<open>The status of a row at a time.\<close>

definition row_status :: "gotime \<Rightarrow> InboxMessage \<Rightarrow> inbox_status" where
  "row_status now m =
     (case im_state m of InReleased \<Rightarrow> Free | InCompleted \<Rightarrow> Done
      | InClaimed \<Rightarrow> (if the (im_locked_until m) < now then Expired (the (im_token m)) else Held (the (im_token m))))"

definition inbox_status_of :: "mb \<Rightarrow> string \<Rightarrow> uuid \<Rightarrow> inbox_status" where
  "inbox_status_of d c i =
     (case row_by inbox_key (c, i) (mb_inbox d) of None \<Rightarrow> Free | Some m \<Rightarrow> row_status (mb_now d) m)"

lemma inbox_key_update [simp]:
  "inbox_key (m\<lparr>im_state := st\<rparr>) = inbox_key m" "inbox_key (m\<lparr>im_token := t\<rparr>) = inbox_key m"
  "inbox_key (m\<lparr>im_locked_until := l\<rparr>) = inbox_key m" "inbox_key (m\<lparr>im_attempt := n\<rparr>) = inbox_key m"
  "inbox_key (m\<lparr>im_completed := p\<rparr>) = inbox_key m" "inbox_key (m\<lparr>im_error := e\<rparr>) = inbox_key m"
  by (simp_all add: inbox_key_def)

lemma inbox_key_new [simp]:
  "inbox_key \<lparr>im_consumer = c, im_message = i, im_state = st, im_token = t, im_locked_until = l,
     im_attempt = n, im_completed = p, im_error = e\<rparr> = (c, i)"
  by (simp add: inbox_key_def)

lemma inbox_wfD:
  assumes "inbox_wf d" "row_by inbox_key (c, i) (mb_inbox d) = Some m" "im_state m = InClaimed"
  obtains t l where "im_token m = Some t" "im_locked_until m = Some l"
  using assms unfolding inbox_wf_def by (blast dest: row_by_SomeD)

lemma inbox_wf_update:
  assumes "inbox_wf d" "\<And>m. inbox_key (f m) = inbox_key m"
    and "\<And>m. p m \<Longrightarrow> im_state (f m) = InClaimed \<Longrightarrow> im_token (f m) \<noteq> None \<and> im_locked_until (f m) \<noteq> None"
    and "mb_inbox d' = update_where p f (mb_inbox d)"
  shows "inbox_wf d'"
  using assms unfolding inbox_wf_def by (auto simp: map_update_where_key set_update_where)

text \<open>A token identifies the row exactly when the status shows it.\<close>

lemma token_rows:
  assumes "inbox_wf d"
  shows "filter (token_row c i t) (mb_inbox d) =
    (if inbox_status_of d c i \<in> {Held t, Expired t} then [the (row_by inbox_key (c, i) (mb_inbox d))] else [])"
proof (cases "row_by inbox_key (c, i) (mb_inbox d)")
  case None
  then have "inbox_status_of d c i = Free" by (simp add: inbox_status_of_def)
  moreover have "filter (token_row c i t) (mb_inbox d) = []"
    using None by (auto simp: filter_empty_conv token_row_def row_by_None_iff image_iff)
  ultimately show ?thesis by simp
next
  case (Some m)
  then have m: "m \<in> set (mb_inbox d)" "inbox_key m = (c, i)" by (auto dest: row_by_SomeD)
  have "filter (token_row c i t) (mb_inbox d) =
      filter (\<lambda>m. im_state m = InClaimed \<and> im_token m = Some t) (filter (\<lambda>x. inbox_key x = inbox_key m) (mb_inbox d))"
    using m(2) by (simp add: token_row_def [abs_def])
  also have "filter (\<lambda>x. inbox_key x = inbox_key m) (mb_inbox d) = [m]"
    using m assms by (intro filter_unique) (auto simp: inbox_wf_def)
  finally have rows: "filter (token_row c i t) (mb_inbox d) =
    (if im_state m = InClaimed \<and> im_token m = Some t then [m] else [])" by simp
  show ?thesis
  proof (cases "im_state m")
    case InClaimed
    from inbox_wfD [OF assms Some InClaimed] obtain u l where "im_token m = Some u" "im_locked_until m = Some l" .
    then show ?thesis using Some rows InClaimed by (simp add: inbox_status_of_def row_status_def)
  qed (use Some rows in \<open>simp_all add: inbox_status_of_def row_status_def\<close>)
qed

lemma update_token_row:
  assumes "inbox_wf d" "inbox_status_of d c i \<in> {Held t, Expired t}" "\<And>m. inbox_key (f m) = inbox_key m"
  obtains m where "row_by inbox_key (c, i) (mb_inbox d) = Some m"
    and "row_by inbox_key (c, i) (update_where (token_row c i t) f (mb_inbox d)) = Some (f m)"
proof -
  obtain m where m: "row_by inbox_key (c, i) (mb_inbox d) = Some m"
    using assms(2) by (cases "row_by inbox_key (c, i) (mb_inbox d)") (auto simp: inbox_status_of_def)
  have "m \<in> set (filter (token_row c i t) (mb_inbox d))" using token_rows [OF assms(1), of c i t] assms(2) m by simp
  then show thesis using that m by (simp add: row_by_update_where assms(3))
qed

lemma ClaimInbox_taken:
  assumes "c \<noteq> ''''" "i \<noteq> 0" "row_by inbox_key (c, i) (mb_inbox d) = Some m" "\<not> reclaimable d m"
  shows "ClaimInbox d c i = Inr (d, 0, False)"
  using assms by (simp add: ClaimInbox_def Let_def)

lemma reclaimable_status:
  assumes "inbox_wf d" "row_by inbox_key (c, i) (mb_inbox d) = Some m"
  shows "reclaimable d m \<longleftrightarrow> inbox_status_of d c i = Free \<or> (\<exists>t. inbox_status_of d c i = Expired t)"
proof (cases "im_state m")
  case InClaimed
  then show ?thesis
    using inbox_wfD [OF assms InClaimed] assms(2) by (fastforce simp: reclaimable_def inbox_status_of_def row_status_def)
qed (use assms(2) in \<open>simp_all add: reclaimable_def inbox_status_of_def row_status_def\<close>)

lemma ClaimInbox_free:
  assumes "inbox_wf d" "c \<noteq> ''''" "i \<noteq> 0"
    and "inbox_status_of d c i = Free \<or> (\<exists>t. inbox_status_of d c i = Expired t)"
  shows "\<exists>d'. ClaimInbox d c i = Inr (d', mb_next d, True) \<and> inbox_wf d' \<and> mb_now d' = mb_now d
     \<and> mb_next d' = Suc (mb_next d) \<and> inbox_status_of d' c i = Held (mb_next d)"
proof (cases "row_by inbox_key (c, i) (mb_inbox d)")
  case None
  let ?m = "\<lparr>im_consumer = c, im_message = i, im_state = InClaimed, im_token = Some (mb_next d),
     im_locked_until = Some (mb_now d + inboxLease), im_attempt = 1, im_completed = None, im_error = None\<rparr>"
  let ?d = "d\<lparr>mb_next := Suc (mb_next d), mb_inbox := mb_inbox d @ [?m]\<rparr>"
  have key: "inbox_key ?m = (c, i)" by (simp add: inbox_key_def)
  have "ClaimInbox d c i = Inr (?d, mb_next d, True)"
    using assms(2,3) None by (simp add: ClaimInbox_def Let_def)
  moreover have "inbox_wf ?d" using assms(1) None key by (auto simp: inbox_wf_def row_by_None_iff)
  moreover have "inbox_status_of ?d c i = Held (mb_next d)"
    using None key less_imp_le [OF inboxLease_pos]
    by (simp add: inbox_status_of_def row_by_append row_status_def)
  ultimately show ?thesis by (intro exI [of _ ?d]) simp
next
  case (Some m)
  let ?f = "\<lambda>m. m\<lparr>im_state := InClaimed, im_token := Some (mb_next d),
        im_locked_until := Some (mb_now d + inboxLease), im_attempt := Suc (im_attempt m), im_error := None\<rparr>"
  let ?p = "\<lambda>m. inbox_key m = (c, i)"
  let ?d = "d\<lparr>mb_next := Suc (mb_next d), mb_inbox := update_where ?p ?f (mb_inbox d)\<rparr>"
  have "ClaimInbox d c i = Inr (?d, mb_next d, True)"
    using assms(2-4) Some reclaimable_status [OF assms(1) Some] by (simp add: ClaimInbox_def Let_def)
  moreover have "inbox_wf ?d" by (rule inbox_wf_update [OF assms(1), where p = ?p and f = ?f]) auto
  moreover have "inbox_status_of ?d c i = Held (mb_next d)"
    using Some row_by_SomeD [OF Some] less_imp_le [OF inboxLease_pos]
    by (simp add: inbox_status_of_def row_by_update_where row_status_def)
  ultimately show ?thesis by (intro exI [of _ ?d]) simp
qed

interpretation pg_inbox: inbox_contract ClaimInbox CompleteInbox ReleaseInbox inbox_wf inbox_status_of
proof (unfold_locales, goal_cases)
  case (1 s c m)
  then show ?case using ClaimInbox_free by blast
next
  case (2 s c m)
  then obtain r where r: "row_by inbox_key (c, m) (mb_inbox s) = Some r"
    by (cases "row_by inbox_key (c, m) (mb_inbox s)") (auto simp: inbox_status_of_def)
  have "\<not> reclaimable s r" using reclaimable_status [OF 2(1) r] 2(4) by auto
  then show ?case using ClaimInbox_taken [OF 2(2,3) r] by blast
next
  case (3 s c m t)
  let ?f = "\<lambda>m. m\<lparr>im_state := InCompleted, im_completed := Some (mb_now s), im_locked_until := None, im_error := None\<rparr>"
  let ?d = "s\<lparr>mb_inbox := update_where (token_row c m t) ?f (mb_inbox s)\<rparr>"
  obtain r where "row_by inbox_key (c, m) (mb_inbox ?d) = Some (?f r)"
    using update_token_row [OF 3, of ?f] by auto
  then have "inbox_status_of ?d c m = Done" by (simp add: inbox_status_of_def row_status_def)
  moreover have "inbox_wf ?d" by (rule inbox_wf_update [OF 3(1), where p = "token_row c m t" and f = ?f]) auto
  ultimately show ?case using token_rows [OF 3(1), of c m t] 3(2) by (simp add: CompleteInbox_def)
next
  case (4 s c m t)
  then show ?case using token_rows [OF 4(1), of c m t] by (simp add: CompleteInbox_def)
next
  case (5 s c m t reason)
  let ?f = "\<lambda>m. m\<lparr>im_state := InReleased, im_locked_until := None, im_error := Some reason\<rparr>"
  let ?d = "s\<lparr>mb_inbox := update_where (token_row c m t) ?f (mb_inbox s)\<rparr>"
  obtain r where "row_by inbox_key (c, m) (mb_inbox ?d) = Some (?f r)"
    using update_token_row [OF 5, of ?f] by auto
  then have "inbox_status_of ?d c m = Free" by (simp add: inbox_status_of_def row_status_def)
  moreover have "inbox_wf ?d" by (rule inbox_wf_update [OF 5(1), where p = "token_row c m t" and f = ?f]) auto
  ultimately show ?case using token_rows [OF 5(1), of c m t] 5(2) by (simp add: ReleaseInbox_def)
next
  case (6 s c m t reason)
  then show ?case using token_rows [OF 6(1), of c m t] by (simp add: ReleaseInbox_def)
qed

section \<open>Interleavings of consumers\<close>

text \<open>An execution is a sequence of statements of any number of workers, in any order and with
  any tokens, and of time passing; \<open>inbox_exec\<close> tells whether a statement had effect.\<close>

datatype inbox_op = OpClaim string uuid | OpComplete string uuid uuid | OpRelease string uuid uuid string
  | OpTick nat

fun inbox_exec :: "inbox_op \<Rightarrow> mb \<Rightarrow> mb \<times> bool" where
  "inbox_exec (OpClaim c i) d = (case ClaimInbox d c i of Inl _ \<Rightarrow> (d, False) | Inr (d, _, claimed) \<Rightarrow> (d, claimed))"
| "inbox_exec (OpComplete c i t) d = (case CompleteInbox d c i t of Inl _ \<Rightarrow> (d, False) | Inr d \<Rightarrow> (d, True))"
| "inbox_exec (OpRelease c i t e) d = (case ReleaseInbox d c i t e of Inl _ \<Rightarrow> (d, False) | Inr d \<Rightarrow> (d, True))"
| "inbox_exec (OpTick n) d = (d\<lparr>mb_now := mb_now d + int n\<rparr>, True)"

fun inbox_trace :: "inbox_op list \<Rightarrow> mb \<Rightarrow> (inbox_op \<times> bool) list" where
  "inbox_trace [] d = []"
| "inbox_trace (x # xs) d = (x, snd (inbox_exec x d)) # inbox_trace xs (fst (inbox_exec x d))"

fun inbox_after :: "inbox_op list \<Rightarrow> mb \<Rightarrow> mb" where
  "inbox_after [] d = d"
| "inbox_after (x # xs) d = inbox_after xs (fst (inbox_exec x d))"

fun op_key :: "inbox_op \<Rightarrow> (string \<times> uuid) option" where
  "op_key (OpClaim c i) = Some (c, i)"
| "op_key (OpComplete c i t) = Some (c, i)"
| "op_key (OpRelease c i t e) = Some (c, i)"
| "op_key (OpTick n) = None"

lemma ClaimInbox_wf: "inbox_wf d \<Longrightarrow> ClaimInbox d c i = Inr (d', t, b) \<Longrightarrow> inbox_wf d'"
  using pg_inbox.claim_taken [of d c i] ClaimInbox_free [of d c i]
  by (cases "c = '''' \<or> i = 0"; cases "inbox_status_of d c i") (auto simp: ClaimInbox_def)

lemma exec_wf: "inbox_wf d \<Longrightarrow> inbox_wf (fst (inbox_exec x d))"
proof (cases x)
  case (OpClaim c i)
  moreover assume "inbox_wf d"
  ultimately show ?thesis using ClaimInbox_wf by (auto split: sum.splits)
next
  case (OpComplete c i t)
  moreover assume "inbox_wf d"
  ultimately show ?thesis
    using pg_inbox.complete_token [of d c i t] pg_inbox.complete_other [of d c i t]
    by (cases "inbox_status_of d c i \<in> {Held t, Expired t}") auto
next
  case (OpRelease c i t e)
  moreover assume "inbox_wf d"
  ultimately show ?thesis
    using pg_inbox.release_token [of d c i t e] pg_inbox.release_other [of d c i t e]
    by (cases "inbox_status_of d c i \<in> {Held t, Expired t}") auto
qed (auto simp: inbox_wf_def)

lemma update_where_row_by_other:
  assumes "\<And>m. k (f m) = k m" "\<And>m. p m \<Longrightarrow> k m \<noteq> v"
  shows "row_by k v (update_where p f rows) = row_by k v rows"
  using assms by (induction rows) auto

text \<open>A statement on another message, or on the same message for another consumer, does not
  touch the row.\<close>

lemma exec_frame:
  assumes "op_key x \<noteq> Some (c, i)"
  shows "row_by inbox_key (c, i) (mb_inbox (fst (inbox_exec x d))) = row_by inbox_key (c, i) (mb_inbox d)"
proof (cases x)
  case (OpClaim c' i')
  then have other: "(c', i') \<noteq> (c, i)" using assms by auto
  show ?thesis
  proof (cases "row_by inbox_key (c', i') (mb_inbox d)")
    case None
    then show ?thesis using OpClaim other by (auto simp: ClaimInbox_def Let_def row_by_append split: option.splits)
  next
    case (Some m)
    then show ?thesis
      using OpClaim other by (auto simp: ClaimInbox_def Let_def intro!: update_where_row_by_other)
  qed
next
  case (OpComplete c' i' t)
  then show ?thesis
    using assms by (auto simp: CompleteInbox_def token_row_def intro!: update_where_row_by_other split: sum.splits)
next
  case (OpRelease c' i' t e)
  then show ?thesis
    using assms by (auto simp: ReleaseInbox_def token_row_def intro!: update_where_row_by_other split: sum.splits)
qed simp

definition uses_token :: "string \<Rightarrow> uuid \<Rightarrow> uuid \<Rightarrow> inbox_op \<Rightarrow> bool" where
  "uses_token c i t x \<longleftrightarrow> (case x of OpComplete c' i' t' \<Rightarrow> (c', i', t') = (c, i, t)
     | OpRelease c' i' t' _ \<Rightarrow> (c', i', t') = (c, i, t) | _ \<Rightarrow> False)"

text \<open>On a message that is done, or that is held under another token, no statement has effect.\<close>

lemma exec_blocked:
  assumes "inbox_wf d" "op_key x = Some (c, i)"
    and "inbox_status_of d c i = Done \<or> (\<exists>t. inbox_status_of d c i = Held t \<and> \<not> uses_token c i t x)"
  shows "fst (inbox_exec x d) = d \<and> \<not> snd (inbox_exec x d)"
proof (cases x)
  case (OpClaim c' i')
  then have x: "x = OpClaim c i" using assms(2) by simp
  show ?thesis
    using pg_inbox.claim_taken [OF assms(1)] assms(3)
    by (cases "c = '''' \<or> i = 0") (auto simp: x ClaimInbox_def)
next
  case (OpComplete c' i' t)
  then have x: "x = OpComplete c i t" using assms(2) by simp
  show ?thesis
    using pg_inbox.complete_other [OF assms(1), of c i t] assms(3) by (auto simp: x uses_token_def)
next
  case (OpRelease c' i' t e)
  then have x: "x = OpRelease c i t e" using assms(2) by simp
  show ?thesis
    using pg_inbox.release_other [OF assms(1), of c i t e] assms(3) by (auto simp: x uses_token_def)
qed (use assms(2) in simp)

text \<open>A message that is done stays done, and no statement on it has effect any more.\<close>

lemma exec_done:
  assumes "inbox_wf d" "inbox_status_of d c i = Done"
  shows "inbox_status_of (fst (inbox_exec x d)) c i = Done"
    and "op_key x = Some (c, i) \<Longrightarrow> \<not> snd (inbox_exec x d)"
proof -
  note same = exec_blocked [OF assms(1) _ disjI1 [OF assms(2)]]
  show "op_key x = Some (c, i) \<Longrightarrow> \<not> snd (inbox_exec x d)" using same by blast
  show "inbox_status_of (fst (inbox_exec x d)) c i = Done"
  proof (cases "op_key x = Some (c, i)")
    case True
    then show ?thesis using same assms(2) by simp
  next
    case False
    obtain m where m: "row_by inbox_key (c, i) (mb_inbox d) = Some m" "im_state m = InCompleted"
      using assms(2)
      by (auto simp: inbox_status_of_def row_status_def split: option.splits InboxState.splits if_splits)
    then show ?thesis using exec_frame [OF False, of d] by (simp add: inbox_status_of_def row_status_def)
  qed
qed

lemma after_done:
  assumes "inbox_wf d" "inbox_status_of d c i = Done"
  shows "inbox_status_of (inbox_after ops d) c i = Done \<and> inbox_wf (inbox_after ops d)"
  using assms
proof (induction ops arbitrary: d)
  case (Cons x ops)
  show ?case
    using Cons.IH [OF exec_wf [OF Cons.prems(1)] exec_done(1) [OF Cons.prems]] by simp
qed simp

lemma trace_done:
  assumes "inbox_wf d" "inbox_status_of d c i = Done" "(x, True) \<in> set (inbox_trace ops d)"
  shows "op_key x \<noteq> Some (c, i)"
  using assms
proof (induction ops arbitrary: d)
  case (Cons y ops)
  show ?case
  proof (cases "(x, True) \<in> set (inbox_trace ops (fst (inbox_exec y d)))")
    case True
    then show ?thesis using Cons.IH exec_wf [OF Cons.prems(1)] exec_done(1) [OF Cons.prems(1,2)] by blast
  next
    case False
    then have "x = y \<and> snd (inbox_exec y d)" using Cons.prems(3) by auto
    then show ?thesis using exec_done(2) [OF Cons.prems(1,2), of y] by blast
  qed
qed simp

text \<open>While a lease lasts, a worker without the token cannot change the claim.\<close>

fun op_ticks :: "inbox_op \<Rightarrow> nat" where
  "op_ticks (OpTick n) = n"
| "op_ticks _ = 0"

definition leased :: "mb \<Rightarrow> string \<Rightarrow> uuid \<Rightarrow> uuid \<Rightarrow> gotime \<Rightarrow> bool" where
  "leased d c i t until \<longleftrightarrow> (\<exists>m. row_by inbox_key (c, i) (mb_inbox d) = Some m
     \<and> im_state m = InClaimed \<and> im_token m = Some t \<and> im_locked_until m = Some until)"

lemma leased_status: "leased d c i t u \<Longrightarrow> mb_now d \<le> u \<Longrightarrow> inbox_status_of d c i = Held t"
  by (auto simp: leased_def inbox_status_of_def row_status_def)

lemma exec_clock: "mb_now (fst (inbox_exec x d)) = mb_now d + int (op_ticks x)"
  by (cases x) (auto simp: ClaimInbox_def CompleteInbox_def ReleaseInbox_def Let_def
      split: sum.splits option.splits if_splits)

lemma exec_leased:
  assumes "inbox_wf d" "leased d c i t u" "mb_now d \<le> u" "\<not> uses_token c i t x"
  shows "leased (fst (inbox_exec x d)) c i t u" "x = OpClaim c i \<Longrightarrow> \<not> snd (inbox_exec x d)"
proof -
  note held = leased_status [OF assms(2,3)]
  have same: "fst (inbox_exec x d) = d \<and> \<not> snd (inbox_exec x d)" if "op_key x = Some (c, i)"
    using exec_blocked [OF assms(1) that] held assms(4) by blast
  then show "x = OpClaim c i \<Longrightarrow> \<not> snd (inbox_exec x d)" by simp
  show "leased (fst (inbox_exec x d)) c i t u"
  proof (cases "op_key x = Some (c, i)")
    case True
    then show ?thesis using same assms(2) by simp
  next
    case False
    then show ?thesis using assms(2) exec_frame [OF False, of d] by (simp add: leased_def)
  qed
qed

lemma trace_leased:
  assumes "inbox_wf d" "leased d c i t u" "mb_now d + int (sum_list (map op_ticks ops)) \<le> u"
    and "\<forall>x \<in> set ops. \<not> uses_token c i t x"
  shows "(OpClaim c i, True) \<notin> set (inbox_trace ops d)"
  using assms
proof (induction ops arbitrary: d)
  case (Cons x ops)
  have now: "mb_now d \<le> u" using Cons.prems(3) by simp
  have x: "\<not> uses_token c i t x" using Cons.prems(4) by simp
  note step = exec_leased [OF Cons.prems(1,2) now x]
  have "(OpClaim c i, True) \<notin> set (inbox_trace ops (fst (inbox_exec x d)))"
    using Cons.IH [OF exec_wf [OF Cons.prems(1)] step(1)] Cons.prems(3,4) exec_clock [of x d] by simp
  then show ?case using step(2) by auto
qed simp

text \<open>After statements that take no longer than the lease, and that do not use its token, the
  claim is still held.\<close>

lemma after_leased:
  assumes "inbox_wf d" "leased d c i t u" "mb_now d + int (sum_list (map op_ticks ops)) \<le> u"
    and "\<forall>x \<in> set ops. \<not> uses_token c i t x"
  shows "inbox_wf (inbox_after ops d) \<and> inbox_status_of (inbox_after ops d) c i = Held t"
  using assms
proof (induction ops arbitrary: d)
  case (Cons x ops)
  have now: "mb_now d \<le> u" using Cons.prems(3) by simp
  have x: "\<not> uses_token c i t x" using Cons.prems(4) by simp
  show ?case
    using Cons.IH [OF exec_wf [OF Cons.prems(1)] exec_leased(1) [OF Cons.prems(1,2) now x]]
      Cons.prems(3,4) exec_clock [of x d] by simp
qed (simp add: leased_status)

lemma claimed_leased:
  "ClaimInbox d c i = Inr (d', t, True) \<Longrightarrow> leased d' c i t (mb_now d + inboxLease) \<and> mb_now d' = mb_now d"
  by (auto simp: ClaimInbox_def Let_def leased_def row_by_append row_by_update_where
      dest: row_by_SomeD split: if_splits option.splits)

lemma claimed_open:
  assumes "inbox_wf d" "ClaimInbox d c i = Inr (d', t, True)"
  shows "c \<noteq> ''''" "i \<noteq> 0" "inbox_status_of d c i = Free \<or> (\<exists>t. inbox_status_of d c i = Expired t)"
proof -
  show c: "c \<noteq> ''''" and i: "i \<noteq> 0" using assms(2) by (auto simp: ClaimInbox_def split: if_splits)
  show "inbox_status_of d c i = Free \<or> (\<exists>t. inbox_status_of d c i = Expired t)"
    using pg_inbox.claim_taken [OF assms(1) c i] assms(2) by (cases "inbox_status_of d c i") auto
qed

section \<open>Urgency and delays\<close>

text \<open>Every candidate comes before every row that is left over.\<close>

lemma candidates_first:
  assumes "m \<in> set (candidates busy d n)" "x \<in> set (mb_outbox d)" "claimable d x" "ob_id x \<notin> busy"
    and "x \<notin> set (candidates busy d n)"
  shows "claim_order m \<le> claim_order x"
proof -
  let ?rows = "sort_key claim_order (filter (\<lambda>m. claimable d m \<and> ob_id m \<notin> busy) (mb_outbox d))"
  have split: "?rows = take (nat n) ?rows @ drop (nat n) ?rows" by simp
  have "x \<in> set ?rows" using assms(2-4) by simp
  then have "x \<in> set (drop (nat n) ?rows)"
    using assms(5) unfolding candidates_def by (subst (asm) split) (auto simp del: append_take_drop_id)
  moreover have "sorted (map claim_order (take (nat n) ?rows @ drop (nat n) ?rows))" by simp
  ultimately show ?thesis using assms(1) unfolding candidates_def map_append sorted_append by auto
qed

lemma claim_order_class: "claim_order m \<le> claim_order x \<Longrightarrow> claim_class x \<le> claim_class m"
  by (auto simp: claim_order_def less_eq_prod_def)

lemma length_candidates:
  "length (candidates busy d n) = min (nat n) (length (filter (\<lambda>m. claimable d m \<and> ob_id m \<notin> busy) (mb_outbox d)))"
  by (simp add: candidates_def)

lemma backoff_bounds: "0 < n \<Longrightarrow> 10 * second \<le> backoff n \<and> backoff n \<le> 900 * second"
proof -
  assume "0 < n"
  then have "(2::int) ^ 1 \<le> 2 ^ n" by (intro power_increasing) auto
  then show ?thesis by (simp add: backoff_def second_def)
qed

section \<open>A concrete store\<close>

definition demo_message :: "uuid \<Rightarrow> string \<Rightarrow> OutboxMessage" where
  "demo_message i topic = \<lparr>ob_id = i, ob_aggregate = 5, ob_topic = topic, ob_key = RunKey 5 i topic,
     ob_payload = [], om_available = 0, om_attempts = 0, om_locked_by = None, om_locked_until = None,
     om_published = None, om_error = None, om_created = int i\<rparr>"

definition demo_mb :: mb where
  "demo_mb = \<lparr>mb_now = 100, mb_next = 50,
     mb_outbox = [demo_message 1 ''review.run.admitted'', demo_message 2 ''review.run.acknowledged'',
                  demo_message 3 ''review.run.failed''], mb_inbox = []\<rparr>"

definition demo_relay :: Relay where
  "demo_relay = \<lparr>RelayID = ''relay-a'', BatchSize = 2, PublishTimeout = 0\<rparr>"

text \<open>A broker that records the topics and refuses failures.\<close>

definition demo_publish :: "int \<Rightarrow> string list \<Rightarrow> OutboxMessage \<Rightarrow> string option \<times> string list" where
  "demo_publish timeout log m =
     (if ob_topic m = ''review.run.failed'' then Some ''blocked'' else None, log @ [ob_topic m])"

section \<open>Properties\<close>

lemma settled_row:
  "pg_outbox.settled d i out \<longleftrightarrow> (\<exists>x. filter (\<lambda>y. ob_id y = i) (mb_outbox d) = [x] \<and>
     (if out = None then om_published x \<noteq> None
      else om_published x = None \<and> om_locked_by x = None \<and> om_error x \<noteq> None))"
  by (cases out) (simp_all add: pg_outbox.settled_def outbox_row_def row_sent_def row_waiting_def)

text \<open>C26. A relay never loses a message: when the leases of its batch last, a flush hands each
  claimed message to the broker exactly once, most urgent first, marks exactly the accepted ones
  published and puts the refused ones back into the queue with their error, counts the accepted
  ones, reports the refused ones, and leaves every other message as it was. The hypothesis on
  the attempts keeps the exponential delay within the range of a double.\<close>

theorem flush_settles_batch:
  assumes "distinct (map ob_id (mb_outbox d))"
    and "ClaimOutbox ord busy d (RelayID r) (if BatchSize r = 0 then 1 else BatchSize r) = Inr (d1, ms)"
    and "RelayID r \<noteq> ''''" "0 \<le> PublishTimeout r" "PublishTimeout r < 25 * second"
    and "\<forall>m \<in> set (mb_outbox d1). om_attempts m < 1022"
    and "sends (publish (if PublishTimeout r = 0 then 15 * second else PublishTimeout r)) b (by_priority ms) = (outs, b')"
  shows "\<exists>d'. Flush (ClaimOutbox ord busy) MarkOutboxPublished ReleaseOutbox publish r d b =
       (d', b', accepted outs, Join (refused (by_priority ms) outs))
     \<and> (\<forall>(m, out) \<in> set (zip (by_priority ms) outs).
          \<exists>x. filter (\<lambda>y. ob_id y = ob_id m) (mb_outbox d') = [x] \<and>
             (if out = None then om_published x \<noteq> None
              else om_published x = None \<and> om_locked_by x = None \<and> om_error x \<noteq> None))
     \<and> (\<forall>j. j \<notin> ob_id ` set ms \<longrightarrow>
          filter (\<lambda>y. ob_id y = j) (mb_outbox d') = filter (\<lambda>y. ob_id y = j) (mb_outbox d))"
proof -
  let ?t = "if PublishTimeout r = 0 then 15 * second else PublishTimeout r"
  have "0 \<le> ?t" "?t < 25 * second" using assms(4,5) by (auto simp: second_def)
  moreover have "row_calm (outbox_row d1 i)" for i
    using assms(6) by (auto simp: row_calm_def outbox_row_def backoff_overflows_def)
  ultimately have "\<exists>d'. Flush (ClaimOutbox ord busy) MarkOutboxPublished ReleaseOutbox publish r d b =
       (d', b', accepted outs, Join (refused (by_priority ms) outs))
     \<and> (\<forall>(m, out) \<in> set (zip (by_priority ms) outs). pg_outbox.settled d' (ob_id m) out)
     \<and> (\<forall>j. j \<notin> ob_id ` set ms \<longrightarrow> outbox_row d' j = outbox_row d j)"
    using pg_outbox.flush_settles [OF _ assms(2,3) refl refl, of publish b outs b'] assms(1,7)
    by (simp add: outbox_wf_def)
  then show ?thesis unfolding settled_row outbox_row_def .
qed

lemma demo_claim:
  "ClaimOutbox ob_id {} demo_mb ''relay-a'' 2 =
   Inr (demo_mb\<lparr>mb_outbox := [demo_message 1 ''review.run.admitted'',
      (demo_message 2 ''review.run.acknowledged'')\<lparr>om_locked_by := Some ''relay-a'',
         om_locked_until := Some 30000000100, om_attempts := 1\<rparr>,
      (demo_message 3 ''review.run.failed'')\<lparr>om_locked_by := Some ''relay-a'',
         om_locked_until := Some 30000000100, om_attempts := 1\<rparr>]\<rparr>,
     [(demo_message 2 ''review.run.acknowledged'')\<lparr>om_locked_by := Some ''relay-a'',
         om_locked_until := Some 30000000100, om_attempts := 1\<rparr>,
      (demo_message 3 ''review.run.failed'')\<lparr>om_locked_by := Some ''relay-a'',
         om_locked_until := Some 30000000100, om_attempts := 1\<rparr>])"
  by code_simp

theorem flush_settles_batch_witness:
  "\<exists>d'. Flush (ClaimOutbox ob_id {}) MarkOutboxPublished ReleaseOutbox demo_publish demo_relay demo_mb [] =
     (d', [''review.run.acknowledged'', ''review.run.failed''], 1, Some (FlushPublish [(3, ''blocked'')]))"
proof -
  let ?a = "(demo_message 2 ''review.run.acknowledged'')\<lparr>om_locked_by := Some ''relay-a'',
         om_locked_until := Some 30000000100, om_attempts := 1\<rparr>"
  let ?b = "(demo_message 3 ''review.run.failed'')\<lparr>om_locked_by := Some ''relay-a'',
         om_locked_until := Some 30000000100, om_attempts := 1\<rparr>"
  have claim: "ClaimOutbox ob_id {} demo_mb (RelayID demo_relay)
      (if BatchSize demo_relay = 0 then 1 else BatchSize demo_relay) =
      Inr (demo_mb\<lparr>mb_outbox := [demo_message 1 ''review.run.admitted'', ?a, ?b]\<rparr>, [?a, ?b])"
    by (simp add: demo_relay_def demo_claim)
  have d: "distinct (map ob_id (mb_outbox demo_mb))" by code_simp
  have relay: "RelayID demo_relay \<noteq> ''''" "0 \<le> PublishTimeout demo_relay" "PublishTimeout demo_relay < 25 * second"
    by (simp_all add: demo_relay_def second_def)
  have calm: "\<forall>m \<in> set (mb_outbox (demo_mb\<lparr>mb_outbox := [demo_message 1 ''review.run.admitted'', ?a, ?b]\<rparr>)).
      om_attempts m < 1022" by (simp add: demo_message_def)
  have outs: "sends (demo_publish (if PublishTimeout demo_relay = 0 then 15 * second else PublishTimeout demo_relay))
      [] (by_priority [?a, ?b]) =
      ([None, Some ''blocked''], [''review.run.acknowledged'', ''review.run.failed''])" by code_simp
  have res: "accepted [None, Some ''blocked''] = 1"
    "Join (refused (by_priority [?a, ?b]) [None, Some ''blocked'']) = Some (FlushPublish [(3, ''blocked'')])" by code_simp+
  show ?thesis
    using flush_settles_batch [where d = demo_mb and ord = ob_id and busy = "{}" and r = demo_relay
        and publish = demo_publish and b = "[]", OF d claim relay calm outs]
    unfolding res by (elim exE conjE, intro exI)
qed

text \<open>The most urgent messages are claimed first: a claim leases as many messages as the
  limit allows, only claimable ones, and none that is left over is of a higher class, or of
  the same class and older.\<close>

theorem claim_takes_most_urgent:
  assumes "distinct (map ob_id (mb_outbox d))" "ClaimOutbox ord busy d relay n = Inr (d', ms)"
  shows "length ms = min (nat n) (length (filter (\<lambda>m. claimable d m \<and> ob_id m \<notin> busy) (mb_outbox d)))
    \<and> (\<forall>m \<in> set (mb_outbox d). \<forall>x \<in> set (mb_outbox d). ob_id m \<in> ob_id ` set ms \<longrightarrow> claimable d x \<longrightarrow> ob_id x \<notin> busy \<longrightarrow>
      ob_id x \<notin> ob_id ` set ms \<longrightarrow> claimable d m \<and>
        (claim_class x < claim_class m \<or> claim_class x = claim_class m \<and> om_created m \<le> om_created x))"
proof (intro conjI)
  note ids = claimed_ids [OF assms(2)]
  have "distinct (map ob_id (filter (\<lambda>m. claimable d m \<and> ob_id m \<notin> busy) (mb_outbox d)))"
    using assms(1) by (rule distinct_map_filter)
  moreover have "mset (map ob_id (sort_key claim_order xs)) = mset (map ob_id xs)" for xs by simp
  ultimately have "distinct (map ob_id (sort_key claim_order
      (filter (\<lambda>m. claimable d m \<and> ob_id m \<notin> busy) (mb_outbox d))))"
    using mset_eq_imp_distinct_iff by blast
  then have "distinct (map ob_id (candidates busy d n))"
    unfolding candidates_def take_map [symmetric] by (rule distinct_take)
  then have "length (candidates busy d n) = card (ob_id ` set ms)"
    unfolding ids by (metis distinct_card length_map set_map)
  moreover have "length ms = card (ob_id ` set ms)"
    using pg_outbox.claim_distinct [OF _ assms(2)] assms(1) unfolding outbox_wf_def
    by (metis distinct_card length_map set_map)
  ultimately show "length ms = min (nat n) (length (filter (\<lambda>m. claimable d m \<and> ob_id m \<notin> busy) (mb_outbox d)))"
    by (simp add: length_candidates)
  show "\<forall>m \<in> set (mb_outbox d). \<forall>x \<in> set (mb_outbox d). ob_id m \<in> ob_id ` set ms \<longrightarrow> claimable d x \<longrightarrow> ob_id x \<notin> busy \<longrightarrow>
      ob_id x \<notin> ob_id ` set ms \<longrightarrow> claimable d m \<and>
        (claim_class x < claim_class m \<or> claim_class x = claim_class m \<and> om_created m \<le> om_created x)"
  proof (intro ballI impI)
    fix m x assume m: "m \<in> set (mb_outbox d)" "ob_id m \<in> ob_id ` set ms" and x: "x \<in> set (mb_outbox d)"
      "claimable d x" "ob_id x \<notin> busy" "ob_id x \<notin> ob_id ` set ms"
    obtain c where c: "c \<in> set (candidates busy d n)" "ob_id c = ob_id m" using m(2) unfolding ids by auto
    then have "c = m" using distinct_key_eq [OF assms(1), of c m] candidates_in [OF c(1)] m(1) by blast
    then have mem: "m \<in> set (candidates busy d n)" using c(1) by simp
    have "x \<notin> set (candidates busy d n)" using x(4) unfolding ids by blast
    from candidates_first [OF mem x(1-3) this]
    show "claimable d m \<and> (claim_class x < claim_class m \<or> claim_class x = claim_class m \<and> om_created m \<le> om_created x)"
      using candidates_in [OF mem] by (auto simp: claim_order_def less_eq_prod_def)
  qed
qed

theorem claim_takes_most_urgent_witness:
  "length [demo_message 2 ''review.run.acknowledged'', demo_message 3 ''review.run.failed''] =
     min (nat 2) (length (filter (\<lambda>m. claimable demo_mb m \<and> ob_id m \<notin> {}) (mb_outbox demo_mb)))"
proof -
  have "distinct (map ob_id (mb_outbox demo_mb))" by code_simp
  from claim_takes_most_urgent [OF this demo_claim] show ?thesis by simp
qed

text \<open>Recovery keeps the urgency of the broker: the class the claiming statement orders by is
  the broker priority of the message, for every topic except the four agent and issue topics
  that the statement puts into its default class.\<close>

theorem claim_class_is_priority:
  "claim_class m = outboxMessagePriority m \<longleftrightarrow>
   ob_topic m \<notin> {''agent.task.source.resolve.requested'', ''agent.task.cancel.requested'',
                  ''external.issue.close'', ''provider.issue.acknowledge''}"
  by (simp add: claim_class_def outboxMessagePriority_def Let_def)

text \<open>C24. A message is completed at most once per consumer: however the statements of any number
  of workers interleave, with whatever tokens and leases, at most one completion of a message
  succeeds, and after it no claim, release or completion of it succeeds.\<close>

theorem completed_at_most_once:
  assumes "inbox_wf d" "inbox_trace ops d = before @ (OpComplete c i t, True) # later"
  shows "\<not> (\<exists>x. (x, True) \<in> set later \<and> op_key x = Some (c, i))"
  using assms
proof (induction ops arbitrary: d before)
  case (Cons y ops)
  note wf = exec_wf [OF Cons.prems(1), of y]
  show ?case
  proof (cases before)
    case Nil
    then have y: "y = OpComplete c i t" "snd (inbox_exec y d)" "later = inbox_trace ops (fst (inbox_exec y d))"
      using Cons.prems(2) by auto
    then have "inbox_status_of d c i \<in> {Held t, Expired t}"
      using pg_inbox.complete_other [OF Cons.prems(1), of c i t] by fastforce
    then have "inbox_status_of (fst (inbox_exec y d)) c i = Done"
      using pg_inbox.complete_token [OF Cons.prems(1), of c i t] y(1) by auto
    then show ?thesis using trace_done [OF wf] y(3) by blast
  next
    case (Cons z zs)
    then have "inbox_trace ops (fst (inbox_exec y d)) = zs @ (OpComplete c i t, True) # later"
      using Cons.prems(2) by simp
    then show ?thesis using Cons.IH [OF wf] by blast
  qed
qed simp

theorem completed_at_most_once_witness:
  "\<not> (\<exists>x. (x, True) \<in> set (inbox_trace [OpTick 5, OpClaim ''ack'' 9, OpComplete ''ack'' 9 50]
      (inbox_after [OpClaim ''ack'' 9, OpComplete ''ack'' 9 50] demo_mb)) \<and> op_key x = Some (''ack'', 9))"
proof -
  have wf: "inbox_wf demo_mb" by (simp add: inbox_wf_def demo_mb_def)
  have "inbox_trace [OpClaim ''ack'' 9, OpComplete ''ack'' 9 50, OpTick 5, OpClaim ''ack'' 9, OpComplete ''ack'' 9 50] demo_mb =
      [(OpClaim ''ack'' 9, True)] @ (OpComplete ''ack'' 9 50, True) #
      inbox_trace [OpTick 5, OpClaim ''ack'' 9, OpComplete ''ack'' 9 50]
        (inbox_after [OpClaim ''ack'' 9, OpComplete ''ack'' 9 50] demo_mb)"
    by code_simp
  from completed_at_most_once [OF wf this] show ?thesis .
qed

text \<open>C25. A lease is exclusive: after a claim, and as long as its ten minutes last and nobody
  completes or releases the message with its token, no other claim of it is granted.\<close>

theorem inbox_lease_exclusive:
  assumes "inbox_wf d" "ClaimInbox d c i = Inr (d', t, True)"
    and "int (sum_list (map op_ticks ops)) \<le> inboxLease" "\<forall>x \<in> set ops. \<not> uses_token c i t x"
  shows "(OpClaim c i, True) \<notin> set (inbox_trace ops d')"
proof -
  note leased = claimed_leased [OF assms(2)]
  show ?thesis
    using trace_leased [OF ClaimInbox_wf [OF assms(1,2)], of c i t "mb_now d + inboxLease" ops] leased assms(3,4) by simp
qed

theorem inbox_lease_exclusive_witness:
  "(OpClaim ''ack'' 9, True) \<notin> set (inbox_trace [OpTick 600000000000, OpClaim ''ack'' 9, OpRelease ''ack'' 9 49 ''late'',
      OpClaim ''ack'' 9] (inbox_after [OpClaim ''ack'' 9] demo_mb))"
proof -
  have wf: "inbox_wf demo_mb" by (simp add: inbox_wf_def demo_mb_def)
  have claim: "ClaimInbox demo_mb ''ack'' 9 = Inr (inbox_after [OpClaim ''ack'' 9] demo_mb, 50, True)" by code_simp
  show ?thesis
    by (rule inbox_lease_exclusive [OF wf claim]) (simp_all add: inboxLease_def second_def uses_token_def)
qed

text \<open>The claim is held at every moment of such a run.\<close>

lemma held_meanwhile:
  assumes "inbox_wf d" "ClaimInbox d c i = Inr (d1, t, True)"
    and "int (sum_list (map op_ticks ops)) \<le> inboxLease" "\<forall>x \<in> set ops. \<not> uses_token c i t x"
  shows "inbox_wf (inbox_after (take n ops) d1) \<and> inbox_status_of (inbox_after (take n ops) d1) c i = Held t"
proof (rule after_leased [OF ClaimInbox_wf [OF assms(1,2)]])
  show "leased d1 c i t (mb_now d + inboxLease)" using claimed_leased [OF assms(2)] by blast
  have "sum_list (map op_ticks (take n ops)) \<le> sum_list (map op_ticks ops)"
    by (metis append_take_drop_id le_add1 map_append sum_list.append)
  then show "mb_now d1 + int (sum_list (map op_ticks (take n ops))) \<le> mb_now d + inboxLease"
    using claimed_leased [OF assms(2)] assms(3) by simp
  show "\<forall>x \<in> set (take n ops). \<not> uses_token c i t x" using assms(4) set_take_subset [of n ops] by blast
qed

text \<open>A handler that acts on the outside world while the workers, this one included, execute
  statements on the inbox: \<open>run\<close> gives its result, the world it leaves, and the statements and
  the time that pass before it returns.\<close>

definition concurrent_handler ::
  "('w \<Rightarrow> string option \<times> 'w \<times> inbox_op list) \<Rightarrow> uuid \<Rightarrow> mb \<times> 'w \<Rightarrow> string option \<times> mb \<times> 'w" where
  "concurrent_handler run _ sw = (case run (snd sw) of (out, w, ops) \<Rightarrow> (out, inbox_after ops (fst sw), w))"

text \<open>C23. Once within the lease: a delivery claims its message and runs the handler; meanwhile any
  number of workers execute statements on the inbox, in any order, but not with the token of this
  claim. If the handler returns before the ten minutes of the lease are over, every other delivery
  of the message that arrives while it runs is acknowledged without running any handler. If it
  succeeds, the delivery is acknowledged, and every later delivery, after any other statements, is
  acknowledged without running any handler. If it fails, the delivery is refused, so that the
  broker delivers it again, and the message is claimable at once. A claim of a message whose
  former holder let its lease expire is covered; that holder may have run the handler before.\<close>

theorem handled_once_within_lease:
  fixes run :: "'w \<Rightarrow> string option \<times> 'w \<times> inbox_op list" and w :: 'w
  assumes "inbox_wf d" "ClaimInbox d c i = Inr (d1, t, True)" and "run w = (out, w', ops)"
    and "int (sum_list (map op_ticks ops)) \<le> inboxLease" "\<forall>x \<in> set ops. \<not> uses_token c i t x"
  shows "(\<forall>n other (w2 :: 'v). HandleExactlyOnce ClaimInbox CompleteInbox ReleaseInbox other c i (inbox_after (take n ops) d1, w2)
         = ((inbox_after (take n ops) d1, w2), None))
   \<and> (\<exists>d'. case out of
     None \<Rightarrow>
       HandleExactlyOnce ClaimInbox CompleteInbox ReleaseInbox (concurrent_handler run) c i (d, w) = ((d', w'), None) \<and>
       (\<forall>ops later (w2 :: 'v). HandleExactlyOnce ClaimInbox CompleteInbox ReleaseInbox later c i (inbox_after ops d', w2)
         = ((inbox_after ops d', w2), None))
   | Some err \<Rightarrow>
       HandleExactlyOnce ClaimInbox CompleteInbox ReleaseInbox (concurrent_handler run) c i (d, w)
         = ((d', w'), Some (HandleFailed err)) \<and> inbox_status_of d' c i = Free)"
proof (intro conjI allI)
  note free = claimed_open [OF assms(1,2)] and held = held_meanwhile [OF assms(1,2,4,5)]
  show "HandleExactlyOnce ClaimInbox CompleteInbox ReleaseInbox other c i (inbox_after (take n ops) d1, w2)
      = ((inbox_after (take n ops) d1, w2), None)" for n other and w2 :: 'v
    by (rule pg_inbox.handle_taken [OF _ free(1,2) disjI2]) (simp_all add: held)
  have step: "\<exists>s2. concurrent_handler run i (s, w) = (out, s2, w') \<and> inbox_wf s2 \<and> inbox_status_of s2 c i \<in> {Held t', Expired t'}"
    if "ClaimInbox d c i = Inr (s, t', True)" for s t'
    using that assms(2) held [of "length ops"] by (simp add: concurrent_handler_def assms(3))
  show "\<exists>d'. case out of
     None \<Rightarrow>
       HandleExactlyOnce ClaimInbox CompleteInbox ReleaseInbox (concurrent_handler run) c i (d, w) = ((d', w'), None) \<and>
       (\<forall>ops later (w2 :: 'v). HandleExactlyOnce ClaimInbox CompleteInbox ReleaseInbox later c i (inbox_after ops d', w2)
         = ((inbox_after ops d', w2), None))
   | Some err \<Rightarrow>
       HandleExactlyOnce ClaimInbox CompleteInbox ReleaseInbox (concurrent_handler run) c i (d, w)
         = ((d', w'), Some (HandleFailed err)) \<and> inbox_status_of d' c i = Free"
  proof (cases out)
    case None
    obtain d' where d': "HandleExactlyOnce ClaimInbox CompleteInbox ReleaseInbox (concurrent_handler run) c i (d, w) = ((d', w'), None)"
      "inbox_wf d'" "inbox_status_of d' c i = Done"
      using pg_inbox.handle_success [where handler = "concurrent_handler run" and w = w, OF assms(1) free step [unfolded None]] by blast
    have later: "HandleExactlyOnce ClaimInbox CompleteInbox ReleaseInbox later c i (inbox_after ops d', w2)
        = ((inbox_after ops d', w2), None)" for ops later and w2 :: 'v
      by (rule pg_inbox.handle_taken [OF _ free(1,2) disjI1]) (simp_all add: after_done [OF d'(2,3)])
    show ?thesis by (rule exI [of _ d']) (simp only: None d'(1) option.case later simp_thms)
  next
    case (Some err)
    show ?thesis
      using pg_inbox.handle_failure [where handler = "concurrent_handler run" and w = w, OF assms(1) free step [unfolded Some]] by (auto simp: Some)
  qed
qed

text \<open>A handler during which nine minutes pass and two other workers ask for the message.\<close>

definition slow_handler :: "nat \<Rightarrow> string option \<times> nat \<times> inbox_op list" where
  "slow_handler w = (None, Suc w, [OpClaim ''ack'' 9, OpTick 540000000000, OpClaim ''ack'' 9])"

theorem handled_once_within_lease_witness:
  "\<exists>d'. HandleExactlyOnce ClaimInbox CompleteInbox ReleaseInbox (concurrent_handler slow_handler) ''ack'' 9 (demo_mb, 0) = ((d', 1), None)
    \<and> (\<forall>ops later w2. HandleExactlyOnce ClaimInbox CompleteInbox ReleaseInbox later ''ack'' 9
         (inbox_after ops d', w2 :: nat) = ((inbox_after ops d', w2), None))"
proof -
  have wf: "inbox_wf demo_mb" by (simp add: inbox_wf_def demo_mb_def)
  have claim: "ClaimInbox demo_mb ''ack'' 9 = Inr (inbox_after [OpClaim ''ack'' 9] demo_mb, 50, True)" by code_simp
  have run: "slow_handler 0 = (None, 1, [OpClaim ''ack'' 9, OpTick 540000000000, OpClaim ''ack'' 9])"
    by (simp add: slow_handler_def)
  show ?thesis
    using conjunct2 [OF handled_once_within_lease [where 'v = nat and run = slow_handler and w = 0, OF wf claim run]]
    by (simp add: inboxLease_def second_def uses_token_def)
qed

text \<open>The lease is necessary. A handler that takes longer than ten minutes, while another worker
  takes the message over and completes it, has acted on the outside world as the other one has;
  its own completion then fails, and the broker gets the delivery back.\<close>

definition overdue_handler :: "nat \<Rightarrow> string option \<times> nat \<times> inbox_op list" where
  "overdue_handler w = (None, Suc w, [OpTick 600000000001, OpClaim ''ack'' 9, OpComplete ''ack'' 9 51])"

lemma overdue_handler_acts_twice:
  "snd (fst (HandleExactlyOnce ClaimInbox CompleteInbox ReleaseInbox (concurrent_handler overdue_handler) ''ack'' 9 (demo_mb, 0))) = 1
   \<and> snd (HandleExactlyOnce ClaimInbox CompleteInbox ReleaseInbox (concurrent_handler overdue_handler) ''ack'' 9 (demo_mb, 0))
       = Some (HandleComplete ErrInboxClaimLost)
   \<and> map snd (inbox_trace (snd (snd (overdue_handler 0))) (inbox_after [OpClaim ''ack'' 9] demo_mb)) = [True, True, True]"
  by (simp add: HandleExactlyOnce_def concurrent_handler_def overdue_handler_def ClaimInbox_def CompleteInbox_def demo_mb_def
      reclaimable_def inbox_key_def token_row_def inboxLease_def second_def Let_def)

text \<open>The lease also holds against the broker. When the holder dies, the broker delivers the message
  again at once; that delivery finds the claim still leased and is acknowledged, so the broker
  forgets a message no handler has finished.\<close>

lemma redelivery_after_crash_acknowledged:
  assumes "inbox_wf d" "ClaimInbox d c i = Inr (d1, t, True)"
    and "int (sum_list (map op_ticks ops)) \<le> inboxLease" "\<forall>x \<in> set ops. \<not> uses_token c i t x"
  shows "HandleExactlyOnce ClaimInbox CompleteInbox ReleaseInbox handler c i (inbox_after ops d1, w) = ((inbox_after ops d1, w), None)
    \<and> inbox_status_of (inbox_after ops d1) c i = Held t"
proof -
  have held: "inbox_wf (inbox_after ops d1) \<and> inbox_status_of (inbox_after ops d1) c i = Held t"
    using held_meanwhile [OF assms, of "length ops"] by simp
  show ?thesis
    by (intro conjI pg_inbox.handle_taken [OF _ claimed_open(1,2) [OF assms(1,2)] disjI2]) (simp_all add: held)
qed

end
