(* ===== verification/Risk_Planner.thy ===== *)
theory Risk_Planner
  imports Prelude
begin

text \<open>
  The deterministic planner of \<open>src/internal/risk/planner.go\<close>: it parses the two outputs of
  \<open>git diff -z\<close>, scores every changed path and splits the paths into a selected and a deferred
  part under the budget of the mode.

  The outputs of the two \<open>git\<close> commands are arguments, \<open>None\<close> for a command that fails. A path is
  a sequence of bytes. \<open>sort.Slice\<close> sorts by falling score and rising path; git lists a changed
  path once, so the order of equal elements does not show and a stable sort stands for it.
\<close>

section \<open>Data\<close>

definition ModeStandard :: string where "ModeStandard = ''standard''"
definition ModeFocused :: string where "ModeFocused = ''focused''"
definition ModeCritical :: string where "ModeCritical = ''critical''"
definition criticalFallbackScore :: int where "criticalFallbackScore = 55"
definition criticalFallbackLimit :: nat where "criticalFallbackLimit = 1"
definition focusedSelectionLimit :: nat where "focusedSelectionLimit = 8"
definition maxDiffStatsFiles :: nat where "maxDiffStatsFiles = 200"
definition criticalSelectionLimit :: nat where "criticalSelectionLimit = 1"

named_theorems risk_consts \<open>the constants of the planner\<close>

lemmas [risk_consts] =
  ModeStandard_def ModeFocused_def ModeCritical_def criticalFallbackScore_def criticalFallbackLimit_def
  focusedSelectionLimit_def maxDiffStatsFiles_def criticalSelectionLimit_def

definition Mode_Valid :: "string \<Rightarrow> bool" where
  "Mode_Valid m \<longleftrightarrow> m = ModeStandard \<or> m = ModeFocused \<or> m = ModeCritical"

record Item =
  it_path :: string
  it_score :: int
  it_reasons :: "string list"
  it_change :: string
  it_previous :: string
  it_additions :: int
  it_deletions :: int
  it_stats :: bool
  it_binary :: bool

record Plan =
  pl_selected :: "Item list"
  pl_deferred :: "Item list"
  pl_exclude :: "string list"
  pl_signals :: "string list"

record changedFile =
  cf_path :: string
  cf_change :: string
  cf_previous :: string

record fileStats =
  fs_additions :: int
  fs_deletions :: int
  fs_binary :: bool

datatype plan_error = UnsupportedMode | ListFailed | StatsFailed | StatusTruncated | StatusMalformed
  | RenameMalformed | UnsupportedStatus char | PathInvalid | StatsTruncated | StatsMalformed
  | AdditionsInvalid | DeletionsInvalid | StatsRenameMalformed | StatsPathInvalid

section \<open>Parsing the change list\<close>

definition NUL :: char where "NUL = CHR 0x00"
definition TAB :: char where "TAB = CHR 0x09"

text \<open>One entry: the status letter, the path that follows it and, for a rename or a copy, the
  next one. The rest of the parts is returned with the change.\<close>

definition change_kind :: "char \<Rightarrow> string option" where
  "change_kind c =
     (if c = CHR ''A'' then Some ''added'' else if c = CHR ''M'' then Some ''modified''
      else if c = CHR ''D'' then Some ''deleted'' else if c = CHR ''T'' then Some ''type_changed''
      else if c = CHR ''R'' then Some ''renamed'' else if c = CHR ''C'' then Some ''copied'' else None)"

definition check_change :: "changedFile \<Rightarrow> plan_error + changedFile" where
  "check_change c =
     (if cf_path c = '''' \<or> cf_previous c \<noteq> '''' \<and> cf_previous c = cf_path c
      then Inl PathInvalid else Inr c)"

fun parse_statuses :: "string list \<Rightarrow> plan_error + changedFile list" where
  "parse_statuses [] = Inr []"
| "parse_statuses [s] = Inl StatusMalformed"
| "parse_statuses (s # p # rest) =
     (case s of [] \<Rightarrow> Inl StatusMalformed
      | status # _ \<Rightarrow>
        (case change_kind status of None \<Rightarrow> Inl (UnsupportedStatus status)
         | Some kind \<Rightarrow>
           if status = CHR ''R'' \<or> status = CHR ''C''
           then (case rest of [] \<Rightarrow> Inl RenameMalformed
                 | q # rest \<Rightarrow>
                   bind_r (check_change \<lparr>cf_path = q, cf_change = kind, cf_previous = p\<rparr>) (\<lambda>c.
                   bind_r (parse_statuses rest) (\<lambda>cs. Inr (c # cs))))
           else bind_r (check_change \<lparr>cf_path = p, cf_change = kind, cf_previous = ''''\<rparr>) (\<lambda>c.
                bind_r (parse_statuses rest) (\<lambda>cs. Inr (c # cs)))))"

definition parseChangedFileStatuses :: "string \<Rightarrow> plan_error + changedFile list" where
  "parseChangedFileStatuses output =
     (if output = [] then Inr []
      else if last output \<noteq> NUL then Inl StatusTruncated
      else parse_statuses (Split (butlast output) NUL))"

section \<open>Parsing the statistics\<close>

text \<open>\<open>strconv.Atoi\<close>: an optional sign and decimal digits, within 64 bits.\<close>

definition digit_val :: "char \<Rightarrow> int option" where
  "digit_val c = (if CHR ''0'' \<le> c \<and> c \<le> CHR ''9'' then Some (int (of_char c) - 48) else None)"

fun digits_val :: "int \<Rightarrow> string \<Rightarrow> int option" where
  "digits_val acc [] = Some acc"
| "digits_val acc (c # s) = (case digit_val c of None \<Rightarrow> None | Some d \<Rightarrow> digits_val (acc * 10 + d) s)"

definition Atoi :: "string \<Rightarrow> int option" where
  "Atoi s =
     (let (neg, ds) = (case s of c # t \<Rightarrow> if c = CHR ''-'' then (True, t) else if c = CHR ''+'' then (False, t) else (False, s)
                       | [] \<Rightarrow> (False, [])) in
      if ds = [] then None
      else case digits_val 0 ds of None \<Rightarrow> None
      | Some n \<Rightarrow> let v = (if neg then - n else n) in if - (2 ^ 63) \<le> v \<and> v < 2 ^ 63 then Some v else None)"

text \<open>\<open>bytes.SplitN(part, "\t", 3)\<close> when it gives three fields.\<close>

definition cut :: "char \<Rightarrow> string \<Rightarrow> (string \<times> string) option" where
  "cut c s = (if c \<in> set s then Some (takeWhile (\<lambda>x. x \<noteq> c) s, tl (dropWhile (\<lambda>x. x \<noteq> c) s)) else None)"

definition three_fields :: "string \<Rightarrow> (string \<times> string \<times> string) option" where
  "three_fields s = (case cut TAB s of None \<Rightarrow> None
     | Some (a, s) \<Rightarrow> (case cut TAB s of None \<Rightarrow> None | Some (b, c) \<Rightarrow> Some (a, b, c)))"

definition parse_counts :: "string \<Rightarrow> string \<Rightarrow> plan_error + fileStats" where
  "parse_counts a b =
     (if a = ''-'' \<and> b = ''-'' then Inr \<lparr>fs_additions = 0, fs_deletions = 0, fs_binary = True\<rparr>
      else case Atoi a of None \<Rightarrow> Inl AdditionsInvalid
      | Some additions \<Rightarrow> if additions < 0 then Inl AdditionsInvalid
        else case Atoi b of None \<Rightarrow> Inl DeletionsInvalid
        | Some deletions \<Rightarrow> if deletions < 0 then Inl DeletionsInvalid
          else Inr \<lparr>fs_additions = additions, fs_deletions = deletions, fs_binary = False\<rparr>)"

text \<open>The map from paths to statistics is an association list, the latest entry first.\<close>

fun parse_stats :: "(string \<times> fileStats) list \<Rightarrow> string list \<Rightarrow> plan_error + (string \<times> fileStats) list" where
  "parse_stats stats [] = Inr stats"
| "parse_stats stats (part # rest) =
     (case three_fields part of None \<Rightarrow> Inl StatsMalformed
      | Some (a, b, path) \<Rightarrow>
        bind_r (parse_counts a b) (\<lambda>st.
        if path \<noteq> '''' then parse_stats ((path, st) # stats) rest
        else (case rest of
                old # new # rest \<Rightarrow> if new = '''' then Inl StatsPathInvalid else parse_stats ((new, st) # stats) rest
              | _ \<Rightarrow> Inl StatsRenameMalformed)))"

definition parseChangedFileStats :: "string \<Rightarrow> plan_error + (string \<times> fileStats) list" where
  "parseChangedFileStats output =
     (if output = [] then Inr []
      else if last output \<noteq> NUL then Inl StatsTruncated
      else parse_stats [] (Split (butlast output) NUL))"

section \<open>Scores\<close>

definition contains :: "string \<Rightarrow> string list \<Rightarrow> bool" where
  "contains value parts \<longleftrightarrow> list_ex (\<lambda>part. Contains value part) parts"

definition hasPathSegment :: "string \<Rightarrow> string list \<Rightarrow> bool" where
  "hasPathSegment value segments \<longleftrightarrow>
     (let path = ''/'' @ Trim (ToLower value) CHR ''/'' @ ''/'' in
      list_ex (\<lambda>segment. let segment = Trim (ToLower segment) CHR ''/'' in
        segment \<noteq> '''' \<and> Contains path (''/'' @ segment @ ''/'')) segments)"

definition manifests :: "string list" where
  "manifests = [''go.mod'', ''go.sum'', ''package.json'', ''package-lock.json'', ''pnpm-lock.yaml'',
     ''yarn.lock'', ''bun.lockb'', ''composer.json'', ''composer.lock'', ''pom.xml'', ''build.gradle'',
     ''build.gradle.kts'', ''cargo.toml'', ''cargo.lock'', ''requirements.txt'', ''poetry.lock'',
     ''pyproject.toml'']"

definition isDependencyManifest :: "string \<Rightarrow> bool" where
  "isDependencyManifest path \<longleftrightarrow> TrimPrefix path ''./'' \<in> set manifests"

definition isContainerOrBuildFile :: "string \<Rightarrow> bool" where
  "isContainerOrBuildFile path \<longleftrightarrow>
     last (Split (Trim (TrimPrefix path ''./'') CHR ''/'') CHR ''/'') \<in>
       {''dockerfile'', ''docker-compose.yml'', ''docker-compose.yaml'', ''.gitlab-ci.yml'', ''makefile''}"

definition r_auth :: string where "r_auth = ''authentication, authorization, or secret boundary''"
definition r_state :: string where "r_state = ''persistent state or financial side effect''"
definition r_public :: string where "r_public = ''public boundary or asynchronous workflow''"
definition r_manifest :: string where "r_manifest = ''dependency or build manifest''"
definition r_deploy :: string where "r_deploy = ''deployment or supply-chain boundary''"
definition r_code :: string where "r_code = ''changed application code''"
definition r_test :: string where "r_test = ''test-only path''"
definition r_artifact :: string where
  "r_artifact = ''generated, vendored, fixture, coverage, or lock artifact''"
definition r_docs :: string where "r_docs = ''documentation-only change''"
definition r_fallback :: string where
  "r_fallback = ''critical-mode fallback: highest available high-signal boundary''"
definition r_critical :: string where
  "r_critical = ''critical-mode budget: deferred after the highest-signal file''"
definition r_focused :: string where
  "r_focused = ''focused-mode budget: deferred after the diverse high-signal files''"

named_theorems risk_reasons \<open>the reasons of the planner\<close>

lemmas [risk_reasons] = r_auth_def r_state_def r_public_def r_manifest_def r_deploy_def r_code_def r_test_def
  r_artifact_def r_docs_def r_fallback_def r_critical_def r_focused_def

definition item_of :: "string \<Rightarrow> int \<Rightarrow> string list \<Rightarrow> Item" where
  "item_of path score reasons =
     \<lparr>it_path = path, it_score = score, it_reasons = reasons, it_change = '''', it_previous = '''',
      it_additions = 0, it_deletions = 0, it_stats = False, it_binary = False\<rparr>"

text \<open>\<open>item.Score += n; item.Reasons = append(item.Reasons, r)\<close> under a condition.\<close>

definition bump :: "bool \<Rightarrow> int \<Rightarrow> string \<Rightarrow> Item \<Rightarrow> Item" where
  "bump b n r i = (if b then i\<lparr>it_score := it_score i + n, it_reasons := it_reasons i @ [r]\<rparr> else i)"

definition clamp_score :: "Item \<Rightarrow> Item" where
  "clamp_score i = i\<lparr>it_score := (if it_score i > 100 then 100 else if it_score i < 0 then 0 else it_score i)\<rparr>"

definition deploy_score :: "string \<Rightarrow> int" where
  "deploy_score n =
     (if isContainerOrBuildFile n
      then (if Contains (Trim (TrimPrefix n ''./'') CHR ''/'') ''/'' then 40 else 35)
      else if hasPathSegment n [''deploy'', ''infra'', ''terraform'', ''k8s'', ''docker'']
              \<or> HasPrefix n ''.github/workflows/'' then 25
      else 0)"

text \<open>The item of a path that is neither empty nor an artifact nor documentation, for what was
  found in the path.\<close>

definition scored :: "string \<Rightarrow> bool \<Rightarrow> bool \<Rightarrow> bool \<Rightarrow> bool \<Rightarrow> int \<Rightarrow> bool \<Rightarrow> Item" where
  "scored path auth state public manifest deploy test =
     clamp_score (bump test (-25) r_test (bump (deploy \<noteq> 0) deploy r_deploy (bump manifest 35 r_manifest
       (bump public 25 r_public (bump state 35 r_state (bump auth 45 r_auth (item_of path 45 [r_code])))))))"

definition Classify :: "string \<Rightarrow> Item" where
  "Classify path =
     (let n = ToLower (TrimSpace path) in
      if n = '''' then item_of path 0 []
      else if hasPathSegment n [''vendor'', ''node_modules'', ''generated'', ''testdata'', ''fixtures'', ''coverage'']
              \<or> HasSuffix n ''.snap'' \<or> HasSuffix n ''.lock''
      then item_of path 0 [r_artifact]
      else if HasSuffix n ''.md'' \<or> HasPrefix n ''docs/'' then item_of path 10 [r_docs]
      else scored path
        (hasPathSegment n [''auth'', ''identity'', ''permission'', ''rbac'', ''policy'', ''session'', ''oauth'', ''jwt'', ''secret'']
         \<or> contains n [''oauth'', ''jwt'', ''secret''])
        (hasPathSegment n [''payment'', ''billing'', ''ledger'', ''migration'', ''migrations'', ''schema'', ''database'',
           ''repository'', ''sql'', ''cache''])
        (hasPathSegment n [''api'', ''controller'', ''handler'', ''router'', ''webhook'', ''queue'', ''worker'', ''event''])
        (isDependencyManifest n) (deploy_score n)
        (contains n [''_test.''] \<or> hasPathSegment n [''test'', ''tests'']))"

definition riskSignals :: "Item \<Rightarrow> string list" where
  "riskSignals i = filter (\<lambda>r. r \<in> {r_auth, r_state, r_public, r_manifest, r_deploy}) (it_reasons i)"

definition include_score :: "string \<Rightarrow> int \<Rightarrow> bool" where
  "include_score mode score =
     (if mode = ModeStandard then score > 0 else if mode = ModeCritical then score \<ge> 75 else score \<ge> 45)"

section \<open>Selection\<close>

definition rank_key :: "Item \<Rightarrow> int \<times> string" where
  "rank_key i = (- it_score i, it_path i)"

definition by_rank :: "Item list \<Rightarrow> Item list" where
  "by_rank = sort_key rank_key"

definition add_reason :: "string \<Rightarrow> Item \<Rightarrow> Item" where
  "add_reason r i = i\<lparr>it_reasons := it_reasons i @ [r]\<rparr>"

text \<open>\<open>StaticImpactSignals\<close>: the first six distinct reasons of the selected items.\<close>

definition StaticImpactSignals :: "Item list \<Rightarrow> string list" where
  "StaticImpactSignals items =
     take 6 (dedup_seen {} (filter (\<lambda>r. r \<noteq> '''' \<and> r \<noteq> r_code \<and> r \<noteq> r_test)
       (map TrimSpace (concat (map it_reasons items)))))"

text \<open>The loop of \<open>criticalFallback\<close>: \<open>n\<close> items may still be selected; the result is what it
  selects and what remains.\<close>

fun fallback_loop :: "nat \<Rightarrow> Item list \<Rightarrow> Item list \<times> Item list" where
  "fallback_loop n [] = ([], [])"
| "fallback_loop n (i # rest) =
     (if 0 < n \<and> it_score i \<ge> criticalFallbackScore
      then (let (s, d) = fallback_loop (n - 1) rest in (add_reason r_fallback i # s, d))
      else (let (s, d) = fallback_loop n rest in (s, i # d)))"

definition criticalFallback :: "Plan \<Rightarrow> Plan" where
  "criticalFallback p =
     (let (s, d) = fallback_loop (criticalFallbackLimit - length (pl_selected p)) (pl_deferred p) in
      p\<lparr>pl_selected := pl_selected p @ s, pl_deferred := d\<rparr>)"

text \<open>The two loops of \<open>limitSignalDiverseSelection\<close>: first the candidates that add a signal,
  then the best of the others, at most \<open>k\<close> more.\<close>

fun pick_diverse :: "nat \<Rightarrow> string set \<Rightarrow> Item list \<Rightarrow> Item list" where
  "pick_diverse k seen [] = []"
| "pick_diverse k seen (i # rest) =
     (if k = 0 then []
      else if \<exists>s \<in> set (riskSignals i). s \<notin> seen
      then i # pick_diverse (k - 1) (seen \<union> set (riskSignals i)) rest
      else pick_diverse k seen rest)"

fun pick_fill :: "nat \<Rightarrow> string set \<Rightarrow> Item list \<Rightarrow> Item list" where
  "pick_fill k paths [] = []"
| "pick_fill k paths (i # rest) =
     (if k = 0 then []
      else if it_path i \<in> paths then pick_fill k paths rest
      else i # pick_fill (k - 1) (insert (it_path i) paths) rest)"

definition pick :: "nat \<Rightarrow> Item list \<Rightarrow> Item list" where
  "pick limit candidates =
     (let first = pick_diverse limit {} candidates in
      first @ pick_fill (limit - length first) (it_path ` set first) candidates)"

definition limitSignalDiverseSelection :: "Plan \<Rightarrow> nat \<Rightarrow> int \<Rightarrow> string \<Rightarrow> Plan" where
  "limitSignalDiverseSelection p limit minimum reason =
     (if limit = 0 then p
      else let eligible = filter (\<lambda>i. minimum > 0 \<and> it_score i \<ge> minimum) (pl_deferred p);
               candidates = pl_selected p @ eligible in
        if length candidates \<le> limit \<and> eligible = [] then p
        else let candidates = by_rank candidates;
                 selected = pick limit candidates;
                 rest = filter (\<lambda>i. it_path i \<notin> it_path ` set selected) (pl_selected p @ pl_deferred p);
                 deferred = map (\<lambda>i. if it_path i \<in> it_path ` set candidates then add_reason reason i else i) rest
          in p\<lparr>pl_selected := selected, pl_deferred := by_rank deferred\<rparr>)"

section \<open>Planning\<close>

definition plan_item :: "(string \<times> fileStats) list \<Rightarrow> changedFile \<Rightarrow> Item" where
  "plan_item stats c =
     (let i = (Classify (cf_path c))\<lparr>it_change := cf_change c, it_previous := cf_previous c\<rparr> in
      case map_of stats (cf_path c) of None \<Rightarrow> i
      | Some st \<Rightarrow> i\<lparr>it_additions := fs_additions st, it_deletions := fs_deletions st, it_stats := True,
                     it_binary := fs_binary st\<rparr>)"

definition apply_budget :: "string \<Rightarrow> Plan \<Rightarrow> Plan" where
  "apply_budget mode p =
     (if mode = ModeCritical \<and> pl_selected p = [] then criticalFallback p
      else if mode = ModeCritical
      then limitSignalDiverseSelection p criticalSelectionLimit criticalFallbackScore r_critical
      else if mode = ModeFocused then limitSignalDiverseSelection p focusedSelectionLimit 0 r_focused
      else p)"

definition plan_items :: "string \<Rightarrow> Item list \<Rightarrow> Plan" where
  "plan_items mode items =
     (let p = apply_budget mode
          \<lparr>pl_selected = by_rank (filter (\<lambda>i. include_score mode (it_score i)) items),
           pl_deferred = by_rank (filter (\<lambda>i. \<not> include_score mode (it_score i)) items),
           pl_exclude = [], pl_signals = []\<rparr>
      in p\<lparr>pl_exclude := map it_path (pl_deferred p), pl_signals := StaticImpactSignals (pl_selected p)\<rparr>)"

definition PlanWithMode :: "string \<Rightarrow> string option \<Rightarrow> string option \<Rightarrow> plan_error + Plan" where
  "PlanWithMode mode name_status numstat =
     (let mode = (if mode = '''' then ModeFocused else mode) in
      if \<not> Mode_Valid mode then Inl UnsupportedMode
      else case name_status of None \<Rightarrow> Inl ListFailed
      | Some output \<Rightarrow>
        bind_r (parseChangedFileStatuses output) (\<lambda>changes.
        bind_r (if length changes \<le> maxDiffStatsFiles
                then (case numstat of None \<Rightarrow> Inl StatsFailed | Some out \<Rightarrow> parseChangedFileStats out)
                else Inr []) (\<lambda>stats.
        Inr (plan_items mode (map (plan_item stats) changes)))))"

section \<open>The selection loses nothing\<close>

lemma add_reason_simps [simp]:
  "it_path (add_reason r i) = it_path i" "it_score (add_reason r i) = it_score i"
  "it_reasons (add_reason r i) = it_reasons i @ [r]"
  by (simp_all add: add_reason_def)

lemma by_rank_simps [simp]:
  "mset (by_rank is) = mset is" "set (by_rank is) = set is" "length (by_rank is) = length is"
  by (simp_all add: by_rank_def)

definition plan_paths :: "Plan \<Rightarrow> string list" where
  "plan_paths p = map it_path (pl_selected p @ pl_deferred p)"

lemma mset_paths_by_rank [simp]: "mset (map it_path (by_rank is)) = mset (map it_path is)"
  by (simp only: mset_map by_rank_simps)

lemma fallback_paths:
  "fallback_loop n is = (s, d) \<Longrightarrow> mset (map it_path s) + mset (map it_path d) = mset (map it_path is)"
  by (induction n "is" arbitrary: s d rule: fallback_loop.induct) (auto split: if_splits prod.splits)

lemma pick_diverse_sub: "set (pick_diverse k seen is) \<subseteq> set is"
  by (induction k seen "is" rule: pick_diverse.induct) auto

lemma pick_fill_sub: "set (pick_fill k ps is) \<subseteq> {i \<in> set is. it_path i \<notin> ps}"
  by (induction k ps "is" rule: pick_fill.induct) auto

lemma pick_sub: "set (pick k is) \<subseteq> set is"
  using pick_diverse_sub pick_fill_sub unfolding pick_def Let_def by fastforce

lemma pick_diverse_distinct:
  "distinct (map it_path is) \<Longrightarrow> distinct (map it_path (pick_diverse k seen is))"
proof (induction k seen "is" rule: pick_diverse.induct)
  case (2 k seen i rest)
  have "it_path i \<notin> it_path ` set rest" using 2(3) by simp
  then have "it_path i \<notin> it_path ` set (pick_diverse (k - 1) (seen \<union> set (riskSignals i)) rest)"
    by (meson image_mono pick_diverse_sub subsetD)
  then show ?case using 2(1,2) 2(3) by (simp only: pick_diverse.simps split: if_split) simp
qed simp

lemma pick_fill_distinct: "distinct (map it_path (pick_fill k ps is))"
proof (induction k ps "is" rule: pick_fill.induct)
  case (2 k ps i rest)
  then show ?case using pick_fill_sub [of "k - 1" "insert (it_path i) ps" rest] by auto
qed simp

lemma pick_distinct:
  assumes "distinct (map it_path is)"
  shows "distinct (map it_path (pick k is))"
proof -
  let ?first = "pick_diverse k {} is"
  let ?fill = "pick_fill (k - length ?first) (it_path ` set ?first) is"
  have "x \<notin> it_path ` set ?first" if "x \<in> it_path ` set ?fill" for x
    using that pick_fill_sub [of "k - length ?first" "it_path ` set ?first" "is"] by (auto elim!: imageE)
  then have "set (map it_path ?first) \<inter> set (map it_path ?fill) = {}" unfolding set_map by blast
  then show ?thesis
    using pick_diverse_distinct [OF assms] pick_fill_distinct
    unfolding pick_def Let_def map_append distinct_append by blast
qed

lemma length_pick_diverse: "length (pick_diverse k seen is) \<le> k"
proof (induction k seen "is" rule: pick_diverse.induct)
  case (2 k seen i rest)
  then show ?case by (cases "\<exists>s \<in> set (riskSignals i). s \<notin> seen"; cases k) simp_all
qed simp

lemma length_pick_fill: "length (pick_fill k ps is) \<le> k"
proof (induction k ps "is" rule: pick_fill.induct)
  case (2 k ps i rest)
  then show ?case by (cases "it_path i \<in> ps"; cases k) simp_all
qed simp

lemma length_pick: "length (pick k is) \<le> k"
proof -
  let ?n = "length (pick_diverse k {} is)"
  have "length (pick_fill (k - ?n) (it_path ` set (pick_diverse k {} is)) is) \<le> k - ?n" by (rule length_pick_fill)
  then show ?thesis using length_pick_diverse [of k "{}" "is"] by (simp add: pick_def Let_def)
qed

lemma distinct_paths_by_rank: "distinct (map it_path (by_rank is)) \<longleftrightarrow> distinct (map it_path is)"
  by (rule mset_eq_imp_distinct_iff) (rule mset_paths_by_rank)

text \<open>The two cases of \<open>limitSignalDiverseSelection\<close>.\<close>

abbreviation limit_eligible :: "Plan \<Rightarrow> int \<Rightarrow> Item list" where
  "limit_eligible p minimum \<equiv> filter (\<lambda>i. minimum > 0 \<and> it_score i \<ge> minimum) (pl_deferred p)"

abbreviation limit_candidates :: "Plan \<Rightarrow> int \<Rightarrow> Item list" where
  "limit_candidates p minimum \<equiv> by_rank (pl_selected p @ limit_eligible p minimum)"

lemma limit_cases:
  obtains (same) "limitSignalDiverseSelection p limit minimum reason = p"
      "limit = 0 \<or> length (pl_selected p) \<le> limit" "limit_eligible p minimum = [] \<or> limit = 0"
  | (cut) "limit \<noteq> 0"
      "pl_selected (limitSignalDiverseSelection p limit minimum reason) = pick limit (limit_candidates p minimum)"
      "pl_deferred (limitSignalDiverseSelection p limit minimum reason) =
         by_rank (map (\<lambda>i. if it_path i \<in> it_path ` set (limit_candidates p minimum) then add_reason reason i else i)
           (filter (\<lambda>i. it_path i \<notin> it_path ` set (pick limit (limit_candidates p minimum)))
             (pl_selected p @ pl_deferred p)))"
proof (cases "limit = 0")
  case True
  then show thesis using same by (simp add: limitSignalDiverseSelection_def)
next
  case nz: False
  show thesis
  proof (cases "length (pl_selected p @ limit_eligible p minimum) \<le> limit \<and> limit_eligible p minimum = []")
    case True
    then have "limitSignalDiverseSelection p limit minimum reason = p"
      unfolding limitSignalDiverseSelection_def Let_def if_not_P [OF nz] by (rule if_P)
    moreover have "length (pl_selected p) \<le> limit" using True by simp
    ultimately show thesis using same True by blast
  next
    case False
    note eq = limitSignalDiverseSelection_def [of p limit minimum reason, unfolded Let_def, unfolded if_not_P [OF nz],
        unfolded if_not_P [OF False]]
    show thesis by (rule cut [OF nz]) (unfold eq, simp_all)
  qed
qed

lemma split_by_paths:
  assumes "distinct (map f all)" "distinct (map f sel)" "set sel \<subseteq> set all"
  shows "mset (map f (sel @ filter (\<lambda>i. f i \<notin> f ` set sel) all)) = mset (map f all)"
proof (rule iffD1 [OF set_eq_iff_mset_eq_distinct])
  have "x \<notin> f ` set sel" if "x \<in> f ` set (filter (\<lambda>i. f i \<notin> f ` set sel) all)" for x
    using that by (elim imageE) simp
  then show "distinct (map f (sel @ filter (\<lambda>i. f i \<notin> f ` set sel) all))"
    using assms(2) distinct_map_filter [OF assms(1)] unfolding map_append distinct_append set_map by blast
  show "set (map f (sel @ filter (\<lambda>i. f i \<notin> f ` set sel) all)) = set (map f all)"
    using assms(3) by auto
qed (rule assms(1))

lemma distinct_candidates:
  assumes "distinct (plan_paths p)"
  shows "distinct (map it_path (limit_candidates p minimum))"
  using assms distinct_map_filter [of it_path "pl_deferred p" "\<lambda>i. minimum > 0 \<and> it_score i \<ge> minimum"]
  unfolding distinct_paths_by_rank plan_paths_def map_append distinct_append set_map
  by (auto dest!: filter_is_subset [THEN subsetD])

lemma limit_paths:
  assumes "distinct (plan_paths p)"
  shows "mset (plan_paths (limitSignalDiverseSelection p limit minimum reason)) = mset (plan_paths p)"
proof (cases rule: limit_cases [of p limit minimum reason])
  case same
  then show ?thesis by simp
next
  case cut
  let ?sel = "pick limit (limit_candidates p minimum)"
  have "set ?sel \<subseteq> set (pl_selected p @ pl_deferred p)" using pick_sub [of limit "limit_candidates p minimum"] by auto
  from split_by_paths [OF _ pick_distinct [OF distinct_candidates [OF assms]] this] assms
  have eq: "mset (map it_path (?sel @ filter (\<lambda>i. it_path i \<notin> it_path ` set ?sel) (pl_selected p @ pl_deferred p)))
      = mset (plan_paths p)"
    by (simp only: plan_paths_def)
  have rest: "map it_path (map (\<lambda>i. if it_path i \<in> S then add_reason reason i else i) is) = map it_path is" for S "is"
    by simp
  show ?thesis
    using eq unfolding plan_paths_def cut(2,3) by (simp only: map_append mset_append mset_paths_by_rank rest)
qed

lemma fallback_plan_paths: "mset (plan_paths (criticalFallback p)) = mset (plan_paths p)"
proof -
  obtain s d where sd: "fallback_loop (criticalFallbackLimit - length (pl_selected p)) (pl_deferred p) = (s, d)" by fastforce
  show ?thesis using fallback_paths [OF sd] by (simp add: criticalFallback_def sd plan_paths_def ac_simps)
qed

lemma apply_budget_paths:
  "distinct (plan_paths p) \<Longrightarrow> mset (plan_paths (apply_budget mode p)) = mset (plan_paths p)"
  by (simp add: apply_budget_def fallback_plan_paths limit_paths)

lemma plan_items_paths:
  assumes "distinct (map it_path items)"
  shows "mset (plan_paths (plan_items mode items)) = mset (map it_path items)"
proof -
  let ?p = "\<lparr>pl_selected = by_rank (filter (\<lambda>i. include_score mode (it_score i)) items),
           pl_deferred = by_rank (filter (\<lambda>i. \<not> include_score mode (it_score i)) items),
           pl_exclude = [], pl_signals = []\<rparr>"
  have eq: "mset (plan_paths ?p) = mset (map it_path items)"
    unfolding plan_paths_def map_append mset_append Plan.simps mset_paths_by_rank mset_map mset_filter
      image_mset_union [symmetric] by (simp flip: multiset_partition)
  then have "distinct (plan_paths ?p)" using assms mset_eq_imp_distinct_iff by blast
  from apply_budget_paths [OF this, of mode] eq show ?thesis
    by (simp add: plan_items_def Let_def plan_paths_def)
qed

section \<open>Budgets and thresholds\<close>

lemma limit_selected:
  "length (pl_selected (limitSignalDiverseSelection p limit minimum reason)) \<le> limit \<or> limit = 0"
  by (cases rule: limit_cases [of p limit minimum reason]) (auto simp: length_pick)

lemma limit_selected_from:
  assumes "i \<in> set (pl_selected (limitSignalDiverseSelection p limit minimum reason))"
  shows "i \<in> set (pl_selected p) \<or> i \<in> set (pl_deferred p) \<and> 0 < minimum \<and> minimum \<le> it_score i"
proof (cases rule: limit_cases [of p limit minimum reason])
  case cut
  have "i \<in> set (pick limit (limit_candidates p minimum))" using assms unfolding cut(2) .
  then have "i \<in> set (limit_candidates p minimum)" by (rule subsetD [OF pick_sub])
  then show ?thesis by auto
qed (use assms in simp)

lemma fallback_selected:
  "fallback_loop n is = (s, d) \<Longrightarrow> length s \<le> n \<and> (\<forall>i \<in> set s. criticalFallbackScore \<le> it_score i)"
proof (induction n "is" arbitrary: s d rule: fallback_loop.induct)
  case (2 n i rest)
  show ?case
  proof (cases "0 < n \<and> it_score i \<ge> criticalFallbackScore")
    case True
    obtain s' d' where r: "fallback_loop (n - 1) rest = (s', d')" by fastforce
    then have "s = add_reason r_fallback i # s'" using 2(3) True by simp
    then show ?thesis using 2(1) [OF True r] True by auto
  next
    case False
    obtain s' d' where r: "fallback_loop n rest = (s', d')" by fastforce
    then have "s = s'" using 2(3) False by (simp only: fallback_loop.simps if_False r Let_def prod.case prod.inject)
    then show ?thesis using 2(2) [OF False r] by simp
  qed
qed simp

lemma plan_items_simps:
  "pl_selected (plan_items mode items) = pl_selected (apply_budget mode
     \<lparr>pl_selected = by_rank (filter (\<lambda>i. include_score mode (it_score i)) items),
      pl_deferred = by_rank (filter (\<lambda>i. \<not> include_score mode (it_score i)) items),
      pl_exclude = [], pl_signals = []\<rparr>)"
  "pl_exclude (plan_items mode items) = map it_path (pl_deferred (plan_items mode items))"
  "pl_signals (plan_items mode items) = StaticImpactSignals (pl_selected (plan_items mode items))"
  by (simp_all add: plan_items_def Let_def)

definition mode_budget :: "string \<Rightarrow> nat option" where
  "mode_budget mode = (if mode = ModeCritical then Some 1 else if mode = ModeFocused then Some 8 else None)"

definition mode_threshold :: "string \<Rightarrow> int" where
  "mode_threshold mode = (if mode = ModeCritical then 55 else if mode = ModeFocused then 45 else 1)"

lemma plan_items_selected:
  assumes "Mode_Valid mode"
  shows "\<forall>i \<in> set (pl_selected (plan_items mode items)). mode_threshold mode \<le> it_score i"
    and "\<forall>n. mode_budget mode = Some n \<longrightarrow> length (pl_selected (plan_items mode items)) \<le> n"
proof -
  define p where "p = \<lparr>pl_selected = by_rank (filter (\<lambda>i. include_score mode (it_score i)) items),
      pl_deferred = by_rank (filter (\<lambda>i. \<not> include_score mode (it_score i)) items),
      pl_exclude = [], pl_signals = []\<rparr>"
  have modes: "ModeStandard \<noteq> ModeFocused" "ModeStandard \<noteq> ModeCritical" "ModeFocused \<noteq> ModeCritical"
    by (simp_all add: risk_consts)
  have inc: "\<forall>i \<in> set (pl_selected p). mode_threshold mode \<le> it_score i"
    using assms modes by (auto simp: p_def include_score_def mode_threshold_def Mode_Valid_def)
  have fallback: "length (pl_selected (criticalFallback p)) \<le> 1 \<and>
      (\<forall>i \<in> set (pl_selected (criticalFallback p)). 55 \<le> it_score i)" if "pl_selected p = []"
  proof -
    obtain s d where sd: "fallback_loop 1 (pl_deferred p) = (s, d)" by fastforce
    then have "pl_selected (criticalFallback p) = s"
      using that by (simp add: criticalFallback_def criticalFallbackLimit_def)
    then show ?thesis using fallback_selected [OF sd] by (simp add: criticalFallbackScore_def)
  qed
  consider "mode = ModeCritical" "pl_selected p = []" | "mode = ModeCritical" "pl_selected p \<noteq> []"
    | "mode = ModeFocused" | "mode = ModeStandard" using assms by (auto simp: Mode_Valid_def)
  then have "(\<forall>i \<in> set (pl_selected (apply_budget mode p)). mode_threshold mode \<le> it_score i) \<and>
      (\<forall>n. mode_budget mode = Some n \<longrightarrow> length (pl_selected (apply_budget mode p)) \<le> n)"
  proof cases
    case 1
    then show ?thesis using fallback by (auto simp: apply_budget_def mode_threshold_def mode_budget_def)
  next
    case 2
    have "apply_budget mode p = limitSignalDiverseSelection p 1 55 r_critical"
      using 2 by (simp add: apply_budget_def criticalSelectionLimit_def criticalFallbackScore_def)
    moreover have "mode_threshold mode = 55" "mode_budget mode = Some 1" using 2 by (simp_all add: mode_threshold_def mode_budget_def)
    ultimately show ?thesis
      using limit_selected [of p 1 55 r_critical] inc by (auto dest: limit_selected_from)
  next
    case 3
    have "apply_budget mode p = limitSignalDiverseSelection p 8 0 r_focused"
      using 3 modes by (simp add: apply_budget_def focusedSelectionLimit_def)
    moreover have "mode_budget mode = Some 8" using 3 modes by (simp add: mode_budget_def)
    ultimately show ?thesis
      using limit_selected [of p 8 0 r_focused] inc by (auto dest: limit_selected_from)
  next
    case 4
    then show ?thesis using inc modes by (simp add: apply_budget_def mode_budget_def)
  qed
  then show "\<forall>i \<in> set (pl_selected (plan_items mode items)). mode_threshold mode \<le> it_score i"
    "\<forall>n. mode_budget mode = Some n \<longrightarrow> length (pl_selected (plan_items mode items)) \<le> n"
    unfolding plan_items_simps(1) p_def by blast+
qed

section \<open>Scores\<close>

lemma bump_simps [simp]:
  "it_path (bump b n r i) = it_path i"
  "it_score (bump b n r i) = it_score i + (if b then n else 0)"
  "it_reasons (bump b n r i) = it_reasons i @ (if b then [r] else [])"
  by (simp_all add: bump_def)

lemma clamp_simps [simp]:
  "it_path (clamp_score i) = it_path i" "it_reasons (clamp_score i) = it_reasons i"
  "it_score (clamp_score i) = max 0 (min 100 (it_score i))"
  by (auto simp: clamp_score_def)

lemma item_of_simps [simp]:
  "it_path (item_of p s rs) = p" "it_score (item_of p s rs) = s" "it_reasons (item_of p s rs) = rs"
  by (simp_all add: item_of_def)

lemma Classify_cases:
  obtains "Classify p = item_of p 0 []" | "Classify p = item_of p 0 [r_artifact]"
  | "Classify p = item_of p 10 [r_docs]"
  | b1 b2 b3 b5 where "Classify p =
      scored p b1 b2 b3 (isDependencyManifest (ToLower (TrimSpace p))) (deploy_score (ToLower (TrimSpace p))) b5"
proof -
  have "x = y \<or> x = z \<or> x = u \<or> x = v"
    if "x = (if a then y else if b then z else if c then u else v)" for x y z u v :: Item and a b c
    using that by auto
  from this [OF Classify_def [of p, unfolded Let_def]] show thesis
    by (elim disjE) (erule that(1), erule that(2), erule that(3), erule that(4))
qed

lemma scored_simps [simp]:
  "it_path (scored p b1 b2 b3 b4 d b5) = p"
  "it_score (scored p b1 b2 b3 b4 d b5) = max 0 (min 100 (45 + (if b1 then 45 else 0) + (if b2 then 35 else 0)
     + (if b3 then 25 else 0) + (if b4 then 35 else 0) + d + (if b5 then -25 else 0)))"
  "it_reasons (scored p b1 b2 b3 b4 d b5) = [r_code] @ (if b1 then [r_auth] else []) @ (if b2 then [r_state] else [])
     @ (if b3 then [r_public] else []) @ (if b4 then [r_manifest] else []) @ (if d \<noteq> 0 then [r_deploy] else [])
     @ (if b5 then [r_test] else [])"
proof -
  have d: "(if d \<noteq> 0 then d else 0) = d" by simp
  show "it_path (scored p b1 b2 b3 b4 d b5) = p" by (simp add: scored_def)
  show "it_score (scored p b1 b2 b3 b4 d b5) = max 0 (min 100 (45 + (if b1 then 45 else 0) + (if b2 then 35 else 0)
     + (if b3 then 25 else 0) + (if b4 then 35 else 0) + d + (if b5 then -25 else 0)))"
    unfolding scored_def clamp_simps bump_simps item_of_simps d ..
  show "it_reasons (scored p b1 b2 b3 b4 d b5) = [r_code] @ (if b1 then [r_auth] else []) @ (if b2 then [r_state] else [])
     @ (if b3 then [r_public] else []) @ (if b4 then [r_manifest] else []) @ (if d \<noteq> 0 then [r_deploy] else [])
     @ (if b5 then [r_test] else [])"
    unfolding scored_def clamp_simps bump_simps item_of_simps append_assoc ..
qed

lemma Classify_path [simp]: "it_path (Classify p) = p"
  by (cases rule: Classify_cases [of p]) simp_all

lemma scored_bounds:
  "0 \<le> it_score (scored p b1 b2 b3 b4 d b5) \<and> it_score (scored p b1 b2 b3 b4 d b5) \<le> 100"
proof -
  have clamp: "0 \<le> max 0 (min 100 x) \<and> max 0 (min 100 x) \<le> 100" for x :: int by auto
  show ?thesis unfolding scored_simps(2) by (rule clamp)
qed

lemma Classify_bounds: "0 \<le> it_score (Classify p) \<and> it_score (Classify p) \<le> 100"
  by (cases rule: Classify_cases [of p]) (simp_all add: scored_bounds del: scored_simps)

lemma scored_signals: "55 \<le> it_score (scored p b1 b2 b3 b4 d b5) \<Longrightarrow> riskSignals (scored p b1 b2 b3 b4 d b5) \<noteq> []"
  by (cases b1; cases b2; cases b3; cases b4; cases b5; cases "d = 0") (simp_all add: riskSignals_def)

lemma Classify_signals: "55 \<le> it_score (Classify p) \<Longrightarrow> riskSignals (Classify p) \<noteq> []"
  by (cases rule: Classify_cases [of p]) (simp_all add: scored_signals del: scored_simps)

lemma plan_item_simps [simp]:
  "it_path (plan_item st c) = cf_path c" "it_score (plan_item st c) = it_score (Classify (cf_path c))"
  "it_reasons (plan_item st c) = it_reasons (Classify (cf_path c))"
  "it_change (plan_item st c) = cf_change c" "it_previous (plan_item st c) = cf_previous c"
  by (simp_all add: plan_item_def Let_def split: option.splits)

section \<open>The strongest file\<close>

lemma hd_by_rank:
  assumes "is \<noteq> []"
  shows "hd (by_rank is) \<in> set is" "\<And>j. j \<in> set is \<Longrightarrow> rank_key (hd (by_rank is)) \<le> rank_key j"
proof -
  obtain i rest where eq: "by_rank is = i # rest" using assms by (cases "by_rank is") (auto dest: arg_cong [where f = length])
  show "hd (by_rank is) \<in> set is" using eq by (metis by_rank_simps(2) list.sel(1) list.set_intros(1))
  fix j assume "j \<in> set is"
  then have "j \<in> set (i # rest)" using eq by (metis by_rank_simps(2))
  moreover have "sorted (map rank_key (i # rest))" using eq unfolding by_rank_def by (metis sorted_sort_key)
  ultimately show "rank_key (hd (by_rank is)) \<le> rank_key j" using eq by auto
qed

lemma pick_one:
  assumes "is \<noteq> []" "riskSignals (hd is) \<noteq> []"
  shows "pick 1 is = [hd is]"
proof -
  have "\<exists>s \<in> set (riskSignals (hd is)). s \<notin> {}" using assms(2) by (cases "riskSignals (hd is)") auto
  moreover have "pick_diverse 0 S rest = []" "pick_fill 0 S rest = []" for S rest by (cases rest; simp)+
  ultimately show ?thesis using assms(1) by (cases "is") (simp_all add: pick_def)
qed

lemma by_rank_Nil [simp]: "by_rank is = [] \<longleftrightarrow> is = []"
  by (metis by_rank_simps(3) length_0_conv)

lemma rank_key_score: "rank_key i \<le> rank_key j \<Longrightarrow> it_score j \<le> it_score i"
  by (auto simp: rank_key_def less_eq_prod_def)

lemma fallback_one:
  "fallback_loop 0 is = ([], is)"
  by (induction "is") simp_all

lemma fallback_none:
  "\<forall>i \<in> set is. it_score i < criticalFallbackScore \<Longrightarrow> fst (fallback_loop n is) = []"
  by (induction "is") (auto split: prod.splits)

lemma fallback_strongest:
  assumes "is \<noteq> []" "criticalFallbackScore \<le> it_score (hd is)"
  shows "fst (fallback_loop 1 is) = [add_reason r_fallback (hd is)]"
  using assms by (cases "is") (simp_all add: fallback_one)

lemma sort_key_of_sorted_parts: "sort_key f (sort_key f xs @ sort_key f ys) = sort_key f (xs @ ys)"
proof (rule properties_for_sort_key)
  have stable: "filter (\<lambda>x. k = f x) (sort_key f zs) = filter (\<lambda>x. k = f x) zs" for k zs
    using sort_key_stable [of f k zs] by (simp only: eq_commute)
  fix z
  show "filter (\<lambda>x. f z = f x) (sort_key f (xs @ ys)) = filter (\<lambda>x. f z = f x) (sort_key f xs @ sort_key f ys)"
    by (simp add: stable)
qed simp_all

text \<open>The part of the critical budget when some file reaches the threshold.\<close>

definition split_plan :: "Item list \<Rightarrow> Item list \<Rightarrow> Plan" where
  "split_plan sel def = \<lparr>pl_selected = by_rank sel, pl_deferred = by_rank def, pl_exclude = [], pl_signals = []\<rparr>"

lemma budget_strongest:
  fixes sel def :: "Item list"
  defines "cands \<equiv> by_rank (sel @ filter (\<lambda>i. (0::int) < 55 \<and> 55 \<le> it_score i) def)"
  assumes "sel \<noteq> []" "riskSignals (hd cands) \<noteq> []"
  shows "map it_path (pl_selected (limitSignalDiverseSelection (split_plan sel def) 1 55 r_critical)) = [it_path (hd cands)]"
proof (cases rule: limit_cases [of "split_plan sel def" 1 55 r_critical])
  case same
  then have one: "length sel \<le> 1" "filter (\<lambda>i. (0::int) < 55 \<and> 55 \<le> it_score i) def = []"
    by (auto simp: split_plan_def filter_empty_conv)
  then have "cands = by_rank sel" "length (by_rank sel) = 1" using assms(2) unfolding cands_def by (simp, cases sel, auto)
  then have "by_rank sel = [hd cands]" by (cases "by_rank sel") auto
  then show ?thesis using same(1) by (simp add: split_plan_def)
next
  case cut
  have "limit_candidates (split_plan sel def) 55 = cands"
    by (simp add: split_plan_def cands_def by_rank_def filter_sort sort_key_of_sorted_parts)
  moreover have "pick 1 cands = [hd cands]" using pick_one [of cands] assms(2,3) by (simp add: cands_def)
  ultimately show ?thesis using cut(2) by simp
qed

lemma critical_plan:
  "pl_selected (plan_items ModeCritical items) =
     (let sel = filter (\<lambda>i. 75 \<le> it_score i) items; def = filter (\<lambda>i. \<not> 75 \<le> it_score i) items in
      if sel = [] then fst (fallback_loop 1 (by_rank def))
      else pl_selected (limitSignalDiverseSelection (split_plan sel def) 1 55 r_critical))"
proof -
  have "ModeCritical \<noteq> ModeStandard" by (simp add: risk_consts)
  then show ?thesis
    unfolding plan_items_simps(1) apply_budget_def include_score_def split_plan_def Let_def
    by (simp add: criticalSelectionLimit_def criticalFallbackScore_def criticalFallback_def
        criticalFallbackLimit_def case_prod_beta)
qed

text \<open>In critical mode the selected file is the first of all changed files in the order of the
  planner, when any reaches the fallback score.\<close>

lemma critical_fallback_selection:
  assumes "\<forall>i \<in> set items. \<not> 75 \<le> it_score i" "j \<in> set items" "55 \<le> it_score j"
  shows "\<exists>i \<in> set items. map it_path (pl_selected (plan_items ModeCritical items)) = [it_path i]
       \<and> (\<forall>j \<in> set items. rank_key i \<le> rank_key j)"
proof -
  have none: "filter (\<lambda>i. 75 \<le> it_score i) items = []" "filter (\<lambda>i. \<not> 75 \<le> it_score i) items = items"
    using assms(1) by (auto simp: filter_empty_conv intro: filter_True)
  have ne: "items \<noteq> []" using assms(2) by auto
  note top = hd_by_rank [OF ne]
  have "55 \<le> it_score (hd (by_rank items))" using rank_key_score [OF top(2) [OF assms(2)]] assms(3) by simp
  then have "fst (fallback_loop 1 (by_rank items)) = [add_reason r_fallback (hd (by_rank items))]"
    using ne by (intro fallback_strongest) (simp_all add: criticalFallbackScore_def)
  then have "pl_selected (plan_items ModeCritical items) = [add_reason r_fallback (hd (by_rank items))]"
    unfolding critical_plan none Let_def by simp
  then show ?thesis using top by (intro bexI [of _ "hd (by_rank items)"]) auto
qed

lemma critical_budget_selection:
  assumes sig: "\<And>i. i \<in> set items \<Longrightarrow> 55 \<le> it_score i \<Longrightarrow> riskSignals i \<noteq> []"
    and j: "j \<in> set items" "75 \<le> it_score j"
  shows "\<exists>i \<in> set items. map it_path (pl_selected (plan_items ModeCritical items)) = [it_path i]
       \<and> (\<forall>j \<in> set items. rank_key i \<le> rank_key j)"
proof -
  let ?sel = "filter (\<lambda>i. 75 \<le> it_score i) items" and ?def = "filter (\<lambda>i. \<not> 75 \<le> it_score i) items"
  let ?c = "?sel @ filter (\<lambda>i. (0::int) < 55 \<and> 55 \<le> it_score i) ?def"
  let ?i = "hd (by_rank ?c)"
  have ne: "?sel \<noteq> []" using j by (auto simp: filter_empty_conv)
  then have "?c \<noteq> []" by simp
  note top = hd_by_rank [OF this]
  have members: "x \<in> set ?c \<longleftrightarrow> x \<in> set items \<and> 55 \<le> it_score x" for x by auto
  have i: "?i \<in> set items" "55 \<le> it_score ?i" using top(1) unfolding members by auto
  have "rank_key ?i \<le> rank_key x" if "x \<in> set items" for x
  proof (cases "55 \<le> it_score x")
    case True
    then show ?thesis using top(2) [of x] that unfolding members by blast
  next
    case False
    then show ?thesis using i(2) by (simp add: rank_key_def less_eq_prod_def)
  qed
  moreover have "map it_path (pl_selected (plan_items ModeCritical items)) = [it_path ?i]"
    unfolding critical_plan Let_def using budget_strongest [OF ne sig [OF i]] ne by simp
  ultimately show ?thesis using i(1) by (intro bexI [of _ ?i] conjI ballI)
qed

lemma critical_empty_selection:
  assumes "\<forall>i \<in> set items. \<not> 55 \<le> it_score i"
  shows "pl_selected (plan_items ModeCritical items) = []"
proof -
  have "filter (\<lambda>i. 75 \<le> it_score i) items = []" using assms by (fastforce simp: filter_empty_conv)
  moreover have "\<forall>i \<in> set (by_rank (filter (\<lambda>i. \<not> 75 \<le> it_score i) items)). it_score i < criticalFallbackScore"
    using assms by (auto simp: criticalFallbackScore_def not_le)
  ultimately show ?thesis unfolding critical_plan Let_def using fallback_none by simp
qed

section \<open>The output of git\<close>

text \<open>What \<open>git diff --name-status -z\<close> prints for a change, with the similarity score after the
  letter of a rename or a copy.\<close>

definition status_letter :: "string \<Rightarrow> char" where
  "status_letter kind =
     (if kind = ''added'' then CHR ''A'' else if kind = ''modified'' then CHR ''M''
      else if kind = ''deleted'' then CHR ''D'' else if kind = ''type_changed'' then CHR ''T''
      else if kind = ''renamed'' then CHR ''R'' else CHR ''C'')"

definition change_parts :: "string \<Rightarrow> changedFile \<Rightarrow> string list" where
  "change_parts score c =
     (if cf_change c = ''renamed'' \<or> cf_change c = ''copied''
      then [status_letter (cf_change c) # score, cf_previous c, cf_path c]
      else [[status_letter (cf_change c)], cf_path c])"

definition render_changes :: "string \<Rightarrow> changedFile list \<Rightarrow> string" where
  "render_changes score cs = concat (map (\<lambda>p. p @ [NUL]) (concat (map (change_parts score) cs)))"

definition change_ok :: "changedFile \<Rightarrow> bool" where
  "change_ok c \<longleftrightarrow> cf_path c \<noteq> '''' \<and> NUL \<notin> set (cf_path c) \<and> NUL \<notin> set (cf_previous c) \<and>
     (cf_change c \<in> {''added'', ''modified'', ''deleted'', ''type_changed''} \<and> cf_previous c = ''''
      \<or> cf_change c \<in> {''renamed'', ''copied''} \<and> cf_previous c \<noteq> cf_path c)"

lemma Split_join:
  assumes "ps \<noteq> []" "\<forall>p \<in> set ps. c \<notin> set p"
  shows "Split (butlast (concat (map (\<lambda>p. p @ [c]) ps))) c = ps"
  using assms
proof (induction ps)
  case (Cons p ps)
  show ?case
  proof (cases "ps = []")
    case True
    then show ?thesis using Cons.prems by (simp add: Split_single)
  next
    case False
    then have "concat (map (\<lambda>p. p @ [c]) ps) \<noteq> []" by (cases ps) auto
    then show ?thesis using Cons False by (simp add: butlast_append Split_append_sep)
  qed
qed simp

lemma parse_change_parts:
  assumes "change_ok c"
  shows "parse_statuses (change_parts score c @ rest) = bind_r (parse_statuses rest) (\<lambda>cs. Inr (c # cs))"
proof -
  obtain p k q where c: "c = \<lparr>cf_path = p, cf_change = k, cf_previous = q\<rparr>" by (cases c)
  show ?thesis
    using assms unfolding c change_ok_def
    by (auto simp: change_parts_def status_letter_def change_kind_def check_change_def)
qed

lemma parse_all_parts:
  "\<forall>c \<in> set cs. change_ok c \<Longrightarrow> parse_statuses (concat (map (change_parts score) cs)) = Inr cs"
  by (induction cs) (simp_all add: parse_change_parts)

lemma change_parts_no_NUL:
  assumes "change_ok c" "NUL \<notin> set score" "p \<in> set (change_parts score c)"
  shows "NUL \<notin> set p"
proof -
  have "NUL \<noteq> status_letter k" for k by (auto simp: status_letter_def NUL_def)
  then show ?thesis using assms by (auto simp: change_parts_def change_ok_def split: if_splits)
qed

section \<open>Properties\<close>

text \<open>The change list survives the pipe: parsing what git prints for a list of changes, with
  paths that have no NUL byte, gives exactly these changes in order, renames and copies with
  both of their paths.\<close>

theorem status_round_trip:
  assumes "\<forall>c \<in> set cs. change_ok c" "NUL \<notin> set score"
  shows "parseChangedFileStatuses (render_changes score cs) = Inr cs"
proof (cases "cs = []")
  case True
  then show ?thesis by (simp add: parseChangedFileStatuses_def render_changes_def)
next
  case False
  let ?ps = "concat (map (change_parts score) cs)"
  have ne: "?ps \<noteq> []" using False by (cases cs) (auto simp: change_parts_def)
  have "\<forall>p \<in> set ?ps. NUL \<notin> set p" using assms change_parts_no_NUL by fastforce
  note split = Split_join [OF ne this]
  have "last (render_changes score cs) = NUL" "render_changes score cs \<noteq> []"
    using ne unfolding render_changes_def by (cases ?ps rule: rev_cases; simp)+
  then show ?thesis
    using split parse_all_parts [OF assms(1)] by (simp add: parseChangedFileStatuses_def render_changes_def)
qed

definition demo_changes :: "changedFile list" where
  "demo_changes =
     [\<lparr>cf_path = ''README.md'', cf_change = ''modified'', cf_previous = ''''\<rparr>,
      \<lparr>cf_path = ''src/auth/login.go'', cf_change = ''renamed'', cf_previous = ''src/login.go''\<rparr>,
      \<lparr>cf_path = ''src/api/handler.go'', cf_change = ''added'', cf_previous = ''''\<rparr>]"

theorem status_round_trip_witness:
  "parseChangedFileStatuses (render_changes ''100'' demo_changes) = Inr demo_changes"
  by (rule status_round_trip) (simp_all add: demo_changes_def change_ok_def NUL_def)

lemma PlanWithMode_Inr:
  assumes "PlanWithMode mode (Some out) numstat = Inr plan"
  obtains m changes stats where "m = (if mode = '''' then ModeFocused else mode)" "Mode_Valid m"
    "parseChangedFileStatuses out = Inr changes" "plan = plan_items m (map (plan_item stats) changes)"
  using assms by (auto simp: PlanWithMode_def Let_def bind_r_Inr_iff split: if_splits)

text \<open>C28. No change is lost: for every mode, the selected and the deferred part of a plan
  together hold every changed path exactly once, the excluded paths are exactly the deferred
  ones, and the signals are those of the selected part.\<close>

theorem plan_covers_every_change:
  assumes "PlanWithMode mode (Some out) numstat = Inr plan"
    and "parseChangedFileStatuses out = Inr changes" "distinct (map cf_path changes)"
  shows "mset (map it_path (pl_selected plan)) + mset (map it_path (pl_deferred plan)) = mset (map cf_path changes)
     \<and> pl_exclude plan = map it_path (pl_deferred plan)
     \<and> pl_signals plan = StaticImpactSignals (pl_selected plan)"
proof -
  obtain m stats where plan: "plan = plan_items m (map (plan_item stats) changes)"
    using PlanWithMode_Inr [OF assms(1)] assms(2) by (metis sum.inject(2))
  have paths: "map it_path (map (plan_item stats) changes) = map cf_path changes" by simp
  show ?thesis
    using plan_items_paths [of "map (plan_item stats) changes" m, unfolded paths, OF assms(3)]
    unfolding plan plan_paths_def map_append mset_append plan_items_simps(2,3) by blast
qed

lemma demo_parsed: "parseChangedFileStatuses (render_changes ''100'' demo_changes) = Inr demo_changes"
  by code_simp

lemma demo_plan:
  "\<exists>plan. PlanWithMode ''critical'' (Some (render_changes ''100'' demo_changes)) (Some []) = Inr plan"
proof -
  have "length demo_changes \<le> maxDiffStatsFiles" by (simp add: demo_changes_def maxDiffStatsFiles_def)
  then show ?thesis
    by (simp add: PlanWithMode_def demo_parsed Mode_Valid_def ModeCritical_def parseChangedFileStats_def)
qed

theorem plan_covers_every_change_witness:
  "\<exists>plan :: Plan. mset (map it_path (pl_selected plan)) + mset (map it_path (pl_deferred plan)) =
     {#''README.md'', ''src/auth/login.go'', ''src/api/handler.go''#}"
proof -
  obtain plan where "PlanWithMode ''critical'' (Some (render_changes ''100'' demo_changes)) (Some []) = Inr plan"
    using demo_plan by blast
  moreover have "distinct (map cf_path demo_changes)" by (simp add: demo_changes_def)
  ultimately have "mset (map it_path (pl_selected plan)) + mset (map it_path (pl_deferred plan)) = mset (map cf_path demo_changes)"
    using plan_covers_every_change [OF _ demo_parsed] by blast
  then show ?thesis by (intro exI [of _ plan]) (simp add: demo_changes_def)
qed

text \<open>A plan keeps its budget: focused mode selects at most eight files and critical mode at
  most one, and a selected file scores at least 45 in focused mode, 55 in critical mode and
  more than zero in standard mode.\<close>

theorem selection_within_budget:
  assumes "PlanWithMode mode (Some out) numstat = Inr plan"
  shows "(mode = ''critical'' \<longrightarrow> length (pl_selected plan) \<le> 1 \<and> (\<forall>i \<in> set (pl_selected plan). 55 \<le> it_score i))
    \<and> (mode = ''focused'' \<or> mode = '''' \<longrightarrow>
         length (pl_selected plan) \<le> 8 \<and> (\<forall>i \<in> set (pl_selected plan). 45 \<le> it_score i))
    \<and> (mode = ''standard'' \<longrightarrow> (\<forall>i \<in> set (pl_selected plan). 0 < it_score i))"
proof -
  obtain m changes stats where m: "m = (if mode = '''' then ModeFocused else mode)" "Mode_Valid m"
    and plan: "plan = plan_items m (map (plan_item stats) changes)" using PlanWithMode_Inr [OF assms] by metis
  note sel = plan_items_selected [OF m(2), of "map (plan_item stats) changes", folded plan]
  show ?thesis using sel m(1) by (auto simp: mode_threshold_def mode_budget_def risk_consts)
qed

theorem selection_within_budget_witness:
  "\<exists>plan. PlanWithMode ''critical'' (Some (render_changes ''100'' demo_changes)) (Some []) = Inr plan
    \<and> length (pl_selected plan) \<le> 1"
proof -
  obtain plan where plan: "PlanWithMode ''critical'' (Some (render_changes ''100'' demo_changes)) (Some []) = Inr plan"
    using demo_plan by blast
  from selection_within_budget [OF plan] plan show ?thesis by (intro exI [of _ plan]) simp
qed

text \<open>A security review looks at the strongest boundary: in critical mode, when some changed
  file scores at least 55, exactly one file is selected, and every other changed file scores
  less, or the same with a later path; when none does, nothing is selected.\<close>

theorem critical_selects_strongest:
  assumes "PlanWithMode ''critical'' (Some out) numstat = Inr plan" "parseChangedFileStatuses out = Inr changes"
  shows "if \<exists>c \<in> set changes. 55 \<le> it_score (Classify (cf_path c))
     then \<exists>c \<in> set changes. map it_path (pl_selected plan) = [cf_path c] \<and>
       (\<forall>c' \<in> set changes. it_score (Classify (cf_path c')) < it_score (Classify (cf_path c))
          \<or> it_score (Classify (cf_path c')) = it_score (Classify (cf_path c)) \<and> cf_path c \<le> cf_path c')
     else pl_selected plan = []"
proof -
  obtain stats where plan: "plan = plan_items ModeCritical (map (plan_item stats) changes)"
    using PlanWithMode_Inr [OF assms(1)] assms(2) by (metis ModeCritical_def list.distinct(1) sum.inject(2))
  let ?items = "map (plan_item stats) changes"
  have sig: "riskSignals i \<noteq> []" if "i \<in> set ?items" "55 \<le> it_score i" for i
  proof -
    from that(1) obtain c where "i = plan_item stats c" by auto
    then show ?thesis using that(2) Classify_signals [of "cf_path c"] by (simp add: riskSignals_def)
  qed
  have rank: "rank_key (plan_item stats c) \<le> rank_key (plan_item stats c') \<longleftrightarrow>
      it_score (Classify (cf_path c')) < it_score (Classify (cf_path c))
      \<or> it_score (Classify (cf_path c')) = it_score (Classify (cf_path c)) \<and> cf_path c \<le> cf_path c'" for c c'
    by (auto simp: rank_key_def less_eq_prod_def)
  show ?thesis
  proof (cases "\<exists>c \<in> set changes. 55 \<le> it_score (Classify (cf_path c))")
    case True
    then obtain c where "c \<in> set changes" "55 \<le> it_score (Classify (cf_path c))" by blast
    then have j: "plan_item stats c \<in> set ?items" "55 \<le> it_score (plan_item stats c)" by auto
    have "\<exists>i \<in> set ?items. map it_path (pl_selected (plan_items ModeCritical ?items)) = [it_path i]
       \<and> (\<forall>j \<in> set ?items. rank_key i \<le> rank_key j)"
      using critical_fallback_selection [OF _ j] critical_budget_selection [OF sig, of ?items] by blast
    then obtain c where "c \<in> set changes" "map it_path (pl_selected plan) = [cf_path c]"
      "\<forall>c' \<in> set changes. rank_key (plan_item stats c) \<le> rank_key (plan_item stats c')"
      unfolding plan by auto
    then show ?thesis using True unfolding rank by auto
  next
    case False
    then show ?thesis using critical_empty_selection [of ?items] unfolding plan by auto
  qed
qed

theorem critical_selects_strongest_witness:
  "\<exists>plan. PlanWithMode ''critical'' (Some (render_changes ''100'' demo_changes)) (Some []) = Inr plan
    \<and> map it_path (pl_selected plan) = [''src/auth/login.go'']"
proof -
  obtain plan where plan: "PlanWithMode ''critical'' (Some (render_changes ''100'' demo_changes)) (Some []) = Inr plan"
    using demo_plan by blast
  have scores: "it_score (Classify ''README.md'') = 10" "it_score (Classify ''src/auth/login.go'') = 90"
    "it_score (Classify ''src/api/handler.go'') = 70" by code_simp+
  from critical_selects_strongest [OF plan demo_parsed] have "map it_path (pl_selected plan) = [''src/auth/login.go'']"
    by (simp add: demo_changes_def scores)
  then show ?thesis by (intro exI [of _ plan] conjI plan)
qed

end
