(* ===== verification/Go_Json.thy ===== *)
theory Go_Json
  imports Prelude "HOL-Library.AList"
begin

text \<open>
  JSON values and what the sources use of package \<open>encoding/json\<close>. A document is given by its
  syntax tree: an integer literal is a \<open>JInt\<close>, any other number literal a \<open>JReal\<close>, a string is
  its decoded bytes, and an object is the list of its members as written, repeated names
  included.

  Decoding into a Go variable follows \<open>json.Unmarshal\<close>: \<open>null\<close> leaves a boolean, a number, a
  string or an element of a slice as it is and makes a slice or a map empty; a repeated name keeps
  its last value; an integer must fit 64 bits and be written as an integer.
\<close>

datatype json = JNull | JBool bool | JInt int | JReal string | JStr string | JArr "json list"
  | JObj "(string \<times> json) list"

text \<open>\<open>json.Unmarshal\<close> into \<open>map[string]json.RawMessage\<close>.\<close>

definition obj_fields :: "json \<Rightarrow> (string \<times> json) list option" where
  "obj_fields j = (case j of JObj kvs \<Rightarrow> Some (fold (\<lambda>(k, v). AList.update k v) kvs [])
     | JNull \<Rightarrow> Some [] | _ \<Rightarrow> None)"

definition unmarshal_bool :: "json \<Rightarrow> bool \<Rightarrow> bool option" where
  "unmarshal_bool j cur = (case j of JBool b \<Rightarrow> Some b | JNull \<Rightarrow> Some cur | _ \<Rightarrow> None)"

definition unmarshal_string :: "json \<Rightarrow> string \<Rightarrow> string option" where
  "unmarshal_string j cur = (case j of JStr s \<Rightarrow> Some s | JNull \<Rightarrow> Some cur | _ \<Rightarrow> None)"

definition int64 :: "int \<Rightarrow> bool" where
  "int64 i \<longleftrightarrow> - (2 ^ 63) \<le> i \<and> i < 2 ^ 63"

definition unmarshal_int :: "json \<Rightarrow> int \<Rightarrow> int option" where
  "unmarshal_int j cur =
     (case j of JInt i \<Rightarrow> if int64 i then Some i else None | JNull \<Rightarrow> Some cur | _ \<Rightarrow> None)"

text \<open>A slice of strings: the elements are decoded over the elements the variable has, so that a
  \<open>null\<close> keeps the old one.\<close>

fun unmarshal_elems :: "json list \<Rightarrow> string list \<Rightarrow> string list option" where
  "unmarshal_elems [] cur = Some []"
| "unmarshal_elems (j # js) cur =
     (case unmarshal_string j (case cur of [] \<Rightarrow> '''' | c # _ \<Rightarrow> c) of None \<Rightarrow> None
      | Some s \<Rightarrow> map_option ((#) s) (unmarshal_elems js (tl cur)))"

definition unmarshal_strings :: "json \<Rightarrow> string list \<Rightarrow> string list option" where
  "unmarshal_strings j cur = (case j of JArr js \<Rightarrow> unmarshal_elems js cur | JNull \<Rightarrow> Some [] | _ \<Rightarrow> None)"

text \<open>The loop over the members of an object; the order of a Go map is not fixed, and the loops
  of the sources give the same result in every order.\<close>

fun decode_fields :: "(string \<Rightarrow> json \<Rightarrow> 'c \<Rightarrow> 'c option) \<Rightarrow> (string \<times> json) list \<Rightarrow> 'c \<Rightarrow> 'c option" where
  "decode_fields f [] c = Some c"
| "decode_fields f ((k, v) # kvs) c = (case f k v c of None \<Rightarrow> None | Some c \<Rightarrow> decode_fields f kvs c)"

named_theorems json_simps \<open>decoding of literals\<close>

lemma unmarshal_simps [json_simps]:
  "unmarshal_bool (JBool b) x = Some b" "unmarshal_string (JStr s) y = Some s"
  "int64 i \<Longrightarrow> unmarshal_int (JInt i) cur = Some i"
  by (simp_all add: unmarshal_bool_def unmarshal_string_def unmarshal_int_def)

lemma unmarshal_elems_JStr [json_simps]: "unmarshal_elems (map JStr ss) cur = Some ss"
  by (induction ss arbitrary: cur) (simp_all add: unmarshal_string_def)

lemma unmarshal_strings_JStr [json_simps]: "unmarshal_strings (JArr (map JStr ss)) cur = Some ss"
  by (simp add: unmarshal_strings_def unmarshal_elems_JStr)

lemma fold_update_fresh:
  assumes "distinct (map fst (acc @ kvs))"
  shows "fold (\<lambda>(k, v). AList.update k v) kvs acc = acc @ kvs"
  using assms
proof (induction kvs arbitrary: acc)
  case (Cons kv kvs)
  have "AList.update (fst kv) (snd kv) acc = acc @ [kv]" using Cons.prems
    by (induction acc) auto
  then show ?case using Cons.IH [of "acc @ [kv]"] Cons.prems by (simp add: case_prod_beta)
qed simp

lemma obj_fields_distinct [json_simps]: "distinct (map fst kvs) \<Longrightarrow> obj_fields (JObj kvs) = Some kvs"
  using fold_update_fresh [of "[]" kvs] by (simp add: obj_fields_def)

lemma obj_fields_fst:
  assumes "obj_fields j = Some kvs"
  shows "distinct (map fst kvs)"
proof -
  have "distinct (map fst acc) \<Longrightarrow> distinct (map fst (fold (\<lambda>(k, v). AList.update k v) xs acc))"
    for xs acc :: "(string \<times> json) list"
    by (induction xs arbitrary: acc) (auto simp: case_prod_beta distinct_update)
  then show ?thesis using assms by (auto simp: obj_fields_def split: json.splits)
qed

text \<open>An invariant of the decoded variable that every member keeps.\<close>

lemma decode_fields_inv:
  assumes "decode_fields f kvs c = Some c'" "P c"
    and "\<And>k v c c'. f k v c = Some c' \<Longrightarrow> P c \<Longrightarrow> P c'"
  shows "P c'"
  using assms(1,2)
proof (induction kvs arbitrary: c)
  case (Cons kv kvs)
  then show ?case using assms(3) by (cases kv) (auto split: option.splits)
qed simp

end
