(* ===== verification/Path_Glob.thy ===== *)
theory Path_Glob
  imports Prelude
begin

text \<open>
  The path patterns of \<open>reviewPathGlobMatches\<close> in \<open>src/internal/domain/review_config.go\<close>. The code
  translates a pattern into a regular expression and asks package \<open>regexp\<close>; the expression is a
  sequence of the five pieces of \<open>gtok\<close>, \<open>toks_lang\<close> is what it denotes, and \<open>gmatch\<close> decides it.
  Patterns and paths are sequences of runes, an invalid byte being U+FFFD, as they are for
  \<open>regexp\<close>; a dot does not match a newline.

  \<open>globs\<close> is the meaning of the patterns as the Console documents it, without expressions: the
  code agrees with it (\<open>glob_code_meets_spec\<close>).
\<close>

section \<open>The expression\<close>

definition SLASH :: nat where "SLASH = 47"
definition STAR :: nat where "STAR = 42"
definition QUEST :: nat where "QUEST = 63"
definition NEWLINE :: nat where "NEWLINE = 10"

lemmas glob_chars = SLASH_def STAR_def QUEST_def NEWLINE_def

text \<open>A quoted rune, \<open>[^/]\<close>, \<open>[^/]*\<close>, \<open>.*\<close> and \<open>(?:.*/)?\<close>.\<close>

datatype gtok = GLit nat | GOne | GSeg | GAny | GDirs

fun glob_tokens :: "nat list \<Rightarrow> gtok list" where
  "glob_tokens [] = []"
| "glob_tokens (c # cs) =
     (if c = STAR
      then (case cs of [] \<Rightarrow> [GSeg]
            | d # ds \<Rightarrow>
              if d = STAR
              then (case ds of [] \<Rightarrow> [GAny]
                    | e # es \<Rightarrow> if e = SLASH then GDirs # glob_tokens es else GAny # glob_tokens ds)
              else GSeg # glob_tokens cs)
      else if c = QUEST then GOne # glob_tokens cs
      else GLit c # glob_tokens cs)"

fun tok_lang :: "gtok \<Rightarrow> nat list set" where
  "tok_lang (GLit c) = {[c]}"
| "tok_lang GOne = {[c] | c. c \<noteq> SLASH}"
| "tok_lang GSeg = {w. SLASH \<notin> set w}"
| "tok_lang GAny = {w. NEWLINE \<notin> set w}"
| "tok_lang GDirs = {[]} \<union> {w @ [SLASH] | w. NEWLINE \<notin> set w}"

fun toks_lang :: "gtok list \<Rightarrow> nat list set" where
  "toks_lang [] = {[]}"
| "toks_lang (t # ts) = {u @ v | u v. u \<in> tok_lang t \<and> v \<in> toks_lang ts}"

text \<open>All ways to take a prefix of runes with a property off a word.\<close>

fun rests :: "('a \<Rightarrow> bool) \<Rightarrow> 'a list \<Rightarrow> 'a list list" where
  "rests p [] = [[]]"
| "rests p (x # xs) = (x # xs) # (if p x then rests p xs else [])"

fun gmatch :: "gtok list \<Rightarrow> nat list \<Rightarrow> bool" where
  "gmatch [] w = (w = [])"
| "gmatch (GLit c # ts) w = (case w of [] \<Rightarrow> False | x # xs \<Rightarrow> x = c \<and> gmatch ts xs)"
| "gmatch (GOne # ts) w = (case w of [] \<Rightarrow> False | x # xs \<Rightarrow> x \<noteq> SLASH \<and> gmatch ts xs)"
| "gmatch (GSeg # ts) w = list_ex (gmatch ts) (rests (\<lambda>x. x \<noteq> SLASH) w)"
| "gmatch (GAny # ts) w = list_ex (gmatch ts) (rests (\<lambda>x. x \<noteq> NEWLINE) w)"
| "gmatch (GDirs # ts) w =
     (gmatch ts w \<or> list_ex (\<lambda>v. case v of [] \<Rightarrow> False | x # xs \<Rightarrow> x = SLASH \<and> gmatch ts xs)
        (rests (\<lambda>x. x \<noteq> NEWLINE) w))"

definition reviewPathGlobMatches :: "string \<Rightarrow> string \<Rightarrow> bool" where
  "reviewPathGlobMatches pattern value =
     (let pattern = TrimPrefix (TrimSpace pattern) ''./'' in
      if pattern = '''' then False
      else gmatch (glob_tokens (runes pattern)) (runes value))"

definition reviewPathMatchesAny :: "string list \<Rightarrow> string \<Rightarrow> bool" where
  "reviewPathMatchesAny patterns value = list_ex (\<lambda>pattern. reviewPathGlobMatches pattern value) patterns"

section \<open>The matcher decides the expression\<close>

lemma rests_iff: "v \<in> set (rests p w) \<longleftrightarrow> (\<exists>u. w = u @ v \<and> (\<forall>x \<in> set u. p x))"
proof (induction w)
  case (Cons x xs)
  show ?case
  proof
    assume "v \<in> set (rests p (x # xs))"
    then consider "v = x # xs" | "p x" "v \<in> set (rests p xs)" by (auto split: if_splits)
    then show "\<exists>u. x # xs = u @ v \<and> (\<forall>y \<in> set u. p y)"
    proof cases
      case 1
      then show ?thesis by (intro exI [of _ "[]"]) simp
    next
      case 2
      then obtain u where "xs = u @ v" "\<forall>y \<in> set u. p y" using Cons by auto
      then show ?thesis using 2(1) by (intro exI [of _ "x # u"]) simp
    qed
  next
    assume "\<exists>u. x # xs = u @ v \<and> (\<forall>y \<in> set u. p y)"
    then obtain u where "x # xs = u @ v" "\<forall>y \<in> set u. p y" by blast
    then show "v \<in> set (rests p (x # xs))" using Cons by (cases u) auto
  qed
qed simp

lemma tok_step:
  "gmatch (t # ts) w \<longleftrightarrow> (\<exists>u v. w = u @ v \<and> u \<in> tok_lang t \<and> gmatch ts v)"
proof (cases t)
  case (GLit c)
  then show ?thesis by (cases w) auto
next
  case GOne
  have "(\<exists>u v. w = u @ v \<and> u \<in> tok_lang GOne \<and> gmatch ts v) \<longleftrightarrow> (\<exists>c v. w = c # v \<and> c \<noteq> SLASH \<and> gmatch ts v)"
    by (auto intro: exI [of _ "[c]" for c])
  then show ?thesis unfolding GOne by (cases w) auto
next
  case GSeg
  have e: "(\<forall>x \<in> set u. x \<noteq> SLASH) \<longleftrightarrow> SLASH \<notin> set u" for u by auto
  show ?thesis unfolding GSeg gmatch.simps list_ex_iff rests_iff Bex_def e tok_lang.simps mem_Collect_eq by blast
next
  case GAny
  have e: "(\<forall>x \<in> set u. x \<noteq> NEWLINE) \<longleftrightarrow> NEWLINE \<notin> set u" for u by auto
  show ?thesis unfolding GAny gmatch.simps list_ex_iff rests_iff Bex_def e tok_lang.simps mem_Collect_eq by blast
next
  case GDirs
  have nl: "(\<forall>x \<in> set u. x \<noteq> NEWLINE) \<longleftrightarrow> NEWLINE \<notin> set u" for u by auto
  have key: "(case v of [] \<Rightarrow> False | x # xs \<Rightarrow> x = SLASH \<and> gmatch ts xs) \<longleftrightarrow> (\<exists>xs. v = SLASH # xs \<and> gmatch ts xs)" for v
    by (cases v) auto
  have "gmatch (GDirs # ts) w \<longleftrightarrow> gmatch ts w \<or> (\<exists>u v. w = u @ SLASH # v \<and> NEWLINE \<notin> set u \<and> gmatch ts v)"
    unfolding gmatch.simps list_ex_iff rests_iff Bex_def nl key by blast
  also have "\<dots> \<longleftrightarrow> (\<exists>u v. w = u @ v \<and> u \<in> tok_lang GDirs \<and> gmatch ts v)"
  proof
    assume "gmatch ts w \<or> (\<exists>u v. w = u @ SLASH # v \<and> NEWLINE \<notin> set u \<and> gmatch ts v)"
    then consider "gmatch ts w" | u v where "w = (u @ [SLASH]) @ v" "NEWLINE \<notin> set u" "gmatch ts v" by auto
    then show "\<exists>u v. w = u @ v \<and> u \<in> tok_lang GDirs \<and> gmatch ts v"
    proof cases
      case 1
      then show ?thesis by (intro exI [of _ "[]"] exI [of _ w]) simp
    next
      case (2 u v)
      then show ?thesis by (intro exI [of _ "u @ [SLASH]"] exI [of _ v]) simp
    qed
  next
    assume "\<exists>u v. w = u @ v \<and> u \<in> tok_lang GDirs \<and> gmatch ts v"
    then obtain u v where "w = u @ v" "u \<in> tok_lang GDirs" "gmatch ts v" by blast
    then show "gmatch ts w \<or> (\<exists>u v. w = u @ SLASH # v \<and> NEWLINE \<notin> set u \<and> gmatch ts v)" by fastforce
  qed
  finally show ?thesis unfolding GDirs .
qed

lemma gmatch_lang: "gmatch ts w \<longleftrightarrow> w \<in> toks_lang ts"
proof (induction ts arbitrary: w)
  case (Cons t ts)
  then show ?case unfolding tok_step by auto
qed simp

section \<open>The meaning of the patterns\<close>

inductive globs :: "nat list \<Rightarrow> nat list \<Rightarrow> bool" where
  empty: "globs [] []"
| literal: "c \<noteq> STAR \<Longrightarrow> c \<noteq> QUEST \<Longrightarrow> globs p w \<Longrightarrow> globs (c # p) (c # w)"
| one: "c \<noteq> SLASH \<Longrightarrow> globs p w \<Longrightarrow> globs (QUEST # p) (c # w)"
| segment: "SLASH \<notin> set u \<Longrightarrow> take 1 p \<noteq> [STAR] \<Longrightarrow> globs p w \<Longrightarrow> globs (STAR # p) (u @ w)"
| any: "NEWLINE \<notin> set u \<Longrightarrow> take 1 p \<noteq> [SLASH] \<Longrightarrow> globs p w \<Longrightarrow> globs (STAR # STAR # p) (u @ w)"
| here: "globs p w \<Longrightarrow> globs (STAR # STAR # SLASH # p) w"
| below: "NEWLINE \<notin> set u \<Longrightarrow> globs p w \<Longrightarrow> globs (STAR # STAR # SLASH # p) (u @ SLASH # w)"

lemma star_neq [simp]: "STAR \<noteq> QUEST" "QUEST \<noteq> STAR" "SLASH \<noteq> STAR" "STAR \<noteq> SLASH" "SLASH \<noteq> QUEST" "QUEST \<noteq> SLASH"
  by (simp_all add: glob_chars)

lemma glob_tokens_star:
  "glob_tokens (STAR # p) = (if take 1 p = [STAR]
     then (if take 1 (tl p) = [SLASH] then GDirs # glob_tokens (tl (tl p)) else GAny # glob_tokens (tl p))
     else GSeg # glob_tokens p)"
  by (auto split: list.splits)

lemma toks_langI: "u \<in> tok_lang t \<Longrightarrow> v \<in> toks_lang ts \<Longrightarrow> u @ v \<in> toks_lang (t # ts)"
  unfolding toks_lang.simps by blast

lemma globs_sound: "globs p w \<Longrightarrow> w \<in> toks_lang (glob_tokens p)"
proof (induction rule: globs.induct)
  case (literal c p w)
  then show ?case using toks_langI [of "[c]" "GLit c" w] by simp
next
  case (one c p w)
  then show ?case using toks_langI [of "[c]" GOne w] by simp
next
  case (segment u p w)
  then show ?case using toks_langI [of u GSeg w] by (simp add: glob_tokens_star del: glob_tokens.simps)
next
  case (any u p w)
  then show ?case using toks_langI [of u GAny w] by (simp add: glob_tokens_star del: glob_tokens.simps)
next
  case (here p w)
  then show ?case using toks_langI [of "[]" GDirs w] by simp
next
  case (below u p w)
  then show ?case using toks_langI [of "u @ [SLASH]" GDirs w] by simp
qed simp

lemma globs_complete: "w \<in> toks_lang (glob_tokens p) \<Longrightarrow> globs p w"
proof (induction p arbitrary: w rule: length_induct)
  case (1 p)
  show ?case
  proof (cases p)
    case Nil
    then show ?thesis using 1(2) by (simp add: globs.empty)
  next
    case (Cons c cs)
    have IH: "v \<in> toks_lang (glob_tokens q) \<Longrightarrow> globs q v" if "length q < length p" for q v
      using 1(1) that by blast
    have IHcs: "globs cs v" if "v \<in> toks_lang (glob_tokens cs)" for v using IH [OF _ that] Cons by simp
    consider "c \<noteq> STAR" | "c = STAR" "take 1 cs \<noteq> [STAR]"
      | q where "c = STAR" "cs = STAR # SLASH # q"
      | q where "c = STAR" "cs = STAR # q" "take 1 q \<noteq> [SLASH]"
      by (cases cs; cases "tl cs") auto
    then show ?thesis
    proof cases
      case 1
      show ?thesis
      proof (cases "c = QUEST")
        case True
        then obtain x v where "w = x # v" "x \<noteq> SLASH" "v \<in> toks_lang (glob_tokens cs)"
          using \<open>w \<in> toks_lang (glob_tokens p)\<close> Cons by auto
        then show ?thesis using globs.one [OF _ IHcs] True Cons by blast
      next
        case False
        then obtain v where "w = c # v" "v \<in> toks_lang (glob_tokens cs)"
          using \<open>w \<in> toks_lang (glob_tokens p)\<close> Cons 1 by auto
        then show ?thesis using globs.literal [OF 1 False IHcs] Cons by blast
      qed
    next
      case 2
      then show ?thesis
        using \<open>w \<in> toks_lang (glob_tokens p)\<close> Cons
        by (auto simp del: glob_tokens.simps simp: glob_tokens_star intro: globs.segment IHcs)
    next
      case (3 q)
      then obtain u v where uv: "w = u @ v" "u \<in> tok_lang GDirs" "v \<in> toks_lang (glob_tokens q)"
        using \<open>w \<in> toks_lang (glob_tokens p)\<close> Cons by auto
      moreover have "globs q v" using IH [of q] uv(3) 3 Cons by simp
      ultimately show ?thesis using 3 Cons by (auto intro: globs.here globs.below)
    next
      case (4 q)
      then obtain u v where uv: "w = u @ v" "u \<in> tok_lang GAny" "v \<in> toks_lang (glob_tokens q)"
        using \<open>w \<in> toks_lang (glob_tokens p)\<close> Cons
        by (auto simp del: glob_tokens.simps simp: glob_tokens_star)
      moreover have "globs q v" using IH [of q] uv(3) 4 Cons by simp
      ultimately show ?thesis using 4 Cons by (auto intro: globs.any)
    qed
  qed
qed

text \<open>C29. The patterns mean what the Console documents: a path matches a pattern exactly when
  it can be read off the pattern with \<open>?\<close> for one rune and \<open>*\<close> for any runes of one segment, \<open>**\<close> for
  any runes but a newline, \<open>**/\<close> for nothing or any directories, and every other rune for itself;
  the empty pattern matches nothing.\<close>

theorem glob_code_meets_spec:
  "reviewPathGlobMatches pattern value \<longleftrightarrow>
     TrimPrefix (TrimSpace pattern) ''./'' \<noteq> '''' \<and>
     globs (runes (TrimPrefix (TrimSpace pattern) ''./'')) (runes value)"
  using globs_sound globs_complete by (auto simp: reviewPathGlobMatches_def Let_def gmatch_lang)

lemma globs_same_slashes:
  "globs p w \<Longrightarrow> \<forall>a b. p \<noteq> a @ STAR # STAR # b \<Longrightarrow> count_list w SLASH = count_list p SLASH"
proof (induction rule: globs.induct)
  case (literal c p w)
  then have "\<forall>a b. p \<noteq> a @ STAR # STAR # b" by (metis append_Cons)
  then show ?case using literal by simp
next
  case (one c p w)
  then have "\<forall>a b. p \<noteq> a @ STAR # STAR # b" by (metis append_Cons)
  then show ?case using one by simp
next
  case (segment u p w)
  then have "\<forall>a b. p \<noteq> a @ STAR # STAR # b" by (metis append_Cons)
  then show ?case using segment by (simp add: count_list_0_iff)
next
  case (any u p w)
  then show ?case by (metis append_Nil)
next
  case (here p w)
  then show ?case by (metis append_Nil)
next
  case (below u p w)
  then show ?case by (metis append_Nil)
qed simp

text \<open>\<open>*\<close> and \<open>?\<close> stay in one segment: a path that matches a pattern without \<open>**\<close> has exactly
  as many directory separators as the pattern.\<close>

theorem single_star_stays_in_segment:
  assumes "reviewPathGlobMatches pattern value"
    and "\<forall>a b. runes (TrimPrefix (TrimSpace pattern) ''./'') \<noteq> a @ STAR # STAR # b"
  shows "count_list (runes value) SLASH = count_list (runes (TrimPrefix (TrimSpace pattern) ''./'')) SLASH"
proof -
  have "globs (runes (TrimPrefix (TrimSpace pattern) ''./'')) (runes value)"
    using assms(1) globs_complete by (auto simp: reviewPathGlobMatches_def Let_def gmatch_lang split: if_splits)
  then show ?thesis using assms(2) by (rule globs_same_slashes)
qed

lemma no_double_star:
  assumes "list_all (\<lambda>(x, y). \<not> (x = STAR \<and> y = STAR)) (zip p (tl p))"
  shows "\<forall>a b. p \<noteq> a @ STAR # STAR # b"
proof (intro allI notI)
  fix a b assume "p = a @ STAR # STAR # b"
  then have "(STAR, STAR) \<in> set (zip p (tl p))"
  proof (induction a arbitrary: p)
    case (Cons x a)
    then show ?case by (cases "a @ STAR # STAR # b") auto
  qed simp
  then show False using assms by (auto simp: list_all_iff)
qed

theorem single_star_stays_in_segment_witness:
  "count_list (runes ''src/main.go'') SLASH = count_list (runes ''src/*.go'') SLASH"
proof -
  have m: "reviewPathGlobMatches ''src/*.go'' ''src/main.go''" by code_simp
  have p: "TrimPrefix (TrimSpace ''src/*.go'') ''./'' = ''src/*.go''" by code_simp
  have "list_all (\<lambda>(x, y). \<not> (x = STAR \<and> y = STAR)) (zip (runes ''src/*.go'') (tl (runes ''src/*.go'')))"
    by code_simp
  from single_star_stays_in_segment [OF m, unfolded p, OF no_double_star [OF this]] show ?thesis .
qed

section \<open>Runes around an ASCII byte\<close>

lemma decode_rune_before_ascii:
  assumes "s \<noteq> []" "of_char c < (0x80::nat)"
  shows "decode_rune (s @ c # t) = decode_rune s \<and> snd (decode_rune s) \<le> length s \<and> 1 \<le> snd (decode_rune s)"
proof -
  have nb: "\<not> byte_in c 0x80 0xBF" "\<not> byte_in c 0xA0 0xBF" "\<not> byte_in c 0x80 0x9F" "\<not> byte_in c 0x90 0xBF"
    "\<not> byte_in c 0x80 0x8F" using assms(2) by (auto simp: byte_in_def)
  obtain a u where s: "s = a # u" using assms(1) by (cases s) auto
  show ?thesis
  proof (cases u)
    case Nil
    then show ?thesis by (cases t) (auto simp: decode_rune_def s nb split: list.splits)
  next
    case u: (Cons b v)
    show ?thesis
    proof (cases v)
      case Nil
      then show ?thesis by (cases t) (auto simp: decode_rune_def s u nb split: list.splits)
    next
      case v: (Cons d w)
      show ?thesis
      proof (cases w)
        case Nil
        then show ?thesis by (auto simp: decode_rune_def s u v nb)
      next
        case (Cons e x)
        then show ?thesis by (auto simp: decode_rune_def s u v)
      qed
    qed
  qed
qed

lemma runes_append_ascii:
  assumes "of_char c < (0x80::nat)"
  shows "runes (s @ c # t) = runes s @ of_char c # runes t"
proof (induction s rule: length_induct)
  case (1 s)
  show ?case
  proof (cases s)
    case Nil
    then show ?thesis using assms by (simp add: decode_rune_def)
  next
    case (Cons a u)
    let ?n = "snd (decode_rune s) - 1"
    note d = decode_rune_before_ascii [of s c t, OF _ assms]
    have "?n \<le> length u" using d Cons by (simp add: le_diff_conv)
    then have "runes (s @ c # t) = fst (decode_rune s) # runes (drop ?n u @ c # t)"
      using d Cons by simp
    also have "\<dots> = fst (decode_rune s) # runes (drop ?n u) @ of_char c # runes t" using 1 Cons by simp
    finally show ?thesis using Cons by simp
  qed
qed


lemma decode_rune_newline: "fst (decode_rune (c # s)) = NEWLINE \<Longrightarrow> of_char c = NEWLINE"
  by (auto simp: decode_rune_def byte_in_def NEWLINE_def split: list.splits if_splits)

lemma runes_newline: "CHR 0x0A \<notin> set s \<Longrightarrow> NEWLINE \<notin> set (runes s)"
proof (induction s rule: runes.induct)
  case (2 c s)
  have "of_char c \<noteq> NEWLINE"
  proof
    assume "of_char c = NEWLINE"
    moreover have "of_char (CHR 0x0A) = NEWLINE" by (simp add: NEWLINE_def)
    ultimately have "c = CHR 0x0A" by (metis char_of_char)
    then show False using 2 by simp
  qed
  moreover have "CHR 0x0A \<notin> set (drop (snd (decode_rune (c # s)) - 1) s)"
    using 2 by (auto dest: in_set_dropD)
  ultimately show ?case using 2 decode_rune_newline [of c s] by fastforce
qed simp

lemma runes_ascii_append: "is_ascii p \<Longrightarrow> runes (p @ t) = map of_char p @ runes t"
proof (induction p)
  case (Cons c p)
  then show ?case using runes_append_ascii [of c "[]" "p @ t"] by (simp add: is_ascii_def)
qed simp

lemma toks_lang_literal: "v \<in> toks_lang ts \<Longrightarrow> w @ v \<in> toks_lang (map GLit w @ ts)"
proof (induction w)
  case (Cons x w)
  then show ?case using toks_langI [of "[x]" "GLit x" "w @ v" "map GLit w @ ts"] by simp
qed simp

text \<open>A pattern \<open>**/name/**\<close> matches every path below a directory of that name, at the top or
  deeper.\<close>

lemma below_directory:
  assumes "is_ascii name" and "pre = [] \<or> last pre = CHR ''/''" and "CHR 0x0A \<notin> set (pre @ rest)"
  shows "gmatch (GDirs # map GLit (map of_char name) @ [GLit SLASH, GAny]) (runes (pre @ name @ ''/'' @ rest))"
proof -
  have slash: "of_char (CHR ''/'') = SLASH" by (simp add: SLASH_def)
  have tail: "runes (name @ ''/'' @ rest) = map of_char name @ SLASH # runes rest"
    using runes_ascii_append [OF assms(1), of "''/'' @ rest"] runes_ascii_append [of "''/''" rest] slash
    by (simp add: is_ascii_def)
  have "runes rest \<in> toks_lang [GAny]" using runes_newline [of rest] assms(3) by simp
  then have "[SLASH] @ runes rest \<in> toks_lang [GLit SLASH, GAny]" by (intro toks_langI) auto
  then have dir: "runes (name @ ''/'' @ rest) \<in> toks_lang (map GLit (map of_char name) @ [GLit SLASH, GAny])"
    unfolding tail using toks_lang_literal [of _ _ "map of_char name"] by simp
  obtain u where u: "u \<in> tok_lang GDirs" "runes (pre @ name @ ''/'' @ rest) = u @ runes (name @ ''/'' @ rest)"
  proof (cases "pre = []")
    case True
    then show ?thesis using that [of "[]"] by simp
  next
    case False
    then obtain p where p: "pre = p @ [CHR ''/'']" using assms(2) by (metis append_butlast_last_id)
    have "runes (p @ CHR ''/'' # name @ ''/'' @ rest) = runes p @ SLASH # runes (name @ ''/'' @ rest)"
      using runes_append_ascii [of "CHR ''/''" p] slash by simp
    moreover have "NEWLINE \<notin> set (runes p)" using runes_newline [of p] assms(3) p by simp
    ultimately show ?thesis using that [of "runes p @ [SLASH]"] p by auto
  qed
  then show ?thesis unfolding gmatch_lang using toks_langI [OF u(1) dir] by simp
qed

end
