(* ===== verification/Review_Config.thy ===== *)
theory Review_Config
  imports Review_Run Go_Json Path_Glob
begin

text \<open>
  The review configuration of a workspace or repository, \<open>src/internal/domain/review_config.go\<close>:
  the decoders of the general, filter, prompt, issue triage, category and summary sections with
  their defaults and checks, and the filters on paths and on admissions.

  A decoder returns \<open>None\<close> for an error; which of several errors is reported depends on the order
  of a Go map. The comparison of author names and labels folds their case with \<open>strings.ToLower\<close>
  on arbitrary text; its Unicode tables are the parameter \<open>lower\<close> of \<open>AllowsAdmission\<close>. The model
  route and the scope of a configuration, which parse URLs, and the canonical bytes and digest of
  a document are not modelled.
\<close>

section \<open>General settings\<close>

definition ReviewTriggerMode_Valid :: "string \<Rightarrow> bool" where
  "ReviewTriggerMode_Valid m \<longleftrightarrow> m = ''off'' \<or> m = ''manual'' \<or> m = ''automatic''"

record ReviewGeneralConfig =
  gc_automatic :: bool
  gc_drafts :: bool
  gc_rereview :: bool
  gc_gate :: bool
  gc_trigger :: string
  gc_mode :: ReviewMode
  gc_language :: string
  gc_blocking :: string

definition DefaultReviewGeneralConfig :: ReviewGeneralConfig where
  "DefaultReviewGeneralConfig =
     \<lparr>gc_automatic = True, gc_drafts = False, gc_rereview = True, gc_gate = True, gc_trigger = ''automatic'',
      gc_mode = ''standard'', gc_language = ''en'', gc_blocking = ''high''\<rparr>"

definition validReviewLanguage :: "string \<Rightarrow> bool" where
  "validReviewLanguage v \<longleftrightarrow> v = ''en'' \<or> v = ''zh-CN'' \<or> v = ''ja'' \<or> v = ''es''"

definition validReviewBlockingSeverity :: "string \<Rightarrow> bool" where
  "validReviewBlockingSeverity v \<longleftrightarrow> v = ''low'' \<or> v = ''medium'' \<or> v = ''high'' \<or> v = ''critical''"

definition general_field :: "string \<Rightarrow> json \<Rightarrow> ReviewGeneralConfig \<Rightarrow> ReviewGeneralConfig option" where
  "general_field key v c =
     (if key = ''automatic_review'' then map_option (\<lambda>b. c\<lparr>gc_automatic := b\<rparr>) (unmarshal_bool v (gc_automatic c))
      else if key = ''review_drafts'' then map_option (\<lambda>b. c\<lparr>gc_drafts := b\<rparr>) (unmarshal_bool v (gc_drafts c))
      else if key = ''rereview_on_push'' then map_option (\<lambda>b. c\<lparr>gc_rereview := b\<rparr>) (unmarshal_bool v (gc_rereview c))
      else if key = ''merge_gate_enabled'' then map_option (\<lambda>b. c\<lparr>gc_gate := b\<rparr>) (unmarshal_bool v (gc_gate c))
      else if key = ''trigger_mode'' then map_option (\<lambda>s. c\<lparr>gc_trigger := s\<rparr>) (unmarshal_string v (gc_trigger c))
      else if key = ''default_review_mode'' then map_option (\<lambda>s. c\<lparr>gc_mode := s\<rparr>) (unmarshal_string v (gc_mode c))
      else if key = ''review_language'' then map_option (\<lambda>s. c\<lparr>gc_language := s\<rparr>) (unmarshal_string v (gc_language c))
      else if key = ''minimum_blocking_severity''
      then map_option (\<lambda>s. c\<lparr>gc_blocking := s\<rparr>) (unmarshal_string v (gc_blocking c))
      else None)"

text \<open>The trimming, the meaning of old revisions without a trigger mode, and the final check.\<close>

definition general_finish :: "bool \<Rightarrow> ReviewGeneralConfig \<Rightarrow> ReviewGeneralConfig option" where
  "general_finish explicit c =
     (let c = c\<lparr>gc_language := TrimSpace (gc_language c), gc_blocking := ToLower (TrimSpace (gc_blocking c))\<rparr>;
          c = (if \<not> explicit \<and> \<not> gc_automatic c then c\<lparr>gc_trigger := ''manual''\<rparr> else c)
      in if \<not> ReviewTriggerMode_Valid (gc_trigger c) \<or> \<not> ReviewMode_Selectable (gc_mode c)
            \<or> \<not> validReviewLanguage (gc_language c) \<or> \<not> validReviewBlockingSeverity (gc_blocking c)
         then None else Some c)"

definition DecodeReviewGeneralConfig :: "json \<Rightarrow> ReviewGeneralConfig option" where
  "DecodeReviewGeneralConfig content =
     (case obj_fields content of None \<Rightarrow> None
      | Some kvs \<Rightarrow>
        if kvs = [] then None
        else case decode_fields general_field kvs DefaultReviewGeneralConfig of None \<Rightarrow> None
        | Some c \<Rightarrow> general_finish (''trigger_mode'' \<in> fst ` set kvs) c)"

section \<open>Filters\<close>

record ReviewFiltersConfig =
  fc_include :: "string list"
  fc_exclude :: "string list"
  fc_authors :: "string list"
  fc_labels :: "string list"
  fc_branches :: "string list"
  fc_generated :: bool
  fc_vendor :: bool

definition DefaultReviewFiltersConfig :: ReviewFiltersConfig where
  "DefaultReviewFiltersConfig =
     \<lparr>fc_include = [], fc_exclude = [], fc_authors = [], fc_labels = [], fc_branches = [''main''],
      fc_generated = True, fc_vendor = True\<rparr>"

fun filter_strings :: "string set \<Rightarrow> string list \<Rightarrow> string list option" where
  "filter_strings seen [] = Some []"
| "filter_strings seen (v # vs) =
     (let v = TrimSpace v in
      if v = '''' \<or> length v > 256 \<or> ContainsAny v [CHR 0x00, CHR 0x0D, CHR 0x0A] then None
      else if v \<in> seen then None
      else map_option ((#) v) (filter_strings (insert v seen) vs))"

definition decodeReviewFilterStrings :: "json \<Rightarrow> string list option" where
  "decodeReviewFilterStrings encoded =
     (case unmarshal_strings encoded [] of None \<Rightarrow> None
      | Some values \<Rightarrow> if length values > 64 then None else filter_strings {} values)"

definition filters_field :: "string \<Rightarrow> json \<Rightarrow> ReviewFiltersConfig \<Rightarrow> ReviewFiltersConfig option" where
  "filters_field key v c =
     (if key = ''include_paths'' then map_option (\<lambda>x. c\<lparr>fc_include := x\<rparr>) (decodeReviewFilterStrings v)
      else if key = ''exclude_paths'' then map_option (\<lambda>x. c\<lparr>fc_exclude := x\<rparr>) (decodeReviewFilterStrings v)
      else if key = ''exclude_authors'' then map_option (\<lambda>x. c\<lparr>fc_authors := x\<rparr>) (decodeReviewFilterStrings v)
      else if key = ''required_labels'' then map_option (\<lambda>x. c\<lparr>fc_labels := x\<rparr>) (decodeReviewFilterStrings v)
      else if key = ''target_branches'' then map_option (\<lambda>x. c\<lparr>fc_branches := x\<rparr>) (decodeReviewFilterStrings v)
      else if key = ''skip_generated'' then map_option (\<lambda>b. c\<lparr>fc_generated := b\<rparr>) (unmarshal_bool v (fc_generated c))
      else if key = ''skip_vendor'' then map_option (\<lambda>b. c\<lparr>fc_vendor := b\<rparr>) (unmarshal_bool v (fc_vendor c))
      else None)"

definition DecodeReviewFiltersConfig :: "json \<Rightarrow> ReviewFiltersConfig option" where
  "DecodeReviewFiltersConfig content =
     (case obj_fields content of None \<Rightarrow> None
      | Some kvs \<Rightarrow>
        if kvs = [] then None else decode_fields filters_field kvs DefaultReviewFiltersConfig)"

definition AllowsPath :: "ReviewFiltersConfig \<Rightarrow> string \<Rightarrow> bool" where
  "AllowsPath c value =
     (let value = TrimPrefix (TrimSpace value) ''./'' in
      if value = '''' then False
      else if fc_include c \<noteq> [] \<and> \<not> reviewPathMatchesAny (fc_include c) value then False
      else let excludes = fc_exclude c @ (if fc_generated c then [''**/generated/**''] else [])
                 @ (if fc_vendor c then [''**/vendor/**'', ''**/node_modules/**''] else [])
           in \<not> reviewPathMatchesAny excludes value)"

definition AllowsAdmission :: "(string \<Rightarrow> string) \<Rightarrow> ReviewFiltersConfig \<Rightarrow> string \<Rightarrow> string list \<Rightarrow> string \<Rightarrow> bool" where
  "AllowsAdmission lower c author labels targetBranch =
     (let author = lower (TrimSpace author) in
      if author = '''' \<and> fc_authors c \<noteq> [] then False
      else if list_ex (\<lambda>x. author = lower (TrimSpace x)) (fc_authors c) then False
      else if fc_labels c \<noteq> [] \<and>
              (let available = filter (\<lambda>x. x \<noteq> '''') (map (\<lambda>x. lower (TrimSpace x)) labels) in
               list_ex (\<lambda>r. lower (TrimSpace r) \<notin> set available) (fc_labels c)) then False
      else reviewPathMatchesAny (fc_branches c) (TrimSpace targetBranch))"

section \<open>Prompts\<close>

record ReviewPromptConfig =
  pc_instruction :: string
  pc_context :: string
  pc_tokens :: int
  pc_repository :: bool

definition DefaultReviewPromptConfig :: ReviewPromptConfig where
  "DefaultReviewPromptConfig =
     \<lparr>pc_instruction = ''Focus on actionable defects supported by the changed code.'', pc_context = '''',
      pc_tokens = 12000, pc_repository = False\<rparr>"

definition prompts_field :: "string \<Rightarrow> json \<Rightarrow> ReviewPromptConfig \<Rightarrow> ReviewPromptConfig option" where
  "prompts_field key v c =
     (if key = ''system_instruction'' then map_option (\<lambda>s. c\<lparr>pc_instruction := s\<rparr>) (unmarshal_string v (pc_instruction c))
      else if key = ''repository_context'' then map_option (\<lambda>s. c\<lparr>pc_context := s\<rparr>) (unmarshal_string v (pc_context c))
      else if key = ''max_prompt_tokens'' then map_option (\<lambda>i. c\<lparr>pc_tokens := i\<rparr>) (unmarshal_int v (pc_tokens c))
      else if key = ''allow_repository_instructions''
      then map_option (\<lambda>b. c\<lparr>pc_repository := b\<rparr>) (unmarshal_bool v (pc_repository c))
      else None)"

definition prompts_ok :: "ReviewPromptConfig \<Rightarrow> bool" where
  "prompts_ok c \<longleftrightarrow> length (runes (pc_instruction c)) \<le> 8000 \<and> length (runes (pc_context c)) \<le> 8000
     \<and> 1000 \<le> pc_tokens c \<and> pc_tokens c \<le> 100000"

definition DecodeReviewPromptConfig :: "json \<Rightarrow> ReviewPromptConfig option" where
  "DecodeReviewPromptConfig content =
     (case obj_fields content of None \<Rightarrow> None
      | Some kvs \<Rightarrow>
        if kvs = [] then None
        else case decode_fields prompts_field kvs DefaultReviewPromptConfig of None \<Rightarrow> None
        | Some c \<Rightarrow> if prompts_ok c then Some c else None)"

section \<open>Issue triage\<close>

record IssueTriageConfig =
  tc_enabled :: bool
  tc_preset :: string
  tc_language :: string
  tc_required :: "string list"
  tc_response :: "string list"
  tc_collapse :: bool
  tc_link :: bool
  tc_reaction :: bool
  tc_items :: int
  tc_guidance :: string

definition issueTriagePresets :: "string list" where
  "issueTriagePresets = [''engineering'', ''bug'', ''feature'', ''concise'', ''security'', ''api_contract'',
     ''database'', ''migration'', ''accessibility'', ''reliability'', ''incident'', ''product'', ''performance'',
     ''compliance'', ''custom'']"

definition issueTriageRequiredSections :: "string list" where
  "issueTriageRequiredSections = [''outcome'', ''reproduction'', ''expected_behavior'', ''observed_behavior'',
     ''evidence'', ''acceptance_criteria'', ''risk'', ''security_impact'', ''impact'', ''timeline'', ''detection'',
     ''mitigation'', ''non_goals'']"

definition issueTriageResponseSections :: "string list" where
  "issueTriageResponseSections = [''assessment'', ''missing_context'', ''acceptance_criteria'', ''risk'',
     ''affected_areas'', ''next_steps'', ''provenance'']"

definition DefaultIssueTriageConfig :: IssueTriageConfig where
  "DefaultIssueTriageConfig =
     \<lparr>tc_enabled = True, tc_preset = ''engineering'', tc_language = ''inherit'',
      tc_required = [''outcome'', ''reproduction'', ''expected_behavior'', ''evidence'', ''acceptance_criteria''],
      tc_response = [''assessment'', ''missing_context'', ''acceptance_criteria'', ''risk'', ''affected_areas'',
        ''next_steps'', ''provenance''],
      tc_collapse = True, tc_link = True, tc_reaction = True, tc_items = 6, tc_guidance = ''''\<rparr>"

definition validIssueTriageLanguage :: "string \<Rightarrow> bool" where
  "validIssueTriageLanguage v \<longleftrightarrow> v = ''inherit'' \<or> v = ''en'' \<or> v = ''zh-CN'' \<or> v = ''ja'' \<or> v = ''es''"

fun unique_choices :: "string set \<Rightarrow> string list \<Rightarrow> string list \<Rightarrow> bool" where
  "unique_choices seen allowed [] = True"
| "unique_choices seen allowed (v # vs) =
     (v \<in> set allowed \<and> v \<notin> seen \<and> unique_choices (insert v seen) allowed vs)"

definition validUniqueChoiceList :: "string list \<Rightarrow> string list \<Rightarrow> nat \<Rightarrow> bool \<Rightarrow> bool" where
  "validUniqueChoiceList values allowed maximum emptyAllowed \<longleftrightarrow>
     \<not> (length values > maximum \<or> \<not> emptyAllowed \<and> values = []) \<and> unique_choices {} allowed values"

definition triage_field :: "string \<Rightarrow> json \<Rightarrow> IssueTriageConfig \<Rightarrow> IssueTriageConfig option" where
  "triage_field key v c =
     (if key = ''enabled'' then map_option (\<lambda>b. c\<lparr>tc_enabled := b\<rparr>) (unmarshal_bool v (tc_enabled c))
      else if key = ''preset'' then map_option (\<lambda>s. c\<lparr>tc_preset := s\<rparr>) (unmarshal_string v (tc_preset c))
      else if key = ''language'' then map_option (\<lambda>s. c\<lparr>tc_language := s\<rparr>) (unmarshal_string v (tc_language c))
      else if key = ''required_issue_sections''
      then map_option (\<lambda>x. c\<lparr>tc_required := x\<rparr>) (unmarshal_strings v (tc_required c))
      else if key = ''response_sections'' then map_option (\<lambda>x. c\<lparr>tc_response := x\<rparr>) (unmarshal_strings v (tc_response c))
      else if key = ''collapse_secondary'' then map_option (\<lambda>b. c\<lparr>tc_collapse := b\<rparr>) (unmarshal_bool v (tc_collapse c))
      else if key = ''link_file_references'' then map_option (\<lambda>b. c\<lparr>tc_link := b\<rparr>) (unmarshal_bool v (tc_link c))
      else if key = ''reaction_feedback'' then map_option (\<lambda>b. c\<lparr>tc_reaction := b\<rparr>) (unmarshal_bool v (tc_reaction c))
      else if key = ''max_items_per_section'' then map_option (\<lambda>i. c\<lparr>tc_items := i\<rparr>) (unmarshal_int v (tc_items c))
      else if key = ''custom_guidance'' then map_option (\<lambda>s. c\<lparr>tc_guidance := s\<rparr>) (unmarshal_string v (tc_guidance c))
      else None)"

definition triage_ok :: "IssueTriageConfig \<Rightarrow> bool" where
  "triage_ok c \<longleftrightarrow> tc_preset c \<in> set issueTriagePresets \<and> validIssueTriageLanguage (tc_language c)
     \<and> validUniqueChoiceList (tc_required c) issueTriageRequiredSections 13 True
     \<and> validUniqueChoiceList (tc_response c) issueTriageResponseSections 7 False
     \<and> 1 \<le> tc_items c \<and> tc_items c \<le> 10 \<and> length (runes (tc_guidance c)) \<le> 4000
     \<and> \<not> Contains (tc_guidance c) ''<!--'' \<and> \<not> Contains (tc_guidance c) ''-->''"

definition DecodeIssueTriageConfig :: "json \<Rightarrow> IssueTriageConfig option" where
  "DecodeIssueTriageConfig content =
     (case obj_fields content of None \<Rightarrow> None
      | Some kvs \<Rightarrow>
        if kvs = [] then None
        else case decode_fields triage_field kvs DefaultIssueTriageConfig of None \<Rightarrow> None
        | Some c \<Rightarrow>
          let c = c\<lparr>tc_preset := ToLower (TrimSpace (tc_preset c)), tc_language := TrimSpace (tc_language c)\<rparr>
          in if triage_ok c then Some c else None)"

section \<open>Categories\<close>

record ReviewCategoryPolicy =
  cp_enabled :: bool
  cp_minimum :: string

type_synonym ReviewCategoriesConfig = "(string \<times> ReviewCategoryPolicy) list"

definition reviewFindingSeverityRank :: "string \<Rightarrow> nat" where
  "reviewFindingSeverityRank value =
     (let v = ToLower (TrimSpace value) in
      if v = ''critical'' then 4 else if v = ''high'' then 3 else if v = ''medium'' then 2
      else if v = ''low'' then 1 else 0)"

definition validReviewFindingSeverity :: "string \<Rightarrow> bool" where
  "validReviewFindingSeverity value \<longleftrightarrow> reviewFindingSeverityRank value > 0"

definition category_char :: "char \<Rightarrow> bool" where
  "category_char c \<longleftrightarrow> CHR ''a'' \<le> c \<and> c \<le> CHR ''z'' \<or> CHR ''0'' \<le> c \<and> c \<le> CHR ''9'' \<or> c = CHR ''-'' \<or> c = CHR ''_''"

definition validReviewCategoryName :: "string \<Rightarrow> bool" where
  "validReviewCategoryName value \<longleftrightarrow> value \<noteq> '''' \<and> length value \<le> 48 \<and> list_all category_char value"

definition decode_policy :: "json \<Rightarrow> ReviewCategoryPolicy option" where
  "decode_policy encoded =
     (case obj_fields encoded of None \<Rightarrow> None
      | Some kvs \<Rightarrow>
        if length kvs \<noteq> 2 then None
        else case (map_of kvs ''enabled'', map_of kvs ''minimum_severity'') of
          (Some enabled, Some minimum) \<Rightarrow>
            (case (unmarshal_bool enabled False, unmarshal_string minimum '''') of
               (Some b, Some s) \<Rightarrow>
                 let s = ToLower (TrimSpace s) in
                 if validReviewFindingSeverity s then Some \<lparr>cp_enabled = b, cp_minimum = s\<rparr> else None
             | _ \<Rightarrow> None)
        | _ \<Rightarrow> None)"

definition category_field :: "string \<Rightarrow> json \<Rightarrow> ReviewCategoriesConfig \<Rightarrow> ReviewCategoriesConfig option" where
  "category_field name encoded config =
     (let name = ToLower (TrimSpace name) in
      if \<not> validReviewCategoryName name \<or> name \<in> fst ` set config then None
      else map_option (\<lambda>p. config @ [(name, p)]) (decode_policy encoded))"

definition DecodeReviewCategoriesConfig :: "json \<Rightarrow> ReviewCategoriesConfig option" where
  "DecodeReviewCategoriesConfig content =
     (case obj_fields content of None \<Rightarrow> None
      | Some raw \<Rightarrow>
        if raw = [] \<or> length raw > 32 then None else decode_fields category_field raw [])"

section \<open>Summary\<close>

record ReviewSummaryConfig =
  sm_sections :: "string list"
  sm_characters :: int
  sm_contract :: bool
  sm_evidence :: bool

definition reviewSummarySectionKeys :: "string list" where
  "reviewSummarySectionKeys = [''outcome'', ''scope'', ''risk'', ''acceptance'', ''invariants'', ''verification'',
     ''rollout'', ''rollback'', ''provenance'']"

definition ReviewSummaryConfig_Valid :: "ReviewSummaryConfig \<Rightarrow> bool" where
  "ReviewSummaryConfig_Valid c \<longleftrightarrow>
     \<not> (sm_characters c < 500 \<or> sm_characters c > 20000 \<or> sm_sections c = []
        \<or> length (sm_sections c) > length reviewSummarySectionKeys)
     \<and> unique_choices {} reviewSummarySectionKeys (sm_sections c)"

text \<open>\<open>json.Unmarshal\<close> into a structure: members are matched by name, then without regard to case
  (\<open>K\<close> and \<open>S\<close> have the Kelvin sign and the long s as further forms), in the order they are
  written; members without a field are ignored.\<close>

fun json_fold :: "string \<Rightarrow> string" where
  "json_fold [] = []"
| "json_fold (c # s) =
     (if c = CHR 0xE2 \<and> take 2 s = [CHR 0x84, CHR 0xAA] then CHR ''k'' # json_fold (drop 2 s)
      else if c = CHR 0xC5 \<and> take 1 s = [CHR 0xBF] then CHR ''s'' # json_fold (drop 1 s)
      else lower_char c # json_fold s)"

definition summary_field :: "string \<Rightarrow> json \<Rightarrow> ReviewSummaryConfig \<Rightarrow> ReviewSummaryConfig option" where
  "summary_field key v c =
     (let key = json_fold key in
      if key = ''sections'' then map_option (\<lambda>x. c\<lparr>sm_sections := x\<rparr>) (unmarshal_strings v (sm_sections c))
      else if key = ''max_characters'' then map_option (\<lambda>i. c\<lparr>sm_characters := i\<rparr>) (unmarshal_int v (sm_characters c))
      else if key = ''include_change_contract'' then map_option (\<lambda>b. c\<lparr>sm_contract := b\<rparr>) (unmarshal_bool v (sm_contract c))
      else if key = ''include_verification_evidence''
      then map_option (\<lambda>b. c\<lparr>sm_evidence := b\<rparr>) (unmarshal_bool v (sm_evidence c))
      else Some c)"

definition DecodeReviewSummaryConfig :: "json \<Rightarrow> ReviewSummaryConfig option" where
  "DecodeReviewSummaryConfig content =
     (let zero = \<lparr>sm_sections = [], sm_characters = 0, sm_contract = False, sm_evidence = False\<rparr> in
      case (case content of JObj kvs \<Rightarrow> decode_fields summary_field kvs zero | JNull \<Rightarrow> Some zero | _ \<Rightarrow> None) of
        None \<Rightarrow> None
      | Some c \<Rightarrow> if ReviewSummaryConfig_Valid c then Some c else None)"

definition Includes :: "ReviewSummaryConfig \<Rightarrow> string \<Rightarrow> bool" where
  "Includes c section = list_ex (\<lambda>configured. configured = section) (sm_sections c)"

section \<open>Documents of decoded configurations\<close>

text \<open>What \<open>json.Marshal\<close> writes for the structures, with the names of their tags.\<close>

definition general_json :: "ReviewGeneralConfig \<Rightarrow> json" where
  "general_json c = JObj [(''automatic_review'', JBool (gc_automatic c)), (''review_drafts'', JBool (gc_drafts c)),
     (''rereview_on_push'', JBool (gc_rereview c)), (''merge_gate_enabled'', JBool (gc_gate c)),
     (''trigger_mode'', JStr (gc_trigger c)), (''default_review_mode'', JStr (gc_mode c)),
     (''review_language'', JStr (gc_language c)), (''minimum_blocking_severity'', JStr (gc_blocking c))]"

definition filters_json :: "ReviewFiltersConfig \<Rightarrow> json" where
  "filters_json c = JObj [(''include_paths'', JArr (map JStr (fc_include c))),
     (''exclude_paths'', JArr (map JStr (fc_exclude c))), (''exclude_authors'', JArr (map JStr (fc_authors c))),
     (''required_labels'', JArr (map JStr (fc_labels c))), (''target_branches'', JArr (map JStr (fc_branches c))),
     (''skip_generated'', JBool (fc_generated c)), (''skip_vendor'', JBool (fc_vendor c))]"

definition prompts_json :: "ReviewPromptConfig \<Rightarrow> json" where
  "prompts_json c = JObj [(''system_instruction'', JStr (pc_instruction c)), (''repository_context'', JStr (pc_context c)),
     (''max_prompt_tokens'', JInt (pc_tokens c)), (''allow_repository_instructions'', JBool (pc_repository c))]"

definition triage_json :: "IssueTriageConfig \<Rightarrow> json" where
  "triage_json c = JObj [(''enabled'', JBool (tc_enabled c)), (''preset'', JStr (tc_preset c)),
     (''language'', JStr (tc_language c)), (''required_issue_sections'', JArr (map JStr (tc_required c))),
     (''response_sections'', JArr (map JStr (tc_response c))), (''collapse_secondary'', JBool (tc_collapse c)),
     (''link_file_references'', JBool (tc_link c)), (''reaction_feedback'', JBool (tc_reaction c)),
     (''max_items_per_section'', JInt (tc_items c)), (''custom_guidance'', JStr (tc_guidance c))]"

definition categories_json :: "ReviewCategoriesConfig \<Rightarrow> json" where
  "categories_json c = JObj (map (\<lambda>(name, p). (name,
     JObj [(''enabled'', JBool (cp_enabled p)), (''minimum_severity'', JStr (cp_minimum p))])) c)"

definition summary_json :: "ReviewSummaryConfig \<Rightarrow> json" where
  "summary_json c = JObj [(''sections'', JArr (map JStr (sm_sections c))), (''max_characters'', JInt (sm_characters c)),
     (''include_change_contract'', JBool (sm_contract c)), (''include_verification_evidence'', JBool (sm_evidence c))]"

lemma general_again:
  assumes "DecodeReviewGeneralConfig j = Some c"
  shows "DecodeReviewGeneralConfig (general_json c) = Some c"
proof -
  obtain c0 e where fin: "general_finish e c0 = Some c"
    using assms by (auto simp: DecodeReviewGeneralConfig_def split: option.splits if_splits)
  then have ok: "ReviewTriggerMode_Valid (gc_trigger c)" "ReviewMode_Selectable (gc_mode c)"
    "validReviewLanguage (gc_language c)" "validReviewBlockingSeverity (gc_blocking c)"
    by (auto simp: general_finish_def Let_def split: if_splits)
  have trim: "TrimSpace (gc_language c) = gc_language c" "ToLower (TrimSpace (gc_blocking c)) = gc_blocking c"
  proof -
    have "TrimSpace ''en'' = ''en''" "TrimSpace ''zh-CN'' = ''zh-CN''" "TrimSpace ''ja'' = ''ja''" "TrimSpace ''es'' = ''es''"
      by code_simp+
    then show "TrimSpace (gc_language c) = gc_language c" using ok(3) by (auto simp: validReviewLanguage_def)
    have "ToLower (TrimSpace ''low'') = ''low''" "ToLower (TrimSpace ''medium'') = ''medium''"
      "ToLower (TrimSpace ''high'') = ''high''" "ToLower (TrimSpace ''critical'') = ''critical''" by code_simp+
    then show "ToLower (TrimSpace (gc_blocking c)) = gc_blocking c" using ok(4) by (auto simp: validReviewBlockingSeverity_def)
  qed
  show ?thesis
    by (simp add: DecodeReviewGeneralConfig_def general_json_def json_simps general_field_def general_finish_def
        trim ok DefaultReviewGeneralConfig_def)
qed

definition clean_strings :: "string list \<Rightarrow> bool" where
  "clean_strings vs \<longleftrightarrow> length vs \<le> 64 \<and> filter_strings {} vs = Some vs"

lemma filter_strings_again: "filter_strings seen vs = Some ws \<Longrightarrow> filter_strings seen ws = Some ws \<and> length ws = length vs"
proof (induction seen vs arbitrary: ws rule: filter_strings.induct)
  case (2 seen v vs)
  then show ?case by (auto simp: Let_def split: if_splits)
qed simp

lemma decodeReviewFilterStrings_clean: "decodeReviewFilterStrings v = Some ws \<Longrightarrow> clean_strings ws"
  by (auto simp: decodeReviewFilterStrings_def clean_strings_def dest: filter_strings_again split: option.splits if_splits)

lemma decode_clean [json_simps]: "clean_strings vs \<Longrightarrow> decodeReviewFilterStrings (JArr (map JStr vs)) = Some vs"
  by (simp add: decodeReviewFilterStrings_def clean_strings_def json_simps)

definition filters_ok :: "ReviewFiltersConfig \<Rightarrow> bool" where
  "filters_ok c \<longleftrightarrow> clean_strings (fc_include c) \<and> clean_strings (fc_exclude c) \<and> clean_strings (fc_authors c)
     \<and> clean_strings (fc_labels c) \<and> clean_strings (fc_branches c)"

lemma filters_decoded_ok:
  assumes "DecodeReviewFiltersConfig j = Some c"
  shows "filters_ok c"
proof -
  obtain kvs where d: "decode_fields filters_field kvs DefaultReviewFiltersConfig = Some c"
    using assms by (auto simp: DecodeReviewFiltersConfig_def split: option.splits if_splits)
  have "clean_strings [''main'']" by code_simp
  then have default: "filters_ok DefaultReviewFiltersConfig"
    by (simp add: filters_ok_def DefaultReviewFiltersConfig_def clean_strings_def)
  show ?thesis
  proof (rule decode_fields_inv [of _ _ _ _ filters_ok, OF d default])
    fix k v c c'
    assume "filters_field k v c = Some c'" "filters_ok c"
    then show "filters_ok c'"
      by (auto simp: filters_field_def filters_ok_def dest: decodeReviewFilterStrings_clean split: if_splits)
  qed
qed

lemma filters_again:
  assumes "DecodeReviewFiltersConfig j = Some c"
  shows "DecodeReviewFiltersConfig (filters_json c) = Some c"
  using filters_decoded_ok [OF assms]
  by (simp add: DecodeReviewFiltersConfig_def filters_json_def filters_ok_def json_simps filters_field_def
      DefaultReviewFiltersConfig_def)

lemma prompts_again:
  assumes "DecodeReviewPromptConfig j = Some c"
  shows "DecodeReviewPromptConfig (prompts_json c) = Some c"
proof -
  have ok: "prompts_ok c" using assms by (auto simp: DecodeReviewPromptConfig_def split: option.splits if_splits)
  then have "int64 (pc_tokens c)" by (simp add: prompts_ok_def int64_def)
  then show ?thesis
    using ok
    by (cases c) (simp add: DecodeReviewPromptConfig_def prompts_json_def json_simps prompts_field_def
        DefaultReviewPromptConfig_def)
qed

lemma triage_again:
  assumes "DecodeIssueTriageConfig j = Some c"
  shows "DecodeIssueTriageConfig (triage_json c) = Some c"
proof -
  have ok: "triage_ok c" using assms by (auto simp: DecodeIssueTriageConfig_def Let_def split: option.splits if_splits)
  have "list_all (\<lambda>s. ToLower (TrimSpace s) = s) issueTriagePresets" by code_simp
  then have preset: "ToLower (TrimSpace (tc_preset c)) = tc_preset c" using ok by (simp add: triage_ok_def list_all_iff)
  have "list_all (\<lambda>s. TrimSpace s = s) [''inherit'', ''en'', ''zh-CN'', ''ja'', ''es'']" by code_simp
  then have language: "TrimSpace (tc_language c) = tc_language c"
    using ok by (auto simp: triage_ok_def validIssueTriageLanguage_def)
  have "int64 (tc_items c)" using ok by (simp add: triage_ok_def int64_def)
  then show ?thesis
    using ok preset language
    by (cases c) (simp add: DecodeIssueTriageConfig_def triage_json_def json_simps triage_field_def DefaultIssueTriageConfig_def)
qed

lemma summary_again:
  assumes "DecodeReviewSummaryConfig j = Some c"
  shows "DecodeReviewSummaryConfig (summary_json c) = Some c"
proof -
  have ok: "ReviewSummaryConfig_Valid c"
    using assms by (auto simp: DecodeReviewSummaryConfig_def Let_def split: option.splits if_splits json.splits)
  then have i: "int64 (sm_characters c)" by (simp add: ReviewSummaryConfig_Valid_def int64_def)
  have fold: "json_fold ''sections'' = ''sections''" "json_fold ''max_characters'' = ''max_characters''"
    "json_fold ''include_change_contract'' = ''include_change_contract''"
    "json_fold ''include_verification_evidence'' = ''include_verification_evidence''" by code_simp+
  show ?thesis
    using ok i
    by (cases c) (simp add: DecodeReviewSummaryConfig_def summary_json_def json_simps summary_field_def Let_def fold
        del: json_fold.simps)
qed

lemma category_char_plain:
  assumes "category_char c"
  shows "\<not> ascii_space c" "c \<notin> {CHR 0xC2, CHR 0xE1, CHR 0xE2, CHR 0xE3, CHR 0xC4}" "lower_char c = c"
proof -
  have "of_char c \<le> (0x7A :: nat)" "of_char c \<ge> (0x2D :: nat)" "\<not> (of_char c \<ge> (65 :: nat) \<and> of_char c \<le> (90 :: nat))"
    using assms by (auto simp: category_char_def less_eq_char_def)
  then show "\<not> ascii_space c" "c \<notin> {CHR 0xC2, CHR 0xE1, CHR 0xE2, CHR 0xE3, CHR 0xC4}" "lower_char c = c"
    by (auto simp: ascii_space_def lower_char_def less_eq_char_def)
qed

lemma category_name_plain:
  assumes "list_all category_char s"
  shows "TrimSpace s = s" "ToLower s = s"
proof -
  have lead: "lead_space s = 0" if "list_all category_char s" for s
    using that category_char_plain by (cases s rule: lead_space.cases) (auto simp: space2_def space3_def)
  have trail: "trail_space s = 0" if "list_all category_char s" for s
    using that category_char_plain by (cases s rule: trail_space.cases) (auto simp: space2_def space3_def)
  show "TrimSpace s = s"
    unfolding TrimSpace_def using lead [OF assms] trail [of "rev s"] assms
    by (simp add: strip_id list_all_iff)
  show "ToLower s = s" using assms category_char_plain by (induction s) auto
qed

definition categories_ok :: "ReviewCategoriesConfig \<Rightarrow> bool" where
  "categories_ok c \<longleftrightarrow> c \<noteq> [] \<and> length c \<le> 32 \<and> distinct (map fst c) \<and> list_all (\<lambda>(name, p). validReviewCategoryName name
     \<and> cp_minimum p \<in> {''critical'', ''high'', ''medium'', ''low''}) c"

lemma severity_fixed:
  assumes "s \<in> {''critical'', ''high'', ''medium'', ''low''}"
  shows "ToLower (TrimSpace s) = s" "validReviewFindingSeverity s"
proof -
  have "list_all (\<lambda>s. ToLower (TrimSpace s) = s \<and> validReviewFindingSeverity s) [''critical'', ''high'', ''medium'', ''low'']"
    by code_simp
  then show "ToLower (TrimSpace s) = s" "validReviewFindingSeverity s" using assms by auto
qed

lemma decode_policy_json:
  assumes "cp_minimum p \<in> {''critical'', ''high'', ''medium'', ''low''}"
  shows "decode_policy (JObj [(''enabled'', JBool (cp_enabled p)), (''minimum_severity'', JStr (cp_minimum p))]) = Some p"
  using severity_fixed [OF assms] by (cases p) (simp add: decode_policy_def json_simps Let_def)

lemma decode_categories:
  assumes "distinct (map fst (acc @ c))" "list_all (\<lambda>(name, p). validReviewCategoryName name
     \<and> cp_minimum p \<in> {''critical'', ''high'', ''medium'', ''low''}) c"
  shows "decode_fields category_field (map (\<lambda>(name, p). (name,
     JObj [(''enabled'', JBool (cp_enabled p)), (''minimum_severity'', JStr (cp_minimum p))])) c) acc = Some (acc @ c)"
  using assms
proof (induction c arbitrary: acc)
  case (Cons np c)
  obtain name p where np: "np = (name, p)" by fastforce
  have name: "validReviewCategoryName name" "ToLower (TrimSpace name) = name"
    using Cons.prems(2) category_name_plain [of name] by (auto simp: np validReviewCategoryName_def)
  have "decode_policy (JObj [(''enabled'', JBool (cp_enabled p)), (''minimum_severity'', JStr (cp_minimum p))]) = Some p"
    using Cons.prems(2) by (intro decode_policy_json) (simp add: np)
  then have "category_field name (JObj [(''enabled'', JBool (cp_enabled p)), (''minimum_severity'', JStr (cp_minimum p))]) acc
      = Some (acc @ [(name, p)])"
    using name Cons.prems(1) by (auto simp: category_field_def np)
  then show ?case using Cons.IH [of "acc @ [(name, p)]"] Cons.prems by (simp add: np)
qed simp

lemma policy_keys: "map fst (map (\<lambda>(name, p). (name, g p)) c) = map fst c"
  by (induction c) auto

lemma categories_again:
  assumes "categories_ok c"
  shows "DecodeReviewCategoriesConfig (categories_json c) = Some c"
proof -
  let ?f = "\<lambda>(name, p). (name, JObj [(''enabled'', JBool (cp_enabled p)), (''minimum_severity'', JStr (cp_minimum p))])"
  have ok: "distinct (map fst c)" "c \<noteq> []" "length c \<le> 32"
    using assms by (auto simp: categories_ok_def)
  have "distinct (map fst (map ?f c))" unfolding policy_keys by (rule ok(1))
  then have fs: "obj_fields (categories_json c) = Some (map ?f c)"
    unfolding categories_json_def by (rule obj_fields_distinct)
  have dec: "decode_fields category_field (map ?f c) [] = Some c"
    using assms decode_categories [of "[]" c] by (simp add: categories_ok_def)
  show ?thesis
    unfolding DecodeReviewCategoriesConfig_def fs using ok dec by simp
qed

definition demo_general :: json where
  "demo_general = JObj [(''automatic_review'', JBool False), (''minimum_blocking_severity'', JStr '' High '')]"

lemma demo_general_decoded:
  "DecodeReviewGeneralConfig demo_general =
     Some (DefaultReviewGeneralConfig\<lparr>gc_automatic := False, gc_trigger := ''manual''\<rparr>)"
  by code_simp

end
