(* ===== verification/Config_Documents.thy ===== *)
theory Config_Documents
  imports Review_Config
begin

text \<open>
  The remaining sections of \<open>src/internal/domain/review_config.go\<close>: the lifecycle messages, the
  model route, and the default document of every section, with the properties of the decoded
  configurations. \<open>url.Parse\<close> is the parameter \<open>parse\<close>; the model uses of its result what the
  code reads of it.
\<close>

section \<open>Lifecycle messages\<close>

definition reviewMessageKeys :: "string list" where
  "reviewMessageKeys = [''started'', ''progress'', ''success'', ''recommendation'', ''blocked'', ''failed'',
     ''needs_attention'', ''superseded'', ''completed'']"

text \<open>\<open>strings.NewReplacer\<close> with empty replacements: from left to right, the first key that the
  rest begins with is left out. No key is empty.\<close>

fun without_keys :: "string list \<Rightarrow> string \<Rightarrow> string" where
  "without_keys ks [] = []"
| "without_keys ks (c # cs) =
     (case find (HasPrefix (c # cs)) ks of
        None \<Rightarrow> c # without_keys ks cs
      | Some k \<Rightarrow> without_keys ks (drop (length k - 1) cs))"

definition valid_message :: "string \<Rightarrow> bool" where
  "valid_message value \<longleftrightarrow>
     \<not> (length (runes value) > 2000 \<or> Contains value ''<!--'' \<or> Contains value ''-->''
        \<or> Contains value ''open-review-platform:'') \<and>
     (let rest = without_keys [''{{repository}}'', ''{{review_number}}'', ''{{head_sha}}'', ''{{run_url}}''] value
      in \<not> (Contains rest ''{{'' \<or> Contains rest ''}}''))"

definition validReviewMessages :: "(string \<times> json) list \<Rightarrow> bool" where
  "validReviewMessages messages =
     list_all (\<lambda>(key, raw). key \<in> set reviewMessageKeys \<and>
       (case raw of JStr value \<Rightarrow> valid_message value | _ \<Rightarrow> False)) messages"

section \<open>The model route\<close>

record URL =
  u_scheme :: string
  u_host :: string
  u_user :: bool
  u_query :: string
  u_fragment :: string

record ModelRouteConfig =
  mr_enabled :: bool
  mr_provider :: string
  mr_protocol :: string
  mr_base :: string
  mr_model :: string
  mr_credential :: string
  mr_effort :: string
  mr_prompt_tokens :: int
  mr_budget :: int
  mr_timeout :: int
  mr_runs :: int

definition validModelLimits :: "ModelRouteConfig \<Rightarrow> bool" where
  "validModelLimits r \<longleftrightarrow>
     (mr_effort r = ''low'' \<or> mr_effort r = ''medium'' \<or> mr_effort r = ''high'') \<and>
     mr_prompt_tokens r \<ge> 1000 \<and> mr_prompt_tokens r \<le> 1000000 \<and>
     mr_budget r \<ge> mr_prompt_tokens r \<and> mr_budget r \<le> 10000000 \<and>
     mr_timeout r \<ge> 1 \<and> mr_timeout r \<le> 120 \<and>
     mr_runs r \<ge> 1 \<and> mr_runs r \<le> 64"

definition ModelRouteConfig_Valid :: "(string \<Rightarrow> URL option) \<Rightarrow> ModelRouteConfig \<Rightarrow> bool" where
  "ModelRouteConfig_Valid parse r =
     (if \<not> mr_enabled r
      then mr_provider r = ''deployment'' \<and> mr_protocol r = ''deployment'' \<and> mr_base r = '''' \<and> mr_model r = ''''
           \<and> mr_credential r = '''' \<and> validModelLimits r
      else if mr_provider r \<noteq> ''openai-compatible'' \<and> mr_provider r \<noteq> ''anthropic'' then False
      else if mr_protocol r \<noteq> ''openai-chat'' \<and> mr_protocol r \<noteq> ''anthropic-messages'' then False
      else if (mr_provider r = ''anthropic'') \<noteq> (mr_protocol r = ''anthropic-messages'') then False
      else case parse (TrimSpace (mr_base r)) of
        None \<Rightarrow> False
      | Some u \<Rightarrow>
        if u_scheme u \<noteq> ''https'' \<or> u_host u = '''' \<or> u_user u \<or> u_query u \<noteq> '''' \<or> u_fragment u \<noteq> '''' then False
        else let cred = TrimSpace (mr_credential r) in
        if \<not> HasPrefix cred ''secret://'' \<and> \<not> HasPrefix cred ''env://OPEN_REVIEW_MODEL_SECRET_'' then False
        else TrimSpace (mr_model r) \<noteq> '''' \<and> length (mr_model r) \<le> 160 \<and> validModelLimits r)"

definition route_field :: "string \<Rightarrow> json \<Rightarrow> ModelRouteConfig \<Rightarrow> ModelRouteConfig option" where
  "route_field key v r =
     (let key = json_fold key in
      if key = ''enabled'' then map_option (\<lambda>b. r\<lparr>mr_enabled := b\<rparr>) (unmarshal_bool v (mr_enabled r))
      else if key = ''provider'' then map_option (\<lambda>s. r\<lparr>mr_provider := s\<rparr>) (unmarshal_string v (mr_provider r))
      else if key = ''protocol'' then map_option (\<lambda>s. r\<lparr>mr_protocol := s\<rparr>) (unmarshal_string v (mr_protocol r))
      else if key = ''base_url'' then map_option (\<lambda>s. r\<lparr>mr_base := s\<rparr>) (unmarshal_string v (mr_base r))
      else if key = ''model'' then map_option (\<lambda>s. r\<lparr>mr_model := s\<rparr>) (unmarshal_string v (mr_model r))
      else if key = ''credential_ref'' then map_option (\<lambda>s. r\<lparr>mr_credential := s\<rparr>) (unmarshal_string v (mr_credential r))
      else if key = ''effort'' then map_option (\<lambda>s. r\<lparr>mr_effort := s\<rparr>) (unmarshal_string v (mr_effort r))
      else if key = ''max_prompt_tokens'' then map_option (\<lambda>i. r\<lparr>mr_prompt_tokens := i\<rparr>) (unmarshal_int v (mr_prompt_tokens r))
      else if key = ''token_budget'' then map_option (\<lambda>i. r\<lparr>mr_budget := i\<rparr>) (unmarshal_int v (mr_budget r))
      else if key = ''subtask_timeout_minutes'' then map_option (\<lambda>i. r\<lparr>mr_timeout := i\<rparr>) (unmarshal_int v (mr_timeout r))
      else if key = ''max_concurrent_runs'' then map_option (\<lambda>i. r\<lparr>mr_runs := i\<rparr>) (unmarshal_int v (mr_runs r))
      else Some r)"

definition zero_route :: ModelRouteConfig where
  "zero_route = \<lparr>mr_enabled = False, mr_provider = '''', mr_protocol = '''', mr_base = '''', mr_model = '''',
     mr_credential = '''', mr_effort = '''', mr_prompt_tokens = 0, mr_budget = 0, mr_timeout = 0, mr_runs = 0\<rparr>"

definition DecodeModelRoute :: "(string \<Rightarrow> URL option) \<Rightarrow> json \<Rightarrow> ModelRouteConfig option" where
  "DecodeModelRoute parse content =
     (case (case content of JObj kvs \<Rightarrow> decode_fields route_field kvs zero_route | JNull \<Rightarrow> Some zero_route | _ \<Rightarrow> None) of
        None \<Rightarrow> None
      | Some r \<Rightarrow>
        let r = (if mr_runs r = 0 then r\<lparr>mr_runs := 2\<rparr> else r)
        in if ModelRouteConfig_Valid parse r then Some r else None)"

definition route_json :: "ModelRouteConfig \<Rightarrow> json" where
  "route_json r = JObj [(''enabled'', JBool (mr_enabled r)), (''provider'', JStr (mr_provider r)),
     (''protocol'', JStr (mr_protocol r)), (''base_url'', JStr (mr_base r)), (''model'', JStr (mr_model r)),
     (''credential_ref'', JStr (mr_credential r)), (''effort'', JStr (mr_effort r)),
     (''max_prompt_tokens'', JInt (mr_prompt_tokens r)), (''token_budget'', JInt (mr_budget r)),
     (''subtask_timeout_minutes'', JInt (mr_timeout r)), (''max_concurrent_runs'', JInt (mr_runs r))]"

section \<open>Default documents\<close>

definition policy_json :: "string \<Rightarrow> json" where
  "policy_json minimum = JObj [(''enabled'', JBool True), (''minimum_severity'', JStr minimum)]"

definition DefaultReviewConfig :: "string \<Rightarrow> json option" where
  "DefaultReviewConfig section =
     map_of
      [(''general'', JObj [(''automatic_review'', JBool True), (''review_drafts'', JBool False),
          (''rereview_on_push'', JBool True), (''merge_gate_enabled'', JBool True), (''trigger_mode'', JStr ''automatic''),
          (''default_review_mode'', JStr ''standard''), (''review_language'', JStr ''en''),
          (''minimum_blocking_severity'', JStr ''high'')]),
       (''categories'', JObj [(''bug'', policy_json ''medium''), (''security'', policy_json ''medium''),
          (''performance'', policy_json ''high''), (''maintainability'', policy_json ''medium'')]),
       (''filters'', JObj [(''include_paths'', JArr []), (''exclude_paths'', JArr []), (''exclude_authors'', JArr []),
          (''required_labels'', JArr []), (''target_branches'', JArr [JStr ''main'']), (''skip_generated'', JBool True),
          (''skip_vendor'', JBool True)]),
       (''prompts'', JObj [(''system_instruction'', JStr ''Focus on actionable defects supported by the changed code.''),
          (''repository_context'', JStr ''''), (''max_prompt_tokens'', JInt 12000),
          (''allow_repository_instructions'', JBool False)]),
       (''summary'', JObj [(''sections'', JArr (map JStr [''outcome'', ''scope'', ''risk'', ''acceptance'', ''invariants'',
            ''verification'', ''rollout'', ''rollback'', ''provenance''])),
          (''max_characters'', JInt 4000), (''include_change_contract'', JBool True),
          (''include_verification_evidence'', JBool True)]),
       (''messages'', JObj [(''started'', JStr ''Review started for {{repository}}#{{review_number}}.''),
          (''progress'', JStr ''Reviewing revision {{head_sha}} now.''),
          (''success'', JStr ''Review passed for revision {{head_sha}}.''),
          (''recommendation'', JStr ''Review completed with recommendations for revision {{head_sha}}.''),
          (''blocked'', JStr ''Merge gate blocked: review the actionable findings.''),
          (''failed'', JStr ''Review could not complete. Open the run detail for the safe error summary.''),
          (''needs_attention'', JStr ''Review requires human attention before trustworthy findings can be published.''),
          (''superseded'', JStr ''This review was superseded by a newer revision.'')]),
       (''models'', JObj [(''enabled'', JBool False), (''provider'', JStr ''deployment''), (''protocol'', JStr ''deployment''),
          (''base_url'', JStr ''''), (''model'', JStr ''''), (''credential_ref'', JStr ''''), (''effort'', JStr ''low''),
          (''max_prompt_tokens'', JInt 8000), (''token_budget'', JInt 128000), (''subtask_timeout_minutes'', JInt 5),
          (''max_concurrent_runs'', JInt 2)]),
       (''issue-triage'', JObj [(''enabled'', JBool True), (''preset'', JStr ''engineering''), (''language'', JStr ''inherit''),
          (''required_issue_sections'', JArr (map JStr [''outcome'', ''reproduction'', ''expected_behavior'', ''evidence'',
             ''acceptance_criteria''])),
          (''response_sections'', JArr (map JStr [''assessment'', ''missing_context'', ''acceptance_criteria'', ''risk'',
             ''affected_areas'', ''next_steps'', ''provenance''])),
          (''collapse_secondary'', JBool True), (''link_file_references'', JBool True), (''reaction_feedback'', JBool True),
          (''max_items_per_section'', JInt 6), (''custom_guidance'', JStr '''')])] section"

definition DefaultReviewSummaryConfig :: ReviewSummaryConfig where
  "DefaultReviewSummaryConfig = \<lparr>sm_sections = [''outcome'', ''scope'', ''risk'', ''acceptance'', ''invariants'',
     ''verification'', ''rollout'', ''rollback'', ''provenance''], sm_characters = 4000, sm_contract = True,
     sm_evidence = True\<rparr>"

section \<open>Properties\<close>

text \<open>The default documents of the sections, which a run without a stored configuration is
  given, decode to the built-in default settings of the code; the default messages and the default
  model route pass the checks of their sections.\<close>

theorem default_documents_agree:
  "Option.bind (DefaultReviewConfig ''general'') DecodeReviewGeneralConfig = Some DefaultReviewGeneralConfig
 \<and> Option.bind (DefaultReviewConfig ''filters'') DecodeReviewFiltersConfig = Some DefaultReviewFiltersConfig
 \<and> Option.bind (DefaultReviewConfig ''prompts'') DecodeReviewPromptConfig = Some DefaultReviewPromptConfig
 \<and> Option.bind (DefaultReviewConfig ''summary'') DecodeReviewSummaryConfig = Some DefaultReviewSummaryConfig
 \<and> Option.bind (DefaultReviewConfig ''issue-triage'') DecodeIssueTriageConfig = Some DefaultIssueTriageConfig
 \<and> map_option (map (\<lambda>(name, p). (name, cp_enabled p, cp_minimum p)))
     (Option.bind (DefaultReviewConfig ''categories'') DecodeReviewCategoriesConfig)
   = Some [(''bug'', True, ''medium''), (''security'', True, ''medium''), (''performance'', True, ''high''),
       (''maintainability'', True, ''medium'')]
 \<and> map_option validReviewMessages (Option.bind (DefaultReviewConfig ''messages'') obj_fields) = Some True
 \<and> (\<forall>parse. map_option mr_enabled (Option.bind (DefaultReviewConfig ''models'') (DecodeModelRoute parse)) = Some False)"
proof (intro conjI allI)
  show "Option.bind (DefaultReviewConfig ''general'') DecodeReviewGeneralConfig = Some DefaultReviewGeneralConfig"
    by code_simp
  show "Option.bind (DefaultReviewConfig ''filters'') DecodeReviewFiltersConfig = Some DefaultReviewFiltersConfig"
    by code_simp
  show "Option.bind (DefaultReviewConfig ''prompts'') DecodeReviewPromptConfig = Some DefaultReviewPromptConfig"
    by code_simp
  show "Option.bind (DefaultReviewConfig ''summary'') DecodeReviewSummaryConfig = Some DefaultReviewSummaryConfig"
    by code_simp
  show "Option.bind (DefaultReviewConfig ''issue-triage'') DecodeIssueTriageConfig = Some DefaultIssueTriageConfig"
    by code_simp
  show "map_option (map (\<lambda>(name, p). (name, cp_enabled p, cp_minimum p)))
     (Option.bind (DefaultReviewConfig ''categories'') DecodeReviewCategoriesConfig)
   = Some [(''bug'', True, ''medium''), (''security'', True, ''medium''), (''performance'', True, ''high''),
       (''maintainability'', True, ''medium'')]"
    by code_simp
  show "map_option validReviewMessages (Option.bind (DefaultReviewConfig ''messages'') obj_fields) = Some True"
    by code_simp
  show "map_option mr_enabled (Option.bind (DefaultReviewConfig ''models'') (DecodeModelRoute parse)) = Some False" for parse
    by code_simp
qed


lemma route_again:
  assumes "DecodeModelRoute parse j = Some r"
  shows "DecodeModelRoute parse (route_json r) = Some r"
proof -
  have ok: "ModelRouteConfig_Valid parse r"
    using assms by (auto simp: DecodeModelRoute_def Let_def split: option.splits if_splits json.splits)
  then have limits: "validModelLimits r"
    by (auto simp: ModelRouteConfig_Valid_def Let_def split: if_splits option.splits)
  then have ints: "int64 (mr_prompt_tokens r)" "int64 (mr_budget r)" "int64 (mr_timeout r)" "int64 (mr_runs r)" "mr_runs r \<noteq> 0"
    by (auto simp: validModelLimits_def int64_def)
  have fold: "json_fold ''enabled'' = ''enabled''" "json_fold ''provider'' = ''provider''" "json_fold ''protocol'' = ''protocol''"
    "json_fold ''base_url'' = ''base_url''" "json_fold ''model'' = ''model''" "json_fold ''credential_ref'' = ''credential_ref''"
    "json_fold ''effort'' = ''effort''" "json_fold ''max_prompt_tokens'' = ''max_prompt_tokens''"
    "json_fold ''token_budget'' = ''token_budget''" "json_fold ''subtask_timeout_minutes'' = ''subtask_timeout_minutes''"
    "json_fold ''max_concurrent_runs'' = ''max_concurrent_runs''" by code_simp+
  have "decode_fields route_field (case route_json r of JObj kvs \<Rightarrow> kvs) zero_route = Some r"
    using ints by (cases r) (simp add: route_json_def json_simps route_field_def Let_def fold zero_route_def del: json_fold.simps)
  then show ?thesis using ok ints(5) by (simp add: DecodeModelRoute_def route_json_def Let_def)
qed

text \<open>C31. A stored configuration is stable: writing a decoded general, filter, prompt, issue
  triage or summary configuration, or a model route, as JSON and decoding it again gives the same configuration,
  so a default, a trimmed name or a dropped key is settled by the first decoding; a category
  policy with valid distinct names and severities decodes to itself.\<close>

theorem config_round_trip:
  "(\<forall>j c. DecodeReviewGeneralConfig j = Some c \<longrightarrow> DecodeReviewGeneralConfig (general_json c) = Some c)
 \<and> (\<forall>j c. DecodeReviewFiltersConfig j = Some c \<longrightarrow> DecodeReviewFiltersConfig (filters_json c) = Some c)
 \<and> (\<forall>j c. DecodeReviewPromptConfig j = Some c \<longrightarrow> DecodeReviewPromptConfig (prompts_json c) = Some c)
 \<and> (\<forall>j c. DecodeIssueTriageConfig j = Some c \<longrightarrow> DecodeIssueTriageConfig (triage_json c) = Some c)
 \<and> (\<forall>j c. DecodeReviewSummaryConfig j = Some c \<longrightarrow> DecodeReviewSummaryConfig (summary_json c) = Some c)
 \<and> (\<forall>parse j r. DecodeModelRoute parse j = Some r \<longrightarrow> DecodeModelRoute parse (route_json r) = Some r)
 \<and> (\<forall>c. categories_ok c \<longrightarrow> DecodeReviewCategoriesConfig (categories_json c) = Some c)"
  using general_again filters_again prompts_again triage_again summary_again route_again categories_again by blast

theorem config_round_trip_witness:
  "DecodeReviewGeneralConfig (general_json (DefaultReviewGeneralConfig\<lparr>gc_automatic := False, gc_trigger := ''manual''\<rparr>))
     = Some (DefaultReviewGeneralConfig\<lparr>gc_automatic := False, gc_trigger := ''manual''\<rparr>)"
  using config_round_trip demo_general_decoded by blast

lemma decode_fields_keep:
  assumes "decode_fields f kvs c = Some c'"
    and "\<And>k v c c'. (k, v) \<in> set kvs \<Longrightarrow> f k v c = Some c' \<Longrightarrow> P c \<Longrightarrow> P c'" and "P c"
  shows "P c'"
  using assms
proof (induction kvs arbitrary: c)
  case (Cons kv kvs)
  obtain k v where kv: "kv = (k, v)" by fastforce
  then obtain d where d: "f k v c = Some d" "decode_fields f kvs d = Some c'"
    using Cons.prems(1) by (auto split: option.splits)
  show ?case
    by (rule Cons.IH [OF d(2)]) (use Cons.prems(2,3) d(1) kv in \<open>auto intro: Cons.prems(2)\<close>)
qed simp

lemma general_field_trigger: "general_field k v c = Some c' \<Longrightarrow> k \<noteq> ''trigger_mode'' \<Longrightarrow> gc_trigger c' = gc_trigger c"
  unfolding general_field_def by (auto split: if_splits)

text \<open>A general configuration from before the trigger mode existed keeps its meaning: a
  document without \<open>trigger_mode\<close> admits explicit requests only when it turns automatic reviews
  off, and is automatic otherwise.\<close>

theorem legacy_trigger_meaning:
  assumes "DecodeReviewGeneralConfig j = Some c" and "obj_fields j = Some kvs" and "''trigger_mode'' \<notin> fst ` set kvs"
  shows "gc_trigger c = (if gc_automatic c then ''automatic'' else ''manual'')"
proof -
  obtain d where d: "decode_fields general_field kvs DefaultReviewGeneralConfig = Some d" "general_finish False d = Some c"
    using assms by (auto simp: DecodeReviewGeneralConfig_def split: if_splits option.splits)
  have "gc_trigger d = ''automatic''"
    by (rule decode_fields_keep [OF d(1), of "\<lambda>c. gc_trigger c = ''automatic''"])
      (use assms(3) general_field_trigger in \<open>force simp: DefaultReviewGeneralConfig_def\<close>)+
  then show ?thesis using d(2) by (auto simp: general_finish_def Let_def split: if_splits)
qed

theorem legacy_trigger_meaning_witness:
  "gc_trigger (DefaultReviewGeneralConfig\<lparr>gc_automatic := False, gc_trigger := ''manual''\<rparr>) = ''manual''"
proof -
  have "obj_fields demo_general =
      Some [(''automatic_review'', JBool False), (''minimum_blocking_severity'', JStr '' High '')]" by code_simp
  from legacy_trigger_meaning [OF demo_general_decoded this] show ?thesis by simp
qed

lemma excluded_path:
  assumes "reviewPathGlobMatches pattern (TrimPrefix (TrimSpace path) ''./'')"
    and "pattern \<in> set (fc_exclude c)
      \<or> fc_generated c \<and> pattern = ''**/generated/**'' \<or> fc_vendor c \<and> pattern = ''**/vendor/**''
      \<or> fc_vendor c \<and> pattern = ''**/node_modules/**''"
  shows "\<not> AllowsPath c path"
proof -
  let ?excludes = "fc_exclude c @ (if fc_generated c then [''**/generated/**''] else [])
     @ (if fc_vendor c then [''**/vendor/**'', ''**/node_modules/**''] else [])"
  have "pattern \<in> set ?excludes" using assms(2) by (elim disjE conjE) simp_all
  then have "reviewPathMatchesAny ?excludes (TrimPrefix (TrimSpace path) ''./'')"
    unfolding reviewPathMatchesAny_def list_ex_iff using assms(1) by blast
  then show ?thesis unfolding AllowsPath_def Let_def by (simp only: if_False not_True_eq_False simp_thms if_cancel split: if_split)
qed

text \<open>C30. Exclusion wins: a path that is below a generated, vendor or node_modules directory at any
  depth, with no newline before or after the directory's name, is never reviewed when the configuration
  skips those directories, whatever it includes, and neither is a path that an exclude pattern matches.\<close>

theorem skipped_paths_not_reviewed:
  assumes "TrimPrefix (TrimSpace path) ''./'' = value"
    and "(\<exists>pattern \<in> set (fc_exclude c). reviewPathGlobMatches pattern value)
       \<or> (\<exists>pre dir rest. value = pre @ dir @ ''/'' @ rest \<and> (pre = [] \<or> last pre = CHR ''/'') \<and> CHR 0x0A \<notin> set (pre @ rest)
          \<and> (fc_generated c \<and> dir = ''generated'' \<or> fc_vendor c \<and> dir \<in> {''vendor'', ''node_modules''}))"
  shows "\<not> AllowsPath c path"
proof -
  let ?toks = "\<lambda>dir. GDirs # map GLit (map of_char dir) @ [GLit SLASH, GAny]"
  have ascii: "is_ascii ''generated''" "is_ascii ''vendor''" "is_ascii ''node_modules''" by code_simp+
  have toks: "glob_tokens (runes (TrimPrefix (TrimSpace ''**/generated/**'') ''./'')) = ?toks ''generated''"
    "glob_tokens (runes (TrimPrefix (TrimSpace ''**/vendor/**'') ''./'')) = ?toks ''vendor''"
    "glob_tokens (runes (TrimPrefix (TrimSpace ''**/node_modules/**'') ''./'')) = ?toks ''node_modules''" by code_simp+
  have nonempty: "TrimPrefix (TrimSpace ''**/generated/**'') ''./'' \<noteq> ''''" "TrimPrefix (TrimSpace ''**/vendor/**'') ''./'' \<noteq> ''''"
    "TrimPrefix (TrimSpace ''**/node_modules/**'') ''./'' \<noteq> ''''" by code_simp+
  have match: "fc_generated c \<and> reviewPathGlobMatches ''**/generated/**'' value
      \<or> fc_vendor c \<and> (reviewPathGlobMatches ''**/vendor/**'' value \<or> reviewPathGlobMatches ''**/node_modules/**'' value)"
    if "value = pre @ dir @ ''/'' @ rest" "pre = [] \<or> last pre = CHR ''/''" "CHR 0x0A \<notin> set (pre @ rest)"
       "fc_generated c \<and> dir = ''generated'' \<or> fc_vendor c \<and> dir \<in> {''vendor'', ''node_modules''}" for pre dir rest
    using that(4) below_directory [OF _ that(2,3), of dir] ascii toks nonempty
    unfolding that(1) reviewPathGlobMatches_def Let_def by auto
  have ex: "\<not> AllowsPath c path" if "pattern \<in> set (fc_exclude c)
      \<or> fc_generated c \<and> pattern = ''**/generated/**'' \<or> fc_vendor c \<and> pattern = ''**/vendor/**''
      \<or> fc_vendor c \<and> pattern = ''**/node_modules/**''" "reviewPathGlobMatches pattern value" for pattern
    using that excluded_path [of pattern path c] unfolding assms(1) by blast
  show ?thesis using assms(2) ex match by (elim disjE exE conjE bexE) metis+
qed

theorem skipped_paths_not_reviewed_witness: "\<not> AllowsPath DefaultReviewFiltersConfig ''web/vendor/lib/a.js''"
proof -
  have path: "TrimPrefix (TrimSpace ''web/vendor/lib/a.js'') ''./'' = ''web/'' @ ''vendor'' @ ''/'' @ ''lib/a.js''" by code_simp
  have dirs: "last ''web/'' = CHR ''/''" "CHR 0x0A \<notin> set (''web/'' @ ''lib/a.js'')" "fc_vendor DefaultReviewFiltersConfig"
    by code_simp+
  show ?thesis by (rule skipped_paths_not_reviewed [OF path]) (use dirs in blast)
qed

text \<open>The newline matters: the patterns become regular expressions whose dot does not match it, so a
  file with a newline in its path is reviewed below a skipped directory.\<close>

lemma newline_path_reviewed: "AllowsPath DefaultReviewFiltersConfig (''vendor/a'' @ [CHR 0x0A] @ ''b.go'')"
  by code_simp

end
