(* ===== verification/Config_Canonical.thy ===== *)
theory Config_Canonical
  imports Config_Documents
begin

text \<open>
  The canonical form of a configuration document, \<open>CanonicalReviewConfig\<close> in
  \<open>src/internal/domain/review_config.go\<close>: what a save accepts and stores, and what a strict replay
  compares with the stored digest.

  Decoding into \<open>map[string]any\<close> and encoding again sorts the members of every object by name,
  keeps the last of repeated members and prints every number from its \<open>float64\<close>. The number
  conversion of \<open>encoding/json\<close> is the parameter \<open>num\<close> (\<open>None\<close> for a number that is out of
  range), the bytes and their SHA-256 digest the parameter \<open>sha\<close>, \<open>url.Parse\<close> the parameter
  \<open>parse\<close>. The length of the submitted bytes is the argument \<open>len\<close>.
\<close>

section \<open>Decoding to a map and encoding\<close>

fun canon :: "(json \<Rightarrow> json option) \<Rightarrow> json \<Rightarrow> json option"
and canon_list :: "(json \<Rightarrow> json option) \<Rightarrow> json list \<Rightarrow> json list option"
and canon_members :: "(json \<Rightarrow> json option) \<Rightarrow> (string \<times> json) list \<Rightarrow> (string \<times> json) list option" where
  "canon num JNull = Some JNull"
| "canon num (JBool b) = Some (JBool b)"
| "canon num (JStr s) = Some (JStr s)"
| "canon num (JInt i) = num (JInt i)"
| "canon num (JReal s) = num (JReal s)"
| "canon num (JArr js) = map_option JArr (canon_list num js)"
| "canon num (JObj kvs) = map_option (\<lambda>kvs. JObj (sort_key fst (fold (\<lambda>(k, v). AList.update k v) kvs [])))
     (canon_members num kvs)"
| "canon_list num [] = Some []"
| "canon_list num (j # js) =
     (case canon num j of None \<Rightarrow> None | Some j \<Rightarrow> map_option ((#) j) (canon_list num js))"
| "canon_members num [] = Some []"
| "canon_members num ((k, v) # kvs) =
     (case canon num v of None \<Rightarrow> None | Some v \<Rightarrow> map_option ((#) (k, v)) (canon_members num kvs))"

definition ReviewConfigSection_Valid :: "string \<Rightarrow> bool" where
  "ReviewConfigSection_Valid section \<longleftrightarrow> section = ''general'' \<or> section = ''categories'' \<or> section = ''filters''
     \<or> section = ''prompts'' \<or> section = ''summary'' \<or> section = ''messages'' \<or> section = ''models''
     \<or> section = ''issue-triage''"

definition validReviewGeneral :: "json \<Rightarrow> bool" where
  "validReviewGeneral value \<longleftrightarrow> DecodeReviewGeneralConfig value \<noteq> None"

definition validReviewFilters :: "json \<Rightarrow> bool" where
  "validReviewFilters value \<longleftrightarrow> DecodeReviewFiltersConfig value \<noteq> None"

definition validReviewPrompts :: "json \<Rightarrow> bool" where
  "validReviewPrompts value \<longleftrightarrow> DecodeReviewPromptConfig value \<noteq> None"

definition validIssueTriageConfig :: "json \<Rightarrow> bool" where
  "validIssueTriageConfig value \<longleftrightarrow> DecodeIssueTriageConfig value \<noteq> None"

definition validReviewCategories :: "json \<Rightarrow> bool" where
  "validReviewCategories value \<longleftrightarrow> DecodeReviewCategoriesConfig value \<noteq> None"

definition validReviewSummary :: "json \<Rightarrow> bool" where
  "validReviewSummary value \<longleftrightarrow> (case DecodeReviewSummaryConfig value of None \<Rightarrow> False
     | Some config \<Rightarrow> ReviewSummaryConfig_Valid config)"

text \<open>The check of a section. The document \<open>value\<close> is the encoded map, which the checks of the
  code decode again; the model route alone is decoded from the submitted document.\<close>

definition section_accepts ::
  "(string \<Rightarrow> URL option) \<Rightarrow> string \<Rightarrow> json \<Rightarrow> json \<Rightarrow> bool" where
  "section_accepts parse section content value \<longleftrightarrow>
     \<not> (section = ''models'' \<and> DecodeModelRoute parse content = None) \<and>
     \<not> (section = ''general'' \<and> \<not> validReviewGeneral value) \<and>
     \<not> (section = ''filters'' \<and> \<not> validReviewFilters value) \<and>
     \<not> (section = ''prompts'' \<and> \<not> validReviewPrompts value) \<and>
     \<not> (section = ''messages'' \<and> \<not> validReviewMessages (case value of JObj kvs \<Rightarrow> kvs | _ \<Rightarrow> [])) \<and>
     \<not> (section = ''categories'' \<and> \<not> validReviewCategories value) \<and>
     \<not> (section = ''summary'' \<and> \<not> validReviewSummary value) \<and>
     \<not> (section = ''issue-triage'' \<and> \<not> validIssueTriageConfig value)"

definition CanonicalReviewConfig ::
  "(json \<Rightarrow> json option) \<Rightarrow> (json \<Rightarrow> string) \<Rightarrow> (string \<Rightarrow> URL option) \<Rightarrow> string \<Rightarrow> nat \<Rightarrow> json \<Rightarrow> (json \<times> string) option" where
  "CanonicalReviewConfig num sha parse section len content =
     (if \<not> ReviewConfigSection_Valid section \<or> len < 2 \<or> len > 64 * 1024 then None
      else case (case content of JObj kvs \<Rightarrow> canon num content | _ \<Rightarrow> None) of
        None \<Rightarrow> None
      | Some value \<Rightarrow> if section_accepts parse section content value then Some (value, sha value) else None)"

section \<open>What the column returns\<close>

text \<open>The columns are of type JSONB: what is read back has the members of every object in another
  order (\<open>order\<close>), every number printed by PostgreSQL (\<open>reread\<close>), and blanks between the tokens.\<close>

fun read_back :: "((string \<times> json) list \<Rightarrow> (string \<times> json) list) \<Rightarrow> (json \<Rightarrow> json) \<Rightarrow> json \<Rightarrow> json"
and read_list :: "((string \<times> json) list \<Rightarrow> (string \<times> json) list) \<Rightarrow> (json \<Rightarrow> json) \<Rightarrow> json list \<Rightarrow> json list"
and read_members :: "((string \<times> json) list \<Rightarrow> (string \<times> json) list) \<Rightarrow> (json \<Rightarrow> json) \<Rightarrow> (string \<times> json) list \<Rightarrow> (string \<times> json) list" where
  "read_back order reread JNull = JNull"
| "read_back order reread (JBool b) = JBool b"
| "read_back order reread (JStr s) = JStr s"
| "read_back order reread (JInt i) = reread (JInt i)"
| "read_back order reread (JReal s) = reread (JReal s)"
| "read_back order reread (JArr js) = JArr (read_list order reread js)"
| "read_back order reread (JObj kvs) = JObj (order (read_members order reread kvs))"
| "read_list order reread [] = []"
| "read_list order reread (j # js) = read_back order reread j # read_list order reread js"
| "read_members order reread [] = []"
| "read_members order reread ((k, v) # kvs) = (k, read_back order reread v) # read_members order reread kvs"

definition is_number :: "json \<Rightarrow> bool" where
  "is_number j \<longleftrightarrow> (case j of JInt i \<Rightarrow> True | JReal s \<Rightarrow> True | _ \<Rightarrow> False)"

text \<open>Every number of a document survives the column: encoded again it is what it was. It is so but
  for the negative zero, which a JSONB column loses.\<close>

fun numbers_ok :: "(json \<Rightarrow> json option) \<Rightarrow> (json \<Rightarrow> json) \<Rightarrow> json \<Rightarrow> bool"
and numbers_ok_list :: "(json \<Rightarrow> json option) \<Rightarrow> (json \<Rightarrow> json) \<Rightarrow> json list \<Rightarrow> bool"
and numbers_ok_members :: "(json \<Rightarrow> json option) \<Rightarrow> (json \<Rightarrow> json) \<Rightarrow> (string \<times> json) list \<Rightarrow> bool" where
  "numbers_ok num reread JNull = True"
| "numbers_ok num reread (JBool b) = True"
| "numbers_ok num reread (JStr s) = True"
| "numbers_ok num reread (JInt i) = (is_number (reread (JInt i)) \<and> num (reread (JInt i)) = Some (JInt i))"
| "numbers_ok num reread (JReal s) = (is_number (reread (JReal s)) \<and> num (reread (JReal s)) = Some (JReal s))"
| "numbers_ok num reread (JArr js) = numbers_ok_list num reread js"
| "numbers_ok num reread (JObj kvs) = numbers_ok_members num reread kvs"
| "numbers_ok_list num reread [] = True"
| "numbers_ok_list num reread (j # js) = (numbers_ok num reread j \<and> numbers_ok_list num reread js)"
| "numbers_ok_members num reread [] = True"
| "numbers_ok_members num reread ((k, v) # kvs) = (numbers_ok num reread v \<and> numbers_ok_members num reread kvs)"

lemma read_members_map: "read_members order reread kvs = map (\<lambda>(k, v). (k, read_back order reread v)) kvs"
  by (induction kvs) auto

lemma numbers_ok_members_all: "numbers_ok_members num reread kvs \<longleftrightarrow> (\<forall>kv \<in> set kvs. numbers_ok num reread (snd kv))"
  by (induction kvs) auto

section \<open>Canonical documents are fixed\<close>

lemma canon_members_map:
  assumes "\<And>k v. (k, v) \<in> set kvs \<Longrightarrow> canon num v = Some (g k)"
  shows "canon_members num kvs = Some (map (\<lambda>(k, v). (k, g k)) kvs)"
  using assms
proof (induction kvs)
  case (Cons kv kvs)
  obtain k v where kv: "kv = (k, v)" by (cases kv)
  have "canon num v = Some (g k)" using Cons.prems [of k v] by (simp add: kv)
  moreover have "canon_members num kvs = Some (map (\<lambda>(k, v). (k, g k)) kvs)" using Cons by simp
  ultimately show ?case by (simp add: kv)
qed simp

text \<open>The members of an object come back in another order; the canonical order is the same.\<close>

lemma canon_permuted:
  assumes d: "distinct (map fst ms)" and o: "sorted (map fst ms)"
    and v: "\<And>k v. (k, v) \<in> set ms \<Longrightarrow> canon num (f v) = Some v"
    and p: "mset kvs = mset (map (\<lambda>(k, v). (k, f v)) ms)"
  shows "canon num (JObj kvs) = Some (JObj ms)"
proof -
  let ?g = "\<lambda>k. the (map_of ms k)"
  have g: "?g k = v" if "(k, v) \<in> set ms" for k v using that d by simp
  have s: "set kvs = (\<lambda>(k, v). (k, f v)) ` set ms" using arg_cong [OF p, of set_mset] by simp
  have "canon num x = Some (?g k)" if "(k, x) \<in> set kvs" for k x
    using that v g unfolding s by auto
  then have m: "canon_members num kvs = Some (map (\<lambda>(k, v). (k, ?g k)) kvs)" by (rule canon_members_map)
  let ?ns = "map (\<lambda>(k, v). (k, ?g k)) kvs"
  have "mset ?ns = mset (map (\<lambda>(k, v). (k, ?g k)) (map (\<lambda>(k, v). (k, f v)) ms))"
    by (simp only: mset_map p)
  also have "map (\<lambda>(k, v). (k, ?g k)) (map (\<lambda>(k, v). (k, f v)) ms) = ms"
    unfolding map_map by (rule map_idI) (use g in \<open>auto simp: case_prod_beta\<close>)
  finally have e: "mset ?ns = mset ms" .
  then have "mset (map fst ?ns) = mset (map fst ms)" using arg_cong [OF e, of "image_mset fst"] by (simp only: mset_map)
  then have dn: "distinct (map fst ?ns)" using d mset_eq_imp_distinct_iff by blast
  then have "fold (\<lambda>(k, v). AList.update k v) ?ns [] = ?ns" using fold_update_fresh [of "[]" ?ns] by simp
  moreover have "sort_key fst ?ns = ms"
    by (rule sort_key_inj_key_eq [OF e _ o]) (rule conjunct2 [OF dn [unfolded distinct_map [of fst]]])
  ultimately show ?thesis using m by simp
qed


lemma canon_members_values: "canon_members num kvs = Some kvs' \<Longrightarrow> (k, v') \<in> set kvs' \<Longrightarrow>
    \<exists>v. (k, v) \<in> set kvs \<and> canon num v = Some v'"
proof (induction kvs arbitrary: kvs')
  case (Cons kv kvs)
  then show ?case by (cases kv) (fastforce split: option.splits)
qed simp

lemma update_set_subset: "set (AList.update k v xs) \<subseteq> insert (k, v) (set xs)"
  by (induction xs) auto

lemma fold_update_subset: "set (fold (\<lambda>(k, v). AList.update k v) kvs acc) \<subseteq> set kvs \<union> set acc"
proof (induction kvs arbitrary: acc)
  case (Cons kv kvs)
  show ?case using Cons.IH [of "AList.update (fst kv) (snd kv) acc"] update_set_subset [of "fst kv" "snd kv" acc]
    by (auto simp: case_prod_beta)
qed simp

lemma fold_update_distinct: "distinct (map fst acc) \<Longrightarrow> distinct (map fst (fold (\<lambda>(k, v). AList.update k v) kvs acc))"
  by (induction kvs arbitrary: acc) (auto simp: case_prod_beta distinct_update)

lemma distinct_sort_key_fst: "distinct (map fst xs) \<Longrightarrow> distinct (map fst (sort_key fst xs))"
  by (metis distinct_map distinct_sort set_sort)

lemma canon_read_back:
  "canon num j = Some j' \<Longrightarrow> \<forall>j j'. num j = Some j' \<longrightarrow> is_number j' \<Longrightarrow> numbers_ok num reread j' \<Longrightarrow> \<forall>kvs. mset (order kvs) = mset kvs \<Longrightarrow>
     canon num (read_back order reread j') = Some j'"
  "canon_list num js = Some js' \<Longrightarrow> \<forall>j j'. num j = Some j' \<longrightarrow> is_number j' \<Longrightarrow> numbers_ok_list num reread js' \<Longrightarrow> \<forall>kvs. mset (order kvs) = mset kvs \<Longrightarrow>
     canon_list num (read_list order reread js') = Some js'"
  "canon_members num kvs = Some kvs' \<Longrightarrow> \<forall>j j'. num j = Some j' \<longrightarrow> is_number j' \<Longrightarrow> \<forall>kvs. mset (order kvs) = mset kvs \<Longrightarrow>
     \<forall>kv \<in> set kvs'. numbers_ok num reread (snd kv) \<longrightarrow> canon num (read_back order reread (snd kv)) = Some (snd kv)"
proof (induction num j and num js and num kvs arbitrary: j' and js' and kvs' rule: canon_canon_list_canon_members.induct)
  case (4 num i)
  then have "is_number j'" by simp
  then show ?case using 4 by (cases j') (auto simp: is_number_def split: json.splits)
next
  case (5 num s)
  then have "is_number j'" by simp
  then show ?case using 5 by (cases j') (auto simp: is_number_def split: json.splits)
next
  case (7 num kvs)
  then obtain ms where ms: "canon_members num kvs = Some ms" by auto
  let ?us = "fold (\<lambda>(k, v). AList.update k v) ms []"
  have j': "j' = JObj (sort_key fst ?us)" using 7 ms by simp
  have d: "distinct (map fst (sort_key fst ?us))" by (intro distinct_sort_key_fst fold_update_distinct) simp
  have u: "set (sort_key fst ?us) \<subseteq> set ms" using fold_update_subset [of ms "[]"] by simp
  have n: "\<forall>kv \<in> set (sort_key fst ?us). numbers_ok num reread (snd kv)"
    using 7(4) unfolding j' numbers_ok.simps numbers_ok_members_all .
  show ?case unfolding j' read_back.simps read_members_map
  proof (rule canon_permuted [OF d, where f = "read_back order reread"])
    fix k v assume "(k, v) \<in> set (sort_key fst ?us)"
    then show "canon num (read_back order reread v) = Some v" using 7(1) [OF ms 7(3,5)] u n by force
  qed (use 7(5) in simp_all)
qed (fastforce split: option.splits)+

lemma canon_object: "canon num (JObj kvs) = Some v \<Longrightarrow> \<exists>ms. v = JObj ms"
  by auto

section \<open>Properties\<close>

text \<open>What a worker does with the stored document of a section.\<close>

definition section_decodes :: "string \<Rightarrow> json \<Rightarrow> bool" where
  "section_decodes section j \<longleftrightarrow>
     (section = ''general'' \<longrightarrow> DecodeReviewGeneralConfig j \<noteq> None) \<and>
     (section = ''filters'' \<longrightarrow> DecodeReviewFiltersConfig j \<noteq> None) \<and>
     (section = ''prompts'' \<longrightarrow> DecodeReviewPromptConfig j \<noteq> None) \<and>
     (section = ''categories'' \<longrightarrow> DecodeReviewCategoriesConfig j \<noteq> None) \<and>
     (section = ''summary'' \<longrightarrow> DecodeReviewSummaryConfig j \<noteq> None) \<and>
     (section = ''issue-triage'' \<longrightarrow> DecodeIssueTriageConfig j \<noteq> None)"

text \<open>C35. A stored configuration stays usable: whatever document a save accepts, the canonical
  document it stores is one that the decoder of its section accepts. When the column gives it back, in
  whatever order and however printed, a strict replay finds the same document and the same digest, as long
  as the text it gets is at most 64 KiB; a longer text it refuses. This holds for every section but the model
  route, and for documents whose numbers survive the column. The text of a column is longer than the
  document that was submitted when that was written without blanks.\<close>

theorem stored_config_replays:
  assumes "CanonicalReviewConfig num sha parse section len content = Some (stored, digest)" and "section \<noteq> ''models''"
    and "\<forall>j j'. num j = Some j' \<longrightarrow> is_number j'" "numbers_ok num reread stored" and "\<forall>kvs. mset (order kvs) = mset kvs"
    and "2 \<le> len'"
  shows "section_decodes section stored
     \<and> CanonicalReviewConfig num sha parse section len' (read_back order reread stored)
         = (if len' \<le> 64 * 1024 then Some (stored, digest) else None)"
proof -
  obtain kvs where kvs: "content = JObj kvs" "canon num content = Some stored" "ReviewConfigSection_Valid section"
    "section_accepts parse section content stored" "digest = sha stored"
    using assms(1) unfolding CanonicalReviewConfig_def by (auto split: if_splits option.splits json.splits)
  have summary: "validReviewSummary stored = (DecodeReviewSummaryConfig stored \<noteq> None)"
    by (auto simp: validReviewSummary_def DecodeReviewSummaryConfig_def Let_def split: option.splits if_splits)
  note accepted = kvs(4) [unfolded section_accepts_def summary validReviewGeneral_def validReviewFilters_def
    validReviewPrompts_def validReviewCategories_def validIssueTriageConfig_def de_Morgan_conj not_not]
  have decodes: "section_decodes section stored"
    unfolding section_decodes_def imp_conv_disj using accepted by (elim conjE) (intro conjI; assumption)
  have same: "canon num (read_back order reread stored) = Some stored"
    using canon_read_back(1) [OF kvs(2) assms(3-5)] .
  obtain ms where ms: "read_back order reread stored = JObj ms" using canon_object kvs(1,2) by auto
  have "section_accepts parse section (read_back order reread stored) stored"
    using kvs(4) assms(2) unfolding section_accepts_def by (elim conjE) (intro conjI; (assumption | simp only: simp_thms))
  then have "CanonicalReviewConfig num sha parse section len' (read_back order reread stored)
      = (if len' \<le> 64 * 1024 then Some (stored, digest) else None)"
    using same kvs(3,5) assms(6) unfolding CanonicalReviewConfig_def ms by (simp del: canon.simps)
  then show ?thesis using decodes by blast
qed

definition plain_num :: "json \<Rightarrow> json option" where
  "plain_num j = (case j of JInt i \<Rightarrow> Some (JInt i) | _ \<Rightarrow> None)"

lemma plain_num_number: "\<forall>j j'. plain_num j = Some j' \<longrightarrow> is_number j'"
  by (auto simp: plain_num_def is_number_def split: json.splits)

definition demo_stored :: json where
  "demo_stored = JObj [(''automatic_review'', JBool True), (''minimum_blocking_severity'', JStr ''low'')]"

definition demo_submitted :: json where
  "demo_submitted = JObj [(''minimum_blocking_severity'', JStr ''high''), (''automatic_review'', JBool True),
     (''minimum_blocking_severity'', JStr ''low'')]"

lemma canonicalI:
  assumes "canon num (JObj kvs) = Some stored" "section_accepts parse section (JObj kvs) stored"
    and "ReviewConfigSection_Valid section" "2 \<le> len" "len \<le> 64 * 1024"
  shows "CanonicalReviewConfig num sha parse section len (JObj kvs) = Some (stored, sha stored)"
  using assms unfolding CanonicalReviewConfig_def by (simp del: canon.simps)

lemma demo_canonical:
  "CanonicalReviewConfig plain_num (\<lambda>_. ''digest'') (\<lambda>_. None) ''general'' 99 demo_submitted = Some (demo_stored, ''digest'')"
  unfolding demo_submitted_def
proof (rule canonicalI)
  show "canon plain_num (JObj [(''minimum_blocking_severity'', JStr ''high''), (''automatic_review'', JBool True),
     (''minimum_blocking_severity'', JStr ''low'')]) = Some demo_stored"
    by (simp add: demo_stored_def)
  show "section_accepts (\<lambda>_. None) ''general'' (JObj [(''minimum_blocking_severity'', JStr ''high''), (''automatic_review'', JBool True),
     (''minimum_blocking_severity'', JStr ''low'')]) demo_stored" by code_simp
qed (simp_all add: ReviewConfigSection_Valid_def)

theorem stored_config_replays_witness:
  "section_decodes ''general'' demo_stored
   \<and> CanonicalReviewConfig plain_num (\<lambda>_. ''digest'') (\<lambda>_. None) ''general'' 64
       (JObj [(''minimum_blocking_severity'', JStr ''low''), (''automatic_review'', JBool True)]) = Some (demo_stored, ''digest'')"
proof -
  have n: "numbers_ok plain_num id demo_stored" by (simp add: demo_stored_def)
  have r: "read_back rev id demo_stored = JObj [(''minimum_blocking_severity'', JStr ''low''), (''automatic_review'', JBool True)]"
    by (simp add: demo_stored_def)
  show ?thesis
    using stored_config_replays [OF demo_canonical _ plain_num_number n, of rev 64] unfolding r by simp
qed

text \<open>The text of a document: \<open>json.Marshal\<close> writes \<open>:\<close> and \<open>,\<close> alone, a JSONB column a blank after
  each. Strings and numbers are printed by \<open>quote\<close> and \<open>digits\<close>.\<close>

fun document_text :: "string \<Rightarrow> string \<Rightarrow> (string \<Rightarrow> string) \<Rightarrow> (json \<Rightarrow> string) \<Rightarrow> json \<Rightarrow> string"
and list_text :: "string \<Rightarrow> string \<Rightarrow> (string \<Rightarrow> string) \<Rightarrow> (json \<Rightarrow> string) \<Rightarrow> json list \<Rightarrow> string"
and members_text :: "string \<Rightarrow> string \<Rightarrow> (string \<Rightarrow> string) \<Rightarrow> (json \<Rightarrow> string) \<Rightarrow> (string \<times> json) list \<Rightarrow> string" where
  "document_text colon comma quote digits JNull = ''null''"
| "document_text colon comma quote digits (JBool b) = (if b then ''true'' else ''false'')"
| "document_text colon comma quote digits (JStr s) = quote s"
| "document_text colon comma quote digits (JInt i) = digits (JInt i)"
| "document_text colon comma quote digits (JReal s) = digits (JReal s)"
| "document_text colon comma quote digits (JArr js) = ''['' @ list_text colon comma quote digits js @ '']''"
| "document_text colon comma quote digits (JObj kvs) = ''{'' @ members_text colon comma quote digits kvs @ ''}''"
| "list_text colon comma quote digits [] = ''''"
| "list_text colon comma quote digits (j # js) =
     document_text colon comma quote digits j @ (if js = [] then '''' else comma @ list_text colon comma quote digits js)"
| "members_text colon comma quote digits [] = ''''"
| "members_text colon comma quote digits ((k, v) # kvs) =
     quote k @ colon @ document_text colon comma quote digits v @ (if kvs = [] then '''' else comma @ members_text colon comma quote digits kvs)"

text \<open>A document that fits into the 64 KiB of a request, together with the 35 bytes around it, is
  accepted; the text its column returns is longer than 64 KiB, and the next admission of a review
  refuses it.\<close>

definition many_paths :: "string list" where
  "many_paths = map (\<lambda>c. [c]) ''ABCDEFGHIJKLMNOPQRSTUVWXYZ0123456789abcdefghi''"

definition wide_filters :: "nat \<Rightarrow> json" where
  "wide_filters n = JObj [(''exclude_paths'', JArr (map JStr ((replicate n CHR 0x20 @ ''x'') # many_paths)))]"

definition quoted :: "string \<Rightarrow> string" where
  "quoted s = CHR 0x22 # s @ [CHR 0x22]"

lemma lead_blank: "lead_space (CHR 0x20 # s) = 1"
  by (cases "CHR 0x20 # s" rule: lead_space.cases) (auto simp: ascii_space_def)

lemma trim_blanks: "TrimSpace (replicate n CHR 0x20 @ ''x'') = ''x''"
proof -
  have "strip lead_space (replicate n CHR 0x20 @ ''x'') = ''x''"
  proof (induction n)
    case 0
    show ?case by (simp add: strip.simps ascii_space_def)
  next
    case (Suc n)
    then show ?case by (simp add: strip.simps [of _ "CHR 0x20 # _"] lead_blank)
  qed
  moreover have "strip trail_space ''x'' = ''x''" by (simp add: strip.simps ascii_space_def)
  ultimately show ?thesis by (simp add: TrimSpace_def)
qed

lemma canon_list_strings: "canon_list num (map JStr ss) = Some (map JStr ss)"
  by (induction ss) auto

lemma many_paths_kept: "filter_strings {''x''} many_paths = Some many_paths" "length many_paths = 45"
  by code_simp+

lemma wide_filters_accepted:
  assumes "2 \<le> len" "len \<le> 64 * 1024"
  shows "CanonicalReviewConfig num sha parse ''filters'' len (wide_filters n) = Some (wide_filters n, sha (wide_filters n))"
proof -
  let ?ss = "(replicate n CHR 0x20 @ ''x'') # many_paths"
  have "decodeReviewFilterStrings (JArr (map JStr ?ss)) = Some (''x'' # many_paths)"
    unfolding decodeReviewFilterStrings_def unmarshal_strings_JStr
    by (simp add: trim_blanks ContainsAny_def many_paths_kept)
  then have "DecodeReviewFiltersConfig (wide_filters n) \<noteq> None"
    by (simp add: wide_filters_def DecodeReviewFiltersConfig_def obj_fields_def filters_field_def del: list.map)
  then have "section_accepts parse ''filters'' (wide_filters n) (wide_filters n)"
    by (simp add: section_accepts_def validReviewFilters_def)
  moreover have "canon num (wide_filters n) = Some (wide_filters n)"
    unfolding wide_filters_def by (simp add: canon_list_strings del: list.map)
  ultimately show ?thesis
    unfolding wide_filters_def by (intro canonicalI) (use assms in \<open>simp_all add: ReviewConfigSection_Valid_def\<close>)
qed

lemma list_text_strings:
  assumes "ss \<noteq> []"
  shows "length (list_text colon comma quoted digits (map JStr ss)) + length comma
    = sum_list (map length ss) + length ss * (length comma + 2)"
  using assms by (induction ss rule: list_nonempty_induct) (auto simp: quoted_def)

lemma stored_config_outgrows_limit:
  fixes digits :: "json \<Rightarrow> string"
  defines "doc \<equiv> wide_filters 65298"
  shows "length (document_text '':'' '','' quoted digits doc) + 35 = 64 * 1024
     \<and> CanonicalReviewConfig num sha parse ''filters'' (length (document_text '':'' '','' quoted digits doc)) doc = Some (doc, sha doc)
     \<and> CanonicalReviewConfig num sha parse ''filters'' (length (document_text '': '' '', '' quoted digits doc)) doc = None"
proof -
  have "sum_list (map length many_paths) = 45" by code_simp
  then have s: "sum_list (map length ((replicate n CHR 0x20 @ ''x'') # many_paths)) = n + 46" for n by simp
  have "length (document_text '':'' '','' quoted digits (wide_filters n)) = n + 203"
    "length (document_text '': '' '', '' quoted digits (wide_filters n)) = n + 249" for n
    using list_text_strings [of "(replicate n CHR 0x20 @ ''x'') # many_paths" "'':''" "'',''" digits]
      list_text_strings [of "(replicate n CHR 0x20 @ ''x'') # many_paths" "'': ''" "'', ''" digits]
    by (simp_all add: wide_filters_def quoted_def s many_paths_kept del: list_text.simps list.map)
  then have "length (document_text '':'' '','' quoted digits doc) = 65501" "length (document_text '': '' '', '' quoted digits doc) = 65547"
    by (simp_all add: doc_def)
  then show ?thesis using wide_filters_accepted [of 65501] by (simp add: doc_def CanonicalReviewConfig_def)
qed

text \<open>The model route is checked as submitted but stored in the order of its names. Names are
  matched without regard to case, so a document with \<open>enabled\<close> before \<open>Enabled\<close> is accepted as an
  enabled route and stored as a disabled one, which no worker can decode.\<close>

definition route_rest :: "(string \<times> json) list" where
  "route_rest = [(''provider'', JStr ''openai-compatible''),
     (''protocol'', JStr ''openai-chat''), (''base_url'', JStr ''https://m.example/v1''), (''model'', JStr ''m''),
     (''credential_ref'', JStr ''secret://k''), (''effort'', JStr ''low''), (''max_prompt_tokens'', JInt 8000),
     (''token_budget'', JInt 128000), (''subtask_timeout_minutes'', JInt 5)]"

definition two_faced_route :: json where
  "two_faced_route = JObj ((''enabled'', JBool False) # (''Enabled'', JBool True) # route_rest)"

definition two_faced_stored :: json where
  "two_faced_stored = JObj (sort_key fst ((''Enabled'', JBool True) # (''enabled'', JBool False) # route_rest))"

definition demo_parse :: "string \<Rightarrow> URL option" where
  "demo_parse s = Some \<lparr>u_scheme = ''https'', u_host = ''m.example'', u_user = False, u_query = '''', u_fragment = ''''\<rparr>"

lemma two_faced_canon: "canon plain_num two_faced_route = Some two_faced_stored"
  by (simp add: two_faced_route_def two_faced_stored_def route_rest_def plain_num_def)

lemma model_route_not_stable:
  "CanonicalReviewConfig plain_num (\<lambda>_. ''digest'') demo_parse ''models'' 300 two_faced_route = Some (two_faced_stored, ''digest'')
     \<and> map_option mr_enabled (DecodeModelRoute demo_parse two_faced_route) = Some True
     \<and> DecodeModelRoute demo_parse two_faced_stored = None"
proof (intro conjI)
  show enabled: "map_option mr_enabled (DecodeModelRoute demo_parse two_faced_route) = Some True" by code_simp
  then have "DecodeModelRoute demo_parse two_faced_route \<noteq> None" by auto
  then have "section_accepts demo_parse ''models'' two_faced_route two_faced_stored" by (simp add: section_accepts_def)
  then show "CanonicalReviewConfig plain_num (\<lambda>_. ''digest'') demo_parse ''models'' 300 two_faced_route
      = Some (two_faced_stored, ''digest'')"
    using two_faced_canon unfolding two_faced_route_def by (intro canonicalI) (simp_all add: ReviewConfigSection_Valid_def)
  have sorted: "two_faced_stored = JObj [(''Enabled'', JBool True), (''base_url'', JStr ''https://m.example/v1''),
     (''credential_ref'', JStr ''secret://k''), (''effort'', JStr ''low''), (''enabled'', JBool False),
     (''max_prompt_tokens'', JInt 8000), (''model'', JStr ''m''), (''protocol'', JStr ''openai-chat''),
     (''provider'', JStr ''openai-compatible''), (''subtask_timeout_minutes'', JInt 5), (''token_budget'', JInt 128000)]"
    by (simp add: two_faced_stored_def route_rest_def)
  show "DecodeModelRoute demo_parse two_faced_stored = None" unfolding sorted by code_simp
qed

end
