(* ===== verification/Review_Policy.thy ===== *)
theory Review_Policy
  imports Store_Tables Config_Canonical
begin

text \<open>
  From the findings of the engine to the published review: the category policy and the publication
  floor (\<open>src/internal/domain/review_config.go\<close>), the merge gate
  (\<open>src/internal/publisher/merge_gate.go\<close>), the recorded decision
  (\<open>src/internal/domain/review_merge_gate.go\<close>, \<open>src/internal/store/review_merge_gate_decisions.go\<close>)
  and the policy readers of the runner (\<open>src/internal/runner/execution_policy.go\<close> and
  \<open>src/internal/runner/runner.go\<close>).

  A read of an admitted snapshot is a \<open>lookup\<close>: found, missing (\<open>store.ErrNotFound\<close>) or failed. The
  readers a policy is given are optional functions, as the interfaces of the code may be nil. The
  parameters of \<open>CanonicalReviewConfig\<close> come in the record \<open>stdlib\<close>.
\<close>

section \<open>Findings and their filters\<close>

record FindingRuleReference =
  ref_key :: string
  ref_version :: string

record Finding =
  fd_path :: string
  fd_start :: int
  fd_end :: int
  fd_severity :: string
  fd_category :: string
  fd_body :: string
  fd_suggestion :: string
  fd_excerpt :: string
  fd_excerpt_start :: int
  fd_patch :: string
  fd_code :: string
  fd_refs :: "FindingRuleReference list"

fun FilterFindings :: "ReviewCategoriesConfig \<Rightarrow> Finding list \<Rightarrow> Finding list \<times> nat" where
  "FilterFindings config [] = ([], 0)"
| "FilterFindings config (f # fs) =
     (let (kept, suppressed) = FilterFindings config fs in
      case map_of config (ToLower (TrimSpace (fd_category f))) of
        None \<Rightarrow> (f # kept, suppressed)
      | Some policy \<Rightarrow>
        if \<not> cp_enabled policy \<or> reviewFindingSeverityRank (fd_severity f) < reviewFindingSeverityRank (cp_minimum policy)
        then (kept, suppressed + 1)
        else (f # kept, suppressed))"

datatype policy_error = InvalidMinimum string | InvalidBlocking string | ReaderUnavailable string | LoadFailed string
  | SnapshotInvalid string | DecodeFailed string | MutableRoute | NoResolver | CredentialFailed string

definition FilterFindingsByPublicationMinimum ::
  "Finding list \<Rightarrow> string \<Rightarrow> string \<Rightarrow> policy_error + (Finding list \<times> nat)" where
  "FilterFindingsByPublicationMinimum findings minimum blockingMinimum =
     (if minimum = '''' then Inr (findings, 0)
      else if \<not> validReviewFindingSeverity minimum then Inl (InvalidMinimum minimum)
      else if blockingMinimum \<noteq> '''' \<and> blockingMinimum \<noteq> ''off'' \<and> \<not> validReviewFindingSeverity blockingMinimum
      then Inl (InvalidBlocking blockingMinimum)
      else let minimumRank = reviewFindingSeverityRank minimum;
               blockingRank = reviewFindingSeverityRank blockingMinimum;
               hide = (\<lambda>f. let rank = reviewFindingSeverityRank (fd_severity f) in
                  rank \<noteq> 0 \<and> rank < minimumRank \<and> (blockingRank = 0 \<or> rank < blockingRank))
           in Inr (filter (\<lambda>f. \<not> hide f) findings, length (filter hide findings)))"

section \<open>The merge gate\<close>

definition ValidMergeGateSeverity :: "string \<Rightarrow> bool" where
  "ValidMergeGateSeverity value \<longleftrightarrow>
     ToLower (TrimSpace value) \<in> {''off'', ''critical'', ''high'', ''medium'', ''low''}"

definition severityRank :: "string \<Rightarrow> nat" where
  "severityRank value =
     (let v = ToLower (TrimSpace value) in
      if v = ''critical'' then 4 else if v = ''high'' then 3 else if v = ''medium'' then 2
      else if v = ''low'' then 1 else 0)"

record MergeGateVerdict =
  mg_conclusion :: string
  mg_threshold :: string
  mg_blocking :: nat

definition EvaluateMergeGate :: "Finding list \<Rightarrow> string \<Rightarrow> MergeGateVerdict" where
  "EvaluateMergeGate findings threshold =
     (let policy = ToLower (TrimSpace threshold);
          policy = (if \<not> ValidMergeGateSeverity policy then ''critical'' else policy);
          verdict = \<lparr>mg_conclusion = ''success'', mg_threshold = policy, mg_blocking = 0\<rparr>
      in if policy = ''off'' then verdict
         else let minimum = severityRank policy;
                  verdict = fold (\<lambda>f v. if severityRank (fd_severity f) \<ge> minimum
                                         then v\<lparr>mg_blocking := Suc (mg_blocking v)\<rparr> else v) findings verdict
              in if mg_blocking verdict > 0 then verdict\<lparr>mg_conclusion := ''failure''\<rparr> else verdict)"

section \<open>The recorded decision\<close>

record ReviewMergeGateDecisionInput =
  gi_enabled :: bool
  gi_threshold :: string
  gi_conclusion :: string
  gi_blocking :: int
  gi_count :: int
  gi_version :: string

text \<open>The second result of the code, the flag, is \<open>Some\<close>; callers use the input only then.\<close>

definition NormalizeReviewMergeGateDecisionInput ::
  "ReviewMergeGateDecisionInput \<Rightarrow> ReviewMergeGateDecisionInput option" where
  "NormalizeReviewMergeGateDecisionInput input =
     (let input = input\<lparr>gi_threshold := ToLower (TrimSpace (gi_threshold input)),
                       gi_conclusion := ToLower (TrimSpace (gi_conclusion input)),
                       gi_version := TrimSpace (gi_version input)\<rparr>
      in if gi_version input = '''' \<or> length (gi_version input) > 64 \<or> gi_blocking input < 0
            \<or> gi_count input < gi_blocking input then None
         else if gi_conclusion input \<noteq> ''success'' \<and> gi_conclusion input \<noteq> ''failure'' then None
         else if \<not> gi_enabled input
         then (if gi_threshold input = ''off'' \<and> gi_conclusion input = ''success'' \<and> gi_blocking input = 0
               then Some input else None)
         else if gi_threshold input \<in> {''critical'', ''high'', ''medium'', ''low''}
         then (if (gi_conclusion input = ''failure'') = (gi_blocking input > 0) then Some input else None)
         else None)"

record ReviewMergeGateDecision =
  gd_enabled :: bool
  gd_threshold :: string
  gd_conclusion :: string
  gd_blocking :: int
  gd_count :: int
  gd_sha :: string
  gd_kind :: string
  gd_ref :: string
  gd_revision :: int
  gd_version :: string
  gd_at :: gotime

definition hex_digit :: "char \<Rightarrow> bool" where
  "hex_digit c \<longleftrightarrow> CHR ''0'' \<le> c \<and> c \<le> CHR ''9'' \<or> CHR ''a'' \<le> c \<and> c \<le> CHR ''f'' \<or> CHR ''A'' \<le> c \<and> c \<le> CHR ''F''"

text \<open>\<open>hex.DecodeString\<close> succeeds on an even number of hexadecimal digits. The zero time is 0.\<close>

definition ReviewMergeGateDecision_Valid :: "ReviewMergeGateDecision \<Rightarrow> bool" where
  "ReviewMergeGateDecision_Valid d =
     (case NormalizeReviewMergeGateDecisionInput \<lparr>gi_enabled = gd_enabled d, gi_threshold = gd_threshold d,
             gi_conclusion = gd_conclusion d, gi_blocking = gd_blocking d, gi_count = gd_count d,
             gi_version = gd_version d\<rparr> of
        None \<Rightarrow> False
      | Some input \<Rightarrow>
        if gi_threshold input \<noteq> gd_threshold d \<or> gd_revision d < 0 \<or> length (gd_sha d) \<noteq> 64 \<or> gd_kind d = ''''
           \<or> gd_at d = 0 then False
        else even (length (gd_sha d)) \<and> list_all hex_digit (gd_sha d))"

text \<open>The tables the statement reads: runs by job, the general snapshot of a run, the decisions.\<close>

record Snapshot =
  sn_section :: string
  sn_kind :: string
  sn_ref :: string
  sn_revision :: int
  sn_sha :: string
  sn_len :: nat
  sn_content :: json

record gate_db =
  gt_runs :: "(uuid \<times> uuid) list"
  gt_snapshots :: "((uuid \<times> string) \<times> Snapshot) list"
  gt_minimums :: "(uuid \<times> string) list"
  gt_decisions :: "(uuid \<times> ReviewMergeGateDecision) list"
  gt_now :: gotime

definition decision_checks :: "ReviewMergeGateDecision \<Rightarrow> bool" where
  "decision_checks r \<longleftrightarrow>
     gd_threshold r \<in> {''off'', ''critical'', ''high'', ''medium'', ''low''} \<and>
     gd_conclusion r \<in> {''success'', ''failure''} \<and> 0 \<le> gd_blocking r \<and> gd_blocking r \<le> gd_count r \<and> gd_count r < 2 ^ 31 \<and>
     length (runes (gd_sha r)) = 64 \<and> gd_kind r \<in> {''default'', ''tenant'', ''repository''} \<and>
     0 \<le> gd_revision r \<and> gd_revision r < 2 ^ 31 \<and>
     length (runes (gd_version r)) \<ge> 1 \<and> length (runes (gd_version r)) \<le> 64 \<and>
     (gd_enabled r \<and> gd_threshold r \<noteq> ''off'' \<and> (gd_conclusion r = ''failure'') = (gd_blocking r > 0)
      \<or> \<not> gd_enabled r \<and> gd_threshold r = ''off'' \<and> gd_conclusion r = ''success'' \<and> gd_blocking r = 0)"

datatype gate_error = GateNotFound | GateInvalidConfig | GateStatement | GateDiffers | GateInvalidStored

definition decision_row :: "ReviewMergeGateDecisionInput \<Rightarrow> Snapshot \<Rightarrow> gotime \<Rightarrow> ReviewMergeGateDecision" where
  "decision_row input snapshot at =
     \<lparr>gd_enabled = gi_enabled input, gd_threshold = gi_threshold input, gd_conclusion = gi_conclusion input,
      gd_blocking = gi_blocking input, gd_count = gi_count input, gd_sha = sn_sha snapshot, gd_kind = sn_kind snapshot,
      gd_ref = sn_ref snapshot, gd_revision = sn_revision snapshot, gd_version = gi_version input, gd_at = at\<rparr>"

definition same_decision :: "ReviewMergeGateDecision \<Rightarrow> ReviewMergeGateDecisionInput \<Rightarrow> bool" where
  "same_decision d i \<longleftrightarrow> gd_enabled d = gi_enabled i \<and> gd_threshold d = gi_threshold i \<and> gd_conclusion d = gi_conclusion i
     \<and> gd_blocking d = gi_blocking i \<and> gd_count d = gi_count i \<and> gd_version d = gi_version i"

definition SaveReviewMergeGateDecision ::
  "gate_db \<Rightarrow> uuid \<Rightarrow> ReviewMergeGateDecisionInput \<Rightarrow> gate_db \<times> (gate_error + ReviewMergeGateDecision)" where
  "SaveReviewMergeGateDecision g job input =
     (if job = 0 then (g, Inl GateNotFound)
      else case NormalizeReviewMergeGateDecisionInput input of None \<Rightarrow> (g, Inl GateInvalidConfig)
      | Some input \<Rightarrow>
      case (case map_of (gt_runs g) job of None \<Rightarrow> None
            | Some run \<Rightarrow> map_option (Pair run) (map_of (gt_snapshots g) (run, ''general''))) of
        None \<Rightarrow> (g, Inl GateNotFound)
      | Some (run, snapshot) \<Rightarrow>
        let row = decision_row input snapshot (gt_now g)
        in if \<not> decision_checks row then (g, Inl GateStatement)
        else let (g, decision) = (case map_of (gt_decisions g) run of
               None \<Rightarrow> (g\<lparr>gt_decisions := (run, row) # gt_decisions g\<rparr>, row)
             | Some old \<Rightarrow> (g, old))
        in if \<not> same_decision decision input
           then (g, Inl GateDiffers)
           else if \<not> ReviewMergeGateDecision_Valid decision then (g, Inl GateInvalidStored)
           else (g, Inr decision))"


section \<open>Policy readers of the runner\<close>

datatype 'a lookup = Found 'a | Missing | LoadError string

record stdlib =
  sl_num :: "json \<Rightarrow> json option"
  sl_sha :: "json \<Rightarrow> string"
  sl_parse :: "string \<Rightarrow> URL option"

record ExecutionPolicy =
  ep_routes :: "(uuid \<Rightarrow> Snapshot lookup) option"
  ep_configs :: "(uuid \<Rightarrow> string \<Rightarrow> Snapshot lookup) option"
  ep_minimum :: "(uuid \<Rightarrow> string lookup) option"
  ep_secrets :: "(string \<Rightarrow> string + string) option"
  ep_strict :: bool

definition validateSnapshot :: "stdlib \<Rightarrow> ExecutionPolicy \<Rightarrow> Snapshot \<Rightarrow> string \<Rightarrow> bool" where
  "validateSnapshot sl p snapshot section =
     (if \<not> ep_strict p then True
      else case CanonicalReviewConfig (sl_num sl) (sl_sha sl) (sl_parse sl) section (sn_len snapshot) (sn_content snapshot) of
        None \<Rightarrow> False
      | Some (_, digest) \<Rightarrow> sn_section snapshot = section \<and> digest = sn_sha snapshot)"

definition configuration :: "stdlib \<Rightarrow> ExecutionPolicy \<Rightarrow> uuid \<Rightarrow> string \<Rightarrow> policy_error + Snapshot option" where
  "configuration sl p job section =
     (case ep_configs p of
        None \<Rightarrow> if ep_strict p then Inl (ReaderUnavailable section) else Inr None
      | Some reader \<Rightarrow>
        case reader job section of
          Missing \<Rightarrow> if ep_strict p then Inl (LoadFailed section) else Inr None
        | LoadError e \<Rightarrow> Inl (LoadFailed section)
        | Found snapshot \<Rightarrow>
          if validateSnapshot sl p snapshot section then Inr (Some snapshot) else Inl (SnapshotInvalid section))"

record Execution =
  ex_route :: ModelRouteConfig
  ex_token :: string

text \<open>The context that the code returns carries the execution, if there is one.\<close>

definition WithModelRoute :: "stdlib \<Rightarrow> ExecutionPolicy \<Rightarrow> uuid \<Rightarrow> policy_error + Execution option" where
  "WithModelRoute sl p job =
     (case ep_routes p of
        None \<Rightarrow> if ep_strict p then Inl (ReaderUnavailable ''models'') else Inr None
      | Some reader \<Rightarrow>
        case reader job of
          Missing \<Rightarrow> if ep_strict p then Inl (LoadFailed ''models'') else Inr None
        | LoadError e \<Rightarrow> Inl (LoadFailed ''models'')
        | Found snapshot \<Rightarrow>
          if \<not> validateSnapshot sl p snapshot ''models'' then Inl (SnapshotInvalid ''models'')
          else case DecodeModelRoute (sl_parse sl) (sn_content snapshot) of
            None \<Rightarrow> Inl (DecodeFailed ''models'')
          | Some route \<Rightarrow>
            if \<not> mr_enabled route then (if ep_strict p then Inl MutableRoute else Inr None)
            else case ep_secrets p of
              None \<Rightarrow> Inl NoResolver
            | Some resolve \<Rightarrow>
              case resolve (mr_credential route) of
                Inl e \<Rightarrow> Inl (CredentialFailed e)
              | Inr token \<Rightarrow> Inr (Some \<lparr>ex_route = route, ex_token = token\<rparr>))"

record PromptExecution =
  pe_instruction :: string
  pe_context :: string
  pe_language :: string
  pe_tokens :: int
  pe_repository :: bool

definition WithReviewPrompts :: "stdlib \<Rightarrow> ExecutionPolicy \<Rightarrow> uuid \<Rightarrow> policy_error + PromptExecution option" where
  "WithReviewPrompts sl p job =
     bind_r (configuration sl p job ''general'') (\<lambda>general.
     bind_r (case general of None \<Rightarrow> Inr (gc_language DefaultReviewGeneralConfig)
             | Some snapshot \<Rightarrow>
               case DecodeReviewGeneralConfig (sn_content snapshot) of None \<Rightarrow> Inl (DecodeFailed ''general'')
               | Some config \<Rightarrow> Inr (gc_language config)) (\<lambda>language.
     bind_r (configuration sl p job ''prompts'') (\<lambda>found.
     case found of
       None \<Rightarrow>
         if general = None then Inr None
         else Inr (Some \<lparr>pe_instruction = '''', pe_context = '''', pe_language = language, pe_tokens = 0, pe_repository = False\<rparr>)
     | Some snapshot \<Rightarrow>
       case DecodeReviewPromptConfig (sn_content snapshot) of None \<Rightarrow> Inl (DecodeFailed ''prompts'')
       | Some prompts \<Rightarrow> Inr (Some \<lparr>pe_instruction = pc_instruction prompts, pe_context = pc_context prompts,
           pe_language = language, pe_tokens = pc_tokens prompts, pe_repository = pc_repository prompts\<rparr>))))"

text \<open>A nil policy has no category.\<close>

definition CategoryPolicy :: "stdlib \<Rightarrow> ExecutionPolicy \<Rightarrow> uuid \<Rightarrow> policy_error + ReviewCategoriesConfig" where
  "CategoryPolicy sl p job =
     bind_r (configuration sl p job ''categories'') (\<lambda>found.
     case found of None \<Rightarrow> Inr []
     | Some snapshot \<Rightarrow>
       case DecodeReviewCategoriesConfig (sn_content snapshot) of None \<Rightarrow> Inl (DecodeFailed ''categories'')
       | Some policy \<Rightarrow> Inr policy)"

definition ApplyCategoryPolicy :: "stdlib \<Rightarrow> ExecutionPolicy \<Rightarrow> uuid \<Rightarrow> Finding list \<Rightarrow> policy_error + Finding list" where
  "ApplyCategoryPolicy sl p job findings =
     bind_r (CategoryPolicy sl p job) (\<lambda>policy. Inr (fst (FilterFindings policy findings)))"

definition ApplyPublicationMinimum :: "ExecutionPolicy \<Rightarrow> uuid \<Rightarrow> Finding list \<Rightarrow> string \<Rightarrow> policy_error + Finding list" where
  "ApplyPublicationMinimum p job findings blockingMinimum =
     (case ep_minimum p of
        None \<Rightarrow> if ep_strict p then Inl (ReaderUnavailable ''publication minimum'') else Inr findings
      | Some reader \<Rightarrow>
        case reader job of
          Missing \<Rightarrow> if ep_strict p then Inl (LoadFailed ''publication minimum'') else Inr findings
        | LoadError e \<Rightarrow> Inl (LoadFailed ''publication minimum'')
        | Found minimum \<Rightarrow>
          case FilterFindingsByPublicationMinimum findings minimum blockingMinimum of
            Inl e \<Rightarrow> Inl e
          | Inr (kept, suppressed) \<Rightarrow> Inr kept)"

section \<open>The store's readers and the publication step\<close>

definition ReviewConfigSnapshotForJob :: "gate_db \<Rightarrow> uuid \<Rightarrow> string \<Rightarrow> Snapshot lookup" where
  "ReviewConfigSnapshotForJob g job section =
     (if job = 0 \<or> \<not> ReviewConfigSection_Valid section then LoadError ''invalid review configuration''
      else case map_of (gt_runs g) job of None \<Rightarrow> Missing
      | Some run \<Rightarrow> case map_of (gt_snapshots g) (run, section) of None \<Rightarrow> Missing | Some snapshot \<Rightarrow> Found snapshot)"

definition ModelRouteForJob :: "gate_db \<Rightarrow> uuid \<Rightarrow> Snapshot lookup" where
  "ModelRouteForJob g job = ReviewConfigSnapshotForJob g job ''models''"

definition PublicationMinimumForJob :: "gate_db \<Rightarrow> uuid \<Rightarrow> string lookup" where
  "PublicationMinimumForJob g job =
     (if job = 0 then Missing
      else case map_of (gt_runs g) job of None \<Rightarrow> Missing
      | Some run \<Rightarrow> case map_of (gt_minimums g) run of None \<Rightarrow> Found '''' | Some minimum \<Rightarrow> Found minimum)"

definition executionPolicy :: "gate_db \<Rightarrow> (string \<Rightarrow> string + string) option \<Rightarrow> ExecutionPolicy" where
  "executionPolicy g secrets = \<lparr>ep_routes = Some (ModelRouteForJob g), ep_configs = Some (ReviewConfigSnapshotForJob g),
     ep_minimum = Some (PublicationMinimumForJob g), ep_secrets = secrets, ep_strict = False\<rparr>"

definition defaultGeneralConfig :: "string \<Rightarrow> ReviewGeneralConfig" where
  "defaultGeneralConfig severity =
     (if severity = ''off'' then DefaultReviewGeneralConfig\<lparr>gc_gate := False\<rparr>
      else if ValidMergeGateSeverity severity then DefaultReviewGeneralConfig\<lparr>gc_blocking := severity\<rparr>
      else DefaultReviewGeneralConfig)"

definition generalConfigForJob :: "gate_db \<Rightarrow> string \<Rightarrow> uuid \<Rightarrow> policy_error + ReviewGeneralConfig" where
  "generalConfigForJob g severity job =
     (case ReviewConfigSnapshotForJob g job ''general'' of
        Missing \<Rightarrow> Inr (defaultGeneralConfig severity)
      | LoadError e \<Rightarrow> Inl (LoadFailed ''general'')
      | Found snapshot \<Rightarrow>
        case DecodeReviewGeneralConfig (sn_content snapshot) of None \<Rightarrow> Inl (DecodeFailed ''general'')
        | Some config \<Rightarrow> Inr config)"

text \<open>The verdict of \<open>reviewResult\<close>.\<close>

definition review_gate :: "gate_db \<Rightarrow> string \<Rightarrow> uuid \<Rightarrow> Finding list \<Rightarrow> policy_error + MergeGateVerdict" where
  "review_gate g severity job findings =
     bind_r (generalConfigForJob g severity job) (\<lambda>general.
       Inr (EvaluateMergeGate findings (if \<not> gc_gate general then ''off'' else gc_blocking general)))"

definition persistMergeGateDecision ::
  "gate_db \<Rightarrow> uuid \<Rightarrow> MergeGateVerdict \<Rightarrow> Finding list \<Rightarrow> gate_db \<times> (gate_error + ReviewMergeGateDecision)" where
  "persistMergeGateDecision g job gate findings =
     SaveReviewMergeGateDecision g job \<lparr>gi_enabled = (mg_threshold gate \<noteq> ''off''), gi_threshold = mg_threshold gate,
       gi_conclusion = mg_conclusion gate, gi_blocking = int (mg_blocking gate), gi_count = int (length findings),
       gi_version = ''v1''\<rparr>"

datatype publish_error = PolicyFailed policy_error | DecisionFailed gate_error

text \<open>The steps of \<open>process\<close> and \<open>resumePublication\<close> between the findings and the provider: the
  verdict, the recorded decision and the findings to publish.\<close>

definition publication ::
  "gate_db \<Rightarrow> string \<Rightarrow> uuid \<Rightarrow> Finding list \<Rightarrow> gate_db \<times> (publish_error + MergeGateVerdict \<times> Finding list \<times> nat)" where
  "publication g severity job findings =
     (case review_gate g severity job findings of Inl e \<Rightarrow> (g, Inl (PolicyFailed e))
      | Inr gate \<Rightarrow>
        case persistMergeGateDecision g job gate findings of
          (g, Inl e) \<Rightarrow> (g, Inl (DecisionFailed e))
        | (g, Inr decision) \<Rightarrow>
          case ApplyPublicationMinimum (executionPolicy g None) job findings (mg_threshold gate) of
            Inl e \<Rightarrow> (g, Inl (PolicyFailed e))
          | Inr published \<Rightarrow> (g, Inr (gate, published, length findings - length published)))"


section \<open>The gate and the filters as counts\<close>

lemma severityRank_eq: "severityRank = reviewFindingSeverityRank"
  by (rule ext) (simp add: severityRank_def reviewFindingSeverityRank_def Let_def)

definition gate_policy :: "string \<Rightarrow> string" where
  "gate_policy threshold =
     (let policy = ToLower (TrimSpace threshold) in if \<not> ValidMergeGateSeverity policy then ''critical'' else policy)"

abbreviation blocks :: "string \<Rightarrow> Finding \<Rightarrow> bool" where
  "blocks policy f \<equiv> severityRank policy \<le> severityRank (fd_severity f)"

lemma gate_fold:
  "fold (\<lambda>f v. if severityRank (fd_severity f) \<ge> minimum then v\<lparr>mg_blocking := Suc (mg_blocking v)\<rparr> else v) findings v
   = v\<lparr>mg_blocking := mg_blocking v + length (filter (\<lambda>f. minimum \<le> severityRank (fd_severity f)) findings)\<rparr>"
  by (induction findings arbitrary: v) auto

lemma EvaluateMergeGate_count:
  "EvaluateMergeGate findings threshold =
     (let policy = gate_policy threshold; n = (if policy = ''off'' then 0 else length (filter (blocks policy) findings))
      in \<lparr>mg_conclusion = (if n = 0 then ''success'' else ''failure''), mg_threshold = policy, mg_blocking = n\<rparr>)"
  unfolding EvaluateMergeGate_def gate_fold gate_policy_def [symmetric] Let_def
  by (cases "gate_policy threshold = ''off''") (simp_all add: gate_policy_def Let_def del: filter_empty_conv)

definition severities :: "string list" where "severities = [''critical'', ''high'', ''medium'', ''low'']"

lemma severities_fixed:
  "s \<in> insert ''off'' (set severities) \<Longrightarrow> ToLower (TrimSpace s) = s \<and> ValidMergeGateSeverity s"
proof -
  have "list_all (\<lambda>s. ToLower (TrimSpace s) = s \<and> ValidMergeGateSeverity s) (''off'' # severities)" by code_simp
  then show "s \<in> insert ''off'' (set severities) \<Longrightarrow> ?thesis" by (auto simp: list_all_iff)
qed

lemma gate_policy_in: "gate_policy t \<in> insert ''off'' (set severities)"
  by (auto simp: gate_policy_def Let_def ValidMergeGateSeverity_def severities_def)

lemma gate_policy_again [simp]: "gate_policy (gate_policy t) = gate_policy t"
  using severities_fixed [OF gate_policy_in [of t]] by (simp add: gate_policy_def [of "gate_policy t"] Let_def)

lemma gate_again: "EvaluateMergeGate findings (mg_threshold (EvaluateMergeGate fs t)) = EvaluateMergeGate findings t"
  by (simp add: EvaluateMergeGate_count Let_def)

lemma verdict_conclusion: "mg_conclusion (EvaluateMergeGate fs t) = (if mg_blocking (EvaluateMergeGate fs t) = 0 then ''success'' else ''failure'')"
  by (simp add: EvaluateMergeGate_count Let_def)

lemma verdict_off: "mg_threshold (EvaluateMergeGate fs t) = ''off'' \<Longrightarrow> mg_blocking (EvaluateMergeGate fs t) = 0"
  by (simp add: EvaluateMergeGate_count Let_def)

lemma verdict_blocking_le: "mg_blocking (EvaluateMergeGate fs t) \<le> length fs"
  by (simp add: EvaluateMergeGate_count Let_def)

lemma verdict_threshold_in: "mg_threshold (EvaluateMergeGate fs t) \<in> insert ''off'' (set severities)"
  using gate_policy_in by (simp add: EvaluateMergeGate_count Let_def)

text \<open>The publication floor hides no finding that blocks and none of unknown severity.\<close>

lemma publication_filter:
  assumes "FilterFindingsByPublicationMinimum findings minimum (gate_policy t) = Inr (kept, n)"
  shows "\<exists>P. kept = filter P findings \<and> n = length (filter (\<lambda>f. \<not> P f) findings)
    \<and> (\<forall>f. severityRank (fd_severity f) = 0 \<longrightarrow> P f)
    \<and> (gate_policy t \<noteq> ''off'' \<longrightarrow> (\<forall>f. blocks (gate_policy t) f \<longrightarrow> P f))"
proof (cases "minimum = ''''")
  case True
  then show ?thesis using assms by (intro exI [of _ "\<lambda>_. True"]) (simp add: FilterFindingsByPublicationMinimum_def)
next
  case False
  let ?P = "\<lambda>f. \<not> (severityRank (fd_severity f) \<noteq> 0 \<and> severityRank (fd_severity f) < severityRank minimum
     \<and> (severityRank (gate_policy t) = 0 \<or> severityRank (fd_severity f) < severityRank (gate_policy t)))"
  have rank: "severityRank (gate_policy t) > 0" if "gate_policy t \<noteq> ''off''"
  proof -
    have "list_all (\<lambda>s. severityRank s > 0) severities" by code_simp
    then show ?thesis using gate_policy_in [of t] that by (auto simp: list_all_iff)
  qed
  have "kept = filter ?P findings \<and> n = length (filter (\<lambda>f. \<not> ?P f) findings)"
    using assms False unfolding FilterFindingsByPublicationMinimum_def severityRank_eq Let_def
    by (auto simp: conj_ac split: if_splits)
  moreover have "gate_policy t \<noteq> ''off'' \<longrightarrow> (\<forall>f. blocks (gate_policy t) f \<longrightarrow> ?P f)" using rank by auto
  ultimately show ?thesis by (intro exI [of _ ?P]) auto
qed

lemma gate_of_filtered:
  assumes "gate_policy t \<noteq> ''off'' \<Longrightarrow> \<forall>f. blocks (gate_policy t) f \<longrightarrow> P f"
  shows "EvaluateMergeGate (filter P fs) t = EvaluateMergeGate fs t"
proof (cases "gate_policy t = ''off''")
  case True
  then show ?thesis by (simp add: EvaluateMergeGate_count)
next
  case False
  then have "filter (blocks (gate_policy t)) (filter P fs) = filter (blocks (gate_policy t)) fs"
    using assms by (auto intro: filter_cong)
  then show ?thesis by (simp add: EvaluateMergeGate_count Let_def)
qed

text \<open>The decision that the runner records is always one the store accepts.\<close>

definition gate_input :: "MergeGateVerdict \<Rightarrow> nat \<Rightarrow> ReviewMergeGateDecisionInput" where
  "gate_input gate n = \<lparr>gi_enabled = (mg_threshold gate \<noteq> ''off''), gi_threshold = mg_threshold gate,
     gi_conclusion = mg_conclusion gate, gi_blocking = int (mg_blocking gate), gi_count = int n, gi_version = ''v1''\<rparr>"

lemma gate_input_accepted:
  "NormalizeReviewMergeGateDecisionInput (gate_input (EvaluateMergeGate fs t) (length fs))
   = Some (gate_input (EvaluateMergeGate fs t) (length fs))"
proof -
  let ?v = "EvaluateMergeGate fs t"
  have v1: "TrimSpace ''v1'' = ''v1''" by code_simp
  have thr: "ToLower (TrimSpace (mg_threshold ?v)) = mg_threshold ?v"
    using severities_fixed [OF verdict_threshold_in] by blast
  have con: "ToLower (TrimSpace ''success'') = ''success''" "ToLower (TrimSpace ''failure'') = ''failure''" by code_simp+
  have "ToLower (TrimSpace (mg_conclusion ?v)) = mg_conclusion ?v" using con by (simp add: verdict_conclusion)
  then have same: "(gate_input ?v (length fs))\<lparr>gi_threshold := ToLower (TrimSpace (gi_threshold (gate_input ?v (length fs)))),
      gi_conclusion := ToLower (TrimSpace (gi_conclusion (gate_input ?v (length fs)))),
      gi_version := TrimSpace (gi_version (gate_input ?v (length fs)))\<rparr> = gate_input ?v (length fs)"
    using thr v1 by (simp add: gate_input_def)
  show ?thesis
    unfolding NormalizeReviewMergeGateDecisionInput_def same Let_def
    using verdict_threshold_in [of fs t] verdict_blocking_le [of fs t] verdict_off [of fs t]
    by (auto simp: gate_input_def verdict_conclusion severities_def)
qed


section \<open>The decision of a run\<close>

lemma persist_input: "persistMergeGateDecision g job gate fs = SaveReviewMergeGateDecision g job (gate_input gate (length fs))"
  by (simp add: persistMergeGateDecision_def gate_input_def)

lemma save_cases:
  assumes "SaveReviewMergeGateDecision g job input = (g', r)"
  shows "g' = g \<and> (\<forall>d. r = Inr d \<longrightarrow> (\<exists>run. map_of (gt_runs g) job = Some run \<and> map_of (gt_decisions g) run = Some d))
   \<or> (\<exists>run row. map_of (gt_runs g) job = Some run \<and> map_of (gt_decisions g) run = None
        \<and> g' = g\<lparr>gt_decisions := (run, row) # gt_decisions g\<rparr> \<and> (\<forall>d. r = Inr d \<longrightarrow> d = row))"
  using assms unfolding SaveReviewMergeGateDecision_def
  by (auto simp: Let_def split: if_splits option.splits prod.splits)

lemma save_matches:
  assumes "SaveReviewMergeGateDecision g job input = (g', Inr d)" "NormalizeReviewMergeGateDecisionInput input = Some input"
  shows "same_decision d input"
  using assms unfolding SaveReviewMergeGateDecision_def
  by (auto simp: Let_def split: if_splits option.splits prod.splits)

lemma save_keeps:
  assumes "SaveReviewMergeGateDecision g job input = (g', r)" "map_of (gt_decisions g) run = Some d"
  shows "map_of (gt_decisions g') run = Some d"
  using save_cases [OF assms(1)] assms(2) by auto

lemma save_found:
  assumes "SaveReviewMergeGateDecision g job input = (g', Inr d)"
  shows "\<exists>run. map_of (gt_runs g) job = Some run \<and> map_of (gt_decisions g') run = Some d"
  using save_cases [OF assms] by auto

lemma save_rest:
  assumes "SaveReviewMergeGateDecision g job input = (g', r)"
  shows "gt_runs g' = gt_runs g" "gt_snapshots g' = gt_snapshots g" "gt_minimums g' = gt_minimums g" "gt_now g' = gt_now g"
  using save_cases [OF assms] by auto

lemma publication_cases:
  assumes "publication g severity job findings = (g', r)"
  obtains (policy) e where "review_gate g severity job findings = Inl e" "g' = g" "r = Inl (PolicyFailed e)"
  | (decision) gate e where "review_gate g severity job findings = Inr gate"
      "SaveReviewMergeGateDecision g job (gate_input gate (length findings)) = (g', Inl e)" "r = Inl (DecisionFailed e)"
  | (filter) gate d e where "review_gate g severity job findings = Inr gate"
      "SaveReviewMergeGateDecision g job (gate_input gate (length findings)) = (g', Inr d)"
      "ApplyPublicationMinimum (executionPolicy g' None) job findings (mg_threshold gate) = Inl e" "r = Inl (PolicyFailed e)"
  | (ok) gate d published where "review_gate g severity job findings = Inr gate"
      "SaveReviewMergeGateDecision g job (gate_input gate (length findings)) = (g', Inr d)"
      "ApplyPublicationMinimum (executionPolicy g' None) job findings (mg_threshold gate) = Inr published"
      "r = Inr (gate, published, length findings - length published)"
  using assms unfolding publication_def persist_input by (auto split: sum.splits prod.splits)

lemma review_gate_verdict: "review_gate g severity job findings = Inr gate \<Longrightarrow> \<exists>t. gate = EvaluateMergeGate findings t"
  by (auto simp: review_gate_def bind_r_Inr_iff)

lemma apply_minimum_filter:
  assumes "ApplyPublicationMinimum (executionPolicy g None) job findings (gate_policy t) = Inr published"
  shows "\<exists>P. published = filter P findings \<and> (\<forall>f. severityRank (fd_severity f) = 0 \<longrightarrow> P f)
    \<and> (gate_policy t \<noteq> ''off'' \<longrightarrow> (\<forall>f. blocks (gate_policy t) f \<longrightarrow> P f))"
proof -
  have "published = filter (\<lambda>_. True) findings \<or>
     (\<exists>minimum n. FilterFindingsByPublicationMinimum findings minimum (gate_policy t) = Inr (published, n))"
    using assms by (auto simp: ApplyPublicationMinimum_def executionPolicy_def split: lookup.splits sum.splits)
  then show ?thesis using publication_filter by (elim disjE exE) (blast, metis)
qed

section \<open>Properties\<close>

text \<open>C32. What is published agrees with the gate: when a review is published, the verdict is the one
  recorded for the run, the published findings give the same verdict as all findings, they are
  the findings in their order with some left out, every blocking finding and every finding of
  unknown severity is among them, and the number reported as suppressed is the number left out.\<close>

theorem publication_agrees_with_gate:
  assumes "publication g severity job findings = (g', Inr (gate, published, suppressed))"
  shows "(\<exists>run d. map_of (gt_runs g) job = Some run \<and> map_of (gt_decisions g') run = Some d
       \<and> gd_threshold d = mg_threshold gate \<and> gd_conclusion d = mg_conclusion gate
       \<and> gd_blocking d = int (mg_blocking gate) \<and> gd_count d = int (length findings))
   \<and> EvaluateMergeGate published (mg_threshold gate) = gate
   \<and> (\<exists>P. published = filter P findings \<and> suppressed = length (filter (\<lambda>f. \<not> P f) findings)
       \<and> (\<forall>f. severityRank (fd_severity f) = 0 \<or> mg_threshold gate \<noteq> ''off'' \<and> blocks (mg_threshold gate) f \<longrightarrow> P f))"
  using assms
proof (cases rule: publication_cases)
  case (ok gate' d published')
  then have eqs: "gate' = gate" "published' = published" "suppressed = length findings - length published" by auto
  obtain t where t: "gate = EvaluateMergeGate findings t" using review_gate_verdict ok(1) eqs(1) by blast
  then have thr: "mg_threshold gate = gate_policy t" by (simp add: EvaluateMergeGate_count Let_def)
  obtain P where P: "published = filter P findings" "\<forall>f. severityRank (fd_severity f) = 0 \<longrightarrow> P f"
    "gate_policy t \<noteq> ''off'' \<longrightarrow> (\<forall>f. blocks (gate_policy t) f \<longrightarrow> P f)"
    using apply_minimum_filter [of g' job findings t published] ok(3) eqs thr by auto
  have "EvaluateMergeGate published (mg_threshold gate) = gate"
    using gate_of_filtered [of t P findings] P t by (simp add: gate_again)
  moreover have "suppressed = length (filter (\<lambda>f. \<not> P f) findings)"
    using eqs(3) P(1) sum_length_filter_compl [of P findings] by simp
  moreover obtain run where "map_of (gt_runs g) job = Some run" "map_of (gt_decisions g') run = Some d"
    using save_found ok(2) by blast
  moreover have "same_decision d (gate_input gate (length findings))"
    using save_matches ok(2) gate_input_accepted t eqs(1) by blast
  ultimately show ?thesis using P thr by (auto simp: same_decision_def gate_input_def)
qed auto


definition demo_finding :: Finding where
  "demo_finding = \<lparr>fd_path = ''a.go'', fd_start = 1, fd_end = 2, fd_severity = ''Critical'', fd_category = ''bug'', fd_body = ''b'',
     fd_suggestion = '''', fd_excerpt = '''', fd_excerpt_start = 0, fd_patch = '''', fd_code = '''', fd_refs = []\<rparr>"

definition demo_findings :: "Finding list" where
  "demo_findings = [demo_finding, demo_finding\<lparr>fd_severity := ''low'', fd_body := ''c''\<rparr>, demo_finding\<lparr>fd_severity := ''style''\<rparr>]"

definition demo_gate :: gate_db where
  "demo_gate = \<lparr>gt_runs = [(5, 7)],
     gt_snapshots = [((7, ''general''), \<lparr>sn_section = ''general'', sn_kind = ''default'', sn_ref = '''', sn_revision = 0,
        sn_sha = replicate 64 (CHR ''a''), sn_len = 61, sn_content = JObj [(''minimum_blocking_severity'', JStr ''high'')]\<rparr>)],
     gt_minimums = [(7, ''high'')], gt_decisions = [], gt_now = 9\<rparr>"

definition demo_verdict :: MergeGateVerdict where
  "demo_verdict = \<lparr>mg_conclusion = ''failure'', mg_threshold = ''high'', mg_blocking = 1\<rparr>"

text \<open>A recorded decision is final: whatever is published for whichever job later, the decision
  of a run stays as it is, and a publication of that run succeeds only with the same verdict on
  the same number of findings.\<close>

theorem decision_never_rewritten:
  assumes "map_of (gt_decisions g) run = Some d" and "publication g severity job findings = (g', r)"
  shows "map_of (gt_decisions g') run = Some d
    \<and> (\<forall>gate published n. map_of (gt_runs g) job = Some run \<and> r = Inr (gate, published, n) \<longrightarrow>
         gd_threshold d = mg_threshold gate \<and> gd_conclusion d = mg_conclusion gate
         \<and> gd_blocking d = int (mg_blocking gate) \<and> gd_count d = int (length findings))"
  using assms(2)
proof (cases rule: publication_cases)
  case policy
  then show ?thesis using assms by auto
next
  case decision
  then show ?thesis using save_keeps assms(1) by blast
next
  case filter
  then show ?thesis using save_keeps assms(1) by blast
next
  case (ok gate d' published)
  have keep: "map_of (gt_decisions g') run = Some d" using save_keeps ok(2) assms(1) by blast
  moreover have "d' = d" if "map_of (gt_runs g) job = Some run"
    using save_found [OF ok(2)] that keep by auto
  moreover have "same_decision d' (gate_input gate (length findings))"
    using save_matches ok(2) gate_input_accepted review_gate_verdict [OF ok(1)] by blast
  ultimately show ?thesis using ok(4) by (auto simp: same_decision_def gate_input_def)
qed

text \<open>The conditions under which a review can be published: the run exists and has a general
  snapshot that decodes and whose provenance the columns accept, its publication floor is a
  severity, and no decision with other content is recorded.\<close>

definition publishable :: "gate_db \<Rightarrow> uuid \<Rightarrow> bool" where
  "publishable g job \<longleftrightarrow> job \<noteq> 0 \<and> gt_now g \<noteq> 0 \<and>
     (case map_of (gt_runs g) job of None \<Rightarrow> False
      | Some run \<Rightarrow>
        (case map_of (gt_snapshots g) (run, ''general'') of None \<Rightarrow> False
         | Some s \<Rightarrow> DecodeReviewGeneralConfig (sn_content s) \<noteq> None \<and> length (sn_sha s) = 64 \<and> list_all hex_digit (sn_sha s)
             \<and> sn_kind s \<in> {''default'', ''tenant'', ''repository''} \<and> 0 \<le> sn_revision s \<and> sn_revision s < 2 ^ 31) \<and>
        (case map_of (gt_minimums g) run of None \<Rightarrow> True | Some m \<Rightarrow> validReviewFindingSeverity m) \<and>
        map_of (gt_decisions g) run = None)"

lemma hex_is_ascii: "list_all hex_digit s \<Longrightarrow> is_ascii s"
  by (auto simp: list_all_iff is_ascii_def hex_digit_def less_eq_char_def)

lemma gate_row_valid:
  fixes s :: Snapshot
  assumes "gate = EvaluateMergeGate fs t" "length (sn_sha s) = 64" "list_all hex_digit (sn_sha s)"
    "sn_kind s \<in> {''default'', ''tenant'', ''repository''}" "0 \<le> sn_revision s" "sn_revision s < 2 ^ 31"
    "length fs < 2 ^ 31" "at \<noteq> 0"
  shows "decision_checks (decision_row (gate_input gate (length fs)) s at)"
    and "ReviewMergeGateDecision_Valid (decision_row (gate_input gate (length fs)) s at)"
proof -
  let ?row = "decision_row (gate_input gate (length fs)) s at"
  have sha: "length (runes (sn_sha s)) = 64" using hex_is_ascii runes_ascii assms(2,3) by force
  have v1: "length (runes ''v1'') = 2" by code_simp
  show "decision_checks ?row"
    using assms sha v1 verdict_threshold_in [of fs t] verdict_blocking_le [of fs t] verdict_off [of fs t]
    by (auto simp: decision_checks_def decision_row_def gate_input_def verdict_conclusion severities_def)
  have in_eq: "\<lparr>gi_enabled = gd_enabled ?row, gi_threshold = gd_threshold ?row, gi_conclusion = gd_conclusion ?row,
      gi_blocking = gd_blocking ?row, gi_count = gd_count ?row, gi_version = gd_version ?row\<rparr> = gate_input gate (length fs)"
    by (simp add: decision_row_def gate_input_def)
  show "ReviewMergeGateDecision_Valid ?row"
    unfolding ReviewMergeGateDecision_Valid_def in_eq using gate_input_accepted [of fs t] assms
    by (auto simp: decision_row_def gate_input_def)
qed


lemma save_accepts:
  fixes s :: Snapshot
  assumes "gate = EvaluateMergeGate fs t" "length (sn_sha s) = 64" "list_all hex_digit (sn_sha s)"
    "sn_kind s \<in> {''default'', ''tenant'', ''repository''}" "0 \<le> sn_revision s" "sn_revision s < 2 ^ 31"
    "length fs < 2 ^ 31" "gt_now g \<noteq> 0" "job \<noteq> 0" "map_of (gt_runs g) job = Some run"
    "map_of (gt_snapshots g) (run, ''general'') = Some s"
    "map_of (gt_decisions g) run \<in> {None, Some (decision_row (gate_input gate (length fs)) s (gt_now g))}"
  defines "row \<equiv> decision_row (gate_input gate (length fs)) s (gt_now g)"
  shows "SaveReviewMergeGateDecision g job (gate_input gate (length fs)) =
     (case map_of (gt_decisions g) run of None \<Rightarrow> g\<lparr>gt_decisions := (run, row) # gt_decisions g\<rparr> | Some _ \<Rightarrow> g, Inr row)"
proof -
  have norm: "NormalizeReviewMergeGateDecisionInput (gate_input gate (length fs)) = Some (gate_input gate (length fs))"
    using gate_input_accepted assms(1) by blast
  note ok = gate_row_valid [OF assms(1-8)]
  have "same_decision row (gate_input gate (length fs))" by (simp add: row_def same_decision_def decision_row_def)
  then show ?thesis
    using ok assms(9-12) norm unfolding SaveReviewMergeGateDecision_def row_def [symmetric]
    by (cases "map_of (gt_decisions g) run") (simp_all add: Let_def flip: row_def)
qed

lemma apply_minimum_total:
  assumes "job \<noteq> 0" "map_of (gt_runs g) job = Some run"
    "case map_of (gt_minimums g) run of None \<Rightarrow> True | Some m \<Rightarrow> validReviewFindingSeverity m"
  shows "\<exists>published. ApplyPublicationMinimum (executionPolicy g None) job fs (mg_threshold (EvaluateMergeGate fs t)) = Inr published"
proof -
  have "list_all (\<lambda>s. validReviewFindingSeverity s) severities" by code_simp
  then have "mg_threshold (EvaluateMergeGate fs t) \<noteq> ''off'' \<Longrightarrow> validReviewFindingSeverity (mg_threshold (EvaluateMergeGate fs t))"
    using verdict_threshold_in [of fs t] by (auto simp: list_all_iff)
  then show ?thesis
    using assms
    by (auto simp: ApplyPublicationMinimum_def executionPolicy_def PublicationMinimumForJob_def
        FilterFindingsByPublicationMinimum_def Let_def split: option.splits)
qed

text \<open>C33. A review of a run that was admitted with its configuration is always published: its
  decision is recorded, and a worker that is restarted and publishes the same findings again gets
  the same verdict and the same published findings and changes nothing.\<close>

theorem publication_goes_through:
  assumes "publishable g job" "length findings < 2 ^ 31"
  shows "\<exists>g' gate published n. publication g severity job findings = (g', Inr (gate, published, n))
     \<and> publication g' severity job findings = (g', Inr (gate, published, n))"
proof -
  obtain run s where run: "job \<noteq> 0" "gt_now g \<noteq> 0" "map_of (gt_runs g) job = Some run"
    "map_of (gt_snapshots g) (run, ''general'') = Some s" "map_of (gt_decisions g) run = None"
    "case map_of (gt_minimums g) run of None \<Rightarrow> True | Some m \<Rightarrow> validReviewFindingSeverity m"
    and s: "DecodeReviewGeneralConfig (sn_content s) \<noteq> None" "length (sn_sha s) = 64" "list_all hex_digit (sn_sha s)"
    "sn_kind s \<in> {''default'', ''tenant'', ''repository''}" "0 \<le> sn_revision s" "sn_revision s < 2 ^ 31"
    using assms(1) by (auto simp: publishable_def split: option.splits)
  have general: "ReviewConfigSection_Valid ''general''" by (simp add: ReviewConfigSection_Valid_def)
  obtain t where t: "\<And>h. gt_runs h = gt_runs g \<Longrightarrow> gt_snapshots h = gt_snapshots g \<Longrightarrow>
      review_gate h severity job findings = Inr (EvaluateMergeGate findings t)"
    using run(1,3,4) s(1) general
    by (auto simp: review_gate_def generalConfigForJob_def ReviewConfigSnapshotForJob_def)
  let ?gate = "EvaluateMergeGate findings t"
  let ?row = "decision_row (gate_input ?gate (length findings)) s (gt_now g)"
  let ?g = "g\<lparr>gt_decisions := (run, ?row) # gt_decisions g\<rparr>"
  note save = save_accepts [OF refl s(2-6) assms(2)]
  have first: "SaveReviewMergeGateDecision g job (gate_input ?gate (length findings)) = (?g, Inr ?row)"
    using save [of g job run t] run by simp
  have second: "SaveReviewMergeGateDecision ?g job (gate_input ?gate (length findings)) = (?g, Inr ?row)"
    using save [of ?g job run t] run by simp
  obtain published where published: "ApplyPublicationMinimum (executionPolicy ?g None) job findings (mg_threshold ?gate) = Inr published"
    using apply_minimum_total [of job ?g run findings t] run by auto
  have "publication g severity job findings = (?g, Inr (?gate, published, length findings - length published))"
    unfolding publication_def persist_input t [OF refl refl] by (simp add: first published)
  moreover have "publication ?g severity job findings = (?g, Inr (?gate, published, length findings - length published))"
    unfolding publication_def persist_input using t [of ?g] by (simp add: second published)
  ultimately show ?thesis by blast
qed

theorem publication_goes_through_witness:
  "\<exists>g' gate published n. publication demo_gate ''critical'' 5 demo_findings = (g', Inr (gate, published, n))
     \<and> publication g' ''critical'' 5 demo_findings = (g', Inr (gate, published, n))"
proof (rule publication_goes_through)
  have "DecodeReviewGeneralConfig (JObj [(''minimum_blocking_severity'', JStr ''high'')]) \<noteq> None" "validReviewFindingSeverity ''high''" "hex_digit (CHR ''a'')" by code_simp+
  then show "publishable demo_gate 5" by (auto simp: publishable_def demo_gate_def list_all_iff)
qed (simp add: demo_findings_def)

lemma demo_publication:
  "publication demo_gate ''critical'' 5 demo_findings =
     (demo_gate\<lparr>gt_decisions := [(7, decision_row (gate_input demo_verdict 3) (snd (hd (gt_snapshots demo_gate))) 9)]\<rparr>,
      Inr (demo_verdict, [demo_finding, demo_finding\<lparr>fd_severity := ''style''\<rparr>], 1))"
  by code_simp

theorem publication_agrees_with_gate_witness:
  "EvaluateMergeGate [demo_finding, demo_finding\<lparr>fd_severity := ''style''\<rparr>] ''high'' = demo_verdict"
  using publication_agrees_with_gate [OF demo_publication] by (simp add: demo_verdict_def)

theorem decision_never_rewritten_witness:
  "map_of (gt_decisions (fst (publication (fst (publication demo_gate ''critical'' 5 demo_findings)) ''off'' 5 []))) 7
     = Some (decision_row (gate_input demo_verdict 3) (snd (hd (gt_snapshots demo_gate))) 9)"
proof -
  have "map_of (gt_decisions (fst (publication demo_gate ''critical'' 5 demo_findings))) 7
     = Some (decision_row (gate_input demo_verdict 3) (snd (hd (gt_snapshots demo_gate))) 9)"
    by (simp add: demo_publication)
  from decision_never_rewritten [OF this surjective_pairing] show ?thesis by blast
qed

text \<open>C34. A run that was admitted without a general snapshot, which the policy readers still serve
  with the deployment's defaults, is never published: recording its decision fails, for any
  findings.\<close>

theorem unsnapshotted_run_never_published:
  assumes "job \<noteq> 0" "map_of (gt_runs g) job = Some run" "map_of (gt_snapshots g) (run, ''general'') = None"
  shows "generalConfigForJob g severity job = Inr (defaultGeneralConfig severity)
     \<and> publication g severity job findings = (g, Inl (DecisionFailed GateNotFound))"
proof -
  have general: "generalConfigForJob g severity job = Inr (defaultGeneralConfig severity)"
    using assms by (simp add: generalConfigForJob_def ReviewConfigSnapshotForJob_def ReviewConfigSection_Valid_def)
  then obtain t where "review_gate g severity job findings = Inr (EvaluateMergeGate findings t)"
    by (auto simp: review_gate_def)
  moreover have "SaveReviewMergeGateDecision g job (gate_input (EvaluateMergeGate findings t) (length findings)) = (g, Inl GateNotFound)"
    using assms gate_input_accepted by (simp add: SaveReviewMergeGateDecision_def)
  ultimately show ?thesis using general by (simp add: publication_def persist_input)
qed

theorem unsnapshotted_run_never_published_witness:
  "publication (demo_gate\<lparr>gt_snapshots := []\<rparr>) ''critical'' 5 demo_findings
     = (demo_gate\<lparr>gt_snapshots := []\<rparr>, Inl (DecisionFailed GateNotFound))"
  using unsnapshotted_run_never_published [of 5 "demo_gate\<lparr>gt_snapshots := []\<rparr>" 7 "''critical''" demo_findings]
  by (simp add: demo_gate_def)

text \<open>The category policy hides exactly what it says: a finding is kept when its category is not
  configured, or enabled with a minimum severity the finding reaches; the kept findings stay in
  order and the others are counted.\<close>

theorem category_filter_exact:
  "FilterFindings config fs =
     (let keep = \<lambda>f. case map_of config (ToLower (TrimSpace (fd_category f))) of None \<Rightarrow> True
            | Some p \<Rightarrow> cp_enabled p \<and> severityRank (cp_minimum p) \<le> severityRank (fd_severity f)
      in (filter keep fs, length (filter (\<lambda>f. \<not> keep f) fs)))"
  by (induction fs) (auto simp: Let_def severityRank_eq split: option.splits)

end
