(* ===== verification/Execution_Plan.thy ===== *)
theory Execution_Plan
  imports Risk_Planner Review_Policy
begin

text \<open>
  The admitted scope of a run: the risk plan of \<open>Risk_Planner\<close> is filtered by the path policy of the
  run (\<open>applyPathFilters\<close> in \<open>src/internal/runner/runner.go\<close>), turned into an execution plan, checked
  (\<open>NormalizeReviewExecutionPlan\<close> in \<open>src/internal/domain/workflow.go\<close>), stored once per run and read
  back by a resumed publication (\<open>src/internal/store/postgres.go\<close>).

  The paths, signals and file scopes are stored as JSON. Writing a string as JSON replaces every
  byte that is not part of a valid UTF-8 sequence by U+FFFD (\<open>json_text\<close>), and the \<open>jsonb\<close> columns
  refuse a NUL character.
\<close>

section \<open>Execution plans\<close>

record ReviewFileScope =
  rf_path :: string
  rf_selected :: bool
  rf_score :: int
  rf_reasons :: "string list"
  rf_change :: string
  rf_previous :: string
  rf_additions :: int
  rf_deletions :: int
  rf_stats :: bool
  rf_binary :: bool

record ReviewExecutionPlan =
  xp_mode :: string
  xp_paths :: "string list"
  xp_deferred :: int
  xp_signals :: "string list"
  xp_files :: "ReviewFileScope list"

fun trimmed_paths :: "string set \<Rightarrow> string list \<Rightarrow> string list option" where
  "trimmed_paths seen [] = Some []"
| "trimmed_paths seen (v # vs) =
     (let path = TrimSpace v in
      if path = '''' then None
      else if path \<in> seen then trimmed_paths seen vs
      else map_option ((#) path) (trimmed_paths (insert path seen) vs))"

fun trimmed_signals :: "string set \<Rightarrow> string list \<Rightarrow> string list option" where
  "trimmed_signals seen [] = Some []"
| "trimmed_signals seen (v # vs) =
     (let signal = TrimSpace v in
      if signal = '''' \<or> length signal > 240 then None
      else if signal \<in> seen then trimmed_signals seen vs
      else map_option ((#) signal) (trimmed_signals (insert signal seen) vs))"

definition change_types :: "string list" where
  "change_types = ['''', ''added'', ''modified'', ''deleted'', ''renamed'', ''copied'', ''type_changed'']"

text \<open>The checks of one file scope, after its path is trimmed.\<close>

definition scope_ok :: "ReviewFileScope \<Rightarrow> bool" where
  "scope_ok f \<longleftrightarrow>
     \<not> (rf_path f = '''' \<or> length (rf_path f) > 4096 \<or> rf_score f < 0 \<or> rf_score f > 100 \<or> length (rf_reasons f) > 8) \<and>
     rf_change f \<in> set change_types \<and>
     \<not> (rf_additions f < 0 \<or> rf_deletions f < 0
        \<or> \<not> rf_stats f \<and> (rf_additions f \<noteq> 0 \<or> rf_deletions f \<noteq> 0 \<or> rf_binary f)) \<and>
     \<not> (rf_change f \<noteq> ''renamed'' \<and> rf_change f \<noteq> ''copied'' \<and> rf_previous f \<noteq> '''' \<or> length (rf_previous f) > 4096
        \<or> rf_previous f = rf_path f \<and> rf_previous f \<noteq> '''') \<and>
     \<not> ((rf_change f = ''renamed'' \<or> rf_change f = ''copied'') \<and> rf_previous f = '''')"

fun scopes :: "string set \<Rightarrow> string set \<Rightarrow> ReviewFileScope list \<Rightarrow> ReviewFileScope list option" where
  "scopes selected seen [] = Some []"
| "scopes selected seen (f # fs) =
     (let f = f\<lparr>rf_path := TrimSpace (rf_path f)\<rparr> in
      if \<not> scope_ok f then None
      else if rf_path f \<in> seen then None
      else let f = f\<lparr>rf_reasons := map TrimSpace (rf_reasons f)\<rparr> in
      if list_ex (\<lambda>r. r = '''' \<or> length r > 240) (rf_reasons f) then None
      else if rf_selected f \<noteq> (rf_path f \<in> selected) then None
      else map_option ((#) f) (scopes selected (insert (rf_path f) seen) fs))"

definition NormalizeReviewExecutionPlan :: "ReviewExecutionPlan \<Rightarrow> ReviewExecutionPlan option" where
  "NormalizeReviewExecutionPlan input =
     (let mode = ToLower (TrimSpace (xp_mode input)) in
      if mode \<noteq> ''standard'' \<and> mode \<noteq> ''focused'' \<and> mode \<noteq> ''critical'' \<or> xp_deferred input < 0 then None
      else case trimmed_paths {} (xp_paths input) of None \<Rightarrow> None
      | Some paths \<Rightarrow>
        if length paths > 10000 then None
        else case trimmed_signals {} (xp_signals input) of None \<Rightarrow> None
        | Some signals \<Rightarrow>
          if length signals > 12 then None
          else if length (xp_files input) > 10000 then None
          else let done = (\<lambda>files. input\<lparr>xp_mode := mode, xp_paths := paths, xp_signals := signals, xp_files := files\<rparr>)
          in if xp_files input = [] then Some (done [])
          else case scopes (set paths) {} (xp_files input) of None \<Rightarrow> None
          | Some files \<Rightarrow>
            if length (filter rf_selected files) \<noteq> length paths
               \<or> int (length (filter (\<lambda>f. \<not> rf_selected f) files)) \<noteq> xp_deferred input then None
            else Some (done files))"

section \<open>From the risk plan\<close>

definition riskModeForJob :: "string \<Rightarrow> policy_error + ReviewMode \<Rightarrow> policy_error + string" where
  "riskModeForJob configured stored =
     (let configured = (if configured = '''' then ModeFocused else configured) in
      case stored of Inl e \<Rightarrow> Inl e
      | Inr mode \<Rightarrow>
        let effective = ReviewMode_RiskMode mode configured in
        if \<not> Mode_Valid effective then Inl (DecodeFailed ''risk mode'') else Inr effective)"

definition r_excluded :: string where "r_excluded = ''excluded by immutable review filter''"

definition path_filter :: "ReviewFiltersConfig \<Rightarrow> Plan \<Rightarrow> Plan" where
  "path_filter filters plan =
     (let selected = filter (\<lambda>i. AllowsPath filters (it_path i)) (pl_selected plan);
          deferred = pl_deferred plan
            @ map (add_reason r_excluded) (filter (\<lambda>i. \<not> AllowsPath filters (it_path i)) (pl_selected plan))
      in \<lparr>pl_selected = selected, pl_deferred = deferred,
          pl_exclude = dedup_seen {} (filter (\<lambda>p. p \<noteq> '''') (map it_path deferred)),
          pl_signals = StaticImpactSignals selected\<rparr>)"

definition applyPathFilters :: "gate_db \<Rightarrow> uuid \<Rightarrow> Plan \<Rightarrow> policy_error + Plan" where
  "applyPathFilters g job plan =
     (case ReviewConfigSnapshotForJob g job ''filters'' of
        Missing \<Rightarrow> Inr plan
      | LoadError e \<Rightarrow> Inl (LoadFailed ''filters'')
      | Found snapshot \<Rightarrow>
        case DecodeReviewFiltersConfig (sn_content snapshot) of None \<Rightarrow> Inl (DecodeFailed ''filters'')
        | Some filters \<Rightarrow>
          if pl_selected plan = [] \<and> pl_deferred plan = [] then Inr plan else Inr (path_filter filters plan))"

definition selectedPaths :: "Plan \<Rightarrow> string list" where
  "selectedPaths plan = filter (\<lambda>p. p \<noteq> '''') (map it_path (pl_selected plan))"

definition file_scope :: "bool \<Rightarrow> Item \<Rightarrow> ReviewFileScope" where
  "file_scope selected i = \<lparr>rf_path = it_path i, rf_selected = selected, rf_score = it_score i, rf_reasons = it_reasons i,
     rf_change = it_change i, rf_previous = it_previous i, rf_additions = it_additions i, rf_deletions = it_deletions i,
     rf_stats = it_stats i, rf_binary = it_binary i\<rparr>"

definition executionPlanFromRisk :: "string \<Rightarrow> Plan \<Rightarrow> ReviewExecutionPlan" where
  "executionPlanFromRisk mode plan =
     \<lparr>xp_mode = mode, xp_paths = selectedPaths plan, xp_deferred = int (length (pl_deferred plan)),
      xp_signals = pl_signals plan,
      xp_files = (if length (pl_selected plan) + length (pl_deferred plan) \<le> 10000
                  then map (file_scope True) (pl_selected plan) @ map (file_scope False) (pl_deferred plan) else [])\<rparr>"

definition riskPlanFromExecutionPlan :: "ReviewExecutionPlan \<Rightarrow> Plan" where
  "riskPlanFromExecutionPlan plan =
     \<lparr>pl_selected = map (\<lambda>p. item_of p 0 []) (xp_paths plan),
      pl_deferred = replicate (nat (xp_deferred plan)) (item_of '''' 0 []), pl_exclude = [], pl_signals = xp_signals plan\<rparr>"

definition deferredOnlyScope :: "Plan \<Rightarrow> bool" where
  "deferredOnlyScope plan \<longleftrightarrow> pl_selected plan = [] \<and> pl_deferred plan \<noteq> []"

section \<open>The stored plan\<close>

definition json_text :: "string \<Rightarrow> string" where
  "json_text s = concat (map encode_rune (runes s))"

definition json_scope :: "ReviewFileScope \<Rightarrow> ReviewFileScope" where
  "json_scope f = f\<lparr>rf_path := json_text (rf_path f), rf_reasons := map json_text (rf_reasons f),
     rf_change := json_text (rf_change f), rf_previous := json_text (rf_previous f)\<rparr>"

definition json_plan :: "ReviewExecutionPlan \<Rightarrow> ReviewExecutionPlan" where
  "json_plan p = p\<lparr>xp_paths := map json_text (xp_paths p), xp_signals := map json_text (xp_signals p),
     xp_files := map json_scope (xp_files p)\<rparr>"

definition plan_texts :: "ReviewExecutionPlan \<Rightarrow> string list" where
  "plan_texts p = xp_paths p @ xp_signals p
     @ concat (map (\<lambda>f. rf_path f # rf_change f # rf_previous f # rf_reasons f) (xp_files p))"

datatype plan_save_error = PlanInvalid | PlanNotFound | PlanStatement | StoredInvalid | PlanConflict

record plan_db =
  pb_runs :: "(uuid \<times> uuid) list"
  pb_plans :: "(uuid \<times> ReviewExecutionPlan) list"

definition sameStrings :: "string list \<Rightarrow> string list \<Rightarrow> bool" where
  "sameStrings left right \<longleftrightarrow> length left = length right \<and> list_all2 (=) left right"

definition sameReviewFileScopes :: "ReviewFileScope list \<Rightarrow> ReviewFileScope list \<Rightarrow> bool" where
  "sameReviewFileScopes left right \<longleftrightarrow> length left = length right \<and>
     list_all2 (\<lambda>l r. rf_path l = rf_path r \<and> rf_selected l = rf_selected r \<and> rf_score l = rf_score r
       \<and> sameStrings (rf_reasons l) (rf_reasons r) \<and> rf_change l = rf_change r \<and> rf_previous l = rf_previous r
       \<and> rf_additions l = rf_additions r \<and> rf_deletions l = rf_deletions r \<and> rf_stats l = rf_stats r
       \<and> rf_binary l = rf_binary r) left right"

definition SaveReviewExecutionPlan ::
  "plan_db \<Rightarrow> uuid \<Rightarrow> ReviewExecutionPlan \<Rightarrow> plan_save_error + (plan_db \<times> ReviewExecutionPlan)" where
  "SaveReviewExecutionPlan b job input =
     (case NormalizeReviewExecutionPlan input of None \<Rightarrow> Inl PlanInvalid
      | Some plan \<Rightarrow>
      case map_of (pb_runs b) job of None \<Rightarrow> Inl PlanNotFound
      | Some run \<Rightarrow>
        if list_ex (\<lambda>s. CHR 0x00 \<in> set s) (plan_texts plan) \<or> xp_deferred plan \<ge> 2 ^ 31 then Inl PlanStatement
        else let (b, stored) = (case map_of (pb_plans b) run of
               None \<Rightarrow> (b\<lparr>pb_plans := (run, json_plan plan) # pb_plans b\<rparr>, json_plan plan)
             | Some stored \<Rightarrow> (b, stored))
        in case NormalizeReviewExecutionPlan stored of None \<Rightarrow> Inl StoredInvalid
        | Some stored \<Rightarrow>
          if xp_mode stored \<noteq> xp_mode plan \<or> xp_deferred stored \<noteq> xp_deferred plan
             \<or> \<not> sameStrings (xp_paths stored) (xp_paths plan) \<or> \<not> sameStrings (xp_signals stored) (xp_signals plan)
             \<or> \<not> sameReviewFileScopes (xp_files stored) (xp_files plan) then Inl PlanConflict
          else Inr (b, stored))"

definition ReviewExecutionPlanForJob :: "plan_db \<Rightarrow> uuid \<Rightarrow> plan_save_error + ReviewExecutionPlan" where
  "ReviewExecutionPlanForJob b job =
     (case (case map_of (pb_runs b) job of None \<Rightarrow> None | Some run \<Rightarrow> map_of (pb_plans b) run) of
        None \<Rightarrow> Inl PlanNotFound
      | Some plan \<Rightarrow>
        case NormalizeReviewExecutionPlan plan of None \<Rightarrow> Inl StoredInvalid | Some normalized \<Rightarrow> Inr normalized)"


section \<open>Normal plans\<close>

definition text_ok :: "string \<Rightarrow> bool" where
  "text_ok s \<longleftrightarrow> s \<noteq> '''' \<and> TrimSpace s = s"

definition scopes_ok :: "string set \<Rightarrow> ReviewFileScope list \<Rightarrow> bool" where
  "scopes_ok selected fs \<longleftrightarrow> distinct (map rf_path fs) \<and>
     (\<forall>f \<in> set fs. scope_ok f \<and> TrimSpace (rf_path f) = rf_path f \<and> (\<forall>r \<in> set (rf_reasons f). text_ok r \<and> length r \<le> 240)
        \<and> (rf_selected f \<longleftrightarrow> rf_path f \<in> selected))"

definition plan_normal :: "ReviewExecutionPlan \<Rightarrow> bool" where
  "plan_normal p \<longleftrightarrow> xp_mode p \<in> {''standard'', ''focused'', ''critical''} \<and> 0 \<le> xp_deferred p \<and>
     distinct (xp_paths p) \<and> list_all text_ok (xp_paths p) \<and> length (xp_paths p) \<le> 10000 \<and>
     distinct (xp_signals p) \<and> list_all (\<lambda>s. text_ok s \<and> length s \<le> 240) (xp_signals p) \<and> length (xp_signals p) \<le> 12 \<and>
     length (xp_files p) \<le> 10000 \<and> scopes_ok (set (xp_paths p)) (xp_files p) \<and>
     (xp_files p \<noteq> [] \<longrightarrow> length (filter rf_selected (xp_files p)) = length (xp_paths p)
        \<and> int (length (filter (\<lambda>f. \<not> rf_selected f) (xp_files p))) = xp_deferred p)"

lemma trimmed_paths_result:
  "trimmed_paths S xs = Some ys \<Longrightarrow> distinct ys \<and> (\<forall>y \<in> set ys. y \<notin> S) \<and> list_all text_ok ys"
proof (induction xs arbitrary: S ys)
  case (Cons v vs)
  show ?case
  proof (cases "TrimSpace v \<in> S")
    case True
    then show ?thesis using Cons.prems Cons.IH by (simp add: Let_def split: if_splits)
  next
    case False
    then obtain zs where zs: "trimmed_paths (insert (TrimSpace v) S) vs = Some zs" "ys = TrimSpace v # zs"
      and ok: "TrimSpace v \<noteq> ''''" using Cons.prems by (auto simp: Let_def split: if_splits)
    show ?thesis using Cons.IH [OF zs(1)] Cons.prems zs(2) ok False by (auto simp: Let_def text_ok_def split: if_splits)
  qed
qed simp

lemma trimmed_paths_fixed:
  "distinct ys \<Longrightarrow> set ys \<inter> S = {} \<Longrightarrow> list_all text_ok ys \<Longrightarrow> trimmed_paths S ys = Some ys"
  by (induction ys arbitrary: S) (auto simp: Let_def text_ok_def)

lemma trimmed_signals_result:
  "trimmed_signals S xs = Some ys \<Longrightarrow> distinct ys \<and> (\<forall>y \<in> set ys. y \<notin> S) \<and> list_all (\<lambda>s. text_ok s \<and> length s \<le> 240) ys"
proof (induction xs arbitrary: S ys)
  case (Cons v vs)
  show ?case
  proof (cases "TrimSpace v \<in> S")
    case True
    then show ?thesis using Cons.prems Cons.IH by (simp add: Let_def split: if_splits)
  next
    case False
    then obtain zs where zs: "trimmed_signals (insert (TrimSpace v) S) vs = Some zs" "ys = TrimSpace v # zs"
      and ok: "TrimSpace v \<noteq> ''''" using Cons.prems by (auto simp: Let_def split: if_splits)
    show ?thesis using Cons.IH [OF zs(1)] Cons.prems zs(2) ok False by (auto simp: Let_def text_ok_def split: if_splits)
  qed
qed simp

lemma trimmed_signals_fixed:
  "distinct ys \<Longrightarrow> set ys \<inter> S = {} \<Longrightarrow> list_all (\<lambda>s. text_ok s \<and> length s \<le> 240) ys \<Longrightarrow> trimmed_signals S ys = Some ys"
  by (induction ys arbitrary: S) (auto simp: Let_def text_ok_def)

lemma scope_ok_reasons: "length rs = length (rf_reasons f) \<Longrightarrow> scope_ok (f\<lparr>rf_reasons := rs\<rparr>) = scope_ok f"
  by (simp add: scope_ok_def)

lemma scopes_result:
  "scopes sel S xs = Some ys \<Longrightarrow> scopes_ok sel ys \<and> rf_path ` set ys \<inter> S = {} \<and> length ys = length xs"
proof (induction sel S xs arbitrary: ys rule: scopes.induct)
  case (2 sel S f fs)
  define g where "g = f\<lparr>rf_path := TrimSpace (rf_path f)\<rparr>"
  define h where "h = g\<lparr>rf_reasons := map TrimSpace (rf_reasons g)\<rparr>"
  have paths: "rf_path h = rf_path g" "rf_selected h = rf_selected g" "rf_reasons h = map TrimSpace (rf_reasons g)"
    by (simp_all add: h_def)
  have ok: "scope_ok g" "rf_path g \<notin> S" "\<not> list_ex (\<lambda>r. r = '''' \<or> length r > 240) (rf_reasons h)"
    "rf_selected h = (rf_path h \<in> sel)" and rest: "\<exists>zs. scopes sel (insert (rf_path h) S) fs = Some zs \<and> ys = h # zs"
    using 2(2) unfolding scopes.simps Let_def g_def [symmetric] h_def [symmetric] by (auto split: if_splits)
  obtain zs where zs: "scopes sel (insert (rf_path h) S) fs = Some zs" "ys = h # zs" using rest by blast
  have ih: "scopes_ok sel zs \<and> rf_path ` set zs \<inter> insert (rf_path h) S = {} \<and> length zs = length fs"
    using 2(1) [OF g_def _ _ h_def] ok zs(1) by blast
  moreover have "scope_ok h" using ok(1) unfolding h_def by (simp add: scope_ok_reasons)
  moreover have "TrimSpace (rf_path h) = rf_path h" by (simp add: paths g_def)
  moreover have "\<forall>r \<in> set (rf_reasons h). text_ok r \<and> length r \<le> 240"
    using ok(3) by (auto simp: list_ex_iff paths text_ok_def)
  ultimately show ?case using zs(2) ok(2,4) paths by (auto simp: scopes_ok_def)
qed (simp add: scopes_ok_def)

lemma map_TrimSpace_fixed: "\<forall>r \<in> set rs. TrimSpace r = r \<Longrightarrow> map TrimSpace rs = rs"
  by (induction rs) auto

lemma scopes_fixed:
  "scopes_ok sel ys \<Longrightarrow> rf_path ` set ys \<inter> S = {} \<Longrightarrow> scopes sel S ys = Some ys"
proof (induction ys arbitrary: S)
  case (Cons f fs)
  have f: "scope_ok f" "TrimSpace (rf_path f) = rf_path f" "\<forall>r \<in> set (rf_reasons f). text_ok r \<and> length r \<le> 240"
    "rf_selected f = (rf_path f \<in> sel)" "rf_path f \<notin> S" "rf_path f \<notin> rf_path ` set fs"
    using Cons.prems by (auto simp: scopes_ok_def)
  have same: "f\<lparr>rf_path := TrimSpace (rf_path f)\<rparr> = f" "f\<lparr>rf_reasons := map TrimSpace (rf_reasons f)\<rparr> = f"
    using f(2,3) by (simp_all add: map_TrimSpace_fixed text_ok_def)
  have "\<not> list_ex (\<lambda>r. r = '''' \<or> length r > 240) (rf_reasons f)" using f(3) by (auto simp: list_ex_iff text_ok_def)
  moreover have "scopes sel (insert (rf_path f) S) fs = Some fs"
    using Cons.IH [of "insert (rf_path f) S"] Cons.prems f(6) by (auto simp: scopes_ok_def)
  ultimately show ?case unfolding scopes.simps same Let_def using f by simp
qed simp

lemma normalize_result:
  assumes "NormalizeReviewExecutionPlan p = Some q"
  shows "plan_normal q"
proof -
  define mode where "mode = ToLower (TrimSpace (xp_mode p))"
  obtain paths signals where parts: "mode \<in> {''standard'', ''focused'', ''critical''}" "0 \<le> xp_deferred p"
    "trimmed_paths {} (xp_paths p) = Some paths" "length paths \<le> 10000"
    "trimmed_signals {} (xp_signals p) = Some signals" "length signals \<le> 12" "length (xp_files p) \<le> 10000"
    using assms unfolding NormalizeReviewExecutionPlan_def Let_def mode_def by (auto split: if_splits option.splits)
  have q: "xp_files p = [] \<and> q = p\<lparr>xp_mode := mode, xp_paths := paths, xp_signals := signals, xp_files := []\<rparr>
     \<or> (\<exists>files. scopes (set paths) {} (xp_files p) = Some files
         \<and> q = p\<lparr>xp_mode := mode, xp_paths := paths, xp_signals := signals, xp_files := files\<rparr>
         \<and> length (filter rf_selected files) = length paths
         \<and> int (length (filter (\<lambda>f. \<not> rf_selected f) files)) = xp_deferred p)"
    using assms parts unfolding NormalizeReviewExecutionPlan_def Let_def mode_def [symmetric]
    by (auto split: if_splits option.splits)
  note res = trimmed_paths_result [OF parts(3)] trimmed_signals_result [OF parts(5)]
  from q show ?thesis
  proof (elim disjE exE conjE)
    assume "q = p\<lparr>xp_mode := mode, xp_paths := paths, xp_signals := signals, xp_files := []\<rparr>"
    then show ?thesis using parts res by (simp add: plan_normal_def scopes_ok_def)
  next
    fix files assume f: "scopes (set paths) {} (xp_files p) = Some files"
      "q = p\<lparr>xp_mode := mode, xp_paths := paths, xp_signals := signals, xp_files := files\<rparr>"
      "length (filter rf_selected files) = length paths" "int (length (filter (\<lambda>f. \<not> rf_selected f) files)) = xp_deferred p"
    show ?thesis using parts res f(3,4) scopes_result [OF f(1)] unfolding f(2) by (simp add: plan_normal_def)
  qed
qed

lemma normalize_fixed:
  assumes "plan_normal p"
  shows "NormalizeReviewExecutionPlan p = Some p"
proof -
  have "list_all (\<lambda>m. ToLower (TrimSpace m) = m) [''standard'', ''focused'', ''critical'']" by code_simp
  then have mode: "ToLower (TrimSpace (xp_mode p)) = xp_mode p" using assms by (auto simp: plan_normal_def)
  have "trimmed_paths {} (xp_paths p) = Some (xp_paths p)" "trimmed_signals {} (xp_signals p) = Some (xp_signals p)"
    "scopes (set (xp_paths p)) {} (xp_files p) = Some (xp_files p)"
    using assms by (auto simp: plan_normal_def intro: trimmed_paths_fixed trimmed_signals_fixed scopes_fixed)
  then show ?thesis using assms mode by (auto simp: NormalizeReviewExecutionPlan_def plan_normal_def Let_def)
qed


section \<open>Storing a plan\<close>

lemma sameStrings_eq [simp]: "sameStrings l r \<longleftrightarrow> l = r"
  by (auto simp: sameStrings_def list.rel_eq list_all2_same)

lemma sameReviewFileScopes_eq [simp]: "sameReviewFileScopes l r \<longleftrightarrow> l = r"
proof
  assume "sameReviewFileScopes l r"
  then have "list_all2 (=) l r"
    unfolding sameReviewFileScopes_def by (auto elim!: list_all2_mono simp: sameStrings_eq)
  then show "l = r" by (simp add: list.rel_eq)
qed (simp add: sameReviewFileScopes_def list_all2_same)

lemma same_plan:
  fixes p q :: ReviewExecutionPlan
  assumes "xp_mode p = xp_mode q" "xp_deferred p = xp_deferred q" "xp_paths p = xp_paths q" "xp_signals p = xp_signals q"
    "xp_files p = xp_files q"
  shows "p = q"
  using assms by (cases p; cases q) simp

definition plan_stored :: "plan_db \<Rightarrow> uuid \<Rightarrow> ReviewExecutionPlan option" where
  "plan_stored b job = (case map_of (pb_runs b) job of None \<Rightarrow> None | Some run \<Rightarrow> map_of (pb_plans b) run)"

lemma save_plan_Inr:
  assumes "SaveReviewExecutionPlan b job input = Inr (b', plan)"
  obtains raw run where "NormalizeReviewExecutionPlan input = Some plan" "map_of (pb_runs b) job = Some run"
    "pb_runs b' = pb_runs b" "map_of (pb_plans b') run = Some raw" "NormalizeReviewExecutionPlan raw = Some plan"
    "map_of (pb_plans b) run = None \<and> raw = json_plan plan \<and> b' = b\<lparr>pb_plans := (run, raw) # pb_plans b\<rparr>
      \<or> map_of (pb_plans b) run = Some raw \<and> b' = b"
proof -
  obtain norm run where norm: "NormalizeReviewExecutionPlan input = Some norm" and run: "map_of (pb_runs b) job = Some run"
    using assms unfolding SaveReviewExecutionPlan_def by (auto split: option.splits)
  define raw where "raw = (case map_of (pb_plans b) run of None \<Rightarrow> json_plan norm | Some stored \<Rightarrow> stored)"
  define c where "c = (case map_of (pb_plans b) run of None \<Rightarrow> b\<lparr>pb_plans := (run, raw) # pb_plans b\<rparr> | Some _ \<Rightarrow> b)"
  have pair: "(case map_of (pb_plans b) run of None \<Rightarrow> (b\<lparr>pb_plans := (run, json_plan norm) # pb_plans b\<rparr>, json_plan norm)
      | Some stored \<Rightarrow> (b, stored)) = (c, raw)" by (simp add: c_def raw_def split: option.splits)
  have ok: "NormalizeReviewExecutionPlan raw = Some plan" "b' = c" "xp_mode plan = xp_mode norm" "xp_deferred plan = xp_deferred norm"
    "xp_paths plan = xp_paths norm" "xp_signals plan = xp_signals norm" "xp_files plan = xp_files norm"
    using assms norm run unfolding SaveReviewExecutionPlan_def by (auto simp: pair split: if_splits option.splits)
  then have "norm = plan" using same_plan by metis
  then show thesis
    using that [of run raw] norm run ok(1,2) by (auto simp: c_def raw_def split: option.splits)
qed

text \<open>The scope of a run is fixed once: a saved plan is the normal form of what was given, it
  is what a resumed publication reads back, and any later save for the same job either returns this plan
  and changes nothing or fails.\<close>

theorem plan_saved_once:
  assumes "SaveReviewExecutionPlan b job input = Inr (b', plan)"
  shows "NormalizeReviewExecutionPlan input = Some plan \<and> ReviewExecutionPlanForJob b' job = Inr plan
    \<and> (\<forall>input' b'' plan'. SaveReviewExecutionPlan b' job input' = Inr (b'', plan') \<longrightarrow> b'' = b' \<and> plan' = plan)"
proof -
  obtain raw run where s: "NormalizeReviewExecutionPlan input = Some plan" "map_of (pb_runs b) job = Some run"
    "pb_runs b' = pb_runs b" "map_of (pb_plans b') run = Some raw" "NormalizeReviewExecutionPlan raw = Some plan"
    using save_plan_Inr [OF assms] by metis
  have "b'' = b' \<and> plan' = plan" if later: "SaveReviewExecutionPlan b' job input' = Inr (b'', plan')" for input' b'' plan'
    using save_plan_Inr [OF later] s by (metis option.distinct(1) option.inject)
  moreover have "ReviewExecutionPlanForJob b' job = Inr plan" using s by (simp add: ReviewExecutionPlanForJob_def)
  ultimately show ?thesis using s(1) by blast
qed

definition survives :: "ReviewExecutionPlan \<Rightarrow> bool" where
  "survives p \<longleftrightarrow> list_all (\<lambda>s. json_text s = s \<and> CHR 0x00 \<notin> set s) (plan_texts p)"

lemma json_plan_same: "list_all (\<lambda>s. json_text s = s) (plan_texts p) \<longleftrightarrow> json_plan p = p"
proof -
  have texts: "map json_text xs = xs \<longleftrightarrow> (\<forall>x \<in> set xs. json_text x = x)" for xs by (induction xs) auto
  have scope: "json_scope f = f \<longleftrightarrow> json_text (rf_path f) = rf_path f \<and> json_text (rf_change f) = rf_change f
      \<and> json_text (rf_previous f) = rf_previous f \<and> (\<forall>r \<in> set (rf_reasons f). json_text r = r)" for f :: ReviewFileScope
    using texts [of "rf_reasons f"] by (cases f) (auto simp: json_scope_def)
  have "map json_scope fs = fs \<longleftrightarrow> (\<forall>f \<in> set fs. json_scope f = f)" for fs by (induction fs) auto
  then show ?thesis
    using texts [of "xp_paths p"] texts [of "xp_signals p"] scope
    by (cases p) (auto simp: json_plan_def plan_texts_def list_all_iff)
qed

lemma save_plan_first:
  assumes "plan_normal p" "survives p" "xp_deferred p < 2 ^ 31" "map_of (pb_runs b) job = Some run" "map_of (pb_plans b) run = None"
  shows "SaveReviewExecutionPlan b job p = Inr (b\<lparr>pb_plans := (run, p) # pb_plans b\<rparr>, p)"
proof -
  have "json_plan p = p" using assms(2) json_plan_same [of p] by (auto simp: survives_def list_all_iff)
  moreover have "\<not> list_ex (\<lambda>s. CHR 0x00 \<in> set s) (plan_texts p)" using assms(2) by (auto simp: survives_def list_all_iff list_ex_iff)
  ultimately show ?thesis
    using normalize_fixed [OF assms(1)] assms(3-5) by (simp add: SaveReviewExecutionPlan_def)
qed

text \<open>A plan that holds a path which is not valid UTF-8, here one in Latin-1, is refused as
  conflicting with itself.\<close>

definition scope_plan :: "string \<Rightarrow> ReviewExecutionPlan" where
  "scope_plan path = \<lparr>xp_mode = ''focused'', xp_paths = [path], xp_deferred = 0, xp_signals = [], xp_files = []\<rparr>"

lemma scope_plan_normal: "text_ok path \<Longrightarrow> NormalizeReviewExecutionPlan (scope_plan path) = Some (scope_plan path)"
  by (rule normalize_fixed) (simp add: plan_normal_def scope_plan_def scopes_ok_def)

definition latin1_path :: string where "latin1_path = ''caf'' @ [CHR 0xE9] @ ''.go''"
definition latin1_json :: string where "latin1_json = ''caf'' @ [CHR 0xEF, CHR 0xBF, CHR 0xBD] @ ''.go''"

lemma latin1_facts:
  "text_ok latin1_path" "text_ok latin1_json" "latin1_json \<noteq> latin1_path" "CHR 0x00 \<notin> set latin1_path" "text_ok ''a.go''"
  by code_simp+

lemma latin1_stored: "json_text latin1_path = latin1_json"
  by (simp add: json_text_def latin1_path_def latin1_json_def decode_rune_def byte_in_def encode_rune_def) code_simp

lemma latin1_path_never_saved:
  "SaveReviewExecutionPlan \<lparr>pb_runs = [(5, 7)], pb_plans = []\<rparr> 5 (scope_plan latin1_path) = Inl PlanConflict"
proof -
  have json: "json_plan (scope_plan latin1_path) = scope_plan latin1_json"
    by (simp add: json_plan_def scope_plan_def latin1_stored)
  have nul: "\<not> list_ex (\<lambda>s. CHR 0x00 \<in> set s) (plan_texts (scope_plan latin1_path))"
    by (simp add: plan_texts_def scope_plan_def latin1_facts)
  have "xp_paths (scope_plan latin1_json) \<noteq> xp_paths (scope_plan latin1_path)" by (simp add: scope_plan_def latin1_facts)
  then show ?thesis
    unfolding SaveReviewExecutionPlan_def using scope_plan_normal latin1_facts(1,2) json nul by (simp add: scope_plan_def)
qed

theorem plan_saved_once_witness:
  "ReviewExecutionPlanForJob \<lparr>pb_runs = [(5, 7)], pb_plans = [(7, scope_plan ''a.go'')]\<rparr> 5 = Inr (scope_plan ''a.go'')"
proof -
  have "plan_normal (scope_plan ''a.go'')"
    using latin1_facts(5) by (simp add: plan_normal_def scope_plan_def scopes_ok_def)
  moreover have "survives (scope_plan ''a.go'')" by code_simp
  ultimately have "SaveReviewExecutionPlan \<lparr>pb_runs = [(5, 7)], pb_plans = []\<rparr> 5 (scope_plan ''a.go'')
      = Inr (\<lparr>pb_runs = [(5, 7)], pb_plans = []\<rparr>\<lparr>pb_plans := [(7, scope_plan ''a.go'')]\<rparr>, scope_plan ''a.go'')"
    using save_plan_first [of "scope_plan ''a.go''" "\<lparr>pb_runs = [(5, 7)], pb_plans = []\<rparr>" 5 7] by (simp add: scope_plan_def)
  from plan_saved_once [OF this] show ?thesis by simp
qed


section \<open>What the planner hands over\<close>

lemma fallback_from:
  "fallback_loop n is = (s, d) \<Longrightarrow> (\<forall>i \<in> set s. \<exists>j \<in> set is. i = add_reason r_fallback j) \<and> set d \<subseteq> set is"
proof (induction n "is" arbitrary: s d rule: fallback_loop.induct)
  case (2 n i rest)
  show ?case
  proof (cases "0 < n \<and> it_score i \<ge> criticalFallbackScore")
    case True
    obtain s' d' where r: "fallback_loop (n - 1) rest = (s', d')" by fastforce
    then show ?thesis using 2(1) [OF True r] 2(3) True by auto
  next
    case False
    obtain s' d' where r: "fallback_loop n rest = (s', d')" by fastforce
    then have "s = s'" "d = i # d'"
      using 2(3) False by (simp_all only: fallback_loop.simps if_False r Let_def prod.case prod.inject)
    then show ?thesis using 2(2) [OF False r] by auto
  qed
qed simp

definition added_reason :: "Item list \<Rightarrow> string \<Rightarrow> Item \<Rightarrow> bool" where
  "added_reason items r i \<longleftrightarrow> (\<exists>j \<in> set items. i = add_reason r j)"

lemma limit_deferred_from:
  assumes "i \<in> set (pl_deferred (limitSignalDiverseSelection p limit minimum reason))"
  shows "i \<in> set (pl_selected p @ pl_deferred p) \<or> added_reason (pl_selected p @ pl_deferred p) reason i"
proof (cases rule: limit_cases [of p limit minimum reason])
  case cut
  have "i \<in> (\<lambda>i. if it_path i \<in> it_path ` set (limit_candidates p minimum) then add_reason reason i else i) ` set (pl_selected p @ pl_deferred p)"
    using assms unfolding cut(3) by auto
  then show ?thesis unfolding added_reason_def by (auto split: if_splits)
qed (use assms in simp)

lemma plan_selected_from:
  assumes "Mode_Valid mode" "i \<in> set (pl_selected (plan_items mode items))"
  shows "i \<in> set items \<or> (\<exists>j \<in> set items. it_score j < 75 \<and> i = add_reason r_fallback j)"
proof -
  define p where "p = \<lparr>pl_selected = by_rank (filter (\<lambda>i. include_score mode (it_score i)) items),
      pl_deferred = by_rank (filter (\<lambda>i. \<not> include_score mode (it_score i)) items),
      pl_exclude = [], pl_signals = []\<rparr>"
  have sel: "i \<in> set (pl_selected (apply_budget mode p))" using assms(2) unfolding plan_items_simps(1) p_def .
  have items: "set (pl_selected p) \<subseteq> set items" "set (pl_deferred p) \<subseteq> set items" by (auto simp: p_def)
  show ?thesis
  proof (cases "mode = ModeCritical \<and> pl_selected p = []")
    case True
    have modes: "ModeCritical \<noteq> ModeStandard" by (simp add: risk_consts)
    obtain s d where sd: "fallback_loop (criticalFallbackLimit - length (pl_selected p)) (pl_deferred p) = (s, d)" by fastforce
    have "i \<in> set s" using sel sd True by (auto simp: apply_budget_def criticalFallback_def)
    then obtain j where j: "j \<in> set (pl_deferred p)" "i = add_reason r_fallback j" using fallback_from [OF sd] by blast
    then have "it_score j < 75" using True modes by (auto simp: p_def include_score_def)
    then show ?thesis using j items by blast
  next
    case False
    have "i \<in> set (pl_selected p) \<or> i \<in> set (pl_deferred p)"
      using sel False by (auto simp: apply_budget_def dest: limit_selected_from split: if_splits)
    then show ?thesis using items by blast
  qed
qed

lemma plan_deferred_from:
  assumes "i \<in> set (pl_deferred (plan_items mode items))"
  shows "i \<in> set items \<or> (\<exists>r \<in> {r_critical, r_focused}. added_reason items r i)"
proof -
  define p where "p = \<lparr>pl_selected = by_rank (filter (\<lambda>i. include_score mode (it_score i)) items),
      pl_deferred = by_rank (filter (\<lambda>i. \<not> include_score mode (it_score i)) items),
      pl_exclude = [], pl_signals = []\<rparr>"
  have def: "i \<in> set (pl_deferred (apply_budget mode p))" using assms by (simp add: plan_items_def Let_def p_def)
  have items: "set (pl_selected p @ pl_deferred p) = set items" by (auto simp: p_def)
  then have lift: "added_reason (pl_selected p @ pl_deferred p) r i = added_reason items r i" for r
    by (simp add: added_reason_def)
  obtain s d where sd: "fallback_loop (criticalFallbackLimit - length (pl_selected p)) (pl_deferred p) = (s, d)" by fastforce
  have "pl_deferred (criticalFallback p) = d" by (simp add: criticalFallback_def sd)
  then have "set (pl_deferred (criticalFallback p)) \<subseteq> set items" using fallback_from [OF sd] items by auto
  then show ?thesis
    using def items limit_deferred_from [of i p] unfolding apply_budget_def
    by (auto simp: lift split: if_splits)
qed


text \<open>The reasons of the planner, and how many a file can have.\<close>

definition planner_reasons :: "string list" where
  "planner_reasons = [r_code, r_auth, r_state, r_public, r_manifest, r_deploy, r_test, r_artifact, r_docs,
     r_fallback, r_critical, r_focused, r_excluded]"

lemma json_text_ascii: "is_ascii s \<Longrightarrow> json_text s = s"
proof -
  assume ascii: "is_ascii s"
  have "concat (map encode_rune (map of_char s)) = s" using ascii
    by (induction s) (auto simp: is_ascii_def encode_rune_def)
  then show ?thesis using runes_ascii [OF ascii] by (simp add: json_text_def)
qed

lemma planner_reasons_trimmed: "list_all text_ok planner_reasons"
  by code_simp

lemma planner_reasons_ascii: "r \<in> set planner_reasons \<Longrightarrow> is_ascii r \<and> length r \<le> 240 \<and> CHR 0x00 \<notin> set r"
  unfolding planner_reasons_def by (auto simp: risk_reasons r_excluded_def is_ascii_def)

lemma planner_reasons_ok:
  "r \<in> set planner_reasons \<Longrightarrow> text_ok r \<and> length r \<le> 240 \<and> json_text r = r \<and> CHR 0x00 \<notin> set r"
  using planner_reasons_ascii json_text_ascii planner_reasons_trimmed by (auto simp: list_all_iff)

lemma deploy_score_bounds: "deploy_score n = 0 \<or> 25 \<le> deploy_score n"
  unfolding deploy_score_def by (simp only: split: if_split) simp

lemma scored_reasons:
  "set (it_reasons (scored p b1 b2 b3 b4 d b5)) \<subseteq> {r_code, r_auth, r_state, r_public, r_manifest, r_deploy, r_test}"
  "length (it_reasons (scored p b1 b2 b3 b4 d b5)) \<le> 7"
  "d = 0 \<or> 25 \<le> d \<Longrightarrow> it_score (scored p b1 b2 b3 b4 d b5) < 75 \<Longrightarrow> length (it_reasons (scored p b1 b2 b3 b4 d b5)) \<le> 6"
  by (auto simp: scored_simps)

lemma Classify_reasons:
  "set (it_reasons (Classify p)) \<subseteq> set planner_reasons" "length (it_reasons (Classify p)) \<le> 7"
  "it_score (Classify p) < 75 \<Longrightarrow> length (it_reasons (Classify p)) \<le> 6"
proof -
  have seven: "{r_code, r_auth, r_state, r_public, r_manifest, r_deploy, r_test, r_artifact, r_docs} \<subseteq> set planner_reasons"
    unfolding planner_reasons_def by (simp only: list.set) blast
  show "set (it_reasons (Classify p)) \<subseteq> set planner_reasons"
    by (cases rule: Classify_cases [of p]) (use seven scored_reasons(1) [of p] in \<open>fastforce simp del: scored_simps\<close>)+
  show "length (it_reasons (Classify p)) \<le> 7"
    by (cases rule: Classify_cases [of p]) (use scored_reasons(2) in \<open>auto simp del: scored_simps\<close>)
  show "it_score (Classify p) < 75 \<Longrightarrow> length (it_reasons (Classify p)) \<le> 6"
    by (cases rule: Classify_cases [of p])
      (use scored_reasons(3) deploy_score_bounds in \<open>auto simp del: scored_simps\<close>)
qed


section \<open>The planned scope can be stored\<close>

definition item_ok :: "nat \<Rightarrow> Item \<Rightarrow> bool" where
  "item_ok n i \<longleftrightarrow> scope_ok (file_scope True (i\<lparr>it_reasons := []\<rparr>)) \<and> text_ok (it_path i) \<and> length (it_reasons i) \<le> n
     \<and> set (it_reasons i) \<subseteq> set planner_reasons
     \<and> (\<forall>s \<in> {it_path i, it_change i, it_previous i}. json_text s = s \<and> CHR 0x00 \<notin> set s)"

lemma add_reason_rest [simp]:
  "(add_reason r i)\<lparr>it_reasons := rs\<rparr> = i\<lparr>it_reasons := rs\<rparr>" "it_change (add_reason r i) = it_change i"
  "it_previous (add_reason r i) = it_previous i"
  by (simp_all add: add_reason_def)

lemma item_ok_mono: "item_ok m i \<Longrightarrow> m \<le> n \<Longrightarrow> item_ok n i"
  by (auto simp: item_ok_def)

lemma item_ok_add: "item_ok n i \<Longrightarrow> r \<in> set planner_reasons \<Longrightarrow> item_ok (Suc n) (add_reason r i)"
  by (simp add: item_ok_def)

lemma item_ok_scope:
  assumes "item_ok 8 i"
  shows "scope_ok (file_scope b i)"
proof -
  have "scope_ok (file_scope b i) = (scope_ok (file_scope True (i\<lparr>it_reasons := []\<rparr>)) \<and> length (it_reasons i) \<le> 8)"
    by (auto simp: scope_ok_def file_scope_def)
  then show ?thesis using assms by (simp add: item_ok_def)
qed

lemma signals_from: "s \<in> set (StaticImpactSignals items) \<Longrightarrow> (\<exists>i \<in> set items. \<exists>r \<in> set (it_reasons i). s = TrimSpace r) \<and> s \<noteq> ''''"
  unfolding StaticImpactSignals_def by (drule in_set_takeD) (simp add: set_dedup_seen, blast)

lemma reason_in: "r \<in> set planner_reasons \<Longrightarrow> TrimSpace r = r"
  using planner_reasons_ok by (auto simp: text_ok_def)

lemma signals_ok:
  assumes "\<forall>i \<in> set items. item_ok n i"
  shows "set (StaticImpactSignals items) \<subseteq> set planner_reasons"
proof
  fix s assume "s \<in> set (StaticImpactSignals items)"
  then obtain i r where "i \<in> set items" "r \<in> set (it_reasons i)" "s = TrimSpace r" using signals_from by blast
  moreover from this have "r \<in> set planner_reasons" using assms by (auto simp: item_ok_def)
  ultimately show "s \<in> set planner_reasons" using reason_in by simp
qed

lemma signals_small: "distinct (StaticImpactSignals items) \<and> length (StaticImpactSignals items) \<le> 12"
  by (auto simp: StaticImpactSignals_def distinct_take distinct_dedup_seen)

lemma file_scope_simps [simp]:
  "rf_path (file_scope b i) = it_path i" "rf_selected (file_scope b i) = b" "rf_reasons (file_scope b i) = it_reasons i"
  "rf_change (file_scope b i) = it_change i" "rf_previous (file_scope b i) = it_previous i"
  by (simp_all add: file_scope_def)

lemma execution_plan_normal:
  assumes mode: "Mode_Valid mode" and items: "\<forall>i \<in> set (pl_selected plan @ pl_deferred plan). item_ok 8 i"
    and paths: "distinct (plan_paths plan)" "length (plan_paths plan) \<le> 10000"
    and signals: "pl_signals plan = StaticImpactSignals (pl_selected plan)"
  shows "plan_normal (executionPlanFromRisk mode plan) \<and> survives (executionPlanFromRisk mode plan)"
proof
  let ?x = "executionPlanFromRisk mode plan"
  have ne: "selectedPaths plan = map it_path (pl_selected plan)"
    using items unfolding selectedPaths_def by (intro filter_True) (auto simp: item_ok_def text_ok_def)
  have len: "length (pl_selected plan) + length (pl_deferred plan) \<le> 10000" using paths(2) by (simp add: plan_paths_def)
  have files: "xp_files ?x = map (file_scope True) (pl_selected plan) @ map (file_scope False) (pl_deferred plan)"
    using len by (simp add: executionPlanFromRisk_def)
  have rest: "xp_mode ?x = mode" "xp_paths ?x = map it_path (pl_selected plan)" "xp_deferred ?x = int (length (pl_deferred plan))"
    "xp_signals ?x = StaticImpactSignals (pl_selected plan)"
    using signals by (simp_all add: executionPlanFromRisk_def ne)
  have sig: "\<forall>s \<in> set (StaticImpactSignals (pl_selected plan)). text_ok s \<and> length s \<le> 240 \<and> json_text s = s \<and> CHR 0x00 \<notin> set s"
    using signals_ok [of "pl_selected plan" 8] items planner_reasons_ok by auto
  have reasons: "\<forall>i \<in> set (pl_selected plan @ pl_deferred plan). \<forall>r \<in> set (it_reasons i).
      text_ok r \<and> length r \<le> 240 \<and> json_text r = r \<and> CHR 0x00 \<notin> set r"
    using items planner_reasons_ok unfolding item_ok_def by blast
  have disj: "it_path i \<notin> it_path ` set (pl_selected plan)" if "i \<in> set (pl_deferred plan)" for i
    using paths(1) that by (auto simp: plan_paths_def)
  have one: "scope_ok (file_scope b i) \<and> TrimSpace (it_path i) = it_path i \<and> (\<forall>r \<in> set (it_reasons i). text_ok r \<and> length r \<le> 240)"
    if "i \<in> set (pl_selected plan @ pl_deferred plan)" for b i
    using that items reasons item_ok_scope by (simp add: item_ok_def text_ok_def)
  have scopes: "scopes_ok (set (map it_path (pl_selected plan))) (xp_files ?x)"
    unfolding scopes_ok_def
  proof (intro conjI ballI)
    show "distinct (map rf_path (xp_files ?x))" using paths(1) by (simp add: files plan_paths_def comp_def)
    fix f assume "f \<in> set (xp_files ?x)"
    then consider i where "f = file_scope True i" "i \<in> set (pl_selected plan)" | i where "f = file_scope False i" "i \<in> set (pl_deferred plan)"
      by (auto simp: files)
    then have "scope_ok f \<and> TrimSpace (rf_path f) = rf_path f \<and> (\<forall>r \<in> set (rf_reasons f). text_ok r \<and> length r \<le> 240)
        \<and> rf_selected f = (rf_path f \<in> set (map it_path (pl_selected plan)))"
      by cases (use one disj in \<open>simp, blast\<close>)+
    then show "scope_ok f" "TrimSpace (rf_path f) = rf_path f" "rf_selected f = (rf_path f \<in> set (map it_path (pl_selected plan)))"
      "\<And>r. r \<in> set (rf_reasons f) \<Longrightarrow> text_ok r" "\<And>r. r \<in> set (rf_reasons f) \<Longrightarrow> length r \<le> 240" by blast+
  qed
  have sel: "filter rf_selected (map (file_scope True) is) = map (file_scope True) is"
    "filter rf_selected (map (file_scope False) is) = []"
    "filter (\<lambda>f. \<not> rf_selected f) (map (file_scope True) is) = []"
    "filter (\<lambda>f. \<not> rf_selected f) (map (file_scope False) is) = map (file_scope False) is" for "is"
    by (induction "is") simp_all
  show "plan_normal ?x"
    unfolding plan_normal_def rest
  proof (intro conjI impI)
    show "mode \<in> {''standard'', ''focused'', ''critical''}" using mode by (simp add: Mode_Valid_def risk_consts)
    show "list_all text_ok (map it_path (pl_selected plan))" using items by (auto simp: list_all_iff item_ok_def)
    show "list_all (\<lambda>s. text_ok s \<and> length s \<le> 240) (StaticImpactSignals (pl_selected plan))" using sig by (auto simp: list_all_iff)
    show "length (filter rf_selected (xp_files ?x)) = length (map it_path (pl_selected plan))" by (simp add: files sel)
    show "int (length (filter (\<lambda>f. \<not> rf_selected f) (xp_files ?x))) = int (length (pl_deferred plan))" by (simp add: files sel)
  qed (use paths(1) len scopes signals_small files in \<open>auto simp: plan_paths_def\<close>)
  show "survives ?x"
    using items sig reasons unfolding survives_def plan_texts_def rest files list_all_iff by (auto simp: item_ok_def)
qed


section \<open>From the change list to the stored scope\<close>

text \<open>What the theorem assumes of a changed file: its path is not surrounded by white space, the
  paths are valid UTF-8 without NUL and fit the columns, and git names the old path of a rename.\<close>

definition git_change :: "changedFile \<Rightarrow> bool" where
  "git_change c \<longleftrightarrow> TrimSpace (cf_path c) = cf_path c \<and> length (cf_path c) \<le> 4096 \<and> length (cf_previous c) \<le> 4096
     \<and> (\<forall>s \<in> {cf_path c, cf_previous c}. json_text s = s \<and> CHR 0x00 \<notin> set s)
     \<and> (cf_change c \<in> {''renamed'', ''copied''} \<longrightarrow> cf_previous c \<noteq> '''')"

definition change_parsed :: "changedFile \<Rightarrow> bool" where
  "change_parsed c \<longleftrightarrow> cf_path c \<noteq> '''' \<and> cf_change c \<in> set (tl change_types)
     \<and> (cf_change c \<notin> {''renamed'', ''copied''} \<longrightarrow> cf_previous c = '''') \<and> (cf_previous c = cf_path c \<longrightarrow> cf_previous c = '''')"

lemma change_kind_cases:
  "change_kind k = Some t \<Longrightarrow> t \<in> set (tl change_types) \<and> (k = CHR ''R'' \<or> k = CHR ''C'' \<longleftrightarrow> t \<in> {''renamed'', ''copied''})"
  unfolding change_kind_def change_types_def by (auto split: if_splits)

lemma parse_statuses_parsed: "parse_statuses parts = Inr cs \<Longrightarrow> c \<in> set cs \<Longrightarrow> change_parsed c"
proof (induction parts arbitrary: cs rule: parse_statuses.induct)
  case (3 s p rest)
  obtain k t where k: "s = k # t" using 3(3) by (cases s) auto
  obtain kind where kind: "change_kind k = Some kind" using 3(3) k by (cases "change_kind k") auto
  note kc = change_kind_cases [OF kind]
  show ?case
  proof (cases "k = CHR ''R'' \<or> k = CHR ''C''")
    case True
    then obtain q rest' cs' where q: "rest = q # rest'" "parse_statuses rest' = Inr cs'"
      "check_change \<lparr>cf_path = q, cf_change = kind, cf_previous = p\<rparr> = Inr \<lparr>cf_path = q, cf_change = kind, cf_previous = p\<rparr>"
      "cs = \<lparr>cf_path = q, cf_change = kind, cf_previous = p\<rparr> # cs'"
      using 3(3) k kind by (auto simp: check_change_def bind_r_Inr_iff split: list.splits if_splits)
    have "change_parsed \<lparr>cf_path = q, cf_change = kind, cf_previous = p\<rparr>"
      using q(3) kc True by (auto simp: change_parsed_def check_change_def split: if_splits)
    then show ?thesis using 3(1) [OF k kind True q(1) q(2)] 3(4) q(4) by auto
  next
    case False
    then obtain cs' where q: "parse_statuses rest = Inr cs'"
      "check_change \<lparr>cf_path = p, cf_change = kind, cf_previous = ''''\<rparr> = Inr \<lparr>cf_path = p, cf_change = kind, cf_previous = ''''\<rparr>"
      "cs = \<lparr>cf_path = p, cf_change = kind, cf_previous = ''''\<rparr> # cs'"
      using 3(3) k kind by (auto simp: check_change_def bind_r_Inr_iff split: if_splits)
    have "change_parsed \<lparr>cf_path = p, cf_change = kind, cf_previous = ''''\<rparr>"
      using q(2) kc False by (auto simp: change_parsed_def check_change_def split: if_splits)
    then show ?thesis using 3(2) [OF k kind False] q 3(4) by auto
  qed
qed simp_all

definition stats_ok :: "(string \<times> fileStats) list \<Rightarrow> bool" where
  "stats_ok stats \<longleftrightarrow> (\<forall>st \<in> snd ` set stats. 0 \<le> fs_additions st \<and> 0 \<le> fs_deletions st)"

lemma parse_counts_ok: "parse_counts a b = Inr st \<Longrightarrow> 0 \<le> fs_additions st \<and> 0 \<le> fs_deletions st"
  unfolding parse_counts_def by (auto split: if_splits option.splits)

lemma parse_stats_ok: "parse_stats stats parts = Inr st \<Longrightarrow> stats_ok stats \<Longrightarrow> stats_ok st"
proof (induction stats parts rule: parse_stats.induct)
  case (2 stats part rest)
  obtain a b path c where p: "three_fields part = Some (a, b, path)" "parse_counts a b = Inr c"
    using "2.prems"(1) by (auto simp: bind_r_Inr_iff split: option.splits)
  have ok: "stats_ok ((q, c) # stats)" for q using "2.prems"(2) parse_counts_ok [OF p(2)] by (simp add: stats_ok_def)
  show ?case
  proof (cases "path = ''''")
    case True
    then obtain old new rest' where r: "rest = old # new # rest'" "new \<noteq> ''''" "parse_stats ((new, c) # stats) rest' = Inr st"
      using "2.prems"(1) p by (auto split: list.splits if_splits)
    show ?thesis using "2.IH"(2) p r ok True by auto
  next
    case False
    then have "parse_stats ((path, c) # stats) rest = Inr st" using "2.prems"(1) p by simp
    then show ?thesis using "2.IH"(1) p False ok by auto
  qed
qed simp


lemma bump_rest: "it_additions (bump b n r i) = it_additions i" "it_deletions (bump b n r i) = it_deletions i"
  "it_stats (bump b n r i) = it_stats i" "it_binary (bump b n r i) = it_binary i"
  by (simp_all add: bump_def)

lemma Classify_rest: "it_additions (Classify p) = 0 \<and> it_deletions (Classify p) = 0 \<and> \<not> it_stats (Classify p) \<and> \<not> it_binary (Classify p)"
  by (cases rule: Classify_cases [of p]) (simp_all add: item_of_def scored_def clamp_score_def bump_rest)

lemma change_types_plain: "t \<in> set change_types \<Longrightarrow> json_text t = t \<and> CHR 0x00 \<notin> set t"
proof -
  have "is_ascii t \<and> CHR 0x00 \<notin> set t" if "t \<in> set change_types" for t
    using that by (auto simp: change_types_def is_ascii_def)
  then show "t \<in> set change_types \<Longrightarrow> ?thesis" using json_text_ascii by blast
qed

lemma plan_item_ok:
  assumes "git_change c" "change_parsed c" "stats_ok stats"
  shows "item_ok 7 (plan_item stats c)" "it_score (plan_item stats c) < 75 \<Longrightarrow> item_ok 6 (plan_item stats c)"
proof -
  let ?i = "plan_item stats c"
  have kinds: "set (tl change_types) \<subseteq> set change_types" by (simp add: change_types_def)
  have stats: "0 \<le> it_additions ?i \<and> 0 \<le> it_deletions ?i
      \<and> (it_stats ?i \<or> it_additions ?i = 0 \<and> it_deletions ?i = 0 \<and> \<not> it_binary ?i)"
    using assms(3) Classify_rest [of "cf_path c"]
    by (auto simp: plan_item_def Let_def stats_ok_def split: option.splits dest!: map_of_SomeD)
  have "scope_ok (file_scope True (?i\<lparr>it_reasons := []\<rparr>))"
    using stats assms(1,2) Classify_bounds [of "cf_path c"] kinds
    by (auto simp: scope_ok_def file_scope_def git_change_def change_parsed_def)
  moreover have "text_ok (it_path ?i)" using assms(1,2) by (simp add: text_ok_def git_change_def change_parsed_def)
  moreover have "\<forall>s \<in> {it_path ?i, it_change ?i, it_previous ?i}. json_text s = s \<and> CHR 0x00 \<notin> set s"
    using assms(1,2) change_types_plain kinds by (auto simp: git_change_def change_parsed_def)
  ultimately show "item_ok 7 ?i" "it_score ?i < 75 \<Longrightarrow> item_ok 6 ?i"
    using Classify_reasons [of "cf_path c"] by (auto simp: item_ok_def)
qed

lemma planned_items_ok:
  assumes "Mode_Valid mode" "\<forall>c \<in> set changes. git_change c \<and> change_parsed c" "stats_ok stats"
  shows "\<forall>i \<in> set (pl_selected (plan_items mode (map (plan_item stats) changes))). item_ok 7 i"
    and "\<forall>i \<in> set (pl_deferred (plan_items mode (map (plan_item stats) changes))). item_ok 8 i"
proof -
  have r: "r_fallback \<in> set planner_reasons" "r_critical \<in> set planner_reasons" "r_focused \<in> set planner_reasons"
    unfolding planner_reasons_def by (simp_all only: list.set insert_iff simp_thms)
  have ok: "item_ok 7 j" "it_score j < 75 \<Longrightarrow> item_ok 6 j" if "j \<in> set (map (plan_item stats) changes)" for j
    using that assms(2,3) plan_item_ok by auto
  show "\<forall>i \<in> set (pl_selected (plan_items mode (map (plan_item stats) changes))). item_ok 7 i"
  proof
    fix i assume "i \<in> set (pl_selected (plan_items mode (map (plan_item stats) changes)))"
    from plan_selected_from [OF assms(1) this] show "item_ok 7 i"
      using ok item_ok_add [OF _ r(1), of 6] by (elim disjE bexE conjE) (blast, simp)
  qed
  show "\<forall>i \<in> set (pl_deferred (plan_items mode (map (plan_item stats) changes))). item_ok 8 i"
  proof
    fix i assume "i \<in> set (pl_deferred (plan_items mode (map (plan_item stats) changes)))"
    from plan_deferred_from [OF this] consider "i \<in> set (map (plan_item stats) changes)"
      | j r where "j \<in> set (map (plan_item stats) changes)" "r \<in> set planner_reasons" "i = add_reason r j"
      using r(2,3) unfolding added_reason_def by blast
    then show "item_ok 8 i"
    proof cases
      case 1
      then show ?thesis using item_ok_mono [OF ok(1)] by simp
    next
      case 2
      then show ?thesis using item_ok_add [OF ok(1)] by fastforce
    qed
  qed
qed

lemma path_filter_paths: "mset (plan_paths (path_filter f p)) = mset (plan_paths p)"
proof -
  have "mset (map it_path (filter P xs)) + mset (map it_path (filter (\<lambda>i. \<not> P i) xs)) = mset (map it_path xs)" for P xs
    by (induction xs) auto
  from this [of "\<lambda>i. AllowsPath f (it_path i)" "pl_selected p"] show ?thesis
    by (simp add: path_filter_def Let_def plan_paths_def ac_simps comp_def)
qed

lemma path_filter_items:
  assumes "\<forall>i \<in> set (pl_selected p). item_ok 7 i" "\<forall>i \<in> set (pl_deferred p). item_ok 8 i"
  shows "\<forall>i \<in> set (pl_selected (path_filter f p)). item_ok 7 i" "\<forall>i \<in> set (pl_deferred (path_filter f p)). item_ok 8 i"
proof -
  have r: "r_excluded \<in> set planner_reasons" unfolding planner_reasons_def by (simp only: list.set insert_iff simp_thms)
  show "\<forall>i \<in> set (pl_selected (path_filter f p)). item_ok 7 i" using assms(1) by (simp add: path_filter_def Let_def)
  have "item_ok 8 (add_reason r_excluded i)" if "i \<in> set (pl_selected p)" for i
    using item_ok_add [OF _ r, of 7] assms(1) that by simp
  then show "\<forall>i \<in> set (pl_deferred (path_filter f p)). item_ok 8 i" using assms(2) by (auto simp: path_filter_def Let_def)
qed

lemma applyPathFilters_cases:
  assumes "applyPathFilters g job plan = Inr plan'"
  obtains "plan' = plan" | f where "plan' = path_filter f plan"
  using assms by (auto simp: applyPathFilters_def split: lookup.splits option.splits if_splits)


lemma PlanWithMode_stats:
  assumes "PlanWithMode mode (Some out) numstat = Inr plan" "Mode_Valid mode" "parseChangedFileStatuses out = Inr changes"
  obtains stats where "stats_ok stats" "plan = plan_items mode (map (plan_item stats) changes)"
proof -
  have "mode \<noteq> ''''" using assms(2) by (auto simp: Mode_Valid_def risk_consts)
  then obtain stats where stats: "plan = plan_items mode (map (plan_item stats) changes)"
    "stats = [] \<or> (\<exists>text. parseChangedFileStats text = Inr stats)"
    using assms by (auto simp: PlanWithMode_def Let_def bind_r_Inr_iff split: if_splits option.splits)
  have nil: "stats_ok []" by (simp add: stats_ok_def)
  have "stats_ok stats"
    using stats(2) parse_stats_ok [OF _ nil] nil by (auto simp: parseChangedFileStats_def split: if_splits)
  then show thesis using that stats(1) by blast
qed

text \<open>C36. The scope the planner chooses can always be admitted: for every change list of at most ten
  thousand files with usable paths, whatever mode the run asks for and whatever its path filters
  are, the resulting execution plan passes the check and is stored as it is, and its selected
  paths together with the deferred files are exactly the changed paths. The check's limits on
  scores, reasons and signals never reject a plan of the planner.\<close>

theorem planned_scope_is_stored:
  assumes "riskModeForJob configured stored = Inr mode"
    and "PlanWithMode mode (Some out) numstat = Inr planned" and "applyPathFilters g job planned = Inr plan"
    and "parseChangedFileStatuses out = Inr changes" and "\<forall>c \<in> set changes. git_change c"
    and "distinct (map cf_path changes)" and "length changes \<le> 10000"
    and "map_of (pb_runs b) job = Some run" and "map_of (pb_plans b) run = None"
  shows "SaveReviewExecutionPlan b job (executionPlanFromRisk mode plan)
       = Inr (b\<lparr>pb_plans := (run, executionPlanFromRisk mode plan) # pb_plans b\<rparr>, executionPlanFromRisk mode plan)
     \<and> mset (xp_paths (executionPlanFromRisk mode plan)) + mset (map it_path (pl_deferred plan)) = mset (map cf_path changes)"
proof -
  have mode: "Mode_Valid mode" using assms(1) by (auto simp: riskModeForJob_def Let_def split: sum.splits if_splits)
  have parsed: "\<forall>c \<in> set changes. git_change c \<and> change_parsed c"
    using assms(4,5) parse_statuses_parsed by (auto simp: parseChangedFileStatuses_def split: if_splits)
  obtain stats where stats: "stats_ok stats" "planned = plan_items mode (map (plan_item stats) changes)"
    using PlanWithMode_stats [OF assms(2) mode assms(4)] .
  note ok = planned_items_ok [OF mode parsed stats(1), folded stats(2)]
  have paths: "map it_path (map (plan_item stats) changes) = map cf_path changes" by simp
  have planned: "mset (plan_paths planned) = mset (map cf_path changes)"
    using plan_items_paths [of "map (plan_item stats) changes" mode] assms(6) unfolding stats(2) paths by simp
  have facts: "(\<forall>i \<in> set (pl_selected plan). item_ok 7 i) \<and> (\<forall>i \<in> set (pl_deferred plan). item_ok 8 i)
      \<and> mset (plan_paths plan) = mset (map cf_path changes) \<and> pl_signals plan = StaticImpactSignals (pl_selected plan)"
    using assms(3)
  proof (cases rule: applyPathFilters_cases)
    case 1
    then show ?thesis using ok planned stats(2) plan_items_simps(3) by simp
  next
    case (2 f)
    then show ?thesis using path_filter_items [OF ok] path_filter_paths [of f planned] planned
      by (simp add: path_filter_def Let_def)
  qed
  have size: "length (plan_paths plan) \<le> 10000" using facts assms(7) mset_eq_length by fastforce
  have "distinct (plan_paths plan)" using facts assms(6) mset_eq_imp_distinct_iff by blast
  then have normal: "plan_normal (executionPlanFromRisk mode plan) \<and> survives (executionPlanFromRisk mode plan)"
    using execution_plan_normal [OF mode, of plan] facts size item_ok_mono [of 7 _ 8] by auto
  have "int (length (pl_deferred plan)) \<le> 10000" using size by (simp add: plan_paths_def)
  then have "xp_deferred (executionPlanFromRisk mode plan) < 2 ^ 31" by (simp add: executionPlanFromRisk_def)
  moreover have "xp_paths (executionPlanFromRisk mode plan) = map it_path (pl_selected plan)"
    using facts by (auto simp: executionPlanFromRisk_def selectedPaths_def item_ok_def text_ok_def intro!: filter_True)
  ultimately show ?thesis
    using save_plan_first normal assms(8,9) facts by (simp add: plan_paths_def)
qed

lemma demo_changes_usable: "\<forall>c \<in> set demo_changes. git_change c"
proof -
  have "\<forall>s \<in> set [''README.md'', ''src/auth/login.go'', ''src/api/handler.go'', ''src/login.go'']. is_ascii s"
    by code_simp
  then have "\<forall>c \<in> set demo_changes. json_text (cf_path c) = cf_path c \<and> json_text (cf_previous c) = cf_previous c"
    using json_text_ascii by (simp add: demo_changes_def is_ascii_def)
  moreover have "list_all (\<lambda>c. TrimSpace (cf_path c) = cf_path c) demo_changes" by code_simp
  moreover have "list_all (\<lambda>c. CHR 0x00 \<notin> set (cf_path c) \<and> CHR 0x00 \<notin> set (cf_previous c)) demo_changes" by code_simp
  moreover have "list_all (\<lambda>c. cf_change c \<in> {''renamed'', ''copied''} \<longrightarrow> cf_previous c \<noteq> '''') demo_changes" by code_simp
  moreover have "list_all (\<lambda>c. length (cf_path c) \<le> 4096 \<and> length (cf_previous c) \<le> 4096) demo_changes"
    by (simp add: demo_changes_def)
  ultimately show ?thesis unfolding git_change_def list_all_iff by blast
qed

theorem planned_scope_is_stored_witness:
  "\<exists>plan. PlanWithMode ''critical'' (Some (render_changes ''100'' demo_changes)) (Some []) = Inr plan
     \<and> SaveReviewExecutionPlan \<lparr>pb_runs = [(5, 7)], pb_plans = []\<rparr> 5 (executionPlanFromRisk ''critical'' plan)
       = Inr (\<lparr>pb_runs = [(5, 7)], pb_plans = [(7, executionPlanFromRisk ''critical'' plan)]\<rparr>, executionPlanFromRisk ''critical'' plan)"
proof -
  obtain plan where plan: "PlanWithMode ''critical'' (Some (render_changes ''100'' demo_changes)) (Some []) = Inr plan"
    using demo_plan by blast
  have mode: "riskModeForJob '''' (Inr ''security'') = Inr ''critical''" by code_simp
  have valid: "ReviewConfigSection_Valid ''filters''" by code_simp
  have filters: "applyPathFilters (demo_gate\<lparr>gt_snapshots := []\<rparr>) 5 plan = Inr plan"
    by (simp add: applyPathFilters_def ReviewConfigSnapshotForJob_def demo_gate_def valid)
  have small: "distinct (map cf_path demo_changes)" "length demo_changes \<le> 10000" by (simp_all add: demo_changes_def)
  show ?thesis
    using planned_scope_is_stored [OF mode plan filters demo_parsed demo_changes_usable small,
        of "\<lparr>pb_runs = [(5, 7)], pb_plans = []\<rparr>" 7] plan by simp
qed

end
