(* ===== verification/Rule_Compiler.thy ===== *)
theory Rule_Compiler
  imports Config_Canonical
begin

text \<open>
  The rule compiler of \<open>internal/rules\<close>: it merges the published rule versions that apply to a
  review into one snapshot (\<open>compiler.go\<close>), removes the entries an approved exception covers and
  renders the rule file of the review engine (\<open>ocr.go\<close>).

  A rule's \<open>content\<close> is the JSON value of its text, \<open>None\<close> when \<open>json.Valid\<close> refuses the text; how
  \<open>json.Marshal\<close> prints a number, and the digest of a document, are the parameters \<open>num\<close> and \<open>sha\<close>.
  The Go maps of \<open>Compile\<close> are association lists; the string \<open>"%d:%s"\<close> of a precedence and a key
  is the pair of both.

  The proofs go through \<open>key_fold\<close>, which follows a single key through the sources: a compilation
  succeeds exactly when the keys of every precedence are distinct and every key can be followed to
  its end (\<open>compile_entries_iff\<close>).
\<close>

section \<open>Rules, sources and snapshots\<close>

record Rule =
  rl_key :: string
  rl_enforcement :: string
  rl_merge :: string
  rl_severity :: string
  rl_content :: "json option"
  rl_disabled :: bool

record Source =
  so_version :: string
  so_precedence :: int
  so_rules :: "Rule list"
  so_include :: "string list"
  so_exclude :: "string list"

record EffectiveRule =
  er_key :: string
  er_version :: string
  er_enforcement :: string
  er_merge :: string
  er_severity :: string
  er_content :: json

record AppliedException =
  ex_id :: string
  ex_key :: string
  ex_version :: string
  ex_scope_kind :: string
  ex_scope_ref :: string
  ex_branch :: string
  ex_expires :: string

record Snapshot =
  sp_schema :: int
  sp_engine :: string
  sp_merge_system :: bool
  sp_rules :: "EffectiveRule list"
  sp_include :: "string list"
  sp_exclude :: "string list"
  sp_exceptions :: "AppliedException list"

record Compiled =
  co_snapshot :: Snapshot
  co_canonical :: json
  co_sha :: string

definition Mandatory :: string where "Mandatory = ''mandatory''"
definition Advisory :: string where "Advisory = ''advisory''"
definition Replace :: string where "Replace = ''replace''"
definition Append :: string where "Append = ''append''"
definition DenyOverride :: string where "DenyOverride = ''deny_override''"

definition ruleSeverityRank :: "string \<Rightarrow> nat" where
  "ruleSeverityRank value =
     (let v = ToLower (TrimSpace value) in
      if v = ''low'' then 1 else if v = ''medium'' then 2 else if v = ''high'' then 3
      else if v = ''critical'' then 4 else 0)"

datatype rule_error = KeyRequired | InvalidEnforcement string | InvalidMerge string | InvalidSeverity string
  | InvalidContent string | DenyNeedsMandatory string

definition validate_rule :: "Rule \<Rightarrow> rule_error option" where
  "validate_rule r =
     (if rl_key r = '''' then Some KeyRequired
      else if rl_enforcement r \<noteq> Mandatory \<and> rl_enforcement r \<noteq> Advisory then Some (InvalidEnforcement (rl_key r))
      else if rl_merge r \<noteq> Replace \<and> rl_merge r \<noteq> Append \<and> rl_merge r \<noteq> DenyOverride
      then Some (InvalidMerge (rl_key r))
      else if ruleSeverityRank (rl_severity r) = 0 then Some (InvalidSeverity (rl_key r))
      else if \<not> rl_disabled r \<and> rl_content r = None then Some (InvalidContent (rl_key r))
      else if rl_merge r = DenyOverride \<and> rl_enforcement r \<noteq> Mandatory then Some (DenyNeedsMandatory (rl_key r))
      else None)"

definition protected_rule :: "EffectiveRule \<Rightarrow> bool" where
  "protected_rule e \<longleftrightarrow> er_enforcement e = Mandatory \<or> er_merge e = DenyOverride"

definition hasProtected :: "EffectiveRule list \<Rightarrow> bool" where
  "hasProtected rules \<longleftrightarrow> list_ex protected_rule rules"

definition protectedSeverity :: "EffectiveRule list \<Rightarrow> nat" where
  "protectedSeverity rules =
     fold (\<lambda>e rank. if protected_rule e then max rank (ruleSeverityRank (er_severity e)) else rank) rules 0"

definition canonicalContent :: "(json \<Rightarrow> json option) \<Rightarrow> json \<Rightarrow> json" where
  "canonicalContent num raw = (case canon num raw of None \<Rightarrow> raw | Some value \<Rightarrow> value)"

section \<open>Merging\<close>

datatype compile_error = VersionRequired | InvalidRule string rule_error | DuplicateKey string string
  | PrecedenceConflict string int string string | CannotDisable string | OnlyTightened string

type_synonym by_key = "(string \<times> EffectiveRule list) list"

definition entries_of :: "by_key \<Rightarrow> string \<Rightarrow> EffectiveRule list" where
  "entries_of byKey key = (case map_of byKey key of None \<Rightarrow> [] | Some es \<Rightarrow> es)"

definition normalized_rule :: "Rule \<Rightarrow> Rule" where
  "normalized_rule r = r\<lparr>rl_key := TrimSpace (rl_key r), rl_severity := ToLower (TrimSpace (rl_severity r))\<rparr>"

definition effective_rule :: "(json \<Rightarrow> json option) \<Rightarrow> string \<Rightarrow> Rule \<Rightarrow> EffectiveRule" where
  "effective_rule num version r = \<lparr>er_key = rl_key r, er_version = version, er_enforcement = rl_enforcement r,
     er_merge = rl_merge r, er_severity = rl_severity r,
     er_content = (case rl_content r of None \<Rightarrow> JNull | Some raw \<Rightarrow> canonicalContent num raw)\<rparr>"

text \<open>The entries of one key after a rule of that key, from its current entries; no entry means
  that the key is absent from the map.\<close>

definition merge_rule ::
  "(json \<Rightarrow> json option) \<Rightarrow> string \<Rightarrow> Rule \<Rightarrow> EffectiveRule list \<Rightarrow> compile_error + EffectiveRule list" where
  "merge_rule num version r current =
     (if rl_disabled r then
        (if current = [] then Inr []
         else if hasProtected current then Inl (CannotDisable (rl_key r))
         else Inr [])
      else let effective = effective_rule num version r in
        if current = [] then Inr [effective]
        else if hasProtected current then
          (if rl_enforcement r \<noteq> Mandatory \<or> ruleSeverityRank (rl_severity r) < protectedSeverity current
           then Inl (OnlyTightened (rl_key r))
           else if er_merge (last current) = Append \<or> rl_merge r = Append then Inr (current @ [effective])
           else Inr [effective])
        else if rl_merge r = Append then Inr (current @ [effective])
        else Inr [effective])"

record merge_state =
  ms_by_key :: by_key
  ms_seen :: "((int \<times> string) \<times> string) list"
  ms_include :: "string list"
  ms_exclude :: "string list"

definition store_entries :: "string \<Rightarrow> EffectiveRule list \<Rightarrow> by_key \<Rightarrow> by_key" where
  "store_entries key es byKey = (if es = [] then AList.delete key byKey else AList.update key es byKey)"

fun compile_rules ::
  "(json \<Rightarrow> json option) \<Rightarrow> string \<Rightarrow> int \<Rightarrow> string list \<Rightarrow> Rule list \<Rightarrow> merge_state \<Rightarrow> compile_error + merge_state" where
  "compile_rules num version precedence local [] st = Inr st"
| "compile_rules num version precedence local (r # rs) st =
     (let r = normalized_rule r in
      case validate_rule r of Some err \<Rightarrow> Inl (InvalidRule version err)
      | None \<Rightarrow>
        if rl_key r \<in> set local then Inl (DuplicateKey version (rl_key r))
        else case map_of (ms_seen st) (precedence, rl_key r) of
          Some prior \<Rightarrow> Inl (PrecedenceConflict (rl_key r) precedence prior version)
        | None \<Rightarrow>
          bind_r (merge_rule num version r (entries_of (ms_by_key st) (rl_key r))) (\<lambda>es.
          compile_rules num version precedence (rl_key r # local) rs
            (st\<lparr>ms_seen := ((precedence, rl_key r), version) # ms_seen st,
                ms_by_key := store_entries (rl_key r) es (ms_by_key st)\<rparr>)))"

definition patterns :: "string list \<Rightarrow> string list" where
  "patterns ps = filter (\<lambda>p. p \<noteq> '''') (map TrimSpace ps)"

fun compile_sources ::
  "(json \<Rightarrow> json option) \<Rightarrow> Source list \<Rightarrow> merge_state \<Rightarrow> compile_error + merge_state" where
  "compile_sources num [] st = Inr st"
| "compile_sources num (s # ss) st =
     (if TrimSpace (so_version s) = '''' then Inl VersionRequired
      else bind_r (compile_rules num (TrimSpace (so_version s)) (so_precedence s) [] (so_rules s)
             (st\<lparr>ms_include := ms_include st @ patterns (so_include s),
                 ms_exclude := ms_exclude st @ patterns (so_exclude s)\<rparr>)) (compile_sources num ss))"

definition sortedPatterns :: "string list \<Rightarrow> string list" where
  "sortedPatterns ps = sort (remdups ps)"

definition source_order :: "Source \<Rightarrow> int \<times> string" where
  "source_order s = (so_precedence s, so_version s)"

section \<open>The compiled snapshot\<close>

text \<open>The document \<open>json.Marshal\<close> writes. The slice of the rules is nil, and so printed as
  \<open>null\<close>, when the sources left no rule; when exceptions removed the last one it is empty.\<close>

definition effective_json :: "EffectiveRule \<Rightarrow> json" where
  "effective_json e = JObj [(''key'', JStr (er_key e)), (''source_version'', JStr (er_version e)),
     (''enforcement'', JStr (er_enforcement e)), (''merge_behavior'', JStr (er_merge e)),
     (''severity'', JStr (er_severity e)), (''content'', er_content e)]"

definition omit_empty :: "string \<Rightarrow> string \<Rightarrow> (string \<times> json) list" where
  "omit_empty name s = (if s = '''' then [] else [(name, JStr s)])"

definition exception_json :: "AppliedException \<Rightarrow> json" where
  "exception_json x = JObj ([(''id'', JStr (ex_id x)), (''rule_key'', JStr (ex_key x)),
     (''source_version'', JStr (ex_version x)), (''scope_kind'', JStr (ex_scope_kind x))]
     @ omit_empty ''scope_ref'' (ex_scope_ref x) @ omit_empty ''target_branch_glob'' (ex_branch x)
     @ [(''expires_at'', JStr (ex_expires x))])"

definition omit_empty_list :: "string \<Rightarrow> json list \<Rightarrow> (string \<times> json) list" where
  "omit_empty_list name js = (if js = [] then [] else [(name, JArr js)])"

definition snapshot_json :: "Snapshot \<Rightarrow> json" where
  "snapshot_json s = JObj ([(''schema_version'', JInt (sp_schema s)), (''engine'', JStr (sp_engine s)),
     (''merge_system_rule'', JBool (sp_merge_system s)),
     (''rules'', if sp_rules s = [] \<and> sp_exceptions s = [] then JNull else JArr (map effective_json (sp_rules s)))]
     @ omit_empty_list ''include'' (map JStr (sp_include s)) @ omit_empty_list ''exclude'' (map JStr (sp_exclude s))
     @ omit_empty_list ''applied_exceptions'' (map exception_json (sp_exceptions s)))"

definition compiled_of :: "(json \<Rightarrow> string) \<Rightarrow> Snapshot \<Rightarrow> Compiled" where
  "compiled_of sha s = \<lparr>co_snapshot = s, co_canonical = snapshot_json s, co_sha = sha (snapshot_json s)\<rparr>"

definition snapshot_of :: "merge_state \<Rightarrow> Snapshot" where
  "snapshot_of st = \<lparr>sp_schema = 2, sp_engine = ''ocr'', sp_merge_system = True,
     sp_rules = concat (map (entries_of (ms_by_key st)) (sort (map fst (ms_by_key st)))),
     sp_include = sortedPatterns (ms_include st), sp_exclude = sortedPatterns (ms_exclude st), sp_exceptions = []\<rparr>"

definition Compile :: "(json \<Rightarrow> json option) \<Rightarrow> (json \<Rightarrow> string) \<Rightarrow> Source list \<Rightarrow> compile_error + Compiled" where
  "Compile num sha sources =
     bind_r (compile_sources num (sort_key source_order sources)
         \<lparr>ms_by_key = [], ms_seen = [], ms_include = [], ms_exclude = []\<rparr>)
       (\<lambda>st. Inr (compiled_of sha (snapshot_of st)))"

section \<open>Exceptions\<close>

datatype exception_error = ExceptionIncomplete | DuplicateException string

fun check_exceptions :: "string list \<Rightarrow> AppliedException list \<Rightarrow> exception_error option" where
  "check_exceptions seen [] = None"
| "check_exceptions seen (x # xs) =
     (if TrimSpace (ex_id x) = '''' \<or> TrimSpace (ex_key x) = '''' \<or> TrimSpace (ex_version x) = ''''
         \<or> TrimSpace (ex_expires x) = '''' then Some ExceptionIncomplete
      else if ex_id x \<in> set seen then Some (DuplicateException (ex_id x))
      else check_exceptions (ex_id x # seen) xs)"

definition covers :: "AppliedException \<Rightarrow> EffectiveRule \<Rightarrow> bool" where
  "covers x e \<longleftrightarrow> ex_key x = er_key e \<and> ex_version x = er_version e"

definition matched_ids :: "AppliedException list \<Rightarrow> EffectiveRule list \<Rightarrow> string list" where
  "matched_ids xs rules = concat (map (\<lambda>e. case find (\<lambda>x. covers x e) xs of None \<Rightarrow> [] | Some x \<Rightarrow> [ex_id x]) rules)"

definition ApplyExceptions ::
  "(json \<Rightarrow> string) \<Rightarrow> Compiled \<Rightarrow> AppliedException list \<Rightarrow> exception_error + Compiled" where
  "ApplyExceptions sha compiled exceptions =
     (if exceptions = [] then Inr compiled
      else let exceptions = sort_key ex_id exceptions in
        case check_exceptions [] exceptions of Some err \<Rightarrow> Inl err
        | None \<Rightarrow>
          let snapshot = co_snapshot compiled;
              matched = matched_ids exceptions (sp_rules snapshot)
          in Inr (compiled_of sha (snapshot
               \<lparr>sp_rules := filter (\<lambda>e. \<not> list_ex (\<lambda>x. covers x e) exceptions) (sp_rules snapshot),
                sp_exceptions := filter (\<lambda>x. ex_id x \<in> set matched) exceptions\<rparr>)))"

section \<open>The rule file of the engine\<close>

record OCRRule =
  or_path :: string
  or_rule :: string
  or_merge :: bool

record OCRRuleFile =
  of_rules :: "OCRRule list"
  of_include :: "string list"
  of_exclude :: "string list"

datatype ocr_error = UnsupportedEngine string | InvalidOCRContent string | PromptRequired string

text \<open>\<open>json.Unmarshal\<close> into a struct matches the member names without regard to case, member by
  member; the case folding is that of \<open>ToLower\<close>, exact for these two names.\<close>

definition prompt_field :: "string \<Rightarrow> json \<Rightarrow> string \<times> string \<Rightarrow> (string \<times> string) option" where
  "prompt_field name j c =
     (if ToLower name = ''prompt'' then map_option (\<lambda>s. (s, snd c)) (unmarshal_string j (fst c))
      else if ToLower name = ''rule'' then map_option (\<lambda>s. (fst c, s)) (unmarshal_string j (snd c))
      else Some c)"

definition ocrPrompt :: "EffectiveRule \<Rightarrow> ocr_error + string" where
  "ocrPrompt e =
     (case (case er_content e of JNull \<Rightarrow> Some ('''', '''') | JObj kvs \<Rightarrow> decode_fields prompt_field kvs ('''', '''') | _ \<Rightarrow> None) of
        None \<Rightarrow> Inl (InvalidOCRContent (er_key e))
      | Some (content_prompt, content_rule) \<Rightarrow>
        let prompt = TrimSpace content_prompt;
            prompt = (if prompt = '''' then TrimSpace content_rule else prompt) in
        if prompt = '''' then Inl (PromptRequired (er_key e)) else Inr prompt)"

definition nl :: string where "nl = [CHR 0x0A]"

definition rule_section :: "EffectiveRule \<Rightarrow> string \<Rightarrow> string" where
  "rule_section e prompt = ''## '' @ er_key e @ nl @ nl @ ''Severity: '' @ er_severity e @ nl @ ''Enforcement: '' @ er_enforcement e
     @ nl @ ''Source version: '' @ er_version e @ nl @ nl @ prompt"

fun rule_sections :: "EffectiveRule list \<Rightarrow> ocr_error + string list" where
  "rule_sections [] = Inr []"
| "rule_sections (e # es) =
     bind_r (ocrPrompt e) (\<lambda>prompt. bind_r (rule_sections es) (\<lambda>rest. Inr (rule_section e prompt # rest)))"

fun join_sections :: "string \<Rightarrow> string list \<Rightarrow> string" where
  "join_sections sep [] = ''''"
| "join_sections sep [s] = s"
| "join_sections sep (s # t # ss) = s @ sep @ join_sections sep (t # ss)"

definition attributionContract :: string where
  "attributionContract = ''## Finding attribution contract'' @ nl @ nl
     @ ''When a finding is directly caused by one or more enterprise rules above, include `rule_references` in the structured finding output. ''
     @ ''Each entry must contain the exact `rule_key` and `source_version` shown in that rule heading. ''
     @ ''Omit the field for system-only findings or when no exact rule is responsible. Never guess a key or version.'' @ nl @ nl"

definition OCRRuleFileForSnapshot :: "Snapshot \<Rightarrow> ocr_error + OCRRuleFile" where
  "OCRRuleFileForSnapshot snapshot =
     (if sp_engine snapshot \<noteq> ''ocr'' then Inl (UnsupportedEngine (sp_engine snapshot))
      else if sp_rules snapshot = [] then Inr \<lparr>of_rules = [], of_include = [], of_exclude = []\<rparr>
      else bind_r (rule_sections (sp_rules snapshot)) (\<lambda>sections.
        Inr \<lparr>of_rules = [\<lparr>or_path = ''**/*'', or_rule = ''# Enterprise review rules'' @ nl @ nl @ attributionContract
                 @ join_sections (nl @ nl @ ''---'' @ nl @ nl) sections, or_merge = sp_merge_system snapshot\<rparr>],
             of_include = sp_include snapshot, of_exclude = sp_exclude snapshot\<rparr>))"

definition CompileExecutionRuleFile :: "string \<Rightarrow> Snapshot option \<Rightarrow> ocr_error + OCRRuleFile" where
  "CompileExecutionRuleFile prompt snapshot =
     bind_r (case snapshot of None \<Rightarrow> Inr \<lparr>of_rules = [], of_include = [], of_exclude = []\<rparr>
             | Some compiled \<Rightarrow> OCRRuleFileForSnapshot compiled) (\<lambda>file.
     Inr (if prompt = '''' then file
          else case of_rules file of
            [] \<Rightarrow> file\<lparr>of_rules := [\<lparr>or_path = ''**/*'', or_rule = prompt, or_merge = True\<rparr>]\<rparr>
          | r # rs \<Rightarrow> file\<lparr>of_rules := r\<lparr>or_rule := or_rule r @ nl @ nl @ ''---'' @ nl @ nl @ prompt\<rparr> # rs\<rparr>))"

section \<open>One key at a time\<close>

type_synonym entry = "int \<times> string \<times> Rule"

definition entry_key :: "entry \<Rightarrow> string" where "entry_key e = rl_key (snd (snd e))"

definition entry_slot :: "entry \<Rightarrow> int \<times> string" where "entry_slot e = (fst e, entry_key e)"

definition source_entries :: "Source \<Rightarrow> entry list" where
  "source_entries s = map (\<lambda>r. (so_precedence s, TrimSpace (so_version s), normalized_rule r)) (so_rules s)"

fun run_entries ::
  "(json \<Rightarrow> json option) \<Rightarrow> entry list \<Rightarrow> ((int \<times> string) \<times> string) list \<Rightarrow> by_key
   \<Rightarrow> compile_error + ((int \<times> string) \<times> string) list \<times> by_key" where
  "run_entries num [] seen b = Inr (seen, b)"
| "run_entries num ((p, v, r) # es) seen b =
     (case validate_rule r of Some err \<Rightarrow> Inl (InvalidRule v err)
      | None \<Rightarrow> case map_of seen (p, rl_key r) of
          Some prior \<Rightarrow> Inl (PrecedenceConflict (rl_key r) p prior v)
        | None \<Rightarrow> bind_r (merge_rule num v r (entries_of b (rl_key r))) (\<lambda>es'.
            run_entries num es (((p, rl_key r), v) # seen) (store_entries (rl_key r) es' b)))"

fun key_fold :: "(json \<Rightarrow> json option) \<Rightarrow> entry list \<Rightarrow> EffectiveRule list \<Rightarrow> EffectiveRule list option" where
  "key_fold num [] current = Some current"
| "key_fold num ((p, v, r) # es) current =
     (case merge_rule num v r current of Inl _ \<Rightarrow> None | Inr current' \<Rightarrow> key_fold num es current')"

definition by_key_wf :: "by_key \<Rightarrow> bool" where
  "by_key_wf b \<longleftrightarrow> distinct (map fst b) \<and> (\<forall>(k, es) \<in> set b. es \<noteq> [])"

lemma entries_of_store [simp]:
  "entries_of (store_entries k es b) k' = (if k' = k then es else entries_of b k')"
  by (auto simp: entries_of_def store_entries_def update_conv' delete_conv')

lemma store_entries_wf:
  assumes "by_key_wf b"
  shows "by_key_wf (store_entries k es b)"
proof (cases "es = []")
  case True
  then show ?thesis using assms distinct_delete [of b k]
    by (auto simp: by_key_wf_def store_entries_def AList.delete_eq)
next
  case False
  have "set (AList.update k es b) \<subseteq> insert (k, es) (set b)" by (induction b) auto
  then show ?thesis using assms False distinct_update [of b k es] by (auto simp: by_key_wf_def store_entries_def)
qed

lemma entries_of_wf: "by_key_wf b \<Longrightarrow> fst ` set b = {k. entries_of b k \<noteq> []}"
  by (auto simp: by_key_wf_def entries_of_def dest: map_of_SomeD split: option.splits)
    (metis (mono_tags, lifting) case_prodD image_eqI fst_conv map_of_eq_None_iff map_of_SomeD not_Some_eq)+

text \<open>The check for a key that a source has twice is a special case of the check for a key that
  a precedence has twice.\<close>

lemma compile_rules_run:
  assumes "\<forall>k \<in> set local. (p, k) \<in> fst ` set (ms_seen st)"
  shows "compile_rules num v p local rs st = Inr st'
     \<longleftrightarrow> (\<exists>seen b. run_entries num (map (\<lambda>r. (p, v, normalized_rule r)) rs) (ms_seen st) (ms_by_key st) = Inr (seen, b)
            \<and> st' = st\<lparr>ms_seen := seen, ms_by_key := b\<rparr>)"
  using assms
proof (induction rs arbitrary: local st)
  case (Cons r rs)
  let ?r = "normalized_rule r"
  have seen: "map_of (ms_seen st) (p, k) \<noteq> None" if "k \<in> set local" for k
    using Cons.prems that by (auto simp: map_of_eq_None_iff)
  show ?case
  proof (cases "validate_rule ?r = None \<and> map_of (ms_seen st) (p, rl_key ?r) = None")
    case True
    then have fresh: "rl_key ?r \<notin> set local" using seen by blast
    have "compile_rules num v p (rl_key ?r # local) rs (st\<lparr>ms_seen := ((p, rl_key ?r), v) # ms_seen st, ms_by_key := b\<rparr>) = Inr st'
       \<longleftrightarrow> (\<exists>seen b'. run_entries num (map (\<lambda>r. (p, v, normalized_rule r)) rs) (((p, rl_key ?r), v) # ms_seen st) b = Inr (seen, b')
            \<and> st' = st\<lparr>ms_seen := seen, ms_by_key := b'\<rparr>)" for b
      using Cons.IH [of "rl_key ?r # local" "st\<lparr>ms_seen := ((p, rl_key ?r), v) # ms_seen st, ms_by_key := b\<rparr>"] Cons.prems by auto
    then show ?thesis using True fresh by (auto simp: Let_def bind_r_Inr_iff)
  next
    case False
    then show ?thesis by (auto simp: Let_def split: option.splits)
  qed
qed auto

lemma run_entries_append:
  "run_entries num (xs @ ys) seen b = bind_r (run_entries num xs seen b) (\<lambda>(seen, b). run_entries num ys seen b)"
  by (induction num xs seen b rule: run_entries.induct) (auto simp: bind_r_def split: option.splits sum.splits)

lemma compile_sources_run:
  "compile_sources num ss st = Inr st' \<longleftrightarrow> (\<forall>s \<in> set ss. TrimSpace (so_version s) \<noteq> '''')
     \<and> (\<exists>seen b. run_entries num (concat (map source_entries ss)) (ms_seen st) (ms_by_key st) = Inr (seen, b)
          \<and> st' = \<lparr>ms_by_key = b, ms_seen = seen, ms_include = ms_include st @ concat (map (patterns \<circ> so_include) ss),
                ms_exclude = ms_exclude st @ concat (map (patterns \<circ> so_exclude) ss)\<rparr>)"
proof (induction ss arbitrary: st)
  case Nil
  then show ?case by (auto simp: merge_state.equality)
next
  case (Cons s ss)
  then show ?case
    by (auto simp: bind_r_Inr_iff compile_rules_run run_entries_append source_entries_def)
qed

text \<open>A run over the entries succeeds exactly when every rule is valid, no slot is taken twice and
  every key can be followed to its end; each key then has the entries it was followed to.\<close>

lemma run_entries_result:
  assumes "run_entries num es seen b = Inr (seen', b')" "by_key_wf b"
  shows "by_key_wf b'" "key_fold num (filter (\<lambda>e. entry_key e = k) es) (entries_of b k) = Some (entries_of b' k)"
    "\<forall>e \<in> set es. validate_rule (snd (snd e)) = None" "distinct (map entry_slot es)"
    "entry_slot ` set es \<inter> fst ` set seen = {}"
proof -
  have "by_key_wf b' \<and> key_fold num (filter (\<lambda>e. entry_key e = k) es) (entries_of b k) = Some (entries_of b' k)
      \<and> (\<forall>e \<in> set es. validate_rule (snd (snd e)) = None) \<and> distinct (map entry_slot es)
      \<and> entry_slot ` set es \<inter> fst ` set seen = {}"
    using assms
  proof (induction num es seen b rule: run_entries.induct)
    case (2 num p v r es seen b)
    from "2.prems"(1) obtain es' where ok: "validate_rule r = None" "map_of seen (p, rl_key r) = None"
      "merge_rule num v r (entries_of b (rl_key r)) = Inr es'"
      "run_entries num es (((p, rl_key r), v) # seen) (store_entries (rl_key r) es' b) = Inr (seen', b')"
      by (auto simp: bind_r_Inr_iff split: option.splits)
    note IH = "2.IH" [OF ok(1,2) ok(4) store_entries_wf [OF "2.prems"(2)]]
    then show ?case using ok by (auto simp: entry_key_def entry_slot_def map_of_eq_None_iff)
  qed simp
  then show "by_key_wf b'" "key_fold num (filter (\<lambda>e. entry_key e = k) es) (entries_of b k) = Some (entries_of b' k)"
    "\<forall>e \<in> set es. validate_rule (snd (snd e)) = None" "distinct (map entry_slot es)"
    "entry_slot ` set es \<inter> fst ` set seen = {}" by blast+
qed

lemma run_entries_succeeds:
  assumes "\<forall>e \<in> set es. validate_rule (snd (snd e)) = None" "distinct (map entry_slot es)"
    and "entry_slot ` set es \<inter> fst ` set seen = {}"
    and "\<forall>k. key_fold num (filter (\<lambda>e. entry_key e = k) es) (entries_of b k) \<noteq> None"
  shows "\<exists>seen' b'. run_entries num es seen b = Inr (seen', b')"
  using assms
proof (induction num es seen b rule: run_entries.induct)
  case (2 num p v r es seen b)
  have ok: "validate_rule r = None" "map_of seen (p, rl_key r) = None"
    using "2.prems"(1,3) by (auto simp: map_of_eq_None_iff entry_slot_def entry_key_def)
  obtain es' where es': "merge_rule num v r (entries_of b (rl_key r)) = Inr es'"
    using spec [OF "2.prems"(4), of "rl_key r"] by (auto simp: entry_key_def split: sum.splits)
  have "key_fold num (filter (\<lambda>e. entry_key e = k) es) (entries_of (store_entries (rl_key r) es' b) k) \<noteq> None" for k
    using spec [OF "2.prems"(4), of k] es' by (auto simp: entry_key_def)
  then have "\<exists>seen' b'. run_entries num es (((p, rl_key r), v) # seen) (store_entries (rl_key r) es' b) = Inr (seen', b')"
    using "2.prems"(1-3) by (intro "2.IH" [OF ok]) (auto simp: entry_slot_def entry_key_def)
  then show ?case using ok es' by (simp add: bind_r_def)
qed simp

section \<open>The order of the sources does not matter\<close>

definition all_entries :: "Source list \<Rightarrow> entry list" where
  "all_entries sources = concat (map source_entries (sort_key source_order sources))"

lemma entries_sorted: "sorted (map fst (all_entries sources))"
proof -
  have "sorted (map so_precedence (sort_key source_order sources))"
    using sorted_sort_key [of source_order sources]
    by (auto simp: sorted_map source_order_def less_eq_prod_def intro: sorted_wrt_mono_rel [rotated] order.strict_implies_order)
  moreover have "sorted (map fst (concat (map source_entries ss)))" if "sorted (map so_precedence ss)" for ss
    using that
  proof (induction ss)
    case (Cons s ss)
    have own: "sorted (map fst (source_entries s))" by (simp add: source_entries_def comp_def map_replicate_const sorted_replicate)
    have rest: "sorted (map fst (concat (map source_entries ss)))" using Cons by simp
    have "x \<le> y" if xy: "x \<in> set (map fst (source_entries s))" "y \<in> set (map fst (concat (map source_entries ss)))" for x y
    proof -
      have "x = so_precedence s" using xy(1) by (auto simp: source_entries_def)
      moreover obtain t where "t \<in> set ss" "y = so_precedence t" using xy(2) by (auto simp: source_entries_def)
      ultimately show ?thesis using Cons.prems by simp
    qed
    then show ?case using own rest by (simp add: sorted_append)
  qed simp
  ultimately show ?thesis by (simp add: all_entries_def)
qed

lemma mset_concat_map: "mset xs = mset ys \<Longrightarrow> mset (concat (map f xs)) = mset (concat (map f ys))"
  by (metis mset_concat mset_map image_mset.compositionality sum_mset_sum_list)

lemma all_entries_mset: "mset xs = mset ys \<Longrightarrow> mset (all_entries xs) = mset (all_entries ys)"
  unfolding all_entries_def by (rule mset_concat_map) simp

lemma key_entries_unique:
  assumes "mset xs = mset ys" "sorted (map fst xs)" "sorted (map fst ys)" "distinct (map entry_slot xs)"
  shows "filter (\<lambda>e. entry_key e = k) xs = filter (\<lambda>e. entry_key e = k) ys"
proof -
  let ?f = "filter (\<lambda>e. entry_key e = k)"
  have m: "mset (?f xs) = mset (?f ys)" using assms(1) by (metis mset_filter)
  have "inj_on entry_slot (set xs)" using assms(4) by (simp add: distinct_map)
  then have inj: "inj_on fst (set (?f xs))" by (auto simp: inj_on_def entry_slot_def)
  have "?f xs = sort_key fst (?f xs)" using assms(2) by (simp add: sort_key_id_if_sorted sorted_filter)
  also have "\<dots> = sort_key fst (?f ys)" using m inj by (rule sort_key_perm)
  also have "\<dots> = ?f ys" using assms(3) by (simp add: sort_key_id_if_sorted sorted_filter)
  finally show ?thesis .
qed

lemma Compile_iff:
  "Compile num sha sources = Inr c \<longleftrightarrow> (\<forall>s \<in> set sources. TrimSpace (so_version s) \<noteq> '''')
     \<and> (\<exists>seen b. run_entries num (all_entries sources) [] [] = Inr (seen, b)
          \<and> c = compiled_of sha \<lparr>sp_schema = 2, sp_engine = ''ocr'', sp_merge_system = True,
               sp_rules = concat (map (entries_of b) (sort (map fst b))),
               sp_include = sortedPatterns (concat (map (patterns \<circ> so_include) (sort_key source_order sources))),
               sp_exclude = sortedPatterns (concat (map (patterns \<circ> so_exclude) (sort_key source_order sources))),
               sp_exceptions = []\<rparr>)"
  unfolding Compile_def bind_r_Inr_iff compile_sources_run all_entries_def snapshot_of_def by auto

lemma snapshot_rules_unique:
  assumes "by_key_wf b" "by_key_wf b'" "\<And>k. entries_of b k = entries_of b' k"
  shows "concat (map (entries_of b) (sort (map fst b))) = concat (map (entries_of b') (sort (map fst b')))"
proof -
  have "set (map fst b) = set (map fst b')" using entries_of_wf [OF assms(1)] entries_of_wf [OF assms(2)] assms(3) by simp
  then have "sort (map fst b) = sort (map fst b')"
    using assms(1,2) by (intro sorted_distinct_set_unique) (simp_all add: by_key_wf_def)
  then show ?thesis using assms(3) by (simp cong: map_cong)
qed

lemma sortedPatterns_set: "set xs = set ys \<Longrightarrow> sortedPatterns xs = sortedPatterns ys"
  unfolding sortedPatterns_def by (intro sorted_distinct_set_unique) simp_all

lemma empty_wf: "by_key_wf []" by (simp add: by_key_wf_def)

lemma Compile_permuted:
  assumes "mset xs = mset ys" "Compile num sha xs = Inr c"
  shows "Compile num sha ys = Inr c"
proof -
  obtain seen b where run: "run_entries num (all_entries xs) [] [] = Inr (seen, b)"
    using assms(2) Compile_iff by blast
  note r = run_entries_result [OF run empty_wf]
  have set: "set xs = set ys" using assms(1) by (metis set_mset_mset)
  have m: "mset (all_entries xs) = mset (all_entries ys)" using assms(1) by (rule all_entries_mset)
  have same: "filter (\<lambda>e. entry_key e = k) (all_entries ys) = filter (\<lambda>e. entry_key e = k) (all_entries xs)" for k
    using key_entries_unique [OF m entries_sorted entries_sorted r(4)] by simp
  have "distinct (map entry_slot (all_entries ys))" using r(4) m by (metis mset_map mset_eq_imp_distinct_iff)
  moreover have "set (all_entries xs) = set (all_entries ys)" using m by (metis set_mset_mset)
  ultimately obtain seen' b' where run': "run_entries num (all_entries ys) [] [] = Inr (seen', b')"
    using run_entries_succeeds [of "all_entries ys" "[]" num "[]"] r same by (auto simp: r)
  note r' = run_entries_result [OF run' empty_wf]
  have "entries_of b k = entries_of b' k" for k using r(2) [of k] r'(2) [of k] same by simp
  note rules = snapshot_rules_unique [OF r(1) r'(1) this]
  have "sortedPatterns (concat (map f (sort_key source_order xs))) = sortedPatterns (concat (map f (sort_key source_order ys)))" for f
    by (intro sortedPatterns_set) (simp add: set)
  then show ?thesis using assms(2) set run run' rules by (auto simp: Compile_iff)
qed

text \<open>C37. The compiled rules depend on the sources alone, not on the order they are given in: a
  compilation of the same sources in another order succeeds with the same snapshot, canonical
  document and digest, or it fails too. The order of the bindings in the database and the tie
  break by version never decide which rule is in force.\<close>

theorem compile_order_independent:
  assumes "mset sources = mset sources'"
  shows "Compile num sha sources = Inr c \<longleftrightarrow> Compile num sha sources' = Inr c"
  using Compile_permuted [OF assms] Compile_permuted [OF assms [symmetric]] by blast

section \<open>Mandatory rules stay in force\<close>

definition in_force :: "nat \<Rightarrow> EffectiveRule \<Rightarrow> bool" where
  "in_force rank e \<longleftrightarrow> er_enforcement e = Mandatory \<and> rank \<le> ruleSeverityRank (er_severity e)"

lemma protectedSeverity_ge:
  assumes "e \<in> set es" "er_enforcement e = Mandatory"
  shows "ruleSeverityRank (er_severity e) \<le> protectedSeverity es"
proof -
  let ?f = "\<lambda>e rank. if protected_rule e then max rank (ruleSeverityRank (er_severity e)) else rank"
  have mono: "n \<le> fold ?f xs n" for n xs
  proof (induction xs arbitrary: n)
    case (Cons x xs)
    show ?case using Cons.IH [of "?f x n"] by (auto intro: order_trans [rotated])
  qed simp
  have "ruleSeverityRank (er_severity e) \<le> fold ?f es n" for n
    using assms(1)
  proof (induction es arbitrary: n)
    case (Cons x xs)
    then show ?case
      using mono [of "?f x n" xs] assms(2) by (auto simp: protected_rule_def intro: order_trans [rotated])
  qed simp
  then show ?thesis unfolding protectedSeverity_def .
qed

lemma merge_keeps_force:
  assumes "merge_rule num v r current = Inr current'" "e \<in> set current" "in_force n e"
  shows "\<exists>e' \<in> set current'. in_force n e' \<and> (e' = e \<or> e' = effective_rule num v r)"
proof -
  have p: "hasProtected current" using assms(2,3) by (auto simp: hasProtected_def list_ex_iff protected_rule_def in_force_def)
  have "n \<le> protectedSeverity current"
    using protectedSeverity_ge [OF assms(2)] assms(3) by (auto simp: in_force_def)
  then show ?thesis using assms p
    by (auto simp: merge_rule_def Let_def in_force_def effective_rule_def split: if_splits)
qed

lemma key_fold_keeps_force:
  assumes "key_fold num es current = Some final" "e \<in> set current" "in_force n e"
  shows "\<exists>e' \<in> set final. in_force n e' \<and> (e' = e \<or> (\<exists>(p, v, r) \<in> set es. e' = effective_rule num v r))"
  using assms
proof (induction num es current arbitrary: e rule: key_fold.induct)
  case (2 num p v r es current)
  from "2.prems"(1) obtain current' where m: "merge_rule num v r current = Inr current'" "key_fold num es current' = Some final"
    by (auto split: sum.splits)
  obtain e1 where e1: "e1 \<in> set current'" "in_force n e1" "e1 = e \<or> e1 = effective_rule num v r"
    using merge_keeps_force [OF m(1) "2.prems"(2,3)] by blast
  show ?case using "2.IH" [OF m(1,2) e1(1,2)] e1(3) by fastforce
qed auto

lemma merge_enters:
  assumes "merge_rule num v r current = Inr current'" "\<not> rl_disabled r"
  shows "effective_rule num v r \<in> set current'"
  using assms by (auto simp: merge_rule_def Let_def split: if_splits)

lemma key_fold_enters:
  assumes "key_fold num (xs @ (p, v, r) # ys) current = Some final"
    and "\<not> rl_disabled r" "rl_enforcement r = Mandatory"
  shows "\<exists>e \<in> set final. in_force (ruleSeverityRank (rl_severity r)) e
     \<and> (\<exists>(p', v', r') \<in> set ((p, v, r) # ys). e = effective_rule num v' r')"
  using assms(1)
proof (induction num xs current rule: key_fold.induct)
  case (1 num current)
  then obtain current' where m: "merge_rule num v r current = Inr current'" "key_fold num ys current' = Some final"
    by (auto split: sum.splits)
  have "in_force (ruleSeverityRank (rl_severity r)) (effective_rule num v r)"
    using assms(3) by (simp add: in_force_def effective_rule_def)
  from key_fold_keeps_force [OF m(2) merge_enters [OF m(1) assms(2)] this] show ?case by fastforce
next
  case (2 num p' v' r' es current)
  then show ?case by (auto split: sum.splits)
qed

lemma severity_rank_normal: "ruleSeverityRank (rl_severity (normalized_rule r)) = ruleSeverityRank (rl_severity r)"
  by (simp add: normalized_rule_def ruleSeverityRank_def)

lemma compiled_rules:
  assumes "Compile num sha sources = Inr c"
  shows "\<exists>es. key_fold num (filter (\<lambda>e. entry_key e = k) (all_entries sources)) [] = Some es
     \<and> set es \<subseteq> set (sp_rules (co_snapshot c))"
proof -
  obtain seen b where run: "run_entries num (all_entries sources) [] [] = Inr (seen, b)"
    and rules: "sp_rules (co_snapshot c) = concat (map (entries_of b) (sort (map fst b)))"
    using assms by (auto simp: Compile_iff compiled_of_def)
  note r = run_entries_result [OF run empty_wf]
  have "set (entries_of b k) \<subseteq> set (sp_rules (co_snapshot c))"
    using entries_of_wf [OF r(1)] by (cases "entries_of b k = []") (auto simp: rules)
  then show ?thesis using r(2) [of k] by (auto simp: entries_of_def)
qed

lemma mandatory_kept:
  assumes "Compile num sha sources = Inr c" "s \<in> set sources" "r \<in> set (so_rules s)"
    and "\<not> rl_disabled r" "rl_enforcement r = Mandatory"
  shows "\<exists>e \<in> set (sp_rules (co_snapshot c)). er_key e = TrimSpace (rl_key r) \<and> er_enforcement e = Mandatory
     \<and> ruleSeverityRank (rl_severity r) \<le> ruleSeverityRank (er_severity e)
     \<and> (\<exists>s' \<in> set sources. er_version e = TrimSpace (so_version s') \<and> so_precedence s \<le> so_precedence s')"
proof -
  let ?n = "normalized_rule r" and ?k = "TrimSpace (rl_key r)"
  let ?es = "filter (\<lambda>e. entry_key e = ?k) (all_entries sources)"
  have n: "rl_key ?n = ?k" "\<not> rl_disabled ?n" "rl_enforcement ?n = Mandatory" using assms(4,5) by (simp_all add: normalized_rule_def)
  have "(so_precedence s, TrimSpace (so_version s), ?n) \<in> set ?es"
    using assms(2,3) n(1) by (auto simp: all_entries_def source_entries_def entry_key_def)
  then obtain xs ys where split: "?es = xs @ (so_precedence s, TrimSpace (so_version s), ?n) # ys"
    by (meson split_list)
  obtain es where es: "key_fold num ?es [] = Some es" "set es \<subseteq> set (sp_rules (co_snapshot c))"
    using compiled_rules [OF assms(1)] by blast
  obtain e p' v' r' where e: "e \<in> set es" "in_force (ruleSeverityRank (rl_severity ?n)) e"
    "(p', v', r') \<in> set ((so_precedence s, TrimSpace (so_version s), ?n) # ys)" "e = effective_rule num v' r'"
    using key_fold_enters [OF es(1) [unfolded split] n(2,3)] by fastforce
  have "sorted (map fst ?es)" using entries_sorted by (simp add: sorted_filter)
  then have le: "so_precedence s \<le> p'" using e(3) unfolding split by (auto simp: sorted_append)
  have "(p', v', r') \<in> set ?es" using e(3) split by auto
  then obtain s' where s': "s' \<in> set sources" "so_precedence s' = p'" "v' = TrimSpace (so_version s')" "rl_key r' = ?k"
    by (auto simp: all_entries_def source_entries_def entry_key_def)
  show ?thesis
    using e(1,2,4) es(2) s' le by (intro bexI [of _ e]) (auto simp: in_force_def effective_rule_def severity_rank_normal)
qed

text \<open>C38. A mandatory rule stays in force: when sources compile, every enabled mandatory rule of
  any of them is represented in the snapshot by a mandatory entry of its key that is at least as
  severe and comes from this source or from one at the same or a later precedence. No later
  source can disable, relax or drop it.\<close>

theorem mandatory_rule_in_force:
  assumes "Compile num sha sources = Inr c" "s \<in> set sources" "r \<in> set (so_rules s)"
    and "\<not> rl_disabled r" "rl_enforcement r = Mandatory"
  shows "\<exists>e \<in> set (sp_rules (co_snapshot c)). er_key e = TrimSpace (rl_key r) \<and> er_enforcement e = Mandatory
     \<and> ruleSeverityRank (rl_severity r) \<le> ruleSeverityRank (er_severity e)
     \<and> (\<exists>s' \<in> set sources. er_version e = TrimSpace (so_version s') \<and> so_precedence s \<le> so_precedence s')"
  using mandatory_kept [OF assms] .

text \<open>Every effective rule is a rule of one of the sources.\<close>

lemma merge_from:
  assumes "merge_rule num v r current = Inr current'"
  shows "set current' \<subseteq> insert (effective_rule num v r) (set current)"
  using assms by (auto simp: merge_rule_def Let_def split: if_splits)

lemma key_fold_from:
  assumes "key_fold num es current = Some final"
  shows "set final \<subseteq> set current \<union> {effective_rule num v r | p v r. (p, v, r) \<in> set es}"
  using assms
proof (induction num es current rule: key_fold.induct)
  case (2 num p v r es current)
  then obtain current' where m: "merge_rule num v r current = Inr current'" "key_fold num es current' = Some final"
    by (auto split: sum.splits)
  show ?case using "2.IH" [OF m] merge_from [OF m(1)] by fastforce
qed simp

lemma compiled_from:
  assumes "Compile num sha sources = Inr c" "e \<in> set (sp_rules (co_snapshot c))"
  shows "\<exists>s \<in> set sources. \<exists>r \<in> set (so_rules s). e = effective_rule num (TrimSpace (so_version s)) (normalized_rule r)"
proof -
  obtain seen b where run: "run_entries num (all_entries sources) [] [] = Inr (seen, b)"
    and rules: "sp_rules (co_snapshot c) = concat (map (entries_of b) (sort (map fst b)))"
    using assms(1) by (auto simp: Compile_iff compiled_of_def)
  from assms(2) obtain k where "e \<in> set (entries_of b k)" by (auto simp: rules)
  moreover have "key_fold num (filter (\<lambda>e. entry_key e = k) (all_entries sources)) [] = Some (entries_of b k)"
    using run_entries_result(2) [OF run empty_wf, of k] by (simp add: entries_of_def)
  ultimately obtain p v r where "(p, v, r) \<in> set (all_entries sources)" "e = effective_rule num v r"
    using key_fold_from by fastforce
  then show ?thesis by (auto simp: all_entries_def source_entries_def)
qed

section \<open>Exceptions remove what they name\<close>

lemma check_exceptions_None: "check_exceptions seen xs = None \<Longrightarrow> distinct (map ex_id xs) \<and> ex_id ` set xs \<inter> set seen = {}"
  by (induction seen xs rule: check_exceptions.induct) (auto split: if_splits)

lemma find_SomeD: "find P xs = Some x \<Longrightarrow> x \<in> set xs \<and> P x"
  by (auto simp: find_Some_iff)

lemma matched_ids_iff:
  assumes "distinct (map ex_id xs)" "x \<in> set xs"
  shows "ex_id x \<in> set (matched_ids xs rules) \<longleftrightarrow> (\<exists>e \<in> set rules. find (\<lambda>x. covers x e) xs = Some x)"
proof -
  have "y = x" if "find (\<lambda>x. covers x e) xs = Some y" "ex_id y = ex_id x" for e y
    using that assms find_SomeD [OF that(1)] by (auto simp: distinct_map dest: inj_onD)
  then show ?thesis by (force simp: matched_ids_def split: option.splits)
qed

lemma apply_rules:
  assumes "ApplyExceptions sha c xs = Inr c'"
  shows "sp_rules (co_snapshot c') = filter (\<lambda>e. \<not> (\<exists>x \<in> set xs. covers x e)) (sp_rules (co_snapshot c))"
  using assms by (auto simp: ApplyExceptions_def Let_def compiled_of_def list_ex_iff split: if_splits option.splits)

lemma apply_compiled:
  assumes "ApplyExceptions sha c xs = Inr c'" "c = compiled_of sha (co_snapshot c)"
  shows "c' = compiled_of sha (co_snapshot c')"
  using assms by (auto simp: ApplyExceptions_def Let_def compiled_of_def split: if_splits option.splits)

lemma Compile_compiled: "Compile num sha sources = Inr c \<Longrightarrow> c = compiled_of sha (co_snapshot c)"
  by (auto simp: Compile_def bind_r_Inr_iff compiled_of_def)

text \<open>C39. Exceptions remove exactly what they name: after approved exceptions are applied, the
  snapshot keeps every effective rule but those whose key and source version an exception names;
  an override of the same key from another version stays. The exceptions recorded in the snapshot
  are among the given ones, each names a removed rule, each removed rule is named by one of them,
  and the result does not depend on the order of the exceptions.\<close>

theorem exceptions_remove_exactly:
  assumes "ApplyExceptions sha c xs = Inr c'" "xs \<noteq> []"
  shows "sp_rules (co_snapshot c') = filter (\<lambda>e. \<not> (\<exists>x \<in> set xs. ex_key x = er_key e \<and> ex_version x = er_version e)) (sp_rules (co_snapshot c))
    \<and> set (sp_exceptions (co_snapshot c')) \<subseteq> set xs
    \<and> (\<forall>x \<in> set (sp_exceptions (co_snapshot c')). \<exists>e \<in> set (sp_rules (co_snapshot c)). ex_key x = er_key e \<and> ex_version x = er_version e)
    \<and> (\<forall>e \<in> set (sp_rules (co_snapshot c)) - set (sp_rules (co_snapshot c')).
         \<exists>x \<in> set (sp_exceptions (co_snapshot c')). ex_key x = er_key e \<and> ex_version x = er_version e)
    \<and> (mset ys = mset xs \<longrightarrow> ApplyExceptions sha c ys = Inr c')"
proof -
  let ?xs = "sort_key ex_id xs" and ?rules = "sp_rules (co_snapshot c)"
  have ok: "check_exceptions [] ?xs = None" using assms by (auto simp: ApplyExceptions_def Let_def split: option.splits)
  from check_exceptions_None [OF this] have d: "distinct (map ex_id ?xs)" by blast
  have c': "sp_rules (co_snapshot c') = filter (\<lambda>e. \<not> list_ex (\<lambda>x. covers x e) ?xs) ?rules"
    "sp_exceptions (co_snapshot c') = filter (\<lambda>x. ex_id x \<in> set (matched_ids ?xs ?rules)) ?xs"
    using assms ok by (auto simp: ApplyExceptions_def Let_def compiled_of_def)
  have applied: "x \<in> set (sp_exceptions (co_snapshot c')) \<longleftrightarrow> (\<exists>e \<in> set ?rules. find (\<lambda>x. covers x e) ?xs = Some x)" for x
  proof (cases "x \<in> set ?xs")
    case True
    then show ?thesis using matched_ids_iff [OF d True] c'(2) by simp
  next
    case False
    then show ?thesis unfolding c'(2) by (auto dest: find_SomeD)
  qed
  have removed: "\<exists>x \<in> set (sp_exceptions (co_snapshot c')). covers x e"
    if "e \<in> set ?rules" "e \<notin> set (sp_rules (co_snapshot c'))" for e
  proof -
    have "find (\<lambda>x. covers x e) ?xs \<noteq> None" using that unfolding c'(1) by (auto simp: find_None_iff list_ex_iff)
    then obtain x where "find (\<lambda>x. covers x e) ?xs = Some x" by blast
    then show ?thesis using that(1) applied by (auto dest: find_SomeD)
  qed
  have order: "ApplyExceptions sha c ys = Inr c'" if "mset ys = mset xs"
  proof -
    have "inj_on ex_id (set xs)" using d by (simp add: distinct_map)
    then have "sort_key ex_id ys = ?xs" using that sort_key_perm [of xs ys ex_id] by simp
    moreover have "ys \<noteq> []" using that assms(2) by auto
    ultimately show ?thesis using assms by (simp add: ApplyExceptions_def)
  qed
  have "set (sp_exceptions (co_snapshot c')) \<subseteq> set xs" unfolding c'(2) by auto
  moreover have "\<forall>x \<in> set (sp_exceptions (co_snapshot c')). \<exists>e \<in> set ?rules. ex_key x = er_key e \<and> ex_version x = er_version e"
    using applied by (force simp: covers_def dest: find_SomeD)
  ultimately show ?thesis
    using removed order unfolding c'(1) by (simp add: list_ex_iff covers_def)
qed

text \<open>The patterns of the bindings reach the engine only with a rule: a snapshot whose last rule
  was removed is rendered as an empty file.\<close>

lemma rule_file_patterns:
  assumes "CompileExecutionRuleFile prompt (Some snapshot) = Inr file"
  shows "of_include file = (if sp_rules snapshot = [] then [] else sp_include snapshot)"
    "of_exclude file = (if sp_rules snapshot = [] then [] else sp_exclude snapshot)"
  using assms by (auto simp: CompileExecutionRuleFile_def OCRRuleFileForSnapshot_def bind_r_Inr_iff split: if_splits list.splits)

section \<open>A small catalogue\<close>

definition demo_rule :: "string \<Rightarrow> string \<Rightarrow> string \<Rightarrow> Rule" where
  "demo_rule key enforcement severity = \<lparr>rl_key = key, rl_enforcement = enforcement, rl_merge = ''replace'',
     rl_severity = severity, rl_content = Some (JObj [(''prompt'', JStr ''p'')]), rl_disabled = False\<rparr>"

definition demo_base :: Source where
  "demo_base = \<lparr>so_version = ''v1'', so_precedence = 0, so_rules = [demo_rule ''sql'' ''mandatory'' ''High''],
     so_include = [], so_exclude = [''vendor/**'']\<rparr>"

definition demo_team :: Source where
  "demo_team = \<lparr>so_version = ''v2'', so_precedence = 10,
     so_rules = [demo_rule ''sql'' ''mandatory'' ''critical'', demo_rule ''naming'' ''advisory'' ''low''],
     so_include = [], so_exclude = []\<rparr>"

definition demo_effective :: "string \<Rightarrow> string \<Rightarrow> string \<Rightarrow> EffectiveRule" where
  "demo_effective key enforcement severity = \<lparr>er_key = key, er_version = ''v2'', er_enforcement = enforcement,
     er_merge = ''replace'', er_severity = severity, er_content = JObj [(''prompt'', JStr ''p'')]\<rparr>"

definition demo_snapshot :: Snapshot where
  "demo_snapshot = \<lparr>sp_schema = 2, sp_engine = ''ocr'', sp_merge_system = True,
     sp_rules = [demo_effective ''naming'' ''advisory'' ''low'', demo_effective ''sql'' ''mandatory'' ''critical''],
     sp_include = [], sp_exclude = [''vendor/**''], sp_exceptions = []\<rparr>"

lemma demo_compiled: "Compile Some (\<lambda>_. ''d'') [demo_team, demo_base] = Inr (compiled_of (\<lambda>_. ''d'') demo_snapshot)"
  by code_simp

theorem compile_order_independent_witness:
  "Compile Some (\<lambda>_. ''d'') [demo_base, demo_team] = Inr (compiled_of (\<lambda>_. ''d'') demo_snapshot)"
proof -
  have "mset [demo_team, demo_base] = mset [demo_base, demo_team]" by simp
  from compile_order_independent [OF this] demo_compiled show ?thesis by blast
qed

theorem mandatory_rule_in_force_witness:
  "\<exists>e \<in> set (sp_rules demo_snapshot). er_key e = ''sql'' \<and> er_enforcement e = Mandatory \<and> 3 \<le> ruleSeverityRank (er_severity e)"
proof -
  let ?r = "demo_rule ''sql'' ''mandatory'' ''High''"
  have r: "demo_base \<in> set [demo_team, demo_base]" "?r \<in> set (so_rules demo_base)" "\<not> rl_disabled ?r" "rl_enforcement ?r = Mandatory"
    by (simp_all add: demo_base_def demo_rule_def Mandatory_def)
  have "TrimSpace (rl_key ?r) = ''sql''" "ruleSeverityRank (rl_severity ?r) = 3" by code_simp+
  then show ?thesis using mandatory_rule_in_force [OF demo_compiled r] by (auto simp: compiled_of_def)
qed

definition demo_exception :: AppliedException where
  "demo_exception = \<lparr>ex_id = ''x1'', ex_key = ''naming'', ex_version = ''v2'', ex_scope_kind = ''tenant'',
     ex_scope_ref = '''', ex_branch = '''', ex_expires = ''2030''\<rparr>"

theorem exceptions_remove_exactly_witness:
  "\<exists>c. ApplyExceptions (\<lambda>_. ''d'') (compiled_of (\<lambda>_. ''d'') demo_snapshot) [demo_exception] = Inr c
     \<and> sp_rules (co_snapshot c) = [demo_effective ''sql'' ''mandatory'' ''critical'']"
proof -
  let ?c = "compiled_of (\<lambda>_. ''d'') demo_snapshot"
  have "check_exceptions [] [demo_exception] = None" by code_simp
  then obtain c where c: "ApplyExceptions (\<lambda>_. ''d'') ?c [demo_exception] = Inr c" by (auto simp: ApplyExceptions_def Let_def)
  have "sp_rules (co_snapshot c) = filter (\<lambda>e. \<not> (\<exists>x \<in> set [demo_exception]. ex_key x = er_key e \<and> ex_version x = er_version e))
      (sp_rules (co_snapshot ?c))"
    using exceptions_remove_exactly [OF c] by blast
  then have "sp_rules (co_snapshot c) = [demo_effective ''sql'' ''mandatory'' ''critical'']"
    by (simp add: compiled_of_def demo_snapshot_def demo_effective_def demo_exception_def)
  with c show ?thesis by blast
qed

end
