(* ===== verification/Path_Match.thy ===== *)
theory Path_Match
  imports Prelude
begin

text \<open>
  The function \<open>Match\<close> of Go's package \<open>path\<close>, which the store uses for the target branch
  patterns of rule bindings and exceptions. A result of \<open>None\<close> is \<open>ErrBadPattern\<close>. The functions
  are those of the library: \<open>scan_chunk\<close> cuts a pattern at its stars, \<open>match_chunk\<close> matches a piece
  without a star at the start of a name and reads on to the end of the piece after a mismatch, so
  that a malformed piece is always reported.
\<close>

definition star :: char where "star = CHR ''*''"
definition slash :: char where "slash = CHR 0x2F"
definition backslash :: char where "backslash = CHR 0x5C"
definition bracket :: char where "bracket = CHR 0x5B"
definition close_bracket :: char where "close_bracket = CHR 0x5D"

fun scan_chunk :: "bool \<Rightarrow> string \<Rightarrow> string \<times> string" where
  "scan_chunk inrange [] = ([], [])"
| "scan_chunk inrange [c] = (if c = star \<and> \<not> inrange then ([], [c]) else ([c], []))"
| "scan_chunk inrange (c # d # cs) =
     (if c = backslash then (let (a, b) = scan_chunk inrange cs in (c # d # a, b))
      else if c = star \<and> \<not> inrange then ([], c # d # cs)
      else let (a, b) = scan_chunk (if c = bracket then True else if c = close_bracket then False else inrange) (d # cs)
           in (c # a, b))"

definition get_esc :: "string \<Rightarrow> (nat \<times> string) option" where
  "get_esc chunk =
     (case chunk of [] \<Rightarrow> None
      | c # cs \<Rightarrow>
        if c = CHR ''-'' \<or> c = close_bracket then None
        else let chunk = (if c = backslash then cs else chunk) in
          if chunk = [] then None
          else let (r, n) = decode_rune chunk; rest = drop n chunk in
            if r = 0xFFFD \<and> n = 1 then None else if rest = [] then None else Some (r, rest))"

lemma decode_rune_width: "1 \<le> snd (decode_rune s)"
  by (auto simp: decode_rune_def split: list.splits if_splits)

lemma get_esc_shorter: "get_esc s = Some (r, t) \<Longrightarrow> length t < length s"
proof -
  assume a: "get_esc s = Some (r, t)"
  let ?u = "if hd s = backslash then tl s else s"
  have "?u \<noteq> []" "t = drop (snd (decode_rune ?u)) ?u"
    using a by (auto simp: get_esc_def Let_def split: list.splits if_splits prod.splits)
  then show ?thesis using decode_rune_width [of ?u] by (cases s) (auto split: if_splits)
qed

text \<open>The ranges of a character class up to its closing bracket, which is not read as one before
  the first range.\<close>

function class_ranges :: "nat \<Rightarrow> bool \<Rightarrow> bool \<Rightarrow> string \<Rightarrow> (bool \<times> string) option" where
  "class_ranges r some matched chunk =
     (if chunk \<noteq> [] \<and> hd chunk = close_bracket \<and> some then Some (matched, tl chunk)
      else case get_esc chunk of None \<Rightarrow> None
      | Some (lo, rest) \<Rightarrow>
        if hd rest = CHR ''-'' then
          (case get_esc (tl rest) of None \<Rightarrow> None
           | Some (hi, rest') \<Rightarrow> class_ranges r True (matched \<or> lo \<le> r \<and> r \<le> hi) rest')
        else class_ranges r True (matched \<or> lo = r) rest)"
  by pat_completeness auto
termination
  by (relation "measure (\<lambda>(_, _, _, chunk). length chunk)")
    (force dest: get_esc_shorter simp: length_tl intro: less_trans less_le_trans)+

declare class_ranges.simps [simp del]

lemma class_ranges_shorter: "class_ranges r some matched chunk = Some (b, t) \<Longrightarrow> length t < length chunk"
proof (induction r some matched chunk rule: class_ranges.induct)
  case (1 r some matched chunk)
  show ?case
  proof (cases "chunk \<noteq> [] \<and> hd chunk = close_bracket \<and> some")
    case True
    then show ?thesis using "1.prems" by (subst (asm) class_ranges.simps) (auto simp: neq_Nil_conv)
  next
    case False
    then obtain lo rest where lo: "get_esc chunk = Some (lo, rest)"
      using "1.prems" by (subst (asm) class_ranges.simps) (auto split: option.splits)
    show ?thesis
    proof (cases "hd rest = CHR ''-''")
      case True
      then obtain hi rest' where hi: "get_esc (tl rest) = Some (hi, rest')"
        "class_ranges r True (matched \<or> lo \<le> r \<and> r \<le> hi) rest' = Some (b, t)"
        using "1.prems" False lo by (subst (asm) class_ranges.simps) (auto split: option.splits)
      have "length t < length rest'" using "1.IH"(1) [OF False lo _ True hi(1) _ hi(2)] by simp
      then show ?thesis using get_esc_shorter [OF lo] get_esc_shorter [OF hi(1)] by simp
    next
      case minus: False
      then have "class_ranges r True (matched \<or> lo = r) rest = Some (b, t)"
        using "1.prems" False lo by (subst (asm) class_ranges.simps) simp
      then have "length t < length rest" using "1.IH"(2) [OF False lo _ minus] by simp
      then show ?thesis using get_esc_shorter [OF lo] by simp
    qed
  qed
qed

text \<open>\<open>match_chunk chunk s\<close>: \<open>s\<close> is \<open>None\<close> once the match has failed; the result is the rest of
  the name, or \<open>None\<close> when the piece does not match.\<close>

function match_chunk :: "string \<Rightarrow> string option \<Rightarrow> string option option" where
  "match_chunk [] s = Some s"
| "match_chunk (c # chunk) s =
     (let s = (case s of None \<Rightarrow> None | Some [] \<Rightarrow> None | Some (x # xs) \<Rightarrow> Some (x # xs)) in
      if c = bracket then
        (let (r, s) = (case s of None \<Rightarrow> (0, None) | Some t \<Rightarrow> (fst (decode_rune t), Some (drop (snd (decode_rune t)) t)));
             negated = (chunk \<noteq> [] \<and> hd chunk = CHR ''^'');
             chunk' = (if negated then tl chunk else chunk) in
         case class_ranges r False False chunk' of None \<Rightarrow> None
         | Some (matched, rest) \<Rightarrow> match_chunk rest (if matched = negated then None else s))
      else if c = CHR ''?'' then
        match_chunk chunk (case s of None \<Rightarrow> None
          | Some t \<Rightarrow> if hd t = slash then None else Some (drop (snd (decode_rune t)) t))
      else if c = backslash then
        (case chunk of [] \<Rightarrow> None
         | d # chunk' \<Rightarrow> match_chunk chunk' (case s of None \<Rightarrow> None | Some t \<Rightarrow> if d = hd t then Some (tl t) else None))
      else match_chunk chunk (case s of None \<Rightarrow> None | Some t \<Rightarrow> if c = hd t then Some (tl t) else None))"
  by pat_completeness auto
termination
proof (relation "measure (\<lambda>(chunk, _). length chunk)", goal_cases)
  case (2 c chunk s x xa y x2 negated chunk' x2a rest matched)
  then show ?case using class_ranges_shorter by (fastforce simp: length_tl split: if_splits)
qed auto

fun skip_match :: "string \<Rightarrow> bool \<Rightarrow> string \<Rightarrow> string option option" where
  "skip_match chunk lst [] = Some None"
| "skip_match chunk lst (x # name) =
     (if x = slash then Some None
      else case match_chunk chunk (Some name) of None \<Rightarrow> None
      | Some None \<Rightarrow> skip_match chunk lst name
      | Some (Some t) \<Rightarrow> if lst \<and> t \<noteq> [] then skip_match chunk lst name else Some (Some t))"

lemma length_scan_chunk: "scan_chunk inrange p = (a, b) \<Longrightarrow> length a + length b = length p"
  by (induction inrange p arbitrary: a b rule: scan_chunk.induct) (auto simp: Let_def split: if_splits prod.splits)

lemma scan_chunk_progress: "p \<noteq> [] \<Longrightarrow> hd p \<noteq> star \<Longrightarrow> scan_chunk False p = (a, b) \<Longrightarrow> length b < length p"
  by (cases p rule: remdups_adj.cases) (auto simp: Let_def dest!: length_scan_chunk split: if_splits prod.splits)

lemma after_stars:
  assumes "p \<noteq> []" "scan_chunk False (dropWhile (\<lambda>c. c = star) p) = (a, b)"
  shows "length b < length p"
proof (cases "hd p = star")
  case True
  then have "length (dropWhile (\<lambda>c. c = star) p) < length p"
    using assms(1) length_dropWhile_le [of "\<lambda>c. c = star" "tl p"] by (cases p) auto
  then show ?thesis using length_scan_chunk [OF assms(2)] by simp
next
  case False
  then have "dropWhile (\<lambda>c. c = star) p = p" by (cases p) auto
  then show ?thesis using scan_chunk_progress assms False by simp
qed

function chunks_ok :: "string \<Rightarrow> bool" where
  "chunks_ok pattern =
     (if pattern = [] then True
      else let (chunk, rest) = scan_chunk False (dropWhile (\<lambda>c. c = star) pattern) in
        match_chunk chunk (Some []) \<noteq> None \<and> chunks_ok rest)"
  by pat_completeness auto
termination
  by (relation "measure length") (auto dest: after_stars [OF _ sym])

function path_Match :: "string \<Rightarrow> string \<Rightarrow> bool option" where
  "path_Match pattern name =
     (if pattern = [] then Some (name = [])
      else let stars = (hd pattern = star);
               (chunk, rest) = scan_chunk False (dropWhile (\<lambda>c. c = star) pattern) in
        if stars \<and> chunk = [] then Some (slash \<notin> set name)
        else case match_chunk chunk (Some name) of None \<Rightarrow> None
        | Some first \<Rightarrow>
          if first \<noteq> None \<and> (first = Some [] \<or> rest \<noteq> []) then path_Match rest (the first)
          else case (if stars then skip_match chunk (rest = []) name else Some None) of None \<Rightarrow> None
            | Some (Some t) \<Rightarrow> path_Match rest t
            | Some None \<Rightarrow> if chunks_ok rest then Some False else None)"
  by pat_completeness auto
termination
  by (relation "measure (\<lambda>(pattern, _). length pattern)") (auto dest: after_stars [OF _ sym])

declare chunks_ok.simps [simp del] path_Match.simps [simp del]

lemma path_Match_Nil [simp]: "path_Match [] name = Some (name = [])" "chunks_ok []"
  by (subst path_Match.simps chunks_ok.simps; simp)+

definition matchesRuleTargetBranch :: "string \<Rightarrow> string \<Rightarrow> bool" where
  "matchesRuleTargetBranch pattern branch \<longleftrightarrow> pattern = '''' \<or> path_Match pattern branch = Some True"

text \<open>A pattern without special characters matches itself only.\<close>

definition plain_char :: "char \<Rightarrow> bool" where
  "plain_char c \<longleftrightarrow> c \<notin> {star, CHR ''?'', bracket, backslash}"

lemma scan_chunk_plain: "\<forall>c \<in> set p. plain_char c \<Longrightarrow> scan_chunk False p = (p, [])"
  by (induction False p rule: scan_chunk.induct) (auto simp: plain_char_def Let_def)

lemma match_chunk_failed: "\<forall>c \<in> set p. plain_char c \<Longrightarrow> match_chunk p None = Some None"
  by (induction p) (auto simp: plain_char_def)

lemma match_chunk_plain:
  "\<forall>c \<in> set p. plain_char c \<Longrightarrow> match_chunk p (Some s) = Some (if take (length p) s = p then Some (drop (length p) s) else None)"
proof (induction p arbitrary: s)
  case (Cons c p)
  then show ?case using match_chunk_failed [of p] by (cases s) (auto simp: plain_char_def)
qed simp

lemma plain_pattern:
  assumes "\<forall>c \<in> set p. plain_char c"
  shows "path_Match p name = Some (name = p)"
proof (cases "p = []")
  case False
  then have hd: "plain_char (hd p)" using assms by simp
  then have "dropWhile (\<lambda>c. c = star) p = p" "hd p \<noteq> star" using False by (cases p; simp add: plain_char_def)+
  then have "path_Match p name = (case match_chunk p (Some name) of None \<Rightarrow> None
     | Some first \<Rightarrow> if first = Some [] then path_Match [] (the first) else Some False)"
    using False scan_chunk_plain [OF assms] by (subst path_Match.simps) (simp add: Let_def split: option.splits)
  moreover have "take (length p) name = p \<and> drop (length p) name = [] \<longleftrightarrow> name = p" by (metis append_Nil2 append_take_drop_id drop_all take_all order_refl)
  ultimately show ?thesis using match_chunk_plain [OF assms, of name] by auto
qed simp

text \<open>A star stays within one segment of the branch name.\<close>

lemma star_examples:
  "path_Match ''release/*'' ''release/1'' = Some True" "path_Match ''*'' ''release/1'' = Some False"
  by code_simp+

end
