(* ===== verification/Rule_Governance.thy ===== *)
theory Rule_Governance
  imports Rule_Compiler Path_Match Store_Tables
begin

text \<open>
  The life of a rule version in \<open>internal/store/rules.go\<close>: a draft is created from a request or
  from the built-in catalogue, moved into review, approved by enough reviewers of the same content,
  published and bound to a scope. The workspace policy of \<open>internal/store/approval_policy.go\<close>
  decides whether a requester may vote.

  Every operation is one transaction on the tables of \<open>gov\<close>; an error leaves the tables as they
  are, since the transaction is rolled back. What the operations take from outside is a record
  \<open>gov_env\<close>: the clock, the digest and the printing of numbers for the compiler, what the column of
  type \<open>jsonb\<close> makes of the rules (\<open>None\<close> when PostgreSQL refuses the text) and \<open>net/url\<close> with the
  text of the URL whose path has lost a trailing slash. The rules of a request are the decoded array,
  \<open>None\<close> when \<open>json.Unmarshal\<close> fails.
\<close>

section \<open>Tables\<close>

text \<open>A row holds the columns that the operations below read or decide on; the time stamps and
  display columns they only write are left out.\<close>

record RuleSet =
  rs_id :: uuid
  rs_tenant :: uuid
  rs_name :: string
  rs_description :: string
  rs_catalog :: "(string \<times> string) option"
  rs_created_by :: string

record RuleVersion =
  rv_id :: uuid
  rv_set :: uuid
  rv_version :: int
  rv_revision :: nat
  rv_state :: string
  rv_rules :: "Rule list"
  rv_sha :: string
  rv_created_by :: string
  rv_published_at :: "gotime option"

record RuleApprovalRequest =
  ra_id :: uuid
  ra_tenant :: uuid
  ra_version :: uuid
  ra_sha :: string
  ra_requested_by :: string
  ra_required :: int
  ra_state :: string
  ra_decided_at :: "gotime option"

record RuleApproval =
  rp_request :: uuid
  rp_approver :: string
  rp_decision :: string
  rp_sha :: string
  rp_comment :: string

record RuleBinding =
  rb_id :: uuid
  rb_tenant :: uuid
  rb_version :: uuid
  rb_kind :: string
  rb_ref :: string
  rb_provider :: string
  rb_api :: string
  rb_precedence :: int
  rb_branch :: string
  rb_include :: string
  rb_exclude :: string
  rb_state :: string
  rb_created_by :: string
  rb_starts :: "gotime option"
  rb_ends :: "gotime option"

record RuleException =
  rx_id :: uuid
  rx_tenant :: uuid
  rx_version :: uuid
  rx_key :: string
  rx_kind :: string
  rx_ref :: string
  rx_provider :: string
  rx_api :: string
  rx_branch :: string
  rx_reason :: string
  rx_ticket :: string
  rx_requested_by :: string
  rx_approved_by :: string
  rx_comment :: string
  rx_state :: string
  rx_expires :: gotime
  rx_issue :: "(uuid \<times> int) option"

record RuleRollout =
  ro_id :: uuid
  ro_tenant :: uuid
  ro_baseline :: uuid
  ro_candidate :: uuid
  ro_comparison :: "uuid option"
  ro_mode :: string
  ro_state :: string
  ro_points :: int
  ro_failed_runs :: int
  ro_window :: int
  ro_salt :: uuid
  ro_revision :: int
  ro_created_by :: string

record ReviewIssue =
  is_id :: uuid
  is_tenant :: uuid
  is_provider :: string
  is_api :: string
  is_repository :: string
  is_revision :: int
  is_status :: string
  is_assignee :: string
  is_disposition :: string
  is_reason :: string
  is_exception :: "uuid option"
  is_expires :: "gotime option"
  is_resolved_at :: "gotime option"
  is_active_count :: int

record IssueEvent =
  iv_tenant :: uuid
  iv_issue :: uuid
  iv_revision :: int
  iv_actor :: string
  iv_action :: string
  iv_previous :: string
  iv_next :: string

record RuleSnapshot =
  rn_id :: uuid
  rn_tenant :: uuid
  rn_sha :: string
  rn_payload :: json

record WorkspaceApprovalPolicy =
  ap_agent :: bool
  ap_rule :: bool
  ap_revision :: int
  ap_updated_by :: string

record gov =
  gv_db :: db
  gv_sets :: "RuleSet list"
  gv_versions :: "RuleVersion list"
  gv_requests :: "RuleApprovalRequest list"
  gv_approvals :: "RuleApproval list"
  gv_bindings :: "RuleBinding list"
  gv_exceptions :: "RuleException list"
  gv_rollouts :: "RuleRollout list"
  gv_comparisons :: "(uuid \<times> uuid \<times> string) list"
  gv_policies :: "(uuid \<times> WorkspaceApprovalPolicy) list"
  gv_scopes :: "(uuid \<times> string) list"
  gv_issues :: "ReviewIssue list"
  gv_issue_events :: "IssueEvent list"
  gv_snapshots :: "RuleSnapshot list"
  gv_snapshot_sources :: "(uuid \<times> uuid \<times> int) list"
  gv_snapshot_exceptions :: "(uuid \<times> uuid) list"

record gov_env =
  ge_now :: gotime
  ge_num :: "json \<Rightarrow> json option"
  ge_sha :: "json \<Rightarrow> string"
  ge_jsonb :: "Rule list \<Rightarrow> Rule list option"
  ge_url :: "string \<Rightarrow> (URL \<times> string) option"

datatype gov_error = GovStore store_error | ErrInvalidRuleSet | ErrInvalidRuleCatalog | ErrInvalidRuleApproval
  | ErrInvalidRuleVersion | ErrInvalidRuleBinding | ErrInvalidRuleException | ErrInvalidRuleRollout
  | ErrInvalidApprovalPolicy | ErrRuleRolloutRequired | ErrActiveRuleRollout | ErrStatement string

definition canManageRules :: "string \<Rightarrow> bool" where
  "canManageRules role \<longleftrightarrow> role = ''owner'' \<or> role = ''admin'' \<or> role = ''rule_admin''"

text \<open>The authorization every operation starts with.\<close>

definition rule_manager :: "gov \<Rightarrow> string \<Rightarrow> string \<Rightarrow> gov_error + (uuid \<times> string)" where
  "rule_manager g actor tenantSlug =
     (case authorizedTenantTx (gv_db g) actor tenantSlug of
        Inl e \<Rightarrow> Inl (GovStore e)
      | Inr (tenantID, role) \<Rightarrow> if canManageRules role then Inr (tenantID, role) else Inl (GovStore ErrForbidden))"

definition gov_fresh :: "gov \<Rightarrow> uuid \<times> gov" where
  "gov_fresh g = (let (i, d) = fresh (gv_db g) in (i, g\<lparr>gv_db := d\<rparr>))"

definition gov_audit :: "gov \<Rightarrow> uuid \<Rightarrow> string \<Rightarrow> string \<Rightarrow> pval \<Rightarrow> payload \<Rightarrow> gov" where
  "gov_audit g tenantID actor action target metadata = g\<lparr>gv_db := audit (gv_db g) tenantID actor action target metadata\<rparr>"

definition set_version :: "gov \<Rightarrow> uuid \<Rightarrow> (RuleVersion \<Rightarrow> RuleVersion) \<Rightarrow> gov" where
  "set_version g i f = g\<lparr>gv_versions := update_where (\<lambda>v. rv_id v = i) f (gv_versions g)\<rparr>"

definition set_request :: "gov \<Rightarrow> uuid \<Rightarrow> (RuleApprovalRequest \<Rightarrow> RuleApprovalRequest) \<Rightarrow> gov" where
  "set_request g i f = g\<lparr>gv_requests := update_where (\<lambda>r. ra_id r = i) f (gv_requests g)\<rparr>"

definition tenant_set :: "gov \<Rightarrow> uuid \<Rightarrow> uuid \<Rightarrow> bool" where
  "tenant_set g tenantID setID \<longleftrightarrow> list_ex (\<lambda>s. rs_id s = setID \<and> rs_tenant s = tenantID) (gv_sets g)"

section \<open>Drafts\<close>

text \<open>The check of the rules: they compile on their own and can be rendered for the engine. The
  result is the digest of the compiled snapshot.\<close>

definition draft_sha :: "gov_env \<Rightarrow> gov_error \<Rightarrow> Rule list \<Rightarrow> gov_error + string" where
  "draft_sha e invalid rules =
     (case Compile (ge_num e) (ge_sha e) [\<lparr>so_version = ''draft'', so_precedence = 0, so_rules = rules, so_include = [], so_exclude = []\<rparr>] of
        Inl _ \<Rightarrow> Inl invalid
      | Inr compiled \<Rightarrow> (case OCRRuleFileForSnapshot (co_snapshot compiled) of Inl _ \<Rightarrow> Inl invalid | Inr _ \<Rightarrow> Inr (co_sha compiled)))"

definition insert_draft ::
  "gov_env \<Rightarrow> gov \<Rightarrow> uuid \<Rightarrow> Rule list \<Rightarrow> string \<Rightarrow> string \<Rightarrow> gov_error + (gov \<times> RuleVersion)" where
  "insert_draft e g setID rules sha actor =
     (case ge_jsonb e (map (\<lambda>r. r\<lparr>rl_content := Some (case rl_content r of None \<Rightarrow> JNull | Some j \<Rightarrow> j)\<rparr>) rules) of
        None \<Rightarrow> Inl (ErrStatement ''create draft rule version'')
      | Some stored \<Rightarrow>
        if list_ex (\<lambda>v. rv_set v = setID \<and> (rv_version v = 1 \<or> rv_sha v = sha)) (gv_versions g)
        then Inl (ErrStatement ''create draft rule version'')
        else let (i, g) = gov_fresh g;
                 v = \<lparr>rv_id = i, rv_set = setID, rv_version = 1, rv_revision = 1, rv_state = ''draft'', rv_rules = stored,
                      rv_sha = sha, rv_created_by = actor, rv_published_at = None\<rparr>
             in Inr (g\<lparr>gv_versions := gv_versions g @ [v]\<rparr>, v))"

definition insert_rule_set ::
  "gov \<Rightarrow> uuid \<Rightarrow> string \<Rightarrow> string \<Rightarrow> (string \<times> string) option \<Rightarrow> string \<Rightarrow> gov_error + (gov \<times> RuleSet)" where
  "insert_rule_set g tenantID name description catalog actor =
     (if list_ex (\<lambda>s. rs_tenant s = tenantID \<and> rs_name s = name) (gv_sets g) then Inl (GovStore ErrConflict)
      else let (i, g) = gov_fresh g;
               s = \<lparr>rs_id = i, rs_tenant = tenantID, rs_name = name, rs_description = description, rs_catalog = catalog,
                    rs_created_by = actor\<rparr>
           in Inr (g\<lparr>gv_sets := gv_sets g @ [s]\<rparr>, s))"

definition CreateRuleSet ::
  "gov_env \<Rightarrow> gov \<Rightarrow> string \<Rightarrow> string \<Rightarrow> string \<Rightarrow> string \<Rightarrow> Rule list option \<Rightarrow> gov_error + (gov \<times> RuleSet \<times> RuleVersion)" where
  "CreateRuleSet e g actor tenantSlug name description parsed =
     (let name = TrimSpace name; description = TrimSpace description in
      if name = '''' \<or> length name > 160 \<or> length description > 4000 then Inl ErrInvalidRuleSet
      else case parsed of None \<Rightarrow> Inl ErrInvalidRuleSet
      | Some rules \<Rightarrow>
        if rules = [] then Inl ErrInvalidRuleSet
        else bind_r (draft_sha e ErrInvalidRuleSet rules) (\<lambda>sha.
          case find (\<lambda>m. mem_slug m = tenantSlug \<and> mem_subject m = actor \<and> mem_active m \<and> canManageRules (mem_role m))
              (db_members (gv_db g)) of
            None \<Rightarrow> Inl (GovStore ErrForbidden)
          | Some m \<Rightarrow>
            bind_r (insert_rule_set g (mem_tenant m) name description None actor) (\<lambda>(g, s).
            bind_r (insert_draft e g (rs_id s) rules sha actor) (\<lambda>(g, v).
            Inr (gov_audit g (mem_tenant m) actor ''rule_set.created'' (PUuid (rs_id s))
                   [(''rule_version_id'', PUuid (rv_id v)), (''content_sha256'', PStr (rv_sha v))], s, v)))))"

record CatalogEntry =
  ce_id :: string
  ce_version :: string
  ce_title :: string
  ce_description :: string
  ce_sha :: string
  ce_rules :: "Rule list"

definition core_name :: "string \<Rightarrow> string" where
  "core_name title = ''Core '' @ [CHR 0xC2, CHR 0xB7] @ '' '' @ title"

definition latest_version :: "gov \<Rightarrow> uuid \<Rightarrow> RuleVersion option" where
  "latest_version g setID =
     (case filter (\<lambda>v. rv_set v = setID) (gv_versions g) of [] \<Rightarrow> None
      | v # vs \<Rightarrow> Some (fold (\<lambda>w b. if rv_version w > rv_version b then w else b) vs v))"

definition InstallRuleCatalogEntry ::
  "gov_env \<Rightarrow> CatalogEntry list \<Rightarrow> gov \<Rightarrow> string \<Rightarrow> string \<Rightarrow> string \<Rightarrow> string \<Rightarrow> string
   \<Rightarrow> gov_error + (gov \<times> RuleSet \<times> RuleVersion \<times> bool)" where
  "InstallRuleCatalogEntry e entries g actor tenantSlug catalogID version contentSHA256 =
     (let catalogID = TrimSpace catalogID; version = TrimSpace version; contentSHA256 = ToLower (TrimSpace contentSHA256) in
      case find (\<lambda>c. ce_id c = catalogID \<and> ce_version c = version \<and> ce_sha c = contentSHA256) entries of
        None \<Rightarrow> Inl ErrInvalidRuleCatalog
      | Some entry \<Rightarrow>
        bind_r (draft_sha e (ErrStatement ''validate catalog rules'') (ce_rules entry)) (\<lambda>sha.
        bind_r (rule_manager g actor tenantSlug) (\<lambda>(tenantID, role).
        case find (\<lambda>s. rs_tenant s = tenantID \<and> rs_catalog s = Some (ce_id entry, ce_version entry)) (gv_sets g) of
          Some s \<Rightarrow> (case latest_version g (rs_id s) of None \<Rightarrow> Inl (ErrStatement ''load existing catalog installation'')
                     | Some v \<Rightarrow> Inr (g, s, v, True))
        | None \<Rightarrow>
          bind_r (insert_rule_set g tenantID (core_name (ce_title entry)) (ce_description entry)
                    (Some (ce_id entry, ce_version entry)) actor) (\<lambda>(g, s).
          bind_r (insert_draft e g (rs_id s) (ce_rules entry) sha actor) (\<lambda>(g, v).
          Inr (gov_audit g tenantID actor ''rule_catalog.installed'' (PUuid (rs_id s))
                 [(''catalog_id'', PStr (ce_id entry)), (''catalog_version'', PStr (ce_version entry)),
                  (''catalog_content_sha256'', PStr (ce_sha entry)), (''catalog_origin'', PStr ''open-review://catalog/core''),
                  (''rule_version_id'', PUuid (rv_id v)), (''rule_version_content_sha256'', PStr (rv_sha v))], s, v, False))))))"

section \<open>Approval and publication\<close>

definition RequestRuleApproval ::
  "gov_env \<Rightarrow> gov \<Rightarrow> string \<Rightarrow> string \<Rightarrow> uuid \<Rightarrow> int \<Rightarrow> int \<Rightarrow> gov_error + (gov \<times> RuleApprovalRequest)" where
  "RequestRuleApproval e g actor tenantSlug ruleSetID version requiredApprovals =
     (if ruleSetID = 0 \<or> version < 1 \<or> requiredApprovals < 0 \<or> requiredApprovals > 5 then Inl ErrInvalidRuleApproval
      else let required = (if requiredApprovals = 0 then 1 else requiredApprovals) in
        bind_r (rule_manager g actor tenantSlug) (\<lambda>(tenantID, role).
        case find (\<lambda>v. rv_set v = ruleSetID \<and> tenant_set g tenantID ruleSetID \<and> rv_version v = version
                       \<and> rv_state v = ''draft'') (gv_versions g) of
          None \<Rightarrow> Inl (GovStore ErrNotFound)
        | Some v \<Rightarrow>
          let g = set_version g (rv_id v) (\<lambda>v. v\<lparr>rv_state := ''in_review'', rv_revision := Suc (rv_revision v)\<rparr>) in
          if list_ex (\<lambda>r. ra_version r = rv_id v \<and> ra_sha r = rv_sha v \<and> (ra_state r = ''pending'' \<or> ra_state r = ''approved''))
               (gv_requests g)
          then Inl (GovStore ErrConflict)
          else let (i, g) = gov_fresh g;
                   r = \<lparr>ra_id = i, ra_tenant = tenantID, ra_version = rv_id v, ra_sha = rv_sha v, ra_requested_by = actor,
                        ra_required = required, ra_state = ''pending'', ra_decided_at = None\<rparr>
               in Inr (gov_audit (g\<lparr>gv_requests := gv_requests g @ [r]\<rparr>) tenantID actor ''rule_approval.requested'' (PUuid i)
                        [(''rule_version_id'', PUuid (rv_id v)), (''content_sha256'', PStr (rv_sha v)),
                         (''required_approvals'', PInt required)], r)))"

definition default_policy :: WorkspaceApprovalPolicy where
  "default_policy = \<lparr>ap_agent = False, ap_rule = False, ap_revision = 1, ap_updated_by = ''''\<rparr>"

definition workspaceApprovalPolicyTx :: "gov \<Rightarrow> uuid \<Rightarrow> WorkspaceApprovalPolicy" where
  "workspaceApprovalPolicyTx g tenantID = (case map_of (gv_policies g) tenantID of None \<Rightarrow> default_policy | Some p \<Rightarrow> p)"

definition approval_count :: "gov \<Rightarrow> uuid \<Rightarrow> string \<Rightarrow> nat" where
  "approval_count g requestID sha =
     length (filter (\<lambda>p. rp_request p = requestID \<and> rp_decision p = ''approved'' \<and> rp_sha p = sha) (gv_approvals g))"

definition close_request :: "gov_env \<Rightarrow> string \<Rightarrow> RuleApprovalRequest \<Rightarrow> RuleApprovalRequest" where
  "close_request e state r = r\<lparr>ra_state := state, ra_decided_at := Some (ge_now e)\<rparr>"

definition back_to_draft :: "RuleVersion \<Rightarrow> RuleVersion" where
  "back_to_draft v = (if rv_state v = ''in_review'' then v\<lparr>rv_state := ''draft'', rv_revision := Suc (rv_revision v)\<rparr> else v)"

definition to_approved :: "string \<Rightarrow> RuleVersion \<Rightarrow> RuleVersion" where
  "to_approved sha v = (if rv_state v = ''in_review'' \<and> rv_sha v = sha then v\<lparr>rv_state := ''approved'', rv_revision := Suc (rv_revision v)\<rparr> else v)"

definition vote :: "RuleApprovalRequest \<Rightarrow> string \<Rightarrow> string \<Rightarrow> string \<Rightarrow> RuleApproval" where
  "vote r actor decision comment =
     \<lparr>rp_request = ra_id r, rp_approver = actor, rp_decision = decision, rp_sha = ra_sha r, rp_comment = comment\<rparr>"

definition DecideRuleApproval ::
  "gov_env \<Rightarrow> gov \<Rightarrow> string \<Rightarrow> string \<Rightarrow> uuid \<Rightarrow> string \<Rightarrow> string \<Rightarrow> gov_error + (gov \<times> RuleApprovalRequest)" where
  "DecideRuleApproval e g actor tenantSlug requestID decision comment =
     (let decision = ToLower (TrimSpace decision); comment = TrimSpace comment in
      if requestID = 0 \<or> (decision \<noteq> ''approved'' \<and> decision \<noteq> ''rejected'') \<or> length comment > 2000
      then Inl ErrInvalidRuleApproval
      else bind_r (rule_manager g actor tenantSlug) (\<lambda>(tenantID, role).
        case find (\<lambda>r. ra_id r = requestID \<and> ra_tenant r = tenantID) (gv_requests g) of
          None \<Rightarrow> Inl (GovStore ErrNotFound)
        | Some r \<Rightarrow>
          case row_by rv_id (ra_version r) (gv_versions g) of None \<Rightarrow> Inl (GovStore ErrNotFound)
          | Some v \<Rightarrow>
            if ra_state r \<noteq> ''pending'' \<or> ra_sha r \<noteq> rv_sha v then Inl (GovStore ErrConflict)
            else let policy = workspaceApprovalPolicyTx g tenantID in
              if ra_requested_by r = actor \<and> \<not> ap_rule policy then Inl (GovStore ErrForbidden)
              else if list_ex (\<lambda>p. rp_request p = ra_id r \<and> rp_approver p = actor) (gv_approvals g) then Inl (GovStore ErrConflict)
              else let g = g\<lparr>gv_approvals := gv_approvals g @ [vote r actor decision comment]\<rparr>;
                       record_decision = (\<lambda>g. gov_audit g tenantID actor ''rule_approval.decided'' (PUuid (ra_id r))
                              [(''decision'', PStr decision), (''content_sha256'', PStr (ra_sha r)),
                               (''self_approval'', PBool (ra_requested_by r = actor)),
                               (''approval_policy_revision'', PInt (ap_revision policy))]) in
                if decision = ''rejected'' then
                  Inr (record_decision (set_version (set_request g (ra_id r) (close_request e ''rejected'')) (ra_version r) back_to_draft),
                       close_request e ''rejected'' r)
                else if ra_required r \<le> int (approval_count g (ra_id r) (ra_sha r)) then
                  Inr (record_decision (set_version (set_request g (ra_id r) (close_request e ''approved'')) (ra_version r)
                         (to_approved (ra_sha r))),
                       close_request e ''approved'' r)
                else Inr (record_decision g, r)))"

definition PublishRuleVersion ::
  "gov_env \<Rightarrow> gov \<Rightarrow> string \<Rightarrow> string \<Rightarrow> uuid \<Rightarrow> int \<Rightarrow> gov_error + (gov \<times> RuleVersion)" where
  "PublishRuleVersion e g actor tenantSlug ruleSetID version =
     (if ruleSetID = 0 \<or> version < 1 then Inl ErrInvalidRuleVersion
      else bind_r (rule_manager g actor tenantSlug) (\<lambda>(tenantID, role).
        case find (\<lambda>v. rv_set v = ruleSetID \<and> tenant_set g tenantID ruleSetID \<and> rv_version v = version
                \<and> rv_state v = ''approved''
                \<and> list_ex (\<lambda>r. ra_version r = rv_id v \<and> ra_state r = ''approved'' \<and> ra_sha r = rv_sha v) (gv_requests g))
              (gv_versions g) of
          None \<Rightarrow> Inl (GovStore ErrNotFound)
        | Some v \<Rightarrow>
          let publish = (\<lambda>v. v\<lparr>rv_state := ''published'', rv_published_at := Some (ge_now e), rv_revision := Suc (rv_revision v)\<rparr>)
          in Inr (gov_audit (set_version g (rv_id v) publish) tenantID actor ''rule_version.published'' (PUuid (rv_id v))
                    [(''version'', PInt (rv_version v)), (''content_sha256'', PStr (rv_sha v))], publish v)))"

definition SaveWorkspaceApprovalPolicy ::
  "gov \<Rightarrow> string \<Rightarrow> string \<Rightarrow> bool option \<Rightarrow> bool option \<Rightarrow> int \<Rightarrow> gov_error + (gov \<times> WorkspaceApprovalPolicy)" where
  "SaveWorkspaceApprovalPolicy g actor tenantSlug agent rule expectedRevision =
     (if agent = None \<or> rule = None \<or> \<not> expectedRevision > 0 then Inl ErrInvalidApprovalPolicy
      else case authorizedTenantTx (gv_db g) actor tenantSlug of
        Inl e \<Rightarrow> Inl (GovStore e)
      | Inr (tenantID, role) \<Rightarrow>
        if role \<noteq> ''owner'' then Inl (GovStore ErrForbidden)
        else let policy = workspaceApprovalPolicyTx g tenantID in
          if ap_revision policy \<noteq> expectedRevision then Inl (GovStore ErrRevisionConflict)
          else let policy = \<lparr>ap_agent = the agent, ap_rule = the rule, ap_revision = ap_revision policy + 1, ap_updated_by = actor\<rparr>
               in Inr (gov_audit (g\<lparr>gv_policies := (tenantID, policy) # gv_policies g\<rparr>) tenantID actor
                        ''workspace.approval_policy_updated'' (PUuid tenantID)
                        [(''revision'', PInt (ap_revision policy)), (''previous_revision'', PInt expectedRevision),
                         (''allow_agent_plan_self_approval'', PBool (ap_agent policy)),
                         (''allow_rule_self_approval'', PBool (ap_rule policy))], policy))"

section \<open>Scopes and bindings\<close>

record ReviewConfigScope =
  cs_kind :: string
  cs_ref :: string
  cs_provider :: string
  cs_api :: string

definition Provider_Valid :: "string \<Rightarrow> bool" where
  "Provider_Valid p \<longleftrightarrow> p = ''github'' \<or> p = ''gitlab''"

definition ReviewConfigScope_Normalize ::
  "(string \<Rightarrow> (URL \<times> string) option) \<Rightarrow> ReviewConfigScope \<Rightarrow> ReviewConfigScope \<times> bool" where
  "ReviewConfigScope_Normalize parse scope =
     (let scope = scope\<lparr>cs_ref := Trim (TrimSpace (cs_ref scope)) (CHR 0x2F),
                        cs_api := TrimSuffix (TrimSpace (cs_api scope)) [CHR 0x2F]\<rparr>;
          none = \<lparr>cs_kind = '''', cs_ref = '''', cs_provider = '''', cs_api = ''''\<rparr> in
      if cs_kind scope = ''tenant'' then (scope, cs_ref scope = '''' \<and> cs_provider scope = '''' \<and> cs_api scope = '''')
      else if cs_kind scope \<noteq> ''repository'' \<or> cs_ref scope = '''' \<or> length (cs_ref scope) > 255 then (none, False)
      else if cs_provider scope = '''' \<and> cs_api scope = '''' then (scope, True)
      else if \<not> Provider_Valid (cs_provider scope) \<or> cs_api scope = '''' then (none, False)
      else case parse (cs_api scope) of None \<Rightarrow> (none, False)
      | Some (parsed, printed) \<Rightarrow>
        if (u_scheme parsed \<noteq> ''https'' \<and> u_scheme parsed \<noteq> ''http'') \<or> u_host parsed = '''' \<or> u_query parsed \<noteq> ''''
           \<or> u_fragment parsed \<noteq> '''' \<or> u_user parsed then (none, False)
        else (scope\<lparr>cs_api := printed\<rparr>, True))"

definition QualifiedRepository :: "ReviewConfigScope \<Rightarrow> bool" where
  "QualifiedRepository scope \<longleftrightarrow> cs_kind scope = ''repository'' \<and> Provider_Valid (cs_provider scope) \<and> cs_api scope \<noteq> ''''"

definition normalizeProviderQualifiedRuleScope ::
  "(string \<Rightarrow> (URL \<times> string) option) \<Rightarrow> string \<Rightarrow> string \<Rightarrow> string \<Rightarrow> string \<Rightarrow> ReviewConfigScope \<times> bool" where
  "normalizeProviderQualifiedRuleScope parse kind ref provider apiBaseURL =
     (let (scope, valid) = ReviewConfigScope_Normalize parse
            \<lparr>cs_kind = ToLower (TrimSpace kind), cs_ref = TrimSpace ref, cs_provider = provider, cs_api = apiBaseURL\<rparr> in
      if \<not> valid \<or> cs_kind scope = ''repository'' \<and> \<not> QualifiedRepository scope then (scope, False)
      else (scope, cs_kind scope = ''tenant'' \<or> cs_kind scope = ''repository''))"

fun scope_allows :: "string \<Rightarrow> string list \<Rightarrow> bool" where
  "scope_allows repository [] = False"
| "scope_allows repository (raw # rest) =
     (let candidate = Trim (TrimSpace raw) (CHR 0x2F) in
      if candidate = '''' then scope_allows repository rest
      else if candidate = ''*/*'' then True
      else if candidate = repository then True
      else if HasSuffix candidate ''/*'' \<and> TrimSuffix candidate ''/*'' \<noteq> ''''
              \<and> HasPrefix repository (TrimSuffix candidate ''/*'' @ ''/'') then True
      else scope_allows repository rest)"

definition repositoryScopeAllows :: "string \<Rightarrow> string \<Rightarrow> bool" where
  "repositoryScopeAllows scope repository =
     (let repository = Trim (TrimSpace repository) (CHR 0x2F) in
      if repository = '''' then False else scope_allows repository (Split scope (CHR 0x2C)))"

definition ensureRepositoryReviewConfigScope :: "gov \<Rightarrow> uuid \<Rightarrow> ReviewConfigScope \<Rightarrow> bool" where
  "ensureRepositoryReviewConfigScope g tenantID scope \<longleftrightarrow>
     cs_kind scope = ''tenant'' \<or> \<not> QualifiedRepository scope
     \<or> list_ex (\<lambda>i. ins_tenant i = tenantID \<and> ins_provider i = cs_provider scope \<and> ins_api i = cs_api scope \<and> ins_active i
          \<and> (ins_verification i = ''legacy'' \<or> ins_verification i = ''verified'')
          \<and> (case map_of (gv_scopes g) (ins_id i) of None \<Rightarrow> False | Some s \<Rightarrow> repositoryScopeAllows s (cs_ref scope)))
        (db_installations (gv_db g))"

record RuleBindingInput =
  bi_version :: uuid
  bi_kind :: string
  bi_ref :: string
  bi_provider :: string
  bi_api :: string
  bi_precedence :: int
  bi_branch :: string
  bi_include :: string
  bi_exclude :: string
  bi_state :: string

definition validRuleBindingInput :: "gov_env \<Rightarrow> RuleBindingInput \<Rightarrow> RuleBindingInput option" where
  "validRuleBindingInput e input =
     (let (scope, scopeValid) = normalizeProviderQualifiedRuleScope (ge_url e) (bi_kind input) (bi_ref input) (bi_provider input) (bi_api input);
          input = input\<lparr>bi_kind := cs_kind scope, bi_ref := cs_ref scope, bi_provider := cs_provider scope, bi_api := cs_api scope,
                        bi_branch := TrimSpace (bi_branch input), bi_include := TrimSpace (bi_include input),
                        bi_exclude := TrimSpace (bi_exclude input), bi_state := ToLower (TrimSpace (bi_state input))\<rparr> in
      if bi_version input = 0 \<or> \<not> scopeValid \<or> bi_precedence input < 0
         \<or> (bi_state input \<noteq> ''active'' \<and> bi_state input \<noteq> ''shadow'') then None
      else if cs_kind scope \<noteq> ''tenant'' \<and> cs_kind scope \<noteq> ''repository'' then None
      else if list_ex (\<lambda>p. p \<noteq> '''' \<and> path_Match p ''validation-target'' = None) [bi_branch input, bi_include input, bi_exclude input]
      then None
      else Some input)"

text \<open>Two bindings with the same target, which only a rollout may replace.\<close>

definition same_target :: "RuleBinding \<Rightarrow> RuleBinding \<Rightarrow> bool" where
  "same_target a b \<longleftrightarrow> rb_kind a = rb_kind b \<and> rb_ref a = rb_ref b \<and> rb_provider a = rb_provider b \<and> rb_api a = rb_api b
     \<and> rb_precedence a = rb_precedence b \<and> rb_branch a = rb_branch b \<and> rb_include a = rb_include b \<and> rb_exclude a = rb_exclude b"

definition version_set :: "gov \<Rightarrow> uuid \<Rightarrow> uuid option" where
  "version_set g versionID = map_option rv_set (row_by rv_id versionID (gv_versions g))"

definition CreateRuleBinding ::
  "gov_env \<Rightarrow> gov \<Rightarrow> string \<Rightarrow> string \<Rightarrow> RuleBindingInput \<Rightarrow> gov_error + (gov \<times> RuleBinding)" where
  "CreateRuleBinding e g actor tenantSlug input =
     (case validRuleBindingInput e input of None \<Rightarrow> Inl ErrInvalidRuleBinding
      | Some input \<Rightarrow>
        bind_r (rule_manager g actor tenantSlug) (\<lambda>(tenantID, role).
        if \<not> ensureRepositoryReviewConfigScope g tenantID \<lparr>cs_kind = bi_kind input, cs_ref = bi_ref input,
               cs_provider = bi_provider input, cs_api = bi_api input\<rparr> then Inl ErrInvalidRuleBinding
        else case find (\<lambda>v. rv_id v = bi_version input \<and> rv_state v = ''published'' \<and> tenant_set g tenantID (rv_set v)) (gv_versions g) of
          None \<Rightarrow> Inl (GovStore ErrNotFound)
        | Some v \<Rightarrow>
          let (i, g') = gov_fresh g;
              b = \<lparr>rb_id = i, rb_tenant = tenantID, rb_version = bi_version input, rb_kind = bi_kind input, rb_ref = bi_ref input,
                   rb_provider = bi_provider input, rb_api = bi_api input, rb_precedence = bi_precedence input,
                   rb_branch = bi_branch input, rb_include = bi_include input, rb_exclude = bi_exclude input,
                   rb_state = bi_state input, rb_created_by = actor, rb_starts = None, rb_ends = None\<rparr> in
          if bi_state input = ''active'' \<and> list_ex (\<lambda>c. rb_tenant c = tenantID \<and> rb_state c = ''active''
                \<and> version_set g (rb_version c) = Some (rv_set v) \<and> rb_version c \<noteq> bi_version input \<and> same_target c b) (gv_bindings g)
          then Inl ErrRuleRolloutRequired
          else if bi_precedence input \<ge> 2 ^ 31 then Inl (ErrStatement ''create rule binding'')
          else Inr (gov_audit (g'\<lparr>gv_bindings := gv_bindings g' @ [b]\<rparr>) tenantID actor ''rule_binding.created'' (PUuid i)
                 [(''rule_version_id'', PUuid (rb_version b)), (''scope_kind'', PStr (rb_kind b)), (''scope_ref'', PStr (rb_ref b)),
                  (''scope_provider'', PStr (rb_provider b)), (''scope_api_base_url'', PStr (rb_api b)),
                  (''precedence'', PInt (rb_precedence b))], b)))"

definition set_binding :: "gov \<Rightarrow> uuid \<Rightarrow> string \<Rightarrow> gov" where
  "set_binding g i state = g\<lparr>gv_bindings := update_where (\<lambda>b. rb_id b = i) (\<lambda>b. b\<lparr>rb_state := state\<rparr>) (gv_bindings g)\<rparr>"

definition UpdateRuleBinding ::
  "gov \<Rightarrow> string \<Rightarrow> string \<Rightarrow> uuid \<Rightarrow> string \<Rightarrow> gov_error + (gov \<times> RuleBinding)" where
  "UpdateRuleBinding g actor tenantSlug bindingID state =
     (let state = ToLower (TrimSpace state) in
      if bindingID = 0 \<or> (state \<noteq> ''active'' \<and> state \<noteq> ''shadow'' \<and> state \<noteq> ''disabled'') then Inl ErrInvalidRuleBinding
      else bind_r (rule_manager g actor tenantSlug) (\<lambda>(tenantID, role).
        case find (\<lambda>b. rb_id b = bindingID \<and> rb_tenant b = tenantID) (gv_bindings g) of
          None \<Rightarrow> Inl (GovStore ErrNotFound)
        | Some b \<Rightarrow>
          if rb_state b \<noteq> state \<and> list_ex (\<lambda>r. ro_tenant r = tenantID \<and> ro_mode r = ''canary''
                \<and> (ro_state r = ''active'' \<or> ro_state r = ''paused'') \<and> (ro_baseline r = bindingID \<or> ro_candidate r = bindingID))
              (gv_rollouts g)
          then Inl ErrActiveRuleRollout
          else if rb_state b = ''shadow'' \<and> state = ''active''
             \<and> (list_ex (\<lambda>r. ro_tenant r = tenantID \<and> ro_candidate r = bindingID) (gv_rollouts g)
                \<or> list_ex (\<lambda>c. rb_tenant c = tenantID \<and> rb_id c \<noteq> rb_id b \<and> rb_state c = ''active''
                     \<and> version_set g (rb_version c) = version_set g (rb_version b) \<and> version_set g (rb_version b) \<noteq> None
                     \<and> rb_version c \<noteq> rb_version b \<and> same_target c b) (gv_bindings g))
          then Inl ErrRuleRolloutRequired
          else Inr (gov_audit (set_binding g bindingID state) tenantID actor ''rule_binding.state_updated'' (PUuid bindingID)
                 [(''state'', PStr state)], b\<lparr>rb_state := state\<rparr>)))"

end
