(* ===== verification/Rule_Exceptions.thy ===== *)
theory Rule_Exceptions
  imports Rule_Governance
begin

text \<open>
  Rule exceptions (\<open>internal/store/rule_exceptions.go\<close>): a time-limited permission to leave a rule of
  a published version out of the snapshots of a scope. An exception is requested, decided by another
  person, and ends by revocation or by its expiry; when it was requested for an issue, the issue is
  suppressed as long as the exception holds (\<open>internal/store/issues.go\<close>).

  The texts of the issue events are not modelled.
\<close>

section \<open>Suppression of an issue\<close>

definition set_issue :: "gov \<Rightarrow> uuid \<Rightarrow> uuid \<Rightarrow> (ReviewIssue \<Rightarrow> ReviewIssue) \<Rightarrow> gov" where
  "set_issue g tenantID i f = g\<lparr>gv_issues := update_where (\<lambda>x. is_tenant x = tenantID \<and> is_id x = i) f (gv_issues g)\<rparr>"

definition issue_event :: "gov \<Rightarrow> uuid \<Rightarrow> uuid \<Rightarrow> int \<Rightarrow> string \<Rightarrow> string \<Rightarrow> string \<Rightarrow> string \<Rightarrow> gov" where
  "issue_event g tenantID issueID revision actor action previous nxt = g\<lparr>gv_issue_events := gv_issue_events g @
     [\<lparr>iv_tenant = tenantID, iv_issue = issueID, iv_revision = revision, iv_actor = actor, iv_action = action,
       iv_previous = previous, iv_next = nxt\<rparr>]\<rparr>"

definition suppressIssueForApprovedException ::
  "gov \<Rightarrow> uuid \<Rightarrow> string \<Rightarrow> uuid \<Rightarrow> uuid \<Rightarrow> int \<Rightarrow> gotime \<Rightarrow> string \<Rightarrow> gov_error + gov" where
  "suppressIssueForApprovedException g tenantID actor exceptionID issueID expectedRevision expiresAt reason =
     (case find (\<lambda>x. is_tenant x = tenantID \<and> is_id x = issueID) (gv_issues g) of
        None \<Rightarrow> Inl (GovStore ErrNotFound)
      | Some x \<Rightarrow>
        if is_revision x \<noteq> expectedRevision \<or> (is_status x \<noteq> ''open'' \<and> is_status x \<noteq> ''regressed'')
        then Inl (GovStore ErrRevisionConflict)
        else let nextRevision = is_revision x + 1;
                 g = set_issue g tenantID issueID (\<lambda>x. x\<lparr>is_revision := nextRevision, is_status := ''suppressed'',
                       is_disposition := ''exception'', is_reason := reason, is_exception := Some exceptionID,
                       is_expires := Some expiresAt, is_resolved_at := None\<rparr>);
                 g = issue_event g tenantID issueID nextRevision actor ''exception_approved'' (is_status x) ''suppressed''
             in Inr (gov_audit g tenantID actor ''issue.exception_approved'' (PUuid issueID)
                  [(''exception_id'', PUuid exceptionID), (''expires_at'', PInt expiresAt), (''revision'', PInt nextRevision)]))"

definition clearIssueExceptionSuppression ::
  "gov_env \<Rightarrow> gov \<Rightarrow> uuid \<Rightarrow> string \<Rightarrow> uuid \<Rightarrow> uuid \<Rightarrow> string \<Rightarrow> gov" where
  "clearIssueExceptionSuppression e g tenantID actor exceptionID issueID action =
     (case find (\<lambda>x. is_tenant x = tenantID \<and> is_id x = issueID \<and> is_exception x = Some exceptionID) (gv_issues g) of
        None \<Rightarrow> g
      | Some x \<Rightarrow>
        let nextStatus = (if is_active_count x > 0 then ''open'' else ''resolved'');
            nextRevision = is_revision x + 1;
            g = set_issue g tenantID issueID (\<lambda>x. x\<lparr>is_revision := nextRevision, is_status := nextStatus, is_disposition := '''',
                  is_reason := '''', is_exception := None, is_expires := None,
                  is_resolved_at := (if nextStatus = ''resolved''
                     then (case is_resolved_at x of None \<Rightarrow> Some (ge_now e) | Some t \<Rightarrow> Some t) else None)\<rparr>);
            g = issue_event g tenantID issueID nextRevision actor action (is_status x) nextStatus
        in gov_audit g tenantID actor (''issue.'' @ action) (PUuid issueID)
             [(''exception_id'', PUuid exceptionID), (''revision'', PInt nextRevision)])"

definition expired_link :: "gov_env \<Rightarrow> gov \<Rightarrow> uuid \<Rightarrow> ReviewIssue \<Rightarrow> bool" where
  "expired_link e g tenantID x \<longleftrightarrow> is_tenant x = tenantID \<and> is_status x = ''suppressed'' \<and> is_disposition x = ''exception''
     \<and> list_ex (\<lambda>r. is_exception x = Some (rx_id r) \<and> rx_state r = ''approved'' \<and> rx_expires r \<le> ge_now e) (gv_exceptions g)"

definition reconcileExpiredIssueExceptionsCount :: "gov_env \<Rightarrow> gov \<Rightarrow> uuid \<Rightarrow> gov \<times> nat" where
  "reconcileExpiredIssueExceptionsCount e g tenantID =
     (let links = filter (expired_link e g tenantID) (gv_issues g) in
      (fold (\<lambda>x g. clearIssueExceptionSuppression e g tenantID ''system:rule-exception-expiry'' (the (is_exception x)) (is_id x)
               ''exception_expired'') links g, length links))"

section \<open>Requests and decisions\<close>

record RuleExceptionInput =
  xi_version :: uuid
  xi_key :: string
  xi_kind :: string
  xi_ref :: string
  xi_provider :: string
  xi_api :: string
  xi_branch :: string
  xi_reason :: string
  xi_ticket :: string
  xi_expires :: gotime
  xi_issue :: "uuid option"
  xi_issue_revision :: int

definition minute :: gotime where "minute = 60 * 1000000000"

definition ticket_ok :: "gov_env \<Rightarrow> string \<Rightarrow> bool" where
  "ticket_ok e t \<longleftrightarrow> t = '''' \<or> (case ge_url e t of None \<Rightarrow> False
     | Some (u, _) \<Rightarrow> (u_scheme u = ''https'' \<or> u_scheme u = ''http'') \<and> u_host u \<noteq> '''' \<and> length t \<le> 2000)"

definition normalizeRuleExceptionInput :: "gov_env \<Rightarrow> RuleExceptionInput \<Rightarrow> RuleExceptionInput option" where
  "normalizeRuleExceptionInput e input =
     (let (scope, scopeValid) = normalizeProviderQualifiedRuleScope (ge_url e) (xi_kind input) (xi_ref input) (xi_provider input) (xi_api input);
          input = input\<lparr>xi_key := TrimSpace (xi_key input), xi_kind := cs_kind scope, xi_ref := cs_ref scope, xi_provider := cs_provider scope,
                        xi_api := cs_api scope, xi_branch := TrimSpace (xi_branch input), xi_reason := TrimSpace (xi_reason input),
                        xi_ticket := TrimSpace (xi_ticket input)\<rparr> in
      if xi_version input = 0 \<or> \<not> scopeValid \<or> xi_key input = '''' \<or> length (xi_key input) > 200 \<or> xi_reason input = ''''
         \<or> length (xi_reason input) > 4000 \<or> length (xi_ref input) > 300 \<or> length (xi_branch input) > 255
         \<or> xi_expires input < ge_now e + 5 * minute \<or> xi_expires input > ge_now e + 366 * 24 * 60 * minute then None
      else if (xi_issue input = None) \<noteq> (xi_issue_revision input = 0)
         \<or> (case xi_issue input of None \<Rightarrow> False | Some i \<Rightarrow> i = 0 \<or> xi_issue_revision input < 1) then None
      else if cs_kind scope \<noteq> ''tenant'' \<and> cs_kind scope \<noteq> ''repository'' then None
      else if xi_branch input \<noteq> '''' \<and> path_Match (xi_branch input) ''validation-branch'' = None then None
      else if \<not> ticket_ok e (xi_ticket input) then None
      else Some input)"

definition issue_matches :: "gov \<Rightarrow> uuid \<Rightarrow> RuleExceptionInput \<Rightarrow> gov_error + unit" where
  "issue_matches g tenantID input =
     (case xi_issue input of None \<Rightarrow> Inr ()
      | Some i \<Rightarrow>
        case find (\<lambda>x. is_tenant x = tenantID \<and> is_id x = i) (gv_issues g) of None \<Rightarrow> Inl (GovStore ErrNotFound)
        | Some x \<Rightarrow>
          if xi_kind input \<noteq> ''repository'' \<or> xi_ref input \<noteq> is_repository x \<or> xi_provider input \<noteq> is_provider x
             \<or> xi_api input \<noteq> is_api x \<or> xi_issue_revision input \<noteq> is_revision x
             \<or> (is_status x \<noteq> ''open'' \<and> is_status x \<noteq> ''regressed'') then Inl ErrInvalidRuleException
          else Inr ())"

definition insert_exception :: "gov \<Rightarrow> uuid \<Rightarrow> string \<Rightarrow> RuleExceptionInput \<Rightarrow> gov \<times> RuleException" where
  "insert_exception g tenantID actor input =
     (let (i, g) = gov_fresh g;
          r = \<lparr>rx_id = i, rx_tenant = tenantID, rx_version = xi_version input, rx_key = xi_key input, rx_kind = xi_kind input,
               rx_ref = xi_ref input, rx_provider = xi_provider input, rx_api = xi_api input, rx_branch = xi_branch input,
               rx_reason = xi_reason input, rx_ticket = xi_ticket input, rx_requested_by = actor, rx_approved_by = '''',
               rx_comment = '''', rx_state = ''pending'', rx_expires = xi_expires input,
               rx_issue = map_option (\<lambda>i. (i, xi_issue_revision input)) (xi_issue input)\<rparr>
      in (gov_audit (g\<lparr>gv_exceptions := gv_exceptions g @ [r]\<rparr>) tenantID actor ''rule_exception.requested'' (PUuid i)
            ([(''rule_version_id'', PUuid (rx_version r)), (''rule_key'', PStr (rx_key r)), (''scope_kind'', PStr (rx_kind r)),
             (''scope_ref'', PStr (rx_ref r)), (''scope_provider'', PStr (rx_provider r)), (''scope_api_base_url'', PStr (rx_api r)),
             (''expires_at'', PInt (rx_expires r))]
             @ (case rx_issue r of None \<Rightarrow> []
                | Some (issueID, revision) \<Rightarrow> [(''source_issue_id'', PUuid issueID), (''source_issue_revision'', PInt revision)])), r))"

text \<open>The reconciliation of expired suppressions is a transaction of its own, so it stays when the
  request fails later.\<close>

definition CreateRuleException ::
  "gov_env \<Rightarrow> gov \<Rightarrow> string \<Rightarrow> string \<Rightarrow> RuleExceptionInput \<Rightarrow> gov \<times> (gov_error + RuleException)" where
  "CreateRuleException e g actor tenantSlug input =
     (case normalizeRuleExceptionInput e input of None \<Rightarrow> (g, Inl ErrInvalidRuleException)
      | Some input \<Rightarrow>
        case rule_manager g actor tenantSlug of Inl err \<Rightarrow> (g, Inl err)
        | Inr (tenantID, role) \<Rightarrow>
          let g = fst (reconcileExpiredIssueExceptionsCount e g tenantID) in
          case issue_matches g tenantID input of Inl err \<Rightarrow> (g, Inl err)
          | Inr _ \<Rightarrow>
            case find (\<lambda>v. rv_id v = xi_version input \<and> tenant_set g tenantID (rv_set v) \<and> rv_state v = ''published'') (gv_versions g) of
              None \<Rightarrow> (g, Inl (GovStore ErrNotFound))
            | Some v \<Rightarrow>
              if \<not> list_ex (\<lambda>r. rl_key r = xi_key input) (rv_rules v) then (g, Inl ErrInvalidRuleException)
              else if \<not> ensureRepositoryReviewConfigScope g tenantID \<lparr>cs_kind = xi_kind input, cs_ref = xi_ref input,
                     cs_provider = xi_provider input, cs_api = xi_api input\<rparr> then (g, Inl ErrInvalidRuleException)
              else let (g, r) = insert_exception g tenantID actor input in (g, Inr r))"

definition set_exception :: "gov \<Rightarrow> uuid \<Rightarrow> (RuleException \<Rightarrow> RuleException) \<Rightarrow> gov" where
  "set_exception g i f = g\<lparr>gv_exceptions := update_where (\<lambda>r. rx_id r = i) f (gv_exceptions g)\<rparr>"

definition DecideRuleException ::
  "gov_env \<Rightarrow> gov \<Rightarrow> string \<Rightarrow> string \<Rightarrow> uuid \<Rightarrow> string \<Rightarrow> string \<Rightarrow> gov_error + gov" where
  "DecideRuleException e g actor tenantSlug exceptionID decision comment =
     (let decision = ToLower (TrimSpace decision); comment = TrimSpace comment in
      if exceptionID = 0 \<or> (decision \<noteq> ''approved'' \<and> decision \<noteq> ''rejected'') \<or> length comment > 2000
      then Inl ErrInvalidRuleException
      else bind_r (rule_manager g actor tenantSlug) (\<lambda>(tenantID, role).
        case find (\<lambda>r. rx_id r = exceptionID \<and> rx_tenant r = tenantID) (gv_exceptions g) of
          None \<Rightarrow> Inl (GovStore ErrNotFound)
        | Some r \<Rightarrow>
          if rx_state r \<noteq> ''pending'' \<or> rx_requested_by r = actor \<or> \<not> rx_expires r > ge_now e then Inl ErrInvalidRuleException
          else let g = set_exception g exceptionID (\<lambda>r. r\<lparr>rx_state := decision, rx_approved_by := actor, rx_comment := comment\<rparr>) in
            bind_r (case rx_issue r of
                Some (issueID, revision) \<Rightarrow>
                  if decision = ''approved''
                  then suppressIssueForApprovedException g tenantID actor exceptionID issueID revision (rx_expires r) (rx_reason r)
                  else Inr g
              | None \<Rightarrow> Inr g) (\<lambda>g.
            Inr (gov_audit g tenantID actor (''rule_exception.'' @ decision) (PUuid exceptionID)
                   [(''decision_comment'', PStr comment)]))))"

definition RevokeRuleException ::
  "gov_env \<Rightarrow> gov \<Rightarrow> string \<Rightarrow> string \<Rightarrow> uuid \<Rightarrow> gov_error + gov" where
  "RevokeRuleException e g actor tenantSlug exceptionID =
     (if exceptionID = 0 then Inl ErrInvalidRuleException
      else bind_r (rule_manager g actor tenantSlug) (\<lambda>(tenantID, role).
        case find (\<lambda>r. rx_id r = exceptionID \<and> rx_tenant r = tenantID \<and> rx_state r = ''approved'') (gv_exceptions g) of
          None \<Rightarrow> Inl ErrInvalidRuleException
        | Some r \<Rightarrow>
          let g = set_exception g exceptionID (\<lambda>r. r\<lparr>rx_state := ''revoked''\<rparr>);
              g = (case rx_issue r of None \<Rightarrow> g
                   | Some (issueID, _) \<Rightarrow> clearIssueExceptionSuppression e g tenantID actor exceptionID issueID ''exception_revoked'')
          in Inr (gov_audit g tenantID actor ''rule_exception.revoked'' (PUuid exceptionID) [])))"

end
