(* ===== verification/Rule_Rollouts.thy ===== *)
theory Rule_Rollouts
  imports Rule_Exceptions
begin

text \<open>
  Rollouts (\<open>internal/store/rule_rollouts.go\<close>, \<open>internal/domain/rule_rollout.go\<close>): a frozen pair of
  bindings of one rule set, the active baseline and a shadow candidate. A shadow rollout only
  compares; a canary serves the candidate to a fixed part of the reviews, is widened in stages and
  finally promoted, which switches the bindings.

  The evidence of a stage (\<open>canaryStageEvidence\<close>), a query over the runs of the stage, is an argument of
  \<open>UpdateRuleRollout\<close>; the history of the stages is read from the audit table as the code does. The
  hash of \<open>CohortBucket\<close> is a parameter: the first eight bytes of a SHA-256 digest as a number.
\<close>

record RuleRolloutInput =
  li_baseline :: uuid
  li_candidate :: uuid
  li_mode :: string
  li_points :: int
  li_failed_runs :: int
  li_window :: int

definition RuleRolloutInput_Valid :: "RuleRolloutInput \<Rightarrow> bool" where
  "RuleRolloutInput_Valid input =
     (let mode = ToLower (TrimSpace (li_mode input)) in
      if li_baseline input = 0 \<or> li_candidate input = 0 \<or> li_baseline input = li_candidate input then False
      else if li_failed_runs input < 0 \<or> li_failed_runs input > 10
              \<or> (li_window input \<noteq> 0 \<and> (li_window input < 5 \<or> li_window input > 1440)) then False
      else if mode = ''shadow'' then li_points input = 0
      else mode = ''canary'' \<and> li_points input \<ge> 1 \<and> li_points input \<le> 10000)"

definition loadRuleRolloutBinding :: "gov \<Rightarrow> uuid \<Rightarrow> uuid \<Rightarrow> gov_error + (RuleBinding \<times> uuid)" where
  "loadRuleRolloutBinding g tenantID bindingID =
     (case find (\<lambda>b. rb_tenant b = tenantID \<and> rb_id b = bindingID) (gv_bindings g) of
        None \<Rightarrow> Inl (GovStore ErrNotFound)
      | Some b \<Rightarrow> (case version_set g (rb_version b) of None \<Rightarrow> Inl (GovStore ErrNotFound) | Some setID \<Rightarrow> Inr (b, setID)))"

text \<open>The newest comparison of an active shadow rollout of the pair and the author of that rollout;
  newer comparisons come first in the table.\<close>

definition shadow_comparison :: "gov \<Rightarrow> uuid \<Rightarrow> uuid \<Rightarrow> uuid \<Rightarrow> (uuid \<times> string \<times> string) option" where
  "shadow_comparison g tenantID baseline candidate =
     (case [(c, state, ro_created_by r). (c, rollout, state) \<leftarrow> gv_comparisons g, r \<leftarrow> gv_rollouts g,
              ro_id r = rollout, ro_tenant r = tenantID, ro_mode r = ''shadow'', ro_state r = ''active'',
              ro_baseline r = baseline, ro_candidate r = candidate] of [] \<Rightarrow> None | x # _ \<Rightarrow> Some x)"

definition open_rollout :: "RuleRollout \<Rightarrow> bool" where
  "open_rollout r \<longleftrightarrow> ro_state r = ''active'' \<or> ro_state r = ''paused''"

definition rollout_taken :: "gov \<Rightarrow> uuid \<Rightarrow> string \<Rightarrow> uuid \<Rightarrow> uuid \<Rightarrow> bool" where
  "rollout_taken g tenantID mode baseline candidate \<longleftrightarrow>
     list_ex (\<lambda>r. ro_tenant r = tenantID \<and> open_rollout r \<and> ro_mode r = mode
       \<and> (if mode = ''shadow'' then ro_baseline r = baseline \<and> ro_candidate r = candidate
          else ro_baseline r = baseline \<or> ro_candidate r = candidate)) (gv_rollouts g)"

definition comparison_field :: "uuid option \<Rightarrow> payload" where
  "comparison_field comparison = (case comparison of None \<Rightarrow> [] | Some c \<Rightarrow> [(''approved_shadow_comparison_id'', PUuid c)])"

definition CreateRuleRollout ::
  "gov \<Rightarrow> string \<Rightarrow> string \<Rightarrow> RuleRolloutInput \<Rightarrow> gov_error + (gov \<times> RuleRollout)" where
  "CreateRuleRollout g actor tenantSlug input =
     (let mode = ToLower (TrimSpace (li_mode input));
          input = input\<lparr>li_mode := mode,
             li_failed_runs := (if li_failed_runs input = 0 then 1 else li_failed_runs input),
             li_window := (if li_window input = 0 then 60 else li_window input)\<rparr> in
      if \<not> RuleRolloutInput_Valid input then Inl ErrInvalidRuleRollout
      else if mode = ''canary'' \<and> li_points input \<noteq> 100 \<and> li_points input \<noteq> 500 then Inl ErrInvalidRuleRollout
      else bind_r (rule_manager g actor tenantSlug) (\<lambda>(tenantID, role).
        if mode = ''canary'' \<and> role \<noteq> ''owner'' \<and> role \<noteq> ''admin'' then Inl (GovStore ErrForbidden)
        else bind_r (loadRuleRolloutBinding g tenantID (li_baseline input)) (\<lambda>(baseline, baselineSet).
        bind_r (loadRuleRolloutBinding g tenantID (li_candidate input)) (\<lambda>(candidate, candidateSet).
        if rb_state baseline \<noteq> ''active'' \<or> rb_state candidate \<noteq> ''shadow'' \<or> rb_version baseline = rb_version candidate
           \<or> baselineSet \<noteq> candidateSet \<or> \<not> same_target baseline candidate then Inl ErrInvalidRuleBinding
        else bind_r (if mode \<noteq> ''canary'' then Inr None
             else case shadow_comparison g tenantID (rb_id baseline) (rb_id candidate) of
               None \<Rightarrow> Inl ErrInvalidRuleRollout
             | Some (comparisonID, state, author) \<Rightarrow>
               if state \<noteq> ''completed'' \<or> author = actor then Inl ErrInvalidRuleRollout else Inr (Some comparisonID)) (\<lambda>comparison.
        if rollout_taken g tenantID mode (rb_id baseline) (rb_id candidate) then Inl (GovStore ErrConflict)
        else let (i, g) = gov_fresh g; (salt, g) = gov_fresh g;
                 r = \<lparr>ro_id = i, ro_tenant = tenantID, ro_baseline = rb_id baseline, ro_candidate = rb_id candidate,
                      ro_comparison = comparison, ro_mode = mode, ro_state = ''active'', ro_points = li_points input,
                      ro_failed_runs = li_failed_runs input, ro_window = li_window input, ro_salt = salt, ro_revision = 1,
                      ro_created_by = actor\<rparr>
             in Inr (gov_audit (g\<lparr>gv_rollouts := gv_rollouts g @ [r]\<rparr>) tenantID actor ''rule_rollout.created'' (PUuid i)
                  ([(''baseline_binding_id'', PUuid (ro_baseline r)), (''candidate_binding_id'', PUuid (ro_candidate r)),
                   (''mode'', PStr mode), (''canary_basis_points'', PInt (ro_points r)), (''revision'', PInt 1),
                   (''auto_rollback_failed_runs'', PInt (ro_failed_runs r)), (''auto_rollback_window_minutes'', PInt (ro_window r))]
                  @ comparison_field comparison), r))))))"

section \<open>Stages and promotion\<close>

definition RuleRolloutUpdateInput_Valid :: "string \<Rightarrow> int \<Rightarrow> int \<Rightarrow> bool" where
  "RuleRolloutUpdateInput_Valid state points revision =
     (let state = ToLower (TrimSpace state) in
      if revision < 1 \<or> (state \<noteq> ''active'' \<and> state \<noteq> ''paused'' \<and> state \<noteq> ''promoted'' \<and> state \<noteq> ''rolled_back'') then False
      else points = 0 \<or> (state = ''active'' \<and> (points = 500 \<or> points = 2500 \<or> points = 10000)))"

definition validRuleRolloutTransition :: "string \<Rightarrow> string \<Rightarrow> bool" where
  "validRuleRolloutTransition current nxt \<longleftrightarrow> current = ''active'' \<and> (nxt = ''paused'' \<or> nxt = ''rolled_back'')
     \<or> current = ''paused'' \<and> (nxt = ''active'' \<or> nxt = ''rolled_back'')"

definition validCanaryAdvance :: "int \<Rightarrow> int \<Rightarrow> bool" where
  "validCanaryAdvance current nxt \<longleftrightarrow> current = 100 \<and> nxt = 500 \<or> current = 500 \<and> nxt = 2500 \<or> current = 2500 \<and> nxt = 10000"

definition stage_count :: "gov \<Rightarrow> uuid \<Rightarrow> uuid \<Rightarrow> int \<Rightarrow> int \<Rightarrow> nat" where
  "stage_count g tenantID rolloutID from to =
     length (filter (\<lambda>a. au_tenant a = tenantID \<and> au_target a = PUuid rolloutID \<and> au_action a = ''rule_rollout.stage_advanced''
       \<and> map_of (au_metadata a) ''from_basis_points'' = Some (PInt from) \<and> map_of (au_metadata a) ''to_basis_points'' = Some (PInt to))
       (db_audits (gv_db g)))"

definition canaryStageHistoryValid :: "gov \<Rightarrow> uuid \<Rightarrow> RuleRollout \<Rightarrow> bool" where
  "canaryStageHistoryValid g tenantID r \<longleftrightarrow> ro_points r \<le> 500
     \<or> stage_count g tenantID (ro_id r) 500 2500 = 1
       \<and> (ro_points r \<noteq> 10000 \<or> stage_count g tenantID (ro_id r) 2500 10000 = 1)"

definition set_rollout :: "gov \<Rightarrow> uuid \<Rightarrow> uuid \<Rightarrow> (RuleRollout \<Rightarrow> RuleRollout) \<Rightarrow> gov" where
  "set_rollout g tenantID i f = g\<lparr>gv_rollouts := update_where (\<lambda>r. ro_tenant r = tenantID \<and> ro_id r = i) f (gv_rollouts g)\<rparr>"

definition switch_binding :: "gov \<Rightarrow> uuid \<Rightarrow> string \<Rightarrow> uuid \<Rightarrow> uuid \<Rightarrow> string \<Rightarrow> string \<Rightarrow> gov_error + gov" where
  "switch_binding g tenantID actor rolloutID bindingID from to =
     (let hit = (\<lambda>b. rb_tenant b = tenantID \<and> rb_id b = bindingID \<and> rb_state b = from) in
      if length (filter hit (gv_bindings g)) \<noteq> 1 then Inl (GovStore ErrConflict)
      else Inr (gov_audit (g\<lparr>gv_bindings := update_where hit (\<lambda>b. b\<lparr>rb_state := to\<rparr>) (gv_bindings g)\<rparr>) tenantID actor
             ''rule_binding.state_updated'' (PUuid bindingID) [(''state'', PStr to), (''rollout_id'', PUuid rolloutID)]))"

definition promoted_shadow :: "gov \<Rightarrow> uuid \<Rightarrow> string \<Rightarrow> RuleRollout \<Rightarrow> gov" where
  "promoted_shadow g tenantID actor current =
     (let hit = (\<lambda>r. ro_tenant r = tenantID \<and> ro_mode r = ''shadow'' \<and> open_rollout r
                  \<and> ro_baseline r = ro_baseline current \<and> ro_candidate r = ro_candidate current);
          retired = filter hit (gv_rollouts g);
          g = g\<lparr>gv_rollouts := update_where hit (\<lambda>r. r\<lparr>ro_state := ''promoted'', ro_revision := ro_revision r + 1\<rparr>) (gv_rollouts g)\<rparr>
      in fold (\<lambda>r g. gov_audit g tenantID actor ''rule_rollout.shadow_promoted'' (PUuid (ro_id r))
           [(''canary_rollout_id'', PUuid (ro_id current)), (''revision'', PInt (ro_revision r + 1))]) retired g)"

record stage_evidence =
  sg_completed :: int
  sg_failed :: int
  sg_pending :: int
  sg_observed :: bool

definition promote_rollout ::
  "gov \<Rightarrow> uuid \<Rightarrow> string \<Rightarrow> RuleRollout \<Rightarrow> stage_evidence \<Rightarrow> gov_error + (gov \<times> RuleRollout)" where
  "promote_rollout g tenantID actor current evidence =
     bind_r (switch_binding g tenantID actor (ro_id current) (ro_baseline current) ''active'' ''disabled'') (\<lambda>g.
     bind_r (switch_binding g tenantID actor (ro_id current) (ro_candidate current) ''shadow'' ''active'') (\<lambda>g.
     let promoted = current\<lparr>ro_state := ''promoted'', ro_revision := ro_revision current + 1\<rparr>;
         g = set_rollout g tenantID (ro_id current) (\<lambda>r. r\<lparr>ro_state := ''promoted'', ro_revision := ro_revision r + 1\<rparr>);
         g = promoted_shadow g tenantID actor current
     in Inr (gov_audit g tenantID actor ''rule_rollout.promoted'' (PUuid (ro_id current))
          ([(''baseline_binding_id'', PUuid (ro_baseline current)), (''candidate_binding_id'', PUuid (ro_candidate current)),
           (''completed_distinct_reviews'', PInt (sg_completed evidence)), (''revision'', PInt (ro_revision promoted))]
           @ comparison_field (ro_comparison current)), promoted)))"

datatype rollout_error = Rollout gov_error | ErrRuleRolloutEvidence

definition lift_rollout :: "gov_error + 'a \<Rightarrow> rollout_error + 'a" where
  "lift_rollout x = map_sum Rollout id x"

definition UpdateRuleRollout ::
  "(RuleRollout \<Rightarrow> stage_evidence) \<Rightarrow> gov \<Rightarrow> string \<Rightarrow> string \<Rightarrow> uuid \<Rightarrow> string \<Rightarrow> int \<Rightarrow> int \<Rightarrow> rollout_error + (gov \<times> RuleRollout)" where
  "UpdateRuleRollout canaryStageEvidence g actor tenantSlug rolloutID state points revision =
     (let state = ToLower (TrimSpace state) in
      if rolloutID = 0 \<or> \<not> RuleRolloutUpdateInput_Valid state points revision then Inl (Rollout ErrInvalidRuleRollout)
      else bind_r (lift_rollout (rule_manager g actor tenantSlug)) (\<lambda>(tenantID, role).
        case find (\<lambda>r. ro_tenant r = tenantID \<and> ro_id r = rolloutID) (gv_rollouts g) of
          None \<Rightarrow> Inl (Rollout (GovStore ErrNotFound))
        | Some current \<Rightarrow>
          let advancing = (ro_mode current = ''canary'' \<and> ro_state current = ''active'' \<and> state = ''active'' \<and> points > 0);
              promoting = (ro_mode current = ''canary'' \<and> ro_state current = ''active'' \<and> state = ''promoted'' \<and> points = 0) in
          if ro_revision current \<noteq> revision then Inl (Rollout (GovStore ErrConflict))
          else if \<not> advancing \<and> \<not> promoting \<and> (points \<noteq> 0 \<or> \<not> validRuleRolloutTransition (ro_state current) state)
          then Inl (Rollout (GovStore ErrConflict))
          else if advancing \<or> promoting then
            (if role \<noteq> ''owner'' \<and> role \<noteq> ''admin'' then Inl (Rollout (GovStore ErrForbidden))
             else if advancing \<and> \<not> validCanaryAdvance (ro_points current) points then Inl (Rollout ErrInvalidRuleRollout)
             else if promoting \<and> (ro_points current \<noteq> 10000 \<or> actor = ro_created_by current) then Inl (Rollout ErrInvalidRuleRollout)
             else if \<not> canaryStageHistoryValid g tenantID current then Inl (Rollout ErrInvalidRuleRollout)
             else bind_r (lift_rollout (loadRuleRolloutBinding g tenantID (ro_baseline current))) (\<lambda>(baseline, baselineSet).
               bind_r (lift_rollout (loadRuleRolloutBinding g tenantID (ro_candidate current))) (\<lambda>(candidate, candidateSet).
               if ro_comparison current = None \<or> rb_state baseline \<noteq> ''active'' \<or> rb_state candidate \<noteq> ''shadow''
                  \<or> baselineSet \<noteq> candidateSet \<or> rb_version baseline = rb_version candidate \<or> \<not> same_target baseline candidate
               then Inl (Rollout ErrInvalidRuleBinding)
               else let evidence = canaryStageEvidence current in
                 if \<not> sg_observed evidence \<or> sg_completed evidence < 1 \<or> sg_failed evidence > 0 \<or> sg_pending evidence > 0
                 then Inl ErrRuleRolloutEvidence
                 else if advancing then
                   Inr (gov_audit (set_rollout g tenantID rolloutID (\<lambda>r. r\<lparr>ro_points := points, ro_revision := ro_revision r + 1\<rparr>))
                          tenantID actor ''rule_rollout.stage_advanced'' (PUuid rolloutID)
                          [(''from_basis_points'', PInt (ro_points current)), (''to_basis_points'', PInt points),
                           (''completed_distinct_reviews'', PInt (sg_completed evidence)), (''failed_reviews'', PInt (sg_failed evidence)),
                           (''pending_reviews'', PInt (sg_pending evidence)), (''revision'', PInt (ro_revision current + 1))],
                        current\<lparr>ro_points := points, ro_revision := ro_revision current + 1\<rparr>)
                 else lift_rollout (promote_rollout g tenantID actor current evidence))))
          else Inr (gov_audit (set_rollout g tenantID rolloutID (\<lambda>r. r\<lparr>ro_state := state, ro_revision := ro_revision r + 1\<rparr>))
                 tenantID actor ''rule_rollout.state_updated'' (PUuid rolloutID) [(''state'', PStr state), (''revision'', PInt (ro_revision current + 1))],
               current\<lparr>ro_state := state, ro_revision := ro_revision current + 1\<rparr>)))"

section \<open>The cohort of a canary\<close>

record cohort_key =
  ck_tenant :: uuid
  ck_provider :: string
  ck_api :: string
  ck_repository :: string
  ck_number :: int
  ck_salt :: uuid

definition CohortBucket :: "(cohort_key \<Rightarrow> nat) \<Rightarrow> uuid \<Rightarrow> string \<Rightarrow> string \<Rightarrow> string \<Rightarrow> int \<Rightarrow> uuid \<Rightarrow> nat option" where
  "CohortBucket hash tenantID provider apiBaseURL repository reviewNumber salt =
     (let apiBaseURL = TrimSuffix (TrimSpace apiBaseURL) [CHR 0x2F]; repository = Trim (TrimSpace repository) (CHR 0x2F) in
      if tenantID = 0 \<or> \<not> Provider_Valid provider \<or> apiBaseURL = '''' \<or> repository = '''' \<or> reviewNumber < 1 \<or> salt = 0 then None
      else Some (hash \<lparr>ck_tenant = tenantID, ck_provider = provider, ck_api = apiBaseURL, ck_repository = repository,
                       ck_number = reviewNumber, ck_salt = salt\<rparr> mod 10000))"

end
