(* ===== verification/Rule_Resolution.thy ===== *)
theory Rule_Resolution
  imports Rule_Rollouts
begin

text \<open>
  The rules of a review (\<open>resolveRuleSnapshotWithCanary\<close> in \<open>internal/store/workflow.go\<close>): inside the
  transaction that admits a run, the active bindings of published versions in the scope of the
  repository are turned into sources, compiled, reduced by the approved exceptions and stored under
  the digest of the result.

  The text of a UUID is the parameter \<open>text\<close> (package \<open>google/uuid\<close>). Rows that SQL leaves in an
  unspecified order are taken in the order of the table.
\<close>

section \<open>Time stamps\<close>

text \<open>\<open>time.Format(time.RFC3339)\<close> of a UTC time given in nanoseconds since 1970, for the years 0 to
  9999.\<close>

definition digit :: "int \<Rightarrow> char" where "digit n = char_of (48 + nat (n mod 10))"

definition two_digits :: "int \<Rightarrow> string" where "two_digits n = [digit (n div 10), digit n]"

definition civil :: "int \<Rightarrow> int \<times> int \<times> int" where
  "civil days =
     (let z = days + 719468; era = z div 146097; doe = z mod 146097;
          yoe = (doe - doe div 1460 + doe div 36524 - doe div 146096) div 365;
          doy = doe - (365 * yoe + yoe div 4 - yoe div 100);
          mp = (5 * doy + 2) div 153;
          m = (if mp < 10 then mp + 3 else mp - 9)
      in (yoe + era * 400 + (if m \<le> 2 then 1 else 0), m, doy - (153 * mp + 2) div 5 + 1))"

definition rfc3339 :: "gotime \<Rightarrow> string" where
  "rfc3339 t =
     (let secs = t div 1000000000; (y, m, d) = civil (secs div 86400); s = secs mod 86400
      in two_digits (y div 100) @ two_digits (y mod 100) @ ''-'' @ two_digits m @ ''-'' @ two_digits d @ ''T''
         @ two_digits (s div 3600) @ '':'' @ two_digits (s div 60 mod 60) @ '':'' @ two_digits (s mod 60) @ ''Z'')"

section \<open>Bindings in scope\<close>

definition in_scope :: "scope \<Rightarrow> string \<Rightarrow> string \<Rightarrow> string \<Rightarrow> string \<Rightarrow> bool" where
  "in_scope sc kind ref provider api \<longleftrightarrow> kind = ''tenant''
     \<or> kind = ''repository'' \<and> ref = sc_ref sc
       \<and> (provider = sc_provider sc \<and> api = sc_api sc \<or> provider = '''' \<and> api = '''')"

definition in_window :: "gov_env \<Rightarrow> RuleBinding \<Rightarrow> bool" where
  "in_window e b \<longleftrightarrow> (case rb_starts b of None \<Rightarrow> True | Some t \<Rightarrow> t \<le> ge_now e)
     \<and> (case rb_ends b of None \<Rightarrow> True | Some t \<Rightarrow> t > ge_now e)"

definition selected_set :: "uuid option \<Rightarrow> uuid \<Rightarrow> bool" where
  "selected_set selected setID \<longleftrightarrow> (case selected of None \<Rightarrow> True | Some i \<Rightarrow> setID = i)"

definition active_binding :: "gov_env \<Rightarrow> gov \<Rightarrow> uuid \<Rightarrow> scope \<Rightarrow> uuid option \<Rightarrow> RuleBinding \<Rightarrow> RuleVersion \<Rightarrow> bool" where
  "active_binding e g tenantID sc selected b v \<longleftrightarrow> rv_id v = rb_version b \<and> rb_tenant b = tenantID \<and> rb_state b = ''active''
     \<and> rv_state v = ''published'' \<and> tenant_set g tenantID (rv_set v) \<and> in_window e b
     \<and> in_scope sc (rb_kind b) (rb_ref b) (rb_provider b) (rb_api b) \<and> selected_set selected (rv_set v)"

definition active_rows :: "gov_env \<Rightarrow> gov \<Rightarrow> uuid \<Rightarrow> scope \<Rightarrow> uuid option \<Rightarrow> (RuleBinding \<times> RuleVersion) list" where
  "active_rows e g tenantID sc selected =
     sort_key (\<lambda>(b, v). (rb_precedence b, rv_id v))
       (filter (\<lambda>(b, v). active_binding e g tenantID sc selected b v) (List.product (gv_bindings g) (gv_versions g)))"

definition ruleSetActiveForTarget :: "gov_env \<Rightarrow> gov \<Rightarrow> uuid \<Rightarrow> scope \<Rightarrow> string \<Rightarrow> uuid \<Rightarrow> bool" where
  "ruleSetActiveForTarget e g tenantID sc targetBranch ruleSetID \<longleftrightarrow>
     list_ex (\<lambda>(b, v). matchesRuleTargetBranch (rb_branch b) targetBranch) (active_rows e g tenantID sc (Some ruleSetID))"

section \<open>Canaries\<close>

record canaryRuleBinding =
  cb_rollout :: uuid
  cb_candidate :: uuid
  cb_baseline_version :: uuid
  cb_candidate_version :: uuid
  cb_rules :: "Rule list"
  cb_bucket :: nat
  cb_selected :: bool

record ruleRolloutRunSelection =
  sl_rollout :: uuid
  sl_baseline :: uuid
  sl_candidate :: uuid
  sl_binding :: uuid
  sl_version :: uuid
  sl_bucket :: nat
  sl_selected :: bool

definition canary_pair ::
  "gov_env \<Rightarrow> gov \<Rightarrow> uuid \<Rightarrow> scope \<Rightarrow> uuid option \<Rightarrow> RuleRollout \<Rightarrow> (RuleBinding \<times> RuleBinding \<times> RuleVersion) option" where
  "canary_pair e g tenantID sc selected r =
     (if ro_tenant r \<noteq> tenantID \<or> ro_mode r \<noteq> ''canary'' \<or> ro_state r \<noteq> ''active'' \<or> ro_comparison r = None then None
      else case (row_by rb_id (ro_baseline r) (gv_bindings g), row_by rb_id (ro_candidate r) (gv_bindings g)) of
        (Some b, Some c) \<Rightarrow>
          (case (row_by rv_id (rb_version b) (gv_versions g), row_by rv_id (rb_version c) (gv_versions g)) of
             (Some bv, Some cv) \<Rightarrow>
               if rb_tenant b = tenantID \<and> rb_tenant c = tenantID \<and> rb_state b = ''active'' \<and> rb_state c = ''shadow''
                  \<and> rv_state bv = ''published'' \<and> rv_state cv = ''published'' \<and> rv_set bv = rv_set cv
                  \<and> rb_version b \<noteq> rb_version c \<and> same_target b c \<and> in_window e c
                  \<and> in_scope sc (rb_kind b) (rb_ref b) (rb_provider b) (rb_api b) \<and> selected_set selected (rv_set bv)
               then Some (b, c, cv) else None
           | _ \<Rightarrow> None)
      | _ \<Rightarrow> None)"

fun load_canaries ::
  "(cohort_key \<Rightarrow> nat) \<Rightarrow> gov_env \<Rightarrow> gov \<Rightarrow> uuid \<Rightarrow> scope \<Rightarrow> uuid option \<Rightarrow> int \<Rightarrow> RuleRollout list
   \<Rightarrow> (uuid \<times> canaryRuleBinding) list \<Rightarrow> gov_error + (uuid \<times> canaryRuleBinding) list" where
  "load_canaries hash e g tenantID sc selected number [] acc = Inr acc"
| "load_canaries hash e g tenantID sc selected number (r # rs) acc =
     (case canary_pair e g tenantID sc selected r of
        None \<Rightarrow> load_canaries hash e g tenantID sc selected number rs acc
      | Some (b, c, cv) \<Rightarrow>
        case CohortBucket hash tenantID (sc_provider sc) (sc_api sc) (sc_ref sc) number (ro_salt r) of
          None \<Rightarrow> Inl ErrInvalidRuleRollout
        | Some bucket \<Rightarrow>
          if map_of acc (rb_id b) \<noteq> None then Inl (GovStore ErrConflict)
          else load_canaries hash e g tenantID sc selected number rs
            ((rb_id b, \<lparr>cb_rollout = ro_id r, cb_candidate = rb_id c, cb_baseline_version = rb_version b,
                 cb_candidate_version = rb_version c, cb_rules = rv_rules cv, cb_bucket = bucket,
                 cb_selected = (int bucket < ro_points r)\<rparr>) # acc))"

definition loadActiveCanaryRuleBindings ::
  "(cohort_key \<Rightarrow> nat) \<Rightarrow> gov_env \<Rightarrow> gov \<Rightarrow> uuid \<Rightarrow> scope \<Rightarrow> uuid option \<Rightarrow> int \<Rightarrow> gov_error + (uuid \<times> canaryRuleBinding) list" where
  "loadActiveCanaryRuleBindings hash e g tenantID sc selected number =
     (if number < 1 then Inr []
      else load_canaries hash e g tenantID sc selected number (sort_key ro_id (gv_rollouts g)) [])"

section \<open>Sources\<close>

definition glob_list :: "string \<Rightarrow> string list" where
  "glob_list glob = (if glob = '''' then [] else [glob])"

text \<open>Which version a binding contributes, and the selection recorded for a canary.\<close>

definition served_version ::
  "(uuid \<times> canaryRuleBinding) list \<Rightarrow> RuleBinding \<Rightarrow> RuleVersion \<Rightarrow> gov_error + (uuid \<times> Rule list \<times> ruleRolloutRunSelection list)" where
  "served_version canaries b v =
     (case map_of canaries (rb_id b) of None \<Rightarrow> Inr (rv_id v, rv_rules v, [])
      | Some c \<Rightarrow>
        if rv_id v \<noteq> cb_baseline_version c then Inl ErrInvalidRuleRollout
        else let (binding, version, rules) =
               (if cb_selected c then (cb_candidate c, cb_candidate_version c, cb_rules c) else (rb_id b, rv_id v, rv_rules v))
             in Inr (version, rules, [\<lparr>sl_rollout = cb_rollout c, sl_baseline = rb_id b, sl_candidate = cb_candidate c,
                      sl_binding = binding, sl_version = version, sl_bucket = cb_bucket c, sl_selected = cb_selected c\<rparr>]))"

fun collect_sources ::
  "(uuid \<Rightarrow> string) \<Rightarrow> (uuid \<times> canaryRuleBinding) list \<Rightarrow> string \<Rightarrow> (RuleBinding \<times> RuleVersion) list \<Rightarrow> (uuid \<times> Source) list
   \<Rightarrow> ruleRolloutRunSelection list \<Rightarrow> gov_error + ((uuid \<times> Source) list \<times> ruleRolloutRunSelection list)" where
  "collect_sources text canaries branch [] sources selections = Inr (sources, selections)"
| "collect_sources text canaries branch ((b, v) # rows) sources selections =
     (if \<not> matchesRuleTargetBranch (rb_branch b) branch then collect_sources text canaries branch rows sources selections
      else bind_r (served_version canaries b v) (\<lambda>(versionID, rules, selection).
        let selections = selections @ selection in
        case map_of sources versionID of
          Some s \<Rightarrow>
            if so_precedence s \<noteq> rb_precedence b then Inl (ErrStatement ''bound at conflicting precedences'')
            else collect_sources text canaries branch rows
                   (map (\<lambda>(i, s). (i, if i = versionID
                      then s\<lparr>so_include := so_include s @ glob_list (rb_include b), so_exclude := so_exclude s @ glob_list (rb_exclude b)\<rparr>
                      else s)) sources) selections
        | None \<Rightarrow>
            collect_sources text canaries branch rows (sources @ [(versionID, \<lparr>so_version = text versionID, so_precedence = rb_precedence b,
              so_rules = rules, so_include = glob_list (rb_include b), so_exclude = glob_list (rb_exclude b)\<rparr>)]) selections))"

section \<open>Exceptions in force\<close>

definition applicable_exception :: "gov_env \<Rightarrow> uuid \<Rightarrow> scope \<Rightarrow> string \<Rightarrow> uuid list \<Rightarrow> RuleException \<Rightarrow> bool" where
  "applicable_exception e tenantID sc branch versions r \<longleftrightarrow> rx_tenant r = tenantID \<and> rx_version r \<in> set versions
     \<and> rx_state r = ''approved'' \<and> rx_expires r > ge_now e \<and> in_scope sc (rx_kind r) (rx_ref r) (rx_provider r) (rx_api r)
     \<and> matchesRuleTargetBranch (rx_branch r) branch"

definition applied_exception :: "(uuid \<Rightarrow> string) \<Rightarrow> RuleException \<Rightarrow> AppliedException" where
  "applied_exception text r = \<lparr>ex_id = text (rx_id r), ex_key = rx_key r, ex_version = text (rx_version r), ex_scope_kind = rx_kind r,
     ex_scope_ref = rx_ref r, ex_branch = rx_branch r, ex_expires = rfc3339 (rx_expires r)\<rparr>"

definition resolveApplicableRuleExceptions ::
  "gov_env \<Rightarrow> gov \<Rightarrow> uuid \<Rightarrow> scope \<Rightarrow> string \<Rightarrow> uuid list \<Rightarrow> RuleException list" where
  "resolveApplicableRuleExceptions e g tenantID sc branch versions =
     (if versions = [] then []
      else sort_key rx_id (filter (applicable_exception e tenantID sc branch versions) (gv_exceptions g)))"

definition appliedExceptionRecords :: "(uuid \<Rightarrow> string) \<Rightarrow> Compiled \<Rightarrow> RuleException list \<Rightarrow> RuleException list" where
  "appliedExceptionRecords text compiled records =
     filter (\<lambda>r. text (rx_id r) \<in> set (map ex_id (sp_exceptions (co_snapshot compiled)))) records"

section \<open>The snapshot of a run\<close>

definition store_snapshot :: "gov \<Rightarrow> uuid \<Rightarrow> Compiled \<Rightarrow> gov \<times> uuid" where
  "store_snapshot g tenantID compiled =
     (case find (\<lambda>n. rn_tenant n = tenantID \<and> rn_sha n = co_sha compiled) (gv_snapshots g) of
        Some n \<Rightarrow> (g, rn_id n)
      | None \<Rightarrow> let (i, g) = gov_fresh g in
          (g\<lparr>gv_snapshots := gv_snapshots g @ [\<lparr>rn_id = i, rn_tenant = tenantID, rn_sha = co_sha compiled, rn_payload = co_canonical compiled\<rparr>]\<rparr>, i))"

definition store_evidence :: "gov \<Rightarrow> uuid \<Rightarrow> (uuid \<times> Source) list \<Rightarrow> RuleException list \<Rightarrow> gov" where
  "store_evidence g snapshotID sources records = g
     \<lparr>gv_snapshot_sources := fold (\<lambda>(i, s) rows. if (\<exists>r \<in> set rows. fst r = snapshotID \<and> fst (snd r) = i) then rows
          else rows @ [(snapshotID, i, so_precedence s)]) sources (gv_snapshot_sources g),
      gv_snapshot_exceptions := fold (\<lambda>r rows. if (snapshotID, rx_id r) \<in> set rows then rows
          else rows @ [(snapshotID, rx_id r)]) records (gv_snapshot_exceptions g)\<rparr>"

definition compile_for_review ::
  "(uuid \<Rightarrow> string) \<Rightarrow> (cohort_key \<Rightarrow> nat) \<Rightarrow> gov_env \<Rightarrow> gov \<Rightarrow> uuid \<Rightarrow> scope \<Rightarrow> string \<Rightarrow> uuid option \<Rightarrow> int
   \<Rightarrow> gov_error + (Compiled \<times> (uuid \<times> Source) list \<times> RuleException list \<times> ruleRolloutRunSelection list)" where
  "compile_for_review text hash e g tenantID sc branch selected number =
     bind_r (loadActiveCanaryRuleBindings hash e g tenantID sc selected number) (\<lambda>canaries.
     bind_r (collect_sources text canaries branch (active_rows e g tenantID sc selected) [] []) (\<lambda>(sources, selections).
     if selected \<noteq> None \<and> sources = [] then Inl (GovStore ErrSelectedRuleSetUnavailable)
     else case Compile (ge_num e) (ge_sha e) (map snd sources) of
       Inl _ \<Rightarrow> Inl (ErrStatement ''compile rules'')
     | Inr compiled \<Rightarrow>
       let records = resolveApplicableRuleExceptions e g tenantID sc branch (map fst sources) in
       case ApplyExceptions (ge_sha e) compiled (map (applied_exception text) records) of
         Inl _ \<Rightarrow> Inl (ErrStatement ''apply approved rule exceptions'')
       | Inr compiled \<Rightarrow> Inr (compiled, sources, appliedExceptionRecords text compiled records, selections)))"

definition resolveRuleSnapshotWithCanary ::
  "(uuid \<Rightarrow> string) \<Rightarrow> (cohort_key \<Rightarrow> nat) \<Rightarrow> gov_env \<Rightarrow> gov \<Rightarrow> uuid \<Rightarrow> scope \<Rightarrow> string \<Rightarrow> uuid option \<Rightarrow> int
   \<Rightarrow> gov_error + (gov \<times> uuid \<times> ruleRolloutRunSelection list)" where
  "resolveRuleSnapshotWithCanary text hash e g tenantID sc branch selected number =
     bind_r (compile_for_review text hash e g tenantID sc branch selected number) (\<lambda>(compiled, sources, records, selections).
     let (g, snapshotID) = store_snapshot g tenantID compiled
     in Inr (store_evidence g snapshotID sources records, snapshotID, selections))"

end
