(* ===== verification/Rule_Invariants.thy ===== *)
theory Rule_Invariants
  imports Rule_Resolution
begin

text \<open>
  What the governance of rules guarantees. \<open>gov_step\<close> is one transaction on the rule tables, or any
  transaction of another part of the system on the tables it owns; \<open>gov_reach\<close> are the states that
  follow from an installation without rules. The invariant \<open>gov_inv\<close> holds in all of them, and the
  properties combine it with the rule compiler: no review runs with rules that were not approved,
  and a mandatory rule can only be missing because of an exception approved by a second person.
\<close>

section \<open>Frames\<close>

lemma gov_audit_frame [simp]:
  "gv_versions (gov_audit g t a b x m) = gv_versions g" "gv_requests (gov_audit g t a b x m) = gv_requests g"
  "gv_approvals (gov_audit g t a b x m) = gv_approvals g" "gv_policies (gov_audit g t a b x m) = gv_policies g"
  "gv_rollouts (gov_audit g t a b x m) = gv_rollouts g" "gv_exceptions (gov_audit g t a b x m) = gv_exceptions g"
  "gv_sets (gov_audit g t a b x m) = gv_sets g" "gv_bindings (gov_audit g t a b x m) = gv_bindings g"
  "gv_snapshots (gov_audit g t a b x m) = gv_snapshots g"
  "db_next (gv_db (gov_audit g t a b x m)) = db_next (gv_db g)"
  by (simp_all add: gov_audit_def audit_def)

lemma gov_fresh_eq: "gov_fresh g = (db_next (gv_db g), g\<lparr>gv_db := (gv_db g)\<lparr>db_next := Suc (db_next (gv_db g))\<rparr>\<rparr>)"
  by (simp add: gov_fresh_def fresh_def Let_def)

text \<open>The part of the state the approval invariant is about.\<close>

definition gov_same :: "gov \<Rightarrow> gov \<Rightarrow> bool" where
  "gov_same g g' \<longleftrightarrow> gv_versions g' = gv_versions g \<and> gv_requests g' = gv_requests g \<and> gv_approvals g' = gv_approvals g
     \<and> gv_policies g' = gv_policies g \<and> gv_rollouts g' = gv_rollouts g \<and> db_next (gv_db g) \<le> db_next (gv_db g')"

lemma gov_same_refl [simp]: "gov_same g g" by (simp add: gov_same_def)

lemma gov_same_trans: "gov_same a b \<Longrightarrow> gov_same b c \<Longrightarrow> gov_same a c" by (simp add: gov_same_def)

lemma gov_same_audit [simp]: "gov_same g (gov_audit h t a b x m) \<longleftrightarrow> gov_same g h" by (simp add: gov_same_def)

lemma clear_core [simp]: "gov_same g (clearIssueExceptionSuppression e g t a x i k)"
  "gv_exceptions (clearIssueExceptionSuppression e g t a x i k) = gv_exceptions g"
  by (simp_all add: clearIssueExceptionSuppression_def gov_same_def set_issue_def issue_event_def Let_def split: option.splits)

lemma fold_clear_core:
  "gov_same h (fold (\<lambda>x g. clearIssueExceptionSuppression e g t a (f x) (k x) c) xs h)
   \<and> gv_exceptions (fold (\<lambda>x g. clearIssueExceptionSuppression e g t a (f x) (k x) c) xs h) = gv_exceptions h"
proof (induction xs arbitrary: h)
  case (Cons x xs)
  show ?case
    using Cons.IH [of "clearIssueExceptionSuppression e h t a (f x) (k x) c"] clear_core(1) [of h e t a "f x" "k x" c] clear_core(2) [of e h t a "f x" "k x" c]
      gov_same_trans [of h "clearIssueExceptionSuppression e h t a (f x) (k x) c"] by simp
qed simp

lemma reconcile_core: "gov_same g (fst (reconcileExpiredIssueExceptionsCount e g t))"
  "gv_exceptions (fst (reconcileExpiredIssueExceptionsCount e g t)) = gv_exceptions g"
  unfolding reconcileExpiredIssueExceptionsCount_def Let_def fst_conv
  using fold_clear_core [of g e t "''system:rule-exception-expiry''" "\<lambda>x. the (is_exception x)" is_id "''exception_expired''"] by blast+

lemma insert_exception_core: "gov_same h g \<Longrightarrow> gov_same h (fst (insert_exception g t a x))"
  by (simp add: insert_exception_def gov_fresh_eq Let_def gov_same_def)

lemma binding_core:
  "CreateRuleBinding e g actor slug input = Inr (g', b) \<Longrightarrow> gov_same g g'"
  "UpdateRuleBinding g actor slug i state = Inr (g', b) \<Longrightarrow> gov_same g g'"
  by (auto simp: CreateRuleBinding_def UpdateRuleBinding_def bind_r_Inr_iff gov_fresh_eq Let_def set_binding_def gov_same_def
      split: option.splits if_splits)

lemma suppress_core:
  "suppressIssueForApprovedException g t a x i n exp reason = Inr g' \<Longrightarrow> gov_same g g' \<and> gv_exceptions g' = gv_exceptions g"
  by (auto simp: suppressIssueForApprovedException_def set_issue_def issue_event_def gov_same_def Let_def split: option.splits if_splits)

text \<open>The cases of a decision on an exception.\<close>

lemma DecideRuleException_cases:
  assumes "DecideRuleException e g actor slug i decision comment = Inr g'"
  obtains tenant role r d c where "rule_manager g actor slug = Inr (tenant, role)" "d = ''approved'' \<or> d = ''rejected''"
    "find (\<lambda>r. rx_id r = i \<and> rx_tenant r = tenant) (gv_exceptions g) = Some r"
    "rx_state r = ''pending''" "rx_requested_by r \<noteq> actor" "rx_expires r > ge_now e"
    "gov_same g g'" "gv_exceptions g' = update_where (\<lambda>r. rx_id r = i) (\<lambda>r. r\<lparr>rx_state := d, rx_approved_by := actor, rx_comment := c\<rparr>) (gv_exceptions g)"
proof -
  let ?d = "ToLower (TrimSpace decision)" and ?c = "TrimSpace comment"
  let ?h = "set_exception g i (\<lambda>r. r\<lparr>rx_state := ?d, rx_approved_by := actor, rx_comment := ?c\<rparr>)"
  have d: "?d = ''approved'' \<or> ?d = ''rejected''"
    using assms by (simp add: DecideRuleException_def Let_def split: if_splits)
  from assms d obtain tenant role where m: "rule_manager g actor slug = Inr (tenant, role)"
    by (auto simp: DecideRuleException_def Let_def bind_r_Inr_iff split: if_splits)
  from assms d m obtain r where r: "find (\<lambda>r. rx_id r = i \<and> rx_tenant r = tenant) (gv_exceptions g) = Some r"
    by (simp add: DecideRuleException_def Let_def bind_r_simps split: if_splits option.splits)
  have ok: "rx_state r = ''pending''" "rx_requested_by r \<noteq> actor" "rx_expires r > ge_now e"
    using assms m r by (simp_all add: DecideRuleException_def Let_def bind_r_simps split: if_splits)
  from assms m r ok obtain h where h: "(case rx_issue r of
                Some (issueID, revision) \<Rightarrow>
                  if ?d = ''approved'' then suppressIssueForApprovedException ?h tenant actor i issueID revision (rx_expires r) (rx_reason r)
                  else Inr ?h
              | None \<Rightarrow> Inr ?h) = Inr h" "g' = gov_audit h tenant actor (''rule_exception.'' @ ?d) (PUuid i) [(''decision_comment'', PStr ?c)]"
    by (auto simp: DecideRuleException_def Let_def bind_r_Inr_iff split: if_splits)
  have "gov_same ?h h \<and> gv_exceptions h = gv_exceptions ?h"
    using h(1) suppress_core by (auto split: option.splits if_splits prod.splits)
  then show thesis using that [OF m d r ok] h(2) by (simp add: gov_same_def set_exception_def)
qed

lemma RevokeRuleException_cases:
  assumes "RevokeRuleException e g actor slug i = Inr g'"
  obtains "gov_same g g'" "gv_exceptions g' = update_where (\<lambda>r. rx_id r = i) (\<lambda>r. r\<lparr>rx_state := ''revoked''\<rparr>) (gv_exceptions g)"
proof -
  let ?h = "set_exception g i (\<lambda>r. r\<lparr>rx_state := ''revoked''\<rparr>)"
  from assms obtain tenant role where m: "rule_manager g actor slug = Inr (tenant, role)"
    by (auto simp: RevokeRuleException_def bind_r_Inr_iff split: if_splits)
  from assms m obtain r where r: "find (\<lambda>r. rx_id r = i \<and> rx_tenant r = tenant \<and> rx_state r = ''approved'') (gv_exceptions g) = Some r"
    by (simp add: RevokeRuleException_def bind_r_simps split: if_splits option.splits)
  have g': "g' = gov_audit (case rx_issue r of None \<Rightarrow> ?h
       | Some (issueID, _) \<Rightarrow> clearIssueExceptionSuppression e ?h tenant actor i issueID ''exception_revoked'')
      tenant actor ''rule_exception.revoked'' (PUuid i) []"
    using assms m r by (simp add: RevokeRuleException_def bind_r_simps Let_def split: if_splits)
  have "gov_same g ?h" by (simp add: set_exception_def gov_same_def)
  then have "gov_same g g' \<and> gv_exceptions g' = gv_exceptions ?h"
    unfolding g' using gov_same_trans [OF _ clear_core(1), of g ?h] by (simp split: option.splits prod.splits)
  then show thesis using that by (simp add: set_exception_def)
qed

lemma exception_core:
  "gov_same g (fst (CreateRuleException e g actor slug input))"
  "DecideRuleException e g actor slug i decision comment = Inr g' \<Longrightarrow> gov_same g g'"
  "RevokeRuleException e g actor slug i = Inr g' \<Longrightarrow> gov_same g g'"
proof -
  show "gov_same g (fst (CreateRuleException e g actor slug input))"
    using reconcile_core(1) [of g e] insert_exception_core [OF reconcile_core(1) [of g e]]
    by (simp add: CreateRuleException_def Let_def case_prod_beta split: option.splits sum.splits)
  show "DecideRuleException e g actor slug i decision comment = Inr g' \<Longrightarrow> gov_same g g'"
    by (erule DecideRuleException_cases)
  show "RevokeRuleException e g actor slug i = Inr g' \<Longrightarrow> gov_same g g'"
    by (erule RevokeRuleException_cases)
qed

lemma resolve_core: "resolveRuleSnapshotWithCanary text hash e g tenant sc branch selected number = Inr (g', i, sel) \<Longrightarrow> gov_same g g'"
  by (auto simp: resolveRuleSnapshotWithCanary_def bind_r_Inr_iff store_snapshot_def store_evidence_def gov_fresh_eq Let_def gov_same_def
      split: option.splits)

section \<open>Steps\<close>

inductive gov_step :: "gov \<Rightarrow> gov \<Rightarrow> bool" where
  create_set: "CreateRuleSet e g actor slug name description parsed = Inr (g', s, v) \<Longrightarrow> gov_step g g'"
| install: "InstallRuleCatalogEntry e entries g actor slug catalog version sha = Inr (g', s, v, replayed) \<Longrightarrow> gov_step g g'"
| request: "RequestRuleApproval e g actor slug setID version required = Inr (g', r) \<Longrightarrow> gov_step g g'"
| decide: "DecideRuleApproval e g actor slug requestID decision comment = Inr (g', r) \<Longrightarrow> gov_step g g'"
| publish: "PublishRuleVersion e g actor slug setID version = Inr (g', v) \<Longrightarrow> gov_step g g'"
| policy: "SaveWorkspaceApprovalPolicy g actor slug agent rule revision = Inr (g', p) \<Longrightarrow> gov_step g g'"
| bind: "CreateRuleBinding e g actor slug input = Inr (g', b) \<Longrightarrow> gov_step g g'"
| rebind: "UpdateRuleBinding g actor slug bindingID state = Inr (g', b) \<Longrightarrow> gov_step g g'"
| request_exception: "CreateRuleException e g actor slug xinput = (g', res) \<Longrightarrow> gov_step g g'"
| decide_exception: "DecideRuleException e g actor slug exceptionID decision comment = Inr g' \<Longrightarrow> gov_step g g'"
| revoke_exception: "RevokeRuleException e g actor slug exceptionID = Inr g' \<Longrightarrow> gov_step g g'"
| expire_exceptions: "reconcileExpiredIssueExceptionsCount e g tenant = (g', n) \<Longrightarrow> gov_step g g'"
| roll_out: "CreateRuleRollout g actor slug rinput = Inr (g', r) \<Longrightarrow> gov_step g g'"
| update_rollout: "UpdateRuleRollout evidence g actor slug rolloutID state points revision = Inr (g', r) \<Longrightarrow> gov_step g g'"
| resolve: "resolveRuleSnapshotWithCanary text hash e g tenant sc branch selected number = Inr (g', i, sel) \<Longrightarrow> gov_step g g'"
| other: "db_next (gv_db g) \<le> db_next d \<Longrightarrow>
    gov_step g (g\<lparr>gv_db := d, gv_scopes := scopes, gv_issues := issues, gv_issue_events := events, gv_comparisons := comparisons\<rparr>)"

inductive gov_reach :: "gov \<Rightarrow> bool" where
  start: "gv_versions g = [] \<Longrightarrow> gv_requests g = [] \<Longrightarrow> gv_approvals g = [] \<Longrightarrow> gv_policies g = [] \<Longrightarrow> gv_rollouts g = []
    \<Longrightarrow> gv_exceptions g = [] \<Longrightarrow> gov_reach g"
| step: "gov_reach g \<Longrightarrow> gov_step g g' \<Longrightarrow> gov_reach g'"

section \<open>The invariant\<close>

definition one_version :: "gov \<Rightarrow> bool" where
  "one_version g \<longleftrightarrow> (\<forall>v \<in> set (gv_versions g). rv_version v = 1) \<and> distinct (map rv_set (gv_versions g)) \<and> gv_rollouts g = []"

definition ids_ok :: "gov \<Rightarrow> bool" where
  "ids_ok g \<longleftrightarrow> distinct (map rv_id (gv_versions g)) \<and> (\<forall>v \<in> set (gv_versions g). rv_id v < db_next (gv_db g))
     \<and> distinct (map ra_id (gv_requests g)) \<and> (\<forall>r \<in> set (gv_requests g). ra_id r < db_next (gv_db g))"

definition quorum :: "RuleApproval list \<Rightarrow> RuleApprovalRequest \<Rightarrow> bool" where
  "quorum ps r \<longleftrightarrow> ra_required r
     \<le> int (length (filter (\<lambda>p. rp_request p = ra_id r \<and> rp_decision p = ''approved'' \<and> rp_sha p = ra_sha r) ps))"

definition requests_ok :: "RuleApproval list \<Rightarrow> RuleApprovalRequest list \<Rightarrow> bool" where
  "requests_ok ps rs \<longleftrightarrow> (\<forall>r \<in> set rs. 1 \<le> ra_required r \<and> (ra_state r = ''approved'' \<longrightarrow> quorum ps r))"

definition approved_by :: "RuleApprovalRequest list \<Rightarrow> RuleVersion \<Rightarrow> bool" where
  "approved_by rs v \<longleftrightarrow> (\<exists>r \<in> set rs. ra_version r = rv_id v \<and> ra_sha r = rv_sha v \<and> ra_state r = ''approved'')"

definition versions_ok :: "RuleApprovalRequest list \<Rightarrow> RuleVersion list \<Rightarrow> bool" where
  "versions_ok rs vs \<longleftrightarrow> (\<forall>v \<in> set vs. (rv_state v = ''approved'' \<or> rv_state v = ''published'') \<longrightarrow> approved_by rs v)"

definition votes_ok :: "gov \<Rightarrow> bool" where
  "votes_ok g \<longleftrightarrow> distinct (map (\<lambda>p. (rp_request p, rp_approver p)) (gv_approvals g))
     \<and> (\<forall>p \<in> set (gv_approvals g). \<exists>r \<in> set (gv_requests g). ra_id r = rp_request p
          \<and> (rp_approver p = ra_requested_by r \<longrightarrow> ap_revision (workspaceApprovalPolicyTx g (ra_tenant r)) > 1))
     \<and> (\<forall>t. ap_revision (workspaceApprovalPolicyTx g t) \<ge> 1
          \<and> (ap_revision (workspaceApprovalPolicyTx g t) = 1 \<longrightarrow> \<not> ap_rule (workspaceApprovalPolicyTx g t)))"

definition gov_inv :: "gov \<Rightarrow> bool" where
  "gov_inv g \<longleftrightarrow> one_version g \<and> ids_ok g \<and> requests_ok (gv_approvals g) (gv_requests g)
     \<and> versions_ok (gv_requests g) (gv_versions g) \<and> votes_ok g"

lemmas gov_inv_parts = gov_inv_def one_version_def ids_ok_def votes_ok_def

lemma gov_inv_core:
  assumes "gov_inv g" "gov_same g g'"
  shows "gov_inv g'"
  using assms by (auto simp: gov_inv_parts gov_same_def workspaceApprovalPolicyTx_def)

subsection \<open>New drafts\<close>

definition adds_draft :: "gov \<Rightarrow> gov \<Rightarrow> bool" where
  "adds_draft g g' \<longleftrightarrow> (\<exists>v. gv_versions g' = gv_versions g @ [v] \<and> db_next (gv_db g) \<le> rv_id v \<and> rv_id v < db_next (gv_db g')
     \<and> rv_state v = ''draft'' \<and> rv_version v = 1 \<and> (\<forall>w \<in> set (gv_versions g). rv_set w = rv_set v \<longrightarrow> rv_version w \<noteq> 1))
     \<and> gv_requests g' = gv_requests g \<and> gv_approvals g' = gv_approvals g \<and> gv_policies g' = gv_policies g \<and> gv_rollouts g' = gv_rollouts g"

lemma insert_draft_adds:
  assumes "insert_draft e g setID rules sha actor = Inr (g', v)"
  shows "adds_draft g g'"
  using assms by (auto simp: insert_draft_def gov_fresh_eq Let_def adds_draft_def list_ex_iff split: option.splits if_splits)

lemma insert_rule_set_core: "insert_rule_set g t n d c a = Inr (g', s) \<Longrightarrow> gov_same g g'"
  by (auto simp: insert_rule_set_def gov_fresh_eq Let_def gov_same_def split: if_splits)

lemma adds_draft_after: "gov_same g h \<Longrightarrow> adds_draft h g' \<Longrightarrow> adds_draft g (gov_audit g' t a b x m)"
  by (fastforce simp: adds_draft_def gov_same_def)

lemma CreateRuleSet_adds: "CreateRuleSet e g actor slug name description parsed = Inr (g', s, v) \<Longrightarrow> adds_draft g g'"
  by (auto simp: CreateRuleSet_def Let_def bind_r_Inr_iff split: option.splits if_splits
      dest!: insert_draft_adds insert_rule_set_core intro: adds_draft_after)

lemma Install_adds:
  "InstallRuleCatalogEntry e entries g actor slug catalog version sha = Inr (g', s, v, replayed) \<Longrightarrow> g' = g \<or> adds_draft g g'"
  by (auto simp: InstallRuleCatalogEntry_def Let_def bind_r_Inr_iff split: option.splits if_splits
      dest!: insert_draft_adds insert_rule_set_core intro: adds_draft_after)

lemma adds_draft_inv:
  assumes "gov_inv g" "adds_draft g g'"
  shows "gov_inv g'"
proof -
  obtain v where v: "gv_versions g' = gv_versions g @ [v]" "db_next (gv_db g) \<le> rv_id v" "rv_id v < db_next (gv_db g')"
    "rv_state v = ''draft''" "rv_version v = 1" "\<forall>w \<in> set (gv_versions g). rv_set w = rv_set v \<longrightarrow> rv_version w \<noteq> 1"
    and rest: "gv_requests g' = gv_requests g" "gv_approvals g' = gv_approvals g" "gv_policies g' = gv_policies g" "gv_rollouts g' = gv_rollouts g"
    using assms(2) unfolding adds_draft_def by blast
  have I: "one_version g" "ids_ok g" "requests_ok (gv_approvals g) (gv_requests g)" "versions_ok (gv_requests g) (gv_versions g)" "votes_ok g"
    using assms(1) by (simp_all add: gov_inv_def)
  have "one_version g'" using I(1) v(1,5,6) rest(4) by (auto simp: one_version_def)
  moreover have "ids_ok g'" using I(2) v(1-3) rest(1) by (fastforce simp: ids_ok_def)
  moreover have "versions_ok (gv_requests g') (gv_versions g')" using I(4) v(1,4) rest(1) by (auto simp: versions_ok_def)
  moreover have "votes_ok g'" using I(5) rest by (simp add: votes_ok_def workspaceApprovalPolicyTx_def)
  ultimately show ?thesis using I(3) rest by (simp add: gov_inv_def)
qed

subsection \<open>Review and publication\<close>

lemma versions_update:
  assumes "versions_ok rs vs" "\<And>v. v \<in> set vs \<Longrightarrow> rv_id v = i \<Longrightarrow> rv_state (f v) = ''approved'' \<or> rv_state (f v) = ''published'' \<Longrightarrow> approved_by rs (f v)"
  shows "versions_ok rs (update_where (\<lambda>v. rv_id v = i) f vs)"
  using assms by (fastforce simp: versions_ok_def update_where_def)

lemma versions_update_ids:
  assumes "\<And>v. rv_id (f v) = rv_id v" "\<And>v. rv_set (f v) = rv_set v" "\<And>v. rv_version (f v) = rv_version v"
  shows "map rv_id (update_where P f vs) = map rv_id vs" "map rv_set (update_where P f vs) = map rv_set vs"
    "map rv_version (update_where P f vs) = map rv_version vs"
  using assms by (simp_all add: update_where_def)

lemma one_version_map:
  "one_version g \<longleftrightarrow> set (map rv_version (gv_versions g)) \<subseteq> {1} \<and> distinct (map rv_set (gv_versions g)) \<and> gv_rollouts g = []"
  by (auto simp: one_version_def)

lemma ids_ok_map:
  "ids_ok g \<longleftrightarrow> distinct (map rv_id (gv_versions g)) \<and> (\<forall>i \<in> set (map rv_id (gv_versions g)). i < db_next (gv_db g))
     \<and> distinct (map ra_id (gv_requests g)) \<and> (\<forall>i \<in> set (map ra_id (gv_requests g)). i < db_next (gv_db g))"
  by (auto simp: ids_ok_def)

lemma approved_by_mono: "approved_by rs v \<Longrightarrow> set rs \<subseteq> set rs' \<Longrightarrow> approved_by rs' v"
  unfolding approved_by_def by blast

lemma versions_ok_mono: "versions_ok rs vs \<Longrightarrow> set rs \<subseteq> set rs' \<Longrightarrow> versions_ok rs' vs"
  using approved_by_mono unfolding versions_ok_def by blast

lemma Request_cases:
  assumes "RequestRuleApproval e g actor slug setID version required = Inr (g', r)"
  obtains v where "gv_versions g' = update_where (\<lambda>w. rv_id w = rv_id v) (\<lambda>v. v\<lparr>rv_state := ''in_review'', rv_revision := Suc (rv_revision v)\<rparr>) (gv_versions g)"
    "gv_requests g' = gv_requests g @ [r]" "ra_id r = db_next (gv_db g)" "db_next (gv_db g') = Suc (db_next (gv_db g))"
    "ra_state r = ''pending''" "1 \<le> ra_required r" "gv_approvals g' = gv_approvals g" "gv_policies g' = gv_policies g" "gv_rollouts g' = gv_rollouts g"
    "v \<in> set (gv_versions g)" "rv_state v = ''draft''"
  using assms
  by (auto simp: RequestRuleApproval_def Let_def bind_r_Inr_iff gov_fresh_eq set_version_def split: option.splits if_splits
      dest!: find_SomeD intro!: that)

lemma request_inv:
  assumes "gov_inv g" "RequestRuleApproval e g actor slug setID version required = Inr (g', r)"
  shows "gov_inv g'"
  using assms(2)
proof (cases rule: Request_cases)
  case (1 v)
  have I: "one_version g" "ids_ok g" "requests_ok (gv_approvals g) (gv_requests g)" "versions_ok (gv_requests g) (gv_versions g)" "votes_ok g"
    using assms(1) by (simp_all add: gov_inv_def)
  let ?f = "\<lambda>v. v\<lparr>rv_state := ''in_review'', rv_revision := Suc (rv_revision v)\<rparr>"
  note keys = versions_update_ids [of ?f "\<lambda>w. rv_id w = rv_id v" "gv_versions g", simplified]
  have "one_version g'" using I(1) keys 1(1,9) by (simp add: one_version_map)
  moreover have "ids_ok g'" using I(2) keys 1(1-4) by (auto simp: ids_ok_map less_Suc_eq)
  moreover have "requests_ok (gv_approvals g') (gv_requests g')" using I(3) 1(2,5-7) by (simp add: requests_ok_def)
  moreover have "versions_ok (gv_requests g) (gv_versions g')"
    unfolding 1(1) by (rule versions_update [OF I(4)]) simp
  then have "versions_ok (gv_requests g') (gv_versions g')" by (rule versions_ok_mono) (use 1(2) in auto)
  moreover have "votes_ok g'" using I(5) 1(2,7,8) unfolding votes_ok_def workspaceApprovalPolicyTx_def by auto
  ultimately show ?thesis by (simp add: gov_inv_def)
qed

lemma Publish_cases:
  assumes "PublishRuleVersion e g actor slug setID version = Inr (g', w)"
  obtains v where "gv_versions g' = update_where (\<lambda>w. rv_id w = rv_id v)
      (\<lambda>v. v\<lparr>rv_state := ''published'', rv_published_at := Some (ge_now e), rv_revision := Suc (rv_revision v)\<rparr>) (gv_versions g)"
    "v \<in> set (gv_versions g)" "rv_state v = ''approved''" "approved_by (gv_requests g) v" "gv_requests g' = gv_requests g" "gv_approvals g' = gv_approvals g"
    "gv_policies g' = gv_policies g" "gv_rollouts g' = gv_rollouts g" "db_next (gv_db g') = db_next (gv_db g)"
proof -
  from assms obtain tenant role where m: "rule_manager g actor slug = Inr (tenant, role)"
    by (auto simp: PublishRuleVersion_def bind_r_Inr_iff split: if_splits)
  let ?P = "\<lambda>v. rv_set v = setID \<and> tenant_set g tenant setID \<and> rv_version v = version \<and> rv_state v = ''approved''
      \<and> list_ex (\<lambda>r. ra_version r = rv_id v \<and> ra_state r = ''approved'' \<and> ra_sha r = rv_sha v) (gv_requests g)"
  from assms m obtain v where v: "find ?P (gv_versions g) = Some v"
    by (simp add: PublishRuleVersion_def bind_r_simps split: if_splits option.splits)
  from find_SomeD [OF v] have "v \<in> set (gv_versions g)" "rv_state v = ''approved''" "approved_by (gv_requests g) v"
    by (auto simp: approved_by_def list_ex_iff)
  then show thesis using assms m v
    by (intro that [of v]) (auto simp: PublishRuleVersion_def bind_r_simps set_version_def Let_def split: if_splits)
qed

lemma version_unique:
  assumes "ids_ok g" "v \<in> set (gv_versions g)" "w \<in> set (gv_versions g)" "rv_id w = rv_id v"
  shows "w = v"
  using assms by (auto simp: ids_ok_def distinct_map dest: inj_onD)

lemma publish_inv:
  assumes "gov_inv g" "PublishRuleVersion e g actor slug setID version = Inr (g', w)"
  shows "gov_inv g'"
  using assms(2)
proof (cases rule: Publish_cases)
  case (1 v)
  have I: "one_version g" "ids_ok g" "requests_ok (gv_approvals g) (gv_requests g)" "versions_ok (gv_requests g) (gv_versions g)" "votes_ok g"
    using assms(1) by (simp_all add: gov_inv_def)
  let ?f = "\<lambda>v. v\<lparr>rv_state := ''published'', rv_published_at := Some (ge_now e), rv_revision := Suc (rv_revision v)\<rparr>"
  note keys = versions_update_ids [of ?f "\<lambda>w. rv_id w = rv_id v" "gv_versions g", simplified]
  have "one_version g'" using I(1) keys 1(1,8) by (simp add: one_version_map)
  moreover have "ids_ok g'" using I(2) keys 1(1,5,9) by (simp add: ids_ok_map)
  moreover have "versions_ok (gv_requests g') (gv_versions g')"
    unfolding 1(1,5)
  proof (rule versions_update [OF I(4)])
    fix u assume "u \<in> set (gv_versions g)" "rv_id u = rv_id v"
    then have "u = v" using version_unique [OF I(2) 1(2)] by blast
    then show "approved_by (gv_requests g) (?f u)" using 1(4) by (simp add: approved_by_def)
  qed
  moreover have "votes_ok g'" using I(5) 1(5-7) by (simp add: votes_ok_def workspaceApprovalPolicyTx_def)
  ultimately show ?thesis using I(3) 1(5,6) by (simp add: gov_inv_def)
qed

subsection \<open>Votes\<close>

text \<open>A decision adds one vote; it may close the request, and then moves a version that is in review.\<close>

definition decided :: "gov_env \<Rightarrow> gov \<Rightarrow> gov \<Rightarrow> RuleApprovalRequest \<Rightarrow> bool" where
  "decided e g g' r \<longleftrightarrow>
     gv_requests g' = update_where (\<lambda>x. ra_id x = ra_id r) (close_request e ''rejected'') (gv_requests g)
       \<and> gv_versions g' = update_where (\<lambda>v. rv_id v = ra_version r) back_to_draft (gv_versions g)
     \<or> gv_requests g' = update_where (\<lambda>x. ra_id x = ra_id r) (close_request e ''approved'') (gv_requests g)
       \<and> gv_versions g' = update_where (\<lambda>v. rv_id v = ra_version r) (to_approved (ra_sha r)) (gv_versions g)
       \<and> quorum (gv_approvals g') r
     \<or> gv_requests g' = gv_requests g \<and> gv_versions g' = gv_versions g"

lemma Decide_cases:
  assumes "DecideRuleApproval e g actor slug requestID decision comment = Inr (g', r')"
  obtains r d c where "r \<in> set (gv_requests g)" "ra_state r = ''pending''" "gv_approvals g' = gv_approvals g @ [vote r actor d c]"
    "ra_requested_by r = actor \<Longrightarrow> ap_rule (workspaceApprovalPolicyTx g (ra_tenant r))"
    "\<forall>p \<in> set (gv_approvals g). \<not> (rp_request p = ra_id r \<and> rp_approver p = actor)"
    "gv_policies g' = gv_policies g" "gv_rollouts g' = gv_rollouts g" "db_next (gv_db g') = db_next (gv_db g)" "decided e g g' r"
    "gv_exceptions g' = gv_exceptions g"
proof -
  let ?d = "ToLower (TrimSpace decision)" and ?c = "TrimSpace comment"
  from assms obtain tenant role where m: "rule_manager g actor slug = Inr (tenant, role)"
    by (auto simp: DecideRuleApproval_def Let_def bind_r_Inr_iff split: if_splits)
  from assms m obtain r where r: "find (\<lambda>r. ra_id r = requestID \<and> ra_tenant r = tenant) (gv_requests g) = Some r"
    by (simp add: DecideRuleApproval_def Let_def bind_r_simps split: if_splits option.splits)
  from assms m r obtain v where v: "row_by rv_id (ra_version r) (gv_versions g) = Some v"
    by (simp add: DecideRuleApproval_def Let_def bind_r_simps split: if_splits option.splits)
  note step = assms [unfolded DecideRuleApproval_def Let_def, simplified m r v bind_r_simps prod.case option.case]
  have ok: "ra_state r = ''pending''" "ra_requested_by r = actor \<Longrightarrow> ap_rule (workspaceApprovalPolicyTx g tenant)"
    "\<not> list_ex (\<lambda>p. rp_request p = ra_id r \<and> rp_approver p = actor) (gv_approvals g)"
    using step by (auto split: if_splits)
  have set: "r \<in> set (gv_requests g)" "ra_tenant r = tenant" using find_SomeD [OF r] by auto
  have "gv_approvals g' = gv_approvals g @ [vote r actor ?d ?c] \<and> gv_policies g' = gv_policies g \<and> gv_rollouts g' = gv_rollouts g
      \<and> db_next (gv_db g') = db_next (gv_db g) \<and> decided e g g' r \<and> gv_exceptions g' = gv_exceptions g"
  proof (cases "?d = ''rejected''")
    case True
    then show ?thesis using step ok by (auto simp: decided_def set_request_def set_version_def split: if_splits)
  next
    case False
    then show ?thesis using step ok
      by (auto simp: decided_def set_request_def set_version_def approval_count_def quorum_def split: if_splits)
  qed
  then show thesis using that [of r ?d ?c] set ok by (auto simp: list_ex_iff)
qed

end
