(* ===== verification/Rule_Safety.thy ===== *)
theory Rule_Safety
  imports Rule_Invariants
begin

text \<open>
  The remaining steps of the machine of \<open>Rule_Invariants\<close>, votes, policy changes and rollouts, and
  with them the invariant of every reachable state (\<open>gov_reach_inv\<close>).
\<close>

section \<open>Votes\<close>

lemma quorum_mono: "quorum ps r \<Longrightarrow> quorum (ps @ qs) r"
  by (simp add: quorum_def)

lemma quorum_same:
  "ra_id r' = ra_id r \<Longrightarrow> ra_sha r' = ra_sha r \<Longrightarrow> ra_required r' = ra_required r \<Longrightarrow> quorum ps r' = quorum ps r"
  by (simp add: quorum_def)

lemma request_unique:
  assumes "ids_ok g" "r \<in> set (gv_requests g)" "r' \<in> set (gv_requests g)" "ra_id r' = ra_id r"
  shows "r' = r"
  using assms by (auto simp: ids_ok_def distinct_map dest: inj_onD)

lemma close_request_sel [simp]:
  "ra_id (close_request e s r) = ra_id r" "ra_sha (close_request e s r) = ra_sha r" "ra_required (close_request e s r) = ra_required r"
  "ra_tenant (close_request e s r) = ra_tenant r" "ra_requested_by (close_request e s r) = ra_requested_by r"
  "ra_version (close_request e s r) = ra_version r" "ra_state (close_request e s r) = s"
  by (simp_all add: close_request_def)

lemma version_moves [simp]:
  "rv_id (back_to_draft v) = rv_id v" "rv_set (back_to_draft v) = rv_set v" "rv_version (back_to_draft v) = rv_version v"
  "rv_sha (back_to_draft v) = rv_sha v"
  "rv_id (to_approved s v) = rv_id v" "rv_set (to_approved s v) = rv_set v" "rv_version (to_approved s v) = rv_version v"
  "rv_sha (to_approved s v) = rv_sha v"
  by (simp_all add: back_to_draft_def to_approved_def)

lemma approved_by_same: "rv_id v = rv_id w \<Longrightarrow> rv_sha v = rv_sha w \<Longrightarrow> approved_by rs v = approved_by rs w"
  by (simp add: approved_by_def)

text \<open>Closing a pending request keeps every approved request.\<close>

lemma approved_requests_kept:
  assumes ids: "ids_ok g" and r: "r \<in> set (gv_requests g)" "ra_state r = ''pending''"
    and x: "x \<in> set (gv_requests g)" "ra_state x = ''approved''"
  shows "x \<in> set (update_where (\<lambda>y. ra_id y = ra_id r) f (gv_requests g))"
proof -
  have "ra_id x \<noteq> ra_id r" using request_unique [OF ids r(1) x(1)] r(2) x(2) by auto
  then show ?thesis using x(1) by (force simp: update_where_def)
qed

lemma approved_by_kept:
  assumes "ids_ok g" "r \<in> set (gv_requests g)" "ra_state r = ''pending''" "approved_by (gv_requests g) v"
  shows "approved_by (update_where (\<lambda>y. ra_id y = ra_id r) f (gv_requests g)) v"
  using assms(4) approved_requests_kept [OF assms(1-3)] unfolding approved_by_def by blast

lemma versions_ok_close:
  assumes "ids_ok g" "r \<in> set (gv_requests g)" "ra_state r = ''pending''" "versions_ok (gv_requests g) vs"
  shows "versions_ok (update_where (\<lambda>y. ra_id y = ra_id r) f (gv_requests g)) vs"
  using assms(4) approved_by_kept [OF assms(1-3)] unfolding versions_ok_def by blast

lemma requests_ok_close:
  assumes "requests_ok ps rs" "s = ''approved'' \<Longrightarrow> \<forall>x \<in> set rs. ra_id x = ra_id r \<longrightarrow> quorum ps x"
  shows "requests_ok ps (update_where (\<lambda>y. ra_id y = ra_id r) (close_request e s) rs)"
proof -
  have "quorum ps (close_request e s x) = quorum ps x" for x by (rule quorum_same) simp_all
  then show ?thesis using assms by (auto simp: requests_ok_def update_where_def)
qed

lemma decided_rows:
  assumes inv: "gov_inv g" and r: "r \<in> set (gv_requests g)" "ra_state r = ''pending''"
    and grow: "requests_ok (gv_approvals g') (gv_requests g)" and d: "decided e g g' r"
  shows "requests_ok (gv_approvals g') (gv_requests g') \<and> versions_ok (gv_requests g') (gv_versions g')
    \<and> map ra_id (gv_requests g') = map ra_id (gv_requests g) \<and> map rv_id (gv_versions g') = map rv_id (gv_versions g)
    \<and> map rv_set (gv_versions g') = map rv_set (gv_versions g) \<and> map rv_version (gv_versions g') = map rv_version (gv_versions g)"
proof -
  have ids: "ids_ok g" and vs: "versions_ok (gv_requests g) (gv_versions g)" using inv by (simp_all add: gov_inv_def)
  note kept = versions_ok_close [OF ids r vs]
  have same: "\<forall>x \<in> set (gv_requests g). ra_id x = ra_id r \<longrightarrow> x = r" using request_unique [OF ids r(1)] by blast
  consider (rejected) "gv_requests g' = update_where (\<lambda>x. ra_id x = ra_id r) (close_request e ''rejected'') (gv_requests g)"
      "gv_versions g' = update_where (\<lambda>v. rv_id v = ra_version r) back_to_draft (gv_versions g)"
    | (approved) "gv_requests g' = update_where (\<lambda>x. ra_id x = ra_id r) (close_request e ''approved'') (gv_requests g)"
      "gv_versions g' = update_where (\<lambda>v. rv_id v = ra_version r) (to_approved (ra_sha r)) (gv_versions g)" "quorum (gv_approvals g') r"
    | (open_still) "gv_requests g' = gv_requests g" "gv_versions g' = gv_versions g"
    using d unfolding decided_def by blast
  then show ?thesis
  proof cases
    case rejected
    have "versions_ok (gv_requests g') (gv_versions g')" unfolding rejected
    proof (rule versions_update [OF kept])
      fix v assume "v \<in> set (gv_versions g)" "rv_state (back_to_draft v) = ''approved'' \<or> rv_state (back_to_draft v) = ''published''"
      then have "rv_state v = ''approved'' \<or> rv_state v = ''published''" "v \<in> set (gv_versions g)"
        by (auto simp: back_to_draft_def split: if_splits)
      then have "approved_by (gv_requests g) v" using vs by (auto simp: versions_ok_def)
      then show "approved_by (update_where (\<lambda>x. ra_id x = ra_id r) (close_request e ''rejected'') (gv_requests g)) (back_to_draft v)"
        using approved_by_kept [OF ids r] approved_by_same [of "back_to_draft v" v] by simp
    qed
    then show ?thesis using rejected requests_ok_close [OF grow, of "''rejected''" r e]
      by (simp add: map_update_where_key versions_update_ids)
  next
    case approved
    let ?rs = "update_where (\<lambda>x. ra_id x = ra_id r) (close_request e ''approved'') (gv_requests g)"
    have closed: "close_request e ''approved'' r \<in> set ?rs" using r(1) by (auto simp: update_where_def)
    have "versions_ok (gv_requests g') (gv_versions g')" unfolding approved
    proof (rule versions_update [OF kept])
      fix v assume v: "v \<in> set (gv_versions g)" "rv_id v = ra_version r"
        "rv_state (to_approved (ra_sha r) v) = ''approved'' \<or> rv_state (to_approved (ra_sha r) v) = ''published''"
      show "approved_by ?rs (to_approved (ra_sha r) v)"
      proof (cases "rv_state v = ''in_review'' \<and> rv_sha v = ra_sha r")
        case True
        then show ?thesis using closed v(2) unfolding approved_by_def by (intro bexI [of _ "close_request e ''approved'' r"]) simp_all
      next
        case False
        then have eq: "to_approved (ra_sha r) v = v" unfolding to_approved_def by argo
        then have "approved_by (gv_requests g) v" using vs v unfolding versions_ok_def by metis
        then show ?thesis using approved_by_kept [OF ids r] eq by simp
      qed
    qed
    moreover have "requests_ok (gv_approvals g') ?rs"
      by (rule requests_ok_close [OF grow]) (use same approved(3) in blast)
    ultimately show ?thesis using approved by (simp add: map_update_where_key versions_update_ids)
  next
    case open_still
    then show ?thesis using grow vs by simp
  qed
qed

text \<open>The requests behind the votes keep their tenant, version and requester.\<close>

lemma decided_request_core:
  assumes "decided e g g' r" "x \<in> set (gv_requests g)"
  shows "\<exists>y \<in> set (gv_requests g'). ra_id y = ra_id x \<and> ra_tenant y = ra_tenant x \<and> ra_requested_by y = ra_requested_by x"
proof -
  have "\<exists>y \<in> set (update_where (\<lambda>y. ra_id y = ra_id r) (close_request e s) (gv_requests g)).
      ra_id y = ra_id x \<and> ra_tenant y = ra_tenant x \<and> ra_requested_by y = ra_requested_by x" for s
    using assms(2) by (intro bexI [of _ "if ra_id x = ra_id r then close_request e s x else x"]) (auto simp: update_where_def)
  then show ?thesis using assms unfolding decided_def by auto
qed

lemma decide_inv:
  assumes inv: "gov_inv g" and step: "DecideRuleApproval e g actor slug requestID decision comment = Inr (g', r')"
  shows "gov_inv g'"
  using step
proof (cases rule: Decide_cases)
  case (1 r d c)
  have I: "one_version g" "ids_ok g" "requests_ok (gv_approvals g) (gv_requests g)" "votes_ok g"
    using inv by (simp_all add: gov_inv_def)
  have "requests_ok (gv_approvals g') (gv_requests g)" using I(3) quorum_mono unfolding 1(3) requests_ok_def by blast
  note rows = decided_rows [OF inv 1(1,2) this 1(9)]
  have pol: "workspaceApprovalPolicyTx g' t = workspaceApprovalPolicyTx g t" for t using 1(6) by (simp add: workspaceApprovalPolicyTx_def)
  have "one_version g'" using I(1) rows 1(7) by (simp add: one_version_map)
  moreover have "ids_ok g'" using I(2) rows 1(8) unfolding ids_ok_map by simp
  moreover have "votes_ok g'" unfolding votes_ok_def pol
  proof (intro conjI)
    show "distinct (map (\<lambda>p. (rp_request p, rp_approver p)) (gv_approvals g'))"
      using I(4) 1(5) by (auto simp: votes_ok_def 1(3) vote_def)
    have self: "ra_requested_by r = actor \<Longrightarrow> ap_revision (workspaceApprovalPolicyTx g (ra_tenant r)) > 1"
      using I(4) 1(4) unfolding votes_ok_def by (metis order_le_imp_less_or_eq)
    show "\<forall>p \<in> set (gv_approvals g'). \<exists>x \<in> set (gv_requests g'). ra_id x = rp_request p
          \<and> (rp_approver p = ra_requested_by x \<longrightarrow> 1 < ap_revision (workspaceApprovalPolicyTx g (ra_tenant x)))"
    proof
      fix p assume "p \<in> set (gv_approvals g')"
      then consider "p \<in> set (gv_approvals g)" | "p = vote r actor d c" unfolding 1(3) by auto
      then obtain x where "x \<in> set (gv_requests g)" "ra_id x = rp_request p"
        "rp_approver p = ra_requested_by x \<Longrightarrow> 1 < ap_revision (workspaceApprovalPolicyTx g (ra_tenant x))"
        using I(4) 1(1) self unfolding votes_ok_def by cases (auto simp: vote_def)
      then show "\<exists>x \<in> set (gv_requests g'). ra_id x = rp_request p
          \<and> (rp_approver p = ra_requested_by x \<longrightarrow> 1 < ap_revision (workspaceApprovalPolicyTx g (ra_tenant x)))"
        using decided_request_core [OF 1(9)] by metis
    qed
  qed (use I(4) in \<open>simp add: votes_ok_def\<close>)
  ultimately show ?thesis using rows by (simp add: gov_inv_def)
qed

section \<open>Every step keeps the invariant\<close>

lemma Policy_cases:
  assumes "SaveWorkspaceApprovalPolicy g actor slug agent rule revision = Inr (g', p)"
  obtains t where "gv_policies g' = (t, p) # gv_policies g" "ap_revision p = ap_revision (workspaceApprovalPolicyTx g t) + 1"
    "gv_versions g' = gv_versions g" "gv_requests g' = gv_requests g" "gv_approvals g' = gv_approvals g"
    "gv_rollouts g' = gv_rollouts g" "db_next (gv_db g') = db_next (gv_db g)"
  using assms by (auto simp: SaveWorkspaceApprovalPolicy_def Let_def split: if_splits sum.splits intro!: that)

lemma policy_inv:
  assumes "gov_inv g" "SaveWorkspaceApprovalPolicy g actor slug agent rule revision = Inr (g', p)"
  shows "gov_inv g'"
  using assms(2)
proof (cases rule: Policy_cases)
  case (1 t)
  let ?w = "workspaceApprovalPolicyTx g" and ?w' = "workspaceApprovalPolicyTx g'"
  have V: "votes_ok g" using assms(1) by (simp add: gov_inv_def)
  have pol: "?w' u = (if u = t then p else ?w u)" for u using 1(1) by (simp add: workspaceApprovalPolicyTx_def)
  have ge: "1 \<le> ap_revision (?w u)" for u using V by (simp add: votes_ok_def)
  have up: "1 < ap_revision (?w u) \<Longrightarrow> 1 < ap_revision (?w' u)" for u using ge [of t] 1(2) by (simp add: pol)
  have "votes_ok g'" unfolding votes_ok_def 1(4,5)
  proof (intro conjI allI)
    fix u
    show "1 \<le> ap_revision (?w' u)" using ge [of t] ge [of u] 1(2) by (simp add: pol)
    have "ap_revision p \<noteq> 1" using ge [of t] 1(2) by simp
    then show "ap_revision (?w' u) = 1 \<longrightarrow> \<not> ap_rule (?w' u)" using V by (simp add: pol votes_ok_def)
  qed (use V up in \<open>unfold votes_ok_def, blast+\<close>)
  then show ?thesis using assms(1) 1 by (simp add: gov_inv_def one_version_def ids_ok_def)
qed

text \<open>With one version per rule set no pair of bindings qualifies for a rollout.\<close>

lemma version_set_unique:
  assumes "one_version g" "version_set g v = Some s" "version_set g w = Some s"
  shows "v = w"
proof -
  from assms(2,3) obtain a b where rows: "row_by rv_id v (gv_versions g) = Some a" "row_by rv_id w (gv_versions g) = Some b"
    and sets: "rv_set a = s" "rv_set b = s" by (auto simp: version_set_def)
  have "inj_on rv_set (set (gv_versions g))" using assms(1) by (simp add: one_version_def distinct_map)
  then have "a = b" using row_by_SomeD [OF rows(1)] row_by_SomeD [OF rows(2)] sets by (auto dest: inj_onD)
  then show ?thesis using row_by_SomeD [OF rows(1)] row_by_SomeD [OF rows(2)] by simp
qed

lemma rollout_refused:
  assumes "one_version g"
  shows "CreateRuleRollout g actor slug input \<noteq> Inr (g', r)"
proof -
  have "\<not> (v \<noteq> w \<and> version_set g v = Some s \<and> version_set g w = Some s)" for v w s
    using version_set_unique [OF assms] by blast
  then show ?thesis
    by (auto simp: CreateRuleRollout_def Let_def bind_r_Inr_iff loadRuleRolloutBinding_def split: if_splits option.splits)
qed

lemma update_rollout_refused:
  "one_version g \<Longrightarrow> UpdateRuleRollout evidence g actor slug i state points revision \<noteq> Inr (g', r)"
  by (auto simp: UpdateRuleRollout_def Let_def bind_r_Inr_iff one_version_def)

lemma other_core:
  "db_next (gv_db g) \<le> db_next d \<Longrightarrow>
     gov_same g (g\<lparr>gv_db := d, gv_scopes := scopes, gv_issues := issues, gv_issue_events := events, gv_comparisons := comparisons\<rparr>)"
  by (simp add: gov_same_def)

lemma gov_step_inv:
  assumes "gov_step g g'" "gov_inv g"
  shows "gov_inv g'"
  using assms(1)
proof cases
  case create_set
  then show ?thesis using adds_draft_inv [OF assms(2)] CreateRuleSet_adds by blast
next
  case install
  then show ?thesis using adds_draft_inv [OF assms(2)] Install_adds assms(2) by metis
next
  case request
  then show ?thesis using request_inv [OF assms(2)] by blast
next
  case decide
  then show ?thesis using decide_inv [OF assms(2)] by blast
next
  case publish
  then show ?thesis using publish_inv [OF assms(2)] by blast
next
  case policy
  then show ?thesis using policy_inv [OF assms(2)] by blast
next
  case roll_out
  then show ?thesis using rollout_refused assms(2) unfolding gov_inv_def by blast
next
  case update_rollout
  then show ?thesis using update_rollout_refused assms(2) unfolding gov_inv_def by blast
next
  case request_exception
  then show ?thesis using gov_inv_core [OF assms(2)] exception_core(1) by (metis fst_conv)
next
  case expire_exceptions
  then show ?thesis using gov_inv_core [OF assms(2)] reconcile_core(1) by (metis fst_conv)
next
  case other
  then show ?thesis using gov_inv_core [OF assms(2)] other_core by blast
qed (auto intro: gov_inv_core [OF assms(2)] exception_core(2,3) binding_core resolve_core)

lemma gov_start_inv:
  "gv_versions g = [] \<Longrightarrow> gv_requests g = [] \<Longrightarrow> gv_approvals g = [] \<Longrightarrow> gv_policies g = [] \<Longrightarrow> gv_rollouts g = [] \<Longrightarrow> gov_inv g"
  by (simp add: gov_inv_parts requests_ok_def versions_ok_def workspaceApprovalPolicyTx_def default_policy_def)

lemma gov_reach_inv: "gov_reach g \<Longrightarrow> gov_inv g"
  by (induction rule: gov_reach.induct) (auto intro: gov_start_inv gov_step_inv)

end
