(* ===== verification/Rule_Properties.thy ===== *)
theory Rule_Properties
  imports Rule_Safety
begin

text \<open>
  The properties of the rule governance. They rest on \<open>gov_reach_inv\<close> and, for the composition with
  the compiler, on \<open>mandatory_kept\<close>, \<open>compiled_from\<close> and \<open>apply_rules\<close>.
\<close>

section \<open>Who approved a version\<close>

text \<open>An approved request for exactly this content, with votes of enough different people; the
  requester is among them only if the workspace has changed its approval policy.\<close>

definition approved_by_quorum :: "gov \<Rightarrow> RuleVersion \<Rightarrow> bool" where
  "approved_by_quorum g v \<longleftrightarrow> (\<exists>r \<in> set (gv_requests g). ra_version r = rv_id v \<and> ra_sha r = rv_sha v \<and> ra_state r = ''approved''
     \<and> 1 \<le> ra_required r
     \<and> (\<exists>voters. distinct voters \<and> ra_required r \<le> int (length voters)
          \<and> (\<forall>u \<in> set voters. \<exists>p \<in> set (gv_approvals g). rp_request p = ra_id r \<and> rp_approver p = u
                \<and> rp_decision p = ''approved'' \<and> rp_sha p = rv_sha v)
          \<and> (ra_requested_by r \<in> set voters \<longrightarrow> ap_revision (workspaceApprovalPolicyTx g (ra_tenant r)) > 1)))"

lemma distinct_keyed:
  assumes "distinct (map (\<lambda>p. (f p, h p)) xs)"
  shows "distinct (map h (filter (\<lambda>p. f p = k \<and> P p) xs))"
proof -
  have "distinct xs" "inj_on (\<lambda>p. (f p, h p)) (set xs)" using assms by (simp_all add: distinct_map)
  then show ?thesis by (auto simp: distinct_map inj_on_def)
qed

lemma approved_has_quorum:
  assumes "gov_inv g" "approved_by (gv_requests g) v"
  shows "approved_by_quorum g v"
proof -
  have I: "ids_ok g" "requests_ok (gv_approvals g) (gv_requests g)" "votes_ok g" using assms(1) by (simp_all add: gov_inv_def)
  obtain r where r: "r \<in> set (gv_requests g)" "ra_version r = rv_id v" "ra_sha r = rv_sha v" "ra_state r = ''approved''"
    using assms(2) by (auto simp: approved_by_def)
  let ?ps = "filter (\<lambda>p. rp_request p = ra_id r \<and> (rp_decision p = ''approved'' \<and> rp_sha p = ra_sha r)) (gv_approvals g)"
  let ?voters = "map rp_approver ?ps"
  have "1 \<le> ra_required r" "quorum (gv_approvals g) r" using I(2) r(1,4) by (auto simp: requests_ok_def)
  moreover have "distinct ?voters" using I(3) by (intro distinct_keyed) (simp add: votes_ok_def)
  moreover have "ap_revision (workspaceApprovalPolicyTx g (ra_tenant r)) > 1" if "ra_requested_by r \<in> set ?voters"
  proof -
    from that obtain p where p: "p \<in> set (gv_approvals g)" "rp_request p = ra_id r" "rp_approver p = ra_requested_by r" by auto
    then obtain x where x: "x \<in> set (gv_requests g)" "ra_id x = rp_request p"
      "rp_approver p = ra_requested_by x \<longrightarrow> ap_revision (workspaceApprovalPolicyTx g (ra_tenant x)) > 1"
      using I(3) unfolding votes_ok_def by blast
    then show ?thesis using request_unique [OF I(1) r(1) x(1)] p by simp
  qed
  ultimately show ?thesis using r unfolding approved_by_quorum_def quorum_def
    by (intro bexI [OF _ r(1)] conjI exI [of _ ?voters]) auto
qed

text \<open>C5. No rule without approval: in every state the system can reach, a rule version that is
  approved or published has an approved request for exactly its content digest. The request asks
  for at least one vote and has at least as many approving votes on that digest as it asks for, by
  different people; the requester is not one of them as long as nobody has changed the approval
  policy of the workspace.\<close>

theorem published_version_was_approved:
  assumes "gov_reach g" "v \<in> set (gv_versions g)" "rv_state v = ''approved'' \<or> rv_state v = ''published''"
  shows "approved_by_quorum g v"
proof -
  note inv = gov_reach_inv [OF assms(1)]
  then have "approved_by (gv_requests g) v" using assms(2,3) unfolding gov_inv_def versions_ok_def by blast
  then show ?thesis by (rule approved_has_quorum [OF inv])
qed

section \<open>Published content is final\<close>

lemma published_kept:
  assumes inv: "gov_inv g" and v: "v \<in> set (gv_versions g)" "rv_state v = ''published''"
    and w: "w \<in> set (gv_versions g)" "rv_state w \<noteq> ''published''"
    and up: "gv_versions g' = update_where (\<lambda>x. rv_id x = rv_id w) f (gv_versions g)"
  shows "v \<in> set (gv_versions g')"
proof -
  have "ids_ok g" using inv by (simp add: gov_inv_def)
  then have "rv_id v \<noteq> rv_id w" using version_unique [OF _ w(1) v(1)] v(2) w(2) by auto
  then show ?thesis using v(1) unfolding up by (force simp: update_where_def)
qed

lemma decided_keeps_published:
  assumes "decided e g g' r" "v \<in> set (gv_versions g)" "rv_state v = ''published''"
  shows "v \<in> set (gv_versions g')"
proof -
  have fixed: "v \<in> set (update_where P f (gv_versions g))" if "f v = v" for P f
    using assms(2) that unfolding update_where_def by (force simp: image_iff)
  have "v \<in> set (update_where (\<lambda>x. rv_id x = i) back_to_draft (gv_versions g))"
    "v \<in> set (update_where (\<lambda>x. rv_id x = i) (to_approved s) (gv_versions g))" for i s
    by (rule fixed, simp add: back_to_draft_def to_approved_def assms(3))+
  then show ?thesis using assms unfolding decided_def by auto
qed

lemma gov_step_published:
  assumes step: "gov_step g g'" and inv: "gov_inv g" and v: "v \<in> set (gv_versions g)" "rv_state v = ''published''"
  shows "v \<in> set (gv_versions g')"
proof -
  have core: "gov_same g g' \<Longrightarrow> ?thesis" using v(1) by (simp add: gov_same_def)
  have draft: "adds_draft g g' \<Longrightarrow> ?thesis" using v(1) by (auto simp: adds_draft_def)
  from step show ?thesis
  proof cases
    case create_set
    then show ?thesis using draft CreateRuleSet_adds by blast
  next
    case install
    then show ?thesis using draft Install_adds v(1) by metis
  next
    case request
    then show ?thesis by (rule Request_cases) (rule published_kept [OF inv v], auto)
  next
    case decide
    then show ?thesis by (rule Decide_cases) (rule decided_keeps_published [OF _ v])
  next
    case publish
    then show ?thesis by (rule Publish_cases) (rule published_kept [OF inv v], auto)
  next
    case policy
    then show ?thesis by (rule Policy_cases) (use v(1) in simp)
  next
    case roll_out
    then show ?thesis using rollout_refused inv unfolding gov_inv_def by blast
  next
    case update_rollout
    then show ?thesis using update_rollout_refused inv unfolding gov_inv_def by blast
  next
    case request_exception
    then show ?thesis using core exception_core(1) by (metis fst_conv)
  next
    case expire_exceptions
    then show ?thesis using core reconcile_core(1) by (metis fst_conv)
  next
    case other
    then show ?thesis using core other_core by blast
  qed (auto intro: core exception_core(2,3) binding_core resolve_core)
qed

text \<open>C22. Published content is final: once a version is published, no later sequence of operations
  changes its rules, its digest, its state or any other column, and none removes it. A rule can
  change only as a new version, and a review can be traced to exactly the content that was
  approved.\<close>

theorem published_content_is_final:
  assumes "gov_reach g" "gov_step\<^sup>*\<^sup>* g g'" "v \<in> set (gv_versions g)" "rv_state v = ''published''"
  shows "v \<in> set (gv_versions g')"
proof -
  have "gov_inv g' \<and> v \<in> set (gv_versions g')"
    using assms(2) gov_reach_inv [OF assms(1)] assms(3)
  proof (induction rule: rtranclp_induct)
    case (step g1 g2)
    then show ?case using gov_step_inv gov_step_published assms(4) by blast
  qed simp
  then show ?thesis by blast
qed

section \<open>Rollouts\<close>

text \<open>C40. A rollout can never start. A rollout needs an active and a shadow binding of two different
  versions of one rule set; in every reachable state each rule set has a single version, because
  both operations that insert a version insert version 1 of a new set. \<open>CreateRuleRollout\<close> therefore
  fails for every actor and every input.\<close>

theorem rollout_never_created:
  assumes "gov_reach g"
  shows "\<exists>err. CreateRuleRollout g actor slug input = Inl err"
proof -
  have "one_version g" using gov_reach_inv [OF assms] by (simp add: gov_inv_def)
  then show ?thesis using rollout_refused by (metis obj_sumE surj_pair)
qed

section \<open>Exceptions have two people behind them\<close>

definition exceptions_ok :: "gov \<Rightarrow> bool" where
  "exceptions_ok g \<longleftrightarrow> distinct (map rx_id (gv_exceptions g)) \<and> (\<forall>x \<in> set (gv_exceptions g). rx_id x < db_next (gv_db g))
     \<and> (\<forall>x \<in> set (gv_exceptions g). rx_state x = ''approved'' \<longrightarrow> rx_approved_by x \<noteq> rx_requested_by x)"

lemma exceptions_ok_frame:
  "exceptions_ok g \<Longrightarrow> gv_exceptions g' = gv_exceptions g \<Longrightarrow> db_next (gv_db g) \<le> db_next (gv_db g') \<Longrightarrow> exceptions_ok g'"
  by (auto simp: exceptions_ok_def)

lemma drafts_exceptions:
  "CreateRuleSet e g actor slug name description parsed = Inr (g', s, v) \<Longrightarrow> gv_exceptions g' = gv_exceptions g"
  "InstallRuleCatalogEntry e entries g actor slug catalog version sha = Inr (g', s, v, replayed) \<Longrightarrow> gv_exceptions g' = gv_exceptions g"
  by (auto simp: CreateRuleSet_def InstallRuleCatalogEntry_def insert_draft_def insert_rule_set_def Let_def bind_r_Inr_iff gov_fresh_eq
      split: option.splits if_splits)

lemma review_exceptions:
  "RequestRuleApproval e g actor slug setID version required = Inr (g', r) \<Longrightarrow> gv_exceptions g' = gv_exceptions g"
  "PublishRuleVersion e g actor slug setID version = Inr (g', w) \<Longrightarrow> gv_exceptions g' = gv_exceptions g"
  "SaveWorkspaceApprovalPolicy g actor slug agent rule revision = Inr (g', p) \<Longrightarrow> gv_exceptions g' = gv_exceptions g"
  by (auto simp: RequestRuleApproval_def PublishRuleVersion_def SaveWorkspaceApprovalPolicy_def
      set_version_def Let_def bind_r_Inr_iff gov_fresh_eq split: option.splits if_splits sum.splits)

lemma binding_exceptions:
  "CreateRuleBinding e g actor slug input = Inr (g', b) \<Longrightarrow> gv_exceptions g' = gv_exceptions g"
  "UpdateRuleBinding g actor slug i state = Inr (g', b) \<Longrightarrow> gv_exceptions g' = gv_exceptions g"
  "resolveRuleSnapshotWithCanary text hash e g tenant sc branch selected number = Inr (g', n, sel) \<Longrightarrow> gv_exceptions g' = gv_exceptions g"
  by (auto simp: CreateRuleBinding_def UpdateRuleBinding_def resolveRuleSnapshotWithCanary_def store_snapshot_def store_evidence_def
      bind_r_Inr_iff gov_fresh_eq Let_def set_binding_def split: option.splits if_splits)

lemma create_exception_ok:
  assumes "exceptions_ok g"
  shows "exceptions_ok (fst (CreateRuleException e g actor slug input))"
proof -
  let ?h = "\<lambda>t. fst (reconcileExpiredIssueExceptionsCount e g t)"
  have h: "exceptions_ok (?h t)" for t
    using exceptions_ok_frame [OF assms reconcile_core(2)] reconcile_core(1) by (simp add: gov_same_def)
  have "exceptions_ok (fst (insert_exception k t actor i))" if "exceptions_ok k" for k t i
    using that by (fastforce simp: insert_exception_def gov_fresh_eq Let_def exceptions_ok_def)
  then show ?thesis using h assms
    by (simp add: CreateRuleException_def Let_def case_prod_beta split: option.splits sum.splits)
qed

lemma exceptions_ok_update:
  assumes "exceptions_ok g" "gv_exceptions g' = update_where (\<lambda>r. rx_id r = i) f (gv_exceptions g)" "db_next (gv_db g) \<le> db_next (gv_db g')"
    and "\<And>x. rx_id (f x) = rx_id x"
    and "\<And>x. x \<in> set (gv_exceptions g) \<Longrightarrow> rx_id x = i \<Longrightarrow> rx_state (f x) = ''approved'' \<Longrightarrow> rx_approved_by (f x) \<noteq> rx_requested_by (f x)"
  shows "exceptions_ok g'"
proof -
  have "map rx_id (gv_exceptions g') = map rx_id (gv_exceptions g)" using assms(4) unfolding assms(2) by (rule map_update_where_key)
  moreover have "\<forall>x \<in> set (gv_exceptions g'). rx_state x = ''approved'' \<longrightarrow> rx_approved_by x \<noteq> rx_requested_by x"
    using assms(1,5) unfolding assms(2) by (auto simp: update_where_def exceptions_ok_def)
  moreover have "\<forall>i \<in> set (map rx_id (gv_exceptions g)). i < db_next (gv_db g')" using assms(1,3) by (auto simp: exceptions_ok_def)
  ultimately show ?thesis using assms(1) unfolding exceptions_ok_def by (metis image_eqI set_map)
qed

lemma decide_exception_ok:
  assumes ok: "exceptions_ok g" and step: "DecideRuleException e g actor slug i decision comment = Inr g'"
  shows "exceptions_ok g'"
  using step
proof (cases rule: DecideRuleException_cases)
  case (1 tenant role r d c)
  have r: "r \<in> set (gv_exceptions g)" "rx_id r = i" using find_SomeD [OF 1(3)] by auto
  have "x = r" if "x \<in> set (gv_exceptions g)" "rx_id x = i" for x
    using ok r that by (auto simp: exceptions_ok_def distinct_map dest: inj_onD)
  then show ?thesis using 1(5,7)
    by (intro exceptions_ok_update [OF ok 1(8)]) (auto simp: gov_same_def)
qed

lemma revoke_exception_ok:
  assumes ok: "exceptions_ok g" and step: "RevokeRuleException e g actor slug i = Inr g'"
  shows "exceptions_ok g'"
  using step
proof (cases rule: RevokeRuleException_cases)
  case 1
  then show ?thesis by (intro exceptions_ok_update [OF ok 1(2)]) (auto simp: gov_same_def)
qed

lemma gov_step_exceptions:
  assumes step: "gov_step g g'" and inv: "gov_inv g" and ok: "exceptions_ok g"
  shows "exceptions_ok g'"
proof -
  note frame = exceptions_ok_frame [OF ok]
  have core: "gov_same g g' \<Longrightarrow> gv_exceptions g' = gv_exceptions g \<Longrightarrow> ?thesis" using frame by (simp add: gov_same_def)
  have draft: "adds_draft g g' \<Longrightarrow> gv_exceptions g' = gv_exceptions g \<Longrightarrow> ?thesis" using frame by (fastforce simp: adds_draft_def)
  from step show ?thesis
  proof cases
    case create_set
    then show ?thesis using draft CreateRuleSet_adds drafts_exceptions(1) by blast
  next
    case install
    then show ?thesis using draft Install_adds drafts_exceptions(2) ok by metis
  next
    case request
    then show ?thesis by (rule Request_cases) (use frame review_exceptions(1) request in auto)
  next
    case decide
    then show ?thesis by (rule Decide_cases) (use frame in simp)
  next
    case publish
    then show ?thesis by (rule Publish_cases) (use frame review_exceptions(2) publish in auto)
  next
    case policy
    then show ?thesis by (rule Policy_cases) (use frame review_exceptions(3) policy in auto)
  next
    case roll_out
    then show ?thesis using rollout_refused inv unfolding gov_inv_def by blast
  next
    case update_rollout
    then show ?thesis using update_rollout_refused inv unfolding gov_inv_def by blast
  next
    case request_exception
    then show ?thesis using create_exception_ok [OF ok] by (metis fst_conv)
  next
    case expire_exceptions
    then show ?thesis using core reconcile_core by (metis fst_conv)
  next
    case other
    then show ?thesis using frame by simp
  qed (auto intro: core binding_core resolve_core binding_exceptions decide_exception_ok [OF ok] revoke_exception_ok [OF ok])
qed

lemma gov_reach_exceptions: "gov_reach g \<Longrightarrow> exceptions_ok g"
proof (induction rule: gov_reach.induct)
  case (step g g')
  then show ?case using gov_step_exceptions gov_reach_inv by blast
qed (simp add: exceptions_ok_def)

section \<open>The rules of a review\<close>

text \<open>Without canaries a row either extends the patterns of a source or adds one.\<close>

definition add_globs :: "RuleBinding \<Rightarrow> uuid \<Rightarrow> (uuid \<times> Source) list \<Rightarrow> (uuid \<times> Source) list" where
  "add_globs b v sources = map (\<lambda>(i, s). (i, if i = v
     then s\<lparr>so_include := so_include s @ glob_list (rb_include b), so_exclude := so_exclude s @ glob_list (rb_exclude b)\<rparr> else s)) sources"

definition new_source :: "(uuid \<Rightarrow> string) \<Rightarrow> RuleBinding \<Rightarrow> RuleVersion \<Rightarrow> Source" where
  "new_source text b v = \<lparr>so_version = text (rv_id v), so_precedence = rb_precedence b, so_rules = rv_rules v,
     so_include = glob_list (rb_include b), so_exclude = glob_list (rb_exclude b)\<rparr>"

lemma collect_row:
  assumes "collect_sources text [] branch ((b, v) # rows) sources sel = Inr (out, sel')"
  obtains "\<not> matchesRuleTargetBranch (rb_branch b) branch" "collect_sources text [] branch rows sources sel = Inr (out, sel')"
  | "rv_id v \<in> fst ` set sources" "collect_sources text [] branch rows (add_globs b (rv_id v) sources) sel = Inr (out, sel')"
  | "collect_sources text [] branch rows (sources @ [(rv_id v, new_source text b v)]) sel = Inr (out, sel')"
proof (cases "map_of sources (rv_id v)")
  case None
  then show thesis using assms that
    by (auto simp: served_version_def bind_r_simps new_source_def split: if_splits)
next
  case (Some s)
  then have "rv_id v \<in> fst ` set sources" by (force dest: map_of_SomeD)
  then show thesis using assms that Some
    by (auto simp: served_version_def bind_r_simps add_globs_def split: if_splits)
qed

lemma add_globs_keys: "fst ` set (add_globs b v sources) = fst ` set sources"
  by (force simp: add_globs_def)

lemma collect_from:
  assumes "collect_sources text [] branch rows sources sel = Inr (out, sel')"
    and "\<forall>(i, s) \<in> set sources. P i (so_version s) (so_rules s)" "\<forall>(b, v) \<in> set rows. P (rv_id v) (text (rv_id v)) (rv_rules v)"
  shows "\<forall>(i, s) \<in> set out. P i (so_version s) (so_rules s)"
  using assms
proof (induction rows arbitrary: sources)
  case (Cons row rows)
  obtain b v where row: "row = (b, v)" by fastforce
  have globs: "\<forall>(i, s) \<in> set (add_globs b u sources). P i (so_version s) (so_rules s)" for u
    using Cons.prems(2) by (auto simp: add_globs_def)
  have new: "\<forall>(i, s) \<in> set (sources @ [(rv_id v, new_source text b v)]). P i (so_version s) (so_rules s)"
    using Cons.prems(2,3) row by (auto simp: new_source_def)
  have rest: "\<forall>(b, v) \<in> set rows. P (rv_id v) (text (rv_id v)) (rv_rules v)" using Cons.prems(3) by simp
  from Cons.prems(1) [unfolded row] show ?case
    by (rule collect_row) (erule Cons.IH, rule Cons.prems(2) globs new, rule rest)+
qed simp

lemma collect_covers:
  assumes "collect_sources text [] branch rows sources sel = Inr (out, sel')"
  shows "fst ` set sources \<subseteq> fst ` set out
    \<and> (\<forall>(b, v) \<in> set rows. matchesRuleTargetBranch (rb_branch b) branch \<longrightarrow> rv_id v \<in> fst ` set out)"
  using assms
proof (induction rows arbitrary: sources)
  case (Cons row rows)
  obtain b v where row: "row = (b, v)" by fastforce
  from Cons.prems [unfolded row] show ?case
  proof (rule collect_row)
    assume a: "rv_id v \<in> fst ` set sources" "collect_sources text [] branch rows (add_globs b (rv_id v) sources) sel = Inr (out, sel')"
    show ?thesis using Cons.IH [OF a(2)] a(1) unfolding add_globs_keys row by auto
  next
    assume a: "collect_sources text [] branch rows (sources @ [(rv_id v, new_source text b v)]) sel = Inr (out, sel')"
    show ?thesis using Cons.IH [OF a] unfolding row by auto
  next
    assume a: "\<not> matchesRuleTargetBranch (rb_branch b) branch" "collect_sources text [] branch rows sources sel = Inr (out, sel')"
    show ?thesis using Cons.IH [OF a(2)] a(1) unfolding row by auto
  qed
qed simp

lemma active_rowsD:
  "(b, v) \<in> set (active_rows e g tenant sc selected) \<Longrightarrow>
     b \<in> set (gv_bindings g) \<and> v \<in> set (gv_versions g) \<and> rv_state v = ''published'' \<and> tenant_set g tenant (rv_set v)"
  by (auto simp: active_rows_def active_binding_def)

lemma no_canaries:
  assumes "gov_inv g" "loadActiveCanaryRuleBindings hash e g tenant sc selected number = Inr canaries"
  shows "canaries = []"
  using assms by (auto simp: loadActiveCanaryRuleBindings_def gov_inv_def one_version_def split: if_splits)

text \<open>What a compilation for a review rests on: the rules before (\<open>c\<close>) and after (\<open>c'\<close>) the
  exceptions \<open>xs\<close>, and the sources with the published versions they come from.\<close>

definition reviewed ::
  "(uuid \<Rightarrow> string) \<Rightarrow> gov_env \<Rightarrow> gov \<Rightarrow> uuid \<Rightarrow> scope \<Rightarrow> string \<Rightarrow> uuid option \<Rightarrow> (uuid \<times> Source) list \<Rightarrow> RuleException list
   \<Rightarrow> Compiled \<Rightarrow> Compiled \<Rightarrow> bool" where
  "reviewed text e g tenant sc branch selected sources xs c c' \<longleftrightarrow>
     Compile (ge_num e) (ge_sha e) (map snd sources) = Inr c
   \<and> ApplyExceptions (ge_sha e) c (map (applied_exception text) xs) = Inr c'
   \<and> (\<forall>x \<in> set xs. x \<in> set (gv_exceptions g) \<and> rx_tenant x = tenant \<and> rx_state x = ''approved'' \<and> rx_expires x > ge_now e)
   \<and> (\<forall>(i, s) \<in> set sources. so_version s = text i \<and> (\<exists>v \<in> set (gv_versions g). rv_id v = i \<and> rv_state v = ''published''
        \<and> tenant_set g tenant (rv_set v) \<and> so_rules s = rv_rules v))
   \<and> (\<forall>(b, v) \<in> set (active_rows e g tenant sc selected). matchesRuleTargetBranch (rb_branch b) branch \<longrightarrow> rv_id v \<in> fst ` set sources)"

lemma compile_for_review_reviewed:
  assumes inv: "gov_inv g" and c: "compile_for_review text hash e g tenant sc branch selected number = Inr (c', sources, records, sel)"
  shows "\<exists>xs c. reviewed text e g tenant sc branch selected sources xs c c'"
proof -
  let ?rows = "active_rows e g tenant sc selected"
  from c obtain canaries sel0 where l: "loadActiveCanaryRuleBindings hash e g tenant sc selected number = Inr canaries"
    and s0: "collect_sources text canaries branch ?rows [] [] = Inr (sources, sel0)"
    by (auto simp: compile_for_review_def bind_r_Inr_iff Let_def split: if_splits sum.splits)
  have s: "collect_sources text [] branch ?rows [] [] = Inr (sources, sel0)" using no_canaries [OF inv l] s0 by simp
  note step = c [unfolded compile_for_review_def l no_canaries [OF inv l] bind_r_simps s prod.case]
  let ?xs = "resolveApplicableRuleExceptions e g tenant sc branch (map fst sources)"
  from step obtain c where k: "Compile (ge_num e) (ge_sha e) (map snd sources) = Inr c"
    and a: "ApplyExceptions (ge_sha e) c (map (applied_exception text) ?xs) = Inr c'"
    by (auto simp: Let_def split: if_splits sum.splits)
  let ?P = "\<lambda>i ver rules. ver = text i \<and> (\<exists>v \<in> set (gv_versions g). rv_id v = i \<and> rv_state v = ''published''
        \<and> tenant_set g tenant (rv_set v) \<and> rules = rv_rules v)"
  have rows: "\<forall>(b, v) \<in> set ?rows. ?P (rv_id v) (text (rv_id v)) (rv_rules v)" using active_rowsD by blast
  have "\<forall>(i, s) \<in> set sources. ?P i (so_version s) (so_rules s)" by (rule collect_from [OF s, where P = ?P]) (use rows in simp_all)
  moreover have "\<forall>x \<in> set ?xs. x \<in> set (gv_exceptions g) \<and> rx_tenant x = tenant \<and> rx_state x = ''approved'' \<and> rx_expires x > ge_now e"
    by (auto simp: resolveApplicableRuleExceptions_def applicable_exception_def split: if_splits)
  ultimately show ?thesis using k a collect_covers [OF s] unfolding reviewed_def by blast
qed

text \<open>A mandatory rule is upheld by rules at least as strict, or lifted by an exception that a second
  person approved.\<close>

definition upheld :: "gov \<Rightarrow> gotime \<Rightarrow> uuid \<Rightarrow> Rule \<Rightarrow> EffectiveRule list \<Rightarrow> bool" where
  "upheld g now tenant r rules \<longleftrightarrow>
     (\<exists>x \<in> set rules. er_key x = TrimSpace (rl_key r) \<and> er_enforcement x = Mandatory
        \<and> ruleSeverityRank (rl_severity r) \<le> ruleSeverityRank (er_severity x))
   \<or> (\<exists>x \<in> set (gv_exceptions g). rx_tenant x = tenant \<and> rx_state x = ''approved'' \<and> rx_key x = TrimSpace (rl_key r)
        \<and> rx_expires x > now \<and> rx_approved_by x \<noteq> rx_requested_by x)"

lemma reviewed_rule_approved:
  assumes inv: "gov_inv g" and c: "reviewed text e g tenant sc branch selected sources xs c c'" and x: "x \<in> set (sp_rules (co_snapshot c'))"
  shows "\<exists>v \<in> set (gv_versions g). \<exists>r \<in> set (rv_rules v). rv_state v = ''published'' \<and> tenant_set g tenant (rv_set v)
      \<and> approved_by_quorum g v \<and> er_version x = TrimSpace (text (rv_id v)) \<and> er_key x = TrimSpace (rl_key r) \<and> er_enforcement x = rl_enforcement r"
proof -
  have k: "Compile (ge_num e) (ge_sha e) (map snd sources) = Inr c" and a: "ApplyExceptions (ge_sha e) c (map (applied_exception text) xs) = Inr c'"
    using c unfolding reviewed_def by blast+
  have "x \<in> set (sp_rules (co_snapshot c))" using x unfolding apply_rules [OF a] by simp
  from compiled_from [OF k this] obtain j s r where s: "(j, s) \<in> set sources" "r \<in> set (so_rules s)"
    "x = effective_rule (ge_num e) (TrimSpace (so_version s)) (normalized_rule r)" by auto
  from c s(1) obtain v where v: "so_version s = text (rv_id v)" "v \<in> set (gv_versions g)" "rv_state v = ''published''"
    "tenant_set g tenant (rv_set v)" "so_rules s = rv_rules v" unfolding reviewed_def by blast
  have "approved_by (gv_requests g) v" using inv v(2,3) unfolding gov_inv_def versions_ok_def by blast
  from approved_has_quorum [OF inv this] show ?thesis
    using s(2,3) v by (intro bexI [of _ v] bexI [of _ r]) (simp_all add: effective_rule_def normalized_rule_def)
qed

lemma reviewed_mandatory:
  assumes inv: "gov_inv g" "exceptions_ok g" and c: "reviewed text e g tenant sc branch selected sources xs c c'"
    and b: "(b, v) \<in> set (active_rows e g tenant sc selected)" "matchesRuleTargetBranch (rb_branch b) branch"
    and r: "r \<in> set (rv_rules v)" "\<not> rl_disabled r" "rl_enforcement r = Mandatory"
  shows "upheld g (ge_now e) tenant r (sp_rules (co_snapshot c'))"
proof -
  have k: "Compile (ge_num e) (ge_sha e) (map snd sources) = Inr c" and a: "ApplyExceptions (ge_sha e) c (map (applied_exception text) xs) = Inr c'"
    and xs: "\<forall>x \<in> set xs. x \<in> set (gv_exceptions g) \<and> rx_tenant x = tenant \<and> rx_state x = ''approved'' \<and> rx_expires x > ge_now e"
    using c unfolding reviewed_def by blast+
  have "rv_id v \<in> fst ` set sources" using c b unfolding reviewed_def by blast
  then obtain s where s: "(rv_id v, s) \<in> set sources" by force
  then obtain w where w: "w \<in> set (gv_versions g)" "rv_id w = rv_id v" "so_rules s = rv_rules w" using c unfolding reviewed_def by blast
  have "ids_ok g" "v \<in> set (gv_versions g)" using inv(1) active_rowsD [OF b(1)] by (simp_all add: gov_inv_def)
  from version_unique [OF this w(1,2)] have "so_rules s = rv_rules v" using w(3) by simp
  then have "s \<in> set (map snd sources)" "r \<in> set (so_rules s)" using s r(1) by force+
  from mandatory_kept [OF k this r(2,3)] obtain x where x: "x \<in> set (sp_rules (co_snapshot c))" "er_key x = TrimSpace (rl_key r)"
    "er_enforcement x = Mandatory" "ruleSeverityRank (rl_severity r) \<le> ruleSeverityRank (er_severity x)" by blast
  show ?thesis
  proof (cases "x \<in> set (sp_rules (co_snapshot c'))")
    case False
    then obtain y where "y \<in> set xs" "rx_key y = TrimSpace (rl_key r)"
      using x(1,2) unfolding apply_rules [OF a] by (auto simp: covers_def applied_exception_def)
    then show ?thesis using xs inv(2) unfolding exceptions_ok_def upheld_def by blast
  qed (use x upheld_def in blast)
qed

lemma store_snapshot_row:
  assumes "store_snapshot g tenant c = (g', i)"
  shows "\<exists>n \<in> set (gv_snapshots g'). rn_id n = i \<and> rn_tenant n = tenant \<and> rn_sha n = co_sha c"
  using assms by (auto simp: store_snapshot_def gov_fresh_eq Let_def split: option.splits dest!: find_SomeD)

text \<open>C3. The rules of a review are governed. Whenever a reachable state gives a review its rule
  snapshot, the stored row carries the digest of a snapshot in which every rule is a rule of a
  published version of the tenant that a quorum approved. Conversely, take any active binding in
  the scope of the repository whose branch pattern matches, and any enabled mandatory rule of its
  version: the snapshot has a mandatory rule of that key that is at least as severe, or an
  exception for the key is in force which has not expired and was approved by somebody other than
  the person who asked for it.\<close>

theorem review_rules_governed:
  assumes reach: "gov_reach g"
    and res: "resolveRuleSnapshotWithCanary text hash e g tenant sc branch selected number = Inr (g', i, sel)"
  shows "\<exists>n \<in> set (gv_snapshots g'). \<exists>s. rn_id n = i \<and> rn_tenant n = tenant \<and> rn_sha n = ge_sha e (snapshot_json s)
    \<and> (\<forall>x \<in> set (sp_rules s). \<exists>v \<in> set (gv_versions g). \<exists>r \<in> set (rv_rules v). rv_state v = ''published''
         \<and> tenant_set g tenant (rv_set v) \<and> approved_by_quorum g v \<and> er_version x = TrimSpace (text (rv_id v))
         \<and> er_key x = TrimSpace (rl_key r) \<and> er_enforcement x = rl_enforcement r)
    \<and> (\<forall>(b, v) \<in> set (active_rows e g tenant sc selected). matchesRuleTargetBranch (rb_branch b) branch \<longrightarrow>
         (\<forall>r \<in> set (rv_rules v). \<not> rl_disabled r \<and> rl_enforcement r = Mandatory \<longrightarrow> upheld g (ge_now e) tenant r (sp_rules s)))"
proof -
  note inv = gov_reach_inv [OF reach]
  from res obtain c' sources records where cr: "compile_for_review text hash e g tenant sc branch selected number = Inr (c', sources, records, sel)"
    and st: "g' = store_evidence (fst (store_snapshot g tenant c')) i sources records" "snd (store_snapshot g tenant c') = i"
    by (auto simp: resolveRuleSnapshotWithCanary_def bind_r_Inr_iff case_prod_beta)
  obtain xs c where c: "reviewed text e g tenant sc branch selected sources xs c c'"
    using compile_for_review_reviewed [OF inv cr] by blast
  let ?s = "co_snapshot c'"
  have "c' = compiled_of (ge_sha e) ?s" using c apply_compiled Compile_compiled unfolding reviewed_def by metis
  then have "co_sha c' = ge_sha e (snapshot_json ?s)" by (metis compiled_of_def Compiled.select_convs(3))
  moreover obtain n where n: "n \<in> set (gv_snapshots g')" "rn_id n = i" "rn_tenant n = tenant" "rn_sha n = co_sha c'"
    using store_snapshot_row [of g tenant c' "fst (store_snapshot g tenant c')" i] st
    by (auto simp: store_evidence_def prod_eq_iff)
  ultimately show ?thesis
    using reviewed_rule_approved [OF inv c] reviewed_mandatory [OF inv gov_reach_exceptions [OF reach] c]
    by (intro bexI [OF _ n(1)] exI [of _ ?s] conjI ballI) (auto split: prod.splits)
qed

section \<open>A rule from draft to review\<close>

definition sample_members :: "Membership list" where
  "sample_members = [\<lparr>mem_tenant = 1, mem_slug = ''acme'', mem_subject = ''ann'', mem_role = ''owner'', mem_active = True\<rparr>,
     \<lparr>mem_tenant = 1, mem_slug = ''acme'', mem_subject = ''bob'', mem_role = ''rule_admin'', mem_active = True\<rparr>]"

definition sample_gdb :: db where
  "sample_gdb = \<lparr>db_next = 2, db_requests = [], db_runs = [], db_jobs = [], db_events = [], db_stages = [], db_outbox = [],
     db_reservations = [], db_ledger = [], db_interventions = [], db_audits = [], db_deliveries = [], db_retries = [], db_configs = [],
     db_selections = [], db_members = sample_members, db_installations = [], db_limits = [], db_checkpoints = []\<rparr>"

definition sample_gov :: gov where
  "sample_gov = \<lparr>gv_db = sample_gdb, gv_sets = [], gv_versions = [], gv_requests = [], gv_approvals = [], gv_bindings = [],
     gv_exceptions = [], gv_rollouts = [], gv_comparisons = [], gv_policies = [], gv_scopes = [], gv_issues = [], gv_issue_events = [],
     gv_snapshots = [], gv_snapshot_sources = [], gv_snapshot_exceptions = []\<rparr>"

definition sample_genv :: gov_env where
  "sample_genv = \<lparr>ge_now = 100, ge_num = Some, ge_sha = (\<lambda>_. ''d''), ge_jsonb = Some, ge_url = (\<lambda>_. None)\<rparr>"

definition sample_drafted :: "gov_error + (gov \<times> RuleSet \<times> RuleVersion)" where
  "sample_drafted = CreateRuleSet sample_genv sample_gov ''ann'' ''acme'' ''Base'' '''' (Some [demo_rule ''sql'' ''mandatory'' ''high''])"

definition sample_requested :: "gov_error + (gov \<times> RuleApprovalRequest)" where
  "sample_requested = RequestRuleApproval sample_genv (fst (projr sample_drafted)) ''ann'' ''acme'' 2 1 1"

definition sample_decided :: "gov_error + (gov \<times> RuleApprovalRequest)" where
  "sample_decided = DecideRuleApproval sample_genv (fst (projr sample_requested)) ''bob'' ''acme'' 4 ''approved'' ''''"

definition sample_published :: "gov_error + (gov \<times> RuleVersion)" where
  "sample_published = PublishRuleVersion sample_genv (fst (projr sample_decided)) ''ann'' ''acme'' 2 1"

definition sample_binding :: RuleBindingInput where
  "sample_binding = \<lparr>bi_version = 3, bi_kind = ''tenant'', bi_ref = '''', bi_provider = '''', bi_api = '''', bi_precedence = 0,
     bi_branch = '''', bi_include = '''', bi_exclude = '''', bi_state = ''active''\<rparr>"

definition sample_bound :: "gov_error + (gov \<times> RuleBinding)" where
  "sample_bound = CreateRuleBinding sample_genv (fst (projr sample_published)) ''ann'' ''acme'' sample_binding"

lemma sample_ok: "is_ok sample_drafted" "is_ok sample_requested" "is_ok sample_decided" "is_ok sample_published" "is_ok sample_bound"
  by code_simp+

lemma ok_pair: "is_ok x \<Longrightarrow> \<exists>y. x = Inr (fst (projr x), y)"
  by (cases x) auto

lemma sample_version: "map (\<lambda>v. (rv_id v, rv_state v, rv_rules v)) (gv_versions (fst (projr sample_published)))
   = [(3, ''published'', [demo_rule ''sql'' ''mandatory'' ''high''])]"
  by code_simp

definition sample_state :: gov where
  "sample_state = fst (projr sample_published)"

definition sample_in_use :: gov where
  "sample_in_use = fst (projr sample_bound)"

lemma sample_reach: "gov_reach sample_state"
proof -
  have "gov_reach sample_gov" by (rule gov_reach.start) (simp_all add: sample_gov_def)
  moreover have "gov_step sample_gov (fst (projr sample_drafted))"
    using ok_pair [OF sample_ok(1)] unfolding sample_drafted_def by (metis gov_step.create_set surj_pair)
  moreover have "gov_step (fst (projr sample_drafted)) (fst (projr sample_requested))"
    using ok_pair [OF sample_ok(2)] unfolding sample_requested_def by (metis gov_step.request)
  moreover have "gov_step (fst (projr sample_requested)) (fst (projr sample_decided))"
    using ok_pair [OF sample_ok(3)] unfolding sample_decided_def by (metis gov_step.decide)
  moreover have "gov_step (fst (projr sample_decided)) (fst (projr sample_published))"
    using ok_pair [OF sample_ok(4)] unfolding sample_published_def by (metis gov_step.publish)
  ultimately show ?thesis unfolding sample_state_def by (meson gov_reach.step)
qed

lemma sample_bind: "gov_step sample_state sample_in_use"
  using ok_pair [OF sample_ok(5)] unfolding sample_bound_def sample_state_def sample_in_use_def by (metis gov_step.bind)

lemma sample_reach_in_use: "gov_reach sample_in_use"
  using gov_reach.step [OF sample_reach sample_bind] .

lemma sample_published_version:
  obtains v where "v \<in> set (gv_versions sample_state)" "rv_state v = ''published''" "rv_rules v = [demo_rule ''sql'' ''mandatory'' ''high'']"
proof -
  have "(3, ''published'', [demo_rule ''sql'' ''mandatory'' ''high'']) \<in> set (map (\<lambda>v. (rv_id v, rv_state v, rv_rules v)) (gv_versions sample_state))"
    unfolding sample_state_def sample_version by simp
  then show thesis using that by auto
qed

theorem published_version_was_approved_witness:
  "\<exists>v \<in> set (gv_versions sample_state). rv_state v = ''published'' \<and> approved_by_quorum sample_state v"
  using sample_published_version published_version_was_approved [OF sample_reach] by metis

theorem published_content_is_final_witness:
  "\<exists>v \<in> set (gv_versions sample_in_use). rv_rules v = [demo_rule ''sql'' ''mandatory'' ''high'']"
proof -
  have "gov_step\<^sup>*\<^sup>* sample_state sample_in_use" using sample_bind by (rule r_into_rtranclp)
  from published_content_is_final [OF sample_reach this] show ?thesis using sample_published_version by metis
qed

theorem rollout_never_created_witness:
  "\<exists>err. CreateRuleRollout sample_in_use ''ann'' ''acme'' \<lparr>li_baseline = 5, li_candidate = 6, li_mode = ''shadow'', li_points = 0,
     li_failed_runs = 0, li_window = 0\<rparr> = Inl err"
  by (rule rollout_never_created [OF sample_reach_in_use])

definition sample_scope :: scope where
  "sample_scope = \<lparr>sc_ref = ''acme/app'', sc_provider = ''github'', sc_api = ''https://api.github.com''\<rparr>"

definition sample_resolved :: "gov_error + (gov \<times> uuid \<times> ruleRolloutRunSelection list)" where
  "sample_resolved = resolveRuleSnapshotWithCanary (\<lambda>_. ''v'') (\<lambda>_. 0) sample_genv sample_in_use 1 sample_scope ''main'' None 7"

lemma sample_resolves: "is_ok sample_resolved"
  by code_simp

lemma sample_rows:
  "map (\<lambda>(b, v). (matchesRuleTargetBranch (rb_branch b) ''main'', rv_rules v)) (active_rows sample_genv sample_in_use 1 sample_scope None)
   = [(True, [demo_rule ''sql'' ''mandatory'' ''high''])]"
  by code_simp

theorem review_rules_governed_witness:
  "\<exists>n \<in> set (gv_snapshots (fst (projr sample_resolved))). \<exists>s :: Snapshot. rn_tenant n = 1 \<and> rn_sha n = ''d''
     \<and> upheld sample_in_use 100 1 (demo_rule ''sql'' ''mandatory'' ''high'') (sp_rules s)"
proof -
  let ?r = "demo_rule ''sql'' ''mandatory'' ''high''" and ?rows = "active_rows sample_genv sample_in_use 1 sample_scope None"
  obtain i sel where res: "resolveRuleSnapshotWithCanary (\<lambda>_. ''v'') (\<lambda>_. 0) sample_genv sample_in_use 1 sample_scope ''main'' None 7
      = Inr (fst (projr sample_resolved), i, sel)"
    using ok_pair [OF sample_resolves] unfolding sample_resolved_def by (metis surj_pair)
  have "(True, [?r]) \<in> set (map (\<lambda>(b, v). (matchesRuleTargetBranch (rb_branch b) ''main'', rv_rules v)) ?rows)"
    unfolding sample_rows by simp
  then obtain b v where b: "(b, v) \<in> set ?rows" "matchesRuleTargetBranch (rb_branch b) ''main''" "rv_rules v = [?r]" by auto
  have r: "\<not> rl_disabled ?r \<and> rl_enforcement ?r = Mandatory" by (simp add: demo_rule_def Mandatory_def)
  have e: "ge_sha sample_genv j = ''d''" "ge_now sample_genv = 100" for j by (simp_all add: sample_genv_def)
  obtain n s where n: "n \<in> set (gv_snapshots (fst (projr sample_resolved)))" "rn_tenant n = 1" "rn_sha n = ge_sha sample_genv (snapshot_json s)"
    and u: "\<forall>(b, v) \<in> set ?rows. matchesRuleTargetBranch (rb_branch b) ''main'' \<longrightarrow>
      (\<forall>r \<in> set (rv_rules v). \<not> rl_disabled r \<and> rl_enforcement r = Mandatory \<longrightarrow> upheld sample_in_use (ge_now sample_genv) 1 r (sp_rules s))"
    using review_rules_governed [OF sample_reach_in_use res] by (elim bexE exE conjE) (rule that, assumption+)
  have "?r \<in> set (rv_rules v)" using b(3) by simp
  then have "upheld sample_in_use (ge_now sample_genv) 1 ?r (sp_rules s)" using bspec [OF u b(1)] b(2) r by simp
  then show ?thesis using n(2,3) unfolding e by (intro bexI [OF _ n(1)] exI [of _ s] conjI)
qed

end
