(* ===== verification/Agent_Documents.thy ===== *)
theory Agent_Documents
  imports Rule_Governance
begin

text \<open>
  The data of the remediation agent and the checks on it that need no database:
  \<open>internal/domain/agent_task.go\<close> and \<open>internal/domain/agent_workflow.go\<close> (requests, plans and their
  sections, the frozen workflow policy, criterion results, source snapshots, callbacks of the
  adapter), and \<open>internal/agentdecision\<close> (the deterministic admission classifier and the signal of a
  decision model that may narrow it).

  The digest \<open>hex(SHA-256(text))\<close> is the parameter \<open>sha\<close>. The lemmas show that the model's signal
  can only narrow a decision, that criterion results verify a plan exactly when they name its criteria
  and all passed, and that the text of a plan determines what was approved.
\<close>

section \<open>Texts\<close>

abbreviation len :: "'a list \<Rightarrow> int" where
  "len s \<equiv> int (length s)"

fun Itoa_nat :: "nat \<Rightarrow> string" where
  "Itoa_nat n = (if n < 10 then [char_of (48 + n)] else Itoa_nat (n div 10) @ [char_of (48 + n mod 10)])"

declare Itoa_nat.simps [simp del]

definition Itoa :: "int \<Rightarrow> string" where
  "Itoa n = (if n < 0 then CHR ''-'' # Itoa_nat (nat (- n)) else Itoa_nat (nat n))"

fun Join_with :: "string \<Rightarrow> string list \<Rightarrow> string" where
  "Join_with sep [] = ''''"
| "Join_with sep [s] = s"
| "Join_with sep (s # t # ts) = s @ sep @ Join_with sep (t # ts)"

text \<open>\<open>strings.EqualFold\<close> against a text of ASCII characters: besides the letters, the long s folds to
  \<open>s\<close> and the Kelvin sign to \<open>k\<close>.\<close>

fun simple_fold :: "string \<Rightarrow> string" where
  "simple_fold [] = []"
| "simple_fold (c # s) =
     (if c = CHR 0xC5 \<and> take 1 s = [CHR 0xBF] then CHR ''s'' # simple_fold (drop 1 s)
      else if c = CHR 0xE2 \<and> take 2 s = [CHR 0x84, CHR 0xAA] then CHR ''k'' # simple_fold (drop 2 s)
      else lower_char c # simple_fold s)"

definition EqualFold :: "string \<Rightarrow> string \<Rightarrow> bool" where
  "EqualFold s t \<longleftrightarrow> simple_fold s = simple_fold t"

definition lower_hex :: "char \<Rightarrow> bool" where
  "lower_hex c \<longleftrightarrow> CHR ''0'' \<le> c \<and> c \<le> CHR ''9'' \<or> CHR ''a'' \<le> c \<and> c \<le> CHR ''f''"

definition any_hex :: "char \<Rightarrow> bool" where
  "any_hex c \<longleftrightarrow> lower_hex c \<or> CHR ''A'' \<le> c \<and> c \<le> CHR ''F''"

section \<open>The workflow policy and criterion results\<close>

record AgentWorkflowPolicy =
  wp_evidence :: bool
  wp_enabled :: bool
  wp_repairs :: int
  wp_attempts :: int
  wp_checks :: "string list"

fun check_names_ok :: "string set \<Rightarrow> string list \<Rightarrow> bool" where
  "check_names_ok seen [] = True"
| "check_names_ok seen (name # names) =
     (if name \<noteq> TrimSpace name \<or> len name < 1 \<or> len name > 180 \<or> ContainsAny name [CHR 0x0D, CHR 0x0A, CHR 0x00]
         \<or> name \<in> seen \<or> EqualFold name ''Open Review / Analysis'' then False
      else check_names_ok (insert name seen) names)"

definition AgentWorkflowPolicy_Valid :: "AgentWorkflowPolicy \<Rightarrow> bool" where
  "AgentWorkflowPolicy_Valid p =
     (if \<not> wp_enabled p then \<not> wp_evidence p \<and> wp_repairs p = 0 \<and> wp_attempts p = 0 \<and> len (wp_checks p) = 0
      else if wp_repairs p < 0 \<or> wp_repairs p > 3 \<or> wp_attempts p < 1 \<or> wp_attempts p > 5 \<or> len (wp_checks p) > 10 then False
      else check_names_ok {} (wp_checks p))"

record AgentCriterionResult =
  cr_criterion :: string
  cr_status :: string
  cr_evidence :: string

fun criterion_results_ok :: "string set \<Rightarrow> AgentCriterionResult list \<Rightarrow> bool" where
  "criterion_results_ok seen [] = True"
| "criterion_results_ok seen (r # rs) =
     (if len (TrimSpace (cr_criterion r)) < 3 \<or> len (cr_criterion r) > 1000 \<or> cr_criterion r \<noteq> TrimSpace (cr_criterion r)
         \<or> cr_criterion r \<in> seen \<or> (cr_status r \<noteq> ''passed'' \<and> cr_status r \<noteq> ''failed'')
         \<or> len (TrimSpace (cr_evidence r)) < 3 \<or> len (cr_evidence r) > 2000
         \<or> CHR 0x00 \<in> set (cr_criterion r @ cr_evidence r) then False
      else criterion_results_ok (insert (cr_criterion r) seen) rs)"

definition ValidCriterionResults :: "AgentCriterionResult list \<Rightarrow> bool" where
  "ValidCriterionResults results = (if len results > 20 then False else criterion_results_ok {} results)"

text \<open>The map \<open>passed\<close> of \<open>CriteriaVerified\<close> is an association list in reverse: a later result of a
  criterion replaces an earlier one, a missing criterion reads as \<open>false\<close>.\<close>

definition CriteriaVerified :: "string list \<Rightarrow> AgentCriterionResult list \<Rightarrow> bool" where
  "CriteriaVerified criteria results =
     (if len criteria = 0 \<or> len results \<noteq> len criteria \<or> \<not> ValidCriterionResults results then False
      else let passed = map_of (rev (map (\<lambda>r. (cr_criterion r, cr_status r = ''passed'')) results))
           in list_all (\<lambda>c. passed c = Some True) criteria)"

text \<open>\<open>equalCriterionResults\<close>: equal lists, an absent list being an empty one.\<close>

definition equalCriterionResults :: "AgentCriterionResult list \<Rightarrow> AgentCriterionResult list \<Rightarrow> bool" where
  "equalCriterionResults a b \<longleftrightarrow> (if len a = 0 \<and> len b = 0 then True else a = b)"

section \<open>Plans\<close>

record AgentTaskPlanSections =
  se_source :: string
  se_repository :: string
  se_criteria :: "string list"
  se_objective :: string
  se_scope :: string
  se_verification :: string
  se_risks :: string
  se_unknowns :: string

definition no_sections :: AgentTaskPlanSections where
  "no_sections = \<lparr>se_source = '''', se_repository = '''', se_criteria = [], se_objective = '''', se_scope = '''',
     se_verification = '''', se_risks = '''', se_unknowns = ''''\<rparr>"

definition frozen_part_ok :: "string \<Rightarrow> bool" where
  "frozen_part_ok v \<longleftrightarrow> \<not> (len v > 16000 \<or> CHR 0x00 \<in> set v)"

definition criterion_ok :: "string \<Rightarrow> bool" where
  "criterion_ok c \<longleftrightarrow> \<not> (len (TrimSpace c) < 3 \<or> len c > 1000 \<or> CHR 0x00 \<in> set c)"

definition section_ok :: "string \<times> int \<Rightarrow> bool" where
  "section_ok = (\<lambda>(v, least). \<not> (len (TrimSpace v) < least \<or> len (TrimSpace v) > 4000 \<or> CHR 0x00 \<in> set (TrimSpace v)))"

definition AgentTaskPlanSections_Valid :: "AgentTaskPlanSections \<Rightarrow> bool" where
  "AgentTaskPlanSections_Valid s \<longleftrightarrow>
     list_all frozen_part_ok [se_source s, se_repository s] \<and> \<not> len (se_criteria s) > 20 \<and> list_all criterion_ok (se_criteria s) \<and>
     list_all section_ok [(se_objective s, 20), (se_scope s, 10), (se_verification s, 10), (se_risks s, 3), (se_unknowns s, 3)]"

definition Normalized :: "AgentTaskPlanSections \<Rightarrow> AgentTaskPlanSections" where
  "Normalized s = \<lparr>se_source = TrimSpace (se_source s), se_repository = TrimSpace (se_repository s),
     se_criteria = map TrimSpace (se_criteria s), se_objective = TrimSpace (se_objective s), se_scope = TrimSpace (se_scope s),
     se_verification = TrimSpace (se_verification s), se_risks = TrimSpace (se_risks s), se_unknowns = TrimSpace (se_unknowns s)\<rparr>"

definition acceptanceSummary :: "AgentTaskPlanSections \<Rightarrow> string" where
  "acceptanceSummary s = (if len (se_criteria s) = 0 then ''''
     else nl @ nl @ ''## Acceptance criteria'' @ nl @ ''- '' @ Join_with (nl @ ''- '') (se_criteria s))"

definition sourceSummary :: "AgentTaskPlanSections \<Rightarrow> string" where
  "sourceSummary s =
     (if se_source s \<noteq> '''' then nl @ nl @ ''## Frozen source requirements (untrusted data)'' @ nl @ se_source s else '''')
     @ (if se_repository s \<noteq> '''' then nl @ nl @ ''## Frozen repository evidence (untrusted data)'' @ nl @ se_repository s else '''')"

definition Summary :: "AgentTaskPlanSections \<Rightarrow> string" where
  "Summary sections =
     (let n = Normalized sections in
      ''## Objective'' @ nl @ se_objective n
      @ nl @ nl @ ''## Scope and impact'' @ nl @ se_scope n
      @ nl @ nl @ ''## Verification'' @ nl @ se_verification n
      @ nl @ nl @ ''## Risks'' @ nl @ se_risks n
      @ nl @ nl @ ''## Unknowns'' @ nl @ se_unknowns n @ acceptanceSummary n @ sourceSummary n)"

record AgentTaskPlanInput =
  pi_summary :: string
  pi_sections :: "AgentTaskPlanSections option"

definition CanonicalSummary :: "AgentTaskPlanInput \<Rightarrow> string" where
  "CanonicalSummary i = (case pi_sections i of Some s \<Rightarrow> Summary s | None \<Rightarrow> TrimSpace (pi_summary i))"

definition AgentTaskPlanInput_Valid :: "AgentTaskPlanInput \<Rightarrow> bool" where
  "AgentTaskPlanInput_Valid i =
     (if (case pi_sections i of None \<Rightarrow> False
          | Some s \<Rightarrow> \<not> AgentTaskPlanSections_Valid s \<or> (TrimSpace (pi_summary i) \<noteq> '''' \<and> TrimSpace (pi_summary i) \<noteq> Summary s))
      then False
      else let summary = CanonicalSummary i;
               limit = (case pi_sections i of None \<Rightarrow> 12000
                        | Some s \<Rightarrow> if se_source s \<noteq> '''' \<or> se_repository s \<noteq> '''' then 64000 else 12000)
           in len summary \<ge> 20 \<and> len summary \<le> limit)"

record AgentTaskPlan =
  pn_id :: uuid
  pn_task :: uuid
  pn_revision :: int
  pn_state :: string
  pn_summary :: string
  pn_sections :: AgentTaskPlanSections
  pn_sha :: string
  pn_created_by :: string
  pn_approved_by :: "string option"

text \<open>The check every read of a plan makes.\<close>

definition validateAgentTaskPlanIntegrity :: "(string \<Rightarrow> string) \<Rightarrow> AgentTaskPlan \<Rightarrow> bool" where
  "validateAgentTaskPlanIntegrity sha p =
     (let s = pn_sections p in
      if (se_objective s \<noteq> '''' \<or> se_scope s \<noteq> '''' \<or> se_verification s \<noteq> '''' \<or> se_risks s \<noteq> '''' \<or> se_unknowns s \<noteq> ''''
          \<or> len (se_criteria s) > 0) \<and> (\<not> AgentTaskPlanSections_Valid s \<or> Summary s \<noteq> pn_summary p) then False
      else pn_sha p = sha (pn_summary p))"

section \<open>Source snapshots\<close>

record AgentTaskIssueSnapshot =
  si_title :: string
  si_body :: string
  si_labels :: "string list"
  si_revision :: string

record AgentTaskFeedbackSnapshot =
  sf_comment :: string
  sf_actor :: string
  sf_instruction :: string

record AgentTaskDecisionSignal =
  sg_backend :: string
  sg_model :: string
  sg_choice :: string
  sg_confidence :: int

record AgentTaskSourceSnapshot =
  ss_ref :: string
  ss_sha :: string
  ss_target :: string
  ss_repository :: string
  ss_issue :: "AgentTaskIssueSnapshot option"
  ss_feedback :: "AgentTaskFeedbackSnapshot option"
  ss_plan :: "AgentTaskPlanSections option"
  ss_signal :: "AgentTaskDecisionSignal option"

text \<open>The check reads the two fields only; it is also made on the columns of a task.\<close>

definition base_pair_valid :: "string \<Rightarrow> string \<Rightarrow> bool" where
  "base_pair_valid ref sha1 =
     (if len (TrimSpace ref) < 1 \<or> len (TrimSpace ref) > 512 then False
      else if len (TrimSpace sha1) < 7 \<or> len (TrimSpace sha1) > 64 then False
      else list_all any_hex (TrimSpace sha1))"

definition AgentIssueRevision :: "(string \<Rightarrow> string) \<Rightarrow> string \<Rightarrow> string \<Rightarrow> string \<Rightarrow> int \<Rightarrow> string \<Rightarrow> string \<Rightarrow> string" where
  "AgentIssueRevision sha provider apiBaseURL repository number title body =
     ''issue-sha256:'' @ sha (Join_with nl [provider, TrimSuffix (TrimSpace apiBaseURL) ''/'', Trim (TrimSpace repository) (CHR 0x2F),
        Itoa number, TrimSpace title, TrimSpace body])"

definition AgentAutomaticIssueRevision ::
  "(string \<Rightarrow> string) \<Rightarrow> string \<Rightarrow> string \<Rightarrow> string \<Rightarrow> int \<Rightarrow> string \<Rightarrow> string \<Rightarrow> string list \<Rightarrow> string" where
  "AgentAutomaticIssueRevision sha provider apiBaseURL repository number title body labels =
     (let canonical = sort (filter (\<lambda>v. v \<noteq> '''') (map (\<lambda>l. ToLower (TrimSpace l)) labels))
      in ''issue-labels-sha256:'' @
           sha (AgentIssueRevision sha provider apiBaseURL repository number title body @ nl @ Join_with nl canonical))"

section \<open>Callbacks of the adapter\<close>

record AgentTaskAdapterEvent =
  ad_criteria :: "AgentCriterionResult list"
  ad_attempt :: uuid
  ad_job :: string
  ad_delivery :: string
  ad_kind :: string
  ad_summary :: string
  ad_branch :: string
  ad_head :: string
  ad_url :: string
  ad_number :: int
  ad_patch :: string
  ad_files :: int
  ad_bytes :: int
  ad_profile :: string
  ad_output :: string
  ad_output_bytes :: int
  ad_error :: string

definition validAgentVerificationEvidence :: "string \<Rightarrow> string \<Rightarrow> int \<Rightarrow> bool" where
  "validAgentVerificationEvidence profileSHA outputSHA outputBytes =
     (if profileSHA = '''' \<and> outputSHA = '''' \<and> outputBytes = 0 then True
      else if outputBytes < 0 \<or> outputBytes > 1048576 then False
      else list_all (\<lambda>v. len v = 64 \<and> list_all lower_hex v) [profileSHA, outputSHA])"

text \<open>\<open>hex.DecodeString\<close> accepts an even number of hexadecimal digits and \<open>hex.EncodeToString\<close> writes
  them in lower case, so that the two give back a text exactly when it is lower-case hexadecimal.\<close>

definition hex_round_trip :: "string \<Rightarrow> bool" where
  "hex_round_trip s \<longleftrightarrow> even (length s) \<and> list_all lower_hex s"

definition checkpoint_event_ok :: "AgentTaskAdapterEvent \<Rightarrow> bool" where
  "checkpoint_event_ok e =
     (if ad_summary e \<noteq> '''' \<or> ad_error e \<noteq> '''' \<or> ad_url e \<noteq> '''' \<or> ad_number e \<noteq> 0 \<or> \<not> HasPrefix (ad_branch e) ''agent/''
         \<or> (len (ad_head e) \<noteq> 40 \<and> len (ad_head e) \<noteq> 64) \<or> ad_files e \<le> 0 \<or> ad_bytes e \<le> 0
         \<or> \<not> validAgentVerificationEvidence (ad_profile e) (ad_output e) (ad_output_bytes e) then False
      else if \<not> hex_round_trip (ad_head e) then False
      else hex_round_trip (ad_patch e) \<and> length (ad_patch e) = 64)"

definition completed_event_ok :: "AgentTaskAdapterEvent \<Rightarrow> bool" where
  "completed_event_ok e =
     (if \<not> validAgentVerificationEvidence (ad_profile e) (ad_output e) (ad_output_bytes e) then False
      else if ad_profile e \<noteq> '''' \<and> ad_patch e = '''' then False
      else if (ad_patch e \<noteq> '''' \<or> ad_files e \<noteq> 0 \<or> ad_bytes e \<noteq> 0)
              \<and> (len (ad_patch e) \<noteq> 64 \<or> ad_files e \<le> 0 \<or> ad_bytes e \<le> 0 \<or> \<not> list_all lower_hex (ad_patch e)) then False
      else ad_error e = '''' \<and> ad_number e > 0)"

definition AgentTaskAdapterEvent_Valid :: "AgentTaskAdapterEvent \<Rightarrow> bool" where
  "AgentTaskAdapterEvent_Valid e =
     (if \<not> ValidCriterionResults (ad_criteria e)
         \<or> (len (ad_criteria e) > 0
            \<and> ((ad_kind e \<noteq> ''publication_checkpoint'' \<and> ad_kind e \<noteq> ''completed'') \<or> ad_profile e = '''')) then False
      else if ad_attempt e = 0 \<or> TrimSpace (ad_job e) = '''' \<or> TrimSpace (ad_delivery e) = ''''
         \<or> (ad_kind e \<noteq> ''heartbeat'' \<and> ad_kind e \<noteq> ''publication_checkpoint'' \<and> ad_kind e \<noteq> ''completed'' \<and> ad_kind e \<noteq> ''failed''
            \<and> ad_kind e \<noteq> ''needs_attention'') then False
      else if ad_kind e = ''heartbeat'' then
        ad_summary e = '''' \<and> ad_branch e = '''' \<and> ad_head e = '''' \<and> ad_url e = '''' \<and> ad_number e = 0 \<and> ad_patch e = ''''
        \<and> ad_files e = 0 \<and> ad_bytes e = 0 \<and> ad_error e = '''' \<and> ad_profile e = '''' \<and> ad_output e = '''' \<and> ad_output_bytes e = 0
      else if ad_kind e = ''publication_checkpoint'' then checkpoint_event_ok e
      else if len (TrimSpace (ad_summary e)) < 1 \<or> len (TrimSpace (ad_summary e)) > 4000 then False
      else if ad_kind e = ''completed'' then completed_event_ok e
      else ad_branch e = '''' \<and> ad_head e = '''' \<and> ad_url e = '''' \<and> ad_number e = 0 \<and> ad_patch e = '''' \<and> ad_files e = 0
        \<and> ad_bytes e = 0 \<and> ad_profile e = '''' \<and> ad_output e = '''' \<and> ad_output_bytes e = 0)"

definition validAgentAdapterJobID :: "string \<Rightarrow> bool" where
  "validAgentAdapterJobID v =
     (if len v < 1 \<or> len v > 256 then False else list_all (\<lambda>c. CHR 0x21 \<le> c \<and> c \<le> CHR 0x7E) v)"

definition validAgentHeadSHA :: "string \<Rightarrow> bool" where
  "validAgentHeadSHA v = (if len v < 7 \<or> len v > 64 then False else list_all any_hex v)"

section \<open>Tasks and the admission classifier\<close>

record AgentTask =
  tk_id :: uuid
  tk_tenant :: uuid
  tk_installation :: uuid
  tk_provider :: string
  tk_api :: string
  tk_repository :: string
  tk_origin :: string
  tk_number :: int
  tk_origin_revision :: string
  tk_intent :: string
  tk_policy_revision :: int
  tk_max_attempts :: int
  tk_max_seconds :: int
  tk_max_feedback :: int
  tk_executor :: string
  tk_backend :: string
  tk_branch :: string
  tk_parent :: "uuid option"
  tk_source_state :: string
  tk_base_ref :: string
  tk_base_sha :: string
  tk_state :: string
  tk_revision :: int
  tk_requested_by :: string
  tk_created :: gotime
  tk_workflow :: AgentWorkflowPolicy

record AgentTaskEvaluation =
  je_stage :: string
  je_outcome :: string
  je_summary :: string
  je_signals :: "string list"

record AgentTaskClassification =
  cl_task :: uuid
  cl_task_revision :: int
  cl_source_revision :: string
  cl_decision :: string
  cl_risk :: string
  cl_confidence :: int
  cl_reasons :: "string list"
  cl_evaluation :: "AgentTaskEvaluation list"
  cl_next :: string
  cl_sha :: string
  cl_version :: string

definition containsAny :: "string \<Rightarrow> string list \<Rightarrow> bool" where
  "containsAny value candidates \<longleftrightarrow> list_ex (\<lambda>c. Contains value c) candidates"

definition injection_words :: "string list" where
  "injection_words = [
     ''ignore previous instructions'',
     ''ignore all previous instructions'',
     ''system prompt'',
     ''reveal your prompt'',
     ''exfiltrate'',
     ''upload secrets'',
     ''print environment variables'',
     ''curl | sh'',
     ''curl|sh'',
     ''wget | sh'',
     ''base64 /etc'',
     [CHR 0xE5, CHR 0xBF, CHR 0xBD, CHR 0xE7, CHR 0x95, CHR 0xA5, CHR 0xE4, CHR 0xB9, CHR 0x8B, CHR 0xE5, CHR 0x89, CHR 0x8D, CHR 0xE7, CHR 0x9A, CHR 0x84, CHR 0xE6, CHR 0x8C, CHR 0x87, CHR 0xE4, CHR 0xBB, CHR 0xA4],
     [CHR 0xE6, CHR 0xB3, CHR 0x84, CHR 0xE9, CHR 0x9C, CHR 0xB2, CHR 0xE5, CHR 0xAF, CHR 0x86, CHR 0xE9, CHR 0x92, CHR 0xA5],
     [CHR 0xE4, CHR 0xB8, CHR 0x8A, CHR 0xE4, CHR 0xBC, CHR 0xA0, CHR 0xE5, CHR 0xAF, CHR 0x86, CHR 0xE9, CHR 0x92, CHR 0xA5],
     [CHR 0xE7, CHR 0xB3, CHR 0xBB, CHR 0xE7, CHR 0xBB, CHR 0x9F, CHR 0xE6, CHR 0x8F, CHR 0x90, CHR 0xE7, CHR 0xA4, CHR 0xBA, CHR 0xE8, CHR 0xAF, CHR 0x8D]]"

definition sensitive_words :: "string list" where
  "sensitive_words = [
     ''password'',
     ''secret'',
     ''credential'',
     ''token'',
     ''payment'',
     ''billing'',
     ''production'',
     ''deploy'',
     ''migration'',
     ''terraform'',
     ''kubernetes'',
     ''.github/workflows'',
     ''.gitlab-ci'',
     [CHR 0xE5, CHR 0xAE, CHR 0x89, CHR 0xE5, CHR 0x85, CHR 0xA8],
     [CHR 0xE5, CHR 0xAF, CHR 0x86, CHR 0xE9, CHR 0x92, CHR 0xA5],
     [CHR 0xE5, CHR 0x87, CHR 0xAD, CHR 0xE8, CHR 0xAF, CHR 0x81],
     [CHR 0xE6, CHR 0x94, CHR 0xAF, CHR 0xE4, CHR 0xBB, CHR 0x98],
     [CHR 0xE7, CHR 0x94, CHR 0x9F, CHR 0xE4, CHR 0xBA, CHR 0xA7],
     [CHR 0xE9, CHR 0x83, CHR 0xA8, CHR 0xE7, CHR 0xBD, CHR 0xB2],
     [CHR 0xE8, CHR 0xBF, CHR 0x81, CHR 0xE7, CHR 0xA7, CHR 0xBB]]"

definition acceptance_words :: "string list" where
  "acceptance_words = [
     ''acceptance criteria'',
     ''acceptance'',
     ''expected behavior'',
     ''expected result'',
     ''reproduce'',
     [CHR 0xE9, CHR 0xAA, CHR 0x8C, CHR 0xE6, CHR 0x94, CHR 0xB6],
     [CHR 0xE9, CHR 0xA2, CHR 0x84, CHR 0xE6, CHR 0x9C, CHR 0x9F],
     [CHR 0xE5, CHR 0xA4, CHR 0x8D, CHR 0xE7, CHR 0x8E, CHR 0xB0],
     [CHR 0xE5, CHR 0xAE, CHR 0x8C, CHR 0xE6, CHR 0x88, CHR 0x90, CHR 0xE6, CHR 0x9D, CHR 0xA1, CHR 0xE4, CHR 0xBB, CHR 0xB6]]"

definition ClassifierVersion :: string where
  "ClassifierVersion = ''deterministic-v3''"

definition evaluation :: "string \<Rightarrow> string \<Rightarrow> string \<Rightarrow> string list \<Rightarrow> AgentTaskEvaluation" where
  "evaluation stage outcome summary signals = \<lparr>je_stage = stage, je_outcome = outcome, je_summary = summary, je_signals = signals\<rparr>"

definition first_verdict :: "(string \<Rightarrow> string) \<Rightarrow> AgentTask \<Rightarrow> string \<Rightarrow> string \<Rightarrow> string list \<Rightarrow> AgentTaskClassification" where
  "first_verdict sha t title body labels =
     (let ready = (tk_source_state t = ''ready'') in
      \<lparr>cl_task = tk_id t, cl_task_revision = tk_revision t, cl_source_revision = tk_origin_revision t,
       cl_decision = ''requires_human'', cl_risk = ''low'', cl_confidence = 70,
       cl_reasons = [''The repository is in manual Agent mode; a bounded plan and owner/admin approval are still required.''],
       cl_evaluation =
         [evaluation ''judge'' ''passed'' ''No deterministic prompt-injection or secret-exfiltration pattern was found.'' [''untrusted_issue_snapshot''],
          evaluation ''evaluate'' ''passed'' ''The task is eligible only for a bounded, human-approved plan.'' [''manual_approval_required''],
          if ready then evaluation ''verify'' ''passed''
            ''Provider Issue revision and immutable repository source commit were read and frozen before planning.''
            [''provider_issue_revision'', ''source_commit_sha'']
          else evaluation ''verify'' ''passed''
            ''Provider, repository and immutable Issue revision are present; source commit capture is still required.''
            [''provider_identity'', ''repository_scope'', ''issue_revision'']],
       cl_next = (if ready then ''await_plan_approval'' else ''capture_source''),
       cl_sha = sha (Join_with nl [tk_provider t, tk_api t, tk_repository t, tk_origin t, tk_origin_revision t, tk_base_ref t,
         tk_base_sha t, title, body, Join_with nl labels]),
       cl_version = ClassifierVersion\<rparr>)"

definition Classify :: "(string \<Rightarrow> string) \<Rightarrow> AgentTask \<Rightarrow> string \<Rightarrow> string \<Rightarrow> string list \<Rightarrow> AgentTaskClassification" where
  "Classify sha t title body labels =
     (let title = TrimSpace title; body = TrimSpace body; c = first_verdict sha t title body labels;
          content = ToLower (title @ nl @ body @ nl @ Join_with nl labels);
          ev = cl_evaluation c in
      if containsAny content injection_words then
        c\<lparr>cl_decision := ''rejected'', cl_risk := ''critical'', cl_confidence := 99, cl_next := ''reject'',
          cl_evaluation :=
            [evaluation ''judge'' ''blocked'' ''The untrusted Issue snapshot matched a prompt-injection or secret-exfiltration policy.''
               [''prompt_injection_or_secret_exfiltration''],
             evaluation ''evaluate'' ''not_evaluated'' ''Risk and implementation suitability are not evaluated after a hard safety rejection.'' [],
             evaluation ''verify'' ''not_evaluated'' ''Source capture is forbidden for this rejected task revision.'' []],
          cl_reasons := [''The Issue snapshot contains text matching a prompt-injection or secret-exfiltration pattern.'',
            ''No plan, sandbox task, branch, or provider write can be created from this revision. A trusted owner must replace the Issue content and submit a new revision.'']\<rparr>
      else if title = '''' \<or> len body < 80 then
        c\<lparr>cl_decision := ''needs_context'', cl_risk := ''unknown'', cl_confidence := 95, cl_next := ''request_context'',
          cl_evaluation := [ev ! 0,
             evaluation ''evaluate'' ''blocked'' ''The Issue does not contain enough observable context for a bounded implementation plan.''
               [''missing_problem_context''],
             evaluation ''verify'' ''not_evaluated'' ''Source capture cannot make an underspecified request safe to plan.'' []],
          cl_reasons := [''The Issue snapshot does not contain enough problem context to produce a safe implementation plan.'',
            ''Add observed behavior, expected behavior, and acceptance criteria, then request the task again on the new Issue revision.'']\<rparr>
      else if containsAny content sensitive_words then
        c\<lparr>cl_risk := ''high'', cl_confidence := 90, cl_next := ''await_plan_approval'',
          cl_evaluation := [ev ! 0, evaluation ''evaluate'' ''requires_human''
             ''Sensitive or operational scope requires an independently approved plan.'' [''sensitive_or_operational_scope''], ev ! 2],
          cl_reasons := [''The Issue snapshot references a sensitive or operational area.'',
            ''This task requires an owner-approved plan and must remain outside automatic execution.'']\<rparr>
      else if \<not> containsAny content acceptance_words then
        c\<lparr>cl_risk := ''medium'', cl_confidence := 85, cl_next := ''await_plan_approval'',
          cl_evaluation := [ev ! 0, evaluation ''evaluate'' ''requires_human''
             ''Acceptance criteria must be added to the bounded plan before approval.'' [''missing_acceptance_criteria''], ev ! 2],
          cl_reasons := [''The Issue snapshot does not state verifiable acceptance criteria.'',
            ''A reviewer must add acceptance criteria to the plan before approval.'']\<rparr>
      else c)"

definition FeedbackClassificationBody :: "string \<Rightarrow> string" where
  "FeedbackClassificationBody instruction = ''Verified reviewer feedback:'' @ nl @ instruction @ nl @ nl
     @ ''Acceptance criteria: address the explicit review feedback without widening the approved task scope.''"

definition BackendKind_Valid :: "string \<Rightarrow> bool" where
  "BackendKind_Valid k \<longleftrightarrow> k = ''jev'' \<or> k = ''deterministic''"

definition narrowed :: "string \<Rightarrow> AgentTaskClassification \<Rightarrow> AgentTaskClassification" where
  "narrowed choice c =
     (if choice = ''reject'' then
        c\<lparr>cl_decision := ''rejected'', cl_risk := ''critical'', cl_next := ''reject'',
          cl_reasons := cl_reasons c @ [''The configured decision model rejected the candidate; a trusted owner must inspect it before a new revision can be admitted.'']\<rparr>
      else if choice = ''context'' \<or> choice = ''uncertain'' then
        c\<lparr>cl_decision := ''needs_context'', cl_risk := ''unknown'', cl_next := ''request_context'',
          cl_reasons := cl_reasons c @ [''The configured decision model could not establish a sufficiently clear, bounded task. Revise the Issue and request a new candidate.'']\<rparr>
      else if choice = ''human'' then
        c\<lparr>cl_risk := ''high'',
          cl_reasons := cl_reasons c @ [''The configured decision model flagged sensitive or broad scope for additional owner review.'']\<rparr>
      else c)"

definition signal_usable :: "AgentTaskDecisionSignal \<Rightarrow> string \<Rightarrow> bool" where
  "signal_usable s backend =
     (if sg_backend s \<noteq> backend \<or> TrimSpace (sg_model s) = '''' \<or> sg_confidence s < 0 \<or> sg_confidence s > 100 then False
      else \<not> (sg_choice s \<noteq> ''plan'' \<and> sg_choice s \<noteq> ''context'' \<and> sg_choice s \<noteq> ''human'' \<and> sg_choice s \<noteq> ''reject''
              \<and> sg_choice s \<noteq> ''uncertain''))"

definition with_model :: "AgentTaskClassification \<Rightarrow> AgentTaskDecisionSignal \<Rightarrow> string \<Rightarrow> AgentTaskClassification" where
  "with_model c s backend =
     c\<lparr>cl_version := ClassifierVersion @ ''+'' @ backend @ '':'' @ sg_model s,
       cl_evaluation := cl_evaluation c @ [evaluation ''model'' ''advisory''
         ''The selected decision model supplied a bounded classification; deterministic policy and owner approval remain authoritative.''
         [backend, sg_choice s, ''confidence:'' @ Itoa (sg_confidence s)]]\<rparr>"

text \<open>\<open>None\<close> is the error of a missing, mismatched or unknown signal.\<close>

definition ApplySignal ::
  "AgentTaskClassification \<Rightarrow> AgentTaskDecisionSignal option \<Rightarrow> string \<Rightarrow> AgentTaskClassification option" where
  "ApplySignal c signal backend =
     (if backend = ''deterministic'' \<or> cl_decision c \<noteq> ''requires_human'' then Some c
      else if \<not> BackendKind_Valid backend then None
      else case signal of None \<Rightarrow> None
      | Some s \<Rightarrow> if \<not> signal_usable s backend then None else Some (narrowed (sg_choice s) (with_model c s backend)))"

text \<open>The binding of a feedback task to its comment.\<close>

record AgentTaskFeedbackBinding =
  fb_kind :: string
  fb_key :: string
  fb_run :: "uuid option"
  fb_instruction :: string
  fb_comment :: string
  fb_actor :: string
  fb_sha :: string

definition binding_internal :: "AgentTaskFeedbackBinding \<Rightarrow> bool" where
  "binding_internal b \<longleftrightarrow> fb_run b \<noteq> None \<or> fb_kind b \<noteq> ''''"

text \<open>\<open>strconv.ParseUint\<close> in base 10 with 64 bits.\<close>

definition decimal_value :: "string \<Rightarrow> nat" where
  "decimal_value s = foldl (\<lambda>n c. 10 * n + (of_char c - 48)) 0 s"

definition positive_uint64 :: "string \<Rightarrow> bool" where
  "positive_uint64 s \<longleftrightarrow> s \<noteq> '''' \<and> list_all (\<lambda>c. CHR ''0'' \<le> c \<and> c \<le> CHR ''9'') s
     \<and> int (decimal_value s) < 18446744073709551616 \<and> decimal_value s > 0"

definition repair_binding_valid :: "(string \<Rightarrow> string) \<Rightarrow> (uuid \<Rightarrow> string) \<Rightarrow> AgentTaskFeedbackBinding \<Rightarrow> bool" where
  "repair_binding_valid sha text b =
     (let kind = fb_kind b; key = fb_key b in
      if (kind \<noteq> ''review'' \<and> kind \<noteq> ''ci'' \<and> kind \<noteq> ''acceptance'') \<or> len key > 180 \<or> \<not> HasPrefix key (kind @ '':'')
         \<or> ContainsAny key [CHR 0x20, CHR 0x0D, CHR 0x0A, CHR 0x00] \<or> fb_comment b \<noteq> key \<or> fb_actor b \<noteq> ''system:delivery-monitor''
         \<or> len (fb_instruction b) < 20 \<or> len (fb_instruction b) > 12000 \<or> CHR 0x00 \<in> set (fb_instruction b) then False
      else if kind = ''review'' \<and> (case fb_run b of None \<Rightarrow> True | Some i \<Rightarrow> key \<noteq> ''review:'' @ text i) then False
      else if kind = ''ci'' \<and> (case fb_run b of None \<Rightarrow> True | Some i \<Rightarrow> \<not> HasPrefix key (''ci:'' @ text i @ '':'')) then False
      else if (kind = ''review'' \<or> kind = ''ci'') \<and> (fb_run b = None \<or> fb_run b = Some 0) then False
      else sha (fb_instruction b) = fb_sha b)"

definition AgentTaskFeedbackBinding_Valid :: "(string \<Rightarrow> string) \<Rightarrow> (uuid \<Rightarrow> string) \<Rightarrow> AgentTaskFeedbackBinding \<Rightarrow> bool" where
  "AgentTaskFeedbackBinding_Valid sha text b =
     (if fb_kind b \<noteq> '''' then repair_binding_valid sha text b
      else if fb_key b \<noteq> '''' \<and> (case fb_run b of None \<Rightarrow> True | Some i \<Rightarrow> fb_key b \<noteq> ''review:'' @ text i) then False
      else case fb_run b of
        Some i \<Rightarrow>
          if i = 0 \<or> fb_comment b \<noteq> ''review:'' @ text i \<or> fb_actor b \<noteq> ''system:review-worker''
             \<or> len (fb_instruction b) < 20 \<or> len (fb_instruction b) > 12000 then False
          else sha (fb_instruction b) = fb_sha b
      | None \<Rightarrow>
          if fb_instruction b \<noteq> '''' then False
          else positive_uint64 (fb_comment b) \<and> positive_uint64 (fb_actor b) \<and> list_all any_hex (fb_sha b) \<and> len (fb_sha b) = 64)"

definition internalReviewBindingMatches ::
  "(string \<Rightarrow> string) \<Rightarrow> (uuid \<Rightarrow> string) \<Rightarrow> AgentTaskFeedbackSnapshot \<Rightarrow> AgentTaskFeedbackBinding \<Rightarrow> bool" where
  "internalReviewBindingMatches sha text s b \<longleftrightarrow>
     binding_internal b \<and> AgentTaskFeedbackBinding_Valid sha text b \<and> sf_comment s = fb_comment b \<and> sf_actor s = fb_actor b
     \<and> TrimSpace (sf_instruction s) = fb_instruction b"

section \<open>Facts\<close>

lemma Join_with_Cons: "Join_with sep (s # ss) = s @ (if ss = [] then [] else sep @ Join_with sep ss)"
  by (cases ss) auto

lemma Normalized_Normalized [simp]: "Normalized (Normalized s) = Normalized s"
  by (simp add: Normalized_def TrimSpace_idem comp_def)

lemma Summary_Normalized [simp]: "Summary (Normalized s) = Summary s"
  by (simp add: Summary_def)

lemma criterion_results_distinct: "criterion_results_ok seen rs \<Longrightarrow> distinct (map cr_criterion rs) \<and> set (map cr_criterion rs) \<inter> seen = {}"
  by (induction seen rs rule: criterion_results_ok.induct) (auto split: if_splits)

lemma CriteriaVerified_iff:
  "CriteriaVerified criteria results \<longleftrightarrow>
     criteria \<noteq> [] \<and> length results = length criteria \<and> ValidCriterionResults results \<and>
     (\<forall>c \<in> set criteria. \<exists>r \<in> set results. cr_criterion r = c \<and> cr_status r = ''passed'')"
proof (cases "criteria \<noteq> [] \<and> length results = length criteria \<and> ValidCriterionResults results")
  case True
  then have d: "distinct (map cr_criterion results)"
    using criterion_results_distinct [of "{}" results] by (auto simp: ValidCriterionResults_def split: if_splits)
  let ?kv = "map (\<lambda>r. (cr_criterion r, cr_status r = ''passed'')) results"
  have "map fst (rev ?kv) = rev (map cr_criterion results)" by (simp add: rev_map [symmetric])
  then have "distinct (map fst (rev ?kv))" using d by (simp only: distinct_rev)
  then have m: "map_of (rev ?kv) c = Some v \<longleftrightarrow> (c, v) \<in> set ?kv" for c v
    using map_of_eq_Some_iff [of "rev ?kv" c v] unfolding set_rev by blast
  have p: "(c, True) \<in> set ?kv \<longleftrightarrow> (\<exists>r \<in> set results. cr_criterion r = c \<and> cr_status r = ''passed'')" for c
    unfolding set_map image_iff by (rule bex_cong [OF refl]) (simp only: prod.inject simp_thms eq_commute)
  have "CriteriaVerified criteria results \<longleftrightarrow> (\<forall>c \<in> set criteria. (c, True) \<in> set ?kv)"
    using True unfolding CriteriaVerified_def Let_def list_all_iff m by simp
  then show ?thesis using True unfolding p by simp
qed (auto simp: CriteriaVerified_def simp del: list_all_iff)

lemma narrowed_decision: "cl_decision (narrowed choice c) = cl_decision c \<or> cl_decision (narrowed choice c) = ''rejected''
    \<or> cl_decision (narrowed choice c) = ''needs_context''"
proof (cases "choice = ''reject''")
  case False
  then show ?thesis
  proof (cases "choice = ''context'' \<or> choice = ''uncertain''")
    case f: False
    show ?thesis unfolding narrowed_def if_not_P [OF False] if_not_P [OF f] by (simp split: if_split)
  qed (unfold narrowed_def, simp only: if_P if_not_P, simp)
qed (unfold narrowed_def, simp only: if_P, simp)

lemma with_model_row: "cl_decision (with_model c s b) = cl_decision c" "cl_task (with_model c s b) = cl_task c"
  by (simp_all add: with_model_def)

lemma ApplySignal_cases:
  assumes "ApplySignal c s b = Some c'"
  obtains "c' = c" | s' where "cl_decision c = ''requires_human''" "signal_usable s' b" "c' = narrowed (sg_choice s') (with_model c s' b)"
proof (cases "b = ''deterministic'' \<or> cl_decision c \<noteq> ''requires_human''")
  case True
  then show ?thesis using assms that(1) unfolding ApplySignal_def if_P [OF True] by blast
next
  case False
  then show ?thesis using assms that(2) unfolding ApplySignal_def if_not_P [OF False]
    by (simp split: if_split_asm option.split_asm)
qed

lemma ApplySignal_narrows:
  assumes "ApplySignal c s b = Some c'"
  shows "cl_decision c' = cl_decision c \<or> cl_decision c' = ''rejected'' \<or> cl_decision c' = ''needs_context''"
    and "cl_decision c \<noteq> ''requires_human'' \<Longrightarrow> c' = c"
  using assms by (cases rule: ApplySignal_cases; metis narrowed_decision with_model_row(1))+

lemma Classify_rejects:
  assumes "containsAny (ToLower (TrimSpace title @ nl @ TrimSpace body @ nl @ Join_with nl labels)) injection_words"
  shows "cl_decision (Classify sha t title body labels) = ''rejected''"
  using assms by (simp add: Classify_def Let_def)

lemma Classify_decision: "cl_decision (Classify sha t title body labels) \<in> {''rejected'', ''needs_context'', ''requires_human''}"
  by (simp add: Classify_def Let_def first_verdict_def)

lemma Classify_requires_human:
  assumes "cl_decision (Classify sha t title body labels) = ''requires_human''"
  shows "\<not> containsAny (ToLower (TrimSpace title @ nl @ TrimSpace body @ nl @ Join_with nl labels)) injection_words"
    and "TrimSpace title \<noteq> ''''" and "len (TrimSpace body) \<ge> 80"
  using assms by (auto simp: Classify_def Let_def split: if_splits)

lemma Classify_row: "cl_task (Classify sha t title body labels) = tk_id t"
  by (simp add: Classify_def Let_def first_verdict_def)

lemma narrowed_row: "cl_task (narrowed choice c) = cl_task c"
  unfolding narrowed_def by (simp split: if_split)

lemma ApplySignal_row: "ApplySignal c s b = Some c' \<Longrightarrow> cl_task c' = cl_task c"
  by (erule ApplySignal_cases) (simp_all add: narrowed_row with_model_row)

end
