(* ===== verification/Agent_Tasks.thy ===== *)
theory Agent_Tasks
  imports Agent_Documents
begin

text \<open>
  The life of a remediation task up to its approval, \<open>internal/store/agent_tasks.go\<close> and
  \<open>internal/store/agent_workflow.go\<close>: the repository policy, the admission of a task from a request or
  a triaged issue, the capture of its source, plans, their approval, and cancellation.

  The tables are the record \<open>agents\<close>, which holds the tables of the rule governance for members,
  installations and the approval policy. A transaction returns the new tables or an error, which
  leaves them as they are. Outbox messages have the tuple of the parts of their dedupe key as
  \<open>agent_key\<close>; the payload keeps the fields that identify the target and leaves out the rendered text
  of a comment and the reference of the credential.

  \<open>agent_env\<close> is what a transaction takes from outside: the time of the transaction and of the
  process, the digest of a text and of a callback, the text of a UUID, whether PostgreSQL accepts a
  text (valid UTF-8 without NUL; such a text survives the JSON column of the sections), and the
  canonical form of a draft URL (\<open>AgentDraftURLPolicy.Canonical\<close>). The time stamps of a table do not
  decrease, so that the latest row of a task is its last one.
\<close>

section \<open>Tables\<close>

record AgentTaskPolicy =
  po_id :: uuid
  po_tenant :: uuid
  po_provider :: string
  po_api :: string
  po_repository :: string
  po_mode :: string
  po_max_attempts :: int
  po_max_seconds :: int
  po_max_feedback :: int
  po_executor :: string
  po_backend :: string
  po_auto :: bool
  po_label :: string
  po_revision :: int
  po_updated_by :: string
  po_workflow :: AgentWorkflowPolicy

record AgentTaskAttempt =
  am_id :: uuid
  am_task :: uuid
  am_plan :: uuid
  am_task_revision :: int
  am_plan_revision :: int
  am_attempt :: int
  am_state :: string
  am_worker :: "string option"
  am_job :: "string option"
  am_started :: "gotime option"
  am_locked :: "gotime option"
  am_deadline :: "gotime option"
  am_error :: string
  am_message :: string
  am_summary :: string
  am_branch :: string
  am_head :: string
  am_url :: string
  am_number :: int
  am_patch :: string
  am_files :: int
  am_bytes :: int
  am_profile :: string
  am_output :: string
  am_output_bytes :: int

record AgentTaskPublicationCheckpoint =
  ck_attempt :: uuid
  ck_number :: int
  ck_job :: string
  ck_branch :: string
  ck_head :: string
  ck_patch :: string
  ck_files :: int
  ck_bytes :: int
  ck_profile :: string
  ck_output :: string
  ck_output_bytes :: int
  ck_criteria :: "AgentCriterionResult list"
  ck_recorded :: gotime

record AgentPublicationRecovery =
  pr_attempt :: uuid
  pr_state :: string
  pr_reads :: int
  pr_code :: string
  pr_message :: string
  pr_reason :: string
  pr_worker :: "string option"
  pr_locked :: "gotime option"
  pr_available :: gotime

record AgentTaskRequirement =
  rq_task :: uuid
  rq_sha :: string
  rq_criteria :: "string list"
  rq_source :: string
  rq_repository :: string

record AgentTaskAcceptance =
  ac_task :: uuid
  ac_attempt :: uuid
  ac_head :: string
  ac_revision :: int
  ac_state :: string
  ac_criteria :: "string list"
  ac_reason :: string

record AgentTaskInteraction =
  ai_task :: "uuid option"
  ai_result :: string
  ai_repository :: string
  ai_number :: int

record AgentTaskFeedbackCycle =
  fc_child :: "uuid option"
  fc_state :: string
  fc_repository :: string
  fc_number :: int
  fc_binding :: AgentTaskFeedbackBinding

record ProviderIssueJob =
  ij_id :: uuid
  ij_tenant :: uuid
  ij_installation :: uuid
  ij_provider :: string
  ij_api :: string
  ij_repository :: string
  ij_number :: int
  ij_revision :: int
  ij_title :: string
  ij_body :: string
  ij_labels :: "string list"
  ij_updated :: gotime

record AgentCampaign =
  ca_id :: uuid
  ca_state :: string
  ca_concurrency :: int

record AgentCampaignTarget =
  ct_campaign :: uuid
  ct_task :: "uuid option"
  ct_state :: string

datatype agent_key = KSource uuid | KSourceRetry uuid int | KAckRetry uuid int | KExecute uuid int | KCancel uuid
  | KSourceStatus uuid string int | KAttemptStatus uuid string | KFeedbackStatus uuid string int | KOther string

record AgentMessage =
  om_aggregate :: uuid
  om_topic :: string
  om_key :: agent_key
  om_payload :: payload
  om_release :: "(uuid \<times> int) option"

record agents =
  ag_gov :: gov
  ag_policies :: "AgentTaskPolicy list"
  ag_tasks :: "AgentTask list"
  ag_plans :: "AgentTaskPlan list"
  ag_attempts :: "AgentTaskAttempt list"
  ag_classes :: "AgentTaskClassification list"
  ag_receipts :: "((uuid \<times> string) \<times> string) list"
  ag_checkpoints :: "AgentTaskPublicationCheckpoint list"
  ag_recoveries :: "AgentPublicationRecovery list"
  ag_requirements :: "AgentTaskRequirement list"
  ag_acceptances :: "AgentTaskAcceptance list"
  ag_interactions :: "AgentTaskInteraction list"
  ag_feedback :: "AgentTaskFeedbackCycle list"
  ag_issues :: "ProviderIssueJob list"
  ag_campaigns :: "AgentCampaign list"
  ag_targets :: "AgentCampaignTarget list"
  ag_outbox :: "AgentMessage list"

record agent_env =
  ae_now :: gotime
  ae_clock :: gotime
  ae_sha :: "string \<Rightarrow> string"
  ae_digest :: "AgentTaskAdapterEvent \<Rightarrow> string"
  ae_text :: "uuid \<Rightarrow> string"
  ae_storable :: "string \<Rightarrow> bool"
  ae_url :: "string \<Rightarrow> string \<Rightarrow> string \<Rightarrow> int \<Rightarrow> string \<Rightarrow> string option"

datatype agent_error = AgStore store_error | ErrInvalidAgentTask | ErrInvalidAgentTaskPlan | ErrAgentTaskDisabled
  | ErrNoQueuedAgentTask | ErrAgentTaskClaimLost | ErrUnknownInstallation | ErrAmbiguousInstallation | ErrAgentStatement string

definition ag_fresh :: "agents \<Rightarrow> uuid \<times> agents" where
  "ag_fresh a = (let (i, g) = gov_fresh (ag_gov a) in (i, a\<lparr>ag_gov := g\<rparr>))"

definition ag_audit :: "agents \<Rightarrow> uuid \<Rightarrow> string \<Rightarrow> string \<Rightarrow> uuid \<Rightarrow> payload \<Rightarrow> agents" where
  "ag_audit a tenantID actor action target metadata = a\<lparr>ag_gov := gov_audit (ag_gov a) tenantID actor action (PUuid target) metadata\<rparr>"

definition ag_send :: "agents \<Rightarrow> AgentMessage \<Rightarrow> agents" where
  "ag_send a m = (if om_key m \<in> om_key ` set (ag_outbox a) then a else a\<lparr>ag_outbox := ag_outbox a @ [m]\<rparr>)"

definition set_task :: "agents \<Rightarrow> uuid \<Rightarrow> (AgentTask \<Rightarrow> AgentTask) \<Rightarrow> agents" where
  "set_task a i f = a\<lparr>ag_tasks := update_where (\<lambda>t. tk_id t = i) f (ag_tasks a)\<rparr>"

definition set_attempts :: "agents \<Rightarrow> (AgentTaskAttempt \<Rightarrow> bool) \<Rightarrow> (AgentTaskAttempt \<Rightarrow> AgentTaskAttempt) \<Rightarrow> agents" where
  "set_attempts a p f = a\<lparr>ag_attempts := update_where p f (ag_attempts a)\<rparr>"

definition set_plans :: "agents \<Rightarrow> (AgentTaskPlan \<Rightarrow> bool) \<Rightarrow> (AgentTaskPlan \<Rightarrow> AgentTaskPlan) \<Rightarrow> agents" where
  "set_plans a p f = a\<lparr>ag_plans := update_where p f (ag_plans a)\<rparr>"

definition moved :: "string \<Rightarrow> AgentTask \<Rightarrow> AgentTask" where
  "moved state t = t\<lparr>tk_state := state, tk_revision := tk_revision t + 1\<rparr>"

section \<open>Authorization\<close>

definition canManageAgentTasks :: "string \<Rightarrow> bool" where
  "canManageAgentTasks role \<longleftrightarrow> role = ''owner'' \<or> role = ''admin'' \<or> role = ''reviewer''"

text \<open>The authorization every operation of the Console starts with.\<close>

definition agent_member :: "agents \<Rightarrow> string \<Rightarrow> string \<Rightarrow> (string \<Rightarrow> bool) \<Rightarrow> agent_error + (uuid \<times> string)" where
  "agent_member a actor tenantSlug allowed =
     (case authorizedTenantTx (gv_db (ag_gov a)) actor tenantSlug of
        Inl err \<Rightarrow> Inl (AgStore err)
      | Inr (tenantID, role) \<Rightarrow> if allowed role then Inr (tenantID, role) else Inl (AgStore ErrForbidden))"

definition owner_or_admin :: "string \<Rightarrow> bool" where
  "owner_or_admin role \<longleftrightarrow> \<not> (role \<noteq> ''owner'' \<and> role \<noteq> ''admin'')"

definition tenant_task :: "agents \<Rightarrow> uuid \<Rightarrow> uuid \<Rightarrow> agent_error + AgentTask" where
  "tenant_task a tenantID taskID =
     (case find (\<lambda>t. tk_tenant t = tenantID \<and> tk_id t = taskID) (ag_tasks a) of
        None \<Rightarrow> Inl (AgStore ErrNotFound) | Some t \<Rightarrow> Inr t)"

definition installation_scope :: "agents \<Rightarrow> uuid \<Rightarrow> string" where
  "installation_scope a i = (case map_of (gv_scopes (ag_gov a)) i of None \<Rightarrow> '''' | Some s \<Rightarrow> s)"

definition installation_usable :: "Installation \<Rightarrow> bool" where
  "installation_usable i \<longleftrightarrow> ins_active i \<and> (ins_verification i = ''legacy'' \<or> ins_verification i = ''verified'')"

definition authorizedAgentInstallationTx ::
  "agents \<Rightarrow> uuid \<Rightarrow> string \<Rightarrow> string \<Rightarrow> string \<Rightarrow> agent_error + uuid" where
  "authorizedAgentInstallationTx a tenantID provider apiBaseURL repository =
     (let rows = sort_key ins_id (filter (\<lambda>i. ins_tenant i = tenantID \<and> ins_provider i = provider \<and> ins_api i = apiBaseURL
                   \<and> installation_usable i) (db_installations (gv_db (ag_gov a))));
          matches = filter (\<lambda>i. repositoryScopeAllows (installation_scope a (ins_id i)) repository) rows in
      case matches of
        _ # _ # _ \<Rightarrow> Inl ErrAmbiguousInstallation
      | [i] \<Rightarrow> Inr (ins_id i)
      | [] \<Rightarrow> if rows \<noteq> [] then Inl (AgStore ErrForbidden) else Inl ErrUnknownInstallation)"

section \<open>Policies\<close>

definition find_policy :: "agents \<Rightarrow> uuid \<Rightarrow> string \<Rightarrow> string \<Rightarrow> string \<Rightarrow> AgentTaskPolicy option" where
  "find_policy a tenantID provider apiBaseURL repository =
     find (\<lambda>p. po_tenant p = tenantID \<and> po_provider p = provider \<and> po_api p = apiBaseURL \<and> po_repository p = repository)
       (ag_policies a)"

record AgentTaskPolicyInput =
  pu_workflow :: "AgentWorkflowPolicy option"
  pu_provider :: string
  pu_api :: string
  pu_repository :: string
  pu_mode :: string
  pu_max_attempts :: int
  pu_max_seconds :: int
  pu_max_feedback :: int
  pu_executor :: string
  pu_backend :: string
  pu_auto :: bool
  pu_label :: string
  pu_revision :: int

definition AgentTaskPolicyInput_Valid :: "AgentTaskPolicyInput \<Rightarrow> bool" where
  "AgentTaskPolicyInput_Valid i =
     (if (case pu_workflow i of None \<Rightarrow> False | Some w \<Rightarrow> \<not> AgentWorkflowPolicy_Valid w) then False
      else Provider_Valid (pu_provider i) \<and> TrimSpace (pu_api i) \<noteq> '''' \<and> Trim (TrimSpace (pu_repository i)) (CHR 0x2F) \<noteq> '''' \<and>
        (pu_mode i = ''disabled'' \<or> pu_mode i = ''suggest'' \<or> pu_mode i = ''manual'') \<and>
        (pu_executor i = ''codex'' \<or> pu_executor i = ''claude'') \<and>
        (pu_backend i = '''' \<or> pu_backend i = ''jev'' \<or> pu_backend i = ''deterministic'') \<and>
        len (TrimSpace (pu_label i)) \<ge> 1 \<and> len (TrimSpace (pu_label i)) \<le> 128 \<and>
        \<not> ContainsAny (pu_label i) [CHR 0x0D, CHR 0x0A] \<and>
        pu_max_attempts i \<ge> 1 \<and> pu_max_attempts i \<le> 3 \<and> pu_max_seconds i \<ge> 60 \<and> pu_max_seconds i \<le> 7200 \<and>
        pu_max_feedback i \<ge> 0 \<and> pu_max_feedback i \<le> 3 \<and> pu_revision i \<ge> 0)"

text \<open>The defaults of older clients, before the check.\<close>

definition policy_defaults :: "AgentTaskPolicyInput \<Rightarrow> AgentTaskPolicyInput" where
  "policy_defaults i =
     (let mode = ToLower (TrimSpace (pu_mode i));
          executor = (if pu_executor i = '''' then ''codex'' else pu_executor i);
          backend = (if pu_backend i = '''' then ''jev'' else pu_backend i);
          label = (if pu_label i = '''' then ''openreview:implement'' else pu_label i) in
      i\<lparr>pu_api := TrimSuffix (TrimSpace (pu_api i)) ''/'', pu_repository := Trim (TrimSpace (pu_repository i)) (CHR 0x2F),
        pu_mode := mode, pu_max_attempts := (if pu_max_attempts i = 0 then 1 else pu_max_attempts i),
        pu_max_seconds := (if pu_max_seconds i = 0 then 1800 else pu_max_seconds i),
        pu_max_feedback := (if mode \<noteq> ''manual'' then 0 else pu_max_feedback i),
        pu_executor := ToLower (TrimSpace executor), pu_backend := ToLower (TrimSpace backend), pu_label := TrimSpace label,
        pu_auto := (if mode \<noteq> ''manual'' then False else pu_auto i)\<rparr>)"

definition no_workflow :: AgentWorkflowPolicy where
  "no_workflow = \<lparr>wp_evidence = False, wp_enabled = False, wp_repairs = 0, wp_attempts = 0, wp_checks = []\<rparr>"

definition policy_row :: "uuid \<Rightarrow> uuid \<Rightarrow> AgentTaskPolicyInput \<Rightarrow> int \<Rightarrow> string \<Rightarrow> AgentWorkflowPolicy \<Rightarrow> AgentTaskPolicy" where
  "policy_row i tenantID input revision actor workflow =
     \<lparr>po_id = i, po_tenant = tenantID, po_provider = pu_provider input, po_api = pu_api input, po_repository = pu_repository input,
      po_mode = pu_mode input, po_max_attempts = pu_max_attempts input, po_max_seconds = pu_max_seconds input,
      po_max_feedback = pu_max_feedback input, po_executor = pu_executor input, po_backend = pu_backend input,
      po_auto = pu_auto input, po_label = pu_label input, po_revision = revision, po_updated_by = actor, po_workflow = workflow\<rparr>"

definition store_policy ::
  "agents \<Rightarrow> AgentTaskPolicy option \<Rightarrow> uuid \<Rightarrow> string \<Rightarrow> AgentTaskPolicyInput \<Rightarrow> AgentWorkflowPolicy \<Rightarrow> agents \<times> AgentTaskPolicy" where
  "store_policy a current tenantID actor input workflow =
     (case current of
        None \<Rightarrow>
          let (i, a) = ag_fresh a; p = policy_row i tenantID input 1 actor workflow in
          (ag_audit (a\<lparr>ag_policies := ag_policies a @ [p]\<rparr>) tenantID actor ''agent_task.policy_saved'' i
             [(''mode'', PStr (po_mode p)), (''revision'', PInt (po_revision p))], p)
      | Some old \<Rightarrow>
          let p = policy_row (po_id old) tenantID input (po_revision old + 1) actor workflow in
          (ag_audit (a\<lparr>ag_policies := update_where (\<lambda>q. po_id q = po_id old) (\<lambda>_. p) (ag_policies a)\<rparr>) tenantID actor
             ''agent_task.policy_saved'' (po_id old) [(''mode'', PStr (po_mode p)), (''revision'', PInt (po_revision p))], p))"

definition SaveAgentTaskPolicy ::
  "agents \<Rightarrow> string \<Rightarrow> string \<Rightarrow> AgentTaskPolicyInput \<Rightarrow> agent_error + (agents \<times> AgentTaskPolicy)" where
  "SaveAgentTaskPolicy a actor tenantSlug input0 =
     (let backendOmitted = (TrimSpace (pu_backend input0) = ''''); input = policy_defaults input0 in
      if \<not> AgentTaskPolicyInput_Valid input then Inl ErrInvalidAgentTask
      else bind_r (agent_member a actor tenantSlug owner_or_admin) (\<lambda>(tenantID, role).
        bind_r (authorizedAgentInstallationTx a tenantID (pu_provider input) (pu_api input) (pu_repository input)) (\<lambda>_.
        let current = find_policy a tenantID (pu_provider input) (pu_api input) (pu_repository input) in
        if (case current of None \<Rightarrow> pu_revision input \<noteq> 0 | Some p \<Rightarrow> po_revision p \<noteq> pu_revision input)
        then Inl (AgStore ErrRevisionConflict)
        else let input = (case current of Some p \<Rightarrow> if backendOmitted then input\<lparr>pu_backend := po_backend p\<rparr> else input | None \<Rightarrow> input);
                 workflow = (case pu_workflow input of Some w \<Rightarrow> w
                             | None \<Rightarrow> (case current of Some p \<Rightarrow> po_workflow p | None \<Rightarrow> no_workflow)) in
          if \<not> AgentWorkflowPolicy_Valid workflow then Inl ErrInvalidAgentTask
          else Inr (store_policy a current tenantID actor input workflow))))"

section \<open>Statements on tasks, plans and classifications\<close>

definition latest_plan :: "agents \<Rightarrow> uuid \<Rightarrow> AgentTaskPlan option" where
  "latest_plan a taskID =
     (case filter (\<lambda>p. pn_task p = taskID) (ag_plans a) of [] \<Rightarrow> None
      | p # ps \<Rightarrow> Some (fold (\<lambda>q b. if pn_revision q > pn_revision b then q else b) ps p))"

definition max_plan_revision :: "agents \<Rightarrow> uuid \<Rightarrow> int" where
  "max_plan_revision a taskID = (case latest_plan a taskID of None \<Rightarrow> 0 | Some p \<Rightarrow> pn_revision p)"

definition latestAgentTaskClassification :: "agents \<Rightarrow> uuid \<Rightarrow> agent_error + AgentTaskClassification" where
  "latestAgentTaskClassification a taskID =
     (case filter (\<lambda>c. cl_task c = taskID) (ag_classes a) of [] \<Rightarrow> Inl ErrInvalidAgentTaskPlan | cs \<Rightarrow> Inr (last cs))"

definition scanAgentTaskPlan :: "agent_env \<Rightarrow> AgentTaskPlan \<Rightarrow> agent_error + AgentTaskPlan" where
  "scanAgentTaskPlan e p =
     (if validateAgentTaskPlanIntegrity (ae_sha e) p then Inr p else Inl (ErrAgentStatement ''agent task plan integrity''))"

definition recordAgentTaskClassification ::
  "agents \<Rightarrow> AgentTask \<Rightarrow> AgentTaskClassification \<Rightarrow> agent_error + agents" where
  "recordAgentTaskClassification a t c =
     (let c = c\<lparr>cl_task := tk_id t, cl_task_revision := tk_revision t\<rparr> in
      if list_ex (\<lambda>d. cl_task d = cl_task c \<and> cl_task_revision d = cl_task_revision c \<and> cl_version d = cl_version c) (ag_classes a)
      then Inl (ErrAgentStatement ''record agent task classification'')
      else Inr (ag_audit (a\<lparr>ag_classes := ag_classes a @ [c]\<rparr>) (tk_tenant t) (tk_requested_by t) ''agent_task.classified'' (tk_id t)
             [(''task_revision'', PInt (cl_task_revision c)), (''decision'', PStr (cl_decision c)),
              (''snapshot_sha256'', PStr (cl_sha c))]))"

definition insert_plan ::
  "agent_env \<Rightarrow> agents \<Rightarrow> uuid \<Rightarrow> int \<Rightarrow> string \<Rightarrow> AgentTaskPlanSections \<Rightarrow> string \<Rightarrow> agent_error + (agents \<times> AgentTaskPlan)" where
  "insert_plan e a taskID revision summary sections actor =
     (if \<not> ae_storable e summary \<or> list_ex (\<lambda>p. pn_task p = taskID \<and> pn_revision p = revision) (ag_plans a)
      then Inl (ErrAgentStatement ''create agent task plan'')
      else let (i, a) = ag_fresh a;
               p = \<lparr>pn_id = i, pn_task = taskID, pn_revision = revision, pn_state = ''awaiting_approval'', pn_summary = summary,
                    pn_sections = sections, pn_sha = ae_sha e summary, pn_created_by = actor, pn_approved_by = None\<rparr>
           in bind_r (scanAgentTaskPlan e p) (\<lambda>p. Inr (a\<lparr>ag_plans := ag_plans a @ [p]\<rparr>, p)))"

definition supersede_plans :: "agents \<Rightarrow> uuid \<Rightarrow> uuid \<Rightarrow> agents" where
  "supersede_plans a taskID planID =
     set_plans a (\<lambda>p. pn_task p = taskID \<and> pn_id p \<noteq> planID \<and> pn_state p = ''awaiting_approval'') (\<lambda>p. p\<lparr>pn_state := ''superseded''\<rparr>)"

section \<open>Comments on the provider\<close>

definition task_installation :: "agents \<Rightarrow> uuid \<Rightarrow> (AgentTask \<times> Installation) option" where
  "task_installation a taskID =
     (case row_by tk_id taskID (ag_tasks a) of None \<Rightarrow> None
      | Some t \<Rightarrow> (case row_by ins_id (tk_installation t) (db_installations (gv_db (ag_gov a))) of None \<Rightarrow> None | Some i \<Rightarrow> Some (t, i)))"

definition comment_payload :: "Installation \<Rightarrow> string \<Rightarrow> int \<Rightarrow> string \<Rightarrow> payload" where
  "comment_payload i repository number kind =
     [(''tenant_id'', PUuid (ins_tenant i)), (''provider'', PStr (ins_provider i)), (''api_base_url'', PStr (ins_api i)),
      (''installation_external_id'', PStr (ins_external i)), (''repository'', PStr repository), (''review_number'', PInt number),
      (''resource_kind'', PStr kind)]"

definition comment :: "uuid \<Rightarrow> agent_key \<Rightarrow> payload \<Rightarrow> AgentMessage" where
  "comment aggregate key p =
     \<lparr>om_aggregate = aggregate, om_topic = ''review.interaction.response'', om_key = key, om_payload = p, om_release = None\<rparr>"

definition accepted_interactions :: "agents \<Rightarrow> uuid \<Rightarrow> AgentTaskInteraction list" where
  "accepted_interactions a taskID = filter (\<lambda>i. ai_task i = Some taskID \<and> ai_result i = ''accepted'') (ag_interactions a)"

definition queueAgentTaskFeedbackProviderComment :: "agents \<Rightarrow> uuid \<Rightarrow> string \<Rightarrow> int \<Rightarrow> agents" where
  "queueAgentTaskFeedbackProviderComment a taskID status version =
     (case (rev (filter (\<lambda>f. fc_child f = Some taskID) (ag_feedback a)), task_installation a taskID) of
        (f # _, Some (t, i)) \<Rightarrow>
          ag_send a (comment taskID (KFeedbackStatus taskID status version) (comment_payload i (fc_repository f) (fc_number f) ''merge_request''))
      | _ \<Rightarrow> a)"

definition queueAgentTaskAttemptProviderComment :: "agents \<Rightarrow> uuid \<Rightarrow> uuid \<Rightarrow> string \<Rightarrow> agents" where
  "queueAgentTaskAttemptProviderComment a taskID attemptID status =
     (case (rev (accepted_interactions a taskID), task_installation a taskID) of
        (n # _, Some (t, i)) \<Rightarrow>
          ag_send a (comment attemptID (KAttemptStatus attemptID status) (comment_payload i (ai_repository n) (ai_number n) ''issue''))
      | _ \<Rightarrow> queueAgentTaskFeedbackProviderComment a taskID (''attempt:'' @ status) (int attemptID))"

text \<open>The check of the plan a status comment is about.\<close>

definition status_plan_ok :: "agent_env \<Rightarrow> agents \<Rightarrow> AgentTask \<Rightarrow> string \<Rightarrow> agent_error + int" where
  "status_plan_ok e a t status =
     (if (status = ''plan'' \<and> tk_state t \<noteq> ''awaiting_approval'') \<or> (status = ''approved'' \<and> tk_state t \<noteq> ''execution_queued'')
      then Inl ErrInvalidAgentTaskPlan
      else case latest_plan a (tk_id t) of None \<Rightarrow> Inl (ErrAgentStatement ''load agent plan for provider status'')
      | Some p \<Rightarrow> bind_r (scanAgentTaskPlan e p) (\<lambda>p.
          if pn_state p \<noteq> (if status = ''approved'' then ''approved'' else ''awaiting_approval'') then Inl ErrInvalidAgentTaskPlan
          else Inr (pn_revision p)))"

definition source_comment :: "agents \<Rightarrow> AgentTask \<Rightarrow> string \<Rightarrow> int \<Rightarrow> agents" where
  "source_comment a t status planRevision =
     (let send = (\<lambda>i repository number. ag_send a (comment (tk_id t) (KSourceStatus (tk_id t) status (tk_revision t))
                   (comment_payload i repository number ''issue'' @ [(''status_version'', PInt (tk_revision t))]))) in
      case (accepted_interactions a (tk_id t), task_installation a (tk_id t)) of
        (n # _, Some (_, i)) \<Rightarrow> send i (ai_repository n) (ai_number n)
      | (_, inst) \<Rightarrow>
        if tk_requested_by t = ''policy:auto'' \<and> tk_origin t = ''issue''
        then (case inst of Some (_, i) \<Rightarrow> send i (tk_repository t) (tk_number t) | None \<Rightarrow> a)
        else queueAgentTaskFeedbackProviderComment a (tk_id t) (''source:'' @ status) (tk_revision t))"

definition queueAgentTaskSourceProviderComment :: "agent_env \<Rightarrow> agents \<Rightarrow> AgentTask \<Rightarrow> string \<Rightarrow> agent_error + agents" where
  "queueAgentTaskSourceProviderComment e a t status =
     (if tk_origin t = ''campaign'' then Inr a
      else if status \<noteq> ''failed'' \<and> status \<noteq> ''ready'' \<and> status \<noteq> ''plan'' \<and> status \<noteq> ''approved'' then Inl ErrInvalidAgentTask
      else if status = ''failed'' then Inr (source_comment a t status 0)
      else if status = ''plan'' \<or> status = ''approved''
      then bind_r (status_plan_ok e a t status) (\<lambda>revision. Inr (source_comment a t status revision))
      else bind_r (latestAgentTaskClassification a (tk_id t)) (\<lambda>c.
        if cl_decision c \<noteq> ''rejected'' \<and> cl_decision c \<noteq> ''needs_context'' \<and> cl_decision c \<noteq> ''requires_human''
        then Inl (ErrAgentStatement ''final agent source admission is not publishable'')
        else Inr (source_comment a t status 0)))"

section \<open>Admission\<close>

record AgentTaskInput =
  ti_provider :: string
  ti_api :: string
  ti_repository :: string
  ti_origin :: string
  ti_number :: int
  ti_revision :: string
  ti_intent :: string

definition AgentTaskInput_Valid :: "AgentTaskInput \<Rightarrow> bool" where
  "AgentTaskInput_Valid i \<longleftrightarrow>
     Provider_Valid (ti_provider i) \<and> TrimSpace (ti_api i) \<noteq> '''' \<and> Trim (TrimSpace (ti_repository i)) (CHR 0x2F) \<noteq> '''' \<and>
     ti_origin i = ''issue'' \<and> ti_number i > 0 \<and> TrimSpace (ti_revision i) \<noteq> '''' \<and> ti_intent i = ''implement''"

definition trimmed_input :: "AgentTaskInput \<Rightarrow> AgentTaskInput" where
  "trimmed_input i = i\<lparr>ti_api := TrimSuffix (TrimSpace (ti_api i)) ''/'', ti_repository := Trim (TrimSpace (ti_repository i)) (CHR 0x2F),
     ti_origin := ToLower (TrimSpace (ti_origin i)), ti_revision := TrimSpace (ti_revision i), ti_intent := ToLower (TrimSpace (ti_intent i))\<rparr>"

text \<open>The insertion with its \<open>UNIQUE\<close> constraint (\<open>None\<close>) and the trigger that freezes the workflow of
  the policy.\<close>

definition insert_agent_task ::
  "agent_env \<Rightarrow> agents \<Rightarrow> uuid \<Rightarrow> uuid \<Rightarrow> AgentTaskInput \<Rightarrow> AgentTaskPolicy \<Rightarrow> string \<Rightarrow> (agents \<times> AgentTask) option" where
  "insert_agent_task e a tenantID installationID i p requestedBy =
     (if list_ex (\<lambda>t. tk_tenant t = tenantID \<and> tk_installation t = installationID \<and> tk_repository t = ti_repository i
            \<and> tk_origin t = ti_origin i \<and> tk_number t = ti_number i \<and> tk_origin_revision t = ti_revision i \<and> tk_intent t = ti_intent i)
          (ag_tasks a) then None
      else let (taskID, a) = ag_fresh a;
               t = \<lparr>tk_id = taskID, tk_tenant = tenantID, tk_installation = installationID, tk_provider = ti_provider i, tk_api = ti_api i,
                    tk_repository = ti_repository i, tk_origin = ti_origin i, tk_number = ti_number i, tk_origin_revision = ti_revision i,
                    tk_intent = ti_intent i, tk_policy_revision = po_revision p, tk_max_attempts = po_max_attempts p,
                    tk_max_seconds = po_max_seconds p, tk_max_feedback = po_max_feedback p, tk_executor = po_executor p,
                    tk_backend = po_backend p, tk_branch = ''agent/'' @ ae_text e taskID, tk_parent = None, tk_source_state = ''pending'',
                    tk_base_ref = '''', tk_base_sha = '''', tk_state = ''received'', tk_revision = 1, tk_requested_by = requestedBy,
                    tk_created = ae_now e, tk_workflow = po_workflow p\<rparr>
           in Some (a\<lparr>ag_tasks := ag_tasks a @ [t]\<rparr>, t))"

definition queueAgentTaskSourceResolution :: "agents \<Rightarrow> uuid \<Rightarrow> agent_error + agents" where
  "queueAgentTaskSourceResolution a taskID =
     (if taskID = 0 then Inl ErrInvalidAgentTask
      else case row_by tk_id taskID (ag_tasks a) of None \<Rightarrow> Inr a
      | Some t \<Rightarrow> Inr (ag_send a \<lparr>om_aggregate = taskID, om_topic = ''agent.task.source.resolve.requested'', om_key = KSource taskID,
          om_payload = [(''task_id'', PUuid taskID), (''task_revision'', PInt (tk_revision t))], om_release = None\<rparr>))"

definition retained_issue :: "agents \<Rightarrow> uuid \<Rightarrow> uuid \<Rightarrow> AgentTaskInput \<Rightarrow> ProviderIssueJob option" where
  "retained_issue a tenantID installationID i =
     (case filter (\<lambda>j. ij_tenant j = tenantID \<and> ij_installation j = installationID \<and> ij_provider j = ti_provider i \<and> ij_api j = ti_api i
              \<and> ij_repository j = ti_repository i \<and> ij_number j = ti_number i) (ag_issues a) of [] \<Rightarrow> None
      | j # js \<Rightarrow> Some (fold (\<lambda>q b. if ij_updated q > ij_updated b then q else b) js j))"

text \<open>The revision an automatic task of the same issue would have, when the labels are known.\<close>

definition automatic_revision :: "agent_env \<Rightarrow> agents \<Rightarrow> uuid \<Rightarrow> uuid \<Rightarrow> AgentTaskInput \<Rightarrow> string" where
  "automatic_revision e a tenantID installationID i =
     (if HasPrefix (ti_revision i) ''issue-sha256:'' then
        case retained_issue a tenantID installationID i of None \<Rightarrow> ''''
        | Some j \<Rightarrow>
          if AgentIssueRevision (ae_sha e) (ti_provider i) (ti_api i) (ti_repository i) (ti_number i) (ij_title j) (ij_body j) = ti_revision i
          then AgentAutomaticIssueRevision (ae_sha e) (ti_provider i) (ti_api i) (ti_repository i) (ti_number i) (ij_title j) (ij_body j)
                 (ij_labels j)
          else ''''
      else '''')"

definition same_issue :: "uuid \<Rightarrow> uuid \<Rightarrow> AgentTaskInput \<Rightarrow> AgentTask \<Rightarrow> bool" where
  "same_issue tenantID installationID i t \<longleftrightarrow>
     tk_tenant t = tenantID \<and> tk_installation t = installationID \<and> tk_repository t = ti_repository i \<and> tk_origin t = ''issue''
     \<and> tk_number t = ti_number i \<and> tk_intent t = ''implement''"

definition admit_agent_task ::
  "agent_env \<Rightarrow> agents \<Rightarrow> uuid \<Rightarrow> uuid \<Rightarrow> AgentTaskInput \<Rightarrow> AgentTaskPolicy \<Rightarrow> string \<Rightarrow> agent_error + (agents \<times> AgentTask)" where
  "admit_agent_task e a tenantID installationID i p actor =
     (case insert_agent_task e a tenantID installationID i p actor of None \<Rightarrow> Inl (AgStore ErrConflict)
      | Some (a, t) \<Rightarrow>
        bind_r (recordAgentTaskClassification a t (Classify (ae_sha e) t '''' '''' [])) (\<lambda>a.
        bind_r (queueAgentTaskSourceResolution a (tk_id t)) (\<lambda>a.
        Inr (ag_audit a tenantID actor ''agent_task.created'' (tk_id t)
               [(''repository'', PStr (tk_repository t)), (''origin_revision'', PStr (tk_origin_revision t)),
                (''revision'', PInt (tk_revision t))], t))))"

definition createAgentTask ::
  "agent_env \<Rightarrow> agents \<Rightarrow> string \<Rightarrow> string \<Rightarrow> AgentTaskInput \<Rightarrow> uuid \<Rightarrow> string \<Rightarrow> agent_error + (agents \<times> AgentTask)" where
  "createAgentTask e a actor tenantSlug input expectedInstallation automatic =
     (let i = trimmed_input input in
      if \<not> AgentTaskInput_Valid i then Inl ErrInvalidAgentTask
      else bind_r (agent_member a actor tenantSlug canManageAgentTasks) (\<lambda>(tenantID, role).
        bind_r (authorizedAgentInstallationTx a tenantID (ti_provider i) (ti_api i) (ti_repository i)) (\<lambda>installationID.
        if expectedInstallation \<noteq> 0 \<and> installationID \<noteq> expectedInstallation then Inl ErrUnknownInstallation
        else case find_policy a tenantID (ti_provider i) (ti_api i) (ti_repository i) of None \<Rightarrow> Inl ErrAgentTaskDisabled
        | Some p \<Rightarrow>
          if po_mode p \<noteq> ''manual'' then Inl ErrAgentTaskDisabled
          else let revision = (if ti_origin i = ''issue'' \<and> automatic = '''' then automatic_revision e a tenantID installationID i else automatic) in
            if ti_origin i = ''issue'' \<and> revision = ''''
               \<and> list_ex (\<lambda>t. same_issue tenantID installationID i t \<and> tk_requested_by t = ''policy:auto'') (ag_tasks a)
            then Inl (AgStore ErrConflict)
            else if ti_origin i = ''issue'' \<and> revision \<noteq> ''''
               \<and> list_ex (\<lambda>t. same_issue tenantID installationID i t \<and> tk_origin_revision t = revision) (ag_tasks a)
            then Inl (AgStore ErrConflict)
            else admit_agent_task e a tenantID installationID i p actor)))"

definition CreateAgentTask ::
  "agent_env \<Rightarrow> agents \<Rightarrow> string \<Rightarrow> string \<Rightarrow> AgentTaskInput \<Rightarrow> agent_error + (agents \<times> AgentTask)" where
  "CreateAgentTask e a actor tenantSlug input = createAgentTask e a actor tenantSlug input 0 ''''"

definition CreateAgentTaskFromProviderIssue ::
  "agent_env \<Rightarrow> agents \<Rightarrow> string \<Rightarrow> string \<Rightarrow> uuid \<Rightarrow> int \<Rightarrow> agent_error + (agents \<times> AgentTask)" where
  "CreateAgentTaskFromProviderIssue e a actor tenantSlug analysisID expectedRevision =
     (if analysisID = 0 \<or> expectedRevision < 1 then Inl ErrInvalidAgentTask
      else bind_r (agent_member a actor tenantSlug canManageAgentTasks) (\<lambda>(tenantID, role).
        case find (\<lambda>j. ij_tenant j = tenantID \<and> ij_id j = analysisID) (ag_issues a) of None \<Rightarrow> Inl (AgStore ErrNotFound)
        | Some j \<Rightarrow>
          if ij_revision j \<noteq> expectedRevision then Inl (AgStore ErrRevisionConflict)
          else createAgentTask e a actor tenantSlug
            \<lparr>ti_provider = ij_provider j, ti_api = ij_api j, ti_repository = ij_repository j, ti_origin = ''issue'', ti_number = ij_number j,
             ti_revision = AgentIssueRevision (ae_sha e) (ij_provider j) (ij_api j) (ij_repository j) (ij_number j) (ij_title j) (ij_body j),
             ti_intent = ''implement''\<rparr>
            (ij_installation j)
            (AgentAutomaticIssueRevision (ae_sha e) (ij_provider j) (ij_api j) (ij_repository j) (ij_number j) (ij_title j) (ij_body j)
               (ij_labels j))))"

section \<open>Budget and criteria\<close>

definition branch_used :: "agents \<Rightarrow> uuid \<Rightarrow> string \<Rightarrow> int" where
  "branch_used a tenantID branch =
     sum_list (map am_attempt (filter (\<lambda>m. list_ex (\<lambda>t. tk_id t = am_task m \<and> tk_tenant t = tenantID \<and> tk_branch t = branch) (ag_tasks a))
       (ag_attempts a)))"

definition checkAgentWorkflowBudgetTx :: "agents \<Rightarrow> AgentTask \<Rightarrow> agent_error + unit" where
  "checkAgentWorkflowBudgetTx a t =
     (if \<not> wp_enabled (tk_workflow t) then Inr ()
      else if branch_used a (tk_tenant t) (tk_branch t) \<ge> wp_attempts (tk_workflow t) then Inl ErrInvalidAgentTaskPlan
      else Inr ())"

definition requireAgentWorkflowCriteriaTx :: "agents \<Rightarrow> AgentTask \<Rightarrow> AgentTaskPlanSections \<Rightarrow> agent_error + unit" where
  "requireAgentWorkflowCriteriaTx a t s =
     (if \<not> wp_enabled (tk_workflow t) then Inr ()
      else case row_by rq_task (tk_id t) (ag_requirements a) of None \<Rightarrow> Inl ErrInvalidAgentTaskPlan
      | Some r \<Rightarrow>
        if se_source s \<noteq> rq_source r \<or> se_repository s \<noteq> rq_repository r then Inl ErrInvalidAgentTaskPlan
        else if rq_criteria r = [] then Inl ErrInvalidAgentTaskPlan
        else if list_all (\<lambda>c. c \<in> set (map TrimSpace (se_criteria s))) (rq_criteria r) then Inr ()
        else Inl ErrInvalidAgentTaskPlan)"

section \<open>Plans and approval\<close>

definition unplannable :: "string list" where
  "unplannable = [''cancelled'', ''rejected'', ''superseded'', ''execution_queued'', ''executing'', ''completed'']"

definition CreateAgentTaskPlan ::
  "agent_env \<Rightarrow> agents \<Rightarrow> string \<Rightarrow> string \<Rightarrow> uuid \<Rightarrow> AgentTaskPlanInput \<Rightarrow> agent_error + (agents \<times> AgentTaskPlan)" where
  "CreateAgentTaskPlan e a actor tenantSlug taskID input =
     (if taskID = 0 \<or> \<not> AgentTaskPlanInput_Valid input then Inl ErrInvalidAgentTaskPlan
      else let summary = CanonicalSummary input;
               sections = (case pi_sections input of None \<Rightarrow> no_sections | Some s \<Rightarrow> Normalized s) in
        bind_r (agent_member a actor tenantSlug canManageAgentTasks) (\<lambda>(tenantID, role).
        bind_r (tenant_task a tenantID taskID) (\<lambda>t.
        if tk_state t \<in> set unplannable then Inl ErrInvalidAgentTaskPlan
        else if tk_source_state t \<noteq> ''ready'' \<or> \<not> base_pair_valid (tk_base_ref t) (tk_base_sha t) then Inl ErrInvalidAgentTaskPlan
        else bind_r (latestAgentTaskClassification a taskID) (\<lambda>c.
          if cl_decision c \<noteq> ''requires_human'' then Inl ErrInvalidAgentTaskPlan
          else bind_r (checkAgentWorkflowBudgetTx a t) (\<lambda>_.
            bind_r (requireAgentWorkflowCriteriaTx a t sections) (\<lambda>_.
            bind_r (insert_plan e a taskID (max_plan_revision a taskID + 1) summary sections actor) (\<lambda>(a, p).
            let a = set_task (supersede_plans a taskID (pn_id p)) taskID (moved ''awaiting_approval'') in
            bind_r (queueAgentTaskSourceProviderComment e a (moved ''awaiting_approval'' t) ''plan'') (\<lambda>a.
            Inr (ag_audit a tenantID actor ''agent_task.plan_created'' (pn_id p)
                   [(''task_id'', PUuid taskID), (''plan_revision'', PInt (pn_revision p)), (''plan_sha256'', PStr (pn_sha p))], p)))))))))"

definition campaign_blocked :: "agents \<Rightarrow> AgentTask \<Rightarrow> bool" where
  "campaign_blocked a t \<longleftrightarrow>
     list_ex (\<lambda>ct. list_ex (\<lambda>root. ct_task ct = Some (tk_id root) \<and> tk_tenant root = tk_tenant t \<and> tk_branch root = tk_branch t) (ag_tasks a)
       \<and> list_ex (\<lambda>c. ca_id c = ct_campaign ct
            \<and> (ca_state c \<noteq> ''active''
               \<or> list_ex (\<lambda>pending. ct_campaign pending = ca_id c \<and> (ct_state pending = ''scan_queued'' \<or> ct_state pending = ''scanning''))
                    (ag_targets a))) (ag_campaigns a)) (ag_targets a)"

definition grant_plan ::
  "agent_env \<Rightarrow> agents \<Rightarrow> uuid \<Rightarrow> string \<Rightarrow> AgentTask \<Rightarrow> AgentTaskPlan \<Rightarrow> WorkspaceApprovalPolicy \<Rightarrow> agent_error + (agents \<times> AgentTaskPlan)" where
  "grant_plan e a tenantID actor t p0 policy =
     (let p = p0\<lparr>pn_state := ''approved'', pn_approved_by := Some actor\<rparr> in
      bind_r (scanAgentTaskPlan e p) (\<lambda>_.
      let a = supersede_plans (set_plans a (\<lambda>q. pn_id q = pn_id p) (\<lambda>_. p)) (tk_id t) (pn_id p);
          a = ag_send (set_task a (tk_id t) (moved ''execution_queued''))
            \<lparr>om_aggregate = tk_id t, om_topic = ''agent.task.execute.requested'', om_key = KExecute (tk_id t) (tk_revision t + 1),
             om_payload = [(''task_id'', PUuid (tk_id t)), (''task_revision'', PInt (tk_revision t + 1)), (''plan_id'', PUuid (pn_id p)),
                           (''plan_revision'', PInt (pn_revision p)), (''plan_sha256'', PStr (pn_sha p))], om_release = None\<rparr> in
      bind_r (queueAgentTaskSourceProviderComment e a (moved ''execution_queued'' t) ''approved'') (\<lambda>a.
      Inr (ag_audit a tenantID actor ''agent_task.plan_approved'' (pn_id p)
             [(''task_id'', PUuid (tk_id t)), (''plan_revision'', PInt (pn_revision p)), (''plan_sha256'', PStr (pn_sha p)),
              (''self_approval'', PBool (pn_created_by p = actor)), (''approval_policy_revision'', PInt (ap_revision policy))], p))))"

definition approveAgentTaskPlanTx ::
  "agent_env \<Rightarrow> agents \<Rightarrow> uuid \<Rightarrow> string \<Rightarrow> string \<Rightarrow> AgentTask \<Rightarrow> uuid \<Rightarrow> int \<Rightarrow> agent_error + (agents \<times> AgentTaskPlan)" where
  "approveAgentTaskPlanTx e a tenantID actor role t planID revision =
     (if campaign_blocked a t then Inl (AgStore ErrConflict)
      else if \<not> owner_or_admin role then Inl (AgStore ErrForbidden)
      else if planID = 0 \<or> revision \<le> 0 then Inl ErrInvalidAgentTaskPlan
      else if tk_state t \<noteq> ''awaiting_approval'' then Inl (AgStore ErrConflict)
      else bind_r (checkAgentWorkflowBudgetTx a t) (\<lambda>_.
        if wp_enabled (tk_workflow t) \<and>
           (case find (\<lambda>p. pn_id p = planID \<and> pn_task p = tk_id t) (ag_plans a) of None \<Rightarrow> True
            | Some p \<Rightarrow> \<not> is_ok (bind_r (scanAgentTaskPlan e p) (\<lambda>p. requireAgentWorkflowCriteriaTx a t (pn_sections p))))
        then Inl ErrInvalidAgentTaskPlan
        else bind_r (latestAgentTaskClassification a (tk_id t)) (\<lambda>c.
          if cl_decision c \<noteq> ''requires_human'' then Inl ErrInvalidAgentTaskPlan
          else let policy = workspaceApprovalPolicyTx (ag_gov a) tenantID in
            case find (\<lambda>p. pn_id p = planID \<and> pn_task p = tk_id t \<and> pn_revision p = revision \<and> pn_state p = ''awaiting_approval'') (ag_plans a) of
              None \<Rightarrow> Inl (AgStore ErrConflict)
            | Some p \<Rightarrow>
              if pn_created_by p = actor \<and> \<not> ap_agent policy then Inl (AgStore ErrForbidden)
              else if pn_revision p \<noteq> max_plan_revision a (tk_id t) then Inl (AgStore ErrConflict)
              else grant_plan e a tenantID actor t p policy)))"

definition ApproveAgentTaskPlan ::
  "agent_env \<Rightarrow> agents \<Rightarrow> string \<Rightarrow> string \<Rightarrow> uuid \<Rightarrow> uuid \<Rightarrow> int \<Rightarrow> agent_error + (agents \<times> AgentTaskPlan)" where
  "ApproveAgentTaskPlan e a actor tenantSlug taskID planID revision =
     (if taskID = 0 \<or> planID = 0 \<or> revision \<le> 0 then Inl ErrInvalidAgentTaskPlan
      else bind_r (agent_member a actor tenantSlug owner_or_admin) (\<lambda>(tenantID, role).
        bind_r (tenant_task a tenantID taskID) (\<lambda>t. approveAgentTaskPlanTx e a tenantID actor role t planID revision)))"

section \<open>Cancellation\<close>

definition agentTaskStateCancellable :: "string \<Rightarrow> bool" where
  "agentTaskStateCancellable s \<longleftrightarrow>
     s = ''received'' \<or> s = ''awaiting_approval'' \<or> s = ''execution_queued'' \<or> s = ''executing'' \<or> s = ''needs_attention''"

definition queueAgentAdapterCancellation :: "agents \<Rightarrow> uuid \<Rightarrow> uuid \<Rightarrow> string \<Rightarrow> agent_error + agents" where
  "queueAgentAdapterCancellation a taskID attemptID jobID =
     (let jobID = TrimSpace jobID in
      if taskID = 0 \<or> attemptID = 0 \<or> jobID = '''' then Inl ErrInvalidAgentTask
      else Inr (ag_send a \<lparr>om_aggregate = taskID, om_topic = ''agent.task.cancel.requested'', om_key = KCancel attemptID,
        om_payload = [(''task_id'', PUuid taskID), (''attempt_id'', PUuid attemptID), (''adapter_job_id'', PStr jobID)], om_release = None\<rparr>))"

fun queue_cancellations :: "uuid \<Rightarrow> (uuid \<times> string) list \<Rightarrow> agents \<Rightarrow> agent_error + agents" where
  "queue_cancellations taskID [] a = Inr a"
| "queue_cancellations taskID ((attemptID, jobID) # rest) a =
     bind_r (queueAgentAdapterCancellation a taskID attemptID jobID) (queue_cancellations taskID rest)"

definition cancelAgentTaskTx :: "agents \<Rightarrow> AgentTask \<Rightarrow> string \<Rightarrow> string \<Rightarrow> agent_error + (agents \<times> AgentTask)" where
  "cancelAgentTaskTx a t actor reason =
     (if \<not> agentTaskStateCancellable (tk_state t) then Inl (AgStore ErrConflict)
      else let jobs = concat (map (\<lambda>m. case am_job m of Some j \<Rightarrow> if am_task m = tk_id t \<and> am_state m = ''running'' \<and> j \<noteq> '''' then [(am_id m, j)] else []
                                    | None \<Rightarrow> []) (ag_attempts a));
               a = set_attempts a (\<lambda>m. am_task m = tk_id t \<and> am_state m = ''running'')
                 (\<lambda>m. m\<lparr>am_state := ''superseded'', am_locked := None, am_error := ''cancelled_by_operator'', am_message := reason,
                        am_summary := reason\<rparr>);
               a = set_task a (tk_id t) (moved ''cancelled'') in
        bind_r (queue_cancellations (tk_id t) jobs a) (\<lambda>a.
        Inr (ag_audit a (tk_tenant t) actor ''agent_task.cancelled'' (tk_id t)
               [(''previous_state'', PStr (tk_state t)), (''reason'', PStr reason), (''revision'', PInt (tk_revision t + 1))],
             moved ''cancelled'' t)))"

definition CancelAgentTask ::
  "agents \<Rightarrow> string \<Rightarrow> string \<Rightarrow> uuid \<Rightarrow> int \<Rightarrow> string \<Rightarrow> agent_error + (agents \<times> AgentTask)" where
  "CancelAgentTask a actor tenantSlug taskID revision reason =
     (let reason = TrimSpace reason in
      if taskID = 0 \<or> \<not> (revision > 0 \<and> len (TrimSpace reason) \<ge> 3 \<and> len (TrimSpace reason) \<le> 1000) then Inl ErrInvalidAgentTask
      else bind_r (agent_member a actor tenantSlug canManageAgentTasks) (\<lambda>(tenantID, role).
        bind_r (tenant_task a tenantID taskID) (\<lambda>t.
        if tk_revision t \<noteq> revision \<or> \<not> agentTaskStateCancellable (tk_state t) then Inl (AgStore ErrConflict)
        else cancelAgentTaskTx a t actor reason)))"

section \<open>Sources\<close>

text \<open>The recursive query over the parents of a task: at most three edges, within one repository.\<close>

fun ancestry :: "nat \<Rightarrow> AgentTask list \<Rightarrow> AgentTask \<Rightarrow> AgentTask list" where
  "ancestry 0 ts t = []"
| "ancestry (Suc n) ts t =
     (case tk_parent t of None \<Rightarrow> []
      | Some i \<Rightarrow>
        (case find (\<lambda>q. tk_id q = i \<and> tk_tenant q = tk_tenant t \<and> tk_provider q = tk_provider t \<and> tk_api q = tk_api t
                \<and> tk_repository q = tk_repository t) ts of
           None \<Rightarrow> [] | Some q \<Rightarrow> q # ancestry n ts q))"

definition agentFeedbackTargetBranch :: "agents \<Rightarrow> AgentTask \<Rightarrow> string option" where
  "agentFeedbackTargetBranch a t =
     map_option tk_base_ref
       (find (\<lambda>q. (tk_origin q = ''issue'' \<or> tk_origin q = ''campaign'') \<and> tk_parent q = None \<and> tk_source_state q = ''ready'')
          (ancestry 3 (ag_tasks a) t))"

definition issue_evidence :: "agent_env \<Rightarrow> AgentTask \<Rightarrow> AgentTaskSourceSnapshot \<Rightarrow> bool" where
  "issue_evidence e t s =
     (case ss_issue s of None \<Rightarrow> False
      | Some i \<Rightarrow>
        if ss_feedback s \<noteq> None \<or> TrimSpace (si_title i) = '''' \<or> si_revision i \<noteq> tk_origin_revision t then False
        else (if tk_requested_by t = ''policy:auto''
              then AgentAutomaticIssueRevision (ae_sha e) (tk_provider t) (tk_api t) (tk_repository t) (tk_number t) (si_title i) (si_body i)
                     (si_labels i)
              else AgentIssueRevision (ae_sha e) (tk_provider t) (tk_api t) (tk_repository t) (tk_number t) (si_title i) (si_body i))
             = tk_origin_revision t)"

definition feedback_evidence :: "agent_env \<Rightarrow> agents \<Rightarrow> AgentTask \<Rightarrow> AgentTaskSourceSnapshot \<Rightarrow> agent_error + unit" where
  "feedback_evidence e a t s =
     (case ss_feedback s of None \<Rightarrow> Inl ErrInvalidAgentTask
      | Some f \<Rightarrow>
        if ss_issue s \<noteq> None \<or> TrimSpace (sf_instruction f) = '''' \<or> ss_ref s \<noteq> tk_branch t
           \<or> \<not> EqualFold (ss_sha s) (tk_origin_revision t) then Inl ErrInvalidAgentTask
        else if agentFeedbackTargetBranch a t \<noteq> Some (ss_target s) then Inl ErrInvalidAgentTask
        else case find (\<lambda>c. fc_child c = Some (tk_id t) \<and> fc_state c = ''received'') (ag_feedback a) of
          None \<Rightarrow> Inl (ErrAgentStatement ''load agent feedback evidence'')
        | Some c \<Rightarrow>
          if binding_internal (fc_binding c) \<and> \<not> internalReviewBindingMatches (ae_sha e) (ae_text e) f (fc_binding c)
          then Inl ErrInvalidAgentTask
          else if sf_comment f \<noteq> fb_comment (fc_binding c) \<or> sf_actor f \<noteq> fb_actor (fc_binding c)
                  \<or> ae_sha e (TrimSpace (sf_instruction f)) \<noteq> fb_sha (fc_binding c) then Inl ErrInvalidAgentTask
          else Inr ())"

definition source_evidence :: "agent_env \<Rightarrow> agents \<Rightarrow> AgentTask \<Rightarrow> AgentTaskSourceSnapshot \<Rightarrow> agent_error + unit" where
  "source_evidence e a t s =
     (if tk_origin t = ''issue'' then (if issue_evidence e t s then Inr () else Inl ErrInvalidAgentTask)
      else if tk_origin t = ''pull_request'' then feedback_evidence e a t s
      else Inl ErrInvalidAgentTask)"

text \<open>The text that is classified: the issue, or the comment on the draft.\<close>

definition classified_text :: "AgentTaskSourceSnapshot \<Rightarrow> (string \<times> string \<times> string list) option" where
  "classified_text s =
     (case ss_issue s of Some i \<Rightarrow> Some (si_title i, si_body i, si_labels i)
      | None \<Rightarrow> (case ss_feedback s of
          Some f \<Rightarrow> Some (''Revise existing Draft PR'', FeedbackClassificationBody (sf_instruction f), []) | None \<Rightarrow> None))"

definition classify_source ::
  "agent_env \<Rightarrow> agents \<Rightarrow> AgentTask \<Rightarrow> AgentTaskSourceSnapshot \<Rightarrow> agent_error + (agents \<times> AgentTask)" where
  "classify_source e a t s =
     (case classified_text s of None \<Rightarrow> Inr (a, t)
      | Some (title, body, labels) \<Rightarrow>
        (case ApplySignal (Classify (ae_sha e) t title body labels) (ss_signal s) (tk_backend t) of
           None \<Rightarrow> Inl (ErrAgentStatement ''validate frozen decision model evidence'')
         | Some c \<Rightarrow>
           bind_r (recordAgentTaskClassification a t c) (\<lambda>a.
             if cl_decision c = ''rejected'' then Inr (set_task a (tk_id t) (moved ''rejected''), moved ''rejected'' t) else Inr (a, t))))"

definition inherited_criteria :: "agents \<Rightarrow> AgentTask \<Rightarrow> AgentTaskPlanSections \<Rightarrow> agent_error + AgentTaskPlanSections" where
  "inherited_criteria a t s =
     (case tk_parent t of None \<Rightarrow> Inr s
      | Some i \<Rightarrow>
        (case row_by rq_task i (ag_requirements a) of None \<Rightarrow> Inl (ErrAgentStatement ''load inherited requirements'')
         | Some r \<Rightarrow>
           (case find (\<lambda>c. fc_child c = Some (tk_id t)) (ag_feedback a) of None \<Rightarrow> Inl (ErrAgentStatement ''load feedback cycle'')
            | Some c \<Rightarrow>
              Inr (s\<lparr>se_criteria := (if fb_run (fc_binding c) \<noteq> None \<or> fb_kind (fc_binding c) \<noteq> '''' then rq_criteria r
                                    else dedup_seen {} (rq_criteria r @ se_criteria s)),
                     se_source := rq_source r\<rparr>))))"

definition recordGeneratedAgentPlanTx ::
  "agent_env \<Rightarrow> agents \<Rightarrow> AgentTask \<Rightarrow> AgentTaskPlanSections \<Rightarrow> agent_error + (agents \<times> AgentTask)" where
  "recordGeneratedAgentPlanTx e a t sections =
     bind_r (inherited_criteria a t (Normalized sections)) (\<lambda>s.
       if \<not> AgentTaskPlanInput_Valid \<lparr>pi_summary = '''', pi_sections = Some s\<rparr> \<or> se_criteria s = [] then Inl ErrInvalidAgentTaskPlan
       else if list_ex (\<lambda>r. rq_task r = tk_id t) (ag_requirements a) then Inl (ErrAgentStatement ''record requirements'')
       else let a = a\<lparr>ag_requirements := ag_requirements a @
                [\<lparr>rq_task = tk_id t, rq_sha = tk_base_sha t, rq_criteria = se_criteria s, rq_source = se_source s,
                  rq_repository = se_repository s\<rparr>]\<rparr> in
         bind_r (insert_plan e a (tk_id t) 1 (Summary s) s (tk_requested_by t)) (\<lambda>(a, p).
         let a = set_task a (tk_id t) (moved ''awaiting_approval''); t = moved ''awaiting_approval'' t in
         bind_r (queueAgentTaskSourceProviderComment e a t ''plan'') (\<lambda>a.
         Inr (ag_audit a (tk_tenant t) ''agent:planner'' ''agent_task.plan_generated'' (pn_id p)
                [(''source_sha'', PStr (tk_base_sha t)), (''plan_sha256'', PStr (pn_sha p))], t))))"

definition generate_plan ::
  "agent_env \<Rightarrow> agents \<Rightarrow> AgentTask \<Rightarrow> AgentTaskSourceSnapshot \<Rightarrow> agent_error + (agents \<times> AgentTask)" where
  "generate_plan e a t s =
     (case ss_plan s of
        Some g \<Rightarrow>
          if wp_enabled (tk_workflow t) then
            bind_r (latestAgentTaskClassification a (tk_id t)) (\<lambda>c.
              if cl_decision c = ''requires_human'' then
                recordGeneratedAgentPlanTx e a t
                  (g\<lparr>se_source := (case ss_issue s of Some i \<Rightarrow> TrimSpace (si_body i)
                       | None \<Rightarrow> (case ss_feedback s of Some f \<Rightarrow> TrimSpace (sf_instruction f) | None \<Rightarrow> '''')),
                     se_repository := TrimSpace (ss_repository s)\<rparr>)
              else Inr (a, t))
          else Inr (a, t)
      | None \<Rightarrow> Inr (a, t))"

definition captured :: "AgentTaskSourceSnapshot \<Rightarrow> AgentTask \<Rightarrow> AgentTask" where
  "captured s t = t\<lparr>tk_source_state := ''ready'', tk_base_ref := ss_ref s, tk_base_sha := ss_sha s, tk_revision := tk_revision t + 1\<rparr>"

definition RecordAgentTaskSourceSnapshot ::
  "agent_env \<Rightarrow> agents \<Rightarrow> uuid \<Rightarrow> AgentTaskSourceSnapshot \<Rightarrow> agent_error + (agents \<times> AgentTask)" where
  "RecordAgentTaskSourceSnapshot e a taskID snapshot =
     (let s = snapshot\<lparr>ss_ref := TrimSpace (ss_ref snapshot), ss_sha := TrimSpace (ss_sha snapshot)\<rparr> in
      if taskID = 0 \<or> \<not> base_pair_valid (ss_ref s) (ss_sha s) then Inl ErrInvalidAgentTask
      else case row_by tk_id taskID (ag_tasks a) of None \<Rightarrow> Inl (AgStore ErrNotFound)
      | Some t \<Rightarrow>
        if tk_source_state t = ''ready'' then
          if tk_base_ref t \<noteq> ss_ref s \<or> \<not> EqualFold (tk_base_sha t) (ss_sha s) then Inl (AgStore ErrConflict) else Inr (a, t)
        else if tk_source_state t \<noteq> ''pending'' \<or> tk_state t \<noteq> ''received'' then Inl ErrNoQueuedAgentTask
        else bind_r (source_evidence e a t s) (\<lambda>_.
          bind_r (classify_source e (set_task a taskID (captured s)) (captured s t) s) (\<lambda>(a, t).
          bind_r (generate_plan e a t s) (\<lambda>(a, t).
          bind_r (queueAgentTaskSourceProviderComment e a t (if tk_state t = ''awaiting_approval'' then ''plan'' else ''ready'')) (\<lambda>a.
          Inr (ag_audit a (tk_tenant t) ''worker:agent-task-source-admitter'' ''agent_task.source_captured'' (tk_id t)
                 [(''base_ref'', PStr (ss_ref s)), (''base_sha'', PStr (ss_sha s)), (''revision'', PInt (tk_revision t))], t))))))"

definition source_failed :: "AgentTask \<Rightarrow> AgentTask" where
  "source_failed t = t\<lparr>tk_source_state := ''failed'', tk_state := ''needs_attention'', tk_revision := tk_revision t + 1\<rparr>"

definition FailAgentTaskSourceSnapshot ::
  "agent_env \<Rightarrow> agents \<Rightarrow> uuid \<Rightarrow> string \<Rightarrow> string \<Rightarrow> agent_error + agents" where
  "FailAgentTaskSourceSnapshot e a taskID code0 message0 =
     (let code = TrimSpace code0; message = TrimSpace message0 in
      if taskID = 0 \<or> code = '''' \<or> len code > 96 \<or> message = '''' \<or> len message > 2000 then Inl ErrInvalidAgentTask
      else case row_by tk_id taskID (ag_tasks a) of None \<Rightarrow> Inl (AgStore ErrNotFound)
      | Some t \<Rightarrow>
        if tk_source_state t \<noteq> ''pending'' \<or> tk_state t \<noteq> ''received'' then Inr a
        else bind_r (queueAgentTaskSourceProviderComment e (set_task a taskID source_failed) (source_failed t) ''failed'') (\<lambda>a.
          Inr (ag_audit a (tk_tenant t) ''worker:agent-task-source-admitter'' ''agent_task.source_failed'' (tk_id t)
                 [(''code'', PStr code), (''revision'', PInt (tk_revision t + 1))])))"

definition source_requested :: "agents \<Rightarrow> uuid \<Rightarrow> bool" where
  "source_requested a taskID \<longleftrightarrow>
     list_ex (\<lambda>m. om_aggregate m = taskID \<and> om_topic m = ''agent.task.source.resolve.requested'') (ag_outbox a)"

fun expire_unacknowledged :: "gotime \<Rightarrow> AgentTask list \<Rightarrow> agents \<Rightarrow> nat \<Rightarrow> agents \<times> nat" where
  "expire_unacknowledged timeout [] a n = (a, n)"
| "expire_unacknowledged timeout (t # ts) a n =
     (if source_requested a (tk_id t) then expire_unacknowledged timeout ts a n
      else expire_unacknowledged timeout ts
        (ag_audit (set_task a (tk_id t) source_failed) (tk_tenant t) ''worker:agent-task-runner'' ''agent_task.acknowledgement_timeout'' (tk_id t)
           [(''revision'', PInt (tk_revision t + 1)), (''timeout_seconds'', PInt timeout)]) (n + 1))"

text \<open>Durations count nanoseconds.\<close>

definition agent_second :: int where
  "agent_second = 1000000000"

definition ExpireUnacknowledgedAgentTasks :: "agent_env \<Rightarrow> agents \<Rightarrow> int \<Rightarrow> int \<Rightarrow> agent_error + (agents \<times> nat)" where
  "ExpireUnacknowledgedAgentTasks e a limit olderThan =
     (if limit < 1 \<or> limit > 100 \<or> olderThan < 300 * agent_second \<or> olderThan > 86400 * agent_second then Inl ErrInvalidAgentTask
      else let timeout = olderThan div agent_second;
               due = filter (\<lambda>t. tk_state t = ''received'' \<and> tk_source_state t = ''pending'' \<and> tk_created t \<le> ae_now e - timeout * agent_second
                       \<and> \<not> source_requested a (tk_id t)) (ag_tasks a)
           in Inr (expire_unacknowledged timeout (take (nat limit) (sort_key (\<lambda>t. (tk_created t, tk_id t)) due)) a 0))"

text \<open>A retry of the source. The acknowledgement that first released the source is a message with the
  key \<open>KSource\<close>; without it the newest acknowledgement of the task is sent again.\<close>

definition acknowledgement_of :: "AgentTask \<Rightarrow> Installation \<Rightarrow> AgentMessage \<Rightarrow> bool" where
  "acknowledgement_of t i m \<longleftrightarrow>
     om_topic m = ''review.interaction.response'' \<and> (case om_release m of None \<Rightarrow> False | Some (i, _) \<Rightarrow> i = tk_id t) \<and>
     list_all (\<lambda>f. map_of (om_payload m) (fst f) = Some (snd f))
       [(''tenant_id'', PUuid (tk_tenant t)), (''provider'', PStr (tk_provider t)), (''api_base_url'', PStr (tk_api t)),
        (''installation_external_id'', PStr (ins_external i)), (''repository'', PStr (tk_repository t)),
        (''resource_kind'', PStr (if tk_origin t = ''pull_request'' then ''merge_request'' else ''issue'')), (''review_number'', PInt (tk_number t))]"

definition reopened :: "AgentTask \<Rightarrow> AgentTask" where
  "reopened t = t\<lparr>tk_source_state := ''pending'', tk_state := ''received'', tk_revision := tk_revision t + 1\<rparr>"

definition requeue_source ::
  "agents \<Rightarrow> uuid \<Rightarrow> string \<Rightarrow> AgentTask \<Rightarrow> Installation \<Rightarrow> agent_error + (agents \<times> AgentTask)" where
  "requeue_source a tenantID actor t i =
     (let taskID = tk_id t; t' = reopened t; a' = set_task a taskID reopened;
          released = list_ex (\<lambda>m. om_aggregate m = taskID \<and> om_topic m = ''agent.task.source.resolve.requested'' \<and> om_key m = KSource taskID)
            (ag_outbox a) in
      if released then
        let m = \<lparr>om_aggregate = taskID, om_topic = ''agent.task.source.resolve.requested'', om_key = KSourceRetry taskID (tk_revision t'),
                 om_payload = [(''task_id'', PUuid taskID), (''task_revision'', PInt (tk_revision t'))], om_release = None\<rparr> in
        if om_key m \<in> om_key ` set (ag_outbox a) then Inl (ErrAgentStatement ''queue agent task source retry'')
        else Inr (ag_audit (ag_send a' m) tenantID actor ''agent_task.source_retry_requested'' taskID
               [(''task_revision'', PInt (tk_revision t'))], t')
      else case rev (filter (acknowledgement_of t i) (ag_outbox a)) of [] \<Rightarrow> Inl (AgStore ErrConflict)
      | ack # _ \<Rightarrow>
        let m = ack\<lparr>om_key := KAckRetry taskID (tk_revision t'), om_release := Some (taskID, tk_revision t')\<rparr> in
        if om_key m \<in> om_key ` set (ag_outbox a) then Inl (ErrAgentStatement ''queue agent task acknowledgement retry'')
        else Inr (ag_audit (ag_send a' m) tenantID actor ''agent_task.acknowledgement_retry_requested'' taskID
               [(''task_revision'', PInt (tk_revision t'))], t'))"

definition RetryAgentTaskSource ::
  "agents \<Rightarrow> string \<Rightarrow> string \<Rightarrow> uuid \<Rightarrow> int \<Rightarrow> agent_error + (agents \<times> AgentTask)" where
  "RetryAgentTaskSource a actor tenantSlug taskID expectedRevision =
     (if taskID = 0 \<or> expectedRevision < 1 then Inl ErrInvalidAgentTask
      else bind_r (agent_member a actor tenantSlug canManageAgentTasks) (\<lambda>(tenantID, role).
        bind_r (tenant_task a tenantID taskID) (\<lambda>t.
        if tk_revision t \<noteq> expectedRevision then Inl (AgStore ErrRevisionConflict)
        else if tk_source_state t \<noteq> ''failed'' \<or> tk_state t \<noteq> ''needs_attention'' \<or> tk_base_ref t \<noteq> '''' \<or> tk_base_sha t \<noteq> ''''
        then Inl (AgStore ErrConflict)
        else if list_ex (\<lambda>p. pn_task p = taskID) (ag_plans a) \<or> list_ex (\<lambda>m. am_task m = taskID) (ag_attempts a) then Inl (AgStore ErrConflict)
        else case find (\<lambda>i. ins_tenant i = tenantID \<and> ins_id i = tk_installation t) (db_installations (gv_db (ag_gov a))) of
          None \<Rightarrow> Inl ErrUnknownInstallation
        | Some i \<Rightarrow>
          if \<not> installation_usable i \<or> ins_api i \<noteq> tk_api t then Inl ErrUnknownInstallation
          else if \<not> repositoryScopeAllows (installation_scope a (ins_id i)) (tk_repository t) then Inl (AgStore ErrForbidden)
          else requeue_source a tenantID actor t i)))"

end
