(* ===== verification/Agent_Execution.thy ===== *)
theory Agent_Execution
  imports Agent_Tasks
begin

text \<open>
  The execution of an approved plan, \<open>internal/store/agent_tasks.go\<close>,
  \<open>internal/store/agent_task_preflight.go\<close>, \<open>internal/store/agent_workflow.go\<close> and the admission of
  \<open>internal/store/agent_campaigns.go\<close>: a worker leases an attempt for the exact approved plan, binds it to
  a job of the isolated adapter, the adapter passes a one-use start gate and reports heartbeats, a
  checkpoint before its provider write and a terminal result; the watchdog ends attempts that lost
  their lease.

  Durations count nanoseconds. \<open>NULL\<close> columns are \<open>None\<close>: a comparison with \<open>NULL\<close> is not true. The
  worker's clock (\<open>ae_clock\<close>) and the time of the transaction (\<open>ae_now\<close>) are different values.
\<close>

section \<open>Leasing an attempt\<close>

record AgentTaskExecutionRequest =
  xr_task :: uuid
  xr_task_revision :: int
  xr_plan :: uuid
  xr_plan_revision :: int
  xr_sha :: string

definition AgentTaskExecutionRequest_Valid :: "AgentTaskExecutionRequest \<Rightarrow> bool" where
  "AgentTaskExecutionRequest_Valid r \<longleftrightarrow>
     xr_task r \<noteq> 0 \<and> xr_plan r \<noteq> 0 \<and> xr_task_revision r > 0 \<and> xr_plan_revision r > 0 \<and> len (TrimSpace (xr_sha r)) = 64"

definition agentTaskLeaseFloor :: int where
  "agentTaskLeaseFloor = 15 * agent_second"

text \<open>The targets of a campaign that cover the branch of a task, and the running attempts of other
  tasks that count against it.\<close>

definition covers_branch :: "agents \<Rightarrow> AgentCampaignTarget \<Rightarrow> AgentTask \<Rightarrow> bool" where
  "covers_branch a ct t \<longleftrightarrow>
     list_ex (\<lambda>root. ct_task ct = Some (tk_id root) \<and> tk_tenant root = tk_tenant t \<and> tk_branch root = tk_branch t) (ag_tasks a)"

definition running_elsewhere :: "agents \<Rightarrow> AgentTask \<Rightarrow> (AgentTask \<Rightarrow> bool) \<Rightarrow> (AgentTaskAttempt \<times> AgentTask) list" where
  "running_elsewhere a t p =
     filter (\<lambda>(m, q). am_task m = tk_id q \<and> am_state m = ''running'' \<and> tk_id q \<noteq> tk_id t \<and> p q)
       (List.product (ag_attempts a) (ag_tasks a))"

definition same_repository :: "AgentTask \<Rightarrow> AgentTask \<Rightarrow> bool" where
  "same_repository t q \<longleftrightarrow> tk_tenant q = tk_tenant t \<and> tk_provider q = tk_provider t \<and> tk_api q = tk_api t \<and> tk_repository q = tk_repository t"

definition campaignExecutionAllowedTx :: "agents \<Rightarrow> AgentTask \<Rightarrow> bool" where
  "campaignExecutionAllowedTx a t =
     (case filter (\<lambda>(ct, c). ca_id c = ct_campaign ct \<and> covers_branch a ct t) (List.product (ag_targets a) (ag_campaigns a)) of
        [] \<Rightarrow> running_elsewhere a t (\<lambda>q. same_repository t q \<and> list_ex (\<lambda>ct. covers_branch a ct q) (ag_targets a)) = []
      | (_, c) # _ \<Rightarrow>
          let running = concat (map (\<lambda>(m, q). filter (\<lambda>ct. ct_campaign ct = ca_id c \<and> covers_branch a ct q) (ag_targets a))
                          (running_elsewhere a t (\<lambda>_. True)))
          in ca_state c = ''active'' \<and> len running < ca_concurrency c \<and> running_elsewhere a t (same_repository t) = [])"

definition queueAgentTaskAttemptStatus :: "agents \<Rightarrow> uuid \<Rightarrow> uuid \<Rightarrow> agents" where
  "queueAgentTaskAttemptStatus a taskID attemptID = queueAgentTaskAttemptProviderComment a taskID attemptID ''needs-attention''"

definition ended :: "string \<Rightarrow> string \<Rightarrow> string \<Rightarrow> AgentTaskAttempt \<Rightarrow> AgentTaskAttempt" where
  "ended state code message m = m\<lparr>am_state := state, am_locked := None, am_error := code, am_message := message\<rparr>"

text \<open>\<open>attemptID = 0\<close> is \<open>uuid.Nil\<close>: there is no attempt to stop.\<close>

definition stopAgentWorkflowBudgetTx :: "agents \<Rightarrow> AgentTask \<Rightarrow> uuid \<Rightarrow> agents" where
  "stopAgentWorkflowBudgetTx a t attemptID =
     (let a = set_task a (tk_id t) (moved ''needs_attention'');
          a = (if attemptID \<noteq> 0 then
                 queueAgentTaskAttemptStatus
                   (set_attempts a (\<lambda>m. am_id m = attemptID \<and> am_job m = None)
                     (ended ''needs_attention'' ''agent_workflow_budget_exhausted'' ''The frozen branch execution budget is exhausted''))
                   (tk_id t) attemptID
               else a)
      in ag_audit a (tk_tenant t) ''worker:agent-task-runner'' ''agent_task.workflow_budget_exhausted'' (tk_id t)
           [(''branch'', PStr (tk_branch t)), (''max_task_attempts'', PInt (wp_attempts (tk_workflow t)))])"

definition canReclaimAgentAttempt :: "AgentTaskAttempt \<Rightarrow> int \<Rightarrow> gotime \<Rightarrow> bool" where
  "canReclaimAgentAttempt m maxAttempts now \<longleftrightarrow>
     am_state m = ''running'' \<and> (case am_locked m of None \<Rightarrow> False | Some l \<Rightarrow> l < now) \<and> am_attempt m < maxAttempts
     \<and> (am_job m = None \<or> am_job m = Some '''')"

definition lease_until :: "agent_env \<Rightarrow> int \<Rightarrow> AgentTask \<Rightarrow> gotime" where
  "lease_until e lease t = min (ae_now e + lease) (ae_now e + tk_max_seconds t * agent_second)"

definition new_attempt :: "agent_env \<Rightarrow> uuid \<Rightarrow> AgentTaskExecutionRequest \<Rightarrow> AgentTask \<Rightarrow> string \<Rightarrow> int \<Rightarrow> AgentTaskAttempt" where
  "new_attempt e i r t workerID lease =
     \<lparr>am_id = i, am_task = xr_task r, am_plan = xr_plan r, am_task_revision = xr_task_revision r, am_plan_revision = xr_plan_revision r,
      am_attempt = 1, am_state = ''running'', am_worker = Some workerID, am_job = None, am_started = None,
      am_locked = Some (lease_until e lease t), am_deadline = Some (ae_now e + tk_max_seconds t * agent_second),
      am_error = '''', am_message = '''', am_summary = '''', am_branch = '''', am_head = '''', am_url = '''', am_number = 0,
      am_patch = '''', am_files = 0, am_bytes = 0, am_profile = '''', am_output = '''', am_output_bytes = 0\<rparr>"

text \<open>A reclaimed lease. The columns of the verification are not reset.\<close>

definition reclaimed :: "agent_env \<Rightarrow> AgentTask \<Rightarrow> string \<Rightarrow> int \<Rightarrow> AgentTaskAttempt \<Rightarrow> AgentTaskAttempt" where
  "reclaimed e t workerID lease m =
     m\<lparr>am_attempt := am_attempt m + 1, am_worker := Some workerID, am_locked := Some (lease_until e lease t),
       am_deadline := Some (ae_now e + tk_max_seconds t * agent_second), am_error := '''', am_message := '''', am_summary := '''',
       am_branch := '''', am_head := '''', am_url := '''', am_number := 0, am_patch := '''', am_files := 0, am_bytes := 0,
       am_job := None, am_started := None\<rparr>"

definition finish_claim ::
  "agents \<Rightarrow> AgentTaskExecutionRequest \<Rightarrow> AgentTask \<Rightarrow> bool \<Rightarrow> string \<Rightarrow> AgentTaskAttempt \<Rightarrow> agents \<times> AgentTaskAttempt option" where
  "finish_claim a r t queued workerID m =
     (let a = (if queued then set_task a (tk_id t) (moved ''executing'') else a)
      in (ag_audit a (tk_tenant t) (''worker:'' @ workerID) ''agent_task.attempt_started'' (am_id m)
            [(''attempt'', PInt (am_attempt m)), (''task_revision'', PInt (xr_task_revision r)),
             (''plan_revision'', PInt (xr_plan_revision r)), (''max_attempts'', PInt (tk_max_attempts t))], Some m))"

definition approved_request :: "agents \<Rightarrow> AgentTaskExecutionRequest \<Rightarrow> bool" where
  "approved_request a r \<longleftrightarrow>
     (case find (\<lambda>p. pn_id p = xr_plan r \<and> pn_task p = xr_task r \<and> pn_revision p = xr_plan_revision r \<and> pn_state p = ''approved''
            \<and> pn_revision p = max_plan_revision a (xr_task r)) (ag_plans a) of
        None \<Rightarrow> False | Some p \<Rightarrow> pn_sha p = xr_sha r)"

text \<open>The result \<open>None\<close> is the error \<open>ErrNoQueuedAgentTask\<close> after a commit, which an exhausted budget
  leads to.\<close>

definition lease_attempt ::
  "agent_env \<Rightarrow> agents \<Rightarrow> string \<Rightarrow> AgentTaskExecutionRequest \<Rightarrow> int \<Rightarrow> AgentTask \<Rightarrow> bool \<Rightarrow>
     agent_error + (agents \<times> AgentTaskAttempt option)" where
  "lease_attempt e a workerID r lease t queued =
     (case find (\<lambda>m. am_task m = xr_task r \<and> am_task_revision m = xr_task_revision r \<and> am_plan m = xr_plan r
              \<and> am_plan_revision m = xr_plan_revision r) (ag_attempts a) of
        None \<Rightarrow>
          if \<not> is_ok (checkAgentWorkflowBudgetTx a t) then Inr (stopAgentWorkflowBudgetTx a t 0, None)
          else let (i, a) = ag_fresh a; m = new_attempt e i r t workerID lease in
            Inr (finish_claim (a\<lparr>ag_attempts := ag_attempts a @ [m]\<rparr>) r t queued workerID m)
      | Some m \<Rightarrow>
          if \<not> canReclaimAgentAttempt m (tk_max_attempts t) (ae_clock e) then Inl ErrNoQueuedAgentTask
          else if \<not> is_ok (checkAgentWorkflowBudgetTx a t) then Inr (stopAgentWorkflowBudgetTx a t (am_id m), None)
          else let m' = reclaimed e t workerID lease m in
            Inr (finish_claim (set_attempts a (\<lambda>n. am_id n = am_id m) (\<lambda>_. m')) r t queued workerID m'))"

definition ClaimAgentTaskAttempt ::
  "agent_env \<Rightarrow> agents \<Rightarrow> string \<Rightarrow> AgentTaskExecutionRequest \<Rightarrow> int \<Rightarrow> agent_error + (agents \<times> AgentTaskAttempt option)" where
  "ClaimAgentTaskAttempt e a worker r lease =
     (let workerID = TrimSpace worker in
      if workerID = '''' \<or> \<not> AgentTaskExecutionRequest_Valid r \<or> lease < agentTaskLeaseFloor then Inl ErrInvalidAgentTask
      else case row_by tk_id (xr_task r) (ag_tasks a) of None \<Rightarrow> Inl ErrNoQueuedAgentTask
      | Some t \<Rightarrow>
        if \<not> campaignExecutionAllowedTx a t then Inl ErrNoQueuedAgentTask
        else let queued = (tk_state t = ''execution_queued'' \<and> tk_revision t = xr_task_revision r);
                 reclaiming = (tk_state t = ''executing'' \<and> tk_revision t = xr_task_revision r + 1) in
          if \<not> queued \<and> \<not> reclaiming then Inl ErrNoQueuedAgentTask
          else bind_r (latestAgentTaskClassification a (tk_id t)) (\<lambda>c.
            if cl_decision c \<noteq> ''requires_human'' then Inl ErrNoQueuedAgentTask
            else if tk_source_state t \<noteq> ''ready'' \<or> \<not> base_pair_valid (tk_base_ref t) (tk_base_sha t) then Inl ErrNoQueuedAgentTask
            else if \<not> approved_request a r then Inl ErrNoQueuedAgentTask
            else lease_attempt e a workerID r lease t queued))"

section \<open>Holding a lease\<close>

definition lease_held :: "agent_env \<Rightarrow> AgentTaskAttempt \<Rightarrow> bool" where
  "lease_held e m \<longleftrightarrow> (case am_locked m of None \<Rightarrow> False | Some l \<Rightarrow> l \<ge> ae_now e)"

definition before_deadline :: "agent_env \<Rightarrow> AgentTaskAttempt \<Rightarrow> bool" where
  "before_deadline e m \<longleftrightarrow> (case am_deadline m of None \<Rightarrow> True | Some d \<Rightarrow> d \<ge> ae_now e)"

definition renewed :: "agent_env \<Rightarrow> int \<Rightarrow> AgentTaskAttempt \<Rightarrow> AgentTaskAttempt" where
  "renewed e lease m =
     m\<lparr>am_locked := Some (case am_deadline m of None \<Rightarrow> ae_now e + lease | Some d \<Rightarrow> min (ae_now e + lease) d)\<rparr>"

definition worker_lease :: "agent_env \<Rightarrow> uuid \<Rightarrow> string \<Rightarrow> AgentTaskAttempt \<Rightarrow> bool" where
  "worker_lease e attemptID workerID m \<longleftrightarrow>
     am_id m = attemptID \<and> am_state m = ''running'' \<and> am_worker m = Some workerID \<and> lease_held e m"

definition MarkAgentTaskAttemptNeedsAttention ::
  "agent_env \<Rightarrow> agents \<Rightarrow> uuid \<Rightarrow> string \<Rightarrow> string \<Rightarrow> string \<Rightarrow> agent_error + agents" where
  "MarkAgentTaskAttemptNeedsAttention e a attemptID worker code0 message0 =
     (let workerID = TrimSpace worker; code = TrimSpace code0; message = TrimSpace message0 in
      if attemptID = 0 \<or> workerID = '''' \<or> code = '''' \<or> message = '''' \<or> len code > 96 \<or> len message > 2000 then Inl ErrInvalidAgentTask
      else case find (worker_lease e attemptID workerID) (ag_attempts a) of None \<Rightarrow> Inl ErrAgentTaskClaimLost
      | Some m \<Rightarrow>
        let a = set_attempts a (\<lambda>n. am_id n = attemptID) (ended ''needs_attention'' code message);
            a = a\<lparr>ag_tasks := update_where (\<lambda>t. tk_id t = am_task m \<and> tk_state t = ''executing'') (moved ''needs_attention'') (ag_tasks a)\<rparr>;
            attached = (case am_job m of None \<Rightarrow> False | Some j \<Rightarrow> j \<noteq> '''');
            a = queueAgentTaskAttemptStatus a (am_task m) attemptID in
        bind_r (if attached then queueAgentAdapterCancellation a (am_task m) attemptID (the (am_job m)) else Inr a) (\<lambda>a.
        Inr (ag_audit a (case row_by tk_id (am_task m) (ag_tasks a) of None \<Rightarrow> 0 | Some t \<Rightarrow> tk_tenant t) (''worker:'' @ workerID)
               ''agent_task.attempt_needs_attention'' attemptID [(''error_code'', PStr code)])))"

definition RenewAgentTaskAttemptLease :: "agent_env \<Rightarrow> agents \<Rightarrow> uuid \<Rightarrow> string \<Rightarrow> int \<Rightarrow> agent_error + agents" where
  "RenewAgentTaskAttemptLease e a attemptID worker lease =
     (let workerID = TrimSpace worker in
      if attemptID = 0 \<or> workerID = '''' \<or> lease < agentTaskLeaseFloor then Inl ErrInvalidAgentTask
      else if list_ex (\<lambda>m. worker_lease e attemptID workerID m \<and> before_deadline e m) (ag_attempts a)
      then Inr (set_attempts a (\<lambda>m. worker_lease e attemptID workerID m \<and> before_deadline e m) (renewed e lease))
      else Inl ErrAgentTaskClaimLost)"

text \<open>The job identifiers are unique in the table.\<close>

definition AttachAgentTaskAdapterJob :: "agent_env \<Rightarrow> agents \<Rightarrow> uuid \<Rightarrow> string \<Rightarrow> string \<Rightarrow> agent_error + agents" where
  "AttachAgentTaskAdapterJob e a attemptID worker job =
     (let workerID = TrimSpace worker; jobID = TrimSpace job in
      if attemptID = 0 \<or> workerID = '''' \<or> \<not> validAgentAdapterJobID jobID then Inl ErrInvalidAgentTask
      else if \<not> list_ex (\<lambda>m. worker_lease e attemptID workerID m \<and> am_job m = None) (ag_attempts a) then Inl ErrAgentTaskClaimLost
      else if list_ex (\<lambda>m. am_id m \<noteq> attemptID \<and> am_job m = Some jobID) (ag_attempts a) then Inl (AgStore ErrConflict)
      else Inr (set_attempts a (\<lambda>m. worker_lease e attemptID workerID m \<and> am_job m = None) (\<lambda>m. m\<lparr>am_job := Some jobID\<rparr>)))"

definition PendingAgentTaskAdapterStart ::
  "agent_env \<Rightarrow> agents \<Rightarrow> string \<Rightarrow> AgentTaskExecutionRequest \<Rightarrow> agent_error + AgentTaskAttempt" where
  "PendingAgentTaskAdapterStart e a worker r =
     (let workerID = TrimSpace worker in
      if workerID = '''' \<or> \<not> AgentTaskExecutionRequest_Valid r then Inl ErrInvalidAgentTask
      else case find (\<lambda>m. am_task m = xr_task r \<and> am_task_revision m = xr_task_revision r \<and> am_plan m = xr_plan r
               \<and> am_plan_revision m = xr_plan_revision r \<and> am_state m = ''running'' \<and> am_worker m = Some workerID \<and> am_job m \<noteq> None
               \<and> lease_held e m \<and> before_deadline e m \<and> am_started m = None
               \<and> list_ex (\<lambda>t. tk_id t = am_task m \<and> tk_state t = ''executing'' \<and> tk_revision t - 1 = xr_task_revision r) (ag_tasks a)
               \<and> list_ex (\<lambda>p. pn_id p = am_plan m \<and> pn_task p = am_task m \<and> pn_state p = ''approved'' \<and> pn_revision p = xr_plan_revision r
                    \<and> pn_sha p = xr_sha r) (ag_plans a)) (ag_attempts a) of
        None \<Rightarrow> Inl ErrNoQueuedAgentTask | Some m \<Rightarrow> Inr m)"

definition startable :: "agent_env \<Rightarrow> uuid \<Rightarrow> string \<Rightarrow> AgentTaskAttempt \<Rightarrow> bool" where
  "startable e attemptID jobID m \<longleftrightarrow>
     am_id m = attemptID \<and> am_job m = Some jobID \<and> am_state m = ''running'' \<and> lease_held e m \<and> before_deadline e m \<and> am_started m = None"

definition ClaimAgentTaskAdapterStart :: "agent_env \<Rightarrow> agents \<Rightarrow> uuid \<Rightarrow> string \<Rightarrow> agent_error + agents" where
  "ClaimAgentTaskAdapterStart e a attemptID job =
     (let jobID = TrimSpace job in
      if attemptID = 0 \<or> \<not> validAgentAdapterJobID jobID then Inl ErrInvalidAgentTask
      else case find (startable e attemptID jobID) (ag_attempts a) of None \<Rightarrow> Inl ErrAgentTaskClaimLost
      | Some m \<Rightarrow>
        let a = set_attempts a (startable e attemptID jobID) (\<lambda>m. m\<lparr>am_started := Some (ae_now e)\<rparr>) in
        Inr (case row_by tk_id (am_task m) (ag_tasks a) of None \<Rightarrow> a
             | Some t \<Rightarrow> ag_audit a (tk_tenant t) ''agent-adapter'' ''agent_task.adapter_started'' attemptID [(''adapter_job_id'', PStr jobID)]))"

definition HoldAgentTaskExecutionForReadiness ::
  "agents \<Rightarrow> string \<Rightarrow> AgentTaskExecutionRequest \<Rightarrow> agent_error + agents" where
  "HoldAgentTaskExecutionForReadiness a worker r =
     (let workerID = TrimSpace worker in
      if workerID = '''' \<or> \<not> AgentTaskExecutionRequest_Valid r then Inl ErrInvalidAgentTask
      else case row_by tk_id (xr_task r) (ag_tasks a) of None \<Rightarrow> Inl ErrNoQueuedAgentTask
      | Some t \<Rightarrow>
        if tk_state t \<noteq> ''execution_queued'' \<or> tk_revision t \<noteq> xr_task_revision r then Inl ErrNoQueuedAgentTask
        else if list_ex (\<lambda>p. pn_id p = xr_plan r \<and> pn_task p = xr_task r \<and> pn_revision p = xr_plan_revision r \<and> pn_sha p = xr_sha r
                    \<and> pn_state p = ''approved'') (ag_plans a)
                \<and> \<not> list_ex (\<lambda>m. am_task m = xr_task r \<and> am_task_revision m = xr_task_revision r \<and> am_plan m = xr_plan r
                    \<and> am_plan_revision m = xr_plan_revision r) (ag_attempts a)
        then Inr (ag_audit (set_task a (tk_id t) (moved ''needs_attention'')) (tk_tenant t) (''worker:'' @ workerID)
               ''agent_task.execution_preflight_blocked'' (tk_id t)
               [(''code'', PStr ''agent_execution_preflight_blocked''), (''task_revision'', PInt (tk_revision t + 1)),
                (''plan_revision'', PInt (xr_plan_revision r)), (''plan_sha256'', PStr (xr_sha r))])
        else Inl ErrNoQueuedAgentTask)"

section \<open>The watchdog\<close>

definition expired_code :: "agent_env \<Rightarrow> AgentTaskAttempt \<Rightarrow> string" where
  "expired_code e m = (case am_deadline m of
     Some d \<Rightarrow> if d \<le> ae_now e then ''agent_execution_deadline_exceeded'' else ''agent_adapter_lease_expired''
   | None \<Rightarrow> ''agent_adapter_lease_expired'')"

definition attempt_expired :: "agent_env \<Rightarrow> AgentTaskAttempt \<Rightarrow> bool" where
  "attempt_expired e m \<longleftrightarrow>
     am_state m = ''running'' \<and> ((case am_locked m of None \<Rightarrow> False | Some l \<Rightarrow> l < ae_now e)
       \<or> (case am_deadline m of None \<Rightarrow> False | Some d \<Rightarrow> d \<le> ae_now e))"

text \<open>\<open>LEAST\<close> ignores \<open>NULL\<close>; a running attempt has a lease.\<close>

definition expiry_order :: "AgentTaskAttempt \<Rightarrow> gotime \<times> uuid" where
  "expiry_order m = (let l = (case am_locked m of None \<Rightarrow> 0 | Some l \<Rightarrow> l) in
     (min l (case am_deadline m of None \<Rightarrow> l | Some d \<Rightarrow> d), am_id m))"

definition expired_attempts :: "agent_env \<Rightarrow> agents \<Rightarrow> int \<Rightarrow> AgentTaskAttempt list" where
  "expired_attempts e a limit = take (nat limit) (sort_key expiry_order (filter (attempt_expired e) (ag_attempts a)))"

definition expire_attempt :: "agent_env \<Rightarrow> AgentTaskAttempt \<Rightarrow> string \<Rightarrow> agents \<Rightarrow> agent_error + agents" where
  "expire_attempt e m jobID a =
     (let code = expired_code e m;
          message = (if code = ''agent_execution_deadline_exceeded''
             then ''The approved maximum execution time elapsed. The adapter lease was revoked and no retry or provider write was started automatically.''
             else ''The isolated adapter did not renew its execution lease before the deadline. No retry or provider write was started automatically.'');
          a = set_attempts a (\<lambda>n. am_id n = am_id m \<and> am_state n = ''running'') (\<lambda>n. (ended ''needs_attention'' code message n)\<lparr>am_summary := message\<rparr>);
          a = a\<lparr>ag_tasks := update_where (\<lambda>t. tk_id t = am_task m \<and> tk_state t = ''executing'') (moved ''needs_attention'') (ag_tasks a)\<rparr>;
          a = queueAgentTaskAttemptStatus a (am_task m) (am_id m) in
      bind_r (if jobID \<noteq> '''' then queueAgentAdapterCancellation a (am_task m) (am_id m) jobID else Inr a) (\<lambda>a.
      Inr (ag_audit a (case row_by tk_id (am_task m) (ag_tasks a) of None \<Rightarrow> 0 | Some t \<Rightarrow> tk_tenant t) ''worker:agent-task-reaper''
             ''agent_task.attempt_expired'' (am_id m) [(''adapter_job_id'', PStr jobID), (''code'', PStr code)])))"

fun expire_all :: "agent_env \<Rightarrow> (AgentTaskAttempt \<times> string) list \<Rightarrow> agents \<Rightarrow> agent_error + agents" where
  "expire_all e [] a = Inr a"
| "expire_all e ((m, jobID) # rest) a = bind_r (expire_attempt e m jobID a) (expire_all e rest)"

text \<open>The rows are scanned first: the column \<open>adapter_job_id\<close> is scanned into a Go \<open>string\<close>, which
  \<open>pgx\<close> refuses for \<open>NULL\<close>.\<close>

fun scan_expired :: "AgentTaskAttempt list \<Rightarrow> agent_error + (AgentTaskAttempt \<times> string) list" where
  "scan_expired [] = Inr []"
| "scan_expired (m # ms) =
     (case am_job m of None \<Rightarrow> Inl (ErrAgentStatement ''scan expired agent task attempt'')
      | Some j \<Rightarrow> bind_r (scan_expired ms) (\<lambda>rest. Inr ((m, j) # rest)))"

definition ExpireAgentTaskAttempts :: "agent_env \<Rightarrow> agents \<Rightarrow> int \<Rightarrow> agent_error + (agents \<times> nat)" where
  "ExpireAgentTaskAttempts e a limit =
     (if limit < 1 \<or> limit > 100 then Inl ErrInvalidAgentTask
      else bind_r (scan_expired (expired_attempts e a limit)) (\<lambda>rows.
        bind_r (expire_all e rows a) (\<lambda>a. Inr (a, length rows))))"

section \<open>Callbacks\<close>

definition trimmed_event :: "AgentTaskAdapterEvent \<Rightarrow> AgentTaskAdapterEvent" where
  "trimmed_event v = v\<lparr>ad_job := TrimSpace (ad_job v), ad_delivery := TrimSpace (ad_delivery v), ad_kind := TrimSpace (ad_kind v),
     ad_summary := TrimSpace (ad_summary v), ad_branch := TrimSpace (ad_branch v), ad_head := TrimSpace (ad_head v),
     ad_url := TrimSpace (ad_url v), ad_error := TrimSpace (ad_error v)\<rparr>"

text \<open>The lease as the process sees it.\<close>

definition callback_lease :: "agent_env \<Rightarrow> AgentTaskAdapterEvent \<Rightarrow> AgentTaskAttempt \<Rightarrow> bool" where
  "callback_lease e v m \<longleftrightarrow>
     am_state m = ''running'' \<and> (case am_locked m of None \<Rightarrow> False | Some l \<Rightarrow> \<not> l < ae_clock e)
     \<and> (case am_deadline m of None \<Rightarrow> True | Some d \<Rightarrow> \<not> d < ae_clock e)
     \<and> (case am_job m of None \<Rightarrow> '''' | Some j \<Rightarrow> j) = ad_job v"

definition same_evidence :: "AgentTaskAdapterEvent \<Rightarrow> AgentTaskPublicationCheckpoint \<Rightarrow> bool" where
  "same_evidence v k \<longleftrightarrow>
     ad_branch v = ck_branch k \<and> ad_head v = ck_head k \<and> ad_patch v = ck_patch k \<and> ad_files v = ck_files k \<and> ad_bytes v = ck_bytes k
     \<and> ad_profile v = ck_profile k \<and> ad_output v = ck_output k \<and> ad_output_bytes v = ck_output_bytes k
     \<and> equalCriterionResults (ad_criteria v) (ck_criteria k)"

definition find_checkpoint :: "agents \<Rightarrow> AgentTaskAttempt \<Rightarrow> AgentTaskPublicationCheckpoint option" where
  "find_checkpoint a m = find (\<lambda>k. ck_attempt k = am_id m \<and> ck_number k = am_attempt m) (ag_checkpoints a)"

definition criteria_satisfied :: "agents \<Rightarrow> AgentTaskAttempt \<Rightarrow> AgentTaskAdapterEvent \<Rightarrow> agent_error + unit" where
  "criteria_satisfied a m v =
     (case (row_by tk_id (am_task m) (ag_tasks a), row_by pn_id (am_plan m) (ag_plans a)) of
        (Some t, Some p) \<Rightarrow>
          if wp_evidence (tk_workflow t) \<and> \<not> CriteriaVerified (se_criteria (pn_sections p)) (ad_criteria v) then Inl ErrInvalidAgentTask
          else Inr ()
      | _ \<Rightarrow> Inl (ErrAgentStatement ''load frozen workflow''))"

definition renew_by_callback ::
  "agent_env \<Rightarrow> agents \<Rightarrow> AgentTaskAttempt \<Rightarrow> int \<Rightarrow> agent_error + (agents \<times> AgentTaskAttempt \<times> bool)" where
  "renew_by_callback e a m lease =
     (if \<not> before_deadline e m then Inl ErrAgentTaskClaimLost
      else Inr (set_attempts a (\<lambda>n. am_id n = am_id m) (renewed e lease), renewed e lease m, False))"

definition checkpoint_row :: "agent_env \<Rightarrow> AgentTaskAttempt \<Rightarrow> AgentTaskAdapterEvent \<Rightarrow> AgentTaskPublicationCheckpoint" where
  "checkpoint_row e m v = \<lparr>ck_attempt = am_id m, ck_number = am_attempt m, ck_job = ad_job v, ck_branch = ad_branch v, ck_head = ad_head v,
     ck_patch = ad_patch v, ck_files = ad_files v, ck_bytes = ad_bytes v, ck_profile = ad_profile v, ck_output = ad_output v,
     ck_output_bytes = ad_output_bytes v, ck_criteria = ad_criteria v, ck_recorded = ae_now e\<rparr>"

definition publication_checkpoint ::
  "agent_env \<Rightarrow> agents \<Rightarrow> AgentTaskAttempt \<Rightarrow> AgentTaskAdapterEvent \<Rightarrow> int \<Rightarrow> agent_error + (agents \<times> AgentTaskAttempt \<times> bool)" where
  "publication_checkpoint e a m v lease =
     (case row_by tk_id (am_task m) (ag_tasks a) of None \<Rightarrow> Inl (ErrAgentStatement ''load agent task for publication checkpoint'')
      | Some t \<Rightarrow>
        if ad_branch v \<noteq> tk_branch t then Inl ErrInvalidAgentTask
        else case find_checkpoint a m of
          Some k \<Rightarrow>
            if ck_job k \<noteq> ad_job v \<or> \<not> same_evidence v k then Inl ErrInvalidAgentTask else renew_by_callback e a m lease
        | None \<Rightarrow>
            renew_by_callback e
              (ag_audit (a\<lparr>ag_checkpoints := ag_checkpoints a @ [checkpoint_row e m v]\<rparr>) (tk_tenant t) ''agent-adapter''
                 ''agent_task.publication_checkpoint'' (am_id m)
                 [(''attempt_number'', PInt (am_attempt m)), (''adapter_job_id'', PStr (ad_job v)), (''head_sha'', PStr (ad_head v)),
                  (''patch_sha256'', PStr (ad_patch v))]) m lease)"

definition recordAgentDeliveryTx :: "agent_env \<Rightarrow> agents \<Rightarrow> AgentTask \<Rightarrow> AgentTaskAttempt \<Rightarrow> agent_error + agents" where
  "recordAgentDeliveryTx e a t m =
     (if \<not> wp_enabled (tk_workflow t) then Inr a
      else if am_profile m = '''' \<or> am_output m = '''' then Inl ErrInvalidAgentTask
      else case row_by pn_id (am_plan m) (ag_plans a) of None \<Rightarrow> Inl (ErrAgentStatement ''load delivered plan'')
      | Some p \<Rightarrow> bind_r (scanAgentTaskPlan e p) (\<lambda>p.
          if se_criteria (pn_sections p) = [] then Inl ErrInvalidAgentTaskPlan
          else let others = update_where (\<lambda>c. ac_task c \<noteq> tk_id t \<and> ac_state c \<noteq> ''superseded''
                     \<and> list_ex (\<lambda>q. tk_id q = ac_task c \<and> tk_tenant q = tk_tenant t \<and> tk_branch q = tk_branch t) (ag_tasks a))
                   (\<lambda>c. c\<lparr>ac_state := ''superseded'', ac_reason := ''A newer Agent revision was delivered'', ac_revision := ac_revision c + 1\<rparr>)
                   (ag_acceptances a)
            in Inr (a\<lparr>ag_acceptances := (if list_ex (\<lambda>c. ac_task c = tk_id t) others then others
                 else others @ [\<lparr>ac_task = tk_id t, ac_attempt = am_id m, ac_head = am_head m, ac_revision = 1, ac_state = ''reviewing'',
                                 ac_criteria = se_criteria (pn_sections p), ac_reason = ''''\<rparr>])\<rparr>)))"

text \<open>What a completed callback must show: the branch of the task, a link to the admitted repository,
  and the evidence of the checkpoint, which a verified result must have. The result is the canonical
  link.\<close>

definition completion_evidence ::
  "agent_env \<Rightarrow> agents \<Rightarrow> AgentTask \<Rightarrow> AgentTaskAttempt \<Rightarrow> AgentTaskAdapterEvent \<Rightarrow> agent_error + string" where
  "completion_evidence e a t m v =
     (case ae_url e (tk_provider t) (tk_api t) (tk_repository t) (ad_number v) (ad_url v) of
        None \<Rightarrow> Inl ErrInvalidAgentTask
      | Some url \<Rightarrow>
        if ad_branch v \<noteq> tk_branch t \<or> \<not> validAgentHeadSHA (ad_head v) then Inl ErrInvalidAgentTask
        else case find_checkpoint a m of
          None \<Rightarrow> if ad_profile v \<noteq> '''' then Inl ErrInvalidAgentTask else Inr url
        | Some k \<Rightarrow> if \<not> same_evidence v k then Inl ErrInvalidAgentTask else Inr url)"

definition concluded :: "string \<Rightarrow> AgentTaskAdapterEvent \<Rightarrow> string \<Rightarrow> string \<Rightarrow> AgentTaskAttempt \<Rightarrow> AgentTaskAttempt" where
  "concluded state v code url m = m\<lparr>am_state := state, am_locked := None, am_error := code, am_message := ad_summary v,
     am_summary := ad_summary v, am_branch := ad_branch v, am_head := ad_head v, am_url := url, am_number := ad_number v,
     am_patch := ad_patch v, am_files := ad_files v, am_bytes := ad_bytes v, am_profile := ad_profile v, am_output := ad_output v,
     am_output_bytes := ad_output_bytes v\<rparr>"

definition terminal_status :: "AgentTaskAdapterEvent \<Rightarrow> string" where
  "terminal_status v = (if ad_kind v = ''completed'' then ''completed'' else if ad_kind v = ''needs_attention'' then ''needs-attention'' else ''failed'')"

definition attempt_end :: "AgentTaskAdapterEvent \<Rightarrow> string" where
  "attempt_end v = (if ad_kind v = ''completed'' then ''succeeded'' else if ad_kind v = ''needs_attention'' then ''needs_attention'' else ''failed'')"

definition task_end :: "AgentTaskAdapterEvent \<Rightarrow> string" where
  "task_end v = (if ad_kind v = ''completed'' then ''completed'' else attempt_end v)"

definition conclude_attempt ::
  "agent_env \<Rightarrow> agents \<Rightarrow> AgentTask \<Rightarrow> AgentTaskAttempt \<Rightarrow> AgentTaskAdapterEvent \<Rightarrow> string \<Rightarrow>
     agent_error + (agents \<times> AgentTaskAttempt \<times> bool)" where
  "conclude_attempt e a t m v url =
     (let code = (if ad_kind v \<noteq> ''completed'' \<and> ad_error v = '''' then ''agent_adapter_failed'' else ad_error v);
          m' = concluded (attempt_end v) v code url m;
          a = set_attempts a (\<lambda>n. am_id n = am_id m) (\<lambda>_. m');
          a = a\<lparr>ag_tasks := update_where (\<lambda>q. tk_id q = tk_id t \<and> tk_state q = ''executing'') (moved (task_end v)) (ag_tasks a)\<rparr> in
      bind_r (if ad_kind v = ''completed'' then recordAgentDeliveryTx e a t m' else Inr a) (\<lambda>a.
      Inr (ag_audit (queueAgentTaskAttemptProviderComment a (tk_id t) (am_id m) (terminal_status v)) (tk_tenant t) ''agent-adapter''
             (''agent_task.adapter_'' @ ad_kind v) (am_id m)
             [(''adapter_job_id'', PStr (ad_job v)), (''kind'', PStr (ad_kind v)), (''delivery_id'', PStr (ad_delivery v))], m', False)))"

definition terminal_callback ::
  "agent_env \<Rightarrow> agents \<Rightarrow> AgentTaskAttempt \<Rightarrow> AgentTaskAdapterEvent \<Rightarrow> agent_error + (agents \<times> AgentTaskAttempt \<times> bool)" where
  "terminal_callback e a m v =
     (case row_by tk_id (am_task m) (ag_tasks a) of None \<Rightarrow> Inl (ErrAgentStatement ''load agent task for adapter terminal event'')
      | Some t \<Rightarrow>
        bind_r (if ad_kind v = ''completed'' then completion_evidence e a t m v else Inr (ad_url v)) (conclude_attempt e a t m v))"

text \<open>A callback whose delivery is already recorded.\<close>

definition repeated_callback ::
  "agent_env \<Rightarrow> agents \<Rightarrow> AgentTaskAdapterEvent \<Rightarrow> string \<Rightarrow> agent_error + (agents \<times> AgentTaskAttempt \<times> bool)" where
  "repeated_callback e a v existing =
     (if existing \<noteq> ae_digest e v then Inl ErrInvalidAgentTask
      else case row_by am_id (ad_attempt v) (ag_attempts a) of None \<Rightarrow> Inl (ErrAgentStatement ''load agent adapter attempt'')
      | Some m \<Rightarrow>
        if (ad_kind v = ''heartbeat'' \<or> ad_kind v = ''publication_checkpoint'') \<and> \<not> callback_lease e v m then Inl ErrAgentTaskClaimLost
        else Inr (a, m, True))"

definition RecordAgentTaskAdapterEvent ::
  "agent_env \<Rightarrow> agents \<Rightarrow> AgentTaskAdapterEvent \<Rightarrow> int \<Rightarrow> agent_error + (agents \<times> AgentTaskAttempt \<times> bool)" where
  "RecordAgentTaskAdapterEvent e a event lease =
     (let v = trimmed_event event in
      if \<not> AgentTaskAdapterEvent_Valid v \<or> lease < agentTaskLeaseFloor \<or> len (ad_delivery v) > 200 \<or> len (ad_error v) > 96
      then Inl ErrInvalidAgentTask
      else case map_of (ag_receipts a) (ad_attempt v, ad_delivery v) of
        Some existing \<Rightarrow> repeated_callback e a v existing
      | None \<Rightarrow>
        let a = a\<lparr>ag_receipts := ag_receipts a @ [((ad_attempt v, ad_delivery v), ae_digest e v)]\<rparr> in
        case row_by am_id (ad_attempt v) (ag_attempts a) of None \<Rightarrow> Inl (ErrAgentStatement ''record agent adapter receipt'')
        | Some m \<Rightarrow>
          if am_started m = None then Inl ErrAgentTaskClaimLost
          else if \<not> callback_lease e v m then Inl ErrAgentTaskClaimLost
          else if ad_kind v = ''heartbeat'' then renew_by_callback e a m lease
          else bind_r (if ad_kind v = ''publication_checkpoint'' \<or> ad_kind v = ''completed'' then criteria_satisfied a m v else Inr ()) (\<lambda>_.
            if ad_kind v = ''publication_checkpoint'' then publication_checkpoint e a m v lease
            else terminal_callback e a m v))"

section \<open>Recovery of a publication\<close>

text \<open>\<open>internal/store/agent_publication_recovery.go\<close>: an attempt that stopped after its checkpoint, while
  its draft was published, is completed from a fresh read of the provider. The condition under which
  that may happen; the underscore of the \<open>LIKE\<close> pattern stands for any character.\<close>

definition stopped_at_publication :: "string \<Rightarrow> bool" where
  "stopped_at_publication message \<longleftrightarrow>
     HasPrefix message ''The adapter stopped at stage draft'' \<and> HasPrefix (drop 35 message) ''publication ''"

definition latest_attempt :: "agents \<Rightarrow> uuid \<Rightarrow> uuid option" where
  "latest_attempt a taskID = (case rev (filter (\<lambda>m. am_task m = taskID) (ag_attempts a)) of [] \<Rightarrow> None | m # _ \<Rightarrow> Some (am_id m))"

definition approver_is_manager :: "agents \<Rightarrow> AgentTask \<Rightarrow> AgentTaskPlan \<Rightarrow> bool" where
  "approver_is_manager a t p \<longleftrightarrow>
     list_ex (\<lambda>m. mem_tenant m = tk_tenant t \<and> pn_approved_by p = Some (mem_subject m) \<and> mem_active m
       \<and> (mem_role m = ''owner'' \<or> mem_role m = ''admin'')) (db_members (gv_db (ag_gov a)))"

definition superseded_by_newer :: "agents \<Rightarrow> AgentTask \<Rightarrow> bool" where
  "superseded_by_newer a t \<longleftrightarrow>
     list_ex (\<lambda>q. tk_tenant q = tk_tenant t \<and> tk_branch q = tk_branch t \<and> tk_created q > tk_created t
       \<and> tk_state q \<notin> {''cancelled'', ''rejected'', ''superseded'', ''failed''}) (ag_tasks a)"

definition recoverableAgentPublication :: "agents \<Rightarrow> AgentTaskAttempt \<Rightarrow> bool" where
  "recoverableAgentPublication a m \<longleftrightarrow>
     (case (row_by tk_id (am_task m) (ag_tasks a), row_by pn_id (am_plan m) (ag_plans a)) of
        (Some t, Some p) \<Rightarrow>
          am_state m = ''needs_attention'' \<and> tk_state t = ''needs_attention'' \<and> tk_origin t = ''pull_request'' \<and> wp_enabled (tk_workflow t)
          \<and> (am_error m = ''agent_publication_unverified''
             \<or> am_error m = ''agent_adapter_execution_failed'' \<and> stopped_at_publication (am_message m))
          \<and> pn_state p = ''approved'' \<and> pn_revision p = am_plan_revision m \<and> approver_is_manager a t p
          \<and> map_option pn_id (latest_plan a (tk_id t)) = Some (pn_id p) \<and> latest_attempt a (tk_id t) = Some (am_id m)
          \<and> \<not> superseded_by_newer a t
      | _ \<Rightarrow> False)"

definition recovery_candidate :: "agents \<Rightarrow> AgentTaskAttempt \<Rightarrow> bool" where
  "recovery_candidate a m \<longleftrightarrow>
     recoverableAgentPublication a m \<and>
     (case (find_checkpoint a m, row_by tk_id (am_task m) (ag_tasks a), am_deadline m) of
        (Some k, Some t, Some d) \<Rightarrow> ck_recorded k \<le> d \<and> ck_branch k = tk_branch t \<and> ck_profile k \<noteq> '''' \<and> ck_output k \<noteq> ''''
      | _ \<Rightarrow> False)"

definition new_recovery :: "agent_env \<Rightarrow> AgentTaskAttempt \<Rightarrow> AgentPublicationRecovery" where
  "new_recovery e m = \<lparr>pr_attempt = am_id m, pr_state = ''queued'', pr_reads = 0, pr_code = am_error m, pr_message = am_message m,
     pr_reason = '''', pr_worker = None, pr_locked = None, pr_available = ae_now e\<rparr>"

definition recovery_unlocked :: "agent_env \<Rightarrow> AgentPublicationRecovery \<Rightarrow> bool" where
  "recovery_unlocked e r \<longleftrightarrow> pr_state r = ''queued'' \<and> (case pr_locked r of None \<Rightarrow> True | Some l \<Rightarrow> l < ae_now e)"

text \<open>The rows after the two statements that open a claim: new candidates are queued, rows whose three
  reads are used up are rejected.\<close>

definition opened_recoveries :: "agent_env \<Rightarrow> agents \<Rightarrow> AgentPublicationRecovery list" where
  "opened_recoveries e a =
     update_where (\<lambda>r. recovery_unlocked e r \<and> pr_reads r \<ge> 3)
       (\<lambda>r. r\<lparr>pr_state := ''rejected'', pr_reason := ''provider_read_attempts_exhausted'', pr_worker := None, pr_locked := None\<rparr>)
       (ag_recoveries a @ map (new_recovery e)
          (filter (\<lambda>m. recovery_candidate a m \<and> am_id m \<notin> pr_attempt ` set (ag_recoveries a)) (ag_attempts a)))"

text \<open>The result \<open>None\<close> is the error \<open>ErrNoQueuedAgentTask\<close> after a commit. The target is the attempt, its
  checkpoint and the branch of the draft; the credentials of the provider are read beside it.\<close>

definition ClaimAgentPublicationRecovery ::
  "agent_env \<Rightarrow> agents \<Rightarrow> string \<Rightarrow>
     agent_error + (agents \<times> (AgentTaskAttempt \<times> AgentTaskPublicationCheckpoint \<times> string) option)" where
  "ClaimAgentPublicationRecovery e a worker =
     (if TrimSpace worker = '''' \<or> len worker > 200 then Inl ErrInvalidAgentTask
      else let rows = opened_recoveries e a in
        case sort_key (\<lambda>r. (pr_available r, pr_attempt r))
               (filter (\<lambda>r. recovery_unlocked e r \<and> pr_reads r < 3 \<and> pr_available r \<le> ae_now e) rows) of
          [] \<Rightarrow> Inr (a\<lparr>ag_recoveries := rows\<rparr>, None)
        | r # _ \<Rightarrow>
          (case row_by am_id (pr_attempt r) (ag_attempts a) of None \<Rightarrow> Inl (ErrAgentStatement ''load agent task attempt'')
           | Some m \<Rightarrow>
             (case (task_installation a (am_task m), find_checkpoint a m) of
                (Some (t, _), Some k) \<Rightarrow>
                  (case agentFeedbackTargetBranch a t of None \<Rightarrow> Inl (ErrAgentStatement ''load feedback target branch'')
                   | Some branch \<Rightarrow>
                     Inr (a\<lparr>ag_recoveries := update_where (\<lambda>q. pr_attempt q = pr_attempt r)
                            (\<lambda>q. q\<lparr>pr_reads := pr_reads q + 1, pr_worker := Some worker, pr_locked := Some (ae_now e + 60 * agent_second)\<rparr>)
                            rows\<rparr>, Some (m, k, branch)))
              | _ \<Rightarrow> Inl (ErrAgentStatement ''load publication recovery target''))))"

text \<open>What the fresh read of the provider showed of the draft.\<close>

record DraftRead =
  dr_draft :: bool
  dr_provider :: string
  dr_api :: string
  dr_repository :: string
  dr_number :: int
  dr_head_ref :: string
  dr_base_ref :: string
  dr_head :: string

definition draft_confirmed ::
  "AgentTask \<Rightarrow> AgentTaskAttempt \<Rightarrow> AgentTaskPlan \<Rightarrow> AgentTaskPublicationCheckpoint \<Rightarrow> string \<Rightarrow> string \<Rightarrow> DraftRead \<Rightarrow> bool" where
  "draft_confirmed t m p k branch claimedHead d \<longleftrightarrow>
     dr_draft d \<and> dr_provider d = tk_provider t \<and> dr_api d = tk_api t \<and> dr_repository d = tk_repository t \<and> dr_number d = tk_number t
     \<and> dr_head_ref d = tk_branch t \<and> dr_base_ref d = branch \<and> dr_head d = ck_head k \<and> claimedHead = ck_head k \<and> ck_branch k = tk_branch t
     \<and> ck_job k = (case am_job m of None \<Rightarrow> '''' | Some j \<Rightarrow> j) \<and> ck_profile k \<noteq> '''' \<and> ck_output k \<noteq> ''''
     \<and> CriteriaVerified (se_criteria (pn_sections p)) (ck_criteria k)"

definition recovered_summary :: string where
  "recovered_summary = ''Recovered the existing owned Draft at the signed validated checkpoint by a fresh provider read; no coding or provider write was repeated. Original publication failure remains in recovery and audit records.''"

definition recovered_attempt :: "AgentTask \<Rightarrow> AgentTaskPublicationCheckpoint \<Rightarrow> string \<Rightarrow> AgentTaskAttempt \<Rightarrow> AgentTaskAttempt" where
  "recovered_attempt t k url m = m\<lparr>am_state := ''succeeded'', am_error := '''', am_message := recovered_summary, am_summary := recovered_summary,
     am_branch := ck_branch k, am_head := ck_head k, am_url := url, am_number := tk_number t, am_patch := ck_patch k, am_files := ck_files k,
     am_bytes := ck_bytes k, am_profile := ck_profile k, am_output := ck_output k, am_output_bytes := ck_output_bytes k\<rparr>"

definition release_recovery :: "agents \<Rightarrow> uuid \<Rightarrow> string \<Rightarrow> string \<Rightarrow> (AgentPublicationRecovery \<Rightarrow> gotime) \<Rightarrow> agents" where
  "release_recovery a attemptID state reason available =
     a\<lparr>ag_recoveries := update_where (\<lambda>r. pr_attempt r = attemptID)
         (\<lambda>r. r\<lparr>pr_state := state, pr_reason := reason, pr_worker := None, pr_locked := None, pr_available := available r\<rparr>) (ag_recoveries a)\<rparr>"

definition complete_recovery ::
  "agent_env \<Rightarrow> agents \<Rightarrow> AgentTask \<Rightarrow> AgentTaskAttempt \<Rightarrow> AgentTaskPublicationCheckpoint \<Rightarrow> string \<Rightarrow> agent_error + agents" where
  "complete_recovery e a t m k url =
     (let m' = recovered_attempt t k url m;
          a = set_task (set_attempts a (\<lambda>n. am_id n = am_id m) (\<lambda>_. m')) (tk_id t) (moved ''completed'') in
      bind_r (recordAgentDeliveryTx e a t m') (\<lambda>a.
        Inr (ag_audit (release_recovery a (am_id m) ''verified'' ''exact_owned_draft_confirmed'' pr_available) (tk_tenant t)
               ''agent:delivery-monitor'' ''agent_task.publication_recovered'' (am_id m) [(''head_sha'', PStr (ck_head k))])))"

definition recovery_lease :: "agent_env \<Rightarrow> uuid \<Rightarrow> string \<Rightarrow> AgentPublicationRecovery \<Rightarrow> bool" where
  "recovery_lease e attemptID worker r \<longleftrightarrow>
     pr_attempt r = attemptID \<and> pr_state r = ''queued'' \<and> pr_worker r = Some worker
     \<and> (case pr_locked r of None \<Rightarrow> False | Some l \<Rightarrow> l > ae_now e)"

definition recovery_reason ::
  "agent_env \<Rightarrow> agents \<Rightarrow> AgentTask \<Rightarrow> Installation \<Rightarrow> AgentTaskAttempt \<Rightarrow> AgentTaskPlan \<Rightarrow> AgentTaskPublicationCheckpoint \<Rightarrow> string
     \<Rightarrow> string \<Rightarrow> DraftRead \<Rightarrow> string \<Rightarrow> string \<Rightarrow> string" where
  "recovery_reason e a t i m p k branch claimedHead d draftURL reason0 =
     (let reason = (if \<not> (ins_active i \<and> ins_verification i = ''verified'' \<and> recoverableAgentPublication a m) \<or> am_task m \<noteq> tk_id t
                    then ''publication_recovery_fenced'' else reason0)
      in if reason = '''' \<and> (ae_url e (tk_provider t) (tk_api t) (tk_repository t) (tk_number t) draftURL = None
                         \<or> \<not> draft_confirmed t m p k branch claimedHead d)
         then ''publication_recovery_evidence_mismatch'' else reason)"

definition settle_recovery ::
  "agent_env \<Rightarrow> agents \<Rightarrow> AgentPublicationRecovery \<Rightarrow> AgentTask \<Rightarrow> AgentTaskAttempt \<Rightarrow> AgentTaskPublicationCheckpoint \<Rightarrow> string \<Rightarrow> string
     \<Rightarrow> agent_error + agents" where
  "settle_recovery e a r t m k draftURL reason =
     (if reason \<noteq> '''' then
        Inr (release_recovery a (am_id m)
               (if (reason = ''provider_unavailable'' \<or> reason = ''provider_head_pending'') \<and> pr_reads r < 3 then ''queued'' else ''rejected'')
               reason (\<lambda>_. ae_now e + 15 * agent_second))
      else case ae_url e (tk_provider t) (tk_api t) (tk_repository t) (tk_number t) draftURL of
             None \<Rightarrow> Inl ErrInvalidAgentTask | Some url \<Rightarrow> complete_recovery e a t m k url)"

text \<open>\<open>taskID\<close>, \<open>attemptID\<close> and \<open>claimedHead\<close> are the fields of the claimed target.\<close>

definition FinishAgentPublicationRecovery ::
  "agent_env \<Rightarrow> agents \<Rightarrow> string \<Rightarrow> uuid \<Rightarrow> uuid \<Rightarrow> string \<Rightarrow> DraftRead \<Rightarrow> string \<Rightarrow> string \<Rightarrow> agent_error + agents" where
  "FinishAgentPublicationRecovery e a worker taskID attemptID claimedHead d draftURL reason0 =
     (case find (recovery_lease e attemptID worker) (ag_recoveries a) of None \<Rightarrow> Inl ErrAgentTaskClaimLost
      | Some r \<Rightarrow>
        (case (task_installation a taskID, row_by am_id attemptID (ag_attempts a)) of
           (Some (t, i), Some m) \<Rightarrow>
             (case (find_checkpoint a m, row_by pn_id (am_plan m) (ag_plans a), agentFeedbackTargetBranch a t) of
                (Some k, Some p, Some branch) \<Rightarrow>
                  settle_recovery e a r t m k draftURL (recovery_reason e a t i m p k branch claimedHead d draftURL reason0)
              | _ \<Rightarrow> Inl (ErrAgentStatement ''load publication recovery evidence''))
         | _ \<Rightarrow> Inl (ErrAgentStatement ''load publication recovery target'')))"

end
