(* ===== verification/Agent_Lifecycle.thy ===== *)
theory Agent_Lifecycle
  imports Agent_Execution
begin

text \<open>
  The life of one remediation task as an abstract machine. A \<open>life\<close> is what the tables hold on one task:
  its row, plans, attempts and classifications. \<open>life_step\<close> is the contract of the store on it: a task
  is prepared while it is not executing, an approved plan of a ready source is leased, a lease is held
  or taken over, execution ends together with its one running attempt, and a stopped publication is
  completed from the evidence of its checkpoint.

  \<open>life_ok\<close> is the invariant of a life; the lemmas show that \<open>life_step\<close> keeps it, that final states
  are final, that a started attempt stays started, and that plans are never rewritten. The theory
  \<open>Agent_Invariants\<close> shows that every transaction is a step of this machine on one task.
\<close>

section \<open>A life and its invariant\<close>

record life =
  lf_task :: "AgentTask option"
  lf_plans :: "AgentTaskPlan list"
  lf_attempts :: "AgentTaskAttempt list"
  lf_classes :: "AgentTaskClassification list"

definition plan_content :: "AgentTaskPlan \<Rightarrow> uuid \<times> uuid \<times> int \<times> string \<times> AgentTaskPlanSections \<times> string \<times> string" where
  "plan_content p = (pn_id p, pn_task p, pn_revision p, pn_summary p, pn_sections p, pn_sha p, pn_created_by p)"

definition attempt_key :: "AgentTaskAttempt \<Rightarrow> uuid \<times> uuid \<times> int \<times> int" where
  "attempt_key m = (am_task m, am_plan m, am_task_revision m, am_plan_revision m)"

definition running :: "AgentTaskAttempt \<Rightarrow> bool" where
  "running m \<longleftrightarrow> am_state m = ''running''"

definition approved_latest :: "AgentTaskPlan list \<Rightarrow> AgentTaskAttempt \<Rightarrow> AgentTaskPlan \<Rightarrow> bool" where
  "approved_latest ps m p \<longleftrightarrow>
     p \<in> set ps \<and> pn_id p = am_plan m \<and> pn_task p = am_task m \<and> pn_revision p = am_plan_revision m \<and> pn_state p = ''approved''
     \<and> pn_approved_by p \<noteq> None \<and> (\<forall>q \<in> set ps. pn_revision q \<le> pn_revision p)"

definition cleared :: "AgentTask \<Rightarrow> AgentTaskPlan list \<Rightarrow> AgentTaskClassification list \<Rightarrow> AgentTaskAttempt \<Rightarrow> bool" where
  "cleared t ps cs m \<longleftrightarrow>
     tk_state t = ''executing'' \<and> tk_revision t = am_task_revision m + 1 \<and> tk_source_state t = ''ready''
     \<and> base_pair_valid (tk_base_ref t) (tk_base_sha t) \<and> cs \<noteq> [] \<and> cl_decision (last cs) = ''requires_human''
     \<and> (\<exists>p. approved_latest ps m p)"

text \<open>The evidence of a successful attempt: its branch is the branch of the task, and when it was
  verified, or the task demands evidence for every criterion, a checkpoint of the same attempt holds the
  same evidence and the verified criteria.\<close>

definition evidenced :: "AgentTaskPublicationCheckpoint list \<Rightarrow> AgentTask \<Rightarrow> AgentTaskPlan list \<Rightarrow> AgentTaskAttempt \<Rightarrow> bool" where
  "evidenced K t ps m \<longleftrightarrow>
     am_branch m = tk_branch t \<and>
     (am_profile m \<noteq> '''' \<or> wp_evidence (tk_workflow t) \<longrightarrow>
       (\<exists>k \<in> set K. ck_attempt k = am_id m \<and> ck_number k = am_attempt m \<and> ck_branch k = am_branch m \<and> ck_head k = am_head m
          \<and> ck_patch k = am_patch m \<and> ck_profile k = am_profile m \<and> ck_output k = am_output m
          \<and> (wp_evidence (tk_workflow t) \<longrightarrow>
               (\<exists>p \<in> set ps. pn_id p = am_plan m \<and> CriteriaVerified (se_criteria (pn_sections p)) (ck_criteria k)))))"

definition used :: "AgentTaskAttempt list \<Rightarrow> int" where
  "used ms = sum_list (map am_attempt ms)"

definition attempts_ok :: "AgentTask \<Rightarrow> AgentTaskAttempt list \<Rightarrow> bool" where
  "attempts_ok t ms \<longleftrightarrow>
     distinct (map attempt_key ms) \<and>
     (\<forall>m \<in> set ms. 1 \<le> am_attempt m \<and> am_attempt m \<le> tk_max_attempts t \<and> (am_started m \<noteq> None \<longrightarrow> am_job m \<noteq> None)
        \<and> am_job m \<noteq> Some '''' \<and> (running m \<longrightarrow> am_locked m \<noteq> None)) \<and>
     (wp_enabled (tk_workflow t) \<longrightarrow> used ms \<le> max 0 (wp_attempts (tk_workflow t)))"

definition plans_ok :: "(string \<Rightarrow> string) \<Rightarrow> AgentTaskPlan list \<Rightarrow> bool" where
  "plans_ok sha ps \<longleftrightarrow>
     distinct (map pn_revision ps) \<and>
     (\<forall>p \<in> set ps. validateAgentTaskPlanIntegrity sha p \<and> pn_revision p \<ge> 1 \<and> (pn_state p = ''approved'' \<longrightarrow> pn_approved_by p \<noteq> None))"

definition life_ok :: "(string \<Rightarrow> string) \<Rightarrow> AgentTaskPublicationCheckpoint list \<Rightarrow> life \<Rightarrow> bool" where
  "life_ok sha K l \<longleftrightarrow>
     (case lf_task l of None \<Rightarrow> lf_plans l = [] \<and> lf_attempts l = []
      | Some t \<Rightarrow>
        tk_max_attempts t \<ge> 1 \<and> plans_ok sha (lf_plans l) \<and> attempts_ok t (lf_attempts l) \<and>
        (tk_state t = ''executing'' \<longrightarrow> (\<exists>m \<in> set (lf_attempts l). running m)) \<and>
        (\<forall>m \<in> set (lf_attempts l). running m \<longrightarrow> cleared t (lf_plans l) (lf_classes l) m) \<and>
        (\<forall>m \<in> set (lf_attempts l). am_state m = ''succeeded'' \<longrightarrow> evidenced K t (lf_plans l) m))"

section \<open>Steps\<close>

definition task_kept :: "AgentTask \<Rightarrow> AgentTask \<Rightarrow> bool" where
  "task_kept t t' \<longleftrightarrow> tk_id t' = tk_id t \<and> tk_tenant t' = tk_tenant t \<and> tk_branch t' = tk_branch t \<and> tk_workflow t' = tk_workflow t
     \<and> tk_max_attempts t' = tk_max_attempts t \<and> tk_revision t \<le> tk_revision t'"

definition plans_kept :: "(string \<Rightarrow> string) \<Rightarrow> AgentTaskPlan list \<Rightarrow> AgentTaskPlan list \<Rightarrow> bool" where
  "plans_kept sha ps ps' \<longleftrightarrow> take (length ps) (map plan_content ps') = map plan_content ps \<and> (plans_ok sha ps \<longrightarrow> plans_ok sha ps')"

definition final_states :: "string list" where
  "final_states = [''cancelled'', ''rejected'', ''superseded'', ''completed'']"

definition lease_kept :: "AgentTaskAttempt \<Rightarrow> AgentTaskAttempt \<Rightarrow> bool" where
  "lease_kept m m' \<longleftrightarrow>
     running m \<and> running m' \<and> am_id m' = am_id m \<and> attempt_key m' = attempt_key m \<and> am_attempt m' = am_attempt m
     \<and> am_locked m' \<noteq> None \<and> am_job m' \<noteq> Some ''''
     \<and> (am_job m \<noteq> None \<longrightarrow> am_job m' = am_job m)
     \<and> (am_started m' = am_started m \<or> am_started m = None \<and> am_job m' \<noteq> None)"

definition ended_attempt ::
  "AgentTaskPublicationCheckpoint list \<Rightarrow> AgentTask \<Rightarrow> AgentTaskPlan list \<Rightarrow> AgentTaskAttempt \<Rightarrow> AgentTaskAttempt \<Rightarrow> bool" where
  "ended_attempt K t ps m m' \<longleftrightarrow>
     (if running m then \<not> running m' \<and> am_id m' = am_id m \<and> attempt_key m' = attempt_key m \<and> am_attempt m' = am_attempt m
        \<and> am_job m' = am_job m \<and> am_started m' = am_started m \<and> (am_state m' = ''succeeded'' \<longrightarrow> evidenced K t ps m')
      else m' = m)"

inductive life_step :: "(string \<Rightarrow> string) \<Rightarrow> AgentTaskPublicationCheckpoint list \<Rightarrow> life \<Rightarrow> life \<Rightarrow> bool" for sha K where
  Admit: "lf_task l = None \<Longrightarrow> tk_state t = ''received'' \<Longrightarrow> tk_max_attempts t \<ge> 1
    \<Longrightarrow> life_step sha K l \<lparr>lf_task = Some t, lf_plans = [], lf_attempts = [], lf_classes = cs\<rparr>"
| Prepare: "lf_task l = Some t \<Longrightarrow> tk_state t \<noteq> ''executing'' \<Longrightarrow> tk_state t \<notin> set final_states \<Longrightarrow> task_kept t t'
    \<Longrightarrow> tk_state t' \<noteq> ''executing'' \<Longrightarrow> tk_state t' \<noteq> ''completed'' \<Longrightarrow> plans_kept sha (lf_plans l) ps
    \<Longrightarrow> life_step sha K l \<lparr>lf_task = Some t', lf_plans = ps, lf_attempts = lf_attempts l, lf_classes = lf_classes l @ cs\<rparr>"
| Lease: "lf_task l = Some t \<Longrightarrow> tk_state t = ''execution_queued''
    \<Longrightarrow> running m \<Longrightarrow> am_attempt m = 1 \<Longrightarrow> am_job m = None \<Longrightarrow> am_started m = None \<Longrightarrow> am_locked m \<noteq> None
    \<Longrightarrow> attempt_key m \<notin> attempt_key ` set (lf_attempts l) \<Longrightarrow> cleared (moved ''executing'' t) (lf_plans l) (lf_classes l) m
    \<Longrightarrow> (wp_enabled (tk_workflow t) \<longrightarrow> used (lf_attempts l) < wp_attempts (tk_workflow t))
    \<Longrightarrow> life_step sha K l (l\<lparr>lf_task := Some (moved ''executing'' t), lf_attempts := lf_attempts l @ [m]\<rparr>)"
| Reclaim: "lf_task l = Some t \<Longrightarrow> lf_attempts l = xs @ m # ys \<Longrightarrow> running m \<Longrightarrow> am_job m = None \<Longrightarrow> running m' \<Longrightarrow> am_id m' = am_id m
    \<Longrightarrow> attempt_key m' = attempt_key m \<Longrightarrow> am_attempt m' = am_attempt m + 1 \<Longrightarrow> am_attempt m < tk_max_attempts t
    \<Longrightarrow> am_job m' = None \<Longrightarrow> am_started m' = None \<Longrightarrow> am_locked m' \<noteq> None
    \<Longrightarrow> (wp_enabled (tk_workflow t) \<longrightarrow> used (lf_attempts l) < wp_attempts (tk_workflow t))
    \<Longrightarrow> life_step sha K l (l\<lparr>lf_attempts := xs @ m' # ys\<rparr>)"
| Hold: "lf_task l = Some t \<Longrightarrow> lf_attempts l = xs @ m # ys \<Longrightarrow> lease_kept m m' \<Longrightarrow> life_step sha K l (l\<lparr>lf_attempts := xs @ m' # ys\<rparr>)"
| Finish: "lf_task l = Some t \<Longrightarrow> tk_state t = ''executing'' \<Longrightarrow> state \<in> {''needs_attention'', ''completed'', ''failed'', ''cancelled''}
    \<Longrightarrow> list_all2 (ended_attempt K t (lf_plans l)) (lf_attempts l) ms
    \<Longrightarrow> life_step sha K l (l\<lparr>lf_task := Some (moved state t), lf_attempts := ms\<rparr>)"
| Recover: "lf_task l = Some t \<Longrightarrow> tk_state t = ''needs_attention'' \<Longrightarrow> lf_attempts l = xs @ m # ys \<Longrightarrow> am_state m = ''needs_attention''
    \<Longrightarrow> am_state m' = ''succeeded'' \<Longrightarrow> am_id m' = am_id m \<Longrightarrow> attempt_key m' = attempt_key m \<Longrightarrow> am_attempt m' = am_attempt m
    \<Longrightarrow> am_job m' = am_job m \<Longrightarrow> am_started m' = am_started m \<Longrightarrow> evidenced K t (lf_plans l) m'
    \<Longrightarrow> life_step sha K l (l\<lparr>lf_task := Some (moved ''completed'' t), lf_attempts := xs @ m' # ys\<rparr>)"

inductive_cases life_stepE: "life_step sha K l l'"

section \<open>The invariant is kept\<close>

lemma cleared_key:
  assumes "attempt_key m' = attempt_key m" shows "cleared t ps cs m' = cleared t ps cs m"
  using assms by (auto simp: attempt_key_def cleared_def approved_latest_def)

lemma moved_sel [simp]:
  "tk_id (moved s t) = tk_id t" "tk_tenant (moved s t) = tk_tenant t" "tk_branch (moved s t) = tk_branch t"
  "tk_workflow (moved s t) = tk_workflow t" "tk_max_attempts (moved s t) = tk_max_attempts t" "tk_state (moved s t) = s"
  "tk_revision (moved s t) = tk_revision t + 1" "tk_source_state (moved s t) = tk_source_state t"
  "tk_base_ref (moved s t) = tk_base_ref t" "tk_base_sha (moved s t) = tk_base_sha t"
  by (simp_all add: moved_def)

lemma task_kept_moved [simp]: "task_kept t (moved s t)"
  by (simp add: task_kept_def)

lemma task_kept_refl [simp]: "task_kept t t"
  by (simp add: task_kept_def)

lemma content_fields:
  assumes "plan_content p = plan_content q"
  shows "pn_id p = pn_id q" "pn_task p = pn_task q" "pn_revision p = pn_revision q" "pn_sections p = pn_sections q"
    "pn_summary p = pn_summary q" "pn_sha p = pn_sha q" "pn_created_by p = pn_created_by q"
  using assms by (simp_all add: plan_content_def)

lemma plans_kept_content:
  assumes "plans_kept sha ps ps'" "p \<in> set ps"
  obtains q where "q \<in> set ps'" "plan_content q = plan_content p"
proof -
  have "plan_content p \<in> set (take (length ps) (map plan_content ps'))" using assms by (simp add: plans_kept_def)
  then have "plan_content p \<in> plan_content ` set ps'" by (metis in_set_takeD list.set_map)
  then show ?thesis using that by (metis imageE)
qed

lemma plans_kept_refl [simp]: "plans_kept sha ps ps"
  by (simp add: plans_kept_def)

lemma evidenced_mono:
  assumes "evidenced K t ps m" "set K \<subseteq> set K'" "task_kept t t'" "plans_kept sha ps ps'"
  shows "evidenced K' t' ps' m"
proof -
  have t: "tk_branch t' = tk_branch t" "tk_workflow t' = tk_workflow t" using assms(3) by (simp_all add: task_kept_def)
  have p: "\<exists>q \<in> set ps'. pn_id q = am_plan m \<and> CriteriaVerified (se_criteria (pn_sections q)) r"
    if "\<exists>p \<in> set ps. pn_id p = am_plan m \<and> CriteriaVerified (se_criteria (pn_sections p)) r" for r
    using that plans_kept_content [OF assms(4)] by (metis content_fields(1,4))
  show ?thesis using assms(1,2) p unfolding evidenced_def t by blast
qed

lemma life_ok_mono: "life_ok sha K l \<Longrightarrow> set K \<subseteq> set K' \<Longrightarrow> life_ok sha K' l"
  unfolding life_ok_def
  by (auto split: option.splits intro: evidenced_mono [OF _ _ task_kept_refl plans_kept_refl])

lemma one_running:
  assumes l: "life_ok sha K l" and m: "m \<in> set (lf_attempts l)" "n \<in> set (lf_attempts l)" "running m" "running n"
  shows "m = n"
proof -
  obtain t where t: "lf_task l = Some t" using l m(1) by (cases "lf_task l") (auto simp: life_ok_def)
  have c: "cleared t (lf_plans l) (lf_classes l) m" "cleared t (lf_plans l) (lf_classes l) n" using l m t by (auto simp: life_ok_def)
  obtain p q where p: "approved_latest (lf_plans l) m p" "approved_latest (lf_plans l) n q" using c by (auto simp: cleared_def)
  have "pn_revision p \<le> pn_revision q" "pn_revision q \<le> pn_revision p" using p unfolding approved_latest_def by blast+
  then have "pn_revision p = pn_revision q" by simp
  moreover have "distinct (map pn_revision (lf_plans l))" using l t by (simp add: life_ok_def plans_ok_def)
  ultimately have "p = q" using p by (auto simp: approved_latest_def distinct_map inj_on_def)
  then have "attempt_key m = attempt_key n" using p c by (auto simp: attempt_key_def approved_latest_def cleared_def)
  moreover have "distinct (map attempt_key (lf_attempts l))" using l t by (simp add: life_ok_def attempts_ok_def)
  ultimately show ?thesis using m(1,2) by (auto simp: distinct_map inj_on_def)
qed

lemma none_running:
  assumes "life_ok sha K l" "lf_task l = Some t" "tk_state t \<noteq> ''executing''" "m \<in> set (lf_attempts l)"
  shows "\<not> running m"
  using assms by (auto simp: life_ok_def cleared_def)

lemma used_append [simp]: "used (xs @ ys) = used xs + used ys" "used (m # xs) = am_attempt m + used xs" "used [] = 0"
  by (simp_all add: used_def)

lemma life_okI:
  assumes "lf_task l = Some t" "tk_max_attempts t \<ge> 1" "plans_ok sha (lf_plans l)" "attempts_ok t (lf_attempts l)"
    and "tk_state t = ''executing'' \<Longrightarrow> \<exists>m \<in> set (lf_attempts l). running m"
    and "\<And>m. m \<in> set (lf_attempts l) \<Longrightarrow> running m \<Longrightarrow> cleared t (lf_plans l) (lf_classes l) m"
    and "\<And>m. m \<in> set (lf_attempts l) \<Longrightarrow> am_state m = ''succeeded'' \<Longrightarrow> evidenced K t (lf_plans l) m"
  shows "life_ok sha K l"
  using assms by (simp add: life_ok_def)

lemma life_okE:
  assumes "life_ok sha K l" "lf_task l = Some t"
  obtains "tk_max_attempts t \<ge> 1" "plans_ok sha (lf_plans l)" "attempts_ok t (lf_attempts l)"
    and "tk_state t = ''executing'' \<Longrightarrow> \<exists>m \<in> set (lf_attempts l). running m"
    and "\<And>m. m \<in> set (lf_attempts l) \<Longrightarrow> running m \<Longrightarrow> cleared t (lf_plans l) (lf_classes l) m"
    and "\<And>m. m \<in> set (lf_attempts l) \<Longrightarrow> am_state m = ''succeeded'' \<Longrightarrow> evidenced K t (lf_plans l) m"
  using assms by (simp add: life_ok_def)

lemma attempts_ok_task:
  "attempts_ok t ms \<Longrightarrow> task_kept t t' \<Longrightarrow> attempts_ok t' ms"
  by (simp add: attempts_ok_def task_kept_def)

lemma running_not_succeeded: "running m \<Longrightarrow> am_state m \<noteq> ''succeeded''"
  by (simp add: running_def)

text \<open>One attempt of the list is replaced by another with the same key.\<close>

lemma attempts_ok_replace:
  assumes "attempts_ok t (xs @ m # ys)" "attempt_key m' = attempt_key m"
    and "1 \<le> am_attempt m'" "am_attempt m' \<le> tk_max_attempts t" "am_started m' \<noteq> None \<Longrightarrow> am_job m' \<noteq> None" "am_job m' \<noteq> Some ''''"
    and "running m' \<Longrightarrow> am_locked m' \<noteq> None"
    and "wp_enabled (tk_workflow t) \<Longrightarrow> used xs + am_attempt m' + used ys \<le> max 0 (wp_attempts (tk_workflow t))"
  shows "attempts_ok t (xs @ m' # ys)"
  using assms by (auto simp: attempts_ok_def)

lemma prepare_keeps:
  assumes l: "life_ok sha K l" "lf_task l = Some t" and s: "tk_state t \<noteq> ''executing''" "tk_state t' \<noteq> ''executing''"
    and k: "task_kept t t'" "plans_kept sha (lf_plans l) ps"
  shows "life_ok sha K \<lparr>lf_task = Some t', lf_plans = ps, lf_attempts = lf_attempts l, lf_classes = cs\<rparr>"
  using l
proof (rule life_okE)
  assume h: "tk_max_attempts t \<ge> 1" "plans_ok sha (lf_plans l)" "attempts_ok t (lf_attempts l)"
    and e: "\<And>m. m \<in> set (lf_attempts l) \<Longrightarrow> am_state m = ''succeeded'' \<Longrightarrow> evidenced K t (lf_plans l) m"
  show ?thesis
  proof (rule life_okI [where t = t'], goal_cases)
    case 2 then show ?case using h k by (simp add: task_kept_def)
  next
    case 3 then show ?case using h k by (simp add: plans_kept_def)
  next
    case 4 then show ?case using attempts_ok_task [OF h(3) k(1)] by simp
  next
    case (6 m) then show ?case using none_running [OF l s(1)] by simp
  next
    case (7 m) then show ?case using evidenced_mono [OF e _ k] by simp
  qed (use s in simp_all)
qed

lemma lease_keeps:
  assumes l: "life_ok sha K l" "lf_task l = Some t" and s: "tk_state t = ''execution_queued''"
    and m: "running m" "am_attempt m = 1" "am_job m = None" "am_started m = None" "am_locked m \<noteq> None"
    and f: "attempt_key m \<notin> attempt_key ` set (lf_attempts l)" "cleared (moved ''executing'' t) (lf_plans l) (lf_classes l) m"
    and b: "wp_enabled (tk_workflow t) \<longrightarrow> used (lf_attempts l) < wp_attempts (tk_workflow t)"
  shows "life_ok sha K (l\<lparr>lf_task := Some (moved ''executing'' t), lf_attempts := lf_attempts l @ [m]\<rparr>)"
  using l
proof (rule life_okE)
  assume h: "tk_max_attempts t \<ge> 1" "plans_ok sha (lf_plans l)" "attempts_ok t (lf_attempts l)"
    and e: "\<And>m. m \<in> set (lf_attempts l) \<Longrightarrow> am_state m = ''succeeded'' \<Longrightarrow> evidenced K t (lf_plans l) m"
  have n: "\<And>m. m \<in> set (lf_attempts l) \<Longrightarrow> \<not> running m" using none_running [OF l] s by simp
  show ?thesis
  proof (rule life_okI [where t = "moved ''executing'' t"], goal_cases)
    case 4
    then show ?case using h(1,3) m f(1) b by (auto simp: attempts_ok_def)
  next
    case (6 x) then show ?case using n f(2) by auto
  next
    case (7 x) then show ?case using e m(1) evidenced_mono [OF e _ task_kept_moved plans_kept_refl] running_not_succeeded by auto
  qed (use h m in auto)
qed

lemma hold_keeps:
  assumes l: "life_ok sha K l" "lf_task l = Some t" and x: "lf_attempts l = xs @ m # ys"
    and m: "running m" "running m'" "attempt_key m' = attempt_key m"
    and n: "1 \<le> am_attempt m'" "am_attempt m' \<le> tk_max_attempts t" "am_started m' \<noteq> None \<Longrightarrow> am_job m' \<noteq> None" "am_job m' \<noteq> Some ''''"
      "am_locked m' \<noteq> None" "wp_enabled (tk_workflow t) \<Longrightarrow> used xs + am_attempt m' + used ys \<le> max 0 (wp_attempts (tk_workflow t))"
  shows "life_ok sha K (l\<lparr>lf_attempts := xs @ m' # ys\<rparr>)"
  using l
proof (rule life_okE)
  assume h: "tk_max_attempts t \<ge> 1" "plans_ok sha (lf_plans l)" "attempts_ok t (lf_attempts l)"
    and c: "\<And>m. m \<in> set (lf_attempts l) \<Longrightarrow> running m \<Longrightarrow> cleared t (lf_plans l) (lf_classes l) m"
    and e: "\<And>m. m \<in> set (lf_attempts l) \<Longrightarrow> am_state m = ''succeeded'' \<Longrightarrow> evidenced K t (lf_plans l) m"
  have c': "cleared t (lf_plans l) (lf_classes l) m'" using c [of m] x m cleared_key [OF m(3)] by simp
  have a': "attempts_ok t (xs @ m' # ys)" using h(3) unfolding x by (rule attempts_ok_replace) (use m(3) n in simp_all)
  show ?thesis
    by (rule life_okI [where t = t]) (use h c c' e x m a' l(2) running_not_succeeded in auto)
qed

lemma ended_key:
  assumes "list_all2 (ended_attempt K t ps) ms ns"
  shows "map attempt_key ns = map attempt_key ms" "map am_attempt ns = map am_attempt ms" "map am_id ns = map am_id ms"
    "map am_job ns = map am_job ms" "map am_started ns = map am_started ms"
  using assms by (induction rule: list_all2_induct) (auto simp: ended_attempt_def split: if_split_asm)

lemma ended_member:
  assumes "list_all2 (ended_attempt K t ps) ms ns" "n \<in> set ns"
  obtains m where "m \<in> set ms" "ended_attempt K t ps m n"
  using assms by (induction rule: list_all2_induct) auto

lemma ended_image:
  assumes "list_all2 (ended_attempt K t ps) ms ns" "m \<in> set ms"
  shows "\<exists>n \<in> set ns. ended_attempt K t ps m n"
  using assms by (induction rule: list_all2_induct) auto

lemma ended_facts:
  assumes "ended_attempt K t ps m n"
  shows "\<not> running n" "am_attempt n = am_attempt m" "am_job n = am_job m" "am_started n = am_started m" "attempt_key n = attempt_key m"
    "am_id n = am_id m" "am_state n = ''succeeded'' \<Longrightarrow> am_state m \<noteq> ''succeeded'' \<Longrightarrow> evidenced K t ps n"
  using assms by (auto simp: ended_attempt_def split: if_split_asm)

lemma attempts_ok_ended:
  assumes "attempts_ok t ms" "list_all2 (ended_attempt K u ps) ms ns" "task_kept t t'"
  shows "attempts_ok t' ns"
proof -
  have k: "map attempt_key ns = map attempt_key ms" "map am_attempt ns = map am_attempt ms" using ended_key [OF assms(2)] by simp_all
  have "1 \<le> am_attempt n \<and> am_attempt n \<le> tk_max_attempts t' \<and> (am_started n \<noteq> None \<longrightarrow> am_job n \<noteq> None)
     \<and> am_job n \<noteq> Some '''' \<and> \<not> running n" if "n \<in> set ns" for n
    by (rule ended_member [OF assms(2) that]) (use assms(1,3) ended_facts in \<open>auto simp: attempts_ok_def task_kept_def\<close>)
  then show ?thesis using assms(1,3) k by (auto simp: attempts_ok_def task_kept_def used_def)
qed

lemma finish_keeps:
  assumes l: "life_ok sha K l" "lf_task l = Some t" and s: "tk_state t = ''executing''" "state \<noteq> ''executing''"
    and m: "list_all2 (ended_attempt K t (lf_plans l)) (lf_attempts l) ms"
  shows "life_ok sha K (l\<lparr>lf_task := Some (moved state t), lf_attempts := ms\<rparr>)"
  using l
proof (rule life_okE)
  assume h: "tk_max_attempts t \<ge> 1" "plans_ok sha (lf_plans l)" "attempts_ok t (lf_attempts l)"
    and e: "\<And>m. m \<in> set (lf_attempts l) \<Longrightarrow> am_state m = ''succeeded'' \<Longrightarrow> evidenced K t (lf_plans l) m"
  have e': "evidenced K t (lf_plans l) n" "\<not> running n" if "n \<in> set ms" "am_state n = ''succeeded''" for n
    using ended_member [OF m that(1)] e that(2) by (metis ended_attempt_def)+
  have r: "\<not> running n" if "n \<in> set ms" for n using ended_member [OF m that] ended_facts(1) by metis
  show ?thesis
    by (rule life_okI [where t = "moved state t"])
      (use h s attempts_ok_ended [OF h(3) m] r e' evidenced_mono [OF e'(1) subset_refl task_kept_moved plans_kept_refl] in auto)
qed

lemma recover_keeps:
  assumes l: "life_ok sha K l" "lf_task l = Some t" and s: "tk_state t = ''needs_attention''" and x: "lf_attempts l = xs @ m # ys"
    and m: "am_state m' = ''succeeded''" "attempt_key m' = attempt_key m" "am_attempt m' = am_attempt m"
      "am_job m' = am_job m" "am_started m' = am_started m" and v: "evidenced K t (lf_plans l) m'"
  shows "life_ok sha K (l\<lparr>lf_task := Some (moved ''completed'' t), lf_attempts := xs @ m' # ys\<rparr>)"
  using l
proof (rule life_okE)
  assume h: "tk_max_attempts t \<ge> 1" "plans_ok sha (lf_plans l)" "attempts_ok t (lf_attempts l)"
    and e: "\<And>m. m \<in> set (lf_attempts l) \<Longrightarrow> am_state m = ''succeeded'' \<Longrightarrow> evidenced K t (lf_plans l) m"
  have n: "\<not> running n" if "n \<in> set (lf_attempts l)" for n using none_running [OF l _ that] s by simp
  have r: "\<not> running m'" using m(1) by (simp add: running_def)
  have "attempts_ok t (xs @ m' # ys)"
    by (rule attempts_ok_replace [OF h(3) [unfolded x] m(2)]) (use h(3) x m r in \<open>auto simp: attempts_ok_def\<close>)
  then have a: "attempts_ok (moved ''completed'' t) (xs @ m' # ys)" using attempts_ok_task task_kept_moved by blast
  have e': "evidenced K (moved ''completed'' t) (lf_plans l) q" if "evidenced K t (lf_plans l) q" for q
    using evidenced_mono [OF that subset_refl task_kept_moved plans_kept_refl] .
  show ?thesis
    by (rule life_okI [where t = "moved ''completed'' t"]) (use h(1,2) a n r x e e' v in auto)
qed

theorem life_step_keeps:
  assumes step: "life_step sha K l l'" and l: "life_ok sha K l"
  shows "life_ok sha K l'"
  using step
proof (cases rule: life_step.cases)
  case (Admit t cs)
  then show ?thesis using l by (simp add: life_ok_def plans_ok_def attempts_ok_def used_def)
next
  case (Prepare t t' ps cs)
  then show ?thesis using prepare_keeps [OF l] by blast
next
  case (Lease t m)
  then show ?thesis using lease_keeps [OF l] by blast
next
  case (Reclaim t xs m ys m')
  have a: "attempts_ok t (xs @ m # ys)" using l Reclaim(2,3) by (simp add: life_ok_def)
  show ?thesis unfolding Reclaim(1)
    by (rule hold_keeps [OF l Reclaim(2,3)]) (use a Reclaim in \<open>auto simp: attempts_ok_def\<close>)
next
  case (Hold t xs m ys m')
  have a: "attempts_ok t (xs @ m # ys)" using l Hold(2,3) by (simp add: life_ok_def)
  show ?thesis unfolding Hold(1)
    by (rule hold_keeps [OF l Hold(2,3)]) (use a Hold(4) in \<open>auto simp: attempts_ok_def lease_kept_def\<close>)
next
  case (Finish t state ms)
  then show ?thesis using finish_keeps [OF l] by auto
next
  case (Recover t xs m ys m')
  then show ?thesis using recover_keeps [OF l Recover(2-4)] by blast
qed

section \<open>Final states, started attempts, frozen plans\<close>

lemma final_life:
  assumes "life_step sha K l l'" "life_ok sha K l" "lf_task l = Some t" "tk_state t \<in> set final_states"
  shows "l' = l"
proof -
  have n: "tk_state t \<noteq> ''executing''" "tk_state t \<noteq> ''execution_queued''" "tk_state t \<noteq> ''needs_attention''" using assms(4) by (auto simp: final_states_def)
  have r: "\<not> running m" if "lf_attempts l = xs @ m # ys" for xs m ys using none_running [OF assms(2,3) n(1)] that by simp
  show ?thesis using assms(1)
    by (cases rule: life_step.cases) (use assms(3,4) n r in \<open>auto simp: lease_kept_def\<close>)
qed

text \<open>An attempt once started keeps its job and its number: no other worker takes it over.\<close>

lemma started_stays:
  assumes step: "life_step sha K l l'" and l: "life_ok sha K l" and m: "m \<in> set (lf_attempts l)" "am_started m \<noteq> None"
  shows "\<exists>n \<in> set (lf_attempts l'). am_id n = am_id m \<and> am_attempt n = am_attempt m \<and> am_job n = am_job m \<and> am_started n = am_started m"
  using step
proof (cases rule: life_step.cases)
  case (Admit t cs)
  then show ?thesis using l m(1) by (simp add: life_ok_def)
next
  case (Reclaim t xs x ys x')
  have "am_started x = None" using l Reclaim(2,3,5) by (auto simp: life_ok_def attempts_ok_def)
  then show ?thesis using m unfolding Reclaim(1) Reclaim(3) by auto
next
  case (Hold t xs x ys x')
  have "am_started x \<noteq> None \<Longrightarrow> am_job x \<noteq> None" using l Hold(2,3) by (auto simp: life_ok_def attempts_ok_def)
  then show ?thesis using m Hold(4) unfolding Hold(1) Hold(3) by (auto simp: lease_kept_def)
next
  case (Finish t state ms)
  then obtain n where "n \<in> set ms" "ended_attempt K t (lf_plans l) m n" using m(1) ended_image by metis
  then show ?thesis using ended_facts(2-4,6) unfolding Finish(1) by (auto intro!: bexI [of _ n])
qed (use m in auto)

lemma succeeded_stays:
  assumes step: "life_step sha K l l'" and l: "life_ok sha K l" and m: "m \<in> set (lf_attempts l)" "am_state m = ''succeeded''"
  shows "m \<in> set (lf_attempts l')"
proof -
  have r: "\<not> running m" using m(2) by (simp add: running_def)
  show ?thesis using step
  proof (cases rule: life_step.cases)
    case (Admit t cs)
    then show ?thesis using l m(1) by (simp add: life_ok_def)
  next
    case (Finish t state ms)
    then show ?thesis using ended_image [OF Finish(5) m(1)] r by (auto simp: ended_attempt_def)
  qed (use m r in \<open>auto simp: lease_kept_def\<close>)
qed

text \<open>Plans are only appended, and what they say is never rewritten.\<close>

lemma plans_frozen:
  assumes "life_step sha K l l'" "lf_task l \<noteq> None"
  shows "take (length (lf_plans l)) (map plan_content (lf_plans l')) = map plan_content (lf_plans l)"
  using assms by (cases rule: life_step.cases) (auto simp: plans_kept_def)

lemma task_stays:
  assumes "life_step sha K l l'" "lf_task l = Some t"
  shows "\<exists>t'. lf_task l' = Some t' \<and> task_kept t t'"
  using assms by (cases rule: life_step.cases) auto

end
