(* ===== verification/Agent_Invariants.thy ===== *)
theory Agent_Invariants
  imports Agent_Lifecycle
begin

text \<open>
  The transactions on remediation tasks as steps of the machine of \<open>Agent_Lifecycle\<close>. \<open>life_of a i\<close> reads the
  life of task \<open>i\<close> off the tables; \<open>ag_inv\<close> says that row identifiers are fresh and unique and that every
  life is in order; \<open>serves\<close> says that \<open>ag_inv\<close> holds afterwards and that every task only made steps of the
  machine. The rules of the first sections give \<open>serves\<close> for each kind of write, the later ones compose
  them along the code of each transaction.
\<close>

section \<open>The lives in the tables\<close>

definition nxt :: "agents \<Rightarrow> uuid" where
  "nxt a = db_next (gv_db (ag_gov a))"

definition life_of :: "agents \<Rightarrow> uuid \<Rightarrow> life" where
  "life_of a i = \<lparr>lf_task = row_by tk_id i (ag_tasks a), lf_plans = filter (\<lambda>p. pn_task p = i) (ag_plans a),
     lf_attempts = filter (\<lambda>m. am_task m = i) (ag_attempts a), lf_classes = filter (\<lambda>c. cl_task c = i) (ag_classes a)\<rparr>"

definition ids_ok :: "agents \<Rightarrow> bool" where
  "ids_ok a \<longleftrightarrow> 0 < nxt a
     \<and> distinct (map tk_id (ag_tasks a)) \<and> tk_id ` set (ag_tasks a) \<subseteq> {0<..<nxt a}
     \<and> distinct (map pn_id (ag_plans a)) \<and> pn_id ` set (ag_plans a) \<subseteq> {0<..<nxt a}
     \<and> distinct (map am_id (ag_attempts a)) \<and> am_id ` set (ag_attempts a) \<subseteq> {0<..<nxt a}"

definition policies_ok :: "agents \<Rightarrow> bool" where
  "policies_ok a \<longleftrightarrow> (\<forall>p \<in> set (ag_policies a). 1 \<le> po_max_attempts p)"

definition ag_inv :: "(string \<Rightarrow> string) \<Rightarrow> agents \<Rightarrow> bool" where
  "ag_inv sha a \<longleftrightarrow> ids_ok a \<and> policies_ok a \<and> (\<forall>i. life_ok sha (ag_checkpoints a) (life_of a i))"

definition follows :: "(string \<Rightarrow> string) \<Rightarrow> agents \<Rightarrow> agents \<Rightarrow> bool" where
  "follows sha a a' \<longleftrightarrow>
     set (ag_checkpoints a) \<subseteq> set (ag_checkpoints a') \<and>
     (\<forall>i. (life_step sha (ag_checkpoints a'))\<^sup>*\<^sup>* (life_of a i) (life_of a' i))"

definition serves :: "(string \<Rightarrow> string) \<Rightarrow> agents \<Rightarrow> agents \<Rightarrow> bool" where
  "serves sha a a' \<longleftrightarrow> ag_inv sha a' \<and> follows sha a a'"

lemma ended_attempt_mono:
  "ended_attempt K t ps m n \<Longrightarrow> set K \<subseteq> set K' \<Longrightarrow> ended_attempt K' t ps m n"
  using evidenced_mono [OF _ _ task_kept_refl plans_kept_refl] by (auto simp: ended_attempt_def split: if_split_asm)

lemma life_step_mono:
  assumes "life_step sha K l l'" "set K \<subseteq> set K'"
  shows "life_step sha K' l l'"
  using assms(1)
proof cases
  case (Admit t cs)
  then show ?thesis using life_step.Admit [of l t sha K' cs] by simp
next
  case (Prepare t t' ps cs)
  show ?thesis unfolding Prepare(1) by (rule life_step.Prepare) (rule Prepare(2-8))+
next
  case (Lease t m)
  show ?thesis unfolding Lease(1) by (rule life_step.Lease) (rule Lease(2-11))+
next
  case (Reclaim t xs m ys m')
  show ?thesis unfolding Reclaim(1) by (rule life_step.Reclaim) (rule Reclaim(2-14))+
next
  case (Hold t xs m ys m')
  show ?thesis unfolding Hold(1) by (rule life_step.Hold) (rule Hold(2-4))+
next
  case (Finish t state ms)
  have "list_all2 (ended_attempt K' t (lf_plans l)) (lf_attempts l) ms"
    using Finish(5) ended_attempt_mono [OF _ assms(2)] by (rule list_all2_mono)
  then show ?thesis unfolding Finish(1) by (intro life_step.Finish Finish(2-4))
next
  case (Recover t xs m ys m')
  have "evidenced K' t (lf_plans l) m'" using evidenced_mono [OF Recover(12) assms(2) task_kept_refl plans_kept_refl] .
  then show ?thesis unfolding Recover(1) by - (rule life_step.Recover, (rule Recover(2-11))+)
qed

lemma life_steps_mono:
  "(life_step sha K)\<^sup>*\<^sup>* l l' \<Longrightarrow> set K \<subseteq> set K' \<Longrightarrow> (life_step sha K')\<^sup>*\<^sup>* l l'"
  by (induction rule: rtranclp_induct) (auto intro: rtranclp.rtrancl_into_rtrancl life_step_mono)

lemma life_steps_keep: "(life_step sha K)\<^sup>*\<^sup>* l l' \<Longrightarrow> life_ok sha K l \<Longrightarrow> life_ok sha K l'"
  by (induction rule: rtranclp_induct) (auto intro: life_step_keeps)

lemma serves_refl [intro]: "ag_inv sha a \<Longrightarrow> serves sha a a"
  by (simp add: serves_def follows_def)

lemma serves_inv: "serves sha a b \<Longrightarrow> ag_inv sha b"
  by (simp add: serves_def)

lemma serves_trans [trans]:
  assumes "serves sha a b" "serves sha b c" shows "serves sha a c"
  using assms life_steps_mono unfolding serves_def follows_def by (meson order_trans rtranclp_trans)

text \<open>Only the life of task \<open>i\<close> changes, by at most one step.\<close>

lemma serves_one:
  assumes a: "ag_inv sha a" "ids_ok a'" "policies_ok a'" "set (ag_checkpoints a) \<subseteq> set (ag_checkpoints a')"
    and o: "\<And>j. j \<noteq> i \<Longrightarrow> life_of a' j = life_of a j"
    and s: "life_of a' i = life_of a i \<or> life_step sha (ag_checkpoints a') (life_of a i) (life_of a' i)"
  shows "serves sha a a'"
proof -
  have r: "(life_step sha (ag_checkpoints a'))\<^sup>*\<^sup>* (life_of a j) (life_of a' j)" for j using o s by (cases "j = i") auto
  have "life_ok sha (ag_checkpoints a') (life_of a j)" for j using a(1) life_ok_mono [OF _ a(4)] by (simp add: ag_inv_def)
  then have "life_ok sha (ag_checkpoints a') (life_of a' j)" for j using r life_steps_keep by metis
  then show ?thesis using a(2,3,4) r by (simp add: serves_def follows_def ag_inv_def)
qed

text \<open>Writes that touch none of the tables of the lives.\<close>

definition same :: "agents \<Rightarrow> agents \<Rightarrow> bool" where
  "same a a' \<longleftrightarrow> ag_tasks a' = ag_tasks a \<and> ag_plans a' = ag_plans a \<and> ag_attempts a' = ag_attempts a \<and> ag_classes a' = ag_classes a
     \<and> ag_checkpoints a' = ag_checkpoints a \<and> ag_policies a' = ag_policies a \<and> nxt a \<le> nxt a'"

lemma ids_ok_le:
  "ids_ok a \<Longrightarrow> ag_tasks a' = ag_tasks a \<Longrightarrow> ag_plans a' = ag_plans a \<Longrightarrow> ag_attempts a' = ag_attempts a \<Longrightarrow> nxt a \<le> nxt a' \<Longrightarrow> ids_ok a'"
  by (force simp: ids_ok_def)

lemma same_serves: "same a a' \<Longrightarrow> ag_inv sha a \<Longrightarrow> serves sha a a'"
  by (rule serves_one) (auto simp: same_def ag_inv_def policies_ok_def life_of_def intro: ids_ok_le)

lemma same_refl [simp]: "same a a"
  by (simp add: same_def)

lemma same_trans: "same a b \<Longrightarrow> same b c \<Longrightarrow> same a c"
  by (auto simp: same_def)

lemma same_audit [simp]: "same a (ag_audit a x1 x2 x3 x4 x5)"
  by (simp add: same_def ag_audit_def gov_audit_def audit_def nxt_def)

lemma same_send [simp]: "same a (ag_send a m)"
  by (simp add: same_def ag_send_def nxt_def)

lemma same_fresh: "ag_fresh a = (i, a') \<Longrightarrow> same a a' \<and> i = nxt a \<and> nxt a' = Suc (nxt a)"
  by (auto simp: same_def ag_fresh_def gov_fresh_def fresh_def nxt_def)

lemma same_feedback_comment [simp]: "same a (queueAgentTaskFeedbackProviderComment a x s v)"
  by (simp add: queueAgentTaskFeedbackProviderComment_def split: list.split option.split prod.split)

lemma same_attempt_comment [simp]: "same a (queueAgentTaskAttemptProviderComment a x m s)"
  by (simp add: queueAgentTaskAttemptProviderComment_def split: list.split option.split prod.split)

lemma same_attempt_status [simp]: "same a (queueAgentTaskAttemptStatus a x m)"
  by (simp add: queueAgentTaskAttemptStatus_def)

lemma same_source_comment_text [simp]: "same a (source_comment a t s r)"
  by (simp add: source_comment_def Let_def split: list.split option.split prod.split)

lemma same_source_comment: "queueAgentTaskSourceProviderComment e a t s = Inr a' \<Longrightarrow> same a a'"
  by (auto simp: queueAgentTaskSourceProviderComment_def bind_r_Inr_iff split: if_split_asm)

lemma same_resolution: "queueAgentTaskSourceResolution a i = Inr a' \<Longrightarrow> same a a'"
  by (auto simp: queueAgentTaskSourceResolution_def split: if_split_asm option.split_asm)

lemma same_cancellation: "queueAgentAdapterCancellation a i m j = Inr a' \<Longrightarrow> same a a'"
  by (auto simp: queueAgentAdapterCancellation_def Let_def split: if_split_asm)

lemma same_cancellations: "queue_cancellations i rows a = Inr a' \<Longrightarrow> same a a'"
  by (induction i rows a rule: queue_cancellations.induct) (auto simp: bind_r_Inr_iff intro: same_cancellation same_trans)

lemma same_delivery: "recordAgentDeliveryTx e a t m = Inr a' \<Longrightarrow> same a a'"
  by (auto simp: recordAgentDeliveryTx_def bind_r_Inr_iff Let_def same_def nxt_def split: if_split_asm option.split_asm)

lemma same_release [simp]: "same a (release_recovery a x s r v)"
  by (simp add: same_def release_recovery_def nxt_def)

section \<open>Writes to one task\<close>

definition open_task :: "agents \<Rightarrow> AgentTask \<Rightarrow> bool" where
  "open_task a t \<longleftrightarrow> row_by tk_id (tk_id t) (ag_tasks a) = Some t \<and> tk_state t \<noteq> ''executing'' \<and> tk_state t \<notin> set final_states"

lemma moved_keeps_id [simp]: "tk_id (moved s t) = tk_id t"
  by simp

lemma ag_inv_ids: "ag_inv sha a \<Longrightarrow> ids_ok a"
  by (simp add: ag_inv_def)

lemma ag_inv_policies: "ag_inv sha a \<Longrightarrow> policies_ok a"
  by (simp add: ag_inv_def)

lemma ag_inv_life: "ag_inv sha a \<Longrightarrow> life_ok sha (ag_checkpoints a) (life_of a i)"
  by (simp add: ag_inv_def)

lemma set_task_fields [simp]:
  "ag_plans (set_task a i f) = ag_plans a" "ag_attempts (set_task a i f) = ag_attempts a" "ag_classes (set_task a i f) = ag_classes a"
  "ag_checkpoints (set_task a i f) = ag_checkpoints a" "ag_policies (set_task a i f) = ag_policies a" "nxt (set_task a i f) = nxt a"
  "ag_gov (set_task a i f) = ag_gov a" "ag_tasks (set_task a i f) = update_where (\<lambda>t. tk_id t = i) f (ag_tasks a)"
  by (simp_all add: set_task_def nxt_def)

lemma set_attempts_fields [simp]:
  "ag_plans (set_attempts a p f) = ag_plans a" "ag_tasks (set_attempts a p f) = ag_tasks a" "ag_classes (set_attempts a p f) = ag_classes a"
  "ag_checkpoints (set_attempts a p f) = ag_checkpoints a" "ag_policies (set_attempts a p f) = ag_policies a"
  "nxt (set_attempts a p f) = nxt a" "ag_gov (set_attempts a p f) = ag_gov a"
  "ag_attempts (set_attempts a p f) = update_where p f (ag_attempts a)"
  by (simp_all add: set_attempts_def nxt_def)

lemma set_plans_fields [simp]:
  "ag_attempts (set_plans a p f) = ag_attempts a" "ag_tasks (set_plans a p f) = ag_tasks a" "ag_classes (set_plans a p f) = ag_classes a"
  "ag_checkpoints (set_plans a p f) = ag_checkpoints a" "ag_policies (set_plans a p f) = ag_policies a"
  "nxt (set_plans a p f) = nxt a" "ag_gov (set_plans a p f) = ag_gov a" "ag_plans (set_plans a p f) = update_where p f (ag_plans a)"
  by (simp_all add: set_plans_def nxt_def)

lemma row_by_set_task:
  "(\<And>x. tk_id (f x) = tk_id x) \<Longrightarrow>
     row_by tk_id j (update_where (\<lambda>t. tk_id t = i) f ts) = (if j = i then map_option f (row_by tk_id j ts) else row_by tk_id j ts)"
  by (induction ts) auto

lemma ids_ok_set_task: "ids_ok a \<Longrightarrow> (\<And>x. tk_id (f x) = tk_id x) \<Longrightarrow> ids_ok (set_task a i f)"
  by (simp add: ids_ok_def table_simps)

lemma serves_set_task:
  assumes a: "ag_inv sha a" and t: "open_task a t" and f: "\<And>x. tk_id (f x) = tk_id x"
    and s: "task_kept t (f t)" "tk_state (f t) \<noteq> ''executing''" "tk_state (f t) \<noteq> ''completed''"
  shows "serves sha a (set_task a (tk_id t) f)"
proof (rule serves_one [OF a, where i = "tk_id t"])
  have r: "row_by tk_id (tk_id t) (ag_tasks a) = Some t" "tk_state t \<noteq> ''executing''" "tk_state t \<notin> set final_states"
    using t by (simp_all add: open_task_def)
  have "life_step sha (ag_checkpoints a) (life_of a (tk_id t))
    \<lparr>lf_task = Some (f t), lf_plans = lf_plans (life_of a (tk_id t)), lf_attempts = lf_attempts (life_of a (tk_id t)),
     lf_classes = lf_classes (life_of a (tk_id t)) @ []\<rparr>"
    by (rule life_step.Prepare [where t = t]) (use r s in \<open>simp_all add: life_of_def\<close>)
  moreover have "life_of (set_task a (tk_id t) f) (tk_id t) =
    \<lparr>lf_task = Some (f t), lf_plans = lf_plans (life_of a (tk_id t)), lf_attempts = lf_attempts (life_of a (tk_id t)),
     lf_classes = lf_classes (life_of a (tk_id t)) @ []\<rparr>" using r by (simp add: life_of_def row_by_set_task f)
  ultimately show "life_of (set_task a (tk_id t) f) (tk_id t) = life_of a (tk_id t) \<or>
    life_step sha (ag_checkpoints (set_task a (tk_id t) f)) (life_of a (tk_id t)) (life_of (set_task a (tk_id t) f) (tk_id t))" by simp
qed (use a f in \<open>auto simp: ag_inv_def policies_ok_def life_of_def row_by_set_task intro: ids_ok_set_task\<close>)

lemma open_set_task:
  assumes "open_task a t" "\<And>x. tk_id (f x) = tk_id x" "tk_state (f t) \<noteq> ''executing''" "tk_state (f t) \<notin> set final_states"
  shows "open_task (set_task a (tk_id t) f) (f t)"
  using assms by (simp add: open_task_def row_by_set_task)

lemma open_same: "same a a' \<Longrightarrow> open_task a' t = open_task a t"
  by (simp add: same_def open_task_def)

text \<open>A new classification of the task, and new or updated plans.\<close>

lemma serves_class:
  assumes a: "ag_inv sha a" and t: "open_task a t" and c: "cl_task c = tk_id t"
  shows "serves sha a (a\<lparr>ag_classes := ag_classes a @ [c]\<rparr>)"
proof (rule serves_one [OF a, where i = "tk_id t"])
  have r: "row_by tk_id (tk_id t) (ag_tasks a) = Some t" "tk_state t \<noteq> ''executing''" "tk_state t \<notin> set final_states" "tk_state t \<noteq> ''completed''"
    using t by (auto simp: open_task_def final_states_def)
  have "life_step sha (ag_checkpoints a) (life_of a (tk_id t))
    \<lparr>lf_task = Some t, lf_plans = lf_plans (life_of a (tk_id t)), lf_attempts = lf_attempts (life_of a (tk_id t)),
     lf_classes = lf_classes (life_of a (tk_id t)) @ [c]\<rparr>"
    by (rule life_step.Prepare [where t = t]) (use r in \<open>simp_all add: life_of_def\<close>)
  then show "life_of (a\<lparr>ag_classes := ag_classes a @ [c]\<rparr>) (tk_id t) = life_of a (tk_id t) \<or>
    life_step sha (ag_checkpoints (a\<lparr>ag_classes := ag_classes a @ [c]\<rparr>)) (life_of a (tk_id t))
      (life_of (a\<lparr>ag_classes := ag_classes a @ [c]\<rparr>) (tk_id t))" using r c by (simp add: life_of_def)
qed (use a c in \<open>auto simp: ag_inv_def policies_ok_def life_of_def ids_ok_def nxt_def\<close>)

lemma serves_plans:
  assumes a: "ag_inv sha a" and t: "open_task a t"
    and o: "\<And>j. j \<noteq> tk_id t \<Longrightarrow> filter (\<lambda>p. pn_task p = j) ps = filter (\<lambda>p. pn_task p = j) (ag_plans a)"
    and k: "plans_kept sha (filter (\<lambda>p. pn_task p = tk_id t) (ag_plans a)) (filter (\<lambda>p. pn_task p = tk_id t) ps)"
    and i: "distinct (map pn_id ps)" "pn_id ` set ps \<subseteq> {0<..<nxt a}"
  shows "serves sha a (a\<lparr>ag_plans := ps\<rparr>)"
proof (rule serves_one [OF a, where i = "tk_id t"])
  have r: "row_by tk_id (tk_id t) (ag_tasks a) = Some t" "tk_state t \<noteq> ''executing''" "tk_state t \<notin> set final_states" "tk_state t \<noteq> ''completed''"
    using t by (auto simp: open_task_def final_states_def)
  have "life_step sha (ag_checkpoints a) (life_of a (tk_id t))
    \<lparr>lf_task = Some t, lf_plans = filter (\<lambda>p. pn_task p = tk_id t) ps, lf_attempts = lf_attempts (life_of a (tk_id t)),
     lf_classes = lf_classes (life_of a (tk_id t)) @ []\<rparr>"
    by (rule life_step.Prepare [where t = t]) (use r k in \<open>simp_all add: life_of_def\<close>)
  then show "life_of (a\<lparr>ag_plans := ps\<rparr>) (tk_id t) = life_of a (tk_id t) \<or>
    life_step sha (ag_checkpoints (a\<lparr>ag_plans := ps\<rparr>)) (life_of a (tk_id t)) (life_of (a\<lparr>ag_plans := ps\<rparr>) (tk_id t))"
    using r by (simp add: life_of_def)
qed (use a o i in \<open>auto simp: ag_inv_def policies_ok_def life_of_def ids_ok_def nxt_def\<close>)

lemma integrity_content: "plan_content p = plan_content q \<Longrightarrow> validateAgentTaskPlanIntegrity sha p = validateAgentTaskPlanIntegrity sha q"
  by (simp add: plan_content_def validateAgentTaskPlanIntegrity_def)

text \<open>Plans of one task whose state changes and whose content does not.\<close>

lemma serves_set_plans:
  assumes a: "ag_inv sha a" and t: "open_task a t"
    and q: "\<And>p. p \<in> set (ag_plans a) \<Longrightarrow> q p \<Longrightarrow> pn_task p = tk_id t \<and> plan_content (f p) = plan_content p
        \<and> (pn_state (f p) = ''approved'' \<longrightarrow> pn_approved_by (f p) \<noteq> None)"
  shows "serves sha a (set_plans a q f)"
proof -
  let ?ps = "update_where q f (ag_plans a)"
  have c: "plan_content (if q p then f p else p) = plan_content p" if "p \<in> set (ag_plans a)" for p using q [OF that] by simp
  have ids: "map pn_id ?ps = map pn_id (ag_plans a)" using content_fields(1) [OF c] by (simp add: update_where_def)
  have tk: "pn_task (if q p then f p else p) = pn_task p" if "p \<in> set (ag_plans a)" for p using content_fields(2) [OF c [OF that]] .
  have fl: "filter (\<lambda>p. pn_task p = j) ?ps = update_where q f (filter (\<lambda>p. pn_task p = j) (ag_plans a))" for j
    unfolding update_where_def filter_map comp_def by (rule arg_cong [where f = "map _"], rule filter_cong [OF refl]) (simp only: tk)
  have o: "filter (\<lambda>p. pn_task p = j) ?ps = filter (\<lambda>p. pn_task p = j) (ag_plans a)" if "j \<noteq> tk_id t" for j
    unfolding fl by (rule update_where_id) (use q that in auto)
  let ?xs = "filter (\<lambda>p. pn_task p = tk_id t) (ag_plans a)"
  have m: "map plan_content (update_where q f ?xs) = map plan_content ?xs" using c by (simp add: update_where_def)
  then have rv: "map pn_revision (update_where q f ?xs) = map pn_revision ?xs"
    using content_fields(3) [OF c] by (simp add: update_where_def)
  have "plans_ok sha (update_where q f ?xs)" if "plans_ok sha ?xs"
  proof -
    have one: "validateAgentTaskPlanIntegrity sha p' \<and> pn_revision p' \<ge> 1 \<and> (pn_state p' = ''approved'' \<longrightarrow> pn_approved_by p' \<noteq> None)"
      if p: "p' = (if q p then f p else p)" "p \<in> set ?xs" for p p'
    proof -
      have "plan_content p' = plan_content p" using c p by simp
      moreover have "validateAgentTaskPlanIntegrity sha p \<and> pn_revision p \<ge> 1 \<and> (pn_state p = ''approved'' \<longrightarrow> pn_approved_by p \<noteq> None)"
        using \<open>plans_ok sha ?xs\<close> p(2) by (simp add: plans_ok_def)
      ultimately show ?thesis using q [of p] p integrity_content [of p' p sha] content_fields(3) [of p' p] by (cases "q p") simp_all
    qed
    have "distinct (map pn_revision (update_where q f ?xs))" using that unfolding rv by (simp only: plans_ok_def)
    moreover have "validateAgentTaskPlanIntegrity sha p' \<and> pn_revision p' \<ge> 1 \<and> (pn_state p' = ''approved'' \<longrightarrow> pn_approved_by p' \<noteq> None)"
      if "p' \<in> set (update_where q f ?xs)" for p'
      using that unfolding set_update_where by (rule imageE) (rule one)
    ultimately show ?thesis unfolding plans_ok_def by blast
  qed
  then have k: "plans_kept sha ?xs (filter (\<lambda>p. pn_task p = tk_id t) ?ps)"
    unfolding fl plans_kept_def using m by (simp add: take_map)
  have "pn_id ` set ?ps = pn_id ` set (ag_plans a)" using ids by (metis list.set_map)
  then show ?thesis
    unfolding set_plans_def by (intro serves_plans [OF a t o k]) (use a ids in \<open>auto simp: ag_inv_def ids_ok_def\<close>)
qed

section \<open>Writes to attempts\<close>

lemma attempt_life:
  "m \<in> set (lf_attempts (life_of a i)) \<longleftrightarrow> m \<in> set (ag_attempts a) \<and> am_task m = i"
  by (simp add: life_of_def)

lemma life_task [simp]: "lf_task (life_of a i) = row_by tk_id i (ag_tasks a)"
  by (simp add: life_of_def)

lemma attempt_task:
  assumes "ag_inv sha a" "m \<in> set (ag_attempts a)"
  obtains t where "row_by tk_id (am_task m) (ag_tasks a) = Some t" "tk_id t = am_task m" "t \<in> set (ag_tasks a)"
proof (cases "row_by tk_id (am_task m) (ag_tasks a)")
  case None
  then show ?thesis using ag_inv_life [OF assms(1), of "am_task m"] assms(2) attempt_life [of m a "am_task m"] by (simp add: life_ok_def)
next
  case (Some t)
  then show ?thesis using that row_by_SomeD [OF Some] by blast
qed

lemma running_cleared:
  assumes "ag_inv sha a" "m \<in> set (ag_attempts a)" "running m" "row_by tk_id (am_task m) (ag_tasks a) = Some t"
  shows "cleared t (filter (\<lambda>p. pn_task p = am_task m) (ag_plans a)) (filter (\<lambda>c. cl_task c = am_task m) (ag_classes a)) m"
    and "tk_state t = ''executing''"
proof -
  show c: "cleared t (filter (\<lambda>p. pn_task p = am_task m) (ag_plans a)) (filter (\<lambda>c. cl_task c = am_task m) (ag_classes a)) m"
    using ag_inv_life [OF assms(1), of "am_task m"] assms(2-4) by (simp add: life_ok_def life_of_def)
  then show "tk_state t = ''executing''" by (simp add: cleared_def)
qed

lemma one_running_row:
  assumes "ag_inv sha a" "m \<in> set (ag_attempts a)" "n \<in> set (ag_attempts a)" "running m" "running n" "am_task m = am_task n"
  shows "m = n"
  using one_running [OF ag_inv_life [OF assms(1), of "am_task m"], of m n] assms(2-6) by (simp add: attempt_life)

lemma same_id:
  "ag_inv sha a \<Longrightarrow> m \<in> set (ag_attempts a) \<Longrightarrow> n \<in> set (ag_attempts a) \<Longrightarrow> am_id m = am_id n \<Longrightarrow> m = n"
  by (auto simp: ag_inv_def ids_ok_def intro: distinct_key_eq)

lemma update_one:
  assumes "distinct ms" "m \<in> set ms" "\<And>n. n \<in> set ms \<Longrightarrow> p n \<longleftrightarrow> n = m"
  obtains us vs where "ms = us @ m # vs" "update_where p f ms = us @ f m # vs"
proof -
  obtain us vs where u: "ms = us @ m # vs" "m \<notin> set us" using split_list_first [OF assms(2)] by auto
  have "\<not> p n" if "n \<in> set us \<union> set vs" for n using that assms(1,3) u by auto
  then have "update_where p f us = us" "update_where p f vs = vs" by (auto intro: update_where_id)
  then show ?thesis using that u assms(3) [of m] by (simp add: update_where_def)
qed

lemma filter_update_task:
  assumes "\<And>n. n \<in> set ms \<Longrightarrow> p n \<Longrightarrow> am_task (f n) = am_task n"
  shows "filter (\<lambda>n. am_task n = i) (update_where p f ms) = update_where p f (filter (\<lambda>n. am_task n = i) ms)"
  unfolding update_where_def filter_map comp_def by (rule arg_cong [where f = "map _"], rule filter_cong [OF refl]) (use assms in auto)

lemma untouched_task:
  assumes "\<And>n. n \<in> set ms \<Longrightarrow> p n \<Longrightarrow> am_task n \<noteq> j"
  shows "update_where p f (filter (\<lambda>m. am_task m = j) ms) = filter (\<lambda>m. am_task m = j) ms"
  by (rule update_where_id) (use assms in auto)

lemma ids_ok_attempts:
  assumes "ids_ok a" "\<And>n. n \<in> set (ag_attempts a) \<Longrightarrow> p n \<Longrightarrow> am_id (f n) = am_id n"
  shows "ids_ok (set_attempts a p f)"
proof -
  have "map am_id (update_where p f (ag_attempts a)) = map am_id (ag_attempts a)" using assms(2) by (simp add: update_where_def)
  moreover from this have "am_id ` set (update_where p f (ag_attempts a)) = am_id ` set (ag_attempts a)" by (metis list.set_map)
  ultimately show ?thesis using assms(1) by (simp add: ids_ok_def)
qed

text \<open>One attempt \<open>m\<close> is replaced by \<open>m'\<close>; its life becomes \<open>l'\<close>.\<close>

lemma serves_replace:
  assumes a: "ag_inv sha a" and m: "m \<in> set (ag_attempts a)" and p: "\<And>n. n \<in> set (ag_attempts a) \<Longrightarrow> p n \<longleftrightarrow> n = m"
    and k: "am_id (f m) = am_id m" "attempt_key (f m) = attempt_key m"
    and s: "\<And>us vs. filter (\<lambda>n. am_task n = am_task m) (ag_attempts a) = us @ m # vs \<Longrightarrow>
        life_step sha (ag_checkpoints a) (life_of a (am_task m)) ((life_of a (am_task m))\<lparr>lf_attempts := us @ f m # vs\<rparr>)"
  shows "serves sha a (set_attempts a p f)"
proof (rule serves_one [OF a, where i = "am_task m"])
  let ?ms = "filter (\<lambda>n. am_task n = am_task m) (ag_attempts a)"
  have tk: "am_task (f n) = am_task n" if "n \<in> set (ag_attempts a)" "p n" for n using p that k(2) by (auto simp: attempt_key_def)
  have d: "distinct ?ms" "m \<in> set ?ms" using a m by (auto simp: ag_inv_def ids_ok_def distinct_map)
  have e: "p n \<longleftrightarrow> n = m" if "n \<in> set ?ms" for n using p that by simp
  obtain us vs where u: "?ms = us @ m # vs" "update_where p f ?ms = us @ f m # vs" using d e by (rule update_one)
  have "life_of (set_attempts a p f) (am_task m) = (life_of a (am_task m))\<lparr>lf_attempts := us @ f m # vs\<rparr>"
    using u(2) by (simp add: life_of_def filter_update_task [OF tk])
  then show "life_of (set_attempts a p f) (am_task m) = life_of a (am_task m) \<or>
      life_step sha (ag_checkpoints (set_attempts a p f)) (life_of a (am_task m)) (life_of (set_attempts a p f) (am_task m))"
    using s [OF u(1)] by simp
  show "life_of (set_attempts a p f) j = life_of a j" if "j \<noteq> am_task m" for j
    using untouched_task [of "ag_attempts a" p j f] that p by (simp add: life_of_def filter_update_task [OF tk])
  show "ids_ok (set_attempts a p f)" using ids_ok_attempts [of a p f] a p k(1) by (auto simp: ag_inv_def)
qed (use a in \<open>auto simp: ag_inv_def policies_ok_def\<close>)

lemma serves_hold:
  assumes a: "ag_inv sha a" and m: "m \<in> set (ag_attempts a)" and p: "\<And>n. n \<in> set (ag_attempts a) \<Longrightarrow> p n \<longleftrightarrow> n = m"
    and k: "lease_kept m (f m)"
  shows "serves sha a (set_attempts a p f)"
proof (rule serves_replace [OF a m p])
  obtain t where t: "row_by tk_id (am_task m) (ag_tasks a) = Some t" using attempt_task [OF a m] .
  fix us vs assume "filter (\<lambda>n. am_task n = am_task m) (ag_attempts a) = us @ m # vs"
  then show "life_step sha (ag_checkpoints a) (life_of a (am_task m)) ((life_of a (am_task m))\<lparr>lf_attempts := us @ f m # vs\<rparr>)"
    by (intro life_step.Hold [where t = t]) (use t k in \<open>simp_all add: life_of_def\<close>)
qed (use k in \<open>simp_all add: lease_kept_def\<close>)

text \<open>Execution ends: the one running attempt of the task and the task move together.\<close>

lemma serves_finish:
  assumes a: "ag_inv sha a" and t: "row_by tk_id (tk_id t) (ag_tasks a) = Some t" "tk_state t = ''executing''"
    and s: "state \<in> {''needs_attention'', ''completed'', ''failed'', ''cancelled''}"
    and p: "\<And>n. n \<in> set (ag_attempts a) \<Longrightarrow> p n \<longleftrightarrow> running n \<and> am_task n = tk_id t"
    and f: "\<And>n. n \<in> set (ag_attempts a) \<Longrightarrow> p n \<Longrightarrow>
        ended_attempt (ag_checkpoints a) t (filter (\<lambda>p. pn_task p = tk_id t) (ag_plans a)) n (f n)"
  shows "serves sha a (set_task (set_attempts a p f) (tk_id t) (moved state))"
proof (rule serves_one [OF a, where i = "tk_id t"])
  let ?a = "set_task (set_attempts a p f) (tk_id t) (moved state)"
  have q: "am_id (f n) = am_id n" "am_task (f n) = am_task n" if "n \<in> set (ag_attempts a)" "p n" for n
    using f [OF that] ended_facts by (auto simp: attempt_key_def)
  have "list_all2 (ended_attempt (ag_checkpoints a) t (lf_plans (life_of a (tk_id t)))) (lf_attempts (life_of a (tk_id t)))
          (update_where p f (lf_attempts (life_of a (tk_id t))))"
    using p f by (auto simp: list_all2_conv_all_nth update_where_def life_of_def ended_attempt_def in_set_conv_nth
        dest: nth_mem split: if_split_asm)
  then have "life_step sha (ag_checkpoints a) (life_of a (tk_id t)) ((life_of a (tk_id t))\<lparr>lf_task := Some (moved state t),
      lf_attempts := update_where p f (lf_attempts (life_of a (tk_id t)))\<rparr>)"
    by (intro life_step.Finish) (use t s in simp_all)
  moreover have "life_of ?a (tk_id t) = (life_of a (tk_id t))\<lparr>lf_task := Some (moved state t),
      lf_attempts := update_where p f (lf_attempts (life_of a (tk_id t)))\<rparr>"
    using t by (simp add: life_of_def filter_update_task [OF q(2)] row_by_set_task)
  ultimately show "life_of ?a (tk_id t) = life_of a (tk_id t) \<or> life_step sha (ag_checkpoints ?a) (life_of a (tk_id t)) (life_of ?a (tk_id t))"
    by simp
  show "life_of ?a j = life_of a j" if "j \<noteq> tk_id t" for j
    using untouched_task [of "ag_attempts a" p j f] that p by (simp add: life_of_def filter_update_task [OF q(2)] row_by_set_task)
  show "ids_ok ?a" using ids_ok_set_task ids_ok_attempts [of a p f] a q(1) by (simp add: ag_inv_def)
qed (use a in \<open>auto simp: ag_inv_def policies_ok_def\<close>)

lemma serves_lease:
  assumes a: "ag_inv sha a" and t: "row_by tk_id (tk_id t) (ag_tasks a) = Some t" "tk_state t = ''execution_queued''"
    and i: "am_id m \<notin> am_id ` set (ag_attempts a)" "0 < am_id m" "am_id m < nxt a" "am_task m = tk_id t"
    and m: "running m" "am_attempt m = 1" "am_job m = None" "am_started m = None" "am_locked m \<noteq> None"
    and k: "\<And>n. n \<in> set (ag_attempts a) \<Longrightarrow> attempt_key n \<noteq> attempt_key m"
    and c: "cleared (moved ''executing'' t) (filter (\<lambda>p. pn_task p = tk_id t) (ag_plans a)) (filter (\<lambda>c. cl_task c = tk_id t) (ag_classes a)) m"
    and b: "wp_enabled (tk_workflow t) \<longrightarrow> used (filter (\<lambda>n. am_task n = tk_id t) (ag_attempts a)) < wp_attempts (tk_workflow t)"
  shows "serves sha a (set_task (a\<lparr>ag_attempts := ag_attempts a @ [m]\<rparr>) (tk_id t) (moved ''executing''))"
proof (rule serves_one [OF a, where i = "tk_id t"])
  let ?b = "a\<lparr>ag_attempts := ag_attempts a @ [m]\<rparr>" and ?l = "life_of a (tk_id t)"
  let ?a = "set_task ?b (tk_id t) (moved ''executing'')"
  have k': "attempt_key m \<notin> attempt_key ` {n \<in> set (ag_attempts a). am_task n = tk_id t}" using k by fastforce
  have "life_step sha (ag_checkpoints a) ?l (?l\<lparr>lf_task := Some (moved ''executing'' t), lf_attempts := lf_attempts ?l @ [m]\<rparr>)"
    by (rule life_step.Lease [where t = t]) (use t m c b k' in \<open>simp_all add: life_of_def\<close>)
  moreover have "life_of ?a (tk_id t) = ?l\<lparr>lf_task := Some (moved ''executing'' t), lf_attempts := lf_attempts ?l @ [m]\<rparr>"
    using t i(4) by (simp add: life_of_def row_by_set_task)
  ultimately show "life_of ?a (tk_id t) = ?l \<or> life_step sha (ag_checkpoints ?a) ?l (life_of ?a (tk_id t))" by simp
  show "life_of ?a j = life_of a j" if "j \<noteq> tk_id t" for j using that i(4) by (simp add: life_of_def row_by_set_task)
  have "ids_ok ?b" using ag_inv_ids [OF a] i by (auto simp: ids_ok_def nxt_def)
  then show "ids_ok ?a" by (rule ids_ok_set_task) simp
qed (use a in \<open>auto simp: ag_inv_def policies_ok_def\<close>)

lemma serves_recover:
  assumes a: "ag_inv sha a" and t: "row_by tk_id (tk_id t) (ag_tasks a) = Some t" "tk_state t = ''needs_attention''"
    and m: "m \<in> set (ag_attempts a)" "am_task m = tk_id t" "am_state m = ''needs_attention''"
    and k: "am_state m' = ''succeeded''" "am_id m' = am_id m" "attempt_key m' = attempt_key m" "am_attempt m' = am_attempt m"
      "am_job m' = am_job m" "am_started m' = am_started m"
    and v: "evidenced (ag_checkpoints a) t (filter (\<lambda>p. pn_task p = tk_id t) (ag_plans a)) m'"
  shows "serves sha a (set_task (set_attempts a (\<lambda>n. am_id n = am_id m) (\<lambda>_. m')) (tk_id t) (moved ''completed''))"
proof (rule serves_one [OF a, where i = "tk_id t"])
  let ?p = "\<lambda>n. am_id n = am_id m" and ?l = "life_of a (tk_id t)" and ?ms = "filter (\<lambda>n. am_task n = tk_id t) (ag_attempts a)"
  let ?a = "set_task (set_attempts a ?p (\<lambda>_. m')) (tk_id t) (moved ''completed'')"
  have e: "?p n \<longleftrightarrow> n = m" if "n \<in> set (ag_attempts a)" for n using that m same_id [OF a] by blast
  have tk: "am_task m' = am_task n" if "n \<in> set (ag_attempts a)" "?p n" for n using e that k(3) by (simp add: attempt_key_def)
  have d: "distinct ?ms" "m \<in> set ?ms" using a m by (auto simp: ag_inv_def ids_ok_def distinct_map)
  have e': "?p n \<longleftrightarrow> n = m" if "n \<in> set ?ms" for n using e [of n] that by simp
  obtain us vs where u: "?ms = us @ m # vs" "update_where ?p (\<lambda>_. m') ?ms = us @ m' # vs"
    using update_one [of ?ms m ?p "\<lambda>_. m'", OF d e'] by blast
  have "life_step sha (ag_checkpoints a) ?l (?l\<lparr>lf_task := Some (moved ''completed'' t), lf_attempts := us @ m' # vs\<rparr>)"
    by (rule life_step.Recover [where t = t and m = m]) (use t m k v u(1) in \<open>simp_all add: life_of_def\<close>)
  moreover have "life_of ?a (tk_id t) = ?l\<lparr>lf_task := Some (moved ''completed'' t), lf_attempts := us @ m' # vs\<rparr>"
    using t u(2) by (simp add: life_of_def filter_update_task [OF tk] row_by_set_task)
  ultimately show "life_of ?a (tk_id t) = ?l \<or> life_step sha (ag_checkpoints ?a) ?l (life_of ?a (tk_id t))" by simp
  show "life_of ?a j = life_of a j" if "j \<noteq> tk_id t" for j
    using untouched_task [of "ag_attempts a" ?p j "\<lambda>_. m'"] that e m(2)
    by (simp add: life_of_def filter_update_task [OF tk] row_by_set_task)
  have "ids_ok (set_attempts a ?p (\<lambda>_. m'))" by (rule ids_ok_attempts) (use a k(2) in \<open>simp_all add: ag_inv_def\<close>)
  then show "ids_ok ?a" by (rule ids_ok_set_task) simp
qed (use a in \<open>auto simp: ag_inv_def policies_ok_def\<close>)

text \<open>A new task.\<close>

lemma serves_admit:
  assumes a: "ag_inv sha a" and t: "tk_id t \<notin> tk_id ` set (ag_tasks a)" "0 < tk_id t" "tk_id t < nxt a" "tk_state t = ''received''"
    "tk_max_attempts t \<ge> 1"
  shows "serves sha a (a\<lparr>ag_tasks := ag_tasks a @ [t]\<rparr>)"
proof (rule serves_one [OF a, where i = "tk_id t"])
  let ?a = "a\<lparr>ag_tasks := ag_tasks a @ [t]\<rparr>" and ?l = "life_of a (tk_id t)"
  have n: "row_by tk_id (tk_id t) (ag_tasks a) = None" using t(1) by (simp add: row_by_None_iff)
  then have e: "lf_plans ?l = []" "lf_attempts ?l = []" using ag_inv_life [OF a, of "tk_id t"] by (simp_all add: life_ok_def)
  have "life_step sha (ag_checkpoints a) ?l \<lparr>lf_task = Some t, lf_plans = [], lf_attempts = [], lf_classes = lf_classes ?l\<rparr>"
    by (rule life_step.Admit) (use n t in simp_all)
  moreover have "life_of ?a (tk_id t) = \<lparr>lf_task = Some t, lf_plans = [], lf_attempts = [], lf_classes = lf_classes ?l\<rparr>"
    using n e by (simp add: life_of_def row_by_append)
  ultimately show "life_of ?a (tk_id t) = ?l \<or> life_step sha (ag_checkpoints ?a) ?l (life_of ?a (tk_id t))" by simp
  show "life_of ?a j = life_of a j" if "j \<noteq> tk_id t" for j
    using that by (cases "row_by tk_id j (ag_tasks a)") (simp_all add: life_of_def row_by_append)
  show "ids_ok ?a" using ag_inv_ids [OF a] t by (auto simp: ids_ok_def nxt_def)
qed (use a in \<open>auto simp: ag_inv_def policies_ok_def\<close>)

end
