(* ===== verification/Agent_Steps.thy ===== *)
theory Agent_Steps
  imports Agent_Invariants
begin

text \<open>
  Every transaction of \<open>Agent_Tasks\<close> and \<open>Agent_Execution\<close> serves the lives of the tasks: it keeps
  \<open>ag_inv\<close>, and every task only makes steps of the machine of \<open>Agent_Lifecycle\<close>.
\<close>

section \<open>Shared parts\<close>

lemma serves_same_after: "serves sha a b \<Longrightarrow> same b c \<Longrightarrow> serves sha a c"
  using serves_trans [OF _ same_serves [OF _ serves_inv]] by blast

lemma same_serves_before: "ag_inv sha a \<Longrightarrow> same a b \<Longrightarrow> (ag_inv sha b \<Longrightarrow> serves sha b c) \<Longrightarrow> serves sha a c"
  using serves_trans same_serves serves_inv by blast

lemma row_open:
  "row_by tk_id i (ag_tasks a) = Some t \<Longrightarrow> tk_state t \<noteq> ''executing'' \<Longrightarrow> tk_state t \<notin> set final_states \<Longrightarrow> open_task a t"
  using row_by_SomeD [of tk_id i "ag_tasks a" t] by (simp add: open_task_def)

lemma tenant_task_row:
  assumes "ag_inv sha a" "tenant_task a tenantID taskID = Inr t"
  shows "row_by tk_id taskID (ag_tasks a) = Some t" "tk_id t = taskID"
proof -
  have "t \<in> set (ag_tasks a)" "tk_id t = taskID"
    using assms(2) by (auto simp: tenant_task_def find_Some_iff split: option.split_asm)
  then show "row_by tk_id taskID (ag_tasks a) = Some t" "tk_id t = taskID"
    using assms(1) row_by_eqI [of tk_id "ag_tasks a" t] by (auto simp: ag_inv_def ids_ok_def)
qed

lemma policy_bound: "ag_inv sha a \<Longrightarrow> find_policy a x y z w = Some p \<Longrightarrow> 1 \<le> po_max_attempts p"
  by (auto simp: find_policy_def find_Some_iff ag_inv_def policies_ok_def)

lemma serves_classification:
  assumes a: "ag_inv sha a" and t: "open_task a t" and r: "recordAgentTaskClassification a t c = Inr a'"
  shows "serves sha a a'" "open_task a' t" "latestAgentTaskClassification a' (tk_id t) = Inr (c\<lparr>cl_task := tk_id t, cl_task_revision := tk_revision t\<rparr>)"
proof -
  let ?c = "c\<lparr>cl_task := tk_id t, cl_task_revision := tk_revision t\<rparr>"
  obtain x1 x2 x3 x4 x5 where e: "a' = ag_audit (a\<lparr>ag_classes := ag_classes a @ [?c]\<rparr>) x1 x2 x3 x4 x5"
    using r by (auto simp: recordAgentTaskClassification_def Let_def split: if_split_asm)
  show "serves sha a a'" unfolding e by (rule serves_same_after [OF serves_class [OF a t, where c = ?c]]) simp_all
  show "open_task a' t" using t by (simp add: e open_task_def ag_audit_def)
  show "latestAgentTaskClassification a' (tk_id t) = Inr ?c"
    unfolding e latestAgentTaskClassification_def by (cases "filter (\<lambda>d. cl_task d = tk_id t) (ag_classes a)") (simp_all add: ag_audit_def)
qed

lemma serves_insert_plan:
  assumes a: "ag_inv (ae_sha e) a" and t: "open_task a t" and v: "1 \<le> revision"
    and r: "insert_plan e a (tk_id t) revision summary sections actor = Inr (a', p)"
  shows "serves (ae_sha e) a a'" "open_task a' t"
proof -
  obtain i b where f: "ag_fresh a = (i, b)" by (cases "ag_fresh a")
  have b: "same a b" "i = nxt a" "nxt b = Suc (nxt a)" using same_fresh [OF f] by simp_all
  have n: "\<not> list_ex (\<lambda>p. pn_task p = tk_id t \<and> pn_revision p = revision) (ag_plans a)"
    using r by (simp add: insert_plan_def split: if_split_asm)
  have p: "pn_id p = i" "pn_task p = tk_id t" "pn_revision p = revision" "pn_state p = ''awaiting_approval''"
      "validateAgentTaskPlanIntegrity (ae_sha e) p" "a' = b\<lparr>ag_plans := ag_plans b @ [p]\<rparr>"
    using r by (auto simp: insert_plan_def f scanAgentTaskPlan_def Let_def bind_r_Inr_iff split: if_split_asm)
  have ib: "ag_inv (ae_sha e) b" using same_serves [OF b(1) a] by (rule serves_inv)
  have ob: "open_task b t" using b(1) t by (simp add: open_same)
  let ?xs = "filter (\<lambda>p. pn_task p = tk_id t) (ag_plans b)"
  have pl: "ag_plans b = ag_plans a" using b(1) by (simp add: same_def)
  have "plans_ok (ae_sha e) (?xs @ [p])" if "plans_ok (ae_sha e) ?xs"
  proof -
    have "pn_revision p \<notin> pn_revision ` set ?xs" using n p(3) pl by (auto simp: list_ex_iff)
    then show ?thesis using that p(3-5) v by (simp add: plans_ok_def)
  qed
  then have k: "plans_kept (ae_sha e) ?xs (filter (\<lambda>p. pn_task p = tk_id t) (ag_plans b @ [p]))"
    using p(2) by (simp add: plans_kept_def)
  have "serves (ae_sha e) b (b\<lparr>ag_plans := ag_plans b @ [p]\<rparr>)"
    by (rule serves_plans [OF ib ob _ k]) (use ag_inv_ids [OF a] p b pl in \<open>auto simp: ids_ok_def\<close>)
  then show "serves (ae_sha e) a a'" unfolding p(6) using same_serves [OF b(1) a] serves_trans by blast
  show "open_task a' t" using ob by (simp add: p(6) open_task_def)
qed

lemma serves_supersede:
  assumes a: "ag_inv sha a" and t: "open_task a t"
  shows "serves sha a (supersede_plans a (tk_id t) planID)" "open_task (supersede_plans a (tk_id t) planID) t"
proof -
  show "serves sha a (supersede_plans a (tk_id t) planID)"
    unfolding supersede_plans_def by (rule serves_set_plans [OF a t]) (simp add: plan_content_def)
  show "open_task (supersede_plans a (tk_id t) planID) t" using t by (simp add: supersede_plans_def open_task_def)
qed

lemma serves_moved:
  assumes "ag_inv sha a" "open_task a t" "state \<noteq> ''executing''" "state \<noteq> ''completed''"
  shows "serves sha a (set_task a (tk_id t) (moved state))"
  by (rule serves_set_task [OF assms(1,2)]) (use assms(3,4) in simp_all)

section \<open>Policies and admission\<close>

lemma serves_policies:
  assumes a: "ag_inv sha a" and p: "\<And>p. p \<in> set ps \<Longrightarrow> 1 \<le> po_max_attempts p"
  shows "serves sha a (a\<lparr>ag_policies := ps\<rparr>)"
  by (rule serves_one [OF a]) (use ag_inv_ids [OF a] p in \<open>auto simp: policies_ok_def life_of_def ids_ok_def nxt_def\<close>)

lemma policy_row_bound [simp]: "po_max_attempts (policy_row i tenantID input v actor w) = pu_max_attempts input"
  by (simp add: policy_row_def)

lemma store_policy_serves:
  assumes a: "ag_inv sha a" and i: "1 \<le> pu_max_attempts input" and r: "store_policy a current tenantID actor input workflow = (a', p)"
  shows "serves sha a a'"
proof (cases current)
  case None
  obtain k b where f: "ag_fresh a = (k, b)" by (cases "ag_fresh a")
  have b: "same a b" using same_fresh [OF f] by simp
  let ?q = "policy_row k tenantID input 1 actor workflow"
  have "serves sha b (b\<lparr>ag_policies := ag_policies b @ [?q]\<rparr>)"
    by (rule serves_policies [OF serves_inv [OF same_serves [OF b a]]])
      (use ag_inv_policies [OF a] b i in \<open>auto simp: policies_ok_def same_def\<close>)
  note s = serves_same_after [OF serves_trans [OF same_serves [OF b a] this] same_audit]
  show ?thesis using r None f s by (auto simp: store_policy_def Let_def)
next
  case (Some old)
  let ?q = "policy_row (po_id old) tenantID input (po_revision old + 1) actor workflow"
  have "serves sha a (a\<lparr>ag_policies := update_where (\<lambda>q. po_id q = po_id old) (\<lambda>_. ?q) (ag_policies a)\<rparr>)"
    by (rule serves_policies [OF a]) (use ag_inv_policies [OF a] i in \<open>auto simp: policies_ok_def set_update_where\<close>)
  note s = serves_same_after [OF this same_audit]
  show ?thesis using r Some s by (auto simp: store_policy_def Let_def)
qed

lemma SaveAgentTaskPolicy_serves:
  assumes a: "ag_inv sha a" and r: "SaveAgentTaskPolicy a actor slug input = Inr (a', p)"
  shows "serves sha a a'"
proof -
  let ?i = "policy_defaults input"
  have v: "AgentTaskPolicyInput_Valid ?i" using r by (simp add: SaveAgentTaskPolicy_def Let_def split: if_split_asm)
  then have v: "1 \<le> pu_max_attempts ?i" by (simp add: AgentTaskPolicyInput_Valid_def split: if_split_asm)
  have "\<exists>current tenantID i w. store_policy a current tenantID actor i w = (a', p) \<and> pu_max_attempts i = pu_max_attempts ?i"
    using r unfolding SaveAgentTaskPolicy_def Let_def
    by (auto simp: bind_r_Inr_iff split: if_split_asm option.split_asm prod.split_asm) (fastforce+)?
  then obtain current tenantID i w where "store_policy a current tenantID actor i w = (a', p)" "pu_max_attempts i = pu_max_attempts ?i" by blast
  then show ?thesis using store_policy_serves [OF a] v by metis
qed

lemma insert_task_serves:
  assumes a: "ag_inv sha a" and p: "1 \<le> po_max_attempts p" and r: "insert_agent_task e a tenantID installationID i p actor = Some (a', t)"
  shows "serves sha a a'" "open_task a' t"
proof -
  obtain k b where f: "ag_fresh a = (k, b)" by (cases "ag_fresh a")
  have b: "same a b" "k = nxt a" "nxt b = Suc (nxt a)" using same_fresh [OF f] by simp_all
  have ib: "ag_inv sha b" using same_serves [OF b(1) a] by (rule serves_inv)
  have tk: "ag_tasks b = ag_tasks a" using b(1) by (simp add: same_def)
  have t: "tk_id t = k" "tk_state t = ''received''" "tk_max_attempts t = po_max_attempts p" "a' = b\<lparr>ag_tasks := ag_tasks b @ [t]\<rparr>"
    using r by (auto simp: insert_agent_task_def f Let_def split: if_split_asm)
  have n: "tk_id t \<notin> tk_id ` set (ag_tasks b)" "0 < tk_id t" "tk_id t < nxt b"
    using ag_inv_ids [OF a] tk b t(1) by (auto simp: ids_ok_def)
  have "serves sha b (b\<lparr>ag_tasks := ag_tasks b @ [t]\<rparr>)" by (rule serves_admit [OF ib n]) (use t p in simp_all)
  then show "serves sha a a'" unfolding t(4) using same_serves [OF b(1) a] serves_trans by blast
  have "row_by tk_id (tk_id t) (ag_tasks b) = None" using n(1) by (simp add: row_by_None_iff)
  then show "open_task a' t" by (simp add: t(4,2) open_task_def row_by_append final_states_def)
qed

lemma admit_serves:
  assumes a: "ag_inv sha a" and p: "1 \<le> po_max_attempts p" and r: "admit_agent_task e a tenantID installationID i p actor = Inr (a', t)"
  shows "serves sha a a'"
proof -
  obtain b c d x1 x2 x3 x4 x5 where s: "insert_agent_task e a tenantID installationID i p actor = Some (b, t)"
    and q: "recordAgentTaskClassification b t (Classify (ae_sha e) t '''' '''' []) = Inr c" "queueAgentTaskSourceResolution c (tk_id t) = Inr d"
      "a' = ag_audit d x1 x2 x3 x4 x5"
    using r by (auto simp: admit_agent_task_def bind_r_Inr_iff split: option.split_asm prod.split_asm)
  note b = insert_task_serves [OF a p s]
  note c = serves_classification [OF serves_inv [OF b(1)] b(2) q(1)]
  show ?thesis using serves_trans [OF b(1) c(1)] same_trans [OF same_resolution [OF q(2)] same_audit] unfolding q(3) by (rule serves_same_after)
qed

lemma createAgentTask_serves:
  assumes a: "ag_inv sha a" and r: "createAgentTask e a actor slug input x y = Inr (a', t)"
  shows "serves sha a a'"
proof -
  have "\<exists>tenantID installationID i p. find_policy a tenantID (ti_provider i) (ti_api i) (ti_repository i) = Some p
      \<and> admit_agent_task e a tenantID installationID i p actor = Inr (a', t)"
    using r unfolding createAgentTask_def Let_def
    by (clarsimp simp: bind_r_Inr_iff split: if_split_asm option.split_asm prod.split_asm) blast+
  then show ?thesis using admit_serves [OF a policy_bound [OF a]] by blast
qed

lemma CreateAgentTaskFromProviderIssue_serves:
  "ag_inv sha a \<Longrightarrow> CreateAgentTaskFromProviderIssue e a actor slug i v = Inr (a', t) \<Longrightarrow> serves sha a a'"
  unfolding CreateAgentTaskFromProviderIssue_def
  by (auto simp: bind_r_Inr_iff split: if_split_asm option.split_asm intro: createAgentTask_serves)

section \<open>Sources\<close>

lemma captured_sel [simp]:
  "tk_id (captured s t) = tk_id t" "tk_state (captured s t) = tk_state t" "task_kept t (captured s t)"
  by (simp_all add: captured_def task_kept_def)

lemma classify_source_serves:
  assumes a: "ag_inv sha a" and t: "open_task a t" and r: "classify_source e a t s = Inr (a', t')"
  shows "serves sha a a'" "tk_id t' = tk_id t"
    and "open_task a' t' \<or> (\<exists>c. latestAgentTaskClassification a' (tk_id t') = Inr c \<and> cl_decision c = ''rejected'')"
proof -
  have "serves sha a a' \<and> tk_id t' = tk_id t \<and>
    (open_task a' t' \<or> (\<exists>c. latestAgentTaskClassification a' (tk_id t') = Inr c \<and> cl_decision c = ''rejected''))"
  proof (cases "classified_text s")
    case None
    then show ?thesis using r a t by (auto simp: classify_source_def)
  next
    case (Some x)
    obtain title body labels where x: "x = (title, body, labels)" by (cases x)
    obtain c where c: "ApplySignal (Classify (ae_sha e) t title body labels) (ss_signal s) (tk_backend t) = Some c"
      using r Some x by (auto simp: classify_source_def split: option.split_asm)
    obtain b where b: "recordAgentTaskClassification a t c = Inr b"
      using r Some x c by (auto simp: classify_source_def bind_r_Inr_iff)
    note k = serves_classification [OF a t b]
    show ?thesis
    proof (cases "cl_decision c = ''rejected''")
      case True
      then have e: "a' = set_task b (tk_id t) (moved ''rejected'')" "t' = moved ''rejected'' t"
        using r Some x c b by (simp_all add: classify_source_def)
      have "serves sha b a'" unfolding e(1) by (rule serves_moved [OF serves_inv [OF k(1)] k(2)]) simp_all
      moreover have "latestAgentTaskClassification a' (tk_id t') = Inr (c\<lparr>cl_task := tk_id t, cl_task_revision := tk_revision t\<rparr>)"
        using k(3) by (simp add: e latestAgentTaskClassification_def)
      ultimately show ?thesis using serves_trans [OF k(1)] True e(2) by simp
    next
      case False
      then show ?thesis using r Some x c b k by (simp add: classify_source_def)
    qed
  qed
  then show "serves sha a a'" "tk_id t' = tk_id t"
    "open_task a' t' \<or> (\<exists>c. latestAgentTaskClassification a' (tk_id t') = Inr c \<and> cl_decision c = ''rejected'')" by blast+
qed

lemma recordGenerated_serves:
  assumes a: "ag_inv (ae_sha e) a" and t: "open_task a t" and r: "recordGeneratedAgentPlanTx e a t sections = Inr (a', t')"
  shows "serves (ae_sha e) a a'"
proof -
  have "\<exists>s rq b p c x1 x2 x3 x4 x5. insert_plan e (a\<lparr>ag_requirements := rq\<rparr>) (tk_id t) 1 (Summary s) s (tk_requested_by t) = Inr (b, p)
     \<and> queueAgentTaskSourceProviderComment e (set_task b (tk_id t) (moved ''awaiting_approval'')) (moved ''awaiting_approval'' t) ''plan'' = Inr c
     \<and> a' = ag_audit c x1 x2 x3 x4 x5"
    using r unfolding recordGeneratedAgentPlanTx_def Let_def
    by (clarsimp simp: bind_r_Inr_iff split: if_split_asm prod.split_asm) blast
  then obtain s rq b p c x1 x2 x3 x4 x5 where
    i: "insert_plan e (a\<lparr>ag_requirements := rq\<rparr>) (tk_id t) 1 (Summary s) s (tk_requested_by t) = Inr (b, p)"
    and c: "queueAgentTaskSourceProviderComment e (set_task b (tk_id t) (moved ''awaiting_approval'')) (moved ''awaiting_approval'' t) ''plan'' = Inr c"
    and e: "a' = ag_audit c x1 x2 x3 x4 x5" by blast
  have s: "same a (a\<lparr>ag_requirements := rq\<rparr>)" by (simp add: same_def nxt_def)
  note i' = serves_insert_plan [OF serves_inv [OF same_serves [OF s a]] _ _ i]
  have "open_task (a\<lparr>ag_requirements := rq\<rparr>) t" using t by (simp add: open_task_def)
  note p = i' [OF this order_refl]
  have m: "serves (ae_sha e) b (set_task b (tk_id t) (moved ''awaiting_approval''))"
    by (rule serves_moved [OF serves_inv [OF p(1)] p(2)]) simp_all
  have "serves (ae_sha e) a (set_task b (tk_id t) (moved ''awaiting_approval''))"
    using serves_trans [OF same_serves [OF s a] serves_trans [OF p(1) m]] .
  then show ?thesis unfolding e by (rule serves_same_after) (rule same_trans [OF same_source_comment [OF c] same_audit])
qed

lemma generate_plan_serves:
  assumes a: "ag_inv (ae_sha e) a"
    and o: "open_task a t \<or> (\<exists>c. latestAgentTaskClassification a (tk_id t) = Inr c \<and> cl_decision c = ''rejected'')"
    and r: "generate_plan e a t s = Inr (a', t')"
  shows "serves (ae_sha e) a a'"
proof (cases "a' = a")
  case True
  then show ?thesis using a by auto
next
  case False
  then obtain g where "recordGeneratedAgentPlanTx e a t g = Inr (a', t')" "open_task a t"
    using r o unfolding generate_plan_def by (auto simp: bind_r_Inr_iff split: option.split_asm if_split_asm)
  then show ?thesis using recordGenerated_serves [OF a] by blast
qed

lemma RecordAgentTaskSourceSnapshot_serves:
  assumes a: "ag_inv (ae_sha e) a" and r: "RecordAgentTaskSourceSnapshot e a taskID snapshot = Inr (a', t')"
  shows "serves (ae_sha e) a a'"
proof (cases "a' = a")
  case True
  then show ?thesis using a by auto
next
  case False
  have "\<exists>t s b u c v d k x1 x2 x3 x4 x5. row_by tk_id taskID (ag_tasks a) = Some t \<and> tk_state t = ''received''
     \<and> classify_source e (set_task a taskID (captured s)) (captured s t) s = Inr (b, u)
     \<and> generate_plan e b u s = Inr (c, v) \<and> queueAgentTaskSourceProviderComment e c v k = Inr d \<and> a' = ag_audit d x1 x2 x3 x4 x5"
    using r False unfolding RecordAgentTaskSourceSnapshot_def Let_def
    by (clarsimp simp: bind_r_Inr_iff split: if_split_asm option.split_asm prod.split_asm) blast+
  then obtain t s b u c v d k x1 x2 x3 x4 x5 where t: "row_by tk_id taskID (ag_tasks a) = Some t" "tk_state t = ''received''"
    and b: "classify_source e (set_task a taskID (captured s)) (captured s t) s = Inr (b, u)"
    and c: "generate_plan e b u s = Inr (c, v)" and d: "queueAgentTaskSourceProviderComment e c v k = Inr d"
    and e: "a' = ag_audit d x1 x2 x3 x4 x5" by blast
  have i: "tk_id t = taskID" using row_by_SomeD [OF t(1)] by simp
  have o: "open_task a t" by (rule row_open [OF t(1)]) (use t(2) in \<open>simp_all add: final_states_def\<close>)
  have s: "serves (ae_sha e) a (set_task a (tk_id t) (captured s))" by (rule serves_set_task [OF a o]) (use t(2) in simp_all)
  have o': "open_task (set_task a (tk_id t) (captured s)) (captured s t)"
    by (rule open_set_task [OF o]) (use t(2) in \<open>simp_all add: final_states_def\<close>)
  note k = classify_source_serves [OF serves_inv [OF s] o' b [folded i]]
  have "serves (ae_sha e) a c"
    using serves_trans [OF s serves_trans [OF k(1) generate_plan_serves [OF serves_inv [OF k(1)] k(3) c]]] .
  then show ?thesis unfolding e by (rule serves_same_after) (rule same_trans [OF same_source_comment [OF d] same_audit])
qed

lemma source_failed_sel [simp]:
  "tk_id (source_failed t) = tk_id t" "tk_state (source_failed t) = ''needs_attention''" "task_kept t (source_failed t)"
  by (simp_all add: source_failed_def task_kept_def)

lemma reopened_sel [simp]:
  "tk_id (reopened t) = tk_id t" "tk_state (reopened t) = ''received''" "task_kept t (reopened t)"
  by (simp_all add: reopened_def task_kept_def)

lemma FailAgentTaskSourceSnapshot_serves:
  assumes a: "ag_inv sha a" and r: "FailAgentTaskSourceSnapshot e a taskID code message = Inr a'"
  shows "serves sha a a'"
proof (cases "a' = a")
  case True
  then show ?thesis using a by auto
next
  case False
  obtain t b x1 x2 x3 x4 x5 where t: "row_by tk_id taskID (ag_tasks a) = Some t" "tk_state t = ''received''"
    and b: "queueAgentTaskSourceProviderComment e (set_task a taskID source_failed) (source_failed t) ''failed'' = Inr b"
    and e: "a' = ag_audit b x1 x2 x3 x4 x5"
    using r False unfolding FailAgentTaskSourceSnapshot_def Let_def
    by (clarsimp simp: bind_r_Inr_iff split: if_split_asm option.split_asm)
  have i: "tk_id t = taskID" using row_by_SomeD [OF t(1)] by simp
  have o: "open_task a t" by (rule row_open [OF t(1)]) (use t(2) in \<open>simp_all add: final_states_def\<close>)
  have "serves sha a (set_task a (tk_id t) source_failed)" by (rule serves_set_task [OF a o]) simp_all
  then show ?thesis using same_trans [OF same_source_comment [OF b] same_audit] unfolding e i by (rule serves_same_after)
qed

text \<open>The rows of an expiry are pairwise different tasks that are received when it starts; each is moved
  once.\<close>

lemma expire_unacknowledged_serves:
  assumes "ag_inv sha a" "distinct (map tk_id ts)" "\<And>t. t \<in> set ts \<Longrightarrow> open_task a t"
  shows "serves sha a (fst (expire_unacknowledged timeout ts a n))"
  using assms
proof (induction ts arbitrary: a n)
  case Nil
  then show ?case by auto
next
  case (Cons t ts)
  show ?case
  proof (cases "source_requested a (tk_id t)")
    case True
    then show ?thesis using Cons by simp
  next
    case False
    let ?b = "ag_audit (set_task a (tk_id t) source_failed) (tk_tenant t) ''worker:agent-task-runner'' ''agent_task.acknowledgement_timeout'' (tk_id t)
           [(''revision'', PInt (tk_revision t + 1)), (''timeout_seconds'', PInt timeout)]"
    have s: "serves sha a ?b"
      by (rule serves_same_after [OF serves_set_task [OF Cons(2), where t = t and f = source_failed]]) (use Cons(4) in simp_all)
    have "open_task ?b u" if u: "u \<in> set ts" for u
    proof -
      have "tk_id t \<notin> tk_id ` set ts" "tk_id u \<in> tk_id ` set ts" using u Cons(3) by simp_all
      then have "tk_id u \<noteq> tk_id t" by metis
      then show ?thesis using u Cons(4) [of u] by (simp add: open_task_def ag_audit_def row_by_set_task)
    qed
    then have "serves sha ?b (fst (expire_unacknowledged timeout ts ?b (n + 1)))" using Cons(1) [OF serves_inv [OF s]] Cons(3) by simp
    then show ?thesis using False serves_trans [OF s] by simp
  qed
qed

lemma if_Inr: "(if c then Inl e else Inr x) = Inr y \<Longrightarrow> x = y"
  by (simp split: if_split_asm)

lemma ExpireUnacknowledgedAgentTasks_serves:
  assumes a: "ag_inv sha a" and r: "ExpireUnacknowledgedAgentTasks e a limit olderThan = Inr (a', n)"
  shows "serves sha a a'"
proof -
  let ?due = "filter (\<lambda>t. tk_state t = ''received'' \<and> tk_source_state t = ''pending'' \<and> tk_created t \<le> ae_now e - olderThan div agent_second * agent_second
                       \<and> \<not> source_requested a (tk_id t)) (ag_tasks a)"
  let ?ts = "take (nat limit) (sort_key (\<lambda>t. (tk_created t, tk_id t)) ?due)"
  have "expire_unacknowledged (olderThan div agent_second) ?ts a 0 = (a', n)"
    using r unfolding ExpireUnacknowledgedAgentTasks_def Let_def by (rule if_Inr)
  then have e: "a' = fst (expire_unacknowledged (olderThan div agent_second) ?ts a 0)" by (simp only: fst_conv)
  have d: "distinct (map tk_id ?due)" using a by (simp add: ag_inv_def ids_ok_def distinct_map_filter)
  have "distinct (map tk_id (sort_key (\<lambda>t. (tk_created t, tk_id t)) ?due))"
    using d by (simp add: distinct_map)
  then have "distinct (map tk_id ?ts)" by (simp only: take_map [symmetric] distinct_take)
  moreover have "open_task a t" if "t \<in> set ?ts" for t
  proof -
    have "t \<in> set ?due" using in_set_takeD [OF that] by simp
    then have t: "t \<in> set (ag_tasks a)" "tk_state t = ''received''" by simp_all
    have "row_by tk_id (tk_id t) (ag_tasks a) = Some t" using a t(1) by (intro row_by_eqI) (simp add: ag_inv_def ids_ok_def)
    then show ?thesis using t(2) by (simp add: open_task_def final_states_def)
  qed
  ultimately show ?thesis unfolding e by (rule expire_unacknowledged_serves [OF a])
qed

lemma RetryAgentTaskSource_serves:
  assumes a: "ag_inv sha a" and r: "RetryAgentTaskSource a actor slug taskID v = Inr (a', t')"
  shows "serves sha a a'"
proof -
  obtain tenantID t i where t: "tenant_task a tenantID taskID = Inr t" "tk_state t = ''needs_attention''"
    and q: "requeue_source a tenantID actor t i = Inr (a', t')"
    using r unfolding RetryAgentTaskSource_def by (clarsimp simp: bind_r_Inr_iff split: if_split_asm option.split_asm)
  have e: "same (set_task a (tk_id t) reopened) a'"
    using q unfolding requeue_source_def Let_def
    by (auto split: if_split_asm list.split_asm intro: same_trans [OF same_send same_audit])
  note i = tenant_task_row [OF a t(1)]
  have "open_task a t" by (rule row_open [OF i(1)]) (use t(2) in \<open>simp_all add: final_states_def\<close>)
  then have "serves sha a (set_task a (tk_id t) reopened)" by (rule serves_set_task [OF a]) simp_all
  then show ?thesis using e by (rule serves_same_after)
qed

section \<open>Plans, approval and cancellation\<close>

lemma fold_latest:
  fixes ps :: "AgentTaskPlan list"
  shows "fold (\<lambda>q b. if pn_revision q > pn_revision b then q else b) ps p0 \<in> set (p0 # ps)
    \<and> (\<forall>q \<in> set (p0 # ps). pn_revision q \<le> pn_revision (fold (\<lambda>q b. if pn_revision q > pn_revision b then q else b) ps p0))"
proof (induction ps arbitrary: p0)
  case Nil
  then show ?case by simp
next
  case (Cons q qs)
  show ?case
  proof (cases "pn_revision q > pn_revision p0")
    case True
    then show ?thesis using Cons [of q] by (simp del: set_simps add: set_ConsD) (auto dest: set_ConsD)
  next
    case False
    then show ?thesis using Cons [of p0] by auto
  qed
qed

lemma latest_plan_facts:
  assumes "latest_plan a i = Some p"
  shows "p \<in> set (filter (\<lambda>p. pn_task p = i) (ag_plans a))" "\<And>q. q \<in> set (ag_plans a) \<Longrightarrow> pn_task q = i \<Longrightarrow> pn_revision q \<le> pn_revision p"
proof -
  obtain p0 ps where f: "filter (\<lambda>p. pn_task p = i) (ag_plans a) = p0 # ps" "p = fold (\<lambda>q b. if pn_revision q > pn_revision b then q else b) ps p0"
    using assms by (auto simp: latest_plan_def split: list.split_asm)
  show "p \<in> set (filter (\<lambda>p. pn_task p = i) (ag_plans a))" using fold_latest [of ps p0] f by simp
  fix q assume "q \<in> set (ag_plans a)" "pn_task q = i"
  then have "q \<in> set (p0 # ps)" unfolding f(1) [symmetric] by simp
  then show "pn_revision q \<le> pn_revision p" using fold_latest [of ps p0] f(2) by blast
qed

lemma life_plans_ok: "life_ok sha K l \<Longrightarrow> plans_ok sha (lf_plans l)"
  by (cases "lf_task l") (simp_all add: life_ok_def plans_ok_def)

lemma max_plan_revision_nonneg:
  assumes "ag_inv sha a" shows "0 \<le> max_plan_revision a taskID"
proof (cases "latest_plan a taskID")
  case (Some p)
  have "p \<in> set (lf_plans (life_of a taskID))" using latest_plan_facts(1) [OF Some] by (simp add: life_of_def)
  moreover have "plans_ok sha (lf_plans (life_of a taskID))" using life_plans_ok [OF ag_inv_life [OF assms]] .
  ultimately have "1 \<le> pn_revision p" by (simp add: plans_ok_def)
  then show ?thesis using Some by (simp add: max_plan_revision_def)
qed (simp add: max_plan_revision_def)

lemma CreateAgentTaskPlan_serves:
  assumes a: "ag_inv (ae_sha e) a" and r: "CreateAgentTaskPlan e a actor slug taskID input = Inr (a', p)"
  shows "serves (ae_sha e) a a'"
proof -
  obtain tenantID t s b p c k x1 x2 x3 x4 x5 where t: "tenant_task a tenantID taskID = Inr t" "tk_state t \<notin> set unplannable"
    and b: "insert_plan e a taskID (max_plan_revision a taskID + 1) (CanonicalSummary input) s actor = Inr (b, p)"
    and c: "queueAgentTaskSourceProviderComment e (set_task (supersede_plans b taskID k) taskID (moved ''awaiting_approval''))
              (moved ''awaiting_approval'' t) ''plan'' = Inr c"
    and e: "a' = ag_audit c x1 x2 x3 x4 x5"
    using r unfolding CreateAgentTaskPlan_def Let_def
    by (clarsimp simp: bind_r_Inr_iff split: if_split_asm prod.split_asm)
  note i = tenant_task_row [OF a t(1)]
  have o: "open_task a t" by (rule row_open [OF i(1)]) (use t(2) in \<open>auto simp: final_states_def unplannable_def\<close>)
  have v: "1 \<le> max_plan_revision a (tk_id t) + 1" using max_plan_revision_nonneg [OF a] by simp
  note p = serves_insert_plan [OF a o v b [folded i(2)]]
  note q = serves_supersede [OF serves_inv [OF p(1)] p(2), of k]
  have "serves (ae_sha e) (supersede_plans b (tk_id t) k) (set_task (supersede_plans b (tk_id t) k) (tk_id t) (moved ''awaiting_approval''))"
    by (rule serves_moved [OF serves_inv [OF q(1)] q(2)]) simp_all
  then have "serves (ae_sha e) a (set_task (supersede_plans b (tk_id t) k) (tk_id t) (moved ''awaiting_approval''))"
    using serves_trans [OF p(1) serves_trans [OF q(1)]] by blast
  then show ?thesis using same_trans [OF same_source_comment [OF c] same_audit] unfolding e i(2) by (rule serves_same_after)
qed

lemma grant_plan_serves:
  assumes a: "ag_inv (ae_sha e) a" and t: "open_task a t" and p: "p0 \<in> set (ag_plans a)" "pn_task p0 = tk_id t"
    and r: "grant_plan e a tenantID actor t p0 policy = Inr (a', p)"
  shows "serves (ae_sha e) a a'"
proof -
  let ?p = "p0\<lparr>pn_state := ''approved'', pn_approved_by := Some actor\<rparr>"
  let ?b = "set_plans a (\<lambda>q. pn_id q = pn_id ?p) (\<lambda>_. ?p)"
  let ?c = "supersede_plans ?b (tk_id t) (pn_id ?p)" and ?f = "moved ''execution_queued''"
  obtain m d x1 x2 x3 x4 x5 where d: "queueAgentTaskSourceProviderComment e (ag_send (set_task ?c (tk_id t) ?f) m) (?f t) ''approved'' = Inr d"
    and e: "a' = ag_audit d x1 x2 x3 x4 x5"
    using r unfolding grant_plan_def Let_def bind_r_Inr_iff by blast
  have q: "q = p0" if "q \<in> set (ag_plans a)" "pn_id q = pn_id ?p" for q
    using that p(1) a distinct_key_eq [of pn_id "ag_plans a"] by (auto simp: ag_inv_def ids_ok_def)
  have b: "serves (ae_sha e) a ?b"
  proof (rule serves_set_plans [OF a t])
    fix x assume "x \<in> set (ag_plans a)" "pn_id x = pn_id ?p"
    then have "x = p0" by (rule q)
    then show "pn_task x = tk_id t \<and> plan_content ?p = plan_content x \<and> (pn_state ?p = ''approved'' \<longrightarrow> pn_approved_by ?p \<noteq> None)"
      using p(2) by (simp add: plan_content_def)
  qed
  have ob: "open_task ?b t" using t by (simp add: open_task_def)
  note c = serves_supersede [OF serves_inv [OF b] ob, of "pn_id ?p"]
  have "serves (ae_sha e) ?c (set_task ?c (tk_id t) ?f)" by (rule serves_moved [OF serves_inv [OF c(1)] c(2)]) simp_all
  then have "serves (ae_sha e) a (set_task ?c (tk_id t) ?f)" using serves_trans [OF b serves_trans [OF c(1)]] by blast
  then show ?thesis unfolding e
    by (rule serves_same_after) (rule same_trans [OF same_send same_trans [OF same_source_comment [OF d] same_audit]])
qed

lemma approve_tx_serves:
  assumes a: "ag_inv (ae_sha e) a" and t: "row_by tk_id (tk_id t) (ag_tasks a) = Some t"
    and q: "approveAgentTaskPlanTx e a tenantID actor role t planID revision = Inr (a', p)"
  shows "serves (ae_sha e) a a'"
proof -
  obtain p0 policy where s: "tk_state t = ''awaiting_approval''"
    and p0: "find (\<lambda>p. pn_id p = planID \<and> pn_task p = tk_id t \<and> pn_revision p = revision \<and> pn_state p = ''awaiting_approval'') (ag_plans a) = Some p0"
    and g: "grant_plan e a tenantID actor t p0 policy = Inr (a', p)"
    using q unfolding approveAgentTaskPlanTx_def Let_def
    by (clarsimp simp only: bind_r_Inr_iff split: if_split_asm option.split_asm) auto
  have m: "p0 \<in> set (ag_plans a)" "pn_task p0 = tk_id t" using p0 by (auto simp: find_Some_iff)
  have "open_task a t" by (rule row_open [OF t]) (use s in \<open>simp_all add: final_states_def\<close>)
  then show ?thesis using grant_plan_serves [OF a _ m g] by blast
qed

lemma ApproveAgentTaskPlan_serves:
  assumes a: "ag_inv (ae_sha e) a" and r: "ApproveAgentTaskPlan e a actor slug taskID planID revision = Inr (a', p)"
  shows "serves (ae_sha e) a a'"
proof -
  obtain tenantID role t where t: "tenant_task a tenantID taskID = Inr t"
    and q: "approveAgentTaskPlanTx e a tenantID actor role t planID revision = Inr (a', p)"
    using r by (auto simp: ApproveAgentTaskPlan_def bind_r_Inr_iff split: if_split_asm)
  show ?thesis using approve_tx_serves [OF a _ q] tenant_task_row [OF a t] by simp
qed

lemma running_executing:
  assumes "ag_inv sha a" "m \<in> set (ag_attempts a)" "running m" "am_task m = tk_id t" "row_by tk_id (tk_id t) (ag_tasks a) = Some t"
  shows "tk_state t = ''executing''"
  using running_cleared(2) [OF assms(1-3)] assms(4,5) by simp

text \<open>Running attempts are ended, without evidence, together with their task.\<close>

lemma ended_attemptI:
  assumes "running m" "\<not> running n" "am_state n \<noteq> ''succeeded''" "am_id n = am_id m" "attempt_key n = attempt_key m" "am_attempt n = am_attempt m"
    "am_job n = am_job m" "am_started n = am_started m"
  shows "ended_attempt K t ps m n"
  using assms by (simp add: ended_attempt_def)

lemma serves_stop:
  assumes a: "ag_inv sha a" and t: "row_by tk_id (tk_id t) (ag_tasks a) = Some t" "tk_state t \<notin> set final_states"
    and s: "state \<in> {''needs_attention'', ''failed'', ''cancelled''}"
    and p: "\<And>n. n \<in> set (ag_attempts a) \<Longrightarrow> p n \<longleftrightarrow> running n \<and> am_task n = tk_id t"
    and f: "\<And>n. running n \<Longrightarrow> \<not> running (f n) \<and> am_state (f n) \<noteq> ''succeeded'' \<and> am_id (f n) = am_id n
        \<and> attempt_key (f n) = attempt_key n \<and> am_attempt (f n) = am_attempt n \<and> am_job (f n) = am_job n \<and> am_started (f n) = am_started n"
  shows "serves sha a (set_task (set_attempts a p f) (tk_id t) (moved state))"
proof (cases "tk_state t = ''executing''")
  case True
  show ?thesis
    by (rule serves_finish [OF a t(1) True _ p]) (use s p f in \<open>auto intro!: ended_attemptI\<close>)
next
  case False
  have "\<not> p n" if "n \<in> set (ag_attempts a)" for n using p [OF that] running_executing [OF a that _ _ t(1)] False by blast
  then have "set_attempts a p f = a" unfolding set_attempts_def using update_where_id [of "ag_attempts a" p f] by simp
  moreover have "open_task a t" using t False by (simp add: open_task_def)
  ultimately show ?thesis using serves_moved [OF a, of t state] s by auto
qed

lemma cancel_tx_serves:
  assumes a: "ag_inv sha a" and i: "row_by tk_id (tk_id t) (ag_tasks a) = Some t" and q: "cancelAgentTaskTx a t actor why = Inr (a', t')"
  shows "serves sha a a'"
proof -
  let ?p = "\<lambda>m. am_task m = tk_id t \<and> am_state m = ''running''"
  let ?f = "\<lambda>m. m\<lparr>am_state := ''superseded'', am_locked := None, am_error := ''cancelled_by_operator'', am_message := why, am_summary := why\<rparr>"
  obtain jobs b x1 x2 x3 x4 x5 where c: "agentTaskStateCancellable (tk_state t)"
    and b: "queue_cancellations (tk_id t) jobs (set_task (set_attempts a ?p ?f) (tk_id t) (moved ''cancelled'')) = Inr b"
    and e: "a' = ag_audit b x1 x2 x3 x4 x5"
    using q by (auto simp: cancelAgentTaskTx_def Let_def bind_r_Inr_iff split: if_split_asm)
  have "serves sha a (set_task (set_attempts a ?p ?f) (tk_id t) (moved ''cancelled''))"
    by (rule serves_stop [OF a]) (use i c in \<open>auto simp: agentTaskStateCancellable_def final_states_def running_def attempt_key_def\<close>)
  then show ?thesis unfolding e by (rule serves_same_after) (rule same_trans [OF same_cancellations [OF b] same_audit])
qed

lemma CancelAgentTask_serves:
  assumes a: "ag_inv sha a" and r: "CancelAgentTask a actor slug taskID revision reason = Inr (a', t')"
  shows "serves sha a a'"
proof -
  obtain tenantID t why where t: "tenant_task a tenantID taskID = Inr t" and q: "cancelAgentTaskTx a t actor why = Inr (a', t')"
    using r by (auto simp: CancelAgentTask_def Let_def bind_r_Inr_iff split: if_split_asm)
  show ?thesis using cancel_tx_serves [OF a _ q] tenant_task_row [OF a t] by simp
qed

end
