(* ===== verification/Agent_Safety.thy ===== *)
theory Agent_Safety
  imports Agent_Steps
begin

text \<open>
  The transactions of \<open>Agent_Execution\<close> serve the lives of the tasks: leases, the start gate, callbacks,
  the watchdog and the recovery of a publication.
\<close>

section \<open>Facts about the rows\<close>

lemma task_row_id: "row_by tk_id i (ag_tasks a) = Some t \<Longrightarrow> tk_id t = i"
  using row_by_SomeD by metis

lemma attempt_facts:
  assumes a: "ag_inv sha a" and m: "m \<in> set (ag_attempts a)" and t: "row_by tk_id (am_task m) (ag_tasks a) = Some t"
  shows "1 \<le> am_attempt m" "am_attempt m \<le> tk_max_attempts t" "am_started m \<noteq> None \<Longrightarrow> am_job m \<noteq> None" "am_job m \<noteq> Some ''''"
    "running m \<Longrightarrow> am_locked m \<noteq> None"
proof -
  have "attempts_ok t (lf_attempts (life_of a (am_task m)))" using ag_inv_life [OF a, of "am_task m"] t by (simp add: life_ok_def)
  moreover have "m \<in> set (lf_attempts (life_of a (am_task m)))" using m by (simp add: attempt_life)
  ultimately show "1 \<le> am_attempt m" "am_attempt m \<le> tk_max_attempts t" "am_started m \<noteq> None \<Longrightarrow> am_job m \<noteq> None" "am_job m \<noteq> Some ''''"
    "running m \<Longrightarrow> am_locked m \<noteq> None" by (simp_all add: attempts_ok_def)
qed

lemma job_nonempty: "ag_inv sha a \<Longrightarrow> m \<in> set (ag_attempts a) \<Longrightarrow> am_job m \<noteq> Some ''''"
  by (rule attempt_task, assumption+) (rule attempt_facts(4))

lemma only_row:
  assumes "ag_inv sha a" "m \<in> set (ag_attempts a)" "p m" "\<And>n. p n \<Longrightarrow> am_id n = am_id m" "n \<in> set (ag_attempts a)"
  shows "p n \<longleftrightarrow> n = m"
  using assms same_id [OF assms(1,5,2)] by blast

lemma set_task_attempts: "set_attempts (set_task a i g) p f = set_task (set_attempts a p f) i g"
  by (simp add: set_attempts_def set_task_def)

lemma move_executing:
  assumes "ag_inv sha a" "row_by tk_id i (ag_tasks a) = Some t" "tk_state t = ''executing''"
  shows "update_where (\<lambda>q. tk_id q = i \<and> tk_state q = ''executing'') f (ag_tasks a) = update_where (\<lambda>q. tk_id q = i) f (ag_tasks a)"
proof -
  have "q = t" if "q \<in> set (ag_tasks a)" "tk_id q = i" for q
    using that assms(1,2) row_by_SomeD [OF assms(2)] distinct_key_eq [of tk_id "ag_tasks a" q t] by (auto simp: ag_inv_def ids_ok_def)
  then show ?thesis unfolding update_where_def using assms(3) by (intro map_cong) auto
qed

text \<open>The running attempt \<open>m\<close> ends as \<open>f m\<close>.\<close>

lemma serves_end:
  assumes a: "ag_inv sha a" and m: "m \<in> set (ag_attempts a)" "running m" and t: "row_by tk_id (am_task m) (ag_tasks a) = Some t"
    and s: "state \<in> {''needs_attention'', ''completed'', ''failed'', ''cancelled''}"
    and p: "\<And>n. n \<in> set (ag_attempts a) \<Longrightarrow> p n \<longleftrightarrow> n = m"
    and f: "ended_attempt (ag_checkpoints a) t (filter (\<lambda>p. pn_task p = am_task m) (ag_plans a)) m (f m)"
  shows "serves sha a (set_task (set_attempts a p f) (am_task m) (moved state))"
proof -
  have i: "tk_id t = am_task m" using task_row_id [OF t] .
  have e: "tk_state t = ''executing''" using running_cleared(2) [OF a m t] .
  have q: "p n \<longleftrightarrow> running n \<and> am_task n = tk_id t" if "n \<in> set (ag_attempts a)" for n
    using p [OF that] one_running_row [OF a that m(1) _ m(2)] m(2) i by auto
  have "serves sha a (set_task (set_attempts a p f) (tk_id t) (moved state))"
    by (rule serves_finish [OF a _ e s q]) (use t i p f in auto)
  then show ?thesis by (simp add: i)
qed

lemma ended_attempt_stop:
  assumes "running m" "state \<noteq> ''running''" "state \<noteq> ''succeeded''"
  shows "ended_attempt K t ps m (ended state code message m)"
  by (rule ended_attemptI) (use assms in \<open>simp_all add: ended_def running_def attempt_key_def\<close>)

section \<open>Leases\<close>

lemma sum_filter_le:
  fixes f :: "'a \<Rightarrow> int"
  assumes "\<And>x. x \<in> set xs \<Longrightarrow> 0 \<le> f x" "\<And>x. x \<in> set xs \<Longrightarrow> P x \<Longrightarrow> Q x"
  shows "sum_list (map f (filter P xs)) \<le> sum_list (map f (filter Q xs))"
  using assms by (induction xs) (auto simp: add_increasing)

lemma budget_left:
  assumes a: "ag_inv sha a" and t: "row_by tk_id (tk_id t) (ag_tasks a) = Some t" and b: "is_ok (checkAgentWorkflowBudgetTx a t)"
  shows "wp_enabled (tk_workflow t) \<longrightarrow> used (filter (\<lambda>n. am_task n = tk_id t) (ag_attempts a)) < wp_attempts (tk_workflow t)"
proof
  assume w: "wp_enabled (tk_workflow t)"
  have n: "0 \<le> am_attempt m" if "m \<in> set (ag_attempts a)" for m
    using attempt_task [OF a that] attempt_facts(1) [OF a that] by (metis order.trans zero_le_one)
  have "used (filter (\<lambda>n. am_task n = tk_id t) (ag_attempts a)) \<le> branch_used a (tk_tenant t) (tk_branch t)"
    unfolding used_def branch_used_def
    by (rule sum_filter_le [OF n]) (use row_by_SomeD [OF t] in \<open>auto simp: list_ex_iff\<close>)
  then show "used (filter (\<lambda>n. am_task n = tk_id t) (ag_attempts a)) < wp_attempts (tk_workflow t)"
    using b w by (simp add: checkAgentWorkflowBudgetTx_def is_ok_def split: if_split_asm)
qed

text \<open>The plan an execution request names is the approved latest plan of its task.\<close>

lemma approved_request_plan:
  assumes a: "ag_inv sha a" and r: "approved_request a r"
  obtains p where "p \<in> set (filter (\<lambda>p. pn_task p = xr_task r) (ag_plans a))" "pn_id p = xr_plan r" "pn_revision p = xr_plan_revision r"
    "pn_state p = ''approved''" "pn_approved_by p \<noteq> None" "\<And>q. q \<in> set (ag_plans a) \<Longrightarrow> pn_task q = xr_task r \<Longrightarrow> pn_revision q \<le> pn_revision p"
proof -
  obtain p where p: "p \<in> set (ag_plans a)" "pn_id p = xr_plan r" "pn_task p = xr_task r" "pn_revision p = xr_plan_revision r"
    "pn_state p = ''approved''" "pn_revision p = max_plan_revision a (xr_task r)"
    using r by (auto simp: approved_request_def split: option.split_asm dest!: find_SomeD)
  have "pn_revision q \<le> pn_revision p" if "q \<in> set (ag_plans a)" "pn_task q = xr_task r" for q
  proof (cases "latest_plan a (xr_task r)")
    case None
    then show ?thesis using that by (auto simp: latest_plan_def filter_empty_conv split: list.split_asm)
  next
    case (Some l)
    then show ?thesis using latest_plan_facts(2) [OF Some that] p(6) by (simp add: max_plan_revision_def)
  qed
  moreover have "pn_approved_by p \<noteq> None"
    using life_plans_ok [OF ag_inv_life [OF a, of "xr_task r"]] p(1,3,5) by (auto simp: plans_ok_def life_of_def)
  ultimately show ?thesis using that p by simp
qed

definition request_key :: "AgentTaskExecutionRequest \<Rightarrow> uuid \<times> uuid \<times> int \<times> int" where
  "request_key r = (xr_task r, xr_plan r, xr_task_revision r, xr_plan_revision r)"

lemma approved_request_latest:
  assumes "ag_inv sha a" "approved_request a r" "attempt_key m = request_key r"
  shows "\<exists>p. approved_latest (filter (\<lambda>p. pn_task p = xr_task r) (ag_plans a)) m p"
proof -
  obtain p where p: "p \<in> set (filter (\<lambda>p. pn_task p = xr_task r) (ag_plans a))" "pn_id p = xr_plan r" "pn_revision p = xr_plan_revision r"
    "pn_state p = ''approved''" "pn_approved_by p \<noteq> None" "\<And>q. q \<in> set (ag_plans a) \<Longrightarrow> pn_task q = xr_task r \<Longrightarrow> pn_revision q \<le> pn_revision p"
    using approved_request_plan [OF assms(1,2)] by blast
  have "approved_latest (filter (\<lambda>p. pn_task p = xr_task r) (ag_plans a)) m p"
    unfolding approved_latest_def using p assms(3) by (auto simp: attempt_key_def request_key_def)
  then show ?thesis ..
qed

text \<open>A request for a task that executes belongs to its running attempt.\<close>

lemma executing_request:
  assumes a: "ag_inv sha a" and t: "row_by tk_id (xr_task r) (ag_tasks a) = Some t" "tk_state t = ''executing''"
    "tk_revision t = xr_task_revision r + 1" and r: "approved_request a r"
  shows "\<exists>m \<in> set (ag_attempts a). attempt_key m = request_key r"
proof -
  let ?ps = "filter (\<lambda>p. pn_task p = xr_task r) (ag_plans a)"
  have l: "life_ok sha (ag_checkpoints a) (life_of a (xr_task r))" using a by (rule ag_inv_life)
  then obtain m where m: "m \<in> set (ag_attempts a)" "am_task m = xr_task r" "running m" using t(1,2) by (auto simp: life_ok_def attempt_life)
  then have c: "cleared t ?ps (lf_classes (life_of a (xr_task r))) m" using l t(1) by (auto simp: life_ok_def attempt_life life_of_def)
  then obtain q where q: "approved_latest ?ps m q" by (auto simp: cleared_def)
  obtain p where p: "p \<in> set ?ps" "pn_id p = xr_plan r" "pn_revision p = xr_plan_revision r"
    "\<And>q. q \<in> set (ag_plans a) \<Longrightarrow> pn_task q = xr_task r \<Longrightarrow> pn_revision q \<le> pn_revision p" using approved_request_plan [OF a r] by blast
  have qs: "q \<in> set ?ps" and ql: "\<And>x. x \<in> set ?ps \<Longrightarrow> pn_revision x \<le> pn_revision q" using q unfolding approved_latest_def by blast+
  have "pn_revision q \<le> pn_revision p" "pn_revision p \<le> pn_revision q" using p(4) [of q] qs ql [OF p(1)] by simp_all
  moreover have "distinct (map pn_revision ?ps)" using life_plans_ok [OF l] by (simp add: plans_ok_def life_of_def)
  ultimately have "p = q" using distinct_key_eq [of pn_revision ?ps p q] p(1) qs by simp
  then have "attempt_key m = request_key r" using q c m(2) p(2,3) t(3) by (simp add: approved_latest_def cleared_def attempt_key_def request_key_def)
  then show ?thesis using m(1) ..
qed

lemma stop_budget_idle:
  assumes a: "ag_inv sha a" and t: "open_task a t"
  shows "serves sha a (stopAgentWorkflowBudgetTx a t 0)"
  unfolding stopAgentWorkflowBudgetTx_def Let_def
  by (simp, rule serves_same_after [OF serves_moved [OF a t, where state = "''needs_attention''"]]) simp_all

lemma stop_budget_running:
  assumes a: "ag_inv sha a" and m: "m \<in> set (ag_attempts a)" "running m" "am_job m = None"
    and t: "row_by tk_id (am_task m) (ag_tasks a) = Some t"
  shows "serves sha a (stopAgentWorkflowBudgetTx a t (am_id m))"
proof -
  have i: "tk_id t = am_task m" using task_row_id [OF t] .
  have n: "am_id m \<noteq> 0" using m(1) ag_inv_ids [OF a] by (auto simp: ids_ok_def)
  let ?p = "\<lambda>n. am_id n = am_id m \<and> am_job n = None"
  let ?f = "ended ''needs_attention'' ''agent_workflow_budget_exhausted'' ''The frozen branch execution budget is exhausted''"
  have s: "serves sha a (set_task (set_attempts a ?p ?f) (am_task m) (moved ''needs_attention''))"
    by (rule serves_end [OF a m(1,2) t]) (use only_row [OF a m(1), of ?p] m ended_attempt_stop in simp_all)
  show ?thesis unfolding stopAgentWorkflowBudgetTx_def Let_def set_task_attempts i
    by (simp only: n not_False_eq_True if_True, rule serves_same_after [OF s]) (rule same_trans [OF same_attempt_status same_audit])
qed

lemma finish_claim_serves:
  assumes "finish_claim a r t queued w m = (a', res)"
  shows "same (if queued then set_task a (tk_id t) (moved ''executing'') else a) a'" "res = Some m"
  using assms by (auto simp: finish_claim_def Let_def)

lemma lease_serves:
  assumes a: "ag_inv sha a" and t: "row_by tk_id (xr_task r) (ag_tasks a) = Some t"
    and q: "tk_state t = ''execution_queued''" "tk_revision t = xr_task_revision r"
    and c: "latestAgentTaskClassification a (tk_id t) = Inr c" "cl_decision c = ''requires_human''"
    and s: "tk_source_state t = ''ready''" "base_pair_valid (tk_base_ref t) (tk_base_sha t)" and p: "approved_request a r"
    and n: "\<And>m. m \<in> set (ag_attempts a) \<Longrightarrow> attempt_key m \<noteq> request_key r" and b: "is_ok (checkAgentWorkflowBudgetTx a t)"
    and f: "ag_fresh a = (i, b')"
  shows "serves sha a (set_task (b'\<lparr>ag_attempts := ag_attempts b' @ [new_attempt e i r t w lease]\<rparr>) (tk_id t) (moved ''executing''))"
proof -
  let ?m = "new_attempt e i r t w lease"
  have d: "same a b'" "i = nxt a" "nxt b' = Suc (nxt a)" using same_fresh [OF f] by simp_all
  have tk: "tk_id t = xr_task r" using task_row_id [OF t] .
  have k: "attempt_key ?m = request_key r" by (simp add: new_attempt_def attempt_key_def request_key_def)
  have cs: "filter (\<lambda>c. cl_task c = tk_id t) (ag_classes a) \<noteq> []" "last (filter (\<lambda>c. cl_task c = tk_id t) (ag_classes a)) = c"
    using c(1) by (auto simp: latestAgentTaskClassification_def split: list.split_asm)
  have "cleared (moved ''executing'' t) (filter (\<lambda>p. pn_task p = tk_id t) (ag_plans a)) (filter (\<lambda>c. cl_task c = tk_id t) (ag_classes a)) ?m"
    using approved_request_latest [OF a p k] cs c(2) s q(2) by (simp add: cleared_def tk new_attempt_def)
  then have "serves sha b' (set_task (b'\<lparr>ag_attempts := ag_attempts b' @ [?m]\<rparr>) (tk_id t) (moved ''executing''))"
    by (intro serves_lease [OF serves_inv [OF same_serves [OF d(1) a]]])
      (use d t tk q(1) n k ag_inv_ids [OF a] budget_left [OF a _ b] in
        \<open>auto simp: same_def ids_ok_def new_attempt_def running_def\<close>)
  then show ?thesis by (rule serves_trans [OF same_serves [OF d(1) a]])
qed

lemma reclaim_serves:
  assumes a: "ag_inv sha a" and m: "m \<in> set (ag_attempts a)" and t: "row_by tk_id (am_task m) (ag_tasks a) = Some t"
    and r: "canReclaimAgentAttempt m (tk_max_attempts t) now" and b: "is_ok (checkAgentWorkflowBudgetTx a t)"
  shows "serves sha a (set_attempts a (\<lambda>n. am_id n = am_id m) (\<lambda>_. reclaimed e t w lease m))"
proof (rule serves_replace [OF a m])
  have i: "tk_id t = am_task m" using task_row_id [OF t] .
  have j: "am_job m = None" using r job_nonempty [OF a m] by (auto simp: canReclaimAgentAttempt_def)
  have st: "am_started m = None" using attempt_facts(3) [OF a m t] j by blast
  fix us vs assume u: "filter (\<lambda>n. am_task n = am_task m) (ag_attempts a) = us @ m # vs"
  show "life_step sha (ag_checkpoints a) (life_of a (am_task m)) ((life_of a (am_task m))\<lparr>lf_attempts := us @ reclaimed e t w lease m # vs\<rparr>)"
    by (rule life_step.Reclaim [where t = t and m = m])
      (use t u r j budget_left [OF a _ b] i in \<open>simp_all add: life_of_def canReclaimAgentAttempt_def reclaimed_def running_def attempt_key_def\<close>)
qed (use only_row [OF a m, of "\<lambda>n. am_id n = am_id m"] in \<open>simp_all add: reclaimed_def attempt_key_def\<close>)

lemma request_row:
  "(am_task m = xr_task r \<and> am_task_revision m = xr_task_revision r \<and> am_plan m = xr_plan r \<and> am_plan_revision m = xr_plan_revision r)
     \<longleftrightarrow> attempt_key m = request_key r"
  by (auto simp: attempt_key_def request_key_def)

lemma lease_attempt_serves:
  assumes a: "ag_inv sha a" and t: "row_by tk_id (xr_task r) (ag_tasks a) = Some t"
    and q: "queued \<longleftrightarrow> tk_state t = ''execution_queued'' \<and> tk_revision t = xr_task_revision r"
      "queued \<or> tk_state t = ''executing'' \<and> tk_revision t = xr_task_revision r + 1"
    and c: "latestAgentTaskClassification a (tk_id t) = Inr c" "cl_decision c = ''requires_human''"
    and s: "tk_source_state t = ''ready''" "base_pair_valid (tk_base_ref t) (tk_base_sha t)" and p: "approved_request a r"
    and r: "lease_attempt e a w r lease t queued = Inr (a', res)"
  shows "serves sha a a'"
proof (cases "find (\<lambda>m. attempt_key m = request_key r) (ag_attempts a)")
  case None
  then have n: "attempt_key m \<noteq> request_key r" if "m \<in> set (ag_attempts a)" for m using that by (simp add: find_None_iff)
  then have qd: "queued" using q executing_request [OF a t] p by blast
  then have st: "tk_state t = ''execution_queued''" "tk_revision t = xr_task_revision r" using q(1) by simp_all
  have o: "open_task a t" by (rule row_open [OF t]) (use st(1) in \<open>simp_all add: final_states_def\<close>)
  obtain i b where f: "ag_fresh a = (i, b)" by (cases "ag_fresh a")
  show ?thesis
  proof (cases "is_ok (checkAgentWorkflowBudgetTx a t)")
    case True
    then have "finish_claim (b\<lparr>ag_attempts := ag_attempts b @ [new_attempt e i r t w lease]\<rparr>) r t queued w (new_attempt e i r t w lease) = (a', res)"
      using r None f by (simp add: lease_attempt_def request_row Let_def)
    from finish_claim_serves(1) [OF this] qd lease_serves [OF a t st c s p n True f] show ?thesis
      using serves_same_after by (simp only: if_True) blast
  next
    case False
    then have "a' = stopAgentWorkflowBudgetTx a t 0" using r None by (simp add: lease_attempt_def request_row)
    then show ?thesis using stop_budget_idle [OF a o] by simp
  qed
next
  case (Some m)
  then have m: "m \<in> set (ag_attempts a)" "attempt_key m = request_key r" using find_SomeD by fast+
  then have tm: "row_by tk_id (am_task m) (ag_tasks a) = Some t" using t by (simp add: attempt_key_def request_key_def)
  have cr: "canReclaimAgentAttempt m (tk_max_attempts t) (ae_clock e)"
    using r Some by (simp add: lease_attempt_def request_row split: if_split_asm)
  then have rn: "running m" "am_job m = None" using job_nonempty [OF a m(1)] by (auto simp: canReclaimAgentAttempt_def running_def)
  then have nq: "\<not> queued" using running_cleared(2) [OF a m(1) rn(1) tm] q(1) by simp
  show ?thesis
  proof (cases "is_ok (checkAgentWorkflowBudgetTx a t)")
    case True
    then have "finish_claim (set_attempts a (\<lambda>n. am_id n = am_id m) (\<lambda>_. reclaimed e t w lease m)) r t queued w (reclaimed e t w lease m) = (a', res)"
      using r Some cr by (simp add: lease_attempt_def request_row Let_def)
    from finish_claim_serves(1) [OF this] nq reclaim_serves [OF a m(1) tm cr True] show ?thesis
      using serves_same_after by (simp only: if_False) blast
  next
    case False
    then have "a' = stopAgentWorkflowBudgetTx a t (am_id m)" using r Some cr by (simp add: lease_attempt_def request_row)
    then show ?thesis using stop_budget_running [OF a m(1) rn tm] by simp
  qed
qed

lemma ClaimAgentTaskAttempt_serves:
  assumes a: "ag_inv sha a" and r: "ClaimAgentTaskAttempt e a worker r lease = Inr (a', res)"
  shows "serves sha a a'"
proof -
  obtain t c queued where t: "row_by tk_id (xr_task r) (ag_tasks a) = Some t"
    and q: "queued \<longleftrightarrow> tk_state t = ''execution_queued'' \<and> tk_revision t = xr_task_revision r"
      "queued \<or> tk_state t = ''executing'' \<and> tk_revision t = xr_task_revision r + 1"
    and c: "latestAgentTaskClassification a (tk_id t) = Inr c" "cl_decision c = ''requires_human''"
    and s: "tk_source_state t = ''ready''" "base_pair_valid (tk_base_ref t) (tk_base_sha t)" and p: "approved_request a r"
    and f: "lease_attempt e a (TrimSpace worker) r lease t queued = Inr (a', res)"
    using r unfolding ClaimAgentTaskAttempt_def Let_def
    by (clarsimp simp only: bind_r_Inr_iff split: if_split_asm option.split_asm) blast+
  show ?thesis using lease_attempt_serves [OF a t q c s p f] .
qed

section \<open>Holding, attaching and starting\<close>

lemma HoldAgentTaskExecutionForReadiness_serves:
  assumes a: "ag_inv sha a" and r: "HoldAgentTaskExecutionForReadiness a worker r = Inr a'"
  shows "serves sha a a'"
proof -
  obtain t where t: "row_by tk_id (xr_task r) (ag_tasks a) = Some t" "tk_state t = ''execution_queued''"
    and e: "same (set_task a (tk_id t) (moved ''needs_attention'')) a'"
    using r unfolding HoldAgentTaskExecutionForReadiness_def Let_def
    by (auto split: if_split_asm option.split_asm)
  have "open_task a t" by (rule row_open [OF t(1)]) (use t(2) in \<open>simp_all add: final_states_def\<close>)
  then have "serves sha a (set_task a (tk_id t) (moved ''needs_attention''))" by (rule serves_moved [OF a]) simp_all
  then show ?thesis using e by (rule serves_same_after)
qed

lemma RenewAgentTaskAttemptLease_serves:
  assumes a: "ag_inv sha a" and r: "RenewAgentTaskAttemptLease e a attemptID worker lease = Inr a'"
  shows "serves sha a a'"
proof -
  let ?p = "\<lambda>m. worker_lease e attemptID (TrimSpace worker) m \<and> before_deadline e m"
  obtain m where m: "m \<in> set (ag_attempts a)" "?p m" and e: "a' = set_attempts a ?p (renewed e lease)"
    using r by (auto simp: RenewAgentTaskAttemptLease_def Let_def list_ex_iff split: if_split_asm)
  have "serves sha a (set_attempts a ?p (renewed e lease))"
    by (rule serves_hold [OF a m(1) only_row [OF a m(1)]])
      (use m job_nonempty [OF a m(1)] in \<open>auto simp: worker_lease_def lease_kept_def renewed_def running_def attempt_key_def\<close>)
  then show ?thesis using e by simp
qed

lemma lease_locked: "lease_held e m \<Longrightarrow> am_locked m \<noteq> None"
  by (cases "am_locked m") (simp_all add: lease_held_def)

lemma AttachAgentTaskAdapterJob_serves:
  assumes a: "ag_inv sha a" and r: "AttachAgentTaskAdapterJob e a attemptID worker job = Inr a'"
  shows "serves sha a a'"
proof -
  let ?p = "\<lambda>m. worker_lease e attemptID (TrimSpace worker) m \<and> am_job m = None" and ?f = "am_job_update (\<lambda>_. Some (TrimSpace job))"
  obtain m where m: "m \<in> set (ag_attempts a)" "?p m" and e: "a' = set_attempts a ?p ?f" and v: "validAgentAdapterJobID (TrimSpace job)"
    using r by (auto simp: AttachAgentTaskAdapterJob_def Let_def list_ex_iff split: if_split_asm)
  have "TrimSpace job \<noteq> ''''" using v by (auto simp: validAgentAdapterJobID_def)
  moreover have "am_locked m \<noteq> None" using m(2) lease_locked [of e m] by (simp add: worker_lease_def)
  ultimately have "serves sha a (set_attempts a ?p ?f)"
    by (intro serves_hold [OF a m(1) only_row [OF a m(1)]]) (use m in \<open>auto simp: worker_lease_def lease_kept_def running_def attempt_key_def\<close>)
  then show ?thesis using e by simp
qed

lemma ClaimAgentTaskAdapterStart_serves:
  assumes a: "ag_inv sha a" and r: "ClaimAgentTaskAdapterStart e a attemptID job = Inr a'"
  shows "serves sha a a'"
proof -
  let ?p = "startable e attemptID (TrimSpace job)" and ?f = "am_started_update (\<lambda>_. Some (ae_now e))"
  obtain m where m: "find ?p (ag_attempts a) = Some m" and e: "same (set_attempts a ?p ?f) a'"
    using r by (auto simp: ClaimAgentTaskAdapterStart_def Let_def split: if_split_asm option.split_asm)
  have m: "m \<in> set (ag_attempts a)" "?p m" using find_SomeD [OF m] by simp_all
  moreover have "am_locked m \<noteq> None" using m(2) lease_locked [of e m] by (simp add: startable_def)
  ultimately have "serves sha a (set_attempts a ?p ?f)"
    by (intro serves_hold [OF a m(1) only_row [OF a m(1)]])
      (use job_nonempty [OF a m(1)] in \<open>auto simp: startable_def lease_kept_def running_def attempt_key_def\<close>)
  then show ?thesis using e by (rule serves_same_after)
qed

section \<open>Attempts that lost their lease\<close>

text \<open>The two writes of an ending: the attempt, and its task if it executes.\<close>

lemma serves_end_writes:
  assumes a: "ag_inv sha a" and m: "m \<in> set (ag_attempts a)" "running m"
    and s: "state \<in> {''needs_attention'', ''completed'', ''failed'', ''cancelled''}"
    and p: "\<And>n. n \<in> set (ag_attempts a) \<Longrightarrow> p n \<longleftrightarrow> n = m"
    and f: "\<And>t. row_by tk_id (am_task m) (ag_tasks a) = Some t \<Longrightarrow>
        ended_attempt (ag_checkpoints a) t (filter (\<lambda>p. pn_task p = am_task m) (ag_plans a)) m (f m)"
  shows "serves sha a ((set_attempts a p f)\<lparr>ag_tasks := update_where (\<lambda>t. tk_id t = am_task m \<and> tk_state t = ''executing'') (moved state) (ag_tasks a)\<rparr>)"
proof -
  obtain t where t: "row_by tk_id (am_task m) (ag_tasks a) = Some t" using attempt_task [OF a m(1)] .
  have "(set_attempts a p f)\<lparr>ag_tasks := update_where (\<lambda>t. tk_id t = am_task m \<and> tk_state t = ''executing'') (moved state) (ag_tasks a)\<rparr>
     = set_task (set_attempts a p f) (am_task m) (moved state)"
    unfolding move_executing [OF a t running_cleared(2) [OF a m t]] by (simp add: set_task_def)
  then show ?thesis using serves_end [where f = f and p = p, OF a m t s p f [OF t]] by simp
qed

lemma MarkAgentTaskAttemptNeedsAttention_serves:
  assumes a: "ag_inv sha a" and r: "MarkAgentTaskAttemptNeedsAttention e a attemptID worker code message = Inr a'"
  shows "serves sha a a'"
proof -
  let ?f = "ended ''needs_attention'' (TrimSpace code) (TrimSpace message)" and ?p = "\<lambda>n. am_id n = attemptID"
  obtain m where m: "find (worker_lease e attemptID (TrimSpace worker)) (ag_attempts a) = Some m"
    and e: "same ((set_attempts a ?p ?f)\<lparr>ag_tasks := update_where (\<lambda>t. tk_id t = am_task m \<and> tk_state t = ''executing'') (moved ''needs_attention'')
        (ag_tasks a)\<rparr>) a'"
    using r unfolding MarkAgentTaskAttemptNeedsAttention_def Let_def
    by (auto simp: bind_r_Inr_iff split: if_split_asm option.split_asm
        dest!: same_cancellation intro: same_trans [OF same_attempt_status same_audit] same_trans [OF same_trans [OF same_attempt_status] same_audit])
  have m: "m \<in> set (ag_attempts a)" "running m" "?p m" using find_SomeD [OF m] by (simp_all add: worker_lease_def running_def)
  have "serves sha a ((set_attempts a ?p ?f)\<lparr>ag_tasks := update_where (\<lambda>t. tk_id t = am_task m \<and> tk_state t = ''executing'') (moved ''needs_attention'')
        (ag_tasks a)\<rparr>)"
    by (rule serves_end_writes [OF a m(1,2)]) (use only_row [OF a m(1), of ?p] m ended_attempt_stop in simp_all)
  then show ?thesis using e by (rule serves_same_after)
qed

lemma expire_attempt_serves:
  assumes a: "ag_inv sha a" and m: "m \<in> set (ag_attempts a)" "running m" and r: "expire_attempt e m jobID a = Inr a'"
  shows "serves sha a a'" "\<And>n. n \<in> set (ag_attempts a) \<Longrightarrow> am_id n \<noteq> am_id m \<Longrightarrow> n \<in> set (ag_attempts a')"
proof -
  let ?p = "\<lambda>n. am_id n = am_id m \<and> am_state n = ''running''"
  obtain code message b c where
    b: "b = (set_attempts a ?p (\<lambda>n. (ended ''needs_attention'' code message n)\<lparr>am_summary := message\<rparr>))
        \<lparr>ag_tasks := update_where (\<lambda>t. tk_id t = am_task m \<and> tk_state t = ''executing'') (moved ''needs_attention'') (ag_tasks a)\<rparr>"
    and c: "(if jobID \<noteq> '''' then queueAgentAdapterCancellation (queueAgentTaskAttemptStatus b (am_task m) (am_id m)) (am_task m) (am_id m) jobID
        else Inr (queueAgentTaskAttemptStatus b (am_task m) (am_id m))) = Inr c"
    and s: "same c a'"
    using r unfolding expire_attempt_def Let_def bind_r_Inr_iff by (auto simp only: sum.inject set_attempts_fields same_audit)
  have "same b c" using c by (auto split: if_split_asm dest!: same_cancellation intro: same_trans [OF same_attempt_status])
  then have s': "same b a'" using s by (rule same_trans)
  have "serves sha a b" unfolding b
    by (rule serves_end_writes [OF a m]) (use only_row [OF a m(1), of ?p] m in
      \<open>auto simp: running_def ended_def attempt_key_def intro!: ended_attemptI\<close>)
  then show "serves sha a a'" using s' by (rule serves_same_after)
  fix n assume "n \<in> set (ag_attempts a)" "am_id n \<noteq> am_id m"
  then have "n \<in> set (ag_attempts b)" unfolding b by (force simp: set_update_where)
  then show "n \<in> set (ag_attempts a')" using s' by (simp add: same_def)
qed

lemma expire_all_serves:
  assumes "ag_inv sha a" "distinct (map (\<lambda>x. am_id (fst x)) rows)" "\<And>x. x \<in> set rows \<Longrightarrow> fst x \<in> set (ag_attempts a) \<and> running (fst x)"
    and "expire_all e rows a = Inr a'"
  shows "serves sha a a'"
  using assms
proof (induction rows arbitrary: a)
  case Nil
  then show ?case by auto
next
  case (Cons x rows)
  obtain m j where x: "x = (m, j)" by (cases x)
  have m: "m \<in> set (ag_attempts a)" "running m" using Cons(4) [of x] x by simp_all
  obtain b where b: "expire_attempt e m j a = Inr b" "expire_all e rows b = Inr a'" using Cons(5) x by (auto simp: bind_r_Inr_iff)
  note s = expire_attempt_serves [OF Cons(2) m b(1)]
  have d: "am_id (fst y) \<noteq> am_id m" if "y \<in> set rows" for y using Cons(3) that x by (auto simp: image_iff)
  have "fst y \<in> set (ag_attempts b) \<and> running (fst y)" if "y \<in> set rows" for y using s(2) [OF _ d [OF that]] Cons(4) that by simp
  then have "serves sha b a'" using Cons(1) [OF serves_inv [OF s(1)] _ _ b(2)] Cons(3) by simp
  then show ?case by (rule serves_trans [OF s(1)])
qed

lemma scan_expired_rows: "scan_expired ms = Inr rows \<Longrightarrow> map fst rows = ms"
  by (induction ms arbitrary: rows) (auto simp: bind_r_Inr_iff split: option.split_asm)

lemma expired_attempts_rows:
  assumes a: "ag_inv sha a"
  shows "distinct (map am_id (expired_attempts e a limit))"
    and "m \<in> set (expired_attempts e a limit) \<Longrightarrow> m \<in> set (ag_attempts a) \<and> attempt_expired e m"
proof -
  have "distinct (map am_id (filter (attempt_expired e) (ag_attempts a)))" using a by (simp add: ag_inv_def ids_ok_def distinct_map_filter)
  then have "distinct (map am_id (sort_key expiry_order (filter (attempt_expired e) (ag_attempts a))))" by (simp add: distinct_map)
  then show "distinct (map am_id (expired_attempts e a limit))" unfolding expired_attempts_def by (simp only: take_map [symmetric] distinct_take)
  assume "m \<in> set (expired_attempts e a limit)"
  then have "m \<in> set (sort_key expiry_order (filter (attempt_expired e) (ag_attempts a)))" unfolding expired_attempts_def by (rule in_set_takeD)
  then show "m \<in> set (ag_attempts a) \<and> attempt_expired e m" by simp
qed

lemma ExpireAgentTaskAttempts_serves:
  assumes a: "ag_inv sha a" and r: "ExpireAgentTaskAttempts e a limit = Inr (a', n)"
  shows "serves sha a a'"
proof -
  obtain rows where s: "scan_expired (expired_attempts e a limit) = Inr rows" and x: "expire_all e rows a = Inr a'"
    using r by (auto simp: ExpireAgentTaskAttempts_def bind_r_Inr_iff split: if_split_asm)
  have m: "map fst rows = expired_attempts e a limit" using scan_expired_rows [OF s] .
  have "map (\<lambda>x. am_id (fst x)) rows = map am_id (expired_attempts e a limit)" unfolding m [symmetric] by simp
  then have d: "distinct (map (\<lambda>x. am_id (fst x)) rows)" using expired_attempts_rows(1) [OF a] by simp
  have "fst x \<in> set (ag_attempts a) \<and> running (fst x)" if "x \<in> set rows" for x
  proof -
    have "fst x \<in> set (expired_attempts e a limit)" unfolding m [symmetric] using that by simp
    then show ?thesis using expired_attempts_rows(2) [OF a] by (simp add: attempt_expired_def running_def)
  qed
  then show ?thesis using expire_all_serves [OF a d _ x] by simp
qed

section \<open>Callbacks\<close>

lemma renew_by_callback_serves:
  assumes a: "ag_inv sha a" and m: "m \<in> set (ag_attempts a)" "running m" and r: "renew_by_callback e a m lease = Inr (a', res)"
  shows "serves sha a a'"
proof -
  have e: "a' = set_attempts a (\<lambda>n. am_id n = am_id m) (renewed e lease)" using r by (auto simp: renew_by_callback_def split: if_split_asm)
  show ?thesis unfolding e
    by (rule serves_hold [OF a m(1) only_row [OF a m(1)]])
      (use m job_nonempty [OF a m(1)] in \<open>auto simp: lease_kept_def renewed_def running_def attempt_key_def\<close>)
qed

lemma serves_checkpoint:
  assumes a: "ag_inv sha a" shows "serves sha a (a\<lparr>ag_checkpoints := ag_checkpoints a @ [k]\<rparr>)"
  by (rule serves_one [OF a]) (use a in \<open>auto simp: ag_inv_def policies_ok_def life_of_def ids_ok_def nxt_def\<close>)

lemma publication_checkpoint_serves:
  assumes a: "ag_inv sha a" and m: "m \<in> set (ag_attempts a)" "running m" and r: "publication_checkpoint e a m v lease = Inr (a', res)"
  shows "serves sha a a'"
proof (cases "find_checkpoint a m")
  case (Some k)
  then have "renew_by_callback e a m lease = Inr (a', res)" using r by (auto simp: publication_checkpoint_def split: option.split_asm if_split_asm)
  then show ?thesis by (rule renew_by_callback_serves [OF a m])
next
  case None
  then obtain x1 x2 x3 x4 x5 where
    r: "renew_by_callback e (ag_audit (a\<lparr>ag_checkpoints := ag_checkpoints a @ [checkpoint_row e m v]\<rparr>) x1 x2 x3 x4 x5) m lease = Inr (a', res)"
    using r by (auto simp: publication_checkpoint_def split: option.split_asm if_split_asm)
  let ?b = "ag_audit (a\<lparr>ag_checkpoints := ag_checkpoints a @ [checkpoint_row e m v]\<rparr>) x1 x2 x3 x4 x5"
  have s: "serves sha a ?b" by (rule serves_same_after [OF serves_checkpoint [OF a] same_audit])
  have "m \<in> set (ag_attempts ?b)" using m(1) by (simp add: ag_audit_def)
  then show ?thesis using serves_trans [OF s renew_by_callback_serves [OF serves_inv [OF s] _ m(2) r]] by blast
qed

text \<open>The evidence of a completed callback.\<close>

lemma valid_criteria_profile:
  "AgentTaskAdapterEvent_Valid v \<Longrightarrow> ad_criteria v \<noteq> [] \<Longrightarrow> ad_profile v \<noteq> ''''"
  unfolding AgentTaskAdapterEvent_Valid_def by (simp only: if_split_asm) auto

lemma completion_evidenced:
  assumes t: "row_by tk_id (am_task m) (ag_tasks a) = Some t" and p: "row_by pn_id (am_plan m) (ag_plans a) = Some p" "pn_task p = am_task m"
    and v: "AgentTaskAdapterEvent_Valid v" and c: "criteria_satisfied a m v = Inr ()" and r: "completion_evidence e a t m v = Inr url"
  shows "evidenced (ag_checkpoints a) t (filter (\<lambda>p. pn_task p = am_task m) (ag_plans a)) (concluded ''succeeded'' v code url m)"
proof -
  have b: "ad_branch v = tk_branch t" using r by (simp add: completion_evidence_def split: option.split_asm if_split_asm)
  have cv: "CriteriaVerified (se_criteria (pn_sections p)) (ad_criteria v)" if "wp_evidence (tk_workflow t)"
    using c t p(1) that by (simp add: criteria_satisfied_def split: if_split_asm)
  have pm: "p \<in> set (filter (\<lambda>p. pn_task p = am_task m) (ag_plans a))" "pn_id p = am_plan m" using row_by_SomeD [OF p(1)] p(2) by simp_all
  have ne: "ad_criteria v \<noteq> []" if "wp_evidence (tk_workflow t)" using cv [OF that] by (auto simp: CriteriaVerified_iff)
  have "\<exists>k \<in> set (ag_checkpoints a). ck_attempt k = am_id m \<and> ck_number k = am_attempt m \<and> same_evidence v k"
    if "ad_profile v \<noteq> '''' \<or> wp_evidence (tk_workflow t)"
  proof -
    have "ad_profile v \<noteq> ''''" using that ne valid_criteria_profile [OF v] by blast
    then obtain k where "find_checkpoint a m = Some k" "same_evidence v k"
      using r by (auto simp: completion_evidence_def split: option.split_asm if_split_asm)
    then show ?thesis using find_SomeD [of _ "ag_checkpoints a" k] by (auto simp: find_checkpoint_def)
  qed
  moreover have "CriteriaVerified (se_criteria (pn_sections p)) (ck_criteria k)" if "same_evidence v k" "wp_evidence (tk_workflow t)" for k
    using that cv ne by (auto simp: same_evidence_def equalCriterionResults_def split: if_split_asm)
  ultimately show ?thesis
    unfolding evidenced_def using b pm by (fastforce simp: concluded_def same_evidence_def)
qed

lemma attempt_plan:
  assumes a: "ag_inv sha a" and m: "m \<in> set (ag_attempts a)" "running m" and p: "row_by pn_id (am_plan m) (ag_plans a) = Some p"
  shows "pn_task p = am_task m"
proof -
  obtain t where t: "row_by tk_id (am_task m) (ag_tasks a) = Some t" using attempt_task [OF a m(1)] .
  obtain q where "q \<in> set (ag_plans a)" "pn_id q = am_plan m" "pn_task q = am_task m"
    using running_cleared(1) [OF a m t] by (auto simp: cleared_def approved_latest_def)
  then show ?thesis using row_by_SomeD [OF p] a distinct_key_eq [of pn_id "ag_plans a" q p] by (auto simp: ag_inv_def ids_ok_def)
qed

lemma concluded_ended:
  assumes "running m" "state \<noteq> ''running''" "state = ''succeeded'' \<Longrightarrow> evidenced K t ps (concluded state v code url m)"
  shows "ended_attempt K t ps m (concluded state v code url m)"
  using assms by (auto simp: ended_attempt_def concluded_def running_def attempt_key_def)

lemma conclude_attempt_serves:
  assumes a: "ag_inv sha a" and m: "m \<in> set (ag_attempts a)" "running m" and t: "row_by tk_id (am_task m) (ag_tasks a) = Some t"
    and v: "\<And>code. ad_kind v = ''completed'' \<Longrightarrow>
      evidenced (ag_checkpoints a) t (filter (\<lambda>p. pn_task p = am_task m) (ag_plans a)) (concluded ''succeeded'' v code url m)"
    and r: "conclude_attempt e a t m v url = Inr (a', res)"
  shows "serves sha a a'"
proof -
  have i: "tk_id t = am_task m" using task_row_id [OF t] .
  let ?p = "\<lambda>n. am_id n = am_id m"
  let ?code = "if ad_kind v \<noteq> ''completed'' \<and> ad_error v = '''' then ''agent_adapter_failed'' else ad_error v"
  let ?m = "concluded (attempt_end v) v ?code url m"
  let ?b = "(set_attempts a ?p (\<lambda>_. ?m))
        \<lparr>ag_tasks := update_where (\<lambda>q. tk_id q = am_task m \<and> tk_state q = ''executing'') (moved (task_end v)) (ag_tasks a)\<rparr>"
  obtain c where c: "(if ad_kind v = ''completed'' then recordAgentDeliveryTx e ?b t ?m else Inr ?b) = Inr c" and s: "same c a'"
    using r unfolding conclude_attempt_def Let_def bind_r_Inr_iff set_attempts_fields i
    by (auto intro: same_trans [OF same_attempt_comment same_audit])
  have "ended_attempt (ag_checkpoints a) t (filter (\<lambda>p. pn_task p = am_task m) (ag_plans a)) m ?m"
    by (rule concluded_ended [OF m(2)]) (use v in \<open>auto simp: attempt_end_def split: if_split_asm\<close>)
  then have sb: "serves sha a ?b" using only_row [OF a m(1), of ?p] t
    by (intro serves_end_writes [OF a m]) (auto simp: task_end_def attempt_end_def)
  have "same ?b c" using c same_delivery by (simp split: if_split_asm)
  then show ?thesis using serves_same_after [OF sb same_trans] s by blast
qed

lemma terminal_callback_serves:
  assumes a: "ag_inv sha a" and m: "m \<in> set (ag_attempts a)" "running m" and v: "AgentTaskAdapterEvent_Valid v"
    and c: "ad_kind v = ''completed'' \<Longrightarrow> criteria_satisfied a m v = Inr ()" and r: "terminal_callback e a m v = Inr (a', res)"
  shows "serves sha a a'"
proof -
  obtain t where t: "row_by tk_id (am_task m) (ag_tasks a) = Some t" using attempt_task [OF a m(1)] .
  obtain url where u: "(if ad_kind v = ''completed'' then completion_evidence e a t m v else Inr (ad_url v)) = Inr url"
    and f: "conclude_attempt e a t m v url = Inr (a', res)" using r t by (auto simp: terminal_callback_def bind_r_Inr_iff)
  show ?thesis
  proof (rule conclude_attempt_serves [OF a m t _ f])
    fix code assume d: "ad_kind v = ''completed''"
    then obtain p where p: "row_by pn_id (am_plan m) (ag_plans a) = Some p" using c by (auto simp: criteria_satisfied_def split: option.split_asm)
    show "evidenced (ag_checkpoints a) t (filter (\<lambda>p. pn_task p = am_task m) (ag_plans a)) (concluded ''succeeded'' v code url m)"
      using completion_evidenced [OF t p attempt_plan [OF a m p] v c [OF d], of e url code] u d by simp
  qed
qed

lemma RecordAgentTaskAdapterEvent_serves:
  assumes a: "ag_inv sha a" and r: "RecordAgentTaskAdapterEvent e a event lease = Inr (a', res)"
  shows "serves sha a a'"
proof -
  let ?v = "trimmed_event event"
  let ?b = "a\<lparr>ag_receipts := ag_receipts a @ [((ad_attempt ?v, ad_delivery ?v), ae_digest e ?v)]\<rparr>"
  have v: "AgentTaskAdapterEvent_Valid ?v" using r by (simp add: RecordAgentTaskAdapterEvent_def Let_def split: if_split_asm)
  show ?thesis
  proof (cases "map_of (ag_receipts a) (ad_attempt ?v, ad_delivery ?v)")
    case (Some x)
    then have "a' = a" using r by (auto simp: RecordAgentTaskAdapterEvent_def repeated_callback_def Let_def split: if_split_asm option.split_asm)
    then show ?thesis using a by auto
  next
    case None
    have sb: "same a ?b" by (simp add: same_def nxt_def)
    note b = serves_inv [OF same_serves [OF sb a]]
    obtain m where m: "row_by am_id (ad_attempt ?v) (ag_attempts a) = Some m" "callback_lease e ?v m"
      and f: "(if ad_kind ?v = ''heartbeat'' then renew_by_callback e ?b m lease
          else bind_r (if ad_kind ?v = ''publication_checkpoint'' \<or> ad_kind ?v = ''completed'' then criteria_satisfied ?b m ?v else Inr ()) (\<lambda>_.
            if ad_kind ?v = ''publication_checkpoint'' then publication_checkpoint e ?b m ?v lease
            else terminal_callback e ?b m ?v)) = Inr (a', res)"
      using r None unfolding RecordAgentTaskAdapterEvent_def Let_def
      by (simp only: option.case split: if_split_asm option.split_asm) auto
    have mb: "m \<in> set (ag_attempts ?b)" "running m" using row_by_SomeD [OF m(1)] m(2) by (simp_all add: callback_lease_def running_def)
    have "serves sha ?b a'"
    proof (cases "ad_kind ?v = ''heartbeat''")
      case True
      then show ?thesis using renew_by_callback_serves [OF b mb, of e lease a' res] f by simp
    next
      case False
      then obtain x where c: "(if ad_kind ?v = ''publication_checkpoint'' \<or> ad_kind ?v = ''completed'' then criteria_satisfied ?b m ?v else Inr ()) = Inr x"
        "(if ad_kind ?v = ''publication_checkpoint'' then publication_checkpoint e ?b m ?v lease else terminal_callback e ?b m ?v) = Inr (a', res)"
        using f by (auto simp only: if_False bind_r_Inr_iff)
      show ?thesis
      proof (cases "ad_kind ?v = ''publication_checkpoint''")
        case True
        then show ?thesis using publication_checkpoint_serves [OF b mb, of e ?v lease a' res] c(2) by simp
      next
        case False
        then have "criteria_satisfied ?b m ?v = Inr ()" if "ad_kind ?v = ''completed''" using c(1) that by simp
        moreover have "terminal_callback e ?b m ?v = Inr (a', res)" using c(2) False by simp
        ultimately show ?thesis using terminal_callback_serves [OF b mb v] by blast
      qed
    qed
    then show ?thesis using serves_trans [OF same_serves [OF sb a]] by blast
  qed
qed

section \<open>Recovery of a publication\<close>

lemma ClaimAgentPublicationRecovery_serves:
  assumes a: "ag_inv sha a" and r: "ClaimAgentPublicationRecovery e a worker = Inr (a', res)"
  shows "serves sha a a'"
proof -
  have "\<exists>rows. a' = a\<lparr>ag_recoveries := rows\<rparr>"
    using r unfolding ClaimAgentPublicationRecovery_def Let_def
    by (auto split: if_split_asm list.split_asm option.split_asm prod.split_asm)
  then have "same a a'" by (auto simp: same_def nxt_def)
  then show ?thesis using a by (rule same_serves)
qed

lemma complete_recovery_serves:
  assumes a: "ag_inv sha a" and t: "row_by tk_id (tk_id t) (ag_tasks a) = Some t" and m: "m \<in> set (ag_attempts a)" "am_task m = tk_id t"
    and c: "recoverableAgentPublication a m" and k: "find_checkpoint a m = Some k" and p: "row_by pn_id (am_plan m) (ag_plans a) = Some p"
    and d: "draft_confirmed t m p k branch h dr" and r: "complete_recovery e a t m k url = Inr a'"
  shows "serves sha a a'"
proof -
  let ?m = "recovered_attempt t k url m"
  let ?b = "set_task (set_attempts a (\<lambda>n. am_id n = am_id m) (\<lambda>_. ?m)) (tk_id t) (moved ''completed'')"
  have st: "tk_state t = ''needs_attention''" "am_state m = ''needs_attention''" "map_option pn_id (latest_plan a (tk_id t)) = Some (pn_id p)"
    using c t p m(2) by (simp_all add: recoverableAgentPublication_def)
  obtain l where l: "latest_plan a (tk_id t) = Some l" "pn_id l = pn_id p" using st(3) by auto
  have pm: "p \<in> set (filter (\<lambda>p. pn_task p = tk_id t) (ag_plans a))" "pn_id p = am_plan m"
    using latest_plan_facts(1) [OF l(1)] row_by_SomeD [OF p] l(2) a distinct_key_eq [of pn_id "ag_plans a" l p] by (auto simp: ag_inv_def ids_ok_def)
  have kk: "k \<in> set (ag_checkpoints a)" "ck_attempt k = am_id m" "ck_number k = am_attempt m"
    using k find_SomeD [of _ "ag_checkpoints a" k] by (auto simp: find_checkpoint_def)
  have v: "evidenced (ag_checkpoints a) t (filter (\<lambda>p. pn_task p = tk_id t) (ag_plans a)) ?m"
    unfolding evidenced_def using d pm kk by (auto simp: recovered_attempt_def draft_confirmed_def)
  have s: "serves sha a ?b"
    by (rule serves_recover [OF a t st(1) m st(2) _ _ _ _ _ _ v]) (simp_all add: recovered_attempt_def attempt_key_def)
  obtain c' where "recordAgentDeliveryTx e ?b t ?m = Inr c'"
    "same c' a'" using r by (auto simp: complete_recovery_def Let_def bind_r_Inr_iff intro: same_trans [OF same_release same_audit])
  then show ?thesis using serves_same_after [OF s] same_trans same_delivery by blast
qed

lemma FinishAgentPublicationRecovery_serves:
  assumes a: "ag_inv sha a" and r: "FinishAgentPublicationRecovery e a worker taskID attemptID h d draftURL reason0 = Inr a'"
  shows "serves sha a a'"
proof -
  obtain q t i m k p branch where ti: "task_installation a taskID = Some (t, i)" and m: "row_by am_id attemptID (ag_attempts a) = Some m"
    and k: "find_checkpoint a m = Some k" and p: "row_by pn_id (am_plan m) (ag_plans a) = Some p"
    and f: "settle_recovery e a q t m k draftURL (recovery_reason e a t i m p k branch h d draftURL reason0) = Inr a'"
    using r unfolding FinishAgentPublicationRecovery_def
    by (auto split: option.split_asm prod.split_asm)
  have t: "row_by tk_id taskID (ag_tasks a) = Some t" using ti by (auto simp: task_installation_def split: option.split_asm)
  have tk: "row_by tk_id (tk_id t) (ag_tasks a) = Some t" using t task_row_id [OF t] by simp
  show ?thesis
  proof (cases "recovery_reason e a t i m p k branch h d draftURL reason0 = ''''")
    case False
    then have "same a a'" using f by (auto simp: settle_recovery_def)
    then show ?thesis using a by (rule same_serves)
  next
    case True
    then have "am_task m = tk_id t" "recoverableAgentPublication a m" "draft_confirmed t m p k branch h d"
      unfolding recovery_reason_def Let_def by (simp_all split: if_split_asm)
    moreover obtain url where "complete_recovery e a t m k url = Inr a'" using f True by (auto simp: settle_recovery_def split: option.split_asm)
    ultimately show ?thesis using complete_recovery_serves [OF a tk _ _ _ k p] row_by_SomeD [OF m] by blast
  qed
qed

end
