(* ===== verification/Agent_Samples.thy ===== *)
theory Agent_Samples
  imports Agent_Safety
begin

text \<open>
  One remediation task from its admission to its delivered draft, as concrete states for the witnesses of
  \<open>Agent_Properties\<close>: \<open>crew1\<close> holds the received task, \<open>crew3\<close> its captured source and the generated
  plan, \<open>crew4\<close> the approval by a second person, \<open>crew5\<close> the leased attempt, \<open>crew6\<close> the attached job,
  \<open>crew7\<close> the started run, \<open>crew8\<close> the checkpoint and \<open>crew9\<close> the delivery. Each state is the result of the
  transaction on the one before it. The long texts of the classification stay the ones of a variable \<open>c\<close>,
  which the last section replaces by the classification of the issue.
\<close>

definition crew_members :: "Membership list" where
  "crew_members = [\<lparr>mem_tenant = 1, mem_slug = ''acme'', mem_subject = ''ann'', mem_role = ''owner'', mem_active = True\<rparr>,
     \<lparr>mem_tenant = 1, mem_slug = ''acme'', mem_subject = ''bob'', mem_role = ''admin'', mem_active = True\<rparr>]"

definition crew_db :: db where
  "crew_db = \<lparr>db_next = 2, db_requests = [], db_runs = [], db_jobs = [], db_events = [], db_stages = [], db_outbox = [],
     db_reservations = [], db_ledger = [], db_interventions = [], db_audits = [], db_deliveries = [], db_retries = [], db_configs = [],
     db_selections = [], db_members = crew_members,
     db_installations = [\<lparr>ins_id = 1, ins_tenant = 1, ins_provider = ''github'', ins_external = ''7'', ins_api = ''h'', ins_active = True,
       ins_verification = ''verified''\<rparr>], db_limits = [], db_checkpoints = []\<rparr>"

definition crew_gov :: gov where
  "crew_gov = \<lparr>gv_db = crew_db, gv_sets = [], gv_versions = [], gv_requests = [], gv_approvals = [], gv_bindings = [],
     gv_exceptions = [], gv_rollouts = [], gv_comparisons = [], gv_policies = [], gv_scopes = [(1, ''a/b'')], gv_issues = [],
     gv_issue_events = [], gv_snapshots = [], gv_snapshot_sources = [], gv_snapshot_exceptions = []\<rparr>"

definition crew0 :: agents where
  "crew0 = \<lparr>ag_gov = crew_gov, ag_policies = [], ag_tasks = [], ag_plans = [], ag_attempts = [], ag_classes = [], ag_receipts = [],
     ag_checkpoints = [], ag_recoveries = [], ag_requirements = [], ag_acceptances = [], ag_interactions = [], ag_feedback = [],
     ag_issues = [], ag_campaigns = [], ag_targets = [], ag_outbox = []\<rparr>"

definition crew_sha :: "string \<Rightarrow> string" where
  "crew_sha = (\<lambda>_. ''aaaaaaaaaaaaaaaaaaaaaaaaaaaaaaaaaaaaaaaaaaaaaaaaaaaaaaaaaaaaaaaa'')"

definition crew_env :: agent_env where
  "crew_env = \<lparr>ae_now = 100, ae_clock = 100, ae_sha = crew_sha, ae_digest = (\<lambda>_. ''d''), ae_text = (\<lambda>_. ''t''), ae_storable = (\<lambda>_. True),
     ae_url = (\<lambda>_ _ _ _ url. Some url)\<rparr>"

definition crew_issue :: string where
  "crew_issue = ''issue-sha256:aaaaaaaaaaaaaaaaaaaaaaaaaaaaaaaaaaaaaaaaaaaaaaaaaaaaaaaaaaaaaaaa''"

definition crew_task :: AgentTask where
  "crew_task = \<lparr>tk_id = 1, tk_tenant = 1, tk_installation = 1, tk_provider = ''github'', tk_api = ''h'', tk_repository = ''a/b'',
     tk_origin = ''issue'', tk_number = 7, tk_origin_revision = crew_issue, tk_intent = ''implement'', tk_policy_revision = 1,
     tk_max_attempts = 2, tk_max_seconds = 60, tk_max_feedback = 0, tk_executor = ''codex'', tk_backend = ''deterministic'',
     tk_branch = ''agent/t'', tk_parent = None, tk_source_state = ''pending'', tk_base_ref = '''', tk_base_sha = '''',
     tk_state = ''received'', tk_revision = 1, tk_requested_by = ''ann'', tk_created = 100,
     tk_workflow = \<lparr>wp_evidence = True, wp_enabled = True, wp_repairs = 0, wp_attempts = 2, wp_checks = []\<rparr>\<rparr>"

definition crew_sections :: AgentTaskPlanSections where
  "crew_sections = \<lparr>se_source = '''', se_repository = '''', se_criteria = [''builds''], se_objective = ''Make the build pass.'',
     se_scope = ''The build.'', se_verification = ''Run build.'', se_risks = ''Low'', se_unknowns = ''Nil''\<rparr>"

definition crew_body :: string where
  "crew_body = ''Acceptance: the build passes again. It stopped with the last change of the compiler flags.''"

definition crew_snapshot :: AgentTaskSourceSnapshot where
  "crew_snapshot = \<lparr>ss_ref = ''main'', ss_sha = ''abcdef1'', ss_target = '''', ss_repository = ''x'',
     ss_issue = Some \<lparr>si_title = ''Fix'', si_body = crew_body, si_labels = [], si_revision = crew_issue\<rparr>,
     ss_feedback = None, ss_plan = Some crew_sections, ss_signal = None\<rparr>"

definition crew_request :: AgentTaskExecutionRequest where
  "crew_request = \<lparr>xr_task = 1, xr_task_revision = 4, xr_plan = 2, xr_plan_revision = 1, xr_sha = crew_sha ''''\<rparr>"

definition crew_event :: "string \<Rightarrow> string \<Rightarrow> string \<Rightarrow> string \<Rightarrow> int \<Rightarrow> AgentTaskAdapterEvent" where
  "crew_event kind delivery summary url number =
     \<lparr>ad_criteria = [\<lparr>cr_criterion = ''builds'', cr_status = ''passed'', cr_evidence = ''log''\<rparr>], ad_attempt = 3, ad_job = ''j'',
      ad_delivery = delivery, ad_kind = kind, ad_summary = summary, ad_branch = ''agent/t'',
      ad_head = ''aaaaaaaaaaaaaaaaaaaaaaaaaaaaaaaaaaaaaaaa'', ad_url = url, ad_number = number, ad_patch = crew_sha '''', ad_files = 1,
      ad_bytes = 9, ad_profile = crew_sha '''', ad_output = crew_sha '''', ad_output_bytes = 5, ad_error = ''''\<rparr>"

definition crew_lease :: int where "crew_lease = 60 * agent_second"

definition crew1 :: agents where "crew1 = crew0\<lparr>ag_tasks := ag_tasks crew0 @ [crew_task]\<rparr>"

text \<open>The classification of the issue; the fields that no later step reads are those of \<open>c\<close>.\<close>

definition crew_row :: "AgentTaskClassification \<Rightarrow> AgentTaskClassification" where
  "crew_row c = \<lparr>cl_task = 1, cl_task_revision = 2, cl_source_revision = cl_source_revision c, cl_decision = ''requires_human'',
     cl_risk = cl_risk c, cl_confidence = cl_confidence c, cl_reasons = cl_reasons c, cl_evaluation = cl_evaluation c, cl_next = cl_next c,
     cl_sha = cl_sha c, cl_version = cl_version c\<rparr>"

definition crew_classified :: "AgentTaskClassification \<Rightarrow> agent_error + (agents \<times> AgentTask)" where
  "crew_classified c = bind_r (recordAgentTaskClassification (set_task crew1 1 (captured crew_snapshot)) (captured crew_snapshot crew_task) (crew_row c))
     (\<lambda>a. Inr (a, captured crew_snapshot crew_task))"

definition crew_captured :: "AgentTaskClassification \<Rightarrow> agent_error + (agents \<times> AgentTask)" where
  "crew_captured c = bind_r (crew_classified c) (\<lambda>(a, t). bind_r (generate_plan crew_env a t crew_snapshot) (\<lambda>(a, t).
     bind_r (queueAgentTaskSourceProviderComment crew_env a t (if tk_state t = ''awaiting_approval'' then ''plan'' else ''ready'')) (\<lambda>a.
     Inr (ag_audit a (tk_tenant t) ''worker:agent-task-source-admitter'' ''agent_task.source_captured'' (tk_id t)
            [(''base_ref'', PStr (ss_ref crew_snapshot)), (''base_sha'', PStr (ss_sha crew_snapshot)), (''revision'', PInt (tk_revision t))], t))))"

definition "crew3 c = fst (projr (crew_captured c))"
definition "crew_approved c = ApproveAgentTaskPlan crew_env (crew3 c) ''bob'' ''acme'' 1 2 1"
definition "crew4 c = fst (projr (crew_approved c))"
definition "crew_claimed c = ClaimAgentTaskAttempt crew_env (crew4 c) ''w'' crew_request crew_lease"
definition "crew5 c = fst (projr (crew_claimed c))"
definition "crew_attached c = AttachAgentTaskAdapterJob crew_env (crew5 c) 3 ''w'' ''j''"
definition "crew6 c = projr (crew_attached c)"
definition "crew_started c = ClaimAgentTaskAdapterStart crew_env (crew6 c) 3 ''j''"
definition "crew7 c = projr (crew_started c)"
definition "crew_checked c = RecordAgentTaskAdapterEvent crew_env (crew7 c) (crew_event ''publication_checkpoint'' ''d1'' '''' '''' 0) crew_lease"
definition "crew8 c = fst (projr (crew_checked c))"
definition "crew_finished c = RecordAgentTaskAdapterEvent crew_env (crew8 c) (crew_event ''completed'' ''d2'' ''done'' ''u'' 7) crew_lease"
definition "crew9 c = fst (projr (crew_finished c))"

definition crew_class :: AgentTaskClassification where
  "crew_class = Classify crew_sha (captured crew_snapshot crew_task) ''Fix'' crew_body []"

lemma crew_safe: "\<not> containsAny (ToLower (''Fix'' @ nl @ TrimSpace crew_body @ nl @ Join_with nl [])) injection_words"
  by code_simp

lemma crew_long: "\<not> len (TrimSpace crew_body) < 80" "TrimSpace ''Fix'' = ''Fix''"
  by code_simp+

lemma crew_decision: "cl_decision crew_class = ''requires_human''"
  unfolding crew_class_def Classify_def Let_def crew_long(2) if_not_P [OF crew_safe]
  using crew_long(1) by (simp add: first_verdict_def Let_def)

lemma crew_env_sha: "ae_sha crew_env = crew_sha"
  by (simp add: crew_env_def)

lemma crew_trimmed: "crew_snapshot\<lparr>ss_ref := TrimSpace (ss_ref crew_snapshot), ss_sha := TrimSpace (ss_sha crew_snapshot)\<rparr> = crew_snapshot"
proof -
  have "TrimSpace (ss_ref crew_snapshot) = ss_ref crew_snapshot" "TrimSpace (ss_sha crew_snapshot) = ss_sha crew_snapshot" by code_simp+
  then show ?thesis by simp
qed

lemma crew_admissible:
  "base_pair_valid (ss_ref crew_snapshot) (ss_sha crew_snapshot)" "source_evidence crew_env crew1 crew_task crew_snapshot = Inr ()"
  by code_simp+

lemma crew_recorded: "cl_decision c = ''requires_human'' \<Longrightarrow>
  recordAgentTaskClassification a (captured crew_snapshot crew_task) c = recordAgentTaskClassification a (captured crew_snapshot crew_task) (crew_row c)"
  by (cases c) (simp add: recordAgentTaskClassification_def crew_row_def Let_def)

lemma crew_classify: "classify_source crew_env (set_task crew1 1 (captured crew_snapshot)) (captured crew_snapshot crew_task) crew_snapshot
    = crew_classified crew_class"
proof -
  have t: "classified_text crew_snapshot = Some (''Fix'', crew_body, [])" by (simp add: classified_text_def crew_snapshot_def)
  have b: "tk_backend (captured crew_snapshot crew_task) = ''deterministic''" by (simp add: captured_def crew_task_def)
  have a: "ApplySignal c s ''deterministic'' = Some c" for c s by (simp add: ApplySignal_def)
  show ?thesis unfolding classify_source_def t option.case prod.case b a crew_env_sha crew_class_def [symmetric] crew_classified_def
    by (simp add: crew_decision crew_recorded [OF crew_decision])
qed

lemma crew_capture: "RecordAgentTaskSourceSnapshot crew_env crew1 1 crew_snapshot = crew_captured crew_class"
proof -
  have r: "row_by tk_id 1 (ag_tasks crew1) = Some crew_task" "tk_source_state crew_task = ''pending''" "tk_state crew_task = ''received''"
    by (simp_all add: crew1_def crew0_def crew_task_def)
  show ?thesis unfolding RecordAgentTaskSourceSnapshot_def Let_def crew_trimmed
    by (simp add: r crew_admissible crew_classify crew_captured_def del: One_nat_def)
qed

section \<open>Every transaction succeeds\<close>

lemma crew_ok_captured: "\<not> isl (crew_captured c)"
  by code_simp

lemma crew_ok_approved: "\<not> isl (crew_approved c)"
  by code_simp

lemma crew_ok_claimed: "\<not> isl (crew_claimed c)"
  by code_simp

lemma crew_ok_attached: "\<not> isl (crew_attached c)"
  by code_simp

lemma crew_ok_started: "\<not> isl (crew_started c)"
  by code_simp

lemma crew_ok_checked: "\<not> isl (crew_checked c)"
  by code_simp

lemma crew_ok_finished: "\<not> isl (crew_finished c)"
  by code_simp

lemma projr_fst: "\<not> isl r \<Longrightarrow> r = Inr (fst (projr r), snd (projr r))"
  by (cases r) auto

lemma crew_captures: "RecordAgentTaskSourceSnapshot crew_env crew1 1 crew_snapshot = Inr (crew3 crew_class, snd (projr (crew_captured crew_class)))"
  unfolding crew_capture crew3_def by (rule projr_fst [OF crew_ok_captured])

lemma crew_approves: "ApproveAgentTaskPlan crew_env (crew3 c) ''bob'' ''acme'' 1 2 1 = Inr (crew4 c, snd (projr (crew_approved c)))"
  unfolding crew_approved_def [symmetric] crew4_def by (rule projr_fst [OF crew_ok_approved])

lemma crew_claims: "ClaimAgentTaskAttempt crew_env (crew4 c) ''w'' crew_request crew_lease = Inr (crew5 c, snd (projr (crew_claimed c)))"
  unfolding crew_claimed_def [symmetric] crew5_def by (rule projr_fst [OF crew_ok_claimed])

lemma crew_attaches: "AttachAgentTaskAdapterJob crew_env (crew5 c) 3 ''w'' ''j'' = Inr (crew6 c)"
  unfolding crew_attached_def [symmetric] crew6_def using crew_ok_attached by (simp add: sum.collapse)

lemma crew_starts: "ClaimAgentTaskAdapterStart crew_env (crew6 c) 3 ''j'' = Inr (crew7 c)"
  unfolding crew_started_def [symmetric] crew7_def using crew_ok_started by (simp add: sum.collapse)

lemma crew_checks: "RecordAgentTaskAdapterEvent crew_env (crew7 c) (crew_event ''publication_checkpoint'' ''d1'' '''' '''' 0) crew_lease
     = Inr (crew8 c, snd (projr (crew_checked c)))"
  unfolding crew_checked_def [symmetric] crew8_def by (rule projr_fst [OF crew_ok_checked])

lemma crew_finishes: "RecordAgentTaskAdapterEvent crew_env (crew8 c) (crew_event ''completed'' ''d2'' ''done'' ''u'' 7) crew_lease
     = Inr (crew9 c, snd (projr (crew_finished c)))"
  unfolding crew_finished_def [symmetric] crew9_def by (rule projr_fst [OF crew_ok_finished])

lemmas crew_steps = crew_captures crew_approves crew_claims crew_attaches crew_starts crew_checks crew_finishes

section \<open>What the states hold\<close>

definition crew_late :: agent_env where
  "crew_late = crew_env\<lparr>ae_now := 100 + 100 * agent_second\<rparr>"

lemma crew_plans3: "map (\<lambda>p. (pn_id p, pn_revision p)) (ag_plans (crew3 c)) = [(2, 1)]"
  by code_simp

lemma crew_attempts5: "map (\<lambda>m. (am_id m, am_state m, am_job m)) (ag_attempts (crew5 c)) = [(3, ''running'', None)]"
  by code_simp

lemma crew_expired5: "map am_id (expired_attempts crew_late (crew5 c) 5) = [3]"
  by code_simp

lemma crew_tasks9:
  "map (\<lambda>t. (tk_id t, tk_state t, wp_enabled (tk_workflow t), wp_attempts (tk_workflow t))) (ag_tasks (crew9 c)) = [(1, ''completed'', True, 2)]"
  by code_simp

lemma crew_attempts9:
  "map (\<lambda>m. (am_id m, am_task m, am_state m, am_attempt m, am_profile m = '''')) (ag_attempts (crew9 c)) = [(3, 1, ''succeeded'', 1, False)]"
  by code_simp

end
