(* ===== verification/Agent_Campaigns.thy ===== *)
theory Agent_Campaigns
  imports Agent_Steps
begin

text \<open>
  The other writers of remediation tasks. A task is also admitted by a command or a label on an issue
  and by a comment on a draft (\<open>internal/store/agent_tasks.go\<close>), by the delivery monitor
  (\<open>internal/store/agent_review_repair.go\<close>) and by a campaign whose scan is finished
  (\<open>internal/store/agent_campaigns.go\<close>); a campaign also prepares new plans for its failed tasks. Who may
  be admitted this way, and what the new row holds, is decided by code that is not modelled; the row is an
  argument here, and what happens to it in the same transaction is modelled.
\<close>

section \<open>Admission of a new row\<close>

text \<open>The text of an admission is classified with its row; a rejected one is rejected at once.\<close>

definition admit_classified :: "agents \<Rightarrow> AgentTask \<Rightarrow> AgentTaskClassification \<Rightarrow> agent_error + (agents \<times> AgentTask)" where
  "admit_classified a t c =
     bind_r (recordAgentTaskClassification a t c) (\<lambda>a.
       if cl_decision c = ''rejected'' then Inr (set_task a (tk_id t) (moved ''rejected''), moved ''rejected'' t) else Inr (a, t))"

text \<open>A finished scan of a campaign brings the plan along.\<close>

definition admit_campaign_task ::
  "agent_env \<Rightarrow> agents \<Rightarrow> AgentTask \<Rightarrow> AgentTaskClassification \<Rightarrow> AgentTaskPlanSections \<Rightarrow> agent_error + (agents \<times> AgentTask)" where
  "admit_campaign_task e a t c p =
     bind_r (recordAgentTaskClassification a t c) (\<lambda>a.
       if cl_decision c \<noteq> ''requires_human'' then Inr (a, t) else recordGeneratedAgentPlanTx e a t p)"

definition new_row :: "agents \<Rightarrow> AgentTask \<Rightarrow> bool" where
  "new_row a t \<longleftrightarrow> tk_id t \<notin> tk_id ` set (ag_tasks a) \<and> 0 < tk_id t \<and> tk_id t < nxt a \<and> tk_state t = ''received'' \<and> 1 \<le> tk_max_attempts t"

section \<open>New plans for the failed tasks of a campaign\<close>

text \<open>The tasks on the branches of a campaign that need attention or failed, each the newest of its branch;
  the join gives a row for every target that covers the branch.\<close>

definition newest_of_branch :: "agents \<Rightarrow> AgentTask \<Rightarrow> bool" where
  "newest_of_branch a t \<longleftrightarrow>
     list_all (\<lambda>q. \<not> (tk_tenant q = tk_tenant t \<and> tk_branch q = tk_branch t)
       \<or> tk_created q < tk_created t \<or> (tk_created q = tk_created t \<and> tk_id q \<le> tk_id t)) (ag_tasks a)"

definition campaign_covers :: "agents \<Rightarrow> uuid \<Rightarrow> AgentTask \<Rightarrow> AgentCampaignTarget \<Rightarrow> bool" where
  "campaign_covers a campaign t ct \<longleftrightarrow> ct_campaign ct = campaign
     \<and> list_ex (\<lambda>root. ct_task ct = Some (tk_id root) \<and> tk_tenant root = tk_tenant t \<and> tk_branch root = tk_branch t) (ag_tasks a)"

definition retryable_tasks :: "agents \<Rightarrow> uuid \<Rightarrow> AgentTask list" where
  "retryable_tasks a campaign =
     sort_key tk_id (map fst (filter (\<lambda>(t, ct). campaign_covers a campaign t ct
         \<and> (tk_state t = ''needs_attention'' \<or> tk_state t = ''failed'') \<and> tk_source_state t = ''ready'' \<and> newest_of_branch a t)
       (List.product (ag_tasks a) (ag_targets a))))"

text \<open>The text of the last plan becomes a plan of the next revision, written by the person who asks for
  the retry and awaiting approval.\<close>

definition reissue_plan :: "agents \<Rightarrow> AgentTaskPlan \<Rightarrow> string \<Rightarrow> agent_error + (agents \<times> AgentTaskPlan)" where
  "reissue_plan a p actor =
     (if list_ex (\<lambda>q. pn_task q = pn_task p \<and> pn_revision q = pn_revision p + 1) (ag_plans a)
      then Inl (ErrAgentStatement ''insert agent task plan'')
      else let (i, a) = ag_fresh a;
               q = p\<lparr>pn_id := i, pn_revision := pn_revision p + 1, pn_state := ''awaiting_approval'', pn_created_by := actor, pn_approved_by := None\<rparr>
           in Inr (a\<lparr>ag_plans := ag_plans a @ [q]\<rparr>, q))"

definition retry_task_plan :: "agent_env \<Rightarrow> uuid \<Rightarrow> string \<Rightarrow> AgentTask \<Rightarrow> agents \<Rightarrow> agent_error + agents" where
  "retry_task_plan e campaign actor t a =
     bind_r (latestAgentTaskClassification a (tk_id t)) (\<lambda>c.
       if cl_decision c \<noteq> ''requires_human'' then Inr a
       else if checkAgentWorkflowBudgetTx a t = Inl ErrInvalidAgentTaskPlan then Inr a
       else bind_r (checkAgentWorkflowBudgetTx a t) (\<lambda>_.
         case latest_plan a (tk_id t) of None \<Rightarrow> Inr a
         | Some p \<Rightarrow>
           bind_r (scanAgentTaskPlan e p) (\<lambda>p.
           bind_r (requireAgentWorkflowCriteriaTx a t (pn_sections p)) (\<lambda>_.
           bind_r (reissue_plan a p actor) (\<lambda>(a, q).
           let a = set_task (supersede_plans a (tk_id t) (pn_id q)) (tk_id t) (moved ''awaiting_approval'') in
           bind_r (queueAgentTaskSourceProviderComment e a (moved ''awaiting_approval'' t) ''plan'') (\<lambda>a.
           Inr (ag_audit a (tk_tenant t) actor ''agent_campaign.retry_plan_prepared'' campaign
                  [(''task_id'', PUuid (tk_id t)), (''plan_revision'', PInt (pn_revision q)), (''requires_new_approval'', PBool True)])))))))"

fun retry_task_plans :: "agent_env \<Rightarrow> uuid \<Rightarrow> string \<Rightarrow> AgentTask list \<Rightarrow> agents \<Rightarrow> agent_error + agents" where
  "retry_task_plans e campaign actor [] a = Inr a"
| "retry_task_plans e campaign actor (t # ts) a =
     bind_r (retry_task_plan e campaign actor t a) (retry_task_plans e campaign actor ts)"

definition prepareCampaignRetryPlansTx :: "agent_env \<Rightarrow> agents \<Rightarrow> uuid \<Rightarrow> string \<Rightarrow> agent_error + agents" where
  "prepareCampaignRetryPlansTx e a campaign actor = retry_task_plans e campaign actor (retryable_tasks a campaign) a"

section \<open>They serve the lives of the tasks\<close>

lemma new_row_serves:
  assumes a: "ag_inv sha a" and t: "new_row a t"
  shows "serves sha a (a\<lparr>ag_tasks := ag_tasks a @ [t]\<rparr>)" "open_task (a\<lparr>ag_tasks := ag_tasks a @ [t]\<rparr>) t"
proof -
  show "serves sha a (a\<lparr>ag_tasks := ag_tasks a @ [t]\<rparr>)" using serves_admit [OF a] t by (simp add: new_row_def)
  have "row_by tk_id (tk_id t) (ag_tasks a) = None" using t by (simp add: new_row_def row_by_None_iff)
  then show "open_task (a\<lparr>ag_tasks := ag_tasks a @ [t]\<rparr>) t"
    using t by (simp add: new_row_def open_task_def row_by_append final_states_def)
qed

lemma admit_classified_serves:
  assumes a: "ag_inv sha a" and t: "open_task a t" and r: "admit_classified a t c = Inr (a', t')"
  shows "serves sha a a'"
proof -
  obtain b where b: "recordAgentTaskClassification a t c = Inr b"
    and e: "a' = (if cl_decision c = ''rejected'' then set_task b (tk_id t) (moved ''rejected'') else b)"
    using r unfolding admit_classified_def bind_r_Inr_iff by (cases "cl_decision c = ''rejected''") auto
  note k = serves_classification [OF a t b]
  have "serves sha b (set_task b (tk_id t) (moved ''rejected''))" by (rule serves_moved [OF serves_inv [OF k(1)] k(2)]) simp_all
  then show ?thesis using k(1) serves_trans [OF k(1)] by (simp add: e)
qed

lemma admit_campaign_serves:
  assumes a: "ag_inv (ae_sha e) a" and t: "open_task a t" and r: "admit_campaign_task e a t c p = Inr (a', t')"
  shows "serves (ae_sha e) a a'"
proof -
  obtain b where b: "recordAgentTaskClassification a t c = Inr b" and q: "a' = b \<or> recordGeneratedAgentPlanTx e b t p = Inr (a', t')"
    using r by (auto simp: admit_campaign_task_def bind_r_Inr_iff split: if_split_asm)
  note k = serves_classification [OF a t b]
  show ?thesis using q k(1) serves_trans [OF k(1) recordGenerated_serves [OF serves_inv [OF k(1)] k(2)]] by blast
qed

lemma reissue_serves:
  assumes a: "ag_inv sha a" and t: "open_task a t" and p: "p \<in> set (ag_plans a)" "pn_task p = tk_id t"
    and r: "reissue_plan a p actor = Inr (a', q)"
  shows "serves sha a a'" "open_task a' t" "ag_tasks a' = ag_tasks a"
proof -
  obtain i b where f: "ag_fresh a = (i, b)" by (cases "ag_fresh a")
  have b: "same a b" "i = nxt a" "nxt b = Suc (nxt a)" using same_fresh [OF f] by simp_all
  have n: "\<not> list_ex (\<lambda>q. pn_task q = pn_task p \<and> pn_revision q = pn_revision p + 1) (ag_plans a)"
    using r by (simp add: reissue_plan_def split: if_split_asm)
  let ?q = "p\<lparr>pn_id := i, pn_revision := pn_revision p + 1, pn_state := ''awaiting_approval'', pn_created_by := actor, pn_approved_by := None\<rparr>"
  have e: "a' = b\<lparr>ag_plans := ag_plans b @ [?q]\<rparr>" using r by (auto simp: reissue_plan_def f Let_def split: if_split_asm)
  have ib: "ag_inv sha b" using same_serves [OF b(1) a] by (rule serves_inv)
  have ob: "open_task b t" using b(1) t by (simp add: open_same)
  have pl: "ag_plans b = ag_plans a" and tk: "ag_tasks b = ag_tasks a" using b(1) by (simp_all add: same_def)
  let ?xs = "filter (\<lambda>p. pn_task p = tk_id t) (ag_plans b)"
  have "plans_ok sha (?xs @ [?q])" if ok: "plans_ok sha ?xs"
  proof -
    have "pn_revision ?q \<notin> pn_revision ` set ?xs" using n p(2) pl by (auto simp: list_ex_iff)
    moreover have "validateAgentTaskPlanIntegrity sha p" "1 \<le> pn_revision p" using ok p pl by (simp_all add: plans_ok_def)
    moreover have "validateAgentTaskPlanIntegrity sha ?q = validateAgentTaskPlanIntegrity sha p"
      by (simp add: validateAgentTaskPlanIntegrity_def Let_def)
    ultimately show ?thesis using ok by (simp add: plans_ok_def)
  qed
  then have k: "plans_kept sha ?xs (filter (\<lambda>p. pn_task p = tk_id t) (ag_plans b @ [?q]))"
    using p(2) by (simp add: plans_kept_def)
  have "serves sha b (b\<lparr>ag_plans := ag_plans b @ [?q]\<rparr>)"
    by (rule serves_plans [OF ib ob _ k]) (use ag_inv_ids [OF a] p b pl in \<open>auto simp: ids_ok_def\<close>)
  then show "serves sha a a'" unfolding e using same_serves [OF b(1) a] serves_trans by blast
  show "open_task a' t" "ag_tasks a' = ag_tasks a" using ob tk by (simp_all add: e open_task_def)
qed

lemma retry_task_plan_serves:
  assumes a: "ag_inv (ae_sha e) a" and o: "open_task a u" "tk_id u = tk_id t" and r: "retry_task_plan e campaign actor t a = Inr a'"
  shows "serves (ae_sha e) a a'" "ag_tasks a' = ag_tasks a \<or> ag_tasks a' = update_where (\<lambda>x. tk_id x = tk_id t) (moved ''awaiting_approval'') (ag_tasks a)"
proof -
  have "serves (ae_sha e) a a' \<and>
    (ag_tasks a' = ag_tasks a \<or> ag_tasks a' = update_where (\<lambda>x. tk_id x = tk_id t) (moved ''awaiting_approval'') (ag_tasks a))"
  proof (cases "a' = a")
    case True
    then show ?thesis using a by auto
  next
    case False
    obtain p b q c x1 x2 x3 x4 x5 where p: "latest_plan a (tk_id t) = Some p" and b: "reissue_plan a p actor = Inr (b, q)"
      and c: "queueAgentTaskSourceProviderComment e (set_task (supersede_plans b (tk_id t) (pn_id q)) (tk_id t) (moved ''awaiting_approval''))
               (moved ''awaiting_approval'' t) ''plan'' = Inr c"
      and e: "a' = ag_audit c x1 x2 x3 x4 x5"
      using r False unfolding retry_task_plan_def Let_def
      by (auto simp: bind_r_Inr_iff scanAgentTaskPlan_def split: if_split_asm option.split_asm prod.split_asm)
    have m: "p \<in> set (ag_plans a)" "pn_task p = tk_id u" using latest_plan_facts(1) [OF p] o(2) by auto
    note p1 = reissue_serves [OF a o(1) m b]
    note q1 = serves_supersede [OF serves_inv [OF p1(1)] p1(2), of "pn_id q"]
    have "serves (ae_sha e) (supersede_plans b (tk_id u) (pn_id q))
        (set_task (supersede_plans b (tk_id u) (pn_id q)) (tk_id u) (moved ''awaiting_approval''))"
      by (rule serves_moved [OF serves_inv [OF q1(1)] q1(2)]) simp_all
    then have "serves (ae_sha e) a (set_task (supersede_plans b (tk_id t) (pn_id q)) (tk_id t) (moved ''awaiting_approval''))"
      using serves_trans [OF p1(1) serves_trans [OF q1(1)]] o(2) by simp
    moreover have s: "same (set_task (supersede_plans b (tk_id t) (pn_id q)) (tk_id t) (moved ''awaiting_approval'')) a'"
      unfolding e by (rule same_trans [OF same_source_comment [OF c] same_audit])
    moreover have "ag_tasks a' = update_where (\<lambda>x. tk_id x = tk_id t) (moved ''awaiting_approval'') (ag_tasks a)"
      using s p1(3) by (simp add: same_def set_task_def supersede_plans_def set_plans_def)
    ultimately show ?thesis using serves_same_after by blast
  qed
  then show "serves (ae_sha e) a a'"
    "ag_tasks a' = ag_tasks a \<or> ag_tasks a' = update_where (\<lambda>x. tk_id x = tk_id t) (moved ''awaiting_approval'') (ag_tasks a)" by blast+
qed

lemma retry_task_plans_serves:
  assumes "ag_inv (ae_sha e) a" "\<And>t. t \<in> set ts \<Longrightarrow> \<exists>u. open_task a u \<and> tk_id u = tk_id t"
    and "retry_task_plans e campaign actor ts a = Inr a'"
  shows "serves (ae_sha e) a a'"
  using assms
proof (induction ts arbitrary: a)
  case Nil
  then show ?case by auto
next
  case (Cons t ts)
  obtain b where b: "retry_task_plan e campaign actor t a = Inr b" and r: "retry_task_plans e campaign actor ts b = Inr a'"
    using Cons.prems(3) by (auto simp: bind_r_Inr_iff)
  obtain u where u: "open_task a u" "tk_id u = tk_id t" using Cons.prems(2) by force
  note s = retry_task_plan_serves [OF Cons.prems(1) u b]
  have "\<exists>v. open_task b v \<and> tk_id v = tk_id x" if x: "x \<in> set ts" for x
  proof -
    obtain v where v: "open_task a v" "tk_id v = tk_id x" using Cons.prems(2) [of x] x by auto
    let ?v = "if ag_tasks b = ag_tasks a \<or> tk_id x \<noteq> tk_id t then v else moved ''awaiting_approval'' v"
    have "open_task b ?v \<and> tk_id ?v = tk_id x"
      using v s(2) by (auto simp: open_task_def row_by_set_task final_states_def)
    then show ?thesis by blast
  qed
  from Cons.IH [OF serves_inv [OF s(1)] this r] show ?case using serves_trans [OF s(1)] by blast
qed

lemma prepareCampaignRetryPlansTx_serves:
  assumes a: "ag_inv (ae_sha e) a" and r: "prepareCampaignRetryPlansTx e a campaign actor = Inr a'"
  shows "serves (ae_sha e) a a'"
proof (rule retry_task_plans_serves [OF a _ r [unfolded prepareCampaignRetryPlansTx_def]])
  fix t assume "t \<in> set (retryable_tasks a campaign)"
  then have t: "t \<in> set (ag_tasks a)" "tk_state t = ''needs_attention'' \<or> tk_state t = ''failed''" by (auto simp: retryable_tasks_def)
  have "row_by tk_id (tk_id t) (ag_tasks a) = Some t" using a t(1) by (intro row_by_eqI) (simp_all add: ag_inv_def ids_ok_def)
  then show "\<exists>u. open_task a u \<and> tk_id u = tk_id t" using t(2) by (auto simp: open_task_def final_states_def)
qed

end
