(* ===== verification/Agent_Properties.thy ===== *)
theory Agent_Properties
  imports Agent_Samples Agent_Campaigns
begin

text \<open>
  What holds of every remediation task in every state that the transactions of \<open>ag_step\<close> lead to. A step
  is one of the committed transactions of \<open>Agent_Tasks\<close>, \<open>Agent_Execution\<close> and \<open>Agent_Campaigns\<close>. These
  are all the statements of the store that write a task, a plan, an attempt, a classification or a
  checkpoint, but for the one that paces the dispatch of a campaign by a column of its own. Three kinds of transactions are larger in the code: the command on an issue, the comment on
  a draft and the actions of a campaign also decide who may ask, write receipts and comments, and may
  approve or cancel several tasks. Each is a sequence of steps here, the decisions left out and the other
  tables changed by \<open>elsewhere\<close>; so more may happen here than in the code, and the step of an admission
  takes any new row. The witnesses follow one task from its policy to its delivered draft.
\<close>

section \<open>Reachable states\<close>

inductive ag_step :: "(string \<Rightarrow> string) \<Rightarrow> agents \<Rightarrow> agents \<Rightarrow> bool" for sha where
  policy: "SaveAgentTaskPolicy a actor slug pu = Inr (a', p) \<Longrightarrow> ag_step sha a a'"
| create: "ae_sha e = sha \<Longrightarrow> CreateAgentTask e a actor slug ti = Inr (a', t) \<Longrightarrow> ag_step sha a a'"
| create_from_issue: "ae_sha e = sha \<Longrightarrow> CreateAgentTaskFromProviderIssue e a actor slug analysis v = Inr (a', t) \<Longrightarrow> ag_step sha a a'"
| capture: "ae_sha e = sha \<Longrightarrow> RecordAgentTaskSourceSnapshot e a taskID snapshot = Inr (a', t) \<Longrightarrow> ag_step sha a a'"
| capture_failed: "ae_sha e = sha \<Longrightarrow> FailAgentTaskSourceSnapshot e a taskID code message = Inr a' \<Longrightarrow> ag_step sha a a'"
| unacknowledged: "ae_sha e = sha \<Longrightarrow> ExpireUnacknowledgedAgentTasks e a limit older = Inr (a', n) \<Longrightarrow> ag_step sha a a'"
| retry_source: "RetryAgentTaskSource a actor slug taskID v = Inr (a', t) \<Longrightarrow> ag_step sha a a'"
| plan: "ae_sha e = sha \<Longrightarrow> CreateAgentTaskPlan e a actor slug taskID pin = Inr (a', p) \<Longrightarrow> ag_step sha a a'"
| approve: "ae_sha e = sha \<Longrightarrow> ApproveAgentTaskPlan e a actor slug taskID planID v = Inr (a', p) \<Longrightarrow> ag_step sha a a'"
| cancel: "CancelAgentTask a actor slug taskID v reason = Inr (a', t) \<Longrightarrow> ag_step sha a a'"
| preflight: "HoldAgentTaskExecutionForReadiness a worker r = Inr a' \<Longrightarrow> ag_step sha a a'"
| claim: "ae_sha e = sha \<Longrightarrow> ClaimAgentTaskAttempt e a worker r lease = Inr (a', res) \<Longrightarrow> ag_step sha a a'"
| renew: "ae_sha e = sha \<Longrightarrow> RenewAgentTaskAttemptLease e a attemptID worker lease = Inr a' \<Longrightarrow> ag_step sha a a'"
| attach: "ae_sha e = sha \<Longrightarrow> AttachAgentTaskAdapterJob e a attemptID worker job = Inr a' \<Longrightarrow> ag_step sha a a'"
| start: "ae_sha e = sha \<Longrightarrow> ClaimAgentTaskAdapterStart e a attemptID job = Inr a' \<Longrightarrow> ag_step sha a a'"
| attention: "ae_sha e = sha \<Longrightarrow> MarkAgentTaskAttemptNeedsAttention e a attemptID worker code message = Inr a' \<Longrightarrow> ag_step sha a a'"
| watchdog: "ae_sha e = sha \<Longrightarrow> ExpireAgentTaskAttempts e a limit = Inr (a', n) \<Longrightarrow> ag_step sha a a'"
| callback: "ae_sha e = sha \<Longrightarrow> RecordAgentTaskAdapterEvent e a event lease = Inr (a', res) \<Longrightarrow> ag_step sha a a'"
| claim_recovery: "ae_sha e = sha \<Longrightarrow> ClaimAgentPublicationRecovery e a worker = Inr (a', target) \<Longrightarrow> ag_step sha a a'"
| finish_recovery: "ae_sha e = sha \<Longrightarrow> FinishAgentPublicationRecovery e a worker taskID attemptID h d url reason = Inr a' \<Longrightarrow> ag_step sha a a'"
| admitted: "tk_id t \<notin> tk_id ` set (ag_tasks a) \<Longrightarrow> 0 < tk_id t \<Longrightarrow> tk_id t < nxt a \<Longrightarrow> tk_state t = ''received'' \<Longrightarrow> 1 \<le> tk_max_attempts t
    \<Longrightarrow> ag_step sha a (a\<lparr>ag_tasks := ag_tasks a @ [t]\<rparr>)"
| admitted_classified: "new_row a t \<Longrightarrow> admit_classified (a\<lparr>ag_tasks := ag_tasks a @ [t]\<rparr>) t c = Inr (a', t') \<Longrightarrow> ag_step sha a a'"
| admitted_campaign: "ae_sha e = sha \<Longrightarrow> new_row a t \<Longrightarrow> admit_campaign_task e (a\<lparr>ag_tasks := ag_tasks a @ [t]\<rparr>) t c s = Inr (a', t')
    \<Longrightarrow> ag_step sha a a'"
| approve_other: "ae_sha e = sha \<Longrightarrow> row_by tk_id (tk_id t) (ag_tasks a) = Some t
    \<Longrightarrow> approveAgentTaskPlanTx e a tenantID actor role t planID v = Inr (a', p) \<Longrightarrow> ag_step sha a a'"
| cancel_other: "row_by tk_id (tk_id t) (ag_tasks a) = Some t \<Longrightarrow> cancelAgentTaskTx a t actor reason = Inr (a', t') \<Longrightarrow> ag_step sha a a'"
| retry_campaign: "ae_sha e = sha \<Longrightarrow> prepareCampaignRetryPlansTx e a campaign actor = Inr a' \<Longrightarrow> ag_step sha a a'"
| elsewhere: "same a a' \<Longrightarrow> ag_step sha a a'"

definition ag_start :: "agents \<Rightarrow> bool" where
  "ag_start a \<longleftrightarrow> 0 < nxt a \<and> ag_tasks a = [] \<and> ag_plans a = [] \<and> ag_attempts a = [] \<and> ag_policies a = []"

inductive ag_reach :: "(string \<Rightarrow> string) \<Rightarrow> agents \<Rightarrow> bool" for sha where
  start: "ag_start a \<Longrightarrow> ag_reach sha a"
| step: "ag_reach sha a \<Longrightarrow> ag_step sha a a' \<Longrightarrow> ag_reach sha a'"

lemmas transaction_serves =
  SaveAgentTaskPolicy_serves createAgentTask_serves CreateAgentTaskFromProviderIssue_serves FailAgentTaskSourceSnapshot_serves
  ExpireUnacknowledgedAgentTasks_serves RetryAgentTaskSource_serves CancelAgentTask_serves HoldAgentTaskExecutionForReadiness_serves
  ClaimAgentTaskAttempt_serves RenewAgentTaskAttemptLease_serves AttachAgentTaskAdapterJob_serves ClaimAgentTaskAdapterStart_serves
  MarkAgentTaskAttemptNeedsAttention_serves ExpireAgentTaskAttempts_serves RecordAgentTaskAdapterEvent_serves
  ClaimAgentPublicationRecovery_serves FinishAgentPublicationRecovery_serves

lemma ag_step_serves:
  assumes a: "ag_inv sha a" and s: "ag_step sha a a'"
  shows "serves sha a a'"
  using s
proof cases
  case (create e actor slug ti t)
  then show ?thesis using createAgentTask_serves [OF a] by (simp add: CreateAgentTask_def)
next
  case (capture e taskID snapshot t)
  then show ?thesis using RecordAgentTaskSourceSnapshot_serves a by blast
next
  case (plan e actor slug taskID pin p)
  then show ?thesis using CreateAgentTaskPlan_serves a by blast
next
  case (approve e actor slug taskID planID v p)
  then show ?thesis using ApproveAgentTaskPlan_serves a by blast
next
  case (admitted t)
  then show ?thesis using serves_admit [OF a] by simp
next
  case (admitted_classified t c t')
  note n = new_row_serves [OF a admitted_classified(1)]
  show ?thesis using serves_trans [OF n(1) admit_classified_serves [OF serves_inv [OF n(1)] n(2) admitted_classified(2)]] .
next
  case (admitted_campaign e t c s t')
  have a: "ag_inv (ae_sha e) a" using a admitted_campaign(1) by simp
  note n = new_row_serves [OF a admitted_campaign(2)]
  show ?thesis
    using serves_trans [OF n(1) admit_campaign_serves [OF serves_inv [OF n(1)] n(2) admitted_campaign(3)]] admitted_campaign(1) by simp
next
  case (approve_other e t tenantID actor role planID v p)
  then show ?thesis using approve_tx_serves a by blast
next
  case (cancel_other t actor reason t')
  then show ?thesis using cancel_tx_serves a by blast
next
  case (retry_campaign e campaign actor)
  then show ?thesis using prepareCampaignRetryPlansTx_serves a by blast
next
  case elsewhere
  then show ?thesis using same_serves a by blast
qed (erule transaction_serves [OF a])+

lemma ag_start_inv: "ag_start a \<Longrightarrow> ag_inv sha a"
  by (simp add: ag_start_def ag_inv_def ids_ok_def policies_ok_def life_of_def life_ok_def)

lemma ag_reach_inv: "ag_reach sha a \<Longrightarrow> ag_inv sha a"
  by (induction rule: ag_reach.induct) (auto intro: ag_start_inv serves_inv ag_step_serves)

lemma ag_steps_serve: "(ag_step sha)\<^sup>*\<^sup>* a a' \<Longrightarrow> ag_inv sha a \<Longrightarrow> serves sha a a'"
proof (induction rule: rtranclp_induct)
  case base
  then show ?case by auto
next
  case (step b c)
  then show ?case using ag_step_serves serves_inv serves_trans by blast
qed

section \<open>Refinement\<close>

text \<open>C6. Every committed transaction is a run of the task machine: in a reachable state each
  transaction changes the row, plans, attempts and classifications of every task only by steps of the
  machine \<open>life_step\<close> (prepare, lease, reclaim, hold, finish, recover), and all lives satisfy the
  machine's invariant afterwards. A task is leased only from an approved plan, one lease runs at a time,
  and execution ends together with its attempt.\<close>

theorem transactions_are_life_steps:
  assumes "ag_reach sha a" "ag_step sha a a'"
  shows "(life_step sha (ag_checkpoints a'))\<^sup>*\<^sup>* (life_of a i) (life_of a' i) \<and> life_ok sha (ag_checkpoints a') (life_of a' i)"
  using ag_step_serves [OF ag_reach_inv [OF assms(1)] assms(2)] by (simp add: serves_def follows_def ag_inv_def)

section \<open>Running attempts\<close>

text \<open>C7. Nothing runs without approval: in every reachable state a running attempt belongs to an executing
  task whose source is captured and whose latest classification requires a human decision; its plan is the
  latest plan of the task, approved by someone, and still has the digest of its text; the task and plan
  revisions are the ones the approval was given for; and no other attempt of the task runs.\<close>

theorem running_attempt_was_approved:
  assumes "ag_reach sha a" "m \<in> set (ag_attempts a)" "am_state m = ''running''"
  shows "\<exists>t \<in> set (ag_tasks a). \<exists>p \<in> set (ag_plans a). \<exists>c \<in> set (ag_classes a).
    tk_id t = am_task m \<and> tk_state t = ''executing'' \<and> tk_revision t = am_task_revision m + 1
    \<and> tk_source_state t = ''ready'' \<and> base_pair_valid (tk_base_ref t) (tk_base_sha t)
    \<and> latestAgentTaskClassification a (tk_id t) = Inr c \<and> cl_decision c = ''requires_human''
    \<and> pn_id p = am_plan m \<and> pn_task p = tk_id t \<and> pn_revision p = am_plan_revision m \<and> pn_state p = ''approved'' \<and> pn_approved_by p \<noteq> None
    \<and> pn_sha p = sha (pn_summary p)
    \<and> (\<forall>q \<in> set (ag_plans a). pn_task q = tk_id t \<longrightarrow> pn_revision q \<le> pn_revision p)
    \<and> (\<forall>n \<in> set (ag_attempts a). am_task n = tk_id t \<and> am_state n = ''running'' \<longrightarrow> n = m)"
proof -
  have a: "ag_inv sha a" using ag_reach_inv [OF assms(1)] .
  have r: "running m" using assms(3) by (simp add: running_def)
  obtain t where t: "row_by tk_id (am_task m) (ag_tasks a) = Some t" "tk_id t = am_task m" "t \<in> set (ag_tasks a)"
    using attempt_task [OF a assms(2)] .
  let ?ps = "filter (\<lambda>p. pn_task p = am_task m) (ag_plans a)" and ?cs = "filter (\<lambda>c. cl_task c = am_task m) (ag_classes a)"
  have c: "cleared t ?ps ?cs m" using running_cleared(1) [OF a assms(2) r t(1)] .
  then obtain p where p: "approved_latest ?ps m p" by (auto simp: cleared_def)
  have cs: "?cs \<noteq> []" "cl_decision (last ?cs) = ''requires_human''" using c by (simp_all add: cleared_def)
  then have l: "last ?cs \<in> set (ag_classes a)" "latestAgentTaskClassification a (tk_id t) = Inr (last ?cs)"
    using last_in_set [OF cs(1)] by (auto simp: latestAgentTaskClassification_def t(2) split: list.split)
  have pm: "p \<in> set ?ps" "pn_id p = am_plan m" "pn_revision p = am_plan_revision m" "pn_state p = ''approved''" "pn_approved_by p \<noteq> None"
    "\<And>q. q \<in> set ?ps \<Longrightarrow> pn_revision q \<le> pn_revision p" using p unfolding approved_latest_def by blast+
  have "validateAgentTaskPlanIntegrity sha p" using life_plans_ok [OF ag_inv_life [OF a, of "am_task m"]] pm(1) by (simp add: plans_ok_def life_of_def)
  then have d: "pn_sha p = sha (pn_summary p)" by (auto simp: validateAgentTaskPlanIntegrity_def Let_def split: if_split_asm)
  have u: "n = m" if "n \<in> set (ag_attempts a)" "am_task n = tk_id t" "am_state n = ''running''" for n
    using one_running_row [OF a that(1) assms(2) _ r] that t(2) by (simp add: running_def)
  show ?thesis
    by (rule bexI [OF _ t(3)], rule bexI [where x = p], rule bexI [OF _ l(1)])
      (use c cs l(2) pm d u t(2) in \<open>auto simp: cleared_def\<close>)
qed

section \<open>Along a run\<close>

lemma final_lives:
  assumes "(life_step sha K)\<^sup>*\<^sup>* l l'" "life_ok sha K l" "lf_task l = Some t" "tk_state t \<in> set final_states"
  shows "l' = l"
  using assms(1)
proof (induction rule: rtranclp_induct)
  case (step l1 l2)
  then show ?case using final_life [OF _ assms(2-4)] by blast
qed simp

lemma started_lives:
  assumes "(life_step sha K)\<^sup>*\<^sup>* l l'" "life_ok sha K l" "m \<in> set (lf_attempts l)" "am_started m \<noteq> None"
  shows "\<exists>n \<in> set (lf_attempts l'). am_id n = am_id m \<and> am_attempt n = am_attempt m \<and> am_job n = am_job m \<and> am_started n = am_started m"
  using assms(1)
proof (induction rule: rtranclp_induct)
  case base
  then show ?case using assms(3) by blast
next
  case (step l1 l2)
  then obtain n where n: "n \<in> set (lf_attempts l1)" "am_id n = am_id m" "am_attempt n = am_attempt m" "am_job n = am_job m" "am_started n = am_started m"
    by blast
  have "life_ok sha K l1" using life_steps_keep [OF step(1) assms(2)] .
  then show ?case using started_stays [OF step(2) _ n(1)] n assms(4) by metis
qed

lemma succeeded_lives:
  assumes "(life_step sha K)\<^sup>*\<^sup>* l l'" "life_ok sha K l" "m \<in> set (lf_attempts l)" "am_state m = ''succeeded''"
  shows "m \<in> set (lf_attempts l')"
  using assms(1)
proof (induction rule: rtranclp_induct)
  case base
  then show ?case using assms(3) by blast
next
  case (step l1 l2)
  then show ?case using succeeded_stays [OF step(2) life_steps_keep [OF step(1) assms(2)]] assms(4) by blast
qed

lemma plans_lives:
  assumes "(life_step sha K)\<^sup>*\<^sup>* l l'" "lf_task l = Some t" "p \<in> set (lf_plans l)"
  shows "\<exists>q \<in> set (lf_plans l'). plan_content q = plan_content p"
proof -
  have "lf_task l' \<noteq> None \<and> plan_content p \<in> plan_content ` set (lf_plans l')"
    using assms(1)
  proof (induction rule: rtranclp_induct)
    case base
    then show ?case using assms(2,3) by simp
  next
    case (step l1 l2)
    then have "plan_content p \<in> set (take (length (lf_plans l1)) (map plan_content (lf_plans l2)))" using plans_frozen [OF step(2)] by simp
    then have "plan_content p \<in> plan_content ` set (lf_plans l2)" using in_set_takeD by fastforce
    then show ?case using task_stays [OF step(2)] step(3) by auto
  qed
  then show ?thesis by (auto simp: image_iff)
qed

lemma run_lives:
  assumes "ag_reach sha a" "(ag_step sha)\<^sup>*\<^sup>* a b"
  shows "(life_step sha (ag_checkpoints b))\<^sup>*\<^sup>* (life_of a i) (life_of b i)" "life_ok sha (ag_checkpoints b) (life_of a i)"
proof -
  have s: "serves sha a b" using ag_steps_serve [OF assms(2) ag_reach_inv [OF assms(1)]] .
  then show "(life_step sha (ag_checkpoints b))\<^sup>*\<^sup>* (life_of a i) (life_of b i)" by (simp add: serves_def follows_def)
  have "set (ag_checkpoints a) \<subseteq> set (ag_checkpoints b)" using s by (simp add: serves_def follows_def)
  then show "life_ok sha (ag_checkpoints b) (life_of a i)" using life_ok_mono ag_inv_life [OF ag_reach_inv [OF assms(1)]] by blast
qed

lemma task_row: "ag_reach sha a \<Longrightarrow> t \<in> set (ag_tasks a) \<Longrightarrow> row_by tk_id (tk_id t) (ag_tasks a) = Some t"
  using ag_reach_inv by (intro row_by_eqI) (auto simp: ag_inv_def ids_ok_def)

text \<open>C9. A finished task stays finished: once a task is cancelled, rejected, superseded or completed, no
  later sequence of transactions changes its row, its plans, its attempts or its classifications. A late
  callback, a redelivered execution request and the watchdog all leave it alone.\<close>

theorem final_task_stays:
  assumes "ag_reach sha a" "(ag_step sha)\<^sup>*\<^sup>* a b" "t \<in> set (ag_tasks a)"
    and "tk_state t \<in> {''cancelled'', ''rejected'', ''superseded'', ''completed''}"
  shows "t \<in> set (ag_tasks b)
    \<and> filter (\<lambda>p. pn_task p = tk_id t) (ag_plans b) = filter (\<lambda>p. pn_task p = tk_id t) (ag_plans a)
    \<and> filter (\<lambda>m. am_task m = tk_id t) (ag_attempts b) = filter (\<lambda>m. am_task m = tk_id t) (ag_attempts a)
    \<and> filter (\<lambda>c. cl_task c = tk_id t) (ag_classes b) = filter (\<lambda>c. cl_task c = tk_id t) (ag_classes a)"
proof -
  have r: "row_by tk_id (tk_id t) (ag_tasks a) = Some t" using task_row [OF assms(1,3)] .
  have f: "tk_state t \<in> set final_states" using assms(4) by (auto simp: final_states_def)
  have "life_of b (tk_id t) = life_of a (tk_id t)" using final_lives [OF run_lives [OF assms(1,2), of "tk_id t"] _ f] r by simp
  then show ?thesis using r row_by_SomeD [of tk_id "tk_id t" "ag_tasks b" t] by (simp add: life_of_def)
qed

text \<open>C10. The start gate opens once: after the adapter has taken the start gate of an attempt, no later
  request takes it again, whatever happens in between and whichever job asks. One lease leads to at most
  one coding run.\<close>

theorem start_gate_opens_once:
  assumes "ag_reach (ae_sha e) a" "ClaimAgentTaskAdapterStart e a attemptID job = Inr a'" "(ag_step (ae_sha e))\<^sup>*\<^sup>* a' b"
  shows "ClaimAgentTaskAdapterStart e' b attemptID job' \<noteq> Inr b'"
proof
  assume again: "ClaimAgentTaskAdapterStart e' b attemptID job' = Inr b'"
  have ra: "ag_reach (ae_sha e) a'" using ag_reach.step [OF assms(1) ag_step.start [OF refl assms(2)]] .
  let ?p = "startable e attemptID (TrimSpace job)"
  obtain m0 where m0: "find ?p (ag_attempts a) = Some m0" and e: "same (set_attempts a ?p (am_started_update (\<lambda>_. Some (ae_now e)))) a'"
    using assms(2) by (auto simp: ClaimAgentTaskAdapterStart_def Let_def split: if_split_asm option.split_asm)
  define m where "m = am_started_update (\<lambda>_. Some (ae_now e)) m0"
  have "m0 \<in> set (ag_attempts a)" "?p m0" using find_SomeD [OF m0] by simp_all
  then have m: "m \<in> set (ag_attempts a')" "am_id m = attemptID" "am_started m \<noteq> None"
    using e by (auto simp: m_def same_def set_update_where startable_def)
  have "m \<in> set (lf_attempts (life_of a' (am_task m)))" using m(1) by (simp add: attempt_life)
  then obtain n where n: "n \<in> set (ag_attempts b)" "am_id n = attemptID" "am_started n \<noteq> None"
    using started_lives [OF run_lives [OF ra assms(3)] _ m(3)] m(2,3) by (metis attempt_life)
  obtain q where "find (startable e' attemptID (TrimSpace job')) (ag_attempts b) = Some q"
    using again by (auto simp: ClaimAgentTaskAdapterStart_def Let_def split: if_split_asm option.split_asm)
  then have q: "q \<in> set (ag_attempts b)" "am_id q = attemptID" "am_started q = None" using find_SomeD by (auto simp: startable_def dest: find_SomeD)
  have "ag_inv (ae_sha e) b" using serves_inv [OF ag_steps_serve [OF assms(3) ag_reach_inv [OF ra]]] .
  then have "n = q" using same_id n q by metis
  then show False using n(3) q(3) by simp
qed

text \<open>C16. What was approved is what is kept: the text, sections, digest, author, revision and task of a plan
  never change in any later state, and no plan is removed; only its state and its approval are written.\<close>

theorem plan_text_is_final:
  assumes "ag_reach sha a" "(ag_step sha)\<^sup>*\<^sup>* a b" "p \<in> set (ag_plans a)"
  shows "\<exists>q \<in> set (ag_plans b). pn_id q = pn_id p \<and> pn_task q = pn_task p \<and> pn_revision q = pn_revision p \<and> pn_summary q = pn_summary p
    \<and> pn_sections q = pn_sections p \<and> pn_sha q = pn_sha p \<and> pn_created_by q = pn_created_by p \<and> pn_sha q = sha (pn_summary q)"
proof -
  have l: "p \<in> set (lf_plans (life_of a (pn_task p)))" using assms(3) by (simp add: life_of_def)
  then obtain t where t: "lf_task (life_of a (pn_task p)) = Some t"
    using ag_inv_life [OF ag_reach_inv [OF assms(1)], of "pn_task p"] by (cases "lf_task (life_of a (pn_task p))") (auto simp: life_ok_def)
  obtain q where q: "q \<in> set (lf_plans (life_of b (pn_task p)))" "plan_content q = plan_content p"
    using plans_lives [OF run_lives(1) [OF assms(1,2)] t l] by blast
  have b: "ag_inv sha b" using serves_inv [OF ag_steps_serve [OF assms(2) ag_reach_inv [OF assms(1)]]] .
  have "validateAgentTaskPlanIntegrity sha q" using life_plans_ok [OF ag_inv_life [OF b]] q(1) unfolding plans_ok_def by blast
  then have "pn_sha q = sha (pn_summary q)" by (auto simp: validateAgentTaskPlanIntegrity_def Let_def split: if_split_asm)
  moreover have "q \<in> set (ag_plans b)" using q(1) by (simp add: life_of_def)
  ultimately show ?thesis using content_fields [OF q(2)] by metis
qed

section \<open>Bounds and evidence\<close>

text \<open>C17. Execution is bounded: an attempt counts from one to the maximum its task froze at admission, an
  attempt that started a coding run has a job, and the attempts of a task with a workflow budget never add
  up to more than the frozen budget.\<close>

theorem attempts_within_budget:
  assumes "ag_reach sha a" "t \<in> set (ag_tasks a)"
  shows "(\<forall>m \<in> set (ag_attempts a). am_task m = tk_id t \<longrightarrow>
      1 \<le> am_attempt m \<and> am_attempt m \<le> tk_max_attempts t \<and> (am_started m \<noteq> None \<longrightarrow> am_job m \<noteq> None))
    \<and> (wp_enabled (tk_workflow t) \<longrightarrow>
        sum_list (map am_attempt (filter (\<lambda>m. am_task m = tk_id t) (ag_attempts a))) \<le> max 0 (wp_attempts (tk_workflow t)))"
proof -
  have "attempts_ok t (lf_attempts (life_of a (tk_id t)))"
    using ag_inv_life [OF ag_reach_inv [OF assms(1)], of "tk_id t"] task_row [OF assms] by (simp add: life_ok_def)
  then show ?thesis by (auto simp: attempts_ok_def used_def life_of_def)
qed

text \<open>C8. Success has evidence: a succeeded attempt delivered the branch of its task. When it carries a
  verification profile, or its task demands evidence for its criteria, a publication checkpoint of the same
  attempt has the same head, patch and verification digests, and shows every criterion of the plan as
  passed if the task demands it. Without a profile and without the demand the code accepts a completed
  callback with no checkpoint, and nothing more is claimed. No later transaction changes a succeeded
  attempt.\<close>

theorem success_has_evidence:
  assumes "ag_reach sha a" "(ag_step sha)\<^sup>*\<^sup>* a b" "m \<in> set (ag_attempts a)" "am_state m = ''succeeded''"
  shows "m \<in> set (ag_attempts b) \<and> (\<exists>t \<in> set (ag_tasks a). tk_id t = am_task m \<and> am_branch m = tk_branch t
    \<and> (am_profile m \<noteq> '''' \<or> wp_evidence (tk_workflow t) \<longrightarrow>
        (\<exists>k \<in> set (ag_checkpoints a). ck_attempt k = am_id m \<and> ck_number k = am_attempt m \<and> ck_branch k = am_branch m \<and> ck_head k = am_head m
           \<and> ck_patch k = am_patch m \<and> ck_profile k = am_profile m \<and> ck_output k = am_output m
           \<and> (wp_evidence (tk_workflow t) \<longrightarrow>
                (\<exists>p \<in> set (ag_plans a). pn_id p = am_plan m \<and> CriteriaVerified (se_criteria (pn_sections p)) (ck_criteria k))))))"
proof -
  have a: "ag_inv sha a" using ag_reach_inv [OF assms(1)] .
  obtain t where t: "row_by tk_id (am_task m) (ag_tasks a) = Some t" "tk_id t = am_task m" "t \<in> set (ag_tasks a)"
    using attempt_task [OF a assms(3)] .
  have ml: "m \<in> set (lf_attempts (life_of a (am_task m)))" using assms(3) by (simp add: attempt_life)
  have "evidenced (ag_checkpoints a) t (filter (\<lambda>p. pn_task p = am_task m) (ag_plans a)) m"
    using ag_inv_life [OF a, of "am_task m"] t(1) ml assms(4) by (simp add: life_ok_def life_of_def)
  then have "am_branch m = tk_branch t
    \<and> (am_profile m \<noteq> '''' \<or> wp_evidence (tk_workflow t) \<longrightarrow>
        (\<exists>k \<in> set (ag_checkpoints a). ck_attempt k = am_id m \<and> ck_number k = am_attempt m \<and> ck_branch k = am_branch m \<and> ck_head k = am_head m
           \<and> ck_patch k = am_patch m \<and> ck_profile k = am_profile m \<and> ck_output k = am_output m
           \<and> (wp_evidence (tk_workflow t) \<longrightarrow>
                (\<exists>p \<in> set (ag_plans a). pn_id p = am_plan m \<and> CriteriaVerified (se_criteria (pn_sections p)) (ck_criteria k)))))"
    unfolding evidenced_def by fastforce
  moreover have "m \<in> set (ag_attempts b)"
    using succeeded_lives [OF run_lives [OF assms(1,2)] ml assms(4)] by (simp add: attempt_life)
  ultimately show ?thesis using t(2,3) by blast
qed

section \<open>Approval and callbacks\<close>

text \<open>C18. Approval is a second person's: an approval succeeds only for an active owner or administrator of the
  workspace, for the latest plan of a task that awaits it and whose classification requires a human; the
  approver is not the author of the plan unless the approval policy of the workspace permits it; the plan
  is recorded as approved by that person.\<close>

theorem approval_is_separated:
  assumes "ApproveAgentTaskPlan e a actor slug taskID planID revision = Inr (a', p)"
  shows "(\<exists>u \<in> set (db_members (gv_db (ag_gov a))). mem_subject u = actor \<and> mem_slug u = slug \<and> mem_active u
      \<and> (mem_role u = ''owner'' \<or> mem_role u = ''admin'')
      \<and> (pn_created_by p = actor \<longrightarrow> ap_agent (workspaceApprovalPolicyTx (ag_gov a) (mem_tenant u))))
    \<and> (\<exists>t \<in> set (ag_tasks a). tk_id t = taskID \<and> tk_state t = ''awaiting_approval'')
    \<and> pn_id p = planID \<and> pn_task p = taskID \<and> pn_revision p = revision \<and> revision = max_plan_revision a taskID
    \<and> pn_state p = ''approved'' \<and> pn_approved_by p = Some actor
    \<and> (\<exists>c. latestAgentTaskClassification a taskID = Inr c \<and> cl_decision c = ''requires_human'')"
proof -
  obtain tenantID role t where u: "agent_member a actor slug owner_or_admin = Inr (tenantID, role)" and t: "tenant_task a tenantID taskID = Inr t"
    and q: "approveAgentTaskPlanTx e a tenantID actor role t planID revision = Inr (a', p)"
    using assms by (auto simp: ApproveAgentTaskPlan_def bind_r_Inr_iff split: if_split_asm)
  obtain p0 c where s: "tk_state t = ''awaiting_approval''"
    and c: "latestAgentTaskClassification a (tk_id t) = Inr c" "cl_decision c = ''requires_human''"
    and p0: "find (\<lambda>p. pn_id p = planID \<and> pn_task p = tk_id t \<and> pn_revision p = revision \<and> pn_state p = ''awaiting_approval'') (ag_plans a) = Some p0"
    and w: "\<not> (pn_created_by p0 = actor \<and> \<not> ap_agent (workspaceApprovalPolicyTx (ag_gov a) tenantID))"
    and r: "pn_revision p0 = max_plan_revision a (tk_id t)"
    and g: "grant_plan e a tenantID actor t p0 (workspaceApprovalPolicyTx (ag_gov a) tenantID) = Inr (a', p)"
    using q unfolding approveAgentTaskPlanTx_def Let_def
    by (clarsimp simp only: bind_r_Inr_iff split: if_split_asm option.split_asm) auto
  have p: "p = p0\<lparr>pn_state := ''approved'', pn_approved_by := Some actor\<rparr>"
    using g unfolding grant_plan_def Let_def bind_r_Inr_iff by blast
  have p0f: "pn_id p0 = planID" "pn_task p0 = tk_id t" "pn_revision p0 = revision" using find_SomeD [OF p0] by simp_all
  have tf: "t \<in> set (ag_tasks a)" "tk_id t = taskID" using t by (auto simp: tenant_task_def split: option.split_asm dest!: find_SomeD)
  obtain x where "x \<in> set (db_members (gv_db (ag_gov a)))" "mem_slug x = slug" "mem_subject x = actor" "mem_active x"
    "mem_tenant x = tenantID" "owner_or_admin (mem_role x)"
    using u by (auto simp: agent_member_def authorizedTenantTx_def split: option.split_asm if_split_asm dest!: find_SomeD)
  then show ?thesis using s c w r p p0f tf by (auto simp: owner_or_admin_def)
qed

text \<open>C19. A callback needs the live lease: a callback that changes anything comes for a running, started
  attempt whose job it names, before its lease and its deadline ended by the clock of the service; a
  repeated delivery returns the recorded attempt and changes nothing.\<close>

theorem callback_needs_live_lease:
  assumes "RecordAgentTaskAdapterEvent e a event lease = Inr (a', m, repeated)"
  shows "if repeated then a' = a
    else \<exists>n \<in> set (ag_attempts a). am_id n = ad_attempt event \<and> am_state n = ''running'' \<and> am_started n \<noteq> None
      \<and> am_job n = Some (TrimSpace (ad_job event)) \<and> (\<exists>l. am_locked n = Some l \<and> ae_clock e \<le> l)
      \<and> (\<forall>d. am_deadline n = Some d \<longrightarrow> ae_clock e \<le> d)"
proof -
  let ?v = "trimmed_event event"
  have at: "ad_attempt ?v = ad_attempt event" "ad_job ?v = TrimSpace (ad_job event)" by (simp_all add: trimmed_event_def)
  have "AgentTaskAdapterEvent_Valid ?v" using assms by (simp add: RecordAgentTaskAdapterEvent_def Let_def split: if_split_asm)
  then have j: "ad_job ?v \<noteq> ''''" unfolding AgentTaskAdapterEvent_Valid_def by (auto split: if_split_asm simp: TrimSpace_idem)
  show ?thesis
  proof (cases "map_of (ag_receipts a) (ad_attempt ?v, ad_delivery ?v)")
    case (Some x)
    then show ?thesis using assms by (auto simp: RecordAgentTaskAdapterEvent_def repeated_callback_def Let_def split: if_split_asm option.split_asm)
  next
    case None
    obtain n b where n: "row_by am_id (ad_attempt ?v) (ag_attempts a) = Some n" "am_started n \<noteq> None" "callback_lease e ?v n"
      and f: "(if ad_kind ?v = ''heartbeat'' then renew_by_callback e b n lease
          else bind_r (if ad_kind ?v = ''publication_checkpoint'' \<or> ad_kind ?v = ''completed'' then criteria_satisfied b n ?v else Inr ()) (\<lambda>_.
            if ad_kind ?v = ''publication_checkpoint'' then publication_checkpoint e b n ?v lease
            else terminal_callback e b n ?v)) = Inr (a', m, repeated)"
      using assms None unfolding RecordAgentTaskAdapterEvent_def Let_def
      by (simp only: option.case split: if_split_asm option.split_asm) auto
    have "\<not> repeated" using f
      by (auto simp: renew_by_callback_def publication_checkpoint_def terminal_callback_def conclude_attempt_def Let_def bind_r_Inr_iff
          split: if_split_asm option.split_asm)
    moreover have "am_state n = ''running'' \<and> am_job n = Some (TrimSpace (ad_job event)) \<and> (\<exists>l. am_locked n = Some l \<and> ae_clock e \<le> l)
        \<and> (\<forall>d. am_deadline n = Some d \<longrightarrow> ae_clock e \<le> d)"
      using n(3) j at(2) by (auto simp: callback_lease_def split: option.split_asm)
    ultimately show ?thesis using row_by_SomeD [OF n(1)] n(2) at(1) by auto
  qed
qed

text \<open>The decision model can only narrow: the text of a task reaches a human-approved plan only if the
  fixed rules found no injection pattern in it and enough context; whatever a model answers, its signal
  never turns a rejection or a request for context into a task that may be planned.\<close>

theorem model_signal_only_narrows:
  assumes "ApplySignal (Classify sha t title body labels) signal backend = Some c"
  shows "cl_decision c \<in> {''rejected'', ''needs_context'', ''requires_human''}
    \<and> (cl_decision c = ''requires_human'' \<longrightarrow>
        cl_decision (Classify sha t title body labels) = ''requires_human'' \<and> TrimSpace title \<noteq> '''' \<and> 80 \<le> length (TrimSpace body)
        \<and> \<not> containsAny (ToLower (TrimSpace title @ nl @ TrimSpace body @ nl @ Join_with nl labels)) injection_words)"
proof -
  let ?c = "Classify sha t title body labels"
  have d: "cl_decision ?c \<in> {''rejected'', ''needs_context'', ''requires_human''}" by (rule Classify_decision)
  have n: "cl_decision c = cl_decision ?c \<or> cl_decision c = ''rejected'' \<or> cl_decision c = ''needs_context''"
    "cl_decision ?c \<noteq> ''requires_human'' \<Longrightarrow> c = ?c" using ApplySignal_narrows [OF assms] by blast+
  have h: "cl_decision ?c = ''requires_human''" if "cl_decision c = ''requires_human''" using n that by auto
  show ?thesis using d n(1) h Classify_requires_human [of sha t title body labels] by auto
qed

section \<open>The watchdog\<close>

text \<open>C20. An unattached attempt blocks the watchdog: while the expired attempts that one batch takes contain
  one without a job, which a worker leaves behind that stops between leasing an attempt and attaching its
  job, the watchdog returns an error and expires nothing, however many other attempts have lost their lease
  in the same batch.\<close>

theorem unattached_attempt_blocks_watchdog:
  assumes "1 \<le> limit" "limit \<le> 100" "m \<in> set (expired_attempts e a limit)" "am_job m = None"
  shows "ExpireAgentTaskAttempts e a limit = Inl (ErrAgentStatement ''scan expired agent task attempt'')"
proof -
  have "scan_expired ms = Inl (ErrAgentStatement ''scan expired agent task attempt'')" if "m \<in> set ms" for ms
    using that assms(4) by (induction ms) (auto split: option.split)
  then show ?thesis using assms(1-3) by (simp add: ExpireAgentTaskAttempts_def)
qed

section \<open>The properties at one task\<close>

lemma reach_steps: "(ag_step sha)\<^sup>*\<^sup>* a b \<Longrightarrow> ag_reach sha a \<Longrightarrow> ag_reach sha b"
  by (induction rule: rtranclp_induct) (auto intro: ag_reach.step)

lemma crew_run:
  "ag_step crew_sha crew0 crew1" "ag_step crew_sha crew1 (crew3 crew_class)"
  "ag_step crew_sha (crew3 c) (crew4 c)" "ag_step crew_sha (crew4 c) (crew5 c)"
  "ag_step crew_sha (crew5 c) (crew6 c)" "ag_step crew_sha (crew6 c) (crew7 c)" "ag_step crew_sha (crew7 c) (crew8 c)"
  "ag_step crew_sha (crew8 c) (crew9 c)"
proof -
  show "ag_step crew_sha crew0 crew1"
    unfolding crew1_def by (rule ag_step.admitted) (simp_all add: crew0_def crew_task_def nxt_def crew_gov_def crew_db_def)
  show "ag_step crew_sha crew1 (crew3 crew_class)" by (rule ag_step.capture [OF crew_env_sha crew_captures])
  show "ag_step crew_sha (crew3 c) (crew4 c)" by (rule ag_step.approve [OF crew_env_sha crew_approves])
  show "ag_step crew_sha (crew4 c) (crew5 c)" by (rule ag_step.claim [OF crew_env_sha crew_claims])
  show "ag_step crew_sha (crew5 c) (crew6 c)" by (rule ag_step.attach [OF crew_env_sha crew_attaches])
  show "ag_step crew_sha (crew6 c) (crew7 c)" by (rule ag_step.start [OF crew_env_sha crew_starts])
  show "ag_step crew_sha (crew7 c) (crew8 c)" by (rule ag_step.callback [OF crew_env_sha crew_checks])
  show "ag_step crew_sha (crew8 c) (crew9 c)" by (rule ag_step.callback [OF crew_env_sha crew_finishes])
qed

lemma crew_later: "(ag_step crew_sha)\<^sup>*\<^sup>* (crew3 c) (crew9 c)" "(ag_step crew_sha)\<^sup>*\<^sup>* (crew7 c) (crew9 c)"
  using crew_run(3-8) [of c] by (meson converse_rtranclp_into_rtranclp rtranclp.rtrancl_refl)+

lemma crew_reach:
  "ag_reach crew_sha (crew3 crew_class)" "ag_reach crew_sha (crew4 crew_class)" "ag_reach crew_sha (crew5 crew_class)"
  "ag_reach crew_sha (crew6 crew_class)" "ag_reach crew_sha (crew9 crew_class)"
proof -
  have "ag_reach crew_sha crew0" by (rule ag_reach.start) (simp add: ag_start_def crew0_def nxt_def crew_gov_def crew_db_def)
  then show r: "ag_reach crew_sha (crew3 crew_class)" using crew_run(1,2) by (blast intro: ag_reach.step)
  then show "ag_reach crew_sha (crew4 crew_class)" "ag_reach crew_sha (crew5 crew_class)" "ag_reach crew_sha (crew6 crew_class)"
    using crew_run(3-5) by (blast intro: ag_reach.step)+
  show "ag_reach crew_sha (crew9 crew_class)" using reach_steps [OF crew_later(1) r] .
qed

lemma map_single: "map f xs = [y] \<Longrightarrow> \<exists>x. xs = [x] \<and> f x = y"
  by (cases xs) auto

theorem transactions_are_life_steps_witness:
  "ag_step crew_sha (crew4 crew_class) (crew5 crew_class)
   \<and> (life_step crew_sha (ag_checkpoints (crew5 crew_class)))\<^sup>*\<^sup>* (life_of (crew4 crew_class) 1) (life_of (crew5 crew_class) 1)"
  using transactions_are_life_steps [OF crew_reach(2) crew_run(4), of 1] crew_run(4) by blast

theorem running_attempt_was_approved_witness:
  "\<exists>t \<in> set (ag_tasks (crew5 crew_class)). \<exists>p \<in> set (ag_plans (crew5 crew_class)).
     tk_state t = ''executing'' \<and> pn_task p = tk_id t \<and> pn_state p = ''approved'' \<and> pn_sha p = crew_sha (pn_summary p)"
proof -
  obtain m where "ag_attempts (crew5 crew_class) = [m]" "am_state m = ''running''" using map_single [OF crew_attempts5] by auto
  then show ?thesis using running_attempt_was_approved [OF crew_reach(3), of m] by auto
qed

theorem final_task_stays_witness:
  "\<exists>t \<in> set (ag_tasks (crew9 crew_class)). tk_state t = ''completed'' \<and> t \<in> set (ag_tasks (crew9 crew_class))"
proof -
  obtain t where t: "ag_tasks (crew9 crew_class) = [t]" "tk_state t = ''completed''" using map_single [OF crew_tasks9] by auto
  then show ?thesis using final_task_stays [OF crew_reach(5) rtranclp.rtrancl_refl, of t] by auto
qed

theorem start_gate_opens_once_witness:
  "ClaimAgentTaskAdapterStart crew_env (crew6 crew_class) 3 ''j'' = Inr (crew7 crew_class)
   \<and> ClaimAgentTaskAdapterStart crew_env (crew9 crew_class) 3 ''j'' \<noteq> Inr crew0"
  using start_gate_opens_once [of crew_env "crew6 crew_class" 3 "''j''" "crew7 crew_class" "crew9 crew_class" crew_env "''j''" crew0]
    crew_starts crew_reach(4) crew_later(2) unfolding crew_env_sha by blast

theorem plan_text_is_final_witness:
  "\<exists>p \<in> set (ag_plans (crew3 crew_class)). \<exists>q \<in> set (ag_plans (crew9 crew_class)). pn_id q = pn_id p \<and> pn_summary q = pn_summary p"
proof -
  obtain p where p: "ag_plans (crew3 crew_class) = [p]" using map_single [OF crew_plans3] by auto
  then show ?thesis using plan_text_is_final [OF crew_reach(1) crew_later(1), of p] by auto
qed

theorem attempts_within_budget_witness:
  "\<exists>t \<in> set (ag_tasks (crew9 crew_class)). wp_enabled (tk_workflow t) \<and>
     sum_list (map am_attempt (filter (\<lambda>m. am_task m = tk_id t) (ag_attempts (crew9 crew_class)))) \<le> 2"
proof -
  obtain t where t: "ag_tasks (crew9 crew_class) = [t]" "wp_enabled (tk_workflow t)" "wp_attempts (tk_workflow t) = 2"
    using map_single [OF crew_tasks9] by auto
  then show ?thesis using attempts_within_budget [OF crew_reach(5), of t] by simp
qed

theorem success_has_evidence_witness:
  "\<exists>m \<in> set (ag_attempts (crew9 crew_class)). am_state m = ''succeeded'' \<and>
     (\<exists>k \<in> set (ag_checkpoints (crew9 crew_class)). ck_attempt k = am_id m \<and> ck_head k = am_head m)"
proof -
  obtain m where m: "ag_attempts (crew9 crew_class) = [m]" "am_state m = ''succeeded''" "am_profile m \<noteq> ''''"
    using map_single [OF crew_attempts9] by auto
  then show ?thesis using success_has_evidence [OF crew_reach(5) rtranclp.rtrancl_refl, of m] by auto
qed

theorem approval_is_separated_witness:
  "\<exists>a' p. ApproveAgentTaskPlan crew_env (crew3 crew_class) ''bob'' ''acme'' 1 2 1 = Inr (a', p) \<and> pn_approved_by p = Some ''bob''"
  using approval_is_separated [OF crew_approves, of crew_class] crew_approves [of crew_class] by blast

theorem callback_needs_live_lease_witness:
  "\<exists>a' m r. RecordAgentTaskAdapterEvent crew_env (crew7 crew_class) (crew_event ''publication_checkpoint'' ''d1'' '''' '''' 0) crew_lease = Inr (a', m, r)
     \<and> (r \<or> (\<exists>n \<in> set (ag_attempts (crew7 crew_class)). am_state n = ''running''))"
proof -
  obtain m r where e: "RecordAgentTaskAdapterEvent crew_env (crew7 crew_class) (crew_event ''publication_checkpoint'' ''d1'' '''' '''' 0) crew_lease
      = Inr (crew8 crew_class, m, r)" using crew_checks [of crew_class] by (cases "snd (projr (crew_checked crew_class))") simp
  then show ?thesis using callback_needs_live_lease [OF e] by (auto split: if_split_asm)
qed

theorem model_signal_only_narrows_witness:
  "ApplySignal (Classify crew_sha (captured crew_snapshot crew_task) ''Fix'' crew_body []) None ''deterministic'' = Some crew_class
   \<and> 80 \<le> length (TrimSpace crew_body)"
proof -
  have "ApplySignal (Classify crew_sha (captured crew_snapshot crew_task) ''Fix'' crew_body []) None ''deterministic'' = Some crew_class"
    by (simp add: ApplySignal_def crew_class_def)
  then show ?thesis using model_signal_only_narrows crew_decision by blast
qed

theorem unattached_attempt_blocks_watchdog_witness:
  "ExpireAgentTaskAttempts crew_late (crew5 crew_class) 5 = Inl (ErrAgentStatement ''scan expired agent task attempt'')"
proof -
  obtain m where m: "expired_attempts crew_late (crew5 crew_class) 5 = [m]" using map_single [OF crew_expired5] by auto
  then have "m \<in> set (ag_attempts (crew5 crew_class))"
    using expired_attempts_rows(2) [OF ag_reach_inv [OF crew_reach(3)], of m crew_late 5] by simp
  then have "am_job m = None" using map_single [OF crew_attempts5, of crew_class] by auto
  then show ?thesis using unattached_attempt_blocks_watchdog [of 5 m crew_late "crew5 crew_class"] m by simp
qed

end
