(* ===== verification/Spec2Isabelle.thy ===== *)
theory Spec2Isabelle
  imports Workflow_Properties Messaging Execution_Plan Rule_Properties Agent_Properties
begin

text \<open>
  A verification of the core of the open review platform: a Go control plane that admits pull
  request events, runs model reviews through a durable state machine over PostgreSQL and a
  transactional outbox, plans the files to review, governs and compiles rule sets, publishes
  verdicts, and lets a coding agent work on an issue under an approved plan.

  \<^bold>\<open>How the parts interact.\<close> A provider event becomes a review request and a run
  (\<open>src/internal/store/workflow.go\<close>). In the same transaction the rules of the repository are
  resolved into a snapshot (\<open>src/internal/store/rules.go\<close>, \<open>src/internal/rules/compiler.go\<close>), the
  configuration sections are frozen (\<open>src/internal/domain/review_config.go\<close>), usage is reserved
  (\<open>src/internal/store/usage.go\<close>) and messages are put into the outbox, which the relay
  (\<open>src/internal/messaging/relay.go\<close>) hands to a broker and a consumer takes up under a lease. The
  runner (\<open>src/internal/runner/runner.go\<close>) plans the scope (\<open>src/internal/risk/planner.go\<close>), stores
  it, runs the engine, filters its findings, decides the merge gate
  (\<open>src/internal/publisher/merge_gate.go\<close>), and advances the run; failed runs become tasks of an
  operator (\<open>src/internal/store/review_interventions.go\<close>).
  Beside the reviews runs a second workflow (\<open>src/internal/store/agent_tasks.go\<close>): an issue or a comment
  on a draft becomes a remediation task, its source is captured and classified
  (\<open>src/internal/agentdecision\<close>), a plan is written and approved, and a worker leases an attempt that an
  isolated adapter executes and reports by callbacks. It shares members, installations, approval policy
  and audit log with the rule governance.

  \<^bold>\<open>Conventions.\<close> A Go string is a HOL \<open>string\<close> of bytes, an \<open>int\<close> is a HOL \<open>int\<close> unless its width
  matters, a struct or a row is a \<open>record\<close>, a table a list of rows in insertion order, a transaction
  a function into \<open>error + (tables \<times> result)\<close> whose \<open>Inl\<close> is a rollback. An execution is a sequence
  of transactions: the code locks the rows it works on. Identifiers are numbers with \<open>uuid.Nil = 0\<close>,
  generated by a counter. Times are integers, read from the environment of the transaction. What
  comes from outside (digests, the printing of numbers, \<open>net/url\<close>, command output, parts not
  modelled) is an argument, and every theorem holds for all of them.

  \<^bold>\<open>Theories.\<close>
  \<^item> \<open>Prelude\<close>: strings, results and tables, with the shared automation (\<open>go_strings\<close>, \<open>table_simps\<close>).
  \<^item> \<open>Review_Run\<close>: states and transitions of a run; the machine is ranked, hence every execution ends.
  \<^item> \<open>Store_Tables\<close>, \<open>Workflow_Store\<close>: tables and transactions of the workflow store, usage and
    interventions. \<open>Workflow_Invariants\<close>, \<open>Workflow_Steps\<close>: the invariants, kept by every transaction.
    \<open>Workflow_Safety\<close>, \<open>Workflow_Properties\<close>: how rows evolve and the properties of reachable states.
  \<^item> \<open>Messaging\<close>: outbox and inbox. The locales \<open>outbox_contract\<close> and \<open>inbox_contract\<close> state what the
    relay and the consumer rely on; the statements of the store are their interpretations, and the
    loops are proved inside the locales.
  \<^item> \<open>Risk_Planner\<close>: parsing, scoring, ranking and selection of changed files. \<open>Execution_Plan\<close>: from
    the plan to the stored scope and back.
  \<^item> \<open>Go_Json\<close>, \<open>Path_Glob\<close>, \<open>Review_Config\<close>, \<open>Config_Documents\<close>, \<open>Config_Canonical\<close>: JSON decoding,
    path patterns and their meaning, the sections of the configuration, their defaults and their
    canonical form.
  \<^item> \<open>Review_Policy\<close>: publication floor, category policy, merge gate and the recorded decision.
  \<^item> \<open>Rule_Compiler\<close>: merging rule versions, exceptions, the rule file of the engine. \<open>Path_Match\<close>:
    \<open>path.Match\<close> of the standard library. \<open>Rule_Governance\<close>, \<open>Rule_Exceptions\<close>, \<open>Rule_Rollouts\<close>: drafts,
    votes, publication, bindings, exceptions and rollouts. \<open>Rule_Resolution\<close>: the rules of a review.
    \<open>Rule_Invariants\<close>, \<open>Rule_Safety\<close>, \<open>Rule_Properties\<close>: the invariant of the rule tables and the
    composition with the compiler.
  \<^item> \<open>Agent_Documents\<close>: plans, callbacks, criteria and the admission classifier
    (\<open>src/internal/domain/agent_task.go\<close>, \<open>agent_workflow.go\<close>, \<open>src/internal/agentdecision\<close>). \<open>Agent_Tasks\<close>:
    tables and transactions up to the approval. \<open>Agent_Execution\<close>: leases, start gate, callbacks,
    watchdog, delivery and recovery of a publication. \<open>Agent_Campaigns\<close>: the other writers of tasks
    and plans. \<open>Agent_Lifecycle\<close>: the abstract machine of one
    task. \<open>Agent_Invariants\<close>, \<open>Agent_Steps\<close>, \<open>Agent_Safety\<close>: the refinement, transaction by
    transaction. \<open>Agent_Samples\<close>: a concrete execution from admission to delivery.
    \<open>Agent_Properties\<close>: the properties of reachable states.

  \<^bold>\<open>What the lemmas show.\<close> Workflow: one active run per request, a gapless event log, final terminal
  states, usage that mirrors the state of the runs and stays under the quota, fenced cancellation,
  replayed retries. Messaging: a batch is settled exactly, leases are exclusive, and a
  handler that returns within its lease is the only one that runs for its message, then and later if it
  succeeds. Planning: every change is either selected or deferred, the budget holds, and the stored scope
  is well formed. Configuration: round trips, the meaning of the patterns, and the
  canonical form of a stored document is the same when its column gives it back, as long as the
  returned text stays within 64 KiB. Publication: what is published agrees with the
  recorded gate, which is never rewritten. Rules: compilation does not depend on the order of the
  sources, mandatory rules stay in force, published versions were approved by a quorum and are final,
  and a mandatory rule of a review is only missing because of an exception approved by a second person.
  Agent tasks: every transaction refines the machine of one task; nothing runs without the approved and
  unaltered plan, the start gate opens once per attempt, attempts stay within the frozen budget, a success
  has the evidence its verification profile or its task asks for, and a finished task stays as it is.

  \<^bold>\<open>Bounds and fuel.\<close> No definition uses fuel: every loop of the sources is a recursion on its data or
  has a measure. Integers that the code or a column bounds are checked against the bound in the
  definition (64 bits in JSON, 32 bits in columns, the overflow of the relay's backoff).

  \<^bold>\<open>Not modelled.\<close> The HTTP layer, authentication and credentials, the AMQP client, the engine's
  subprocess, migrations, metrics, and read-only queries, which have no state of their own or only
  move data. Of the agent workflow: who may ask for a task by a command, a label, a comment on a
  draft, a repair or a campaign and what its row holds (the writes that follow are modelled), the fence of
  the acknowledgement, the observation and decision of an acceptance, the scans and states of a
  campaign, the adapter and the model clients, and the text of comments. The issue
  store beyond the suppression of issues by exceptions, shadow replays, the layering of stored
  configurations, notifications and schedules.
\<close>

end
